(* ===== verification/Prelude.thy ===== *)
theory Prelude
  imports
    Main
    "HOL-Library.Product_Lexorder"
    "HOL-Library.List_Lexorder"
    "HOL-Library.Char_ord"
    "HOL-Library.Sublist"
begin

text \<open>
  What every component of the TAM Forge model shares: the exceptions the program raises, the
  result type that carries them, instants and calendar dates, the pieces of Python's string,
  slice and sort semantics the sources use, and the generic contract of a component whose
  operations keep an invariant (\<open>guarded_system\<close>) and only ever extend what is already
  recorded (\<open>growing_system\<close>).
\<close>

section \<open>Exceptions and results\<close>

text \<open>
  A call that may raise returns \<open>Inl e\<close> for the exception and \<open>Inr a\<close> for the value. Every
  component declares its own datatype of exceptions, one constructor per exception class; the
  argument is the message of the \<^verbatim>\<open>raise\<close> statement, without the values an f-string
  interpolates into it.
\<close>

type_synonym ('e, 'a) result = "'e + 'a"

fun bind_result :: "('e, 'a) result \<Rightarrow> ('a \<Rightarrow> ('e, 'b) result) \<Rightarrow> ('e, 'b) result" where
  "bind_result (Inl e) f = Inl e"
| "bind_result (Inr a) f = f a"

definition ensure :: "bool \<Rightarrow> 'e \<Rightarrow> ('e, unit) result" where
  "ensure b e = (if b then Inr () else Inl e)"

fun is_ok :: "('e, 'a) result \<Rightarrow> bool" where
  "is_ok (Inl e) = False"
| "is_ok (Inr a) = True"

text \<open>A loop that stops at the first exception.\<close>

fun map_result :: "('a \<Rightarrow> ('e, 'b) result) \<Rightarrow> 'a list \<Rightarrow> ('e, 'b list) result" where
  "map_result f [] = Inr []"
| "map_result f (x # xs) =
     bind_result (f x) (\<lambda>y. bind_result (map_result f xs) (\<lambda>ys. Inr (y # ys)))"

named_theorems result_simps \<open>how a result unfolds\<close>

lemma bind_result_Inr_iff [result_simps]:
  "bind_result r f = Inr b \<longleftrightarrow> (\<exists>a. r = Inr a \<and> f a = Inr b)"
  by (cases r) auto

lemma bind_result_Inl_iff [result_simps]:
  "bind_result r f = Inl e \<longleftrightarrow> r = Inl e \<or> (\<exists>a. r = Inr a \<and> f a = Inl e)"
  by (cases r) auto

lemma ensure_Inr_iff [result_simps]: "ensure b e = Inr u \<longleftrightarrow> b"
  by (simp add: ensure_def)

lemma ensure_Inl_iff [result_simps]: "ensure b e = Inl e' \<longleftrightarrow> \<not> b \<and> e' = e"
  by (auto simp: ensure_def)

lemma ensure_simps [simp]: "ensure True e = Inr ()" "ensure False e = Inl e"
  by (simp_all add: ensure_def)

text \<open>A chain of guards that raise succeeds when no guard fires.\<close>

lemma guard_Inr_iff: "(if b then Inl e else r) = Inr u \<longleftrightarrow> \<not> b \<and> r = Inr u"
  by simp

lemma is_ok_iff: "is_ok r \<longleftrightarrow> (\<exists>a. r = Inr a)"
  by (cases r) auto

lemma map_result_Inr:
  "map_result f xs = Inr ys \<longleftrightarrow> list_all2 (\<lambda>x y. f x = Inr y) xs ys"
proof (induction xs arbitrary: ys)
  case Nil
  then show ?case by auto
next
  case (Cons x xs)
  then show ?case by (cases ys) (auto simp: result_simps)
qed

lemma map_result_length: "map_result f xs = Inr ys \<Longrightarrow> length ys = length xs"
  by (auto simp: map_result_Inr dest: list_all2_lengthD)

section \<open>Time\<close>

text \<open>
  A timezone-aware \<^verbatim>\<open>datetime\<close> is its wall clock reading and its UTC offset, both in
  microseconds; ordering and subtraction of two aware values use the instant. A naive value has
  no offset. Fields that the code has already checked to be aware, or that come from a
  \<^verbatim>\<open>timestamptz\<close> column, are instants: microseconds since 1970-01-01T00:00Z.
\<close>

type_synonym instant = int

datatype datetime = Naive (wall: int) | Aware (wall: int) (utcoffset: int)

fun aware :: "datetime \<Rightarrow> bool" where
  "aware (Naive w) = False"
| "aware (Aware w off) = True"

fun instant_of :: "datetime \<Rightarrow> instant" where
  "instant_of (Naive w) = w"
| "instant_of (Aware w off) = w - off"

definition td_seconds :: "int \<Rightarrow> int" where "td_seconds n = n * 1000000"
definition td_minutes :: "int \<Rightarrow> int" where "td_minutes n = n * 60000000"
definition td_days :: "int \<Rightarrow> int" where "td_days n = n * 86400000000"

lemmas duration_defs = td_seconds_def td_minutes_def td_days_def

text \<open>
  A calendar date is its proleptic Gregorian ordinal (day 1 is 0001-01-01, a Monday), as
  \<^verbatim>\<open>date.toordinal\<close> gives it.
\<close>

type_synonym date = int

definition max_date :: date where "max_date = 3652059"

definition weekday :: "date \<Rightarrow> int" where
  "weekday d = (d + 6) mod 7"

definition date_of :: "datetime \<Rightarrow> date" where
  "date_of t = wall t div td_days 1 + 719163"

lemma weekday_range: "0 \<le> weekday d \<and> weekday d < 7"
  by (simp add: weekday_def)

lemma weekday_plus_7 [simp]: "weekday (d + 7) = weekday d"
  unfolding weekday_def using mod_add_self2 [of "d + 6" 7] by (simp add: ac_simps)

lemma weekday_Suc: "weekday (d + 1) = (weekday d + 1) mod 7"
  unfolding weekday_def using mod_add_left_eq [of "d + 6" 7 1] by (simp add: ac_simps)

section \<open>Strings, slices and sorting\<close>

definition is_space :: "char \<Rightarrow> bool" where
  "is_space c \<longleftrightarrow> (let n = of_char c :: nat in
     (9 \<le> n \<and> n \<le> 13) \<or> (28 \<le> n \<and> n \<le> 32) \<or> n = 133 \<or> n = 160)"

definition strip :: "string \<Rightarrow> string" where
  "strip s = rev (dropWhile is_space (rev (dropWhile is_space s)))"

definition blank :: "string \<Rightarrow> bool" where
  "blank s \<longleftrightarrow> strip s = []"

lemma blank_iff: "blank s \<longleftrightarrow> (\<forall>c \<in> set s. is_space c)"
proof
  assume "blank s"
  then have "dropWhile is_space (rev (dropWhile is_space s)) = []"
    by (simp add: blank_def strip_def)
  then have all: "\<forall>c \<in> set (dropWhile is_space s). is_space c"
    by (simp add: dropWhile_eq_Nil_conv)
  have "dropWhile is_space s = []"
  proof (rule ccontr)
    assume ne: "dropWhile is_space s \<noteq> []"
    then have "\<not> is_space (hd (dropWhile is_space s))" by (rule hd_dropWhile)
    with all ne show False by (metis hd_in_set)
  qed
  then show "\<forall>c \<in> set s. is_space c" by (simp add: dropWhile_eq_Nil_conv)
next
  assume "\<forall>c \<in> set s. is_space c"
  then have "dropWhile is_space s = []" by (simp only: dropWhile_eq_Nil_conv)
  then show "blank s" unfolding blank_def strip_def by (simp only: rev.simps dropWhile.simps)
qed

lemma blank_Nil [simp]: "blank []"
  by (simp add: blank_iff)

text \<open>
  \<^verbatim>\<open>xs[-n:]\<close> for \<open>n \<ge> 0\<close>: the last \<open>n\<close> items, and the whole list when \<open>n = 0\<close>.
\<close>

definition py_suffix :: "nat \<Rightarrow> 'a list \<Rightarrow> 'a list" where
  "py_suffix n xs = (if n = 0 then xs else drop (length xs - n) xs)"

lemma set_py_suffix: "set (py_suffix n xs) \<subseteq> set xs"
  by (auto simp: py_suffix_def dest: in_set_dropD)

lemma length_py_suffix: "0 < n \<Longrightarrow> length (py_suffix n xs) = min n (length xs)"
  by (simp add: py_suffix_def)

lemma py_suffix_sorted: "sorted xs \<Longrightarrow> sorted (py_suffix n xs)"
  by (simp add: py_suffix_def sorted_wrt_drop)

lemma map_py_suffix: "map f (py_suffix n xs) = py_suffix n (map f xs)"
  by (simp add: py_suffix_def drop_map)

text \<open>
  \<^verbatim>\<open>sorted(xs, key=f)\<close> is stable, and so is \<open>sort_key\<close>; with \<^verbatim>\<open>reverse=True\<close> the
  equal elements keep their order too. \<^verbatim>\<open>min(xs, key=f)\<close> is the first least element.
\<close>

definition sort_desc :: "('a \<Rightarrow> 'k::linorder) \<Rightarrow> 'a list \<Rightarrow> 'a list" where
  "sort_desc f xs = rev (sort_key f (rev xs))"

definition first_min :: "('a \<Rightarrow> 'k::linorder) \<Rightarrow> 'a list \<Rightarrow> 'a option" where
  "first_min f xs = (case sort_key f xs of [] \<Rightarrow> None | x # _ \<Rightarrow> Some x)"

lemma set_sort_desc [simp]: "set (sort_desc f xs) = set xs"
  by (simp add: sort_desc_def)

lemma length_sort_desc [simp]: "length (sort_desc f xs) = length xs"
  by (simp add: sort_desc_def)

lemma sorted_sort_desc: "sorted_wrt (\<lambda>x y. f y \<le> f x) (sort_desc f xs)"
  using sorted_sort_key [of f "rev xs"]
  by (simp add: sort_desc_def sorted_wrt_rev sorted_map)

lemma find_in_set: "find P xs = Some x \<Longrightarrow> x \<in> set xs \<and> P x"
  by (auto simp: find_Some_iff)

lemma insort_key_map: "insort_key f (g x) (map g xs) = map g (insort_key (\<lambda>y. f (g y)) x xs)"
  by (induction xs) auto

lemma sort_key_map: "sort_key f (map g xs) = map g (sort_key (\<lambda>y. f (g y)) xs)"
  by (induction xs) (auto simp: sort_key_def insort_key_map)

lemma first_min_None_iff: "first_min f xs = None \<longleftrightarrow> xs = []"
  by (cases "sort_key f xs")
    (auto simp: first_min_def dest: arg_cong [where f = length])

lemma first_min_Some:
  assumes "first_min f xs = Some x"
  shows "x \<in> set xs" and "\<forall>y \<in> set xs. f x \<le> f y"
proof -
  from assms obtain ys where ys: "sort_key f xs = x # ys"
    by (auto simp: first_min_def split: list.splits)
  then have "set xs = set (x # ys)" by (metis set_sort)
  moreover have "sorted (map f (x # ys))" by (metis ys sorted_sort_key)
  ultimately show "x \<in> set xs" "\<forall>y \<in> set xs. f x \<le> f y" by auto
qed

lemma first_min_unique:
  assumes "inj_on f (set xs)" "x \<in> set xs" "\<forall>y \<in> set xs. f x \<le> f y"
  shows "first_min f xs = Some x"
proof (cases "first_min f xs")
  case None
  with assms show ?thesis by (simp add: first_min_None_iff)
next
  case (Some z)
  with assms first_min_Some [OF Some] have "f z = f x" by (meson antisym)
  with assms Some first_min_Some [OF Some] show ?thesis by (metis inj_onD)
qed

section \<open>Nullable columns\<close>

text \<open>A check on a nullable column passes when the column is null.\<close>

fun null_or :: "('a \<Rightarrow> bool) \<Rightarrow> 'a option \<Rightarrow> bool" where
  "null_or P None = True"
| "null_or P (Some v) = P v"

section \<open>Rows that only grow\<close>

text \<open>A value that is written at most once, and a table whose rows only change in a given way.\<close>

definition frozen :: "'a option \<Rightarrow> 'a option \<Rightarrow> bool" where
  "frozen old t \<longleftrightarrow> old = None \<or> t = old"

lemma frozen_refl [simp]: "frozen x x"
  by (simp add: frozen_def)

lemma frozen_trans: "frozen x y \<Longrightarrow> frozen y z \<Longrightarrow> frozen x z"
  by (auto simp: frozen_def)

definition rows_grow :: "('r \<Rightarrow> 'r \<Rightarrow> bool) \<Rightarrow> 'r list \<Rightarrow> 'r list \<Rightarrow> bool" where
  "rows_grow R xs ys \<longleftrightarrow> (\<exists>us vs. ys = us @ vs \<and> list_all2 R xs us)"

lemma rows_grow_refl: "(\<And>x. R x x) \<Longrightarrow> rows_grow R xs xs"
  unfolding rows_grow_def by (intro exI [of _ xs] exI [of _ "[]"]) (simp add: list_all2_refl)

lemma rows_grow_append: "(\<And>x. R x x) \<Longrightarrow> rows_grow R xs (xs @ ys)"
  unfolding rows_grow_def by (intro exI [of _ xs] exI [of _ ys]) (simp add: list_all2_refl)

lemma rows_grow_map: "(\<And>x. x \<in> set xs \<Longrightarrow> R x (f x)) \<Longrightarrow> rows_grow R xs (map f xs @ ys)"
  unfolding rows_grow_def
  by (intro exI [of _ "map f xs"] exI [of _ ys]) (simp add: list_all2_map2 list.rel_refl_strong)

lemma rows_grow_trans:
  assumes "\<And>x y z. R x y \<Longrightarrow> R y z \<Longrightarrow> R x z" "rows_grow R xs ys" "rows_grow R ys zs"
  shows "rows_grow R xs zs"
proof -
  from assms(2) obtain us vs where u: "ys = us @ vs" "list_all2 R xs us" by (auto simp: rows_grow_def)
  from assms(3) obtain ws ts where w: "zs = ws @ ts" "list_all2 R ys ws" by (auto simp: rows_grow_def)
  then obtain w1 w2 where w12: "ws = w1 @ w2" "list_all2 R us w1"
    using u(1) by (auto simp: list_all2_append1)
  have "list_all2 R xs w1"
    by (rule list_all2_trans [OF _ u(2) w12(2)]) (rule assms(1))
  then show ?thesis using w(1) w12(1) by (auto simp: rows_grow_def)
qed

lemma rows_growD: "rows_grow R xs ys \<Longrightarrow> x \<in> set xs \<Longrightarrow> \<exists>y \<in> set ys. R x y"
  by (fastforce simp: rows_grow_def list_all2_conv_all_nth in_set_conv_nth [of x])

section \<open>The contract of a guarded component\<close>

text \<open>
  Several components have the same shape: a state, commands that either raise or return a new
  state, and an invariant every accepted command keeps. A run executes commands in order and
  skips the ones that raise, because a raised command leaves the state as it was.
\<close>

fun run_commands :: "('s \<Rightarrow> 'c \<Rightarrow> ('e, 's) result) \<Rightarrow> 's \<Rightarrow> 'c list \<Rightarrow> 's" where
  "run_commands exec s [] = s"
| "run_commands exec s (c # cs) =
     run_commands exec (case exec s c of Inl e \<Rightarrow> s | Inr s' \<Rightarrow> s') cs"

lemma run_commands_append:
  "run_commands f s (xs @ ys) = run_commands f (run_commands f s xs) ys"
  by (induction xs arbitrary: s) auto

locale guarded_system =
  fixes exec :: "'s \<Rightarrow> 'c \<Rightarrow> ('e, 's) result"
    and inv :: "'s \<Rightarrow> bool"
  assumes exec_inv: "inv s \<Longrightarrow> exec s c = Inr s' \<Longrightarrow> inv s'"
begin

lemma run_inv: "inv s \<Longrightarrow> inv (run_commands exec s cs)"
proof (induction cs arbitrary: s)
  case Nil
  then show ?case by simp
next
  case (Cons c cs)
  then show ?case by (cases "exec s c") (auto intro: exec_inv)
qed

end

text \<open>
  A component that only extends what it has recorded: every accepted command moves the state up
  in a preorder.
\<close>

locale growing_system = guarded_system +
  fixes extends :: "'a \<Rightarrow> 'a \<Rightarrow> bool"
  assumes extends_refl: "extends s s"
    and extends_trans: "extends s t \<Longrightarrow> extends t u \<Longrightarrow> extends s u"
    and exec_extends: "inv s \<Longrightarrow> exec s c = Inr s' \<Longrightarrow> extends s s'"
begin

lemma run_extends: "inv s \<Longrightarrow> extends s (run_commands exec s cs)"
proof (induction cs arbitrary: s)
  case Nil
  then show ?case by (simp add: extends_refl)
next
  case (Cons c cs)
  show ?case
  proof (cases "exec s c")
    case (Inl e)
    with Cons show ?thesis by simp
  next
    case (Inr s')
    then have "extends s s'" "inv s'" using Cons.prems exec_extends exec_inv by blast+
    with Inr Cons.IH [of s'] show ?thesis by (auto intro: extends_trans)
  qed
qed

end

end
