(* ===== verification/Activity.thy ===== *)
theory Activity
  imports Prelude
begin

text \<open>
  The learner's activity workflow: the closed transition table with its optimistic version check
  (\<^verbatim>\<open>learning/state_machine.py\<close>), the server-authoritative focus timer
  (\<^verbatim>\<open>learning/timers.py\<close>) and the study-time budgets (\<^verbatim>\<open>learning/time_policy.py\<close>).
\<close>

section \<open>Activity transitions\<close>

datatype activity_error =
    ActivityStateError string
  | TimerPolicyError string
  | TimePolicyError string
  | TypeError

datatype activity_state =
    READY | ACTIVE | PAUSED | OUTPUT_COMMITTED | SELF_REVIEW_COMPLETE | AI_PROCESSING
  | FEEDBACK_READY | CORRECTION_DUE | DEMONSTRATED | NEEDS_WORK | INCOMPLETE | SUPERSEDED

definition activity_transitions :: "(activity_state \<times> activity_state) list" where
  "activity_transitions =
     [(READY, ACTIVE),
      (ACTIVE, PAUSED),
      (ACTIVE, OUTPUT_COMMITTED),
      (ACTIVE, INCOMPLETE),
      (PAUSED, ACTIVE),
      (PAUSED, INCOMPLETE),
      (OUTPUT_COMMITTED, SELF_REVIEW_COMPLETE),
      (SELF_REVIEW_COMPLETE, AI_PROCESSING),
      (AI_PROCESSING, FEEDBACK_READY),
      (FEEDBACK_READY, CORRECTION_DUE),
      (CORRECTION_DUE, DEMONSTRATED),
      (CORRECTION_DUE, NEEDS_WORK)]"

record transition_decision =
  td_state :: activity_state
  td_next_version :: int

definition transition ::
    "activity_state \<Rightarrow> activity_state \<Rightarrow> int \<Rightarrow> int \<Rightarrow> string \<Rightarrow> string
      \<Rightarrow> (activity_error, transition_decision) result" where
  "transition current target actual_version expected_version day_type day_status =
     (if actual_version \<le> 0 \<or> expected_version \<noteq> actual_version
      then Inl (ActivityStateError ''stale activity version'')
      else if (current, target) \<notin> set activity_transitions
      then Inl (ActivityStateError ''invalid activity state transition'')
      else if target = ACTIVE
           \<and> (day_type = ''sunday''
              \<or> day_status \<notin> {''planned'', ''in_progress''}
              \<or> (current = PAUSED \<and> day_status \<noteq> ''in_progress''))
      then Inl (ActivityStateError ''study day does not allow starting work'')
      else Inr \<lparr>td_state = target, td_next_version = actual_version + 1\<rparr>)"

definition assert_output_editable :: "activity_state \<Rightarrow> (activity_error, unit) result" where
  "assert_output_editable state =
     ensure (state \<in> {READY, ACTIVE, PAUSED})
       (ActivityStateError ''committed output cannot be edited'')"

definition assert_attempt_number :: "int \<Rightarrow> (activity_error, unit) result" where
  "assert_attempt_number attempt_number =
     ensure (attempt_number \<in> {1, 2}) (ActivityStateError ''Attempt C is not allowed'')"

text \<open>
  An activity row holds its state and its version. A command names the target, the version the
  client read, and the type and status of its study day; an accepted command stores the decision.
\<close>

record activity =
  act_state :: activity_state
  act_version :: int

record transition_command =
  tc_target :: activity_state
  tc_expected_version :: int
  tc_day_type :: string
  tc_day_status :: string

definition apply_transition ::
    "activity \<Rightarrow> transition_command \<Rightarrow> (activity_error, activity) result" where
  "apply_transition a c =
     bind_result
       (transition (act_state a) (tc_target c) (act_version a) (tc_expected_version c)
          (tc_day_type c) (tc_day_status c))
       (\<lambda>d. Inr \<lparr>act_state = td_state d, act_version = td_next_version d\<rparr>)"

text \<open>The step relation of accepted commands, and the states a new activity can reach.\<close>

inductive activity_step :: "activity \<Rightarrow> activity \<Rightarrow> bool" where
  accepted: "apply_transition a c = Inr b \<Longrightarrow> activity_step a b"

inductive activity_trace :: "activity \<Rightarrow> activity_state list \<Rightarrow> activity \<Rightarrow> bool" where
  start: "activity_trace a [act_state a] a"
| next_state: "activity_trace a ss b \<Longrightarrow> activity_step b c
    \<Longrightarrow> activity_trace a (ss @ [act_state c]) c"

inductive_cases activity_stepE: "activity_step a b"

lemma transition_Inr_iff:
  "transition current target av ev dt ds = Inr d \<longleftrightarrow>
     0 < av \<and> ev = av \<and> (current, target) \<in> set activity_transitions
     \<and> (target = ACTIVE \<longrightarrow> dt \<noteq> ''sunday'' \<and> ds \<in> {''planned'', ''in_progress''}
          \<and> (current = PAUSED \<longrightarrow> ds = ''in_progress''))
     \<and> d = \<lparr>td_state = target, td_next_version = av + 1\<rparr>"
  by (auto simp: transition_def)

lemma apply_transition_Inr_iff:
  "apply_transition a c = Inr b \<longleftrightarrow>
     0 < act_version a \<and> tc_expected_version c = act_version a
     \<and> (act_state a, tc_target c) \<in> set activity_transitions
     \<and> (tc_target c = ACTIVE \<longrightarrow> tc_day_type c \<noteq> ''sunday''
          \<and> tc_day_status c \<in> {''planned'', ''in_progress''}
          \<and> (act_state a = PAUSED \<longrightarrow> tc_day_status c = ''in_progress''))
     \<and> b = \<lparr>act_state = tc_target c, act_version = act_version a + 1\<rparr>"
  by (auto simp: apply_transition_def result_simps transition_Inr_iff)

lemma activity_step_pair:
  "activity_step a b \<Longrightarrow> (act_state a, act_state b) \<in> set activity_transitions"
  by (auto simp: apply_transition_Inr_iff elim!: activity_stepE)

lemma activity_step_version: "activity_step a b \<Longrightarrow> act_version b = act_version a + 1"
  by (auto simp: apply_transition_Inr_iff elim!: activity_stepE)

lemma transition_from_cases:
  "(s, t) \<in> set activity_transitions \<Longrightarrow>
     (s = READY \<and> t = ACTIVE) \<or> (s = ACTIVE \<and> t \<in> {PAUSED, OUTPUT_COMMITTED, INCOMPLETE})
     \<or> (s = PAUSED \<and> t \<in> {ACTIVE, INCOMPLETE})
     \<or> (s = OUTPUT_COMMITTED \<and> t = SELF_REVIEW_COMPLETE)
     \<or> (s = SELF_REVIEW_COMPLETE \<and> t = AI_PROCESSING)
     \<or> (s = AI_PROCESSING \<and> t = FEEDBACK_READY)
     \<or> (s = FEEDBACK_READY \<and> t = CORRECTION_DUE)
     \<or> (s = CORRECTION_DUE \<and> t \<in> {DEMONSTRATED, NEEDS_WORK})"
  by (auto simp: activity_transitions_def)

text \<open>
  How far an activity has come. The rank never falls, and it stays the same only between
  \<open>ACTIVE\<close> and \<open>PAUSED\<close>.
\<close>

fun activity_rank :: "activity_state \<Rightarrow> nat" where
  "activity_rank READY = 0"
| "activity_rank ACTIVE = 1"
| "activity_rank PAUSED = 1"
| "activity_rank OUTPUT_COMMITTED = 2"
| "activity_rank SELF_REVIEW_COMPLETE = 3"
| "activity_rank AI_PROCESSING = 4"
| "activity_rank FEEDBACK_READY = 5"
| "activity_rank CORRECTION_DUE = 6"
| "activity_rank DEMONSTRATED = 7"
| "activity_rank NEEDS_WORK = 7"
| "activity_rank INCOMPLETE = 7"
| "activity_rank SUPERSEDED = 7"

lemma activity_rank_mono:
  "(s, t) \<in> set activity_transitions \<Longrightarrow>
     activity_rank s < activity_rank t \<or> {s, t} = {ACTIVE, PAUSED}"
  by (auto dest!: transition_from_cases)

lemma trace_last: "activity_trace a ss b \<Longrightarrow> ss \<noteq> [] \<and> last ss = act_state b"
  by (induction rule: activity_trace.induct) auto

lemma trace_version:
  "activity_trace a ss b \<Longrightarrow> act_version b = act_version a + int (length ss) - 1"
  by (induction rule: activity_trace.induct) (auto dest: activity_step_version)

text \<open>
  The states an activity must have passed through before it can be in a given one: an invariant
  of the traces of a new activity.
\<close>

fun required_before :: "activity_state \<Rightarrow> activity_state set" where
  "required_before READY = {}"
| "required_before ACTIVE = {READY}"
| "required_before PAUSED = {READY, ACTIVE}"
| "required_before OUTPUT_COMMITTED = {READY, ACTIVE}"
| "required_before SELF_REVIEW_COMPLETE = {READY, ACTIVE, OUTPUT_COMMITTED}"
| "required_before AI_PROCESSING = {READY, ACTIVE, OUTPUT_COMMITTED, SELF_REVIEW_COMPLETE}"
| "required_before FEEDBACK_READY =
     {READY, ACTIVE, OUTPUT_COMMITTED, SELF_REVIEW_COMPLETE, AI_PROCESSING}"
| "required_before CORRECTION_DUE =
     {READY, ACTIVE, OUTPUT_COMMITTED, SELF_REVIEW_COMPLETE, AI_PROCESSING, FEEDBACK_READY}"
| "required_before DEMONSTRATED =
     {READY, ACTIVE, OUTPUT_COMMITTED, SELF_REVIEW_COMPLETE, AI_PROCESSING, FEEDBACK_READY,
      CORRECTION_DUE}"
| "required_before NEEDS_WORK =
     {READY, ACTIVE, OUTPUT_COMMITTED, SELF_REVIEW_COMPLETE, AI_PROCESSING, FEEDBACK_READY,
      CORRECTION_DUE}"
| "required_before INCOMPLETE = {READY, ACTIVE}"
| "required_before SUPERSEDED = {}"

lemma required_before_step:
  "(s, t) \<in> set activity_transitions \<Longrightarrow> required_before t \<subseteq> insert s (required_before s)"
  by (auto dest!: transition_from_cases)

lemma trace_required_before:
  assumes "activity_trace a ss b" "act_state a = READY"
  shows "required_before (act_state b) \<subseteq> set ss"
  using assms
proof (induction rule: activity_trace.induct)
  case (start a)
  then show ?case by simp
next
  case (next_state a ss b c)
  have "required_before (act_state c) \<subseteq> insert (act_state b) (required_before (act_state b))"
    using next_state.hyps(2) by (blast dest: activity_step_pair required_before_step)
  moreover have "act_state b \<in> set ss"
    using trace_last [OF next_state.hyps(1)] by (metis last_in_set)
  ultimately show ?case using next_state by auto
qed

lemma trace_never_superseded:
  "activity_trace a ss b \<Longrightarrow> act_state a \<noteq> SUPERSEDED \<Longrightarrow> act_state b \<noteq> SUPERSEDED"
proof (induction rule: activity_trace.induct)
  case (start a)
  then show ?case by simp
next
  case (next_state a ss b c)
  then show ?case by (auto dest!: activity_step_pair transition_from_cases)
qed

section \<open>The focus timer\<close>

definition MAX_HEARTBEAT_GAP_SECONDS :: int where "MAX_HEARTBEAT_GAP_SECONDS = 30"
definition DAY_HARD_STOP_SECONDS :: int where "DAY_HARD_STOP_SECONDS = 255 * 60"

record timer_state =
  started_at :: datetime
  last_heartbeat_at :: datetime
  counted_seconds :: int
  last_client_sequence :: int
  paused_at :: "datetime option"
  ended_at :: "datetime option"

definition is_open :: "timer_state \<Rightarrow> bool" where
  "is_open t \<longleftrightarrow> ended_at t = None"

record heartbeat_decision =
  hd_timer :: timer_state
  hd_added_seconds :: int
  hd_day_counted_seconds :: int
  hd_hard_stop_recommended :: bool

definition start_timer :: "datetime \<Rightarrow> (activity_error, timer_state) result" where
  "start_timer server_now =
     (if \<not> aware server_now
      then Inl (TimerPolicyError ''server timestamp must be timezone-aware'')
      else Inr \<lparr>started_at = server_now, last_heartbeat_at = server_now, counted_seconds = 0,
                last_client_sequence = 0, paused_at = None, ended_at = None\<rparr>)"

definition ensure_single_open_timer ::
    "timer_state list \<Rightarrow> (activity_error, timer_state option) result" where
  "ensure_single_open_timer timers =
     (let open_timers = filter is_open timers
      in if 1 < length open_timers
         then Inl (TimerPolicyError ''activity has more than one open timer'')
         else Inr (case open_timers of [] \<Rightarrow> None | t # _ \<Rightarrow> Some t))"

text \<open>
  Comparing the aware \<open>server_now\<close> with a naive stored heartbeat raises \<open>TypeError\<close>; whole
  seconds of the difference are \<^verbatim>\<open>int(delta.total_seconds())\<close>.
\<close>

definition apply_heartbeat ::
    "timer_state \<Rightarrow> datetime \<Rightarrow> int \<Rightarrow> int \<Rightarrow> int \<Rightarrow> int
      \<Rightarrow> (activity_error, heartbeat_decision) result" where
  "apply_heartbeat timer server_now client_sequence day_counted_seconds
       maximum_gap_seconds day_hard_stop_seconds =
     (if \<not> aware server_now
      then Inl (TimerPolicyError ''server timestamp must be timezone-aware'')
      else if \<not> is_open timer \<or> paused_at timer \<noteq> None
      then Inl (TimerPolicyError ''timer is not open'')
      else if client_sequence \<le> last_client_sequence timer
      then Inl (TimerPolicyError ''heartbeat sequence must increase'')
      else if \<not> aware (last_heartbeat_at timer)
      then Inl TypeError
      else if instant_of server_now < instant_of (last_heartbeat_at timer)
      then Inl (TimerPolicyError ''server heartbeat cannot move backward'')
      else if day_counted_seconds < 0 \<or> day_hard_stop_seconds \<le> 0
      then Inl (TimerPolicyError ''day timer total is invalid'')
      else if maximum_gap_seconds \<le> 0
      then Inl (TimerPolicyError ''heartbeat gap must be positive'')
      else
        (let elapsed_seconds =
               (instant_of server_now - instant_of (last_heartbeat_at timer)) div 1000000;
             bounded_seconds = min elapsed_seconds maximum_gap_seconds;
             remaining_seconds = max 0 (day_hard_stop_seconds - day_counted_seconds);
             added_seconds = min bounded_seconds remaining_seconds;
             next_day_seconds = day_counted_seconds + added_seconds;
             updated = timer\<lparr>last_heartbeat_at := server_now,
                             counted_seconds := counted_seconds timer + added_seconds,
                             last_client_sequence := client_sequence\<rparr>
         in Inr \<lparr>hd_timer = updated, hd_added_seconds = added_seconds,
                 hd_day_counted_seconds = next_day_seconds,
                 hd_hard_stop_recommended = (day_hard_stop_seconds \<le> next_day_seconds)\<rparr>))"

text \<open>
  A focus session: the open timer of one activity and the day total it feeds, driven by the
  heartbeats the server accepts with the source's default bounds. The day total at the start of
  the session is kept so that the two counters can be compared.
\<close>

record focus_session =
  fs_timer :: timer_state
  fs_day_seconds :: int
  fs_day_start :: int
  fs_beats :: nat

definition heartbeat ::
    "focus_session \<Rightarrow> datetime \<times> int \<Rightarrow> (activity_error, focus_session) result" where
  "heartbeat s beat =
     bind_result
       (apply_heartbeat (fs_timer s) (fst beat) (snd beat) (fs_day_seconds s)
          MAX_HEARTBEAT_GAP_SECONDS DAY_HARD_STOP_SECONDS)
       (\<lambda>d. Inr (s\<lparr>fs_timer := hd_timer d, fs_day_seconds := hd_day_counted_seconds d,
                  fs_beats := Suc (fs_beats s)\<rparr>))"

definition focus_inv :: "focus_session \<Rightarrow> bool" where
  "focus_inv s \<longleftrightarrow>
     aware (started_at (fs_timer s)) \<and> aware (last_heartbeat_at (fs_timer s))
     \<and> 0 \<le> counted_seconds (fs_timer s)
     \<and> fs_day_seconds s = fs_day_start s + counted_seconds (fs_timer s)
     \<and> 0 \<le> fs_day_start s
     \<and> fs_day_seconds s \<le> max (fs_day_start s) DAY_HARD_STOP_SECONDS
     \<and> td_seconds (counted_seconds (fs_timer s))
         \<le> instant_of (last_heartbeat_at (fs_timer s)) - instant_of (started_at (fs_timer s))
     \<and> counted_seconds (fs_timer s) \<le> MAX_HEARTBEAT_GAP_SECONDS * int (fs_beats s)
     \<and> int (fs_beats s) \<le> last_client_sequence (fs_timer s)"

definition open_session :: "timer_state \<Rightarrow> int \<Rightarrow> focus_session" where
  "open_session t day_seconds =
     \<lparr>fs_timer = t, fs_day_seconds = day_seconds, fs_day_start = day_seconds, fs_beats = 0\<rparr>"

lemma apply_heartbeat_bounds:
  assumes "apply_heartbeat t now seq day gap stop = Inr d"
  shows "0 \<le> hd_added_seconds d"
    and "hd_added_seconds d \<le> gap"
    and "td_seconds (hd_added_seconds d) \<le> instant_of now - instant_of (last_heartbeat_at t)"
    and "hd_day_counted_seconds d = day + hd_added_seconds d"
    and "hd_day_counted_seconds d \<le> max day stop"
    and "hd_timer d = t\<lparr>last_heartbeat_at := now,
           counted_seconds := counted_seconds t + hd_added_seconds d,
           last_client_sequence := seq\<rparr>"
    and "last_client_sequence t < seq" and "aware now" and "0 \<le> day"
  using assms
  by (auto simp: apply_heartbeat_def Let_def td_seconds_def min_def max_def
      split: if_splits)

lemma start_timer_focus_inv:
  assumes "start_timer now = Inr t" "0 \<le> day"
  shows "focus_inv (open_session t day)"
  using assms
  by (auto simp: start_timer_def open_session_def focus_inv_def td_seconds_def split: if_splits)

lemma heartbeat_focus_inv:
  assumes inv: "focus_inv s" and step: "heartbeat s beat = Inr s'"
  shows "focus_inv s'"
proof -
  obtain d where d: "apply_heartbeat (fs_timer s) (fst beat) (snd beat) (fs_day_seconds s)
          MAX_HEARTBEAT_GAP_SECONDS DAY_HARD_STOP_SECONDS = Inr d"
    and s': "s' = s\<lparr>fs_timer := hd_timer d, fs_day_seconds := hd_day_counted_seconds d,
                  fs_beats := Suc (fs_beats s)\<rparr>"
    using step by (auto simp: heartbeat_def result_simps)
  note b = apply_heartbeat_bounds [OF d]
  have "td_seconds (counted_seconds (fs_timer s) + hd_added_seconds d)
      \<le> instant_of (fst beat) - instant_of (started_at (fs_timer s))"
    using inv b(3) by (simp add: focus_inv_def td_seconds_def)
  then show ?thesis
    using inv b by (auto simp: focus_inv_def s' MAX_HEARTBEAT_GAP_SECONDS_def)
qed

interpretation focus: guarded_system heartbeat focus_inv
  by unfold_locales (rule heartbeat_focus_inv)

section \<open>Study-time budgets\<close>

datatype day_type = Weekday | Saturday | Sunday

datatype focus_kind = Focused | Real_interview | Async_processing

record day_budget =
  day_type :: day_type
  target_minutes :: int
  acceptable_minimum :: int
  maximum_minutes :: int

record focus_entry =
  fe_kind :: focus_kind
  fe_minutes :: int

definition mk_focus_entry :: "focus_kind \<Rightarrow> int \<Rightarrow> (activity_error, focus_entry) result" where
  "mk_focus_entry kind mins =
     (if mins < 0 then Inl (TimePolicyError ''focused minutes cannot be negative'')
      else Inr \<lparr>fe_kind = kind, fe_minutes = mins\<rparr>)"

record completion_gate =
  required_outputs_satisfied :: bool
  pass_conditions_satisfied :: bool

definition DayBudget :: "day_type \<Rightarrow> int \<Rightarrow> int \<Rightarrow> int \<Rightarrow> day_budget" where
  "DayBudget t target lo hi =
     \<lparr>day_type = t, target_minutes = target, acceptable_minimum = lo, maximum_minutes = hi\<rparr>"

definition budget_for :: "date \<Rightarrow> day_budget" where
  "budget_for local_date =
     (if weekday local_date = 6 then DayBudget Sunday 0 0 0
      else if weekday local_date = 5 then DayBudget Saturday 120 0 120
      else DayBudget Weekday 240 225 255)"

definition budget_for_day :: "string \<Rightarrow> int \<Rightarrow> (activity_error, day_budget) result" where
  "budget_for_day kind budget_minutes =
     (if budget_minutes < 0 then Inl (TimePolicyError ''day budget cannot be negative'')
      else if kind = ''assessment''
      then Inr (DayBudget Saturday budget_minutes 0 budget_minutes)
      else if kind = ''weekday''
      then Inr (DayBudget Weekday budget_minutes (max (budget_minutes - 15) 0)
                  (budget_minutes + 15))
      else Inl (TimePolicyError ''unknown scheme day kind''))"

definition validate_planned_minutes :: "day_budget \<Rightarrow> int \<Rightarrow> (activity_error, unit) result" where
  "validate_planned_minutes budget planned_minutes =
     (if planned_minutes < 0
      then Inl (TimePolicyError ''planned minutes cannot be negative'')
      else if maximum_minutes budget < planned_minutes
      then Inl (TimePolicyError ''study cannot exceed the day maximum'')
      else Inr ())"

definition hard_stop_recommended :: "day_budget \<Rightarrow> int \<Rightarrow> (activity_error, bool) result" where
  "hard_stop_recommended budget focused_minutes =
     (if focused_minutes < 0
      then Inl (TimePolicyError ''focused minutes cannot be negative'')
      else Inr (0 < maximum_minutes budget \<and> maximum_minutes budget \<le> focused_minutes))"

definition counted_focused_minutes :: "focus_entry list \<Rightarrow> int" where
  "counted_focused_minutes entries =
     sum_list (map fe_minutes (filter (\<lambda>e. fe_kind e \<noteq> Async_processing) entries))"

definition can_finish_early :: "completion_gate list \<Rightarrow> bool" where
  "can_finish_early gates \<longleftrightarrow>
     gates \<noteq> [] \<and> list_all (\<lambda>g. required_outputs_satisfied g \<and> pass_conditions_satisfied g) gates"

definition budget_wf :: "day_budget \<Rightarrow> bool" where
  "budget_wf b \<longleftrightarrow> 0 \<le> acceptable_minimum b \<and> acceptable_minimum b \<le> target_minutes b
     \<and> target_minutes b \<le> maximum_minutes b"

lemma budget_for_wf: "budget_wf (budget_for d)"
  by (simp add: budget_for_def budget_wf_def DayBudget_def)

lemma budget_for_day_wf: "budget_for_day kind m = Inr b \<Longrightarrow> budget_wf b"
  by (auto simp: budget_for_day_def budget_wf_def DayBudget_def split: if_splits)

lemma validate_planned_minutes_Inr_iff:
  "validate_planned_minutes b m = Inr u \<longleftrightarrow> 0 \<le> m \<and> m \<le> maximum_minutes b"
  by (auto simp: validate_planned_minutes_def)

section \<open>Properties\<close>

lemma trace_snoc:
  assumes "activity_trace a ss b" "apply_transition b c = Inr d"
  shows "activity_trace a (ss @ [act_state d]) d"
  using assms by (blast intro: activity_trace.next_state activity_step.accepted)

text \<open>
  C14. An activity that starts READY can be shown feedback, corrected or demonstrated only after
  it was active, its output was committed, its self-review was completed and the AI processing
  ran, in any sequence of accepted transition commands; and its version counts the accepted
  commands, so every one of them moved it by exactly one.
\<close>

theorem activity_gates_in_order:
  assumes "activity_trace a ss b" and "act_state a = READY"
  shows "required_before (act_state b) \<subseteq> set ss
    \<and> act_version b = act_version a + int (length ss) - 1
    \<and> act_state b \<noteq> SUPERSEDED"
  using assms trace_required_before trace_version trace_never_superseded by auto

theorem activity_gates_in_order_witness:
  "required_before SELF_REVIEW_COMPLETE
     \<subseteq> set [READY, ACTIVE, OUTPUT_COMMITTED, SELF_REVIEW_COMPLETE]"
proof -
  let ?a = "\<lambda>s v. \<lparr>act_state = s, act_version = v\<rparr>"
  let ?c = "\<lambda>t v. \<lparr>tc_target = t, tc_expected_version = v, tc_day_type = ''weekday'',
                   tc_day_status = ''planned''\<rparr>"
  have "activity_trace (?a READY 1) [READY] (?a READY 1)"
    using activity_trace.start [of "?a READY 1"] by simp
  from trace_snoc [OF this, of "?c ACTIVE 1" "?a ACTIVE 2"]
  have "activity_trace (?a READY 1) [READY, ACTIVE] (?a ACTIVE 2)"
    by (simp add: apply_transition_Inr_iff activity_transitions_def)
  from trace_snoc [OF this, of "?c OUTPUT_COMMITTED 2" "?a OUTPUT_COMMITTED 3"]
  have "activity_trace (?a READY 1) [READY, ACTIVE, OUTPUT_COMMITTED] (?a OUTPUT_COMMITTED 3)"
    by (simp add: apply_transition_Inr_iff activity_transitions_def)
  from trace_snoc [OF this, of "?c SELF_REVIEW_COMPLETE 3" "?a SELF_REVIEW_COMPLETE 4"]
  have "activity_trace (?a READY 1)
      [READY, ACTIVE, OUTPUT_COMMITTED, SELF_REVIEW_COMPLETE] (?a SELF_REVIEW_COMPLETE 4)"
    by (simp add: apply_transition_Inr_iff activity_transitions_def)
  from activity_gates_in_order [OF this] show ?thesis by simp
qed

text \<open>
  Optimistic concurrency: of two commands that read the same version, at most one is
  accepted. Whatever the second one asks for, it is refused as stale after the first.
\<close>

theorem activity_version_conflict:
  assumes "apply_transition a c = Inr b" and "tc_expected_version c' = tc_expected_version c"
  shows "apply_transition b c' = Inl (ActivityStateError ''stale activity version'')"
proof -
  have "act_version b = act_version a + 1" "tc_expected_version c' = act_version a"
    using assms by (auto simp: apply_transition_Inr_iff)
  then show ?thesis by (simp add: apply_transition_def transition_def)
qed

theorem activity_version_conflict_witness:
  "apply_transition \<lparr>act_state = PAUSED, act_version = 8\<rparr>
     \<lparr>tc_target = INCOMPLETE, tc_expected_version = 7, tc_day_type = ''weekday'',
      tc_day_status = ''in_progress''\<rparr>
   = Inl (ActivityStateError ''stale activity version'')"
  by (rule activity_version_conflict
      [where a = "\<lparr>act_state = ACTIVE, act_version = 7\<rparr>"
         and c = "\<lparr>tc_target = PAUSED, tc_expected_version = 7, tc_day_type = ''weekday'',
                   tc_day_status = ''in_progress''\<rparr>"])
    (simp_all add: apply_transition_Inr_iff activity_transitions_def)

text \<open>
  Measured focus cannot be inflated. After any sequence of heartbeats, accepted or refused,
  the counted seconds never exceed the wall-clock time since the timer started nor thirty seconds
  per accepted heartbeat, the day total grew by exactly the counted seconds, and the day total
  never passes the hard stop because of this timer.
\<close>

theorem focus_time_bounded:
  assumes "start_timer now = Inr t" and "0 \<le> day"
    and "s = run_commands heartbeat (open_session t day) beats"
  shows "0 \<le> counted_seconds (fs_timer s)
    \<and> td_seconds (counted_seconds (fs_timer s))
        \<le> instant_of (last_heartbeat_at (fs_timer s)) - instant_of (started_at (fs_timer s))
    \<and> counted_seconds (fs_timer s) \<le> MAX_HEARTBEAT_GAP_SECONDS * int (fs_beats s)
    \<and> fs_day_seconds s = fs_day_start s + counted_seconds (fs_timer s)
    \<and> fs_day_seconds s \<le> max (fs_day_start s) DAY_HARD_STOP_SECONDS"
  using focus.run_inv [OF start_timer_focus_inv [OF assms(1,2)], of beats] assms(3)
  by (simp add: focus_inv_def)

theorem focus_time_bounded_witness:
  "\<exists>s. s = run_commands heartbeat
      (open_session \<lparr>started_at = Aware 0 0, last_heartbeat_at = Aware 0 0, counted_seconds = 0,
         last_client_sequence = 0, paused_at = None, ended_at = None\<rparr> 15290)
      [(Aware 7000000 0, 1), (Aware 8000000 0, 1), (Aware 90000000 0, 2)]
    \<and> counted_seconds (fs_timer s) = 10 \<and> fs_day_seconds s \<le> DAY_HARD_STOP_SECONDS"
  using focus_time_bounded [OF _ _ refl, of "Aware 0 0"
      "\<lparr>started_at = Aware 0 0, last_heartbeat_at = Aware 0 0, counted_seconds = 0,
         last_client_sequence = 0, paused_at = None, ended_at = None\<rparr>" 15290
      "[(Aware 7000000 0, 1), (Aware 8000000 0, 1), (Aware 90000000 0, 2)]"]
  by (simp add: start_timer_def heartbeat_def apply_heartbeat_def open_session_def is_open_def
      MAX_HEARTBEAT_GAP_SECONDS_def DAY_HARD_STOP_SECONDS_def Let_def)

end
