(* ===== verification/Schedule.thy ===== *)
theory Schedule
  imports Activity
begin

text \<open>
  The roadmap scheduler of \<^verbatim>\<open>learning/scheduling.py\<close>: which curriculum day a date is,
  which date a new roadmap version may own, which correction is carried over, and how one study
  day is adapted to interviews and unfinished work inside its time budget.
\<close>

section \<open>Data\<close>

datatype schedule_error = SchedulePolicyError string | Time_policy activity_error

record task_template =
  task_definition_id :: int
  stable_id :: string
  mapping_version :: string
  objective :: string
  block :: string
  order :: int
  timebox_minutes :: int
  required :: bool
  adaptive_priority :: "int option"

definition check_task_template :: "task_template \<Rightarrow> (schedule_error, task_template) result" where
  "check_task_template t =
     (if task_definition_id t \<le> 0 \<or> order t \<le> 0 \<or> timebox_minutes t \<le> 0
      then Inl (SchedulePolicyError ''task identifiers, order, and timebox must be positive'')
      else if stable_id t = '''' \<or> mapping_version t = '''' \<or> blank (objective t)
      then Inl (SchedulePolicyError ''task snapshot fields cannot be blank'')
      else if required t \<and> adaptive_priority t \<noteq> None
      then Inl (SchedulePolicyError ''required tasks cannot be adaptive replacement slots'')
      else Inr t)"

record interview_commitment =
  ic_id :: int
  ic_minutes :: int

definition check_interview_commitment ::
    "interview_commitment \<Rightarrow> (schedule_error, interview_commitment) result" where
  "check_interview_commitment i =
     (if ic_id i \<le> 0 \<or> \<not> (1 \<le> ic_minutes i \<and> ic_minutes i \<le> 480)
      then Inl (SchedulePolicyError ''interview commitment is invalid'')
      else Inr i)"

datatype carryover_kind = Spoken_attempt_b | Written_attempt_b | Sql_correction

record carryover =
  co_id :: int
  co_kind :: carryover_kind
  co_priority :: int
  co_due_date :: date

definition check_carryover :: "carryover \<Rightarrow> (schedule_error, carryover) result" where
  "check_carryover c =
     (if co_id c \<le> 0 \<or> co_priority c \<notin> {1, 2}
      then Inl (SchedulePolicyError ''carryover is invalid'')
      else Inr c)"

datatype unfinished_classification = Required | Useful | Optional | Superseded

record unfinished_work =
  uw_id :: int
  uw_classification :: unfinished_classification
  uw_minutes :: int
  uw_stronger_evidence_id :: "int option"

definition check_unfinished_work ::
    "unfinished_work \<Rightarrow> (schedule_error, unfinished_work) result" where
  "check_unfinished_work w =
     (if uw_id w \<le> 0 \<or> uw_minutes w \<le> 0
      then Inl (SchedulePolicyError ''unfinished work is invalid'')
      else if (uw_classification w = Superseded) \<noteq> (uw_stronger_evidence_id w \<noteq> None)
      then Inl (SchedulePolicyError
             ''superseded work must link exactly one stronger evidence item'')
      else Inr w)"

datatype missed_work_action =
  Replace_adaptive | Pending_replacement | Retrieval_queue | Drop | Link_stronger_evidence

record missed_work_decision =
  mw_work_id :: int
  mw_action :: missed_work_action
  mw_replaced_task_id :: "int option"
  mw_stronger_evidence_id :: "int option"

definition decision :: "int \<Rightarrow> missed_work_action \<Rightarrow> missed_work_decision" where
  "decision w a = \<lparr>mw_work_id = w, mw_action = a, mw_replaced_task_id = None,
                   mw_stronger_evidence_id = None\<rparr>"

datatype plan_day_type = Budget_day day_type | Interview_day

record day_plan =
  dp_local_date :: date
  dp_curriculum_day :: "int option"
  dp_day_type :: plan_day_type
  dp_tasks :: "task_template list"
  dp_interview_minutes :: int
  dp_planned_minutes :: int
  dp_missed_work :: "missed_work_decision list"
  dp_notifications :: "string list"

section \<open>Day numbers\<close>

definition curriculum_day_number :: "date \<Rightarrow> date \<Rightarrow> (schedule_error, int option) result" where
  "curriculum_day_number study_start_date local_date =
     (if weekday study_start_date \<noteq> 0
      then Inl (SchedulePolicyError ''study start date must be a Monday roadmap anchor'')
      else if local_date < study_start_date
      then Inl (SchedulePolicyError ''study date precedes the roadmap anchor'')
      else if weekday local_date = 6 then Inr None
      else
        (let elapsed_days = local_date - study_start_date
         in Inr (Some (elapsed_days div 7 * 6 + weekday local_date + 1))))"

text \<open>The \<^verbatim>\<open>while current <= local_date\<close> walk of \<open>study_day_number\<close>.\<close>

function count_study_days :: "int set \<Rightarrow> date \<Rightarrow> date \<Rightarrow> int \<Rightarrow> int" where
  "count_study_days rest current local_date number =
     (if current \<le> local_date
      then count_study_days rest (current + 1) local_date
             (if weekday current \<notin> rest then number + 1 else number)
      else number)"
  by pat_completeness auto
termination
  by (relation "measure (\<lambda>(rest, current, local_date, number). nat (local_date - current + 1))")
    auto

declare count_study_days.simps [simp del]

definition study_day_number ::
    "date \<Rightarrow> date \<Rightarrow> int set \<Rightarrow> (schedule_error, int option) result" where
  "study_day_number study_start_date local_date rest_weekdays =
     (if local_date < study_start_date
      then Inl (SchedulePolicyError ''study date precedes the roadmap anchor'')
      else if weekday local_date \<in> rest_weekdays then Inr None
      else Inr (Some (count_study_days rest_weekdays study_start_date local_date 0)))"

text \<open>
  The loop that skips rest weekdays. It does not return when every weekday is a rest day, which
  is the value \<open>None\<close>.
\<close>

partial_function (option) skip_rest :: "int set \<Rightarrow> date \<Rightarrow> date option" where
  "skip_rest rest candidate =
     (if weekday candidate \<in> rest then skip_rest rest (candidate + 1) else Some candidate)"

definition first_open_study_date ::
    "date \<Rightarrow> date option \<Rightarrow> int set \<Rightarrow> (schedule_error, date option) result" where
  "first_open_study_date local_today last_planned rest_weekdays =
     (if 7 \<le> card rest_weekdays
      then Inl (SchedulePolicyError ''a scheme needs at least one study weekday'')
      else
        (let candidate =
               (case last_planned of
                  None \<Rightarrow> local_today
                | Some d \<Rightarrow> if local_today \<le> d then d + 1 else local_today)
         in Inr (skip_rest rest_weekdays candidate)))"

record scheme_info =
  rest_weekdays :: "int set"
  budgets :: "int \<rightharpoonup> day_budget"

definition is_legacy :: "scheme_info \<Rightarrow> bool" where
  "is_legacy s \<longleftrightarrow> budgets s = Map.empty"

definition scheme_day_number ::
    "scheme_info \<Rightarrow> date \<Rightarrow> date \<Rightarrow> (schedule_error, int option) result" where
  "scheme_day_number s study_start_date local_date =
     (if is_legacy s then curriculum_day_number study_start_date local_date
      else study_day_number study_start_date local_date (rest_weekdays s))"

definition scheme_budget :: "scheme_info \<Rightarrow> int option \<Rightarrow> date \<Rightarrow> day_budget" where
  "scheme_budget s curriculum_day local_date =
     (case curriculum_day of
        None \<Rightarrow> budget_for local_date
      | Some n \<Rightarrow> (case budgets s n of None \<Rightarrow> budget_for local_date | Some b \<Rightarrow> b))"

definition next_study_date :: "scheme_info \<Rightarrow> date \<Rightarrow> date option" where
  "next_study_date s local_date = skip_rest (rest_weekdays s) (local_date + 1)"

definition LEGACY_SCHEME :: scheme_info where
  "LEGACY_SCHEME = \<lparr>rest_weekdays = {6}, budgets = Map.empty\<rparr>"

section \<open>Adapting one day\<close>

definition select_carryover :: "carryover list \<Rightarrow> date \<Rightarrow> carryover option" where
  "select_carryover carryovers local_date =
     first_min (\<lambda>c. (co_due_date c, co_priority c, co_id c))
       (filter (\<lambda>c. co_due_date c \<le> local_date) carryovers)"

abbreviation total_minutes :: "task_template list \<Rightarrow> int" where
  "total_minutes tasks \<equiv> sum_list (map timebox_minutes tasks)"

definition fallback_blocks :: "string list" where
  "fallback_blocks =
     [''saturday_assessment'', ''correction_warmup'', ''daily_close'', ''career_pipeline'',
      ''technical_learning'', ''sql'']"

text \<open>The fallback loop: it stops as soon as the remaining work fits beside the interviews.\<close>

fun drop_blocks :: "int \<Rightarrow> int \<Rightarrow> string list \<Rightarrow> task_template list \<Rightarrow> task_template list" where
  "drop_blocks interview_minutes max_minutes [] remaining = remaining"
| "drop_blocks interview_minutes max_minutes (b # bs) remaining =
     (if total_minutes remaining + min interview_minutes max_minutes \<le> max_minutes
      then remaining
      else drop_blocks interview_minutes max_minutes bs
             (filter (\<lambda>t. block t \<noteq> b) remaining))"

definition interview_blocks :: "int \<Rightarrow> string list" where
  "interview_blocks interview_minutes =
     [''communication_spoken'']
     @ (if 35 < interview_minutes then [''tam_case''] else [])
     @ (if 120 \<le> interview_minutes then [''correction_warmup'', ''daily_close''] else [])"

definition replace_for_interviews ::
    "task_template list \<Rightarrow> int \<Rightarrow> int \<Rightarrow> task_template list" where
  "replace_for_interviews tasks interview_minutes max_minutes =
     (if interview_minutes \<le> 0 then tasks
      else drop_blocks interview_minutes max_minutes fallback_blocks
             (filter (\<lambda>t. block t \<notin> set (interview_blocks interview_minutes)) tasks))"

definition replacement_candidates :: "task_template list \<Rightarrow> int \<Rightarrow> task_template list" where
  "replacement_candidates tasks mins =
     sort_desc
       (\<lambda>t. (case adaptive_priority t of None \<Rightarrow> 0 | Some p \<Rightarrow> p, order t, task_definition_id t))
       (filter (\<lambda>t. \<not> required t \<and> adaptive_priority t \<noteq> None \<and> mins \<le> timebox_minutes t)
          tasks)"

text \<open>One turn of the loop over the unfinished work.\<close>

definition resolve_one ::
    "task_template list \<Rightarrow> unfinished_work \<Rightarrow> int \<Rightarrow> int \<Rightarrow> int
      \<Rightarrow> task_template list \<times> missed_work_decision \<times> int" where
  "resolve_one tasks work max_minutes other_minutes rescheduled =
     (case uw_classification work of
        Useful \<Rightarrow> (tasks, decision (uw_id work) Retrieval_queue, rescheduled)
      | Optional \<Rightarrow> (tasks, decision (uw_id work) Drop, rescheduled)
      | Superseded \<Rightarrow>
          (tasks, (decision (uw_id work) Link_stronger_evidence)
             \<lparr>mw_stronger_evidence_id := uw_stronger_evidence_id work\<rparr>, rescheduled)
      | Required \<Rightarrow>
          (case replacement_candidates tasks (uw_minutes work) of
             [] \<Rightarrow> (tasks, decision (uw_id work) Pending_replacement, rescheduled)
           | replacement # _ \<Rightarrow>
               (let proposed = total_minutes tasks - timebox_minutes replacement + rescheduled
                               + uw_minutes work + other_minutes
                in if max_minutes < proposed
                   then (tasks, decision (uw_id work) Pending_replacement, rescheduled)
                   else
                     (filter
                        (\<lambda>t. task_definition_id t \<noteq> task_definition_id replacement) tasks,
                      (decision (uw_id work) Replace_adaptive)
                        \<lparr>mw_replaced_task_id := Some (task_definition_id replacement)\<rparr>,
                      rescheduled + uw_minutes work))))"

fun resolve_unfinished ::
    "task_template list \<Rightarrow> unfinished_work list \<Rightarrow> int \<Rightarrow> int \<Rightarrow> int
      \<Rightarrow> task_template list \<times> missed_work_decision list \<times> int" where
  "resolve_unfinished tasks [] max_minutes other_minutes rescheduled = (tasks, [], rescheduled)"
| "resolve_unfinished tasks (work # ws) max_minutes other_minutes rescheduled =
     (let (tasks', d, rescheduled') =
            resolve_one tasks work max_minutes other_minutes rescheduled;
          (tasks'', ds, rescheduled'') =
            resolve_unfinished tasks' ws max_minutes other_minutes rescheduled'
      in (tasks'', d # ds, rescheduled''))"

definition build_day ::
    "date \<Rightarrow> int option \<Rightarrow> task_template list \<Rightarrow> interview_commitment list
      \<Rightarrow> unfinished_work list \<Rightarrow> day_budget option \<Rightarrow> (schedule_error, day_plan) result" where
  "build_day local_date curriculum_day tasks interviews unfinished budget_arg =
     (let budget = (case budget_arg of None \<Rightarrow> budget_for local_date | Some b \<Rightarrow> b)
      in if day_type budget = Sunday
         then Inr \<lparr>dp_local_date = local_date, dp_curriculum_day = None,
                   dp_day_type = Budget_day Sunday, dp_tasks = [], dp_interview_minutes = 0,
                   dp_planned_minutes = 0, dp_missed_work = [], dp_notifications = []\<rparr>
         else if (case curriculum_day of None \<Rightarrow> True | Some n \<Rightarrow> n \<le> 0)
         then Inl (SchedulePolicyError ''a study day requires a positive curriculum day'')
         else if 1 < length (filter (\<lambda>t. block t = ''correction_warmup'') tasks)
         then Inl (SchedulePolicyError ''a study day may contain only one correction warm-up'')
         else
           (let ordered = sort_key (\<lambda>t. (order t, task_definition_id t)) tasks;
                interview_minutes = sum_list (map ic_minutes interviews);
                kept = replace_for_interviews ordered interview_minutes (maximum_minutes budget);
                counted = min interview_minutes (maximum_minutes budget);
                (planned, decisions, rescheduled) =
                  resolve_unfinished kept unfinished (maximum_minutes budget) counted 0;
                planned_minutes = total_minutes planned + counted + rescheduled
            in case validate_planned_minutes budget planned_minutes of
                 Inl e \<Rightarrow> Inl (Time_policy e)
               | Inr _ \<Rightarrow>
                   if interviews = [] \<and> planned_minutes < acceptable_minimum budget
                   then Inl (SchedulePolicyError
                          ''weekday plan must include at least the minimum minutes'')
                   else Inr \<lparr>dp_local_date = local_date, dp_curriculum_day = curriculum_day,
                             dp_day_type = (if interviews \<noteq> [] then Interview_day
                                            else Budget_day (day_type budget)),
                             dp_tasks = planned, dp_interview_minutes = interview_minutes,
                             dp_planned_minutes = planned_minutes, dp_missed_work = decisions,
                             dp_notifications = []\<rparr>))"

section \<open>Day numbers: lemmas\<close>

lemma count_study_days_last:
  "current \<le> d + 1 \<Longrightarrow>
     count_study_days rest current (d + 1) n =
     count_study_days rest current d n + (if weekday (d + 1) \<in> rest then 0 else 1)"
proof (induction rest current d n rule: count_study_days.induct)
  case (1 rest current d n)
  show ?case
  proof (cases "current \<le> d")
    case True
    then show ?thesis
      using "1.IH" by (simp add: count_study_days.simps [of rest current])
  next
    case False
    with "1.prems" have "current = d + 1" by simp
    then show ?thesis
      by (simp add: count_study_days.simps [of rest "d + 1"]
          count_study_days.simps [of rest "d + 2"] add.assoc)
  qed
qed

lemma count_study_days_empty [simp]: "d < current \<Longrightarrow> count_study_days rest current d n = n"
  by (simp add: count_study_days.simps)

lemma count_study_days_card:
  assumes "s - 1 \<le> d"
  shows "count_study_days rest s d 0 = int (card {x. s \<le> x \<and> x \<le> d \<and> weekday x \<notin> rest})"
  using assms
proof (induction d rule: int_ge_induct)
  case base
  have "{x. s \<le> x \<and> x \<le> s - 1 \<and> weekday x \<notin> rest} = {}" by auto
  then show ?case by (simp only: card.empty) simp
next
  case (step d)
  let ?A = "\<lambda>d. {x. s \<le> x \<and> x \<le> d \<and> weekday x \<notin> rest}"
  have fin: "finite (?A d)" by (rule finite_subset [of _ "{s..d}"]) auto
  have new: "d + 1 \<notin> ?A d" by simp
  have "?A (d + 1) = (if weekday (d + 1) \<in> rest then ?A d else insert (d + 1) (?A d))"
    using step.hyps by (auto simp: order_le_less)
  then have "int (card (?A (d + 1)))
      = int (card (?A d)) + (if weekday (d + 1) \<in> rest then 0 else 1)"
    using fin new by (simp only: card_insert_disjoint split: if_split) simp
  then show ?case
    using step count_study_days_last [of s d rest 0] by simp
qed

lemma weekday_from_monday: "weekday s = 0 \<Longrightarrow> weekday d = (d - s) mod 7"
  unfolding weekday_def using mod_diff_right_eq [of "d + 6" "s + 6" 7] by simp

lemma legacy_count_step:
  fixes x :: int
  assumes "0 \<le> x"
  shows "(x + 1) div 7 * 6 + (if (x + 1) mod 7 = 6 then 6 else (x + 1) mod 7 + 1)
    = x div 7 * 6 + (if x mod 7 = 6 then 6 else x mod 7 + 1) + (if (x + 1) mod 7 = 6 then 0 else 1)"
proof -
  obtain q r where x: "x = 7 * q + r" "0 \<le> r" "r < 7"
    using that [of "x div 7" "x mod 7"] by simp
  have "r = 0 \<or> r = 1 \<or> r = 2 \<or> r = 3 \<or> r = 4 \<or> r = 5 \<or> r = 6" using x by linarith
  then show ?thesis
    using x(1) by (elim disjE) (simp_all add: algebra_simps div_add1_eq mod_add_eq)
qed

lemma count_legacy:
  assumes "weekday s = 0" "s \<le> d"
  shows "count_study_days {6} s d 0 =
    (d - s) div 7 * 6 + (if weekday d = 6 then 6 else weekday d + 1)"
  using assms(2)
proof (induction d rule: int_ge_induct)
  case base
  then show ?case
    using count_study_days_last [of s "s - 1" "{6}" 0] assms(1) by simp
next
  case (step d)
  have wd: "weekday x = (x - s) mod 7" for x using assms(1) by (rule weekday_from_monday)
  have e: "d + 1 - s = d - s + 1" by simp
  have "count_study_days {6} s (d + 1) 0 = count_study_days {6} s d 0
      + (if weekday (d + 1) \<in> {6} then 0 else 1)"
    using step.hyps by (intro count_study_days_last) simp
  also have "\<dots> = (d - s) div 7 * 6 + (if (d - s) mod 7 = 6 then 6 else (d - s) mod 7 + 1)
      + (if (d - s + 1) mod 7 = 6 then 0 else 1)"
    by (simp only: step.IH wd e singleton_iff)
  also have "\<dots> = (d - s + 1) div 7 * 6
      + (if (d - s + 1) mod 7 = 6 then 6 else (d - s + 1) mod 7 + 1)"
    by (rule legacy_count_step [symmetric]) (use step.hyps in simp)
  finally show ?case by (simp only: wd e)
qed

lemma skip_rest_Some:
  assumes "skip_rest rest c = Some d"
  shows "c \<le> d \<and> weekday d \<notin> rest \<and> (\<forall>x. c \<le> x \<and> x < d \<longrightarrow> weekday x \<in> rest)"
proof (rule skip_rest.raw_induct [OF _ assms])
  fix f rest c d
  assume IH: "\<And>rest c d. f rest c = Some d \<Longrightarrow>
      c \<le> d \<and> weekday d \<notin> rest \<and> (\<forall>x. c \<le> x \<and> x < d \<longrightarrow> weekday x \<in> rest)"
    and eq: "(if weekday c \<in> rest then f rest (c + 1) else Some c) = Some d"
  show "c \<le> d \<and> weekday d \<notin> rest \<and> (\<forall>x. c \<le> x \<and> x < d \<longrightarrow> weekday x \<in> rest)"
  proof (cases "weekday c \<in> rest")
    case True
    with eq have "f rest (c + 1) = Some d" by simp
    from IH [OF this] True show ?thesis
      by (metis add_le_cancel_left int_one_le_iff_zero_less less_le_not_le order_trans
          zle_add1_eq_le zless_add1_eq linorder_not_le)
  next
    case False
    with eq show ?thesis by auto
  qed
qed

lemma skip_rest_returns:
  "weekday (c + int k) \<notin> rest \<Longrightarrow> \<exists>d. skip_rest rest c = Some d"
proof (induction k arbitrary: c)
  case 0
  then show ?case by (simp add: skip_rest.simps)
next
  case (Suc k)
  then have "\<exists>d. skip_rest rest (c + 1) = Some d"
    using Suc.IH [of "c + 1"] by (simp add: add.assoc)
  then show ?case by (simp add: skip_rest.simps [of rest c])
qed

lemma some_weekday_open:
  assumes "finite rest" "card rest < 7"
  shows "\<exists>k. weekday (c + int k) \<notin> rest"
proof (rule ccontr)
  assume "\<not> ?thesis"
  then have all: "weekday (c + int k) \<in> rest" for k by blast
  have "{0..6} \<subseteq> rest"
  proof
    fix w :: int
    assume w: "w \<in> {0..6}"
    have "weekday (c + int (nat ((w - c - 6) mod 7))) = (c + (w - c - 6) mod 7 + 6) mod 7"
      by (simp add: weekday_def)
    also have "\<dots> = (c + (w - c - 6) + 6) mod 7" by (metis mod_add_left_eq mod_add_right_eq)
    also have "\<dots> = w mod 7" by simp
    also have "\<dots> = w" using w by simp
    finally show "w \<in> rest" using all by metis
  qed
  then have "card {0..6::int} \<le> card rest" using assms(1) by (rule card_mono [rotated])
  with assms(2) show False by simp
qed

section \<open>Adapting a day: lemmas\<close>

definition tasks_wf :: "task_template list \<Rightarrow> bool" where
  "tasks_wf tasks \<longleftrightarrow> list_all (\<lambda>t. is_ok (check_task_template t)) tasks"

lemma tasks_wf_timebox: "tasks_wf tasks \<Longrightarrow> t \<in> set tasks \<Longrightarrow> 0 < timebox_minutes t"
  by (auto simp: tasks_wf_def list_all_iff check_task_template_def split: if_splits)

lemma tasks_wf_not_adaptive:
  "tasks_wf tasks \<Longrightarrow> t \<in> set tasks \<Longrightarrow> required t \<Longrightarrow> adaptive_priority t = None"
  by (auto simp: tasks_wf_def list_all_iff check_task_template_def split: if_splits)

lemma total_minutes_filter_le:
  "\<forall>t \<in> set ts. 0 < timebox_minutes t \<Longrightarrow> total_minutes (filter P ts) \<le> total_minutes ts"
  by (induction ts) auto

lemma total_minutes_nonneg: "\<forall>t \<in> set ts. 0 < timebox_minutes t \<Longrightarrow> 0 \<le> total_minutes ts"
  by (induction ts) auto

lemma total_minutes_remove:
  assumes "\<forall>t \<in> set ts. 0 < timebox_minutes t" "r \<in> set ts" "\<not> P r"
  shows "total_minutes (filter P ts) \<le> total_minutes ts - timebox_minutes r"
  using assms
proof (induction ts)
  case Nil
  then show ?case by simp
next
  case (Cons t ts)
  show ?case
  proof (cases "r \<in> set ts")
    case True
    with Cons show ?thesis by auto
  next
    case False
    with Cons.prems have "r = t" by simp
    with Cons.prems total_minutes_filter_le [of ts P] show ?thesis by simp
  qed
qed

lemma replacement_candidates_set:
  "set (replacement_candidates tasks m) =
     {t \<in> set tasks. \<not> required t \<and> adaptive_priority t \<noteq> None \<and> m \<le> timebox_minutes t}"
  by (auto simp: replacement_candidates_def)

lemma replacement_candidates_hd:
  "replacement_candidates tasks m = r # rs \<Longrightarrow>
     r \<in> set tasks \<and> \<not> required r \<and> m \<le> timebox_minutes r"
  using replacement_candidates_set [of tasks m] by auto

text \<open>
  What \<open>resolve_unfinished\<close> promises of one call, proved together by computation induction: it
  only drops tasks, keeps every required one when identifiers are unique, answers each piece of
  work once and in order, accounts for the minutes it rescheduled, and never pushes a day over
  its maximum.
\<close>

definition rescheduled_work :: "unfinished_work list \<Rightarrow> missed_work_decision list \<Rightarrow> int" where
  "rescheduled_work ws ds =
     sum_list (map (\<lambda>(w, d). if mw_action d = Replace_adaptive then uw_minutes w else 0)
       (zip ws ds))"

lemma distinct_ids_filter:
  "distinct (map task_definition_id ts) \<Longrightarrow> distinct (map task_definition_id (filter P ts))"
  by (simp add: distinct_map_filter)

lemma resolve_one_cases:
  assumes "resolve_one tasks w mx other resched = (tasks', d, resched')"
  obtains (kept) "tasks' = tasks" "resched' = resched" "mw_action d \<noteq> Replace_adaptive"
      "mw_work_id d = uw_id w"
  | (replaced) r where "r \<in> set tasks" "\<not> required r"
      "tasks' = filter (\<lambda>t. task_definition_id t \<noteq> task_definition_id r) tasks"
      "resched' = resched + uw_minutes w" "mw_action d = Replace_adaptive"
      "mw_work_id d = uw_id w"
      "total_minutes tasks - timebox_minutes r + resched + uw_minutes w + other \<le> mx"
proof (cases "uw_classification w = Required
    \<and> replacement_candidates tasks (uw_minutes w) \<noteq> []")
  case False
  then show ?thesis
    using assms that(1)
    by (auto simp: resolve_one_def decision_def
        split: unfinished_classification.splits list.splits)
next
  case True
  then obtain r rs where rs: "replacement_candidates tasks (uw_minutes w) = r # rs"
    by (auto simp: neq_Nil_conv)
  note r = replacement_candidates_hd [OF rs]
  let ?proposed = "total_minutes tasks - timebox_minutes r + resched + uw_minutes w + other"
  show ?thesis
  proof (cases "mx < ?proposed")
    case over: True
    with True rs assms show ?thesis
      by (intro kept) (auto simp: resolve_one_def decision_def Let_def)
  next
    case fits: False
    show ?thesis
      using True rs assms r fits
      by (intro replaced [of r]) (auto simp: resolve_one_def decision_def Let_def)
  qed
qed

lemma resolve_unfinished_Cons:
  assumes "resolve_unfinished tasks (w # ws) mx other resched = (ts, ds, m)"
  obtains tasks' d resched' ds' where
    "resolve_one tasks w mx other resched = (tasks', d, resched')"
    "resolve_unfinished tasks' ws mx other resched' = (ts, ds', m)" "ds = d # ds'"
  using assms by (auto split: prod.splits)

lemma resolve_unfinished_decisions:
  "resolve_unfinished tasks ws mx other resched = (ts, ds, m) \<Longrightarrow>
     map mw_work_id ds = map uw_id ws \<and> m = resched + rescheduled_work ws ds"
proof (induction ws arbitrary: tasks resched ds)
  case Nil
  then show ?case by (simp add: rescheduled_work_def)
next
  case (Cons w ws)
  from Cons.prems obtain tasks' d resched' ds' where
    one: "resolve_one tasks w mx other resched = (tasks', d, resched')" and
    rest: "resolve_unfinished tasks' ws mx other resched' = (ts, ds', m)" and ds: "ds = d # ds'"
    by (rule resolve_unfinished_Cons)
  from one Cons.IH [OF rest] ds show ?case
    by (cases rule: resolve_one_cases) (auto simp: rescheduled_work_def)
qed

lemma resolve_unfinished_subseq:
  "resolve_unfinished tasks ws mx other resched = (ts, ds, m) \<Longrightarrow> subseq ts tasks"
proof (induction ws arbitrary: tasks resched ds)
  case Nil
  then show ?case by simp
next
  case (Cons w ws)
  from Cons.prems obtain tasks' d resched' ds' where
    one: "resolve_one tasks w mx other resched = (tasks', d, resched')" and
    rest: "resolve_unfinished tasks' ws mx other resched' = (ts, ds', m)"
    by (rule resolve_unfinished_Cons)
  from one have "subseq tasks' tasks"
    by (cases rule: resolve_one_cases) (auto intro: subseq_filter_left)
  with Cons.IH [OF rest] show ?case by (rule subseq_order.order_trans)
qed

lemma resolve_unfinished_required:
  "resolve_unfinished tasks ws mx other resched = (ts, ds, m) \<Longrightarrow>
     distinct (map task_definition_id tasks) \<Longrightarrow> filter required ts = filter required tasks"
proof (induction ws arbitrary: tasks resched ds)
  case Nil
  then show ?case by simp
next
  case (Cons w ws)
  from Cons.prems(1) obtain tasks' d resched' ds' where
    one: "resolve_one tasks w mx other resched = (tasks', d, resched')" and
    rest: "resolve_unfinished tasks' ws mx other resched' = (ts, ds', m)"
    by (rule resolve_unfinished_Cons)
  from one have "distinct (map task_definition_id tasks')
      \<and> filter required tasks' = filter required tasks"
  proof (cases rule: resolve_one_cases)
    case kept
    with Cons.prems(2) show ?thesis by simp
  next
    case (replaced r)
    have "filter required (filter (\<lambda>t. task_definition_id t \<noteq> task_definition_id r) tasks)
        = filter required tasks"
      unfolding filter_filter
    proof (rule filter_cong [OF refl])
      fix t
      assume "t \<in> set tasks"
      with replaced(1,2) Cons.prems(2)
      show "(task_definition_id t \<noteq> task_definition_id r \<and> required t) = required t"
        by (auto simp: distinct_map dest: inj_onD)
    qed
    with replaced(3) Cons.prems(2) distinct_ids_filter show ?thesis by auto
  qed
  with Cons.IH [OF rest] show ?case by simp
qed

lemma resolve_unfinished_fits:
  assumes "resolve_unfinished tasks ws mx other resched = (ts, ds, m)"
    and "\<forall>t \<in> set tasks. 0 < timebox_minutes t"
    and "total_minutes tasks + resched + other \<le> mx"
  shows "total_minutes ts + m + other \<le> mx"
  using assms
proof (induction ws arbitrary: tasks resched ds)
  case Nil
  then show ?case by simp
next
  case (Cons w ws)
  from Cons.prems(1) obtain tasks' d resched' ds' where
    one: "resolve_one tasks w mx other resched = (tasks', d, resched')" and
    rest: "resolve_unfinished tasks' ws mx other resched' = (ts, ds', m)"
    by (rule resolve_unfinished_Cons)
  from one have "(\<forall>t \<in> set tasks'. 0 < timebox_minutes t)
      \<and> total_minutes tasks' + resched' + other \<le> mx"
  proof (cases rule: resolve_one_cases)
    case kept
    with Cons.prems show ?thesis by simp
  next
    case (replaced r)
    with Cons.prems(2)
      total_minutes_remove [OF Cons.prems(2) replaced(1),
        of "\<lambda>t. task_definition_id t \<noteq> task_definition_id r"]
    show ?thesis by auto
  qed
  with Cons.IH [OF rest] show ?case by blast
qed

lemma drop_blocks_subseq: "subseq (drop_blocks im mx bs ts) ts"
  by (induction bs arbitrary: ts)
    (auto intro: subseq_order.order_trans [OF _ subseq_filter_left])

lemma replace_for_interviews_subseq: "subseq (replace_for_interviews ts im mx) ts"
  by (auto simp: replace_for_interviews_def
      intro: subseq_order.order_trans [OF drop_blocks_subseq])

lemma build_day_cases:
  assumes "build_day d n tasks ivs ws bopt = Inr p"
    and "b = (case bopt of None \<Rightarrow> budget_for d | Some b \<Rightarrow> b)" and "day_type b \<noteq> Sunday"
  obtains ts ds m where
    "resolve_unfinished
       (replace_for_interviews (sort_key (\<lambda>t. (order t, task_definition_id t)) tasks)
          (sum_list (map ic_minutes ivs)) (maximum_minutes b))
       ws (maximum_minutes b) (min (sum_list (map ic_minutes ivs)) (maximum_minutes b)) 0
     = (ts, ds, m)"
    "dp_tasks p = ts" "dp_missed_work p = ds"
    "dp_interview_minutes p = sum_list (map ic_minutes ivs)"
    "dp_planned_minutes p =
       total_minutes ts + min (sum_list (map ic_minutes ivs)) (maximum_minutes b) + m"
    "0 \<le> dp_planned_minutes p" "dp_planned_minutes p \<le> maximum_minutes b"
    "ivs = [] \<Longrightarrow> acceptable_minimum b \<le> dp_planned_minutes p"
    "dp_curriculum_day p = n" "\<exists>k. n = Some k \<and> 0 < k"
proof -
  from assms(1) have "\<exists>ts ds m. resolve_unfinished
       (replace_for_interviews (sort_key (\<lambda>t. (order t, task_definition_id t)) tasks)
          (sum_list (map ic_minutes ivs)) (maximum_minutes b))
       ws (maximum_minutes b) (min (sum_list (map ic_minutes ivs)) (maximum_minutes b)) 0
     = (ts, ds, m)
    \<and> dp_tasks p = ts \<and> dp_missed_work p = ds
    \<and> dp_interview_minutes p = sum_list (map ic_minutes ivs)
    \<and> dp_planned_minutes p =
       total_minutes ts + min (sum_list (map ic_minutes ivs)) (maximum_minutes b) + m
    \<and> 0 \<le> dp_planned_minutes p \<and> dp_planned_minutes p \<le> maximum_minutes b
    \<and> (ivs = [] \<longrightarrow> acceptable_minimum b \<le> dp_planned_minutes p)
    \<and> dp_curriculum_day p = n \<and> (\<exists>k. n = Some k \<and> 0 < k)"
    using assms(3) unfolding build_day_def Let_def assms(2) [symmetric]
    by (auto simp: validate_planned_minutes_Inr_iff split: if_splits prod.splits sum.splits
        option.splits)
  then show ?thesis using that by blast
qed

lemma resolve_unfinished_nonneg:
  assumes "resolve_unfinished tasks ws mx other 0 = (ts, ds, m)"
    and "\<forall>t \<in> set tasks. 0 < timebox_minutes t" and "\<forall>w \<in> set ws. 0 < uw_minutes w"
  shows "0 \<le> total_minutes ts \<and> 0 \<le> m"
proof -
  have "set ts \<subseteq> set tasks"
    using resolve_unfinished_subseq [OF assms(1)] by (metis subseq_conv_nths set_nths_subset)
  then have "0 \<le> total_minutes ts" using assms(2) by (intro total_minutes_nonneg) blast
  moreover have "0 \<le> rescheduled_work ws ds"
    using assms(3) unfolding rescheduled_work_def
    by (intro sum_list_nonneg) (fastforce dest: set_zip_leftD split: if_splits)
  ultimately show ?thesis using resolve_unfinished_decisions [OF assms(1)] by simp
qed

section \<open>Properties\<close>

text \<open>
  Numbering days by walking the calendar and skipping Sundays gives the same answer, errors
  included, as the closed formula of the six-day week, whenever the plan starts on a Monday. A
  version stored without a scheme therefore keeps its numbering.
\<close>

theorem legacy_day_number_agrees:
  assumes "weekday s = 0"
  shows "study_day_number s d {6} = curriculum_day_number s d"
  using assms count_legacy [OF assms, of d]
  by (auto simp: study_day_number_def curriculum_day_number_def Let_def)

theorem legacy_day_number_agrees_witness:
  "study_day_number 739985 739995 {6} = Inr (Some 10)"
  using legacy_day_number_agrees [of 739985 739995]
  by (simp add: curriculum_day_number_def weekday_def Let_def)

text \<open>
  The number of a study date is its ordinal among the study dates of the plan: it counts the
  dates from the start up to and including it that do not fall on a rest weekday.
\<close>

theorem study_day_number_is_ordinal:
  assumes "study_day_number s d rest = Inr (Some n)"
  shows "n = int (card {x. s \<le> x \<and> x \<le> d \<and> weekday x \<notin> rest}) \<and> 1 \<le> n"
proof -
  from assms have sd: "s \<le> d" "weekday d \<notin> rest" "n = count_study_days rest s d 0"
    by (auto simp: study_day_number_def split: if_splits)
  let ?A = "{x. s \<le> x \<and> x \<le> d \<and> weekday x \<notin> rest}"
  have "n = int (card ?A)" using sd count_study_days_card [of s d rest] by simp
  moreover have "d \<in> ?A" "finite ?A"
    using sd by (auto intro: finite_subset [of _ "{s..d}"])
  then have "card ?A \<noteq> 0" by auto
  ultimately show ?thesis by linarith
qed

theorem study_day_number_is_ordinal_witness:
  "card {x::int. 739987 \<le> x \<and> x \<le> 739991 \<and> weekday x \<notin> {5, 6}} = 3"
proof -
  have "study_day_number 739987 739991 {6, 5} = Inr None"
    by (simp add: study_day_number_def weekday_def)
  have "study_day_number 739987 739989 {5, 6} = Inr (Some 3)"
    by (simp add: study_day_number_def weekday_def count_study_days.simps)
  from study_day_number_is_ordinal [OF this]
  have "card {x::int. 739987 \<le> x \<and> x \<le> 739989 \<and> weekday x \<notin> {5, 6}} = 3" by simp
  moreover have "{x::int. 739987 \<le> x \<and> x \<le> 739991 \<and> weekday x \<notin> {5, 6}}
      = {x::int. 739987 \<le> x \<and> x \<le> 739989 \<and> weekday x \<notin> {5, 6}}"
    by (auto simp: weekday_def) presburger+
  ultimately show ?thesis by simp
qed

text \<open>
  The date a newly activated version may own always exists when a weekday is left to study
  on: the search returns, and what it returns is the earliest date that is not before today, comes
  after the last planned date and is no rest weekday.
\<close>

theorem first_open_study_date_least:
  assumes "finite rest" and "card rest < 7"
  shows "\<exists>d. first_open_study_date today last_planned rest = Inr (Some d)
    \<and> today \<le> d \<and> (\<forall>p. last_planned = Some p \<longrightarrow> p < d) \<and> weekday d \<notin> rest
    \<and> (\<forall>x. today \<le> x \<and> (\<forall>p. last_planned = Some p \<longrightarrow> p < x) \<and> weekday x \<notin> rest \<longrightarrow> d \<le> x)"
proof -
  let ?c = "case last_planned of None \<Rightarrow> today | Some p \<Rightarrow> if today \<le> p then p + 1 else today"
  obtain k where "weekday (?c + int k) \<notin> rest" using some_weekday_open [OF assms] by blast
  then obtain d where d: "skip_rest rest ?c = Some d" using skip_rest_returns by blast
  have c: "today \<le> ?c" "\<forall>p. last_planned = Some p \<longrightarrow> p < ?c" by (auto split: option.splits)
  have least: "?c \<le> x" if "today \<le> x" "\<forall>p. last_planned = Some p \<longrightarrow> p < x" for x
    using that by (auto split: option.splits)
  have "d \<le> x" if "today \<le> x" "\<forall>p. last_planned = Some p \<longrightarrow> p < x" "weekday x \<notin> rest" for x
    using least [OF that(1,2)] that(3) skip_rest_Some [OF d] by (meson not_less)
  moreover have "first_open_study_date today last_planned rest = Inr (Some d)"
    using assms d by (simp add: first_open_study_date_def Let_def)
  ultimately show ?thesis
    using c skip_rest_Some [OF d] by (intro exI [of _ d]) fastforce
qed

theorem first_open_study_date_least_witness:
  "\<exists>d. first_open_study_date 739985 (Some 739988) {5, 6} = Inr (Some d) \<and> 739988 < d"
  using first_open_study_date_least [of "{5, 6}" 739985 "Some 739988"] by auto

text \<open>
  C15. A day that is planned at all fits its budget: the planned minutes are exactly the kept
  tasks, the counted interview minutes and the rescheduled work; they never pass the day's
  maximum, and without interviews they reach its acceptable minimum. A Sunday plans nothing.
\<close>

theorem build_day_within_budget:
  assumes "build_day d n tasks ivs ws bopt = Inr p"
    and "b = (case bopt of None \<Rightarrow> budget_for d | Some b \<Rightarrow> b)"
  shows "if day_type b = Sunday then dp_planned_minutes p = 0 \<and> dp_tasks p = []
    else 0 \<le> dp_planned_minutes p \<and> dp_planned_minutes p \<le> maximum_minutes b
      \<and> (ivs = [] \<longrightarrow> acceptable_minimum b \<le> dp_planned_minutes p)
      \<and> dp_planned_minutes p = total_minutes (dp_tasks p)
          + min (sum_list (map ic_minutes ivs)) (maximum_minutes b)
          + rescheduled_work ws (dp_missed_work p)"
proof (cases "day_type b = Sunday")
  case True
  with assms show ?thesis by (auto simp: build_day_def Let_def)
next
  case False
  with assms show ?thesis
    by (auto elim!: build_day_cases dest!: resolve_unfinished_decisions)
qed

definition sample_task :: "int \<Rightarrow> string \<Rightarrow> int \<Rightarrow> int option \<Rightarrow> task_template" where
  "sample_task i blk mins prio =
     \<lparr>task_definition_id = i, stable_id = ''task'', mapping_version = ''v1'',
      objective = ''practise'', block = blk, order = i, timebox_minutes = mins,
      required = (prio = None), adaptive_priority = prio\<rparr>"

definition sample_work :: unfinished_work where
  "sample_work = \<lparr>uw_id = 9, uw_classification = Required, uw_minutes = 20,
                  uw_stronger_evidence_id = None\<rparr>"

definition sample_plan :: day_plan where
  "sample_plan =
     \<lparr>dp_local_date = 739985, dp_curriculum_day = Some 1, dp_day_type = Budget_day Weekday,
      dp_tasks = [sample_task 1 ''sql'' 220 None], dp_interview_minutes = 0,
      dp_planned_minutes = 240,
      dp_missed_work = [\<lparr>mw_work_id = 9, mw_action = Replace_adaptive,
        mw_replaced_task_id = Some 2, mw_stronger_evidence_id = None\<rparr>],
      dp_notifications = []\<rparr>"

lemma sample_day:
  "build_day 739985 (Some 1)
     [sample_task 1 ''sql'' 220 None, sample_task 2 ''case'' 30 (Some 1)] [] [sample_work] None
   = Inr sample_plan"
  by code_simp

theorem build_day_within_budget_witness:
  "dp_planned_minutes sample_plan \<le> maximum_minutes (budget_for 739985)"
  using build_day_within_budget [OF sample_day refl]
  by (simp add: budget_for_def weekday_def DayBudget_def)



text \<open>
  Unfinished work never breaks a plan that fits: if a day can be planned with the interviews
  alone, then adding any unfinished work cannot push it over the maximum of its budget, because a
  replacement is only taken when the exchanged minutes still fit.
\<close>

theorem unfinished_work_never_overflows:
  assumes "tasks_wf tasks" and "\<forall>w \<in> set ws. is_ok (check_unfinished_work w)"
    and "\<forall>i \<in> set ivs. is_ok (check_interview_commitment i)"
    and "build_day d n tasks ivs [] bopt = Inr p"
  shows "build_day d n tasks ivs ws bopt \<noteq> Inl (Time_policy e)"
proof (cases "day_type (case bopt of None \<Rightarrow> budget_for d | Some b \<Rightarrow> b) = Sunday")
  case True
  then show ?thesis by (simp add: build_day_def Let_def)
next
  case False
  define b where "b = (case bopt of None \<Rightarrow> budget_for d | Some b \<Rightarrow> b)"
  let ?im = "sum_list (map ic_minutes ivs)"
  let ?kept = "replace_for_interviews
      (sort_key (\<lambda>t. (order t, task_definition_id t)) tasks) ?im (maximum_minutes b)"
  obtain ts ds m where r: "resolve_unfinished ?kept ws (maximum_minutes b)
      (min ?im (maximum_minutes b)) 0 = (ts, ds, m)" by (metis prod_cases3)
  have fits: "total_minutes ?kept + min ?im (maximum_minutes b) \<le> maximum_minutes b"
    using assms(4) b_def False by (auto elim!: build_day_cases)
  have kept: "\<forall>t \<in> set ?kept. 0 < timebox_minutes t"
    using replace_for_interviews_subseq tasks_wf_timebox [OF assms(1)]
    by (metis subseq_conv_nths set_nths_subset set_sort subsetD)
  have "\<forall>w \<in> set ws. 0 < uw_minutes w"
    using assms(2) by (auto simp: check_unfinished_work_def split: if_splits)
  with r kept have "0 \<le> total_minutes ts \<and> 0 \<le> m" by (rule resolve_unfinished_nonneg)
  moreover have "0 \<le> ?im"
    using assms(3) by (intro sum_list_nonneg)
      (auto simp: check_interview_commitment_def split: if_splits)
  moreover have "0 \<le> maximum_minutes b"
    using assms(4) b_def False by (auto elim!: build_day_cases)
  moreover have "total_minutes ts + m + min ?im (maximum_minutes b) \<le> maximum_minutes b"
    using resolve_unfinished_fits [OF r kept] fits by simp
  ultimately have "validate_planned_minutes b
      (total_minutes ts + min ?im (maximum_minutes b) + m) = Inr ()"
    by (simp add: validate_planned_minutes_Inr_iff)
  then show ?thesis
    using r unfolding build_day_def Let_def b_def [symmetric]
    by (auto split: if_splits)
qed

theorem unfinished_work_never_overflows_witness:
  "\<not> (\<exists>e. build_day 739985 (Some 1)
     [sample_task 1 ''sql'' 220 None, sample_task 2 ''case'' 30 (Some 1)] []
     [sample_work, sample_work] None = Inl (Time_policy e))"
proof -
  let ?ts = "[sample_task 1 ''sql'' 220 None, sample_task 2 ''case'' 30 (Some 1)]"
  have "tasks_wf ?ts" by code_simp
  moreover have "\<forall>w \<in> set [sample_work, sample_work]. is_ok (check_unfinished_work w)"
    by (simp add: sample_work_def check_unfinished_work_def)
  moreover have "\<exists>p. build_day 739985 (Some 1) ?ts [] [] None = Inr p"
    unfolding is_ok_iff [symmetric] by code_simp
  ultimately show ?thesis using unfinished_work_never_overflows by fastforce
qed

end
