(* ===== verification/Decimal.thy ===== *)
theory Decimal
  imports Complex_Main Prelude "HOL-Library.Log_Nat"
begin

text \<open>
  Python's \<^verbatim>\<open>decimal\<close> arithmetic as the sources use it, over exact rationals. Every
  arithmetic operation computes the exact result and rounds it to the 28 significant digits of the
  default context, half to even (\<open>dec_fix\<close>); \<^verbatim>\<open>quantize\<close> rounds to a fixed number of
  decimal places and raises \<^verbatim>\<open>InvalidOperation\<close> when the coefficient would need more than
  28 digits. The limits on the exponent (\<^verbatim>\<open>Emin\<close>, \<^verbatim>\<open>Emax\<close> at 999999) are out of
  reach of the values here and are not modelled. The contract of a rounding rule is the locale
  \<open>rounding\<close>.
\<close>

section \<open>Rounding rules\<close>

definition round_half_up :: "rat \<Rightarrow> int" where
  "round_half_up x = (if 0 \<le> x then \<lfloor>x + 1 / 2\<rfloor> else - \<lfloor>1 / 2 - x\<rfloor>)"

definition round_half_even :: "rat \<Rightarrow> int" where
  "round_half_even x =
     (let n = \<lfloor>x\<rfloor>; r = x - of_int n
      in if r < 1 / 2 then n else if 1 / 2 < r then n + 1 else if even n then n else n + 1)"

locale rounding =
  fixes rnd :: "rat \<Rightarrow> int"
  assumes rnd_of_int: "rnd (of_int n) = n"
    and rnd_mono: "x \<le> y \<Longrightarrow> rnd x \<le> rnd y"
begin

lemma rnd_le: "x \<le> of_int n \<Longrightarrow> rnd x \<le> n"
  using rnd_mono [of x "of_int n"] by (simp add: rnd_of_int)

lemma rnd_ge: "of_int n \<le> x \<Longrightarrow> n \<le> rnd x"
  using rnd_mono [of "of_int n" x] by (simp add: rnd_of_int)

lemma rnd_scaled_le:
  assumes "0 < q" "h / q \<in> \<int>" "x \<le> h"
  shows "of_int (rnd (x / q)) * q \<le> h"
proof -
  obtain n where n: "h / q = of_int n" using assms(2) by (auto elim: Ints_cases)
  have "x / q \<le> of_int n" using assms n by (metis divide_right_mono less_imp_le)
  then have "of_int (rnd (x / q)) * q \<le> of_int n * q"
    using assms(1) rnd_le by simp
  also have "\<dots> = h" using n assms(1) by (simp add: field_simps)
  finally show ?thesis .
qed

lemma rnd_scaled_ge:
  assumes "0 < q" "l / q \<in> \<int>" "l \<le> x"
  shows "l \<le> of_int (rnd (x / q)) * q"
proof -
  obtain n where n: "l / q = of_int n" using assms(2) by (auto elim: Ints_cases)
  have "of_int n \<le> x / q" using assms n by (metis divide_right_mono less_imp_le)
  then have "of_int n * q \<le> of_int (rnd (x / q)) * q"
    using assms(1) rnd_ge by simp
  moreover have "l = of_int n * q" using n assms(1) by (simp add: field_simps)
  ultimately show ?thesis by simp
qed

lemma rnd_scaled_exact:
  assumes "0 < q" "x / q \<in> \<int>"
  shows "of_int (rnd (x / q)) * q = x"
  using rnd_scaled_le [OF assms order_refl] rnd_scaled_ge [OF assms order_refl] by simp

end

lemma half_up_mono: "x \<le> y \<Longrightarrow> round_half_up x \<le> round_half_up y"
proof -
  assume xy: "x \<le> y"
  consider "0 \<le> x" | "y < 0" | "x < 0" "0 \<le> y" by linarith
  then show ?thesis
  proof cases
    case 1
    with xy show ?thesis by (auto simp: round_half_up_def intro!: floor_mono)
  next
    case 2
    with xy show ?thesis by (auto simp: round_half_up_def intro!: floor_mono)
  next
    case 3
    then have "0 \<le> \<lfloor>1 / 2 - x\<rfloor>" "0 \<le> \<lfloor>y + 1 / 2\<rfloor>" by (simp_all add: zero_le_floor)
    then have "- \<lfloor>1 / 2 - x\<rfloor> \<le> \<lfloor>y + 1 / 2\<rfloor>" by linarith
    with 3 show ?thesis by (simp only: round_half_up_def split: if_split) simp
  qed
qed

lemma half_even_mono: "x \<le> y \<Longrightarrow> round_half_even x \<le> round_half_even y"
proof -
  assume xy: "x \<le> y"
  then have fl: "\<lfloor>x\<rfloor> \<le> \<lfloor>y\<rfloor>" by (rule floor_mono)
  have b: "\<lfloor>z\<rfloor> \<le> round_half_even z \<and> round_half_even z \<le> \<lfloor>z\<rfloor> + 1" for z
    by (simp add: round_half_even_def Let_def)
  show ?thesis
  proof (cases "\<lfloor>x\<rfloor> = \<lfloor>y\<rfloor>")
    case True
    with xy show ?thesis by (simp add: round_half_even_def Let_def)
  next
    case False
    with fl have "\<lfloor>x\<rfloor> + 1 \<le> \<lfloor>y\<rfloor>" by simp
    with b [of x] b [of y] show ?thesis by linarith
  qed
qed

lemma half_up_of_int: "round_half_up (of_int n) = n"
proof -
  have "\<lfloor>rat_of_int n + 1 / 2\<rfloor> = n" "\<lfloor>1 / 2 - rat_of_int n\<rfloor> = - n"
    by (simp_all add: floor_unique)
  then show ?thesis by (simp only: round_half_up_def split: if_split) simp
qed

lemma half_even_of_int: "round_half_even (of_int n) = n"
  by (simp add: round_half_even_def)

interpretation half_up: rounding round_half_up
  by unfold_locales (rule half_up_of_int, rule half_up_mono)

interpretation half_even: rounding round_half_even
  by unfold_locales (rule half_even_of_int, rule half_even_mono)

section \<open>The 28-digit context\<close>

text \<open>The number of digits before the decimal point of a positive number (or less, below 1).\<close>

definition dec_digits :: "rat \<Rightarrow> int" where
  "dec_digits x =
     (let (p, q) = quotient_of x;
          d = int (floorlog 10 (nat p)) - int (floorlog 10 (nat q))
      in if (10::rat) powi d \<le> x then d + 1 else d)"

definition dec_fix :: "rat \<Rightarrow> rat" where
  "dec_fix x =
     (if x = 0 then 0
      else (let q = (10::rat) powi (dec_digits \<bar>x\<bar> - 28)
            in of_int (round_half_even (x / q)) * q))"

definition dec_add :: "rat \<Rightarrow> rat \<Rightarrow> rat" where "dec_add a b = dec_fix (a + b)"
definition dec_sub :: "rat \<Rightarrow> rat \<Rightarrow> rat" where "dec_sub a b = dec_fix (a - b)"
definition dec_mul :: "rat \<Rightarrow> rat \<Rightarrow> rat" where "dec_mul a b = dec_fix (a * b)"
definition dec_div :: "rat \<Rightarrow> rat \<Rightarrow> rat" where "dec_div a b = dec_fix (a / b)"

definition dec_sum :: "rat list \<Rightarrow> rat" where
  "dec_sum xs = foldl dec_add 0 xs"

definition quantize :: "'e \<Rightarrow> (rat \<Rightarrow> int) \<Rightarrow> nat \<Rightarrow> rat \<Rightarrow> ('e, rat) result" where
  "quantize invalid rnd places x =
     (let n = rnd (x * 10 ^ places)
      in if 10 ^ 28 \<le> \<bar>n\<bar> then Inl invalid else Inr (of_int n / 10 ^ places))"

text \<open>A value with at most \<open>k\<close> decimal places.\<close>

definition places :: "nat \<Rightarrow> rat \<Rightarrow> bool" where
  "places k x \<longleftrightarrow> x * 10 ^ k \<in> \<int>"

lemma dec_digits_lower:
  assumes "0 < x"
  shows "(10::rat) powi (dec_digits x - 1) \<le> x"
proof -
  obtain p q where pq: "quotient_of x = (p, q)" by (cases "quotient_of x")
  then have q: "0 < q" and x: "x = of_int p / of_int q"
    by (auto simp: quotient_of_denom_pos quotient_of_div)
  with assms have p: "0 < p" by (simp add: zero_less_divide_iff)
  define P Q where "P = floorlog 10 (nat p)" and "Q = floorlog 10 (nat q)"
  have P: "10 ^ (P - 1) \<le> nat p" "0 < P" and Q: "nat q < 10 ^ Q"
    using floorlog_bounds [of "nat p" 10] floorlog_bounds [of "nat q" 10] p q
    by (auto simp: P_def Q_def floorlog_eq_zero_iff intro: Nat.gr0I)
  have "(10::rat) powi (int P - int Q - 1) \<le> x"
  proof -
    have "(10::rat) ^ (P - 1) \<le> of_int p"
      using P(1) p by (metis of_nat_le_iff of_nat_numeral of_nat_power of_nat_nat less_imp_le
          of_int_of_nat_eq)
    moreover have "of_int q \<le> (10::rat) ^ Q"
      using Q q by (metis of_nat_less_iff of_nat_numeral of_nat_power of_nat_nat less_imp_le
          of_int_of_nat_eq)
    ultimately have "(10::rat) ^ (P - 1) / 10 ^ Q \<le> of_int p / of_int q"
      using p q by (intro frac_le) auto
    moreover have "(10::rat) powi (int P - int Q - 1) = 10 ^ (P - 1) / 10 ^ Q"
    proof -
      have e: "int P - int Q - 1 = int (P - 1) - int Q" using P(2) by simp
      have "(10::rat) powi (int (P - 1) - int Q) = 10 powi int (P - 1) / 10 powi int Q"
        by (rule power_int_diff) simp
      then show ?thesis by (simp only: e power_int_of_nat)
    qed
    ultimately show ?thesis using x by simp
  qed
  then show ?thesis
    by (simp add: dec_digits_def pq P_def Q_def Let_def)
qed

lemma dec_digits_bound:
  assumes "0 < x" "x < 10 ^ n"
  shows "dec_digits x \<le> int n"
proof (rule ccontr)
  assume "\<not> ?thesis"
  then have "int n \<le> dec_digits x - 1" by simp
  then have "(10::rat) powi int n \<le> 10 powi (dec_digits x - 1)"
    by (intro power_int_increasing) auto
  with dec_digits_lower [OF assms(1)] assms(2) show False by simp
qed

text \<open>
  The unit of the last digit divides any number with few enough decimal places.
\<close>

lemma dec_unit_divides:
  assumes "0 < \<bar>x\<bar>" "\<bar>x\<bar> < 10 ^ (28 - k)" "k \<le> 28" "places k h"
  shows "h / (10 powi (dec_digits \<bar>x\<bar> - 28)) \<in> \<int>"
proof -
  have "dec_digits \<bar>x\<bar> \<le> int (28 - k)" using dec_digits_bound [OF assms(1,2)] .
  then have "dec_digits \<bar>x\<bar> - 28 = - (int (nat (28 - int k - dec_digits \<bar>x\<bar>)) + int k)"
    using assms(3) by simp
  then obtain j where j: "dec_digits \<bar>x\<bar> - 28 = - (int (j + k))" by (metis of_nat_add)
  have "h / (10 powi (- (int (j + k)))) = h * 10 ^ k * 10 ^ j"
    by (simp only: power_int_minus power_int_of_nat divide_inverse inverse_inverse_eq power_add)
      (simp only: mult_ac)
  also have "\<dots> \<in> \<int>" using assms(4) by (auto simp: places_def)
  finally show ?thesis using j by simp
qed

lemma dec_fix_exact:
  assumes "places k x" "\<bar>x\<bar> < 10 ^ (28 - k)" "k \<le> 28"
  shows "dec_fix x = x"
proof (cases "x = 0")
  case True
  then show ?thesis by (simp add: dec_fix_def)
next
  case False
  then have "x / (10 powi (dec_digits \<bar>x\<bar> - 28)) \<in> \<int>"
    using dec_unit_divides [of x k x] assms by simp
  with False show ?thesis
    by (simp add: dec_fix_def Let_def half_even.rnd_scaled_exact)
qed

lemma dec_fix_le:
  assumes "x \<le> h" "places k h" "\<bar>x\<bar> < 10 ^ (28 - k)" "k \<le> 28" "0 \<le> h \<or> x \<noteq> 0"
  shows "dec_fix x \<le> h"
proof (cases "x = 0")
  case True
  with assms show ?thesis by (simp add: dec_fix_def)
next
  case False
  with dec_unit_divides [of x k h] assms show ?thesis
    by (simp add: dec_fix_def Let_def half_even.rnd_scaled_le)
qed

lemma dec_fix_ge:
  assumes "l \<le> x" "places k l" "\<bar>x\<bar> < 10 ^ (28 - k)" "k \<le> 28" "l \<le> 0 \<or> x \<noteq> 0"
  shows "l \<le> dec_fix x"
proof (cases "x = 0")
  case True
  with assms show ?thesis by (simp add: dec_fix_def)
next
  case False
  with dec_unit_divides [of x k l] assms show ?thesis
    by (simp add: dec_fix_def Let_def half_even.rnd_scaled_ge)
qed

lemma places_of_int [simp]: "places k (of_int n)"
  by (simp add: places_def)

lemma places_numeral [simp]: "places k (numeral n)" "places k 0" "places k 1"
  by (simp_all add: places_def)

lemma places_add: "places k x \<Longrightarrow> places k y \<Longrightarrow> places k (x + y)"
  by (simp add: places_def distrib_right)

lemma places_diff: "places k x \<Longrightarrow> places k y \<Longrightarrow> places k (x - y)"
  by (simp add: places_def left_diff_distrib)

lemma places_mult: "places j x \<Longrightarrow> places k y \<Longrightarrow> places (j + k) (x * y)"
proof -
  assume "places j x" "places k y"
  then have "(x * 10 ^ j) * (y * 10 ^ k) \<in> \<int>" by (simp add: places_def)
  then show ?thesis by (simp add: places_def power_add mult_ac)
qed

lemma places_mono: "places k x \<Longrightarrow> k \<le> m \<Longrightarrow> places m x"
proof -
  assume "places k x" "k \<le> m"
  then obtain j where "m = k + j" using le_Suc_ex by blast
  with \<open>places k x\<close> show ?thesis
    using Ints_mult [of "x * 10 ^ k" "10 ^ j"] by (simp add: places_def power_add mult_ac)
qed

lemma quantize_Inr:
  "quantize i rnd k x = Inr y \<Longrightarrow> y = of_int (rnd (x * 10 ^ k)) / 10 ^ k"
  by (auto simp: quantize_def Let_def split: if_splits)

lemma quantize_places: "quantize i rnd k x = Inr y \<Longrightarrow> places k y"
  by (auto dest!: quantize_Inr simp: places_def)

lemma of_int_abs_less: "\<bar>rat_of_int n\<bar> < 10 ^ k \<Longrightarrow> \<bar>n\<bar> < 10 ^ k"
proof -
  assume "\<bar>rat_of_int n\<bar> < 10 ^ k"
  then have "rat_of_int \<bar>n\<bar> < rat_of_int (10 ^ k)" by simp
  then show ?thesis by (simp only: of_int_less_iff)
qed

context rounding
begin

lemma quantize_le:
  assumes "quantize i rnd k x = Inr y" "x \<le> h" "places k h"
  shows "y \<le> h"
  using rnd_scaled_le [of "1 / 10 ^ k" h x] assms(2,3)
  by (simp add: places_def quantize_Inr [OF assms(1)])

lemma quantize_ge:
  assumes "quantize i rnd k x = Inr y" "l \<le> x" "places k l"
  shows "l \<le> y"
  using rnd_scaled_ge [of "1 / 10 ^ k" l x] assms(2,3)
  by (simp add: places_def quantize_Inr [OF assms(1)])

lemma quantize_exact:
  assumes "places k x" "\<bar>x\<bar> < 10 ^ 28 / 10 ^ k"
  shows "quantize i rnd k x = Inr x"
proof -
  obtain n where n: "x * 10 ^ k = of_int n" using assms(1) by (auto simp: places_def elim: Ints_cases)
  have "\<bar>x\<bar> * 10 ^ k < 10 ^ 28" using assms(2) by (simp add: field_simps)
  then have "\<bar>rat_of_int n\<bar> < 10 ^ 28" by (simp add: abs_mult flip: n)
  then have "\<bar>n\<bar> < 10 ^ 28" by (rule of_int_abs_less)
  then show ?thesis
    using n by (simp add: quantize_def Let_def rnd_of_int field_simps)
qed

lemma quantize_defined:
  assumes "l \<le> x" "x \<le> h" "places k l" "places k h"
    and "\<bar>l\<bar> < 10 ^ 28 / 10 ^ k" "\<bar>h\<bar> < 10 ^ 28 / 10 ^ k"
  shows "\<exists>y. quantize i rnd k x = Inr y"
proof -
  obtain a where a: "l * 10 ^ k = of_int a"
    using assms(3) by (auto simp: places_def elim: Ints_cases)
  obtain b where b: "h * 10 ^ k = of_int b"
    using assms(4) by (auto simp: places_def elim: Ints_cases)
  have "\<bar>l\<bar> * 10 ^ k < 10 ^ 28" "\<bar>h\<bar> * 10 ^ k < 10 ^ 28"
    using assms(5,6) by (simp_all add: field_simps)
  then have "\<bar>l * 10 ^ k\<bar> < 10 ^ 28" "\<bar>h * 10 ^ k\<bar> < 10 ^ 28" by (simp_all add: abs_mult)
  then have "\<bar>a\<bar> < 10 ^ 28" "\<bar>b\<bar> < 10 ^ 28" unfolding a b by (auto intro: of_int_abs_less)
  moreover have "a \<le> rnd (x * 10 ^ k)" "rnd (x * 10 ^ k) \<le> b"
    using rnd_ge [of a "x * 10 ^ k"] rnd_le [of "x * 10 ^ k" b] assms(1,2)
    by (auto simp flip: a b)
  ultimately show ?thesis by (auto simp: quantize_def Let_def abs_if)
qed

end

end
