(* ===== verification/Cards.thy ===== *)
theory Cards
  imports Decimal
begin

text \<open>
  Spaced repetition, \<^verbatim>\<open>cards/scheduling.py\<close>: the pinned SM-2 rules every card review
  follows, with Python's decimal rounding and the exceptions of \<^verbatim>\<open>decimal\<close> and
  \<^verbatim>\<open>datetime\<close> arithmetic as error branches.
\<close>

section \<open>Data\<close>

datatype card_error = ValueError string | InvalidOperation | OverflowError

definition MINIMUM_EASINESS :: rat where "MINIMUM_EASINESS = 130 / 100"
definition INITIAL_EASINESS :: rat where "INITIAL_EASINESS = 250 / 100"
definition PASSING_GRADE :: int where "PASSING_GRADE = 3"

record card_state =
  easiness :: rat
  interval_days :: int
  repetitions :: int
  due_on :: date

record review_outcome =
  ro_before :: card_state
  ro_after :: card_state
  ro_grade :: int
  ro_successful :: bool

section \<open>Operations\<close>

text \<open>
  The timezone database is an argument: a zone name gives the UTC offset in microseconds at an
  instant, or nothing when \<^verbatim>\<open>ZoneInfo\<close> raises. \<^verbatim>\<open>None\<close> and the empty name are
  both falsy.
\<close>

definition local_date_at :: "instant \<Rightarrow> int \<Rightarrow> date" where
  "local_date_at now offset = date_of (Aware (now + offset) offset)"

definition learner_local_date ::
    "(string \<Rightarrow> (instant \<Rightarrow> int) option) \<Rightarrow> instant \<Rightarrow> string option \<Rightarrow> date" where
  "learner_local_date tzdb now timezone =
     (case timezone of
        None \<Rightarrow> local_date_at now 0
      | Some name \<Rightarrow>
          if name = '''' then local_date_at now 0
          else (case tzdb name of
                  None \<Rightarrow> local_date_at now 0
                | Some offset \<Rightarrow> local_date_at now (offset now)))"

definition new_card_state :: "date \<Rightarrow> card_state" where
  "new_card_state due =
     \<lparr>easiness = INITIAL_EASINESS, interval_days = 0, repetitions = 0, due_on = due\<rparr>"

text \<open>\<^verbatim>\<open>reviewed_on + timedelta(days=interval)\<close>.\<close>

definition add_days :: "date \<Rightarrow> int \<Rightarrow> (card_error, date) result" where
  "add_days d n =
     (if 999999999 < \<bar>n\<bar> \<or> d + n < 1 \<or> max_date < d + n then Inl OverflowError else Inr (d + n))"

definition easiness_delta :: "int \<Rightarrow> rat" where
  "easiness_delta grade =
     dec_sub (dec_add (- 8 / 10) (dec_mul (28 / 100) (of_int grade)))
       (dec_mul (dec_mul (2 / 100) (of_int grade)) (of_int grade))"

definition schedule :: "card_state \<Rightarrow> int \<Rightarrow> date \<Rightarrow> (card_error, review_outcome) result" where
  "schedule state grade reviewed_on =
     (if \<not> (0 \<le> grade \<and> grade \<le> 5) then Inl (ValueError ''grade must be between 0 and 5'')
      else
        bind_result
          (quantize InvalidOperation round_half_even 2
             (dec_add (easiness state) (easiness_delta grade)))
          (\<lambda>quantized.
             let ease = max MINIMUM_EASINESS quantized;
                 successful = (PASSING_GRADE \<le> grade);
                 reps = (if successful then repetitions state + 1 else 0)
             in bind_result
                  (if \<not> successful then Inr 1
                   else if reps = 1 then Inr 1
                   else if reps = 2 then Inr 6
                   else
                     bind_result
                       (quantize InvalidOperation round_half_up 0
                          (dec_mul (of_int (interval_days state)) ease))
                       (\<lambda>grown. Inr (max \<lfloor>grown\<rfloor> (interval_days state + 1))))
                  (\<lambda>interval.
                     bind_result (add_days reviewed_on interval)
                       (\<lambda>due. Inr
                          \<lparr>ro_before = state,
                           ro_after = \<lparr>easiness = ease, interval_days = interval,
                                       repetitions = reps, due_on = due\<rparr>,
                           ro_grade = grade, ro_successful = successful\<rparr>))))"

text \<open>A review command on a stored card: its state becomes the outcome's \<open>after\<close>.\<close>

definition review :: "card_state \<Rightarrow> int \<times> date \<Rightarrow> (card_error, card_state) result" where
  "review s c = bind_result (schedule s (fst c) (snd c)) (\<lambda>o1. Inr (ro_after o1))"

section \<open>Lemmas\<close>

lemma dec_mul_grade:
  assumes "0 \<le> grade" "grade \<le> 5" "places 2 x" "0 \<le> x" "x \<le> 1"
  shows "dec_mul x (of_int grade) = x * of_int grade"
  unfolding dec_mul_def
proof (rule dec_fix_exact [where k = 2])
  show "places 2 (x * of_int grade)"
    using places_mult [OF assms(3) places_of_int [of 0 grade]] by simp
  have "x * of_int grade \<le> 1 * 5" using assms by (intro mult_mono) auto
  then show "\<bar>x * of_int grade\<bar> < 10 ^ (28 - 2)" using assms by simp
qed simp

lemma easiness_delta_table:
  assumes "0 \<le> grade" "grade \<le> 5"
  shows "easiness_delta grade =
    (if grade = 0 then - 80 / 100 else if grade = 1 then - 54 / 100
     else if grade = 2 then - 32 / 100 else if grade = 3 then - 14 / 100
     else if grade = 4 then 0 else 10 / 100)"
proof -
  have fix2: "dec_fix x = x" if "x * 100 \<in> \<int>" "\<bar>x\<bar> < 1000" for x
    using that by (intro dec_fix_exact [where k = 2]) (auto simp: places_def)
  have g: "grade \<in> {0, 1, 2, 3, 4, 5}" using assms by auto
  then show ?thesis
    by (auto simp: easiness_delta_def dec_sub_def dec_add_def dec_mul_def fix2)
qed

lemma easiness_delta_places:
  "0 \<le> grade \<Longrightarrow> grade \<le> 5 \<Longrightarrow> places 2 (easiness_delta grade) \<and> \<bar>easiness_delta grade\<bar> \<le> 1"
  by (auto simp: easiness_delta_table places_def)

text \<open>A stored easiness: the column is \<^verbatim>\<open>Numeric(4, 2)\<close>.\<close>

definition stored_easiness :: "rat \<Rightarrow> bool" where
  "stored_easiness e \<longleftrightarrow> places 2 e \<and> \<bar>e\<bar> < 100"

lemma new_easiness_exact:
  assumes "stored_easiness e" "0 \<le> grade" "grade \<le> 5"
  shows "quantize InvalidOperation round_half_even 2 (dec_add e (easiness_delta grade))
    = Inr (e + easiness_delta grade)"
proof -
  have d: "places 2 (easiness_delta grade)" "\<bar>easiness_delta grade\<bar> \<le> 1"
    using easiness_delta_places assms(2,3) by auto
  have p: "places 2 (e + easiness_delta grade)" "\<bar>e + easiness_delta grade\<bar> < 101"
    using d assms(1) places_add by (auto simp: stored_easiness_def)
  then have "dec_add e (easiness_delta grade) = e + easiness_delta grade"
    by (auto simp: dec_add_def intro!: dec_fix_exact [where k = 2])
  with p show ?thesis by (simp add: half_even.quantize_exact)
qed

lemma schedule_cases:
  assumes "schedule s grade d = Inr r"
  obtains q where "0 \<le> grade" "grade \<le> 5"
    "quantize InvalidOperation round_half_even 2 (dec_add (easiness s) (easiness_delta grade)) = Inr q"
    "ro_before r = s" "ro_grade r = grade" "ro_successful r = (3 \<le> grade)"
    "easiness (ro_after r) = max MINIMUM_EASINESS q"
    "repetitions (ro_after r) = (if 3 \<le> grade then repetitions s + 1 else 0)"
    "due_on (ro_after r) = d + interval_days (ro_after r)"
    "\<bar>interval_days (ro_after r)\<bar> \<le> 999999999" "due_on (ro_after r) \<le> max_date"
    "grade < 3 \<or> repetitions s = 0 \<Longrightarrow> interval_days (ro_after r) = 1"
    "3 \<le> grade \<Longrightarrow> repetitions s = 1 \<Longrightarrow> interval_days (ro_after r) = 6"
    "3 \<le> grade \<Longrightarrow> repetitions s \<notin> {0, 1} \<Longrightarrow>
       (\<exists>g. quantize InvalidOperation round_half_up 0
              (dec_mul (of_int (interval_days s)) (easiness (ro_after r))) = Inr g
            \<and> interval_days (ro_after r) = max \<lfloor>g\<rfloor> (interval_days s + 1))"
proof -
  from assms have g: "0 \<le> grade" "grade \<le> 5" by (auto simp: schedule_def split: if_splits)
  from assms g obtain q where
    q: "quantize InvalidOperation round_half_even 2
          (dec_add (easiness s) (easiness_delta grade)) = Inr q"
    by (auto simp: schedule_def result_simps)
  show ?thesis
    by (rule that [OF g q])
      (use assms g q in \<open>auto simp: schedule_def result_simps add_days_def PASSING_GRADE_def Let_def
         split: if_splits\<close>)
qed

definition card_inv :: "card_state \<Rightarrow> bool" where
  "card_inv s \<longleftrightarrow>
     places 2 (easiness s) \<and> MINIMUM_EASINESS \<le> easiness s \<and> 0 \<le> interval_days s
     \<and> 0 \<le> repetitions s \<and> (1 \<le> repetitions s \<longrightarrow> 1 \<le> interval_days s)
     \<and> (2 \<le> repetitions s \<longrightarrow> 6 \<le> interval_days s)"

lemma new_card_inv: "card_inv (new_card_state d)"
  by (simp add: card_inv_def new_card_state_def INITIAL_EASINESS_def MINIMUM_EASINESS_def
      places_def)

lemma places_min_easiness: "places 2 MINIMUM_EASINESS"
  by (simp add: MINIMUM_EASINESS_def places_def)

lemma review_inv:
  assumes "card_inv s" "review s c = Inr s'"
  shows "card_inv s'"
proof -
  obtain r where r: "schedule s (fst c) (snd c) = Inr r" and s': "s' = ro_after r"
    using assms(2) by (auto simp: review_def result_simps)
  from r show ?thesis
  proof (rule schedule_cases)
    fix q
    assume q: "quantize InvalidOperation round_half_even 2
        (dec_add (easiness s) (easiness_delta (fst c))) = Inr q"
      and e: "easiness (ro_after r) = max MINIMUM_EASINESS q"
      and rep: "repetitions (ro_after r) = (if 3 \<le> fst c then repetitions s + 1 else 0)"
      and i1: "fst c < 3 \<or> repetitions s = 0 \<Longrightarrow> interval_days (ro_after r) = 1"
      and i2: "3 \<le> fst c \<Longrightarrow> repetitions s = 1 \<Longrightarrow> interval_days (ro_after r) = 6"
      and i3: "3 \<le> fst c \<Longrightarrow> repetitions s \<notin> {0, 1} \<Longrightarrow>
       (\<exists>g. quantize InvalidOperation round_half_up 0
              (dec_mul (of_int (interval_days s)) (easiness (ro_after r))) = Inr g
            \<and> interval_days (ro_after r) = max \<lfloor>g\<rfloor> (interval_days s + 1))"
    have "places 2 (easiness (ro_after r))"
      using e quantize_places [OF q] places_min_easiness by (auto simp: max_def)
    moreover have "repetitions s \<in> {0, 1} \<or> 2 \<le> repetitions s"
      using assms(1) by (auto simp: card_inv_def)
    ultimately show "card_inv s'"
      using assms(1) e rep i1 i2 i3 s' by (cases "3 \<le> fst c") (fastforce simp: card_inv_def)+
  qed
qed

interpretation sm2: guarded_system review card_inv
  by unfold_locales (rule review_inv)

lemma grown_interval_exact:
  assumes "places 2 e" "MINIMUM_EASINESS \<le> e" "e \<le> 101" "0 \<le> n" "n \<le> 999999999"
    and "quantize InvalidOperation round_half_up 0 (dec_mul (of_int n) e) = Inr g"
  shows "\<lfloor>g\<rfloor> = round_half_up (of_int n * e)"
proof -
  have "0 \<le> e" using assms(2) by (simp add: MINIMUM_EASINESS_def)
  then have "rat_of_int n * e \<le> 999999999 * 101" using assms by (intro mult_mono) auto
  moreover have "0 \<le> rat_of_int n * e" using \<open>0 \<le> e\<close> assms(4) by simp
  moreover have "places 2 (rat_of_int n * e)"
    using places_mult [OF places_of_int [of 0 n] assms(1)] by (simp only: add_0)
  ultimately have "dec_mul (of_int n) e = of_int n * e"
    unfolding dec_mul_def by (intro dec_fix_exact [where k = 2]) auto
  with assms(6) show ?thesis by (auto dest: quantize_Inr)
qed

lemma grown_interval_longer:
  assumes "MINIMUM_EASINESS \<le> e" "6 \<le> n"
  shows "n + 1 \<le> round_half_up (of_int n * e)"
proof (rule half_up.rnd_ge)
  have "rat_of_int n * (13 / 10) \<le> of_int n * e"
    using assms by (intro mult_left_mono) (auto simp: MINIMUM_EASINESS_def)
  moreover have "rat_of_int 6 \<le> rat_of_int n" using assms(2) by (simp only: of_int_le_iff)
  then have "rat_of_int (n + 1) \<le> rat_of_int n * (13 / 10)" by simp
  ultimately show "rat_of_int (n + 1) \<le> of_int n * e" by (rule order_trans [rotated])
qed

section \<open>Properties\<close>

text \<open>
  Every card that any sequence of reviews can produce from a new one is well formed: the
  easiness has two decimals and never falls below 1.30, the interval and the repetition count are
  never negative, and a card recalled at least twice in a row is at least six days apart.
\<close>

theorem sm2_cards_stay_valid:
  "let s = run_commands review (new_card_state d) reviews
   in places 2 (easiness s) \<and> MINIMUM_EASINESS \<le> easiness s \<and> 0 \<le> interval_days s
      \<and> 0 \<le> repetitions s \<and> (repetitions s < 2 \<or> 6 \<le> interval_days s)"
  using sm2.run_inv [OF new_card_inv, of d reviews]
  by (auto simp: card_inv_def Let_def)

text \<open>
  The easiness update is the documented one, exactly, at every grade: for a stored easiness
  the new value is the old one plus -0.80, -0.54, -0.32, -0.14, 0 or +0.10 for the grades 0 to 5,
  floored at 1.30, with no rounding error from the decimal arithmetic.
\<close>

theorem sm2_easiness_update:
  assumes "schedule s grade d = Inr r" and "stored_easiness (easiness s)"
  shows "easiness (ro_after r) = max MINIMUM_EASINESS (easiness s +
    [- 80 / 100, - 54 / 100, - 32 / 100, - 14 / 100, 0, 10 / 100] ! nat grade)"
  using assms(1)
proof (rule schedule_cases)
  fix q
  assume g: "0 \<le> grade" "grade \<le> 5"
    and q: "quantize InvalidOperation round_half_even 2
      (dec_add (easiness s) (easiness_delta grade)) = Inr q"
    and e: "easiness (ro_after r) = max MINIMUM_EASINESS q"
  have "q = easiness s + easiness_delta grade"
    using q new_easiness_exact [OF assms(2) g] by simp
  moreover have "grade \<in> {0, 1, 2, 3, 4, 5}" using g by auto
  then have "easiness_delta grade =
      [- 80 / 100, - 54 / 100, - 32 / 100, - 14 / 100, 0, 10 / 100] ! nat grade"
    using g by (auto simp: easiness_delta_table)
  ultimately show ?thesis using e by simp
qed

theorem sm2_easiness_update_witness:
  "\<exists>r. schedule \<lparr>easiness = 13 / 10, interval_days = 6, repetitions = 2, due_on = 739985\<rparr> 0 739985
     = Inr r \<and> easiness (ro_after r) = 13 / 10"
proof -
  let ?s = "\<lparr>easiness = 13 / 10, interval_days = 6, repetitions = 2, due_on = 739985\<rparr>"
  have st: "stored_easiness (easiness ?s)" by (simp add: stored_easiness_def places_def)
  obtain r where r: "schedule ?s 0 739985 = Inr r"
    using new_easiness_exact [OF st, of 0]
    by (simp add: schedule_def PASSING_GRADE_def add_days_def max_date_def)
  with sm2_easiness_update [OF r st] show ?thesis by (simp add: MINIMUM_EASINESS_def)
qed

text \<open>
  From the third successful recall on, a well-formed stored card grows by the rule the module
  documents: the new interval is the previous one times the new easiness, rounded half up, and it
  is always strictly longer, so the extra lower bound in the code never decides. The due date is
  the review date plus that interval.
\<close>

theorem sm2_success_grows_interval:
  assumes "schedule s grade d = Inr r" and "card_inv s" and "stored_easiness (easiness s)"
    and "3 \<le> grade" and "2 \<le> repetitions s"
  shows "interval_days (ro_after r)
      = round_half_up (of_int (interval_days s) * easiness (ro_after r))
    \<and> interval_days s < interval_days (ro_after r)
    \<and> due_on (ro_after r) = d + interval_days (ro_after r)"
  using assms(1)
proof (rule schedule_cases)
  fix q
  assume g: "0 \<le> grade" "grade \<le> 5"
    and q: "quantize InvalidOperation round_half_even 2
      (dec_add (easiness s) (easiness_delta grade)) = Inr q"
    and e: "easiness (ro_after r) = max MINIMUM_EASINESS q"
    and due: "due_on (ro_after r) = d + interval_days (ro_after r)"
    and bound: "\<bar>interval_days (ro_after r)\<bar> \<le> 999999999"
    and i3: "3 \<le> grade \<Longrightarrow> repetitions s \<notin> {0, 1} \<Longrightarrow>
       (\<exists>g. quantize InvalidOperation round_half_up 0
              (dec_mul (of_int (interval_days s)) (easiness (ro_after r))) = Inr g
            \<and> interval_days (ro_after r) = max \<lfloor>g\<rfloor> (interval_days s + 1))"
  obtain h where h: "quantize InvalidOperation round_half_up 0
      (dec_mul (of_int (interval_days s)) (easiness (ro_after r))) = Inr h"
    and n: "interval_days (ro_after r) = max \<lfloor>h\<rfloor> (interval_days s + 1)"
    using i3 assms(4,5) by auto
  have six: "6 \<le> interval_days s" using assms(2,5) by (simp add: card_inv_def)
  have "q \<le> 101"
    using q new_easiness_exact [OF assms(3) g] assms(3) easiness_delta_places [OF g]
    by (auto simp: stored_easiness_def)
  then have ease: "places 2 (easiness (ro_after r))" "MINIMUM_EASINESS \<le> easiness (ro_after r)"
      "easiness (ro_after r) \<le> 101"
    using e quantize_places [OF q] places_min_easiness
    by (auto simp: max_def MINIMUM_EASINESS_def)
  have "\<lfloor>h\<rfloor> = round_half_up (of_int (interval_days s) * easiness (ro_after r))"
    using ease six n bound h by (intro grown_interval_exact) auto
  then show ?thesis
    using n due grown_interval_longer [OF ease(2) six] by simp
qed

theorem sm2_success_grows_interval_witness:
  "\<exists>r. schedule \<lparr>easiness = 250 / 100, interval_days = 6, repetitions = 2, due_on = 739985\<rparr> 4 739985
     = Inr r \<and> interval_days (ro_after r) = 15 \<and> due_on (ro_after r) = 740000"
proof -
  let ?s = "\<lparr>easiness = 250 / 100, interval_days = 6, repetitions = 2, due_on = 739985\<rparr>"
  have st: "stored_easiness (easiness ?s)" by (simp add: stored_easiness_def places_def)
  have inv: "card_inv ?s" by (simp add: card_inv_def places_def MINIMUM_EASINESS_def)
  have q4: "quantize InvalidOperation round_half_even 2 (dec_add (5 / 2) (easiness_delta 4))
      = Inr (5 / 2)"
    using new_easiness_exact [OF st, of 4] by (simp add: easiness_delta_table)
  moreover have "dec_mul 6 (5 / 2) = 15"
    by (simp add: dec_mul_def dec_fix_exact [where k = 0])
  moreover have "quantize InvalidOperation round_half_up 0 (15::rat) = Inr 15"
    by (rule half_up.quantize_exact) simp_all
  ultimately obtain r where r: "schedule ?s 4 739985 = Inr r"
    by (simp add: schedule_def PASSING_GRADE_def add_days_def max_date_def MINIMUM_EASINESS_def
        Let_def)
  have "easiness (ro_after r) = 5 / 2"
    using r q4 by (elim schedule_cases) (simp add: MINIMUM_EASINESS_def)
  with sm2_success_grows_interval [OF r inv st] r show ?thesis
    by (simp add: round_half_up_def floor_eq_iff)
qed

end
