(* ===== verification/Strings.thy ===== *)
theory Strings
  imports Prelude
begin

text \<open>
  The pieces of text the components write and check: Python's decimal rendering of integers, the
  compact JSON size of an object of integers, and the two regular expressions that guard keys and
  job kinds.
\<close>

section \<open>Decimal numerals\<close>

definition digit_char :: "nat \<Rightarrow> char" where
  "digit_char d = char_of (48 + d)"

fun nat_str :: "nat \<Rightarrow> string" where
  "nat_str n = (if n < 10 then [digit_char n] else nat_str (n div 10) @ [digit_char (n mod 10)])"

declare nat_str.simps [simp del]

definition int_str :: "int \<Rightarrow> string" where
  "int_str i = (if i < 0 then CHR ''-'' # nat_str (nat (- i)) else nat_str (nat i))"

definition digit_val :: "char \<Rightarrow> nat" where
  "digit_val c = of_char c - 48"

definition str_nat :: "string \<Rightarrow> nat" where
  "str_nat s = foldl (\<lambda>a c. 10 * a + digit_val c) 0 s"

lemma of_digit_char: "d < 10 \<Longrightarrow> (of_char (digit_char d) :: nat) = 48 + d"
  by (simp add: digit_char_def)

lemma digit_val_char [simp]: "d < 10 \<Longrightarrow> digit_val (digit_char d) = d"
  by (simp add: digit_val_def of_digit_char)

lemma str_nat_nat_str [simp]: "str_nat (nat_str n) = n"
proof (induction n rule: nat_str.induct)
  case (1 n)
  show ?case
  proof (cases "n < 10")
    case True
    then show ?thesis by (simp add: nat_str.simps [of n] str_nat_def)
  next
    case False
    then have "str_nat (nat_str (n div 10)) = n div 10" by (rule "1.IH")
    with False show ?thesis by (simp add: nat_str.simps [of n] str_nat_def)
  qed
qed

lemma nat_str_inject [simp]: "nat_str m = nat_str n \<longleftrightarrow> m = n"
  by (metis str_nat_nat_str)

lemma nat_str_digits: "c \<in> set (nat_str n) \<Longrightarrow> (48::nat) \<le> of_char c \<and> (of_char c :: nat) \<le> 57"
proof (induction n rule: nat_str.induct)
  case (1 n)
  then show ?case
    by (cases "n < 10")
      (use of_digit_char [of "n mod 10"] of_digit_char [of n]
        in \<open>auto simp: nat_str.simps [of n]\<close>)
qed

lemma nat_str_no_colon [simp]: "CHR '':'' \<notin> set (nat_str n)"
  by (auto dest: nat_str_digits)

lemma int_str_no_colon [simp]: "CHR '':'' \<notin> set (int_str i)"
  by (simp add: int_str_def)

lemma int_str_inject_nonneg: "0 \<le> i \<Longrightarrow> 0 \<le> j \<Longrightarrow> int_str i = int_str j \<longleftrightarrow> i = j"
  by (auto simp: int_str_def)

lemma length_nat_str: "n < 10 ^ k \<Longrightarrow> length (nat_str n) \<le> max 1 k"
proof (induction k arbitrary: n)
  case 0
  then show ?case by (simp add: nat_str.simps)
next
  case (Suc k)
  show ?case
  proof (cases "n < 10")
    case True
    then show ?thesis by (simp add: nat_str.simps)
  next
    case False
    have "n div 10 < 10 ^ k" using Suc.prems by (simp add: less_mult_imp_div_less mult.commute)
    from Suc.IH [OF this] False have "0 < k" using Suc.prems by (cases k) auto
    with Suc.IH [OF \<open>n div 10 < 10 ^ k\<close>] False show ?thesis
      by (simp add: nat_str.simps [of n])
  qed
qed

lemma length_int_str: "0 \<le> i \<Longrightarrow> i < 10 ^ k \<Longrightarrow> 0 < k \<Longrightarrow> length (int_str i) \<le> k"
  using length_nat_str [of "nat i" k] by (simp add: int_str_def nat_less_iff)

text \<open>Joining colon-free parts with colons loses nothing.\<close>

lemma colon_split:
  assumes "CHR '':'' \<notin> set xs" "CHR '':'' \<notin> set xs'"
  shows "xs @ CHR '':'' # ys = xs' @ CHR '':'' # ys' \<longleftrightarrow> xs = xs' \<and> ys = ys'"
proof
  assume eq: "xs @ CHR '':'' # ys = xs' @ CHR '':'' # ys'"
  have t: "takeWhile (\<lambda>c. c \<noteq> CHR '':'') (zs @ CHR '':'' # ws) = zs"
    if "CHR '':'' \<notin> set zs" for zs ws
    using that by (induction zs) auto
  have "xs = xs'" using t [OF assms(1)] t [OF assms(2)] eq by metis
  with eq show "xs = xs' \<and> ys = ys'" by simp
qed simp

section \<open>Compact JSON\<close>

text \<open>
  The length in bytes of \<^verbatim>\<open>json.dumps(value, separators=(",", ":"))\<close> for an object whose
  keys are ASCII and whose values are integers.
\<close>

definition json_size :: "(string \<times> int) list \<Rightarrow> nat" where
  "json_size kvs = 2 + (length kvs - 1)
     + sum_list (map (\<lambda>kv. length (fst kv) + 3 + length (int_str (snd kv))) kvs)"

fun opt_field :: "string \<Rightarrow> int option \<Rightarrow> (string \<times> int) list" where
  "opt_field k None = []"
| "opt_field k (Some v) = [(k, v)]"

section \<open>Guarded identifiers\<close>

definition in_range :: "char \<Rightarrow> char \<Rightarrow> char \<Rightarrow> bool" where
  "in_range a b c \<longleftrightarrow> (of_char a :: nat) \<le> of_char c \<and> (of_char c :: nat) \<le> of_char b"

text \<open>Compared as binary integers where a comparison is evaluated.\<close>

lemma in_range_code [code]:
  "in_range a b c \<longleftrightarrow> (of_char a :: int) \<le> of_char c \<and> (of_char c :: int) \<le> of_char b"
proof -
  have "(of_char x :: int) = int (of_char x)" for x
    by (rule of_nat_of_char [symmetric])
  then show ?thesis by (simp add: in_range_def)
qed

definition is_lower :: "char \<Rightarrow> bool" where
  "is_lower c \<longleftrightarrow> in_range (CHR ''a'') (CHR ''z'') c"

definition is_digit :: "char \<Rightarrow> bool" where
  "is_digit c \<longleftrightarrow> in_range (CHR ''0'') (CHR ''9'') c"

definition is_alnum :: "char \<Rightarrow> bool" where
  "is_alnum c \<longleftrightarrow> is_lower c \<or> in_range (CHR ''A'') (CHR ''Z'') c \<or> is_digit c"

text \<open>\<^verbatim>\<open>^[A-Za-z0-9][A-Za-z0-9._:-]{0,127}$\<close>\<close>

fun safe_key :: "string \<Rightarrow> bool" where
  "safe_key [] = False"
| "safe_key (c # cs) \<longleftrightarrow>
     is_alnum c \<and> length cs \<le> 127 \<and> list_all (\<lambda>x. is_alnum x \<or> x \<in> set ''._:-'') cs"

text \<open>\<^verbatim>\<open>^[a-z][a-z0-9_]{0,63}$\<close>\<close>

fun safe_kind :: "string \<Rightarrow> bool" where
  "safe_kind [] = False"
| "safe_kind (c # cs) \<longleftrightarrow>
     is_lower c \<and> length cs \<le> 63
     \<and> list_all (\<lambda>x. is_lower x \<or> is_digit x \<or> x = CHR ''_'') cs"

end
