(* ===== verification/Job_Rows.thy ===== *)
theory Job_Rows
  imports Strings
begin

text \<open>
  The durable job table: the row of \<^verbatim>\<open>background_jobs\<close> and of its outbox
  (\<^verbatim>\<open>notifications/models.py\<close>), the constraints PostgreSQL checks on every write, the
  trigger that guards an update, the two validators the ORM runs, and the pure retry and ordering
  policy of \<^verbatim>\<open>jobs/policy.py\<close>.
\<close>

section \<open>Rows\<close>

datatype job_error =
    JobNotFound string
  | JobConflict string
  | JobInvalidRequest string
  | JobPolicyError string
  | JobWorkflowError string
  | NotificationContractError string
  | Validation_error string
  | Integrity_error string
  | Trigger_error string

datatype job_state = Queued | Running | Succeeded | Failed | Canceled

record reference_payload =
  rp_schema_version :: int
  rp_subject_id :: int
  rp_related_id :: "int option"

record error_details =
  ed_schema_version :: int
  ed_attempt :: "int option"
  ed_retry_after_seconds :: "int option"
  ed_http_status :: "int option"

record background_job =
  j_id :: int
  j_owner_id :: int
  j_kind :: string
  j_payload_schema_version :: int
  j_payload :: reference_payload
  j_priority :: int
  j_state :: job_state
  j_idempotency_key :: string
  j_available_at :: instant
  j_attempt_count :: int
  j_max_attempts :: int
  j_lease_owner :: "string option"
  j_lease_expires_at :: "instant option"
  j_last_error_category :: "string option"
  j_last_error_details :: "error_details option"
  j_created_at :: instant
  j_updated_at :: instant
  j_started_at :: "instant option"
  j_completed_at :: "instant option"

record outbox_event =
  oe_owner_id :: int
  oe_aggregate_type :: string
  oe_aggregate_id :: int
  oe_event_type :: string
  oe_payload :: reference_payload
  oe_occurred_at :: instant
  oe_published_at :: "instant option"
  oe_attempts :: int
  oe_idempotency_key :: string

definition ERROR_CATEGORIES :: "string list" where
  "ERROR_CATEGORIES = [''transient_dependency'', ''resource_exhausted'', ''invalid_input'',
     ''permission_required'', ''processing_failure'', ''internal_error'']"

fun JOB_TRANSITIONS :: "job_state \<Rightarrow> job_state list" where
  "JOB_TRANSITIONS Queued = [Running, Canceled]"
| "JOB_TRANSITIONS Running = [Queued, Succeeded, Failed, Canceled]"
| "JOB_TRANSITIONS Succeeded = []"
| "JOB_TRANSITIONS Failed = []"
| "JOB_TRANSITIONS Canceled = []"

definition terminal :: "job_state \<Rightarrow> bool" where
  "terminal s \<longleftrightarrow> s = Succeeded \<or> s = Failed \<or> s = Canceled"

section \<open>Payload validators\<close>

text \<open>
  The stored objects come from typed models, so their keys are the declared ones and their values
  are integers; what is left of the validators is the size bound and the ranges.
\<close>

definition positive_id :: "int \<Rightarrow> bool" where
  "positive_id v \<longleftrightarrow> 0 < v \<and> v \<le> 2 ^ 63 - 1"

definition bounded_int :: "int \<Rightarrow> int \<Rightarrow> int \<Rightarrow> bool" where
  "bounded_int v lo hi \<longleftrightarrow> lo \<le> v \<and> v \<le> hi"

definition payload_fields :: "reference_payload \<Rightarrow> (string \<times> int) list" where
  "payload_fields p =
     [(''schema_version'', rp_schema_version p), (''subject_id'', rp_subject_id p)]
     @ opt_field ''related_id'' (rp_related_id p)"

definition validate_reference_payload_v1 :: "reference_payload \<Rightarrow> bool" where
  "validate_reference_payload_v1 p \<longleftrightarrow>
     json_size (payload_fields p) \<le> 1024
     \<and> rp_schema_version p = 1 \<and> positive_id (rp_subject_id p)
     \<and> (case rp_related_id p of None \<Rightarrow> True | Some r \<Rightarrow> positive_id r)"

definition details_fields :: "error_details \<Rightarrow> (string \<times> int) list" where
  "details_fields d =
     (''schema_version'', ed_schema_version d)
     # opt_field ''attempt'' (ed_attempt d)
     @ opt_field ''retry_after_seconds'' (ed_retry_after_seconds d)
     @ opt_field ''http_status'' (ed_http_status d)"

definition validate_error_details_v1 :: "error_details \<Rightarrow> bool" where
  "validate_error_details_v1 d \<longleftrightarrow>
     json_size (details_fields d) \<le> 512
     \<and> ed_schema_version d = 1
     \<and> (case ed_attempt d of None \<Rightarrow> True | Some v \<Rightarrow> bounded_int v 0 100)
     \<and> (case ed_retry_after_seconds d of None \<Rightarrow> True | Some v \<Rightarrow> bounded_int v 0 86400)
     \<and> (case ed_http_status d of None \<Rightarrow> True | Some v \<Rightarrow> bounded_int v 100 599)"

section \<open>The ORM validators\<close>

text \<open>The branches of the lifecycle check, one per state.\<close>

definition validate_lifecycle :: "background_job \<Rightarrow> (job_error, unit) result" where
  "validate_lifecycle t =
    (case j_state t of
       Queued \<Rightarrow>
         if j_lease_owner t \<noteq> None \<or> j_lease_expires_at t \<noteq> None
           then Inl (JobWorkflowError ''queued background job cannot retain a lease'')
         else if j_completed_at t \<noteq> None
           then Inl (JobWorkflowError ''queued background job cannot be completed'')
         else Inr ()
     | Running \<Rightarrow>
         if j_attempt_count t = 0 \<or> j_lease_owner t = None
            \<or> (case j_lease_expires_at t of None \<Rightarrow> True | Some e \<Rightarrow> e \<le> j_updated_at t)
            \<or> j_completed_at t \<noteq> None
           then Inl (JobWorkflowError ''running background job lease is incoherent'')
         else if j_last_error_category t \<noteq> None
           then Inl (JobWorkflowError ''running background job must clear the prior error'')
         else Inr ()
     | Canceled \<Rightarrow>
         if j_lease_owner t \<noteq> None \<or> j_lease_expires_at t \<noteq> None \<or> j_completed_at t = None
            \<or> j_last_error_category t \<noteq> None
           then Inl (JobWorkflowError ''canceled background job lifecycle is incoherent'')
         else Inr ()
     | _ \<Rightarrow>
         if j_attempt_count t = 0 \<or> j_lease_owner t \<noteq> None \<or> j_lease_expires_at t \<noteq> None
            \<or> j_completed_at t = None
           then Inl (JobWorkflowError ''terminal background job lifecycle is incoherent'')
         else if j_state t = Succeeded \<and> j_last_error_category t \<noteq> None
           then Inl (JobWorkflowError ''successful background job cannot retain an error'')
         else if j_state t = Failed \<and> j_last_error_category t = None
           then Inl (JobWorkflowError ''failed background job requires a typed error'')
         else Inr ())"

definition validate_background_job :: "background_job \<Rightarrow> (job_error, unit) result" where
  "validate_background_job t =
    (if \<not> validate_reference_payload_v1 (j_payload t)
       then Inl (JobWorkflowError ''invalid background job payload'')
     else if j_payload_schema_version t \<noteq> rp_schema_version (j_payload t)
       then Inl (JobWorkflowError ''background job payload version is incoherent'')
     else if \<not> (0 \<le> j_attempt_count t \<and> j_attempt_count t \<le> j_max_attempts t)
          \<or> \<not> (1 \<le> j_max_attempts t \<and> j_max_attempts t \<le> 100)
       then Inl (JobWorkflowError ''background job attempt limits are incoherent'')
     else if (j_last_error_category t = None) \<noteq> (j_last_error_details t = None)
       then Inl (JobWorkflowError ''background job error fields are incoherent'')
     else if (case j_last_error_category t of None \<Rightarrow> False
              | Some c \<Rightarrow> c \<notin> set ERROR_CATEGORIES
                  \<or> (case j_last_error_details t of None \<Rightarrow> True
                     | Some d \<Rightarrow> \<not> validate_error_details_v1 d))
       then Inl (JobWorkflowError ''background job error details are invalid'')
     else if j_updated_at t < j_created_at t
       then Inl (JobWorkflowError ''background job timestamps are not monotonic'')
     else if j_attempt_count t = 0 \<and> j_started_at t \<noteq> None
       then Inl (JobWorkflowError ''background job start is incoherent with attempts'')
     else if 0 < j_attempt_count t \<and> j_started_at t = None
       then Inl (JobWorkflowError ''background job start is required after a claim'')
     else if (case j_started_at t of None \<Rightarrow> False | Some s \<Rightarrow> s < j_created_at t)
       then Inl (JobWorkflowError ''background job start precedes creation'')
     else if (case j_completed_at t of None \<Rightarrow> False
              | Some c \<Rightarrow> (case j_started_at t of None \<Rightarrow> j_state t \<noteq> Canceled | Some s \<Rightarrow> c < s))
       then Inl (JobWorkflowError ''background job completion is incoherent'')
     else validate_lifecycle t)"

definition provenance :: "background_job \<Rightarrow> int \<times> string \<times> int \<times> reference_payload \<times> string \<times> int \<times> instant"
where
  "provenance t = (j_owner_id t, j_kind t, j_payload_schema_version t, j_payload t,
     j_idempotency_key t, j_max_attempts t, j_created_at t)"

text \<open>
  \<open>db_now\<close> is PostgreSQL's \<^verbatim>\<open>CURRENT_TIMESTAMP\<close>. The row is looked up by the id of the
  target, so both rows have the same id.
\<close>

definition validate_background_job_update ::
    "instant \<Rightarrow> background_job option \<Rightarrow> background_job \<Rightarrow> (job_error, unit) result" where
  "validate_background_job_update db_now stored t =
     bind_result (validate_background_job t) (\<lambda>_.
       case stored of None \<Rightarrow> Inl (JobWorkflowError ''persisted background job does not exist'')
       | Some old \<Rightarrow>
    (if terminal (j_state old)
       then Inl (JobWorkflowError ''terminal background job is immutable'')
     else if provenance t \<noteq> provenance old
       then Inl (JobWorkflowError ''background job provenance is immutable'')
     else if j_updated_at t < j_updated_at old
       then Inl (JobWorkflowError ''background job updated_at must be monotonic'')
     else if (j_started_at old \<noteq> None \<and> j_started_at t \<noteq> j_started_at old)
          \<or> (j_completed_at old \<noteq> None \<and> j_completed_at t \<noteq> j_completed_at old)
       then Inl (JobWorkflowError ''background job lifecycle timestamps are write-once'')
     else if j_state t \<noteq> j_state old \<and> j_state t \<notin> set (JOB_TRANSITIONS (j_state old))
       then Inl (JobWorkflowError ''invalid background job state transition'')
     else if j_state old = Queued \<and> j_state t = Running
          \<and> j_attempt_count t \<noteq> j_attempt_count old + 1
       then Inl (JobWorkflowError ''background job claim must increment attempt count exactly once'')
     else if \<not> (j_state old = Queued \<and> j_state t = Running)
          \<and> j_attempt_count t \<noteq> j_attempt_count old
       then Inl (JobWorkflowError ''background job attempt count changes only on claim'')
     else if j_state old = Running \<and> j_state t = Running
          \<and> t\<lparr>j_lease_expires_at := j_lease_expires_at old, j_updated_at := j_updated_at old\<rparr> \<noteq> old
       then Inl (JobWorkflowError ''running heartbeat may only extend its lease'')
     else if j_state old = Running \<and> j_state t = Running
          \<and> (case (j_lease_expires_at old, j_lease_expires_at t) of
               (Some e, Some e') \<Rightarrow> e' < e | _ \<Rightarrow> True)
       then Inl (JobWorkflowError ''running heartbeat cannot shorten its lease'')
     else if j_state old = Running \<and> j_state t = Queued
          \<and> \<not> (case j_lease_expires_at old of None \<Rightarrow> False | Some e \<Rightarrow> e \<le> db_now)
          \<and> \<not> (j_last_error_category t \<in> {Some ''transient_dependency'', Some ''resource_exhausted''}
                \<and> j_last_error_details t \<noteq> None \<and> j_updated_at t \<le> j_available_at t)
       then Inl (JobWorkflowError ''background job lease has not expired'')
     else if j_state old = Running \<and> j_state t = Queued
          \<and> (j_lease_owner t \<noteq> None \<or> j_lease_expires_at t \<noteq> None)
       then Inl (JobWorkflowError ''reclaimed background job must clear its lease'')
     else Inr ()))"

section \<open>What PostgreSQL checks\<close>

text \<open>
  SQL conditions are three valued. A \<^verbatim>\<open>CHECK\<close> refuses only what is definitely false, an
  \<^verbatim>\<open>IF\<close> runs only on what is definitely true.
\<close>

type_synonym sql_bool = "bool option"

fun sql_not :: "sql_bool \<Rightarrow> sql_bool" where
  "sql_not None = None"
| "sql_not (Some b) = Some (\<not> b)"

fun sql_and :: "sql_bool \<Rightarrow> sql_bool \<Rightarrow> sql_bool" where
  "sql_and (Some False) _ = Some False"
| "sql_and (Some True) b = b"
| "sql_and None (Some False) = Some False"
| "sql_and None _ = None"

definition sql_or :: "sql_bool \<Rightarrow> sql_bool \<Rightarrow> sql_bool" where
  "sql_or a b = sql_not (sql_and (sql_not a) (sql_not b))"

fun sql_le :: "int option \<Rightarrow> int option \<Rightarrow> sql_bool" where
  "sql_le (Some a) (Some b) = Some (a \<le> b)"
| "sql_le _ _ = None"

fun sql_in :: "string option \<Rightarrow> string list \<Rightarrow> sql_bool" where
  "sql_in None vs = None"
| "sql_in (Some v) vs = Some (v \<in> set vs)"

definition sql_less :: "int option \<Rightarrow> int option \<Rightarrow> sql_bool" where
  "sql_less a b = sql_not (sql_le b a)"

definition job_constraints :: "background_job \<Rightarrow> (string \<times> sql_bool) list" where
  "job_constraints t =
    [(''kind_safe'', Some (safe_kind (j_kind t))),
     (''payload_version_supported'', Some (j_payload_schema_version t = 1)),
     (''payload_valid'', Some (validate_reference_payload_v1 (j_payload t))),
     (''payload_version_coherent'',
        Some (rp_schema_version (j_payload t) = j_payload_schema_version t)),
     (''priority_bounded'', Some (0 \<le> j_priority t \<and> j_priority t \<le> 100)),
     (''idempotency_key_safe'', Some (safe_key (j_idempotency_key t))),
     (''attempts_coherent'',
        Some (0 \<le> j_attempt_count t \<and> j_attempt_count t \<le> j_max_attempts t
              \<and> 1 \<le> j_max_attempts t \<and> j_max_attempts t \<le> 100)),
     (''lease_owner_safe'',
        Some (case j_lease_owner t of None \<Rightarrow> True | Some w \<Rightarrow> safe_key w)),
     (''error_category_allowed'',
        sql_or (Some (j_last_error_category t = None))
          (sql_in (j_last_error_category t) ERROR_CATEGORIES)),
     (''error_details_coherent'',
        Some (case (j_last_error_category t, j_last_error_details t) of
                (None, None) \<Rightarrow> True
              | (Some _, Some d) \<Rightarrow> validate_error_details_v1 d
              | _ \<Rightarrow> False)),
     (''lifecycle_coherent'',
        Some (case j_state t of
                Queued \<Rightarrow> j_lease_owner t = None \<and> j_lease_expires_at t = None
                          \<and> j_completed_at t = None
              | Running \<Rightarrow> 0 < j_attempt_count t \<and> j_lease_owner t \<noteq> None
                          \<and> j_lease_expires_at t \<noteq> None \<and> j_started_at t \<noteq> None
                          \<and> j_completed_at t = None
              | Canceled \<Rightarrow> j_lease_owner t = None \<and> j_lease_expires_at t = None
                          \<and> j_completed_at t \<noteq> None
              | _ \<Rightarrow> 0 < j_attempt_count t \<and> j_lease_owner t = None
                          \<and> j_lease_expires_at t = None \<and> j_started_at t \<noteq> None
                          \<and> j_completed_at t \<noteq> None)),
     (''started_attempt_coherent'',
        Some ((j_attempt_count t = 0 \<and> j_started_at t = None)
              \<or> (0 < j_attempt_count t \<and> j_started_at t \<noteq> None))),
     (''timestamps_coherent'',
        sql_and (Some (j_created_at t \<le> j_updated_at t))
          (sql_and (sql_or (Some (j_started_at t = None))
                      (sql_le (Some (j_created_at t)) (j_started_at t)))
            (sql_and (sql_or (Some (j_completed_at t = None))
                        (sql_le (j_started_at t) (j_completed_at t)))
              (sql_or (Some (j_lease_expires_at t = None))
                 (sql_less (Some (j_updated_at t)) (j_lease_expires_at t)))))),
     (''success_without_error'',
        Some (j_state t \<noteq> Succeeded \<or> j_last_error_category t = None)),
     (''failure_has_error'',
        Some (j_state t \<noteq> Failed \<or> j_last_error_category t \<noteq> None)),
     (''cancellation_without_error'',
        Some (j_state t \<noteq> Canceled \<or> j_last_error_category t = None))]"

fun check_constraints :: "(string \<times> sql_bool) list \<Rightarrow> (job_error, unit) result" where
  "check_constraints [] = Inr ()"
| "check_constraints ((name, c) # cs) =
     (if c = Some False then Inl (Integrity_error name) else check_constraints cs)"

text \<open>The trigger \<^verbatim>\<open>tamforge_guard_background_job_mutation\<close>, before every update.\<close>

definition guard_job_mutation ::
    "instant \<Rightarrow> background_job \<Rightarrow> background_job \<Rightarrow> (job_error, unit) result" where
  "guard_job_mutation db_now old new =
    (if terminal (j_state old) then Inl (Trigger_error ''terminal background job is immutable'')
     else if provenance new \<noteq> provenance old
       then Inl (Trigger_error ''background job provenance is immutable'')
     else if j_updated_at new < j_updated_at old
       then Inl (Trigger_error ''background job updated_at cannot decrease'')
     else if j_started_at old \<noteq> None \<and> j_started_at new \<noteq> j_started_at old
       then Inl (Trigger_error ''background job started_at is write-once'')
     else if j_completed_at old \<noteq> None \<and> j_completed_at new \<noteq> j_completed_at old
       then Inl (Trigger_error ''background job completed_at is write-once'')
     else if j_state new \<noteq> j_state old
          \<and> \<not> ((j_state old = Queued \<and> (j_state new = Running \<or> j_state new = Canceled))
               \<or> (j_state old = Running
                  \<and> (j_state new = Queued \<or> j_state new = Succeeded \<or> j_state new = Failed
                     \<or> j_state new = Canceled)))
       then Inl (Trigger_error ''invalid background job state transition'')
     else if j_state old = Queued \<and> j_state new = Running
          \<and> j_attempt_count new \<noteq> j_attempt_count old + 1
       then Inl (Trigger_error ''background job claim must increment attempt count'')
     else if \<not> (j_state old = Queued \<and> j_state new = Running)
          \<and> j_attempt_count new \<noteq> j_attempt_count old
       then Inl (Trigger_error ''background job attempt changes only on claim'')
     else if sql_and (Some (j_state old = Running \<and> j_state new = Queued))
            (sql_and (sql_or (Some (j_lease_expires_at old = None))
                        (sql_less (Some db_now) (j_lease_expires_at old)))
               (sql_not
                  (sql_and (sql_in (j_last_error_category new)
                              [''transient_dependency'', ''resource_exhausted''])
                     (sql_and (Some (j_last_error_details new \<noteq> None))
                        (Some (j_updated_at new \<le> j_available_at new))))))
          = Some True
       then Inl (Trigger_error ''background job lease has not expired'')
     else if j_state new = j_state old \<and> j_state old = Running
          \<and> (j_priority new \<noteq> j_priority old
             \<or> j_available_at new \<noteq> j_available_at old
             \<or> j_lease_owner new \<noteq> j_lease_owner old
             \<or> j_last_error_category new \<noteq> j_last_error_category old
             \<or> j_last_error_details new \<noteq> j_last_error_details old
             \<or> j_started_at new \<noteq> j_started_at old
             \<or> j_completed_at new \<noteq> j_completed_at old
             \<or> sql_less (j_lease_expires_at new) (j_lease_expires_at old) = Some True)
       then Inl (Trigger_error ''running heartbeat may only extend its lease'')
     else Inr ())"

section \<open>Policy\<close>

record claim_candidate =
  cc_id :: int
  cc_priority :: int
  cc_available_at :: instant

definition candidate_key :: "claim_candidate \<Rightarrow> int \<times> instant \<times> int" where
  "candidate_key c = (- cc_priority c, cc_available_at c, cc_id c)"

definition order_claim_candidates :: "claim_candidate list \<Rightarrow> claim_candidate list" where
  "order_claim_candidates cs = sort_key candidate_key cs"

datatype disposition = Retry_wait | Needs_attention

definition RETRYABLE_CATEGORIES :: "string list" where
  "RETRYABLE_CATEGORIES = [''transient_dependency'', ''resource_exhausted'']"

definition retry_disposition :: "int \<Rightarrow> int \<Rightarrow> string \<Rightarrow> (job_error, disposition) result" where
  "retry_disposition attempts max_attempts category =
     (if category \<notin> set ERROR_CATEGORIES
        then Inl (JobPolicyError ''job failure category is invalid'')
      else if \<not> (1 \<le> attempts \<and> attempts \<le> max_attempts \<and> max_attempts \<le> 100)
        then Inl (JobPolicyError ''job attempt bounds are invalid'')
      else if category \<in> set RETRYABLE_CATEGORIES \<and> attempts < max_attempts
        then Inr Retry_wait
      else Inr Needs_attention)"

section \<open>Lemmas\<close>

lemma check_constraints_iff:
  "check_constraints cs = Inr () \<longleftrightarrow> (\<forall>c \<in> set cs. snd c \<noteq> Some False)"
  by (induction cs) (auto split: if_splits)

lemma sql_or_Some [simp]:
  "sql_or (Some a) (Some b) = Some (a \<or> b)"
  "sql_or (Some True) c = Some True" "sql_or (Some False) c = c"
  by (cases a; cases b; cases c; simp add: sql_or_def)+

lemma sql_and_Some [simp]: "sql_and (Some a) (Some b) = Some (a \<and> b)"
  by (cases a; cases b; simp)

lemma sql_less_Some [simp]: "sql_less (Some a) (Some b) = Some (a < b)"
  by (auto simp: sql_less_def)

text \<open>The error fields of a row, and what its state asks of lease, times and error.\<close>

definition error_coherent :: "background_job \<Rightarrow> bool" where
  "error_coherent t \<longleftrightarrow>
     (case (j_last_error_category t, j_last_error_details t) of
        (None, None) \<Rightarrow> True
      | (Some c, Some d) \<Rightarrow> c \<in> set ERROR_CATEGORIES \<and> validate_error_details_v1 d
      | _ \<Rightarrow> False)"

definition times_coherent :: "background_job \<Rightarrow> bool" where
  "times_coherent t \<longleftrightarrow>
     j_created_at t \<le> j_updated_at t
     \<and> (j_attempt_count t = 0 \<longleftrightarrow> j_started_at t = None)
     \<and> (\<forall>s. j_started_at t = Some s \<longrightarrow> j_created_at t \<le> s)
     \<and> (\<forall>s c. j_started_at t = Some s \<longrightarrow> j_completed_at t = Some c \<longrightarrow> s \<le> c)"

fun state_coherent :: "job_state \<Rightarrow> background_job \<Rightarrow> bool" where
  "state_coherent Queued t \<longleftrightarrow>
     j_lease_owner t = None \<and> j_lease_expires_at t = None \<and> j_completed_at t = None"
| "state_coherent Running t \<longleftrightarrow>
     0 < j_attempt_count t \<and> j_lease_owner t \<noteq> None
     \<and> (\<exists>e. j_lease_expires_at t = Some e \<and> j_updated_at t < e) \<and> j_completed_at t = None
     \<and> j_last_error_category t = None"
| "state_coherent Succeeded t \<longleftrightarrow>
     0 < j_attempt_count t \<and> j_lease_owner t = None \<and> j_lease_expires_at t = None
     \<and> j_completed_at t \<noteq> None \<and> j_last_error_category t = None"
| "state_coherent Failed t \<longleftrightarrow>
     0 < j_attempt_count t \<and> j_lease_owner t = None \<and> j_lease_expires_at t = None
     \<and> j_completed_at t \<noteq> None \<and> j_last_error_category t \<noteq> None"
| "state_coherent Canceled t \<longleftrightarrow>
     j_lease_owner t = None \<and> j_lease_expires_at t = None \<and> j_completed_at t \<noteq> None
     \<and> j_last_error_category t = None"

definition job_valid :: "background_job \<Rightarrow> bool" where
  "job_valid t \<longleftrightarrow>
     validate_reference_payload_v1 (j_payload t)
     \<and> j_payload_schema_version t = rp_schema_version (j_payload t)
     \<and> 0 \<le> j_attempt_count t \<and> j_attempt_count t \<le> j_max_attempts t
     \<and> 1 \<le> j_max_attempts t \<and> j_max_attempts t \<le> 100
     \<and> error_coherent t \<and> times_coherent t \<and> state_coherent (j_state t) t"

lemma validate_background_job_iff: "validate_background_job t = Inr () \<longleftrightarrow> job_valid t"
proof -
  have e: "error_coherent t \<longleftrightarrow>
      (j_last_error_category t = None) = (j_last_error_details t = None)
      \<and> \<not> (case j_last_error_category t of None \<Rightarrow> False
          | Some c \<Rightarrow> c \<notin> set ERROR_CATEGORIES
              \<or> (case j_last_error_details t of None \<Rightarrow> True
                 | Some d \<Rightarrow> \<not> validate_error_details_v1 d))"
    by (auto simp: error_coherent_def split: option.splits)
  have s: "validate_lifecycle t = Inr () \<longleftrightarrow> state_coherent (j_state t) t"
    if "0 \<le> j_attempt_count t"
    unfolding validate_lifecycle_def
    using that by (cases "j_state t"; cases "j_lease_expires_at t") auto
  show ?thesis
    unfolding validate_background_job_def guard_Inr_iff job_valid_def e times_coherent_def
    using s by (cases "j_started_at t"; cases "j_completed_at t"; cases "j_state t") auto
qed

definition key_fields_safe :: "background_job \<Rightarrow> bool" where
  "key_fields_safe t \<longleftrightarrow>
     safe_kind (j_kind t) \<and> safe_key (j_idempotency_key t)
     \<and> 0 \<le> j_priority t \<and> j_priority t \<le> 100
     \<and> (\<forall>w. j_lease_owner t = Some w \<longrightarrow> safe_key w)"

text \<open>A valid row whose keys are safe passes every constraint of the table.\<close>

lemma job_valid_constraints:
  assumes "job_valid t" "key_fields_safe t"
  shows "check_constraints (job_constraints t) = Inr ()"
proof -
  have v: "rp_schema_version (j_payload t) = 1"
    using assms(1) by (auto simp: job_valid_def validate_reference_payload_v1_def)
  have ec: "sql_or (Some (j_last_error_category t = None))
      (sql_in (j_last_error_category t) ERROR_CATEGORIES) \<noteq> Some False"
    using assms(1) by (cases "j_last_error_category t")
      (auto simp: job_valid_def error_coherent_def split: option.splits)
  have ed: "case (j_last_error_category t, j_last_error_details t) of
      (None, None) \<Rightarrow> True | (Some _, Some d) \<Rightarrow> validate_error_details_v1 d | _ \<Rightarrow> False"
    using assms(1) by (auto simp: job_valid_def error_coherent_def split: option.splits)
  have ts: "sql_or (Some (j_started_at t = None))
        (sql_le (Some (j_created_at t)) (j_started_at t)) = Some True"
      "sql_or (Some (j_completed_at t = None))
        (sql_le (j_started_at t) (j_completed_at t)) \<noteq> Some False"
      "sql_or (Some (j_lease_expires_at t = None))
        (sql_less (Some (j_updated_at t)) (j_lease_expires_at t)) = Some True"
    using assms(1)
    by (cases "j_started_at t"; cases "j_completed_at t"; cases "j_lease_expires_at t";
        cases "j_state t"; simp add: job_valid_def times_coherent_def)+
  have "sql_and a (Some True) \<noteq> Some False" if "a \<noteq> Some False" for a
    using that by (cases a) auto
  with ts have tc: "sql_and (Some (j_created_at t \<le> j_updated_at t))
          (sql_and (sql_or (Some (j_started_at t = None))
                      (sql_le (Some (j_created_at t)) (j_started_at t)))
            (sql_and (sql_or (Some (j_completed_at t = None))
                        (sql_le (j_started_at t) (j_completed_at t)))
              (sql_or (Some (j_lease_expires_at t = None))
                 (sql_less (Some (j_updated_at t)) (j_lease_expires_at t))))) \<noteq> Some False"
    using assms(1) by (simp add: job_valid_def times_coherent_def)
  have lo: "case j_lease_owner t of None \<Rightarrow> True | Some w \<Rightarrow> safe_key w"
    using assms(2) by (simp add: key_fields_safe_def split: option.split)
  have sa: "(j_attempt_count t = 0 \<and> j_started_at t = None)
      \<or> (0 < j_attempt_count t \<and> j_started_at t \<noteq> None)"
    using assms(1) by (auto simp: job_valid_def times_coherent_def)
  have st: "state_coherent (j_state t) t" using assms(1) by (simp add: job_valid_def)
  have lc: "case j_state t of
      Queued \<Rightarrow> j_lease_owner t = None \<and> j_lease_expires_at t = None \<and> j_completed_at t = None
    | Running \<Rightarrow> 0 < j_attempt_count t \<and> j_lease_owner t \<noteq> None \<and> j_lease_expires_at t \<noteq> None
        \<and> j_started_at t \<noteq> None \<and> j_completed_at t = None
    | Canceled \<Rightarrow> j_lease_owner t = None \<and> j_lease_expires_at t = None \<and> j_completed_at t \<noteq> None
    | _ \<Rightarrow> 0 < j_attempt_count t \<and> j_lease_owner t = None \<and> j_lease_expires_at t = None
        \<and> j_started_at t \<noteq> None \<and> j_completed_at t \<noteq> None"
    using st sa by (cases "j_state t") auto
  have er: "j_state t \<noteq> Succeeded \<or> j_last_error_category t = None"
      "j_state t \<noteq> Failed \<or> j_last_error_category t \<noteq> None"
      "j_state t \<noteq> Canceled \<or> j_last_error_category t = None"
    using st by auto
  show ?thesis
    using assms v unfolding check_constraints_iff job_constraints_def
    by (simp only: list.simps ball_simps insert_iff snd_conv option.inject
        ec ed tc lo sa lc er job_valid_def key_fields_safe_def) simp
qed

lemma constraints_key_fields:
  "check_constraints (job_constraints t) = Inr () \<Longrightarrow> key_fields_safe t"
  unfolding check_constraints_iff job_constraints_def key_fields_safe_def
  by (simp add: option.case_eq_if) fastforce

text \<open>A heartbeat leaves every column but the lease expiry and the update time as it was.\<close>

lemma only_lease_changed:
  "new\<lparr>j_lease_expires_at := j_lease_expires_at old, j_updated_at := j_updated_at old\<rparr> = old \<longleftrightarrow>
     j_id new = j_id old \<and> provenance new = provenance old \<and> j_state new = j_state old
     \<and> j_attempt_count new = j_attempt_count old \<and> j_priority new = j_priority old
     \<and> j_available_at new = j_available_at old \<and> j_lease_owner new = j_lease_owner old
     \<and> j_last_error_category new = j_last_error_category old
     \<and> j_last_error_details new = j_last_error_details old
     \<and> j_started_at new = j_started_at old \<and> j_completed_at new = j_completed_at old"
  by (cases old; cases new) (auto simp: provenance_def)

text \<open>The two readings of a voluntary requeue, on a row whose error fields are coherent.\<close>

lemma voluntary_requeue:
  assumes "error_coherent new"
  shows "sql_and (sql_or (Some (e = None)) (sql_less (Some db_now) e))
      (sql_not (sql_and (sql_in (j_last_error_category new)
                  [''transient_dependency'', ''resource_exhausted''])
         (sql_and (Some (j_last_error_details new \<noteq> None))
            (Some (j_updated_at new \<le> j_available_at new))))) = Some True \<longleftrightarrow>
    \<not> (case e of None \<Rightarrow> False | Some t \<Rightarrow> t \<le> db_now)
    \<and> \<not> (j_last_error_category new \<in> {Some ''transient_dependency'', Some ''resource_exhausted''}
          \<and> j_last_error_details new \<noteq> None \<and> j_updated_at new \<le> j_available_at new)"
  using assms
  by (cases e; cases "j_last_error_category new"; cases "j_last_error_details new")
    (auto simp: error_coherent_def)

lemma valid_details: "validate_error_details_v1 d \<longleftrightarrow>
    ed_schema_version d = 1
    \<and> (\<forall>v. ed_attempt d = Some v \<longrightarrow> 0 \<le> v \<and> v \<le> 100)
    \<and> (\<forall>v. ed_retry_after_seconds d = Some v \<longrightarrow> 0 \<le> v \<and> v \<le> 86400)
    \<and> (\<forall>v. ed_http_status d = Some v \<longrightarrow> 100 \<le> v \<and> v \<le> 599)"
  (is "?lhs \<longleftrightarrow> ?rhs")
proof
  assume ?lhs
  then show ?rhs by (auto simp: validate_error_details_v1_def bounded_int_def)
next
  assume r: ?rhs
  have size: "length (int_str v) \<le> 10" if "0 \<le> v" "v \<le> 86400" for v
    using that length_int_str [of v 10] by simp
  have "json_size (details_fields d) \<le> 512"
    using r size [of 1] size [of "the (ed_attempt d)"]
      size [of "the (ed_retry_after_seconds d)"] size [of "the (ed_http_status d)"]
    by (cases "ed_attempt d"; cases "ed_retry_after_seconds d"; cases "ed_http_status d")
      (auto simp: details_fields_def json_size_def)
  with r show ?lhs
    by (auto simp: validate_error_details_v1_def bounded_int_def split: option.splits)
qed

lemma valid_payload: "validate_reference_payload_v1 p \<longleftrightarrow>
    rp_schema_version p = 1 \<and> positive_id (rp_subject_id p)
    \<and> (\<forall>r. rp_related_id p = Some r \<longrightarrow> positive_id r)"
  (is "?lhs \<longleftrightarrow> ?rhs")
proof
  assume ?lhs
  then show ?rhs by (auto simp: validate_reference_payload_v1_def)
next
  assume r: ?rhs
  have size: "length (int_str v) \<le> 20" if "positive_id v" for v
    using that by (intro length_int_str) (auto simp: positive_id_def)
  have "length (int_str 1) \<le> 20" by (rule length_int_str) auto
  then have "json_size (payload_fields p) \<le> 1024"
    using r size [of "rp_subject_id p"] size [of "the (rp_related_id p)"]
    by (cases "rp_related_id p") (auto simp: payload_fields_def json_size_def)
  with r show ?lhs by (auto simp: validate_reference_payload_v1_def split: option.splits)
qed

section \<open>Properties\<close>


definition sample_job :: background_job where
  "sample_job = \<lparr>j_id = 7, j_owner_id = 1, j_kind = ''transcribe'', j_payload_schema_version = 1,
     j_payload = \<lparr>rp_schema_version = 1, rp_subject_id = 42, rp_related_id = None\<rparr>,
     j_priority = 50, j_state = Running, j_idempotency_key = ''rec-42'', j_available_at = 1000,
     j_attempt_count = 1, j_max_attempts = 3, j_lease_owner = Some ''worker-a'',
     j_lease_expires_at = Some 120002000, j_last_error_category = None,
     j_last_error_details = None, j_created_at = 1000, j_updated_at = 2000,
     j_started_at = Some 2000, j_completed_at = None\<rparr>"


end
