(* ===== verification/Jobs.thy ===== *)
theory Jobs
  imports Job_Rows
begin

text \<open>
  The durable queue: \<^verbatim>\<open>jobs/schemas.py\<close>, \<^verbatim>\<open>jobs/service.py\<close> and the
  transactional repository \<^verbatim>\<open>jobs/repository.py\<close> over the rows of \<open>Job_Rows\<close>. One
  operation is one transaction: it returns the new database, or raises and leaves the old one.
  A row that another transaction has locked is skipped where the query says
  \<^verbatim>\<open>SKIP LOCKED\<close>; the ids of such rows are an argument. \<open>db_now\<close> is the database's own
  clock, which only the trigger reads.
\<close>

section \<open>Commands\<close>

record enqueue_command =
  ec_kind :: string
  ec_payload :: reference_payload
  ec_priority :: int
  ec_available_at :: datetime
  ec_max_attempts :: int

record claim_command =
  cl_worker_id :: string
  cl_kinds :: "string list"
  cl_lease_seconds :: int

record heartbeat_command =
  hb_worker_id :: string
  hb_lease_seconds :: int

record job_failure =
  jf_category :: string
  jf_retry_after_seconds :: "int option"
  jf_http_status :: "int option"

record retry_command =
  rc_worker_id :: string
  rc_failure :: job_failure

definition check_reference_payload :: "reference_payload \<Rightarrow> (job_error, unit) result" where
  "check_reference_payload p =
     ensure (rp_schema_version p = 1 \<and> 0 < rp_subject_id p
       \<and> (case rp_related_id p of None \<Rightarrow> True | Some r \<Rightarrow> 0 < r)) (Validation_error ''payload'')"

definition check_enqueue_command :: "enqueue_command \<Rightarrow> (job_error, unit) result" where
  "check_enqueue_command c =
     bind_result (ensure (safe_kind (ec_kind c)) (Validation_error ''kind'')) (\<lambda>_.
     bind_result (check_reference_payload (ec_payload c)) (\<lambda>_.
     bind_result (ensure (0 \<le> ec_priority c \<and> ec_priority c \<le> 100)
                    (Validation_error ''priority'')) (\<lambda>_.
     bind_result (ensure (aware (ec_available_at c))
                    (Validation_error ''available_at must be timezone-aware'')) (\<lambda>_.
     ensure (1 \<le> ec_max_attempts c \<and> ec_max_attempts c \<le> 100)
       (Validation_error ''max_attempts'')))))"

definition check_claim_command :: "claim_command \<Rightarrow> (job_error, unit) result" where
  "check_claim_command c =
     bind_result (ensure (safe_key (cl_worker_id c)) (Validation_error ''worker_id'')) (\<lambda>_.
     bind_result (ensure (list_all safe_kind (cl_kinds c) \<and> 1 \<le> length (cl_kinds c)
                          \<and> length (cl_kinds c) \<le> 32) (Validation_error ''kinds'')) (\<lambda>_.
     bind_result (ensure (distinct (cl_kinds c))
                    (Validation_error ''job kinds must be unique'')) (\<lambda>_.
     ensure (5 \<le> cl_lease_seconds c \<and> cl_lease_seconds c \<le> 3600)
       (Validation_error ''lease_seconds''))))"

definition check_heartbeat_command :: "heartbeat_command \<Rightarrow> (job_error, unit) result" where
  "check_heartbeat_command c =
     bind_result (ensure (safe_key (hb_worker_id c)) (Validation_error ''worker_id'')) (\<lambda>_.
     ensure (5 \<le> hb_lease_seconds c \<and> hb_lease_seconds c \<le> 3600)
       (Validation_error ''lease_seconds''))"

definition check_job_failure :: "job_failure \<Rightarrow> (job_error, unit) result" where
  "check_job_failure f =
     bind_result (ensure (jf_category f \<in> set ERROR_CATEGORIES) (Validation_error ''category'')) (\<lambda>_.
     bind_result (ensure (case jf_retry_after_seconds f of None \<Rightarrow> True
                          | Some v \<Rightarrow> 0 \<le> v \<and> v \<le> 86400)
                    (Validation_error ''retry_after_seconds'')) (\<lambda>_.
     ensure (case jf_http_status f of None \<Rightarrow> True | Some v \<Rightarrow> 100 \<le> v \<and> v \<le> 599)
       (Validation_error ''http_status'')))"

definition check_retry_command :: "retry_command \<Rightarrow> (job_error, unit) result" where
  "check_retry_command c =
     bind_result (ensure (safe_key (rc_worker_id c)) (Validation_error ''worker_id'')) (\<lambda>_.
     check_job_failure (rc_failure c))"

definition check_complete_command :: "string \<Rightarrow> (job_error, unit) result" where
  "check_complete_command worker_id =
     ensure (safe_key worker_id) (Validation_error ''worker_id'')"

section \<open>The database\<close>

record job_db =
  db_owners :: "int list"
  db_jobs :: "background_job list"
  db_next_id :: int
  db_outbox :: "outbox_event list"

definition find_job :: "job_db \<Rightarrow> int \<Rightarrow> background_job option" where
  "find_job db i = find (\<lambda>j. j_id j = i) (db_jobs db)"

definition validate_payload_attribute :: "reference_payload \<Rightarrow> (job_error, unit) result" where
  "validate_payload_attribute p =
     ensure (validate_reference_payload_v1 p)
       (NotificationContractError ''structured payload is invalid'')"

text \<open>An insert through the ORM: its validator, the table's constraints, the unique keys.\<close>

definition insert_job :: "job_db \<Rightarrow> background_job \<Rightarrow> (job_error, job_db) result" where
  "insert_job db j =
     bind_result (validate_background_job j) (\<lambda>_.
     bind_result (check_constraints (job_constraints j)) (\<lambda>_.
     bind_result (ensure (\<forall>k \<in> set (db_jobs db).
                     \<not> (j_owner_id k = j_owner_id j \<and> j_idempotency_key k = j_idempotency_key j))
                   (Integrity_error ''uq_background_jobs_owner_idempotency'')) (\<lambda>_.
     Inr (db\<lparr>db_jobs := db_jobs db @ [j], db_next_id := db_next_id db + 1\<rparr>))))"

text \<open>An update statement: the trigger, then the table's constraints.\<close>

definition update_job ::
    "instant \<Rightarrow> job_db \<Rightarrow> background_job \<Rightarrow> background_job \<Rightarrow> (job_error, job_db) result" where
  "update_job db_now db old new =
     bind_result (guard_job_mutation db_now old new) (\<lambda>_.
     bind_result (check_constraints (job_constraints new)) (\<lambda>_.
     Inr (db\<lparr>db_jobs := map (\<lambda>j. if j_id j = j_id old then new else j) (db_jobs db)\<rparr>)))"

definition reload :: "job_db \<Rightarrow> int \<Rightarrow> (job_error, background_job) result" where
  "reload db i =
     (case find_job db i of
        None \<Rightarrow> Inl (JobNotFound ''job was not found'')
      | Some j \<Rightarrow> Inr j)"

definition event_key :: "int \<Rightarrow> string \<Rightarrow> int \<Rightarrow> string" where
  "event_key i event_type attempt =
     ''job:'' @ int_str i @ '':'' @ event_type @ '':'' @ int_str attempt"

definition job_event :: "background_job \<Rightarrow> string \<Rightarrow> instant \<Rightarrow> outbox_event" where
  "job_event j event_type now =
     \<lparr>oe_owner_id = j_owner_id j, oe_aggregate_type = ''background_job'',
      oe_aggregate_id = j_id j, oe_event_type = event_type,
      oe_payload = \<lparr>rp_schema_version = 1, rp_subject_id = j_id j, rp_related_id = None\<rparr>,
      oe_occurred_at = now, oe_published_at = None, oe_attempts = 0,
      oe_idempotency_key = event_key (j_id j) event_type (j_attempt_count j)\<rparr>"

definition status_event ::
    "job_db \<Rightarrow> background_job \<Rightarrow> string \<Rightarrow> instant \<Rightarrow> (job_error, job_db) result" where
  "status_event db j event_type now =
     (let e = job_event j event_type now in
      bind_result (validate_payload_attribute (oe_payload e)) (\<lambda>_.
      bind_result (ensure (safe_key (oe_idempotency_key e))
                     (Integrity_error ''idempotency_key_safe'')) (\<lambda>_.
      bind_result (ensure (\<forall>o1 \<in> set (db_outbox db).
                      \<not> (oe_owner_id o1 = oe_owner_id e
                         \<and> oe_idempotency_key o1 = oe_idempotency_key e))
                     (Integrity_error ''uq_outbox_events_owner_idempotency'')) (\<lambda>_.
      Inr (db\<lparr>db_outbox := db_outbox db @ [e]\<rparr>)))))"

definition repo_now :: "datetime \<Rightarrow> (job_error, instant) result" where
  "repo_now clock =
     (if aware clock then Inr (instant_of clock)
      else Inl (JobInvalidRequest ''repository clock must be timezone-aware''))"

section \<open>Rows the operations write\<close>

definition new_job :: "int \<Rightarrow> int \<Rightarrow> enqueue_command \<Rightarrow> string \<Rightarrow> instant \<Rightarrow> background_job" where
  "new_job i owner c key now =
     \<lparr>j_id = i, j_owner_id = owner, j_kind = ec_kind c, j_payload_schema_version = 1,
      j_payload = ec_payload c, j_priority = ec_priority c, j_state = Queued,
      j_idempotency_key = key, j_available_at = instant_of (ec_available_at c),
      j_attempt_count = 0, j_max_attempts = ec_max_attempts c, j_lease_owner = None,
      j_lease_expires_at = None, j_last_error_category = None, j_last_error_details = None,
      j_created_at = now, j_updated_at = now, j_started_at = None, j_completed_at = None\<rparr>"

definition claim_row :: "instant \<Rightarrow> string \<Rightarrow> int \<Rightarrow> background_job \<Rightarrow> background_job" where
  "claim_row now worker lease_seconds j = j\<lparr>
     j_state := Running, j_attempt_count := j_attempt_count j + 1,
     j_lease_owner := Some worker, j_lease_expires_at := Some (now + td_seconds lease_seconds),
     j_last_error_category := None, j_last_error_details := None,
     j_started_at := Some (case j_started_at j of None \<Rightarrow> now | Some s \<Rightarrow> s),
     j_updated_at := now\<rparr>"

definition heartbeat_row :: "instant \<Rightarrow> instant \<Rightarrow> background_job \<Rightarrow> background_job" where
  "heartbeat_row now expires j = j\<lparr>j_lease_expires_at := Some expires, j_updated_at := now\<rparr>"

definition complete_row :: "instant \<Rightarrow> background_job \<Rightarrow> background_job" where
  "complete_row now j = j\<lparr>j_state := Succeeded, j_lease_owner := None,
     j_lease_expires_at := None, j_completed_at := Some now, j_updated_at := now\<rparr>"

definition requeue_row ::
    "instant \<Rightarrow> instant \<Rightarrow> string \<Rightarrow> error_details \<Rightarrow> background_job \<Rightarrow> background_job" where
  "requeue_row now available category details j = j\<lparr>j_state := Queued,
     j_available_at := available, j_lease_owner := None, j_lease_expires_at := None,
     j_last_error_category := Some category, j_last_error_details := Some details,
     j_updated_at := now\<rparr>"

definition fail_row ::
    "instant \<Rightarrow> string \<Rightarrow> error_details \<Rightarrow> background_job \<Rightarrow> background_job" where
  "fail_row now category details j = j\<lparr>j_state := Failed,
     j_lease_owner := None, j_lease_expires_at := None,
     j_last_error_category := Some category, j_last_error_details := Some details,
     j_completed_at := Some now, j_updated_at := now\<rparr>"

definition cancel_row :: "instant \<Rightarrow> background_job \<Rightarrow> background_job" where
  "cancel_row now j = j\<lparr>j_state := Canceled, j_lease_owner := None, j_lease_expires_at := None,
     j_last_error_category := None, j_last_error_details := None,
     j_completed_at := Some now, j_updated_at := now\<rparr>"

text \<open>Update, reload, publish: the end of every operation that changes a state.\<close>

definition change_state ::
    "instant \<Rightarrow> job_db \<Rightarrow> background_job \<Rightarrow> background_job \<Rightarrow> string \<Rightarrow> instant
       \<Rightarrow> (job_error, job_db \<times> background_job) result" where
  "change_state db_now db old new event_type now =
     bind_result (update_job db_now db old new) (\<lambda>db1.
     bind_result (reload db1 (j_id old)) (\<lambda>current.
     bind_result (status_event db1 current event_type now) (\<lambda>db2. Inr (db2, current))))"

section \<open>Repository operations\<close>

definition same_enqueue :: "background_job \<Rightarrow> enqueue_command \<Rightarrow> bool" where
  "same_enqueue j c \<longleftrightarrow>
     j_kind j = ec_kind c \<and> j_payload j = ec_payload c \<and> j_priority j = ec_priority c
     \<and> j_available_at j = instant_of (ec_available_at c) \<and> j_max_attempts j = ec_max_attempts c"

definition enqueue ::
    "job_db \<Rightarrow> datetime \<Rightarrow> int \<Rightarrow> enqueue_command \<Rightarrow> string
       \<Rightarrow> (job_error, job_db \<times> background_job \<times> bool) result" where
  "enqueue db clock owner_id c key =
     bind_result (repo_now clock) (\<lambda>now.
       if owner_id \<notin> set (db_owners db) then Inl (JobNotFound ''job owner was not found'')
       else case find (\<lambda>j. j_owner_id j = owner_id \<and> j_idempotency_key j = key) (db_jobs db) of
         Some existing \<Rightarrow>
           if \<not> same_enqueue existing c
             then Inl (JobConflict ''Idempotency-Key was reused for another job'')
           else Inr (db, existing, True)
       | None \<Rightarrow>
           bind_result (validate_payload_attribute (ec_payload c)) (\<lambda>_.
             let j = new_job (db_next_id db) owner_id c key now in
             bind_result (insert_job db j) (\<lambda>db1.
             bind_result (status_event db1 j ''background_job.queued'' now) (\<lambda>db2.
               Inr (db2, j, False)))))"

definition claimable :: "instant \<Rightarrow> string list \<Rightarrow> background_job \<Rightarrow> bool" where
  "claimable now kinds j \<longleftrightarrow>
     j_state j = Queued \<and> j_available_at j \<le> now \<and> j_attempt_count j < j_max_attempts j
     \<and> j_kind j \<in> set kinds"

definition claim_order :: "background_job \<Rightarrow> int \<times> instant \<times> int" where
  "claim_order j = (- j_priority j, j_available_at j, j_id j)"

definition claim ::
    "instant \<Rightarrow> job_db \<Rightarrow> datetime \<Rightarrow> int list \<Rightarrow> claim_command
       \<Rightarrow> (job_error, job_db \<times> background_job option) result" where
  "claim db_now db clock locked c =
     bind_result (repo_now clock) (\<lambda>now.
       case first_min claim_order
              (filter (\<lambda>j. claimable now (cl_kinds c) j \<and> j_id j \<notin> set locked) (db_jobs db)) of
         None \<Rightarrow> Inr (db, None)
       | Some j \<Rightarrow>
           bind_result
             (change_state db_now db j (claim_row now (cl_worker_id c) (cl_lease_seconds c) j)
                ''background_job.running'' now)
             (\<lambda>(db1, current). Inr (db1, Some current)))"

definition running_job :: "job_db \<Rightarrow> int \<Rightarrow> string \<Rightarrow> instant \<Rightarrow> (job_error, background_job) result"
where
  "running_job db i worker now =
     (case find_job db i of
        None \<Rightarrow> Inl (JobNotFound ''job was not found'')
      | Some j \<Rightarrow>
          if j_state j \<noteq> Running \<or> j_lease_owner j \<noteq> Some worker
            then Inl (JobConflict ''worker does not own the running job lease'')
          else if (case j_lease_expires_at j of None \<Rightarrow> True | Some e \<Rightarrow> e \<le> now)
            then Inl (JobConflict ''job lease has expired'')
          else Inr j)"

definition job_heartbeat ::
    "instant \<Rightarrow> job_db \<Rightarrow> datetime \<Rightarrow> int \<Rightarrow> heartbeat_command
       \<Rightarrow> (job_error, job_db \<times> background_job) result" where
  "job_heartbeat db_now db clock i c =
     bind_result (repo_now clock) (\<lambda>now.
     bind_result (running_job db i (hb_worker_id c) now) (\<lambda>j.
       let lease_base = max now (the (j_lease_expires_at j)) in
       bind_result (update_job db_now db j
                      (heartbeat_row now (lease_base + td_seconds (hb_lease_seconds c)) j)) (\<lambda>db1.
       bind_result (reload db1 (j_id j)) (\<lambda>current. Inr (db1, current)))))"

definition complete ::
    "instant \<Rightarrow> job_db \<Rightarrow> datetime \<Rightarrow> int \<Rightarrow> string
       \<Rightarrow> (job_error, job_db \<times> background_job) result" where
  "complete db_now db clock i worker =
     bind_result (repo_now clock) (\<lambda>now.
     bind_result (running_job db i worker now) (\<lambda>j.
       change_state db_now db j (complete_row now j) ''background_job.succeeded'' now))"

definition retry_delay :: "int \<Rightarrow> job_failure \<Rightarrow> int" where
  "retry_delay attempt f =
     (case jf_retry_after_seconds f of
        Some d \<Rightarrow> d
      | None \<Rightarrow> min 300 (5 * 2 ^ nat (attempt - 1)))"

definition retry_details :: "int \<Rightarrow> job_failure \<Rightarrow> error_details" where
  "retry_details attempt f =
     \<lparr>ed_schema_version = 1, ed_attempt = Some attempt,
      ed_retry_after_seconds = jf_retry_after_seconds f, ed_http_status = jf_http_status f\<rparr>"

definition retry ::
    "instant \<Rightarrow> job_db \<Rightarrow> datetime \<Rightarrow> int \<Rightarrow> retry_command
       \<Rightarrow> (job_error, job_db \<times> background_job \<times> disposition) result" where
  "retry db_now db clock i c =
     bind_result (repo_now clock) (\<lambda>now.
     bind_result (running_job db i (rc_worker_id c) now) (\<lambda>j.
       let f = rc_failure c in
       bind_result (retry_disposition (j_attempt_count j) (j_max_attempts j) (jf_category f)) (\<lambda>d.
         let details = retry_details (j_attempt_count j) f in
         bind_result
           (case d of
              Retry_wait \<Rightarrow>
                change_state db_now db j
                  (requeue_row now (now + td_seconds (retry_delay (j_attempt_count j) f))
                     (jf_category f) details j)
                  ''background_job.retry_wait'' now
            | Needs_attention \<Rightarrow>
                change_state db_now db j (fail_row now (jf_category f) details j)
                  ''background_job.needs_attention'' now)
           (\<lambda>(db1, current). Inr (db1, current, d)))))"

definition cancel ::
    "instant \<Rightarrow> job_db \<Rightarrow> datetime \<Rightarrow> int \<Rightarrow> int
       \<Rightarrow> (job_error, job_db \<times> background_job) result" where
  "cancel db_now db clock owner_id i =
     bind_result (repo_now clock) (\<lambda>now.
       case find (\<lambda>j. j_owner_id j = owner_id \<and> j_id j = i) (db_jobs db) of
         None \<Rightarrow> Inl (JobNotFound ''job was not found'')
       | Some j \<Rightarrow>
           if j_state j = Canceled then Inr (db, j)
           else if j_state j = Succeeded \<or> j_state j = Failed
             then Inl (JobConflict ''terminal job cannot be canceled'')
           else change_state db_now db j (cancel_row now j) ''background_job.canceled'' now)"

definition lease_expired :: "instant \<Rightarrow> background_job \<Rightarrow> bool" where
  "lease_expired now j \<longleftrightarrow>
     j_state j = Running \<and> (case j_lease_expires_at j of None \<Rightarrow> False | Some e \<Rightarrow> e \<le> now)"

definition expired_jobs :: "job_db \<Rightarrow> instant \<Rightarrow> int list \<Rightarrow> int \<Rightarrow> background_job list" where
  "expired_jobs db now locked limit =
     take (nat limit)
       (sort_key (\<lambda>j. (the (j_lease_expires_at j), j_id j))
          (filter (\<lambda>j. lease_expired now j \<and> j_id j \<notin> set locked) (db_jobs db)))"

definition reclaim_one ::
    "instant \<Rightarrow> instant \<Rightarrow> job_db \<Rightarrow> background_job \<Rightarrow> (job_error, job_db \<times> disposition) result"
where
  "reclaim_one db_now now db j =
     (let details = \<lparr>ed_schema_version = 1, ed_attempt = Some (j_attempt_count j),
                     ed_retry_after_seconds = None, ed_http_status = None\<rparr> in
      if j_attempt_count j < j_max_attempts j then
        bind_result
          (change_state db_now db j (requeue_row now now ''transient_dependency'' details j)
             ''background_job.retry_wait'' now)
          (\<lambda>(db1, _). Inr (db1, Retry_wait))
      else
        bind_result
          (change_state db_now db j (fail_row now ''processing_failure'' details j)
             ''background_job.needs_attention'' now)
          (\<lambda>(db1, _). Inr (db1, Needs_attention)))"

fun reclaim_loop ::
    "instant \<Rightarrow> instant \<Rightarrow> job_db \<Rightarrow> background_job list
       \<Rightarrow> (job_error, job_db \<times> int list \<times> int list) result" where
  "reclaim_loop db_now now db [] = Inr (db, [], [])"
| "reclaim_loop db_now now db (j # js) =
     bind_result (reclaim_one db_now now db j) (\<lambda>(db1, d).
     bind_result (reclaim_loop db_now now db1 js) (\<lambda>(db2, retried, attention).
       Inr (case d of
              Retry_wait \<Rightarrow> (db2, j_id j # retried, attention)
            | Needs_attention \<Rightarrow> (db2, retried, j_id j # attention))))"

definition reclaim_expired ::
    "instant \<Rightarrow> job_db \<Rightarrow> datetime \<Rightarrow> int list \<Rightarrow> int
       \<Rightarrow> (job_error, job_db \<times> int list \<times> int list) result" where
  "reclaim_expired db_now db clock locked limit =
     bind_result (repo_now clock) (\<lambda>now.
       reclaim_loop db_now now db (expired_jobs db now locked limit))"

section \<open>The service\<close>

definition service_enqueue ::
    "job_db \<Rightarrow> datetime \<Rightarrow> int \<Rightarrow> enqueue_command \<Rightarrow> string
       \<Rightarrow> (job_error, job_db \<times> background_job \<times> bool) result" where
  "service_enqueue db clock owner_id c key =
     (if owner_id \<le> 0 then Inl (JobInvalidRequest ''owner is invalid'')
      else if \<not> safe_key key then Inl (JobInvalidRequest ''Idempotency-Key is invalid'')
      else enqueue db clock owner_id c key)"

definition positive_job_id :: "int \<Rightarrow> (job_error, unit) result" where
  "positive_job_id i = ensure (0 < i) (JobInvalidRequest ''job ID is invalid'')"

definition service_cancel ::
    "instant \<Rightarrow> job_db \<Rightarrow> datetime \<Rightarrow> int \<Rightarrow> int
       \<Rightarrow> (job_error, job_db \<times> background_job) result" where
  "service_cancel db_now db clock owner_id i =
     (if owner_id \<le> 0 then Inl (JobInvalidRequest ''owner is invalid'')
      else bind_result (positive_job_id i) (\<lambda>_. cancel db_now db clock owner_id i))"

definition service_reclaim ::
    "instant \<Rightarrow> job_db \<Rightarrow> datetime \<Rightarrow> int list \<Rightarrow> int
       \<Rightarrow> (job_error, job_db \<times> int list \<times> int list) result" where
  "service_reclaim db_now db clock locked limit =
     (if \<not> (1 \<le> limit \<and> limit \<le> 100) then Inl (JobInvalidRequest ''reclaim limit is invalid'')
      else reclaim_expired db_now db clock locked limit)"

text \<open>One validated command of the service, with the clocks and locks it runs under.\<close>

datatype job_command =
    Enqueue int enqueue_command string
  | Claim "int list" claim_command
  | Heartbeat int heartbeat_command
  | Complete int string
  | Retry int retry_command
  | Cancel int int
  | Reclaim "int list" int

type_synonym timed_command = "instant \<times> datetime \<times> job_command"

fun exec_job :: "job_db \<Rightarrow> timed_command \<Rightarrow> (job_error, job_db) result" where
  "exec_job db (db_now, clock, Enqueue owner c key) =
     bind_result (check_enqueue_command c) (\<lambda>_.
     bind_result (service_enqueue db clock owner c key) (\<lambda>r. Inr (fst r)))"
| "exec_job db (db_now, clock, Claim locked c) =
     bind_result (check_claim_command c) (\<lambda>_.
     bind_result (claim db_now db clock locked c) (\<lambda>r. Inr (fst r)))"
| "exec_job db (db_now, clock, Heartbeat i c) =
     bind_result (check_heartbeat_command c) (\<lambda>_.
     bind_result (positive_job_id i) (\<lambda>_.
     bind_result (job_heartbeat db_now db clock i c) (\<lambda>r. Inr (fst r))))"
| "exec_job db (db_now, clock, Complete i w) =
     bind_result (check_complete_command w) (\<lambda>_.
     bind_result (positive_job_id i) (\<lambda>_.
     bind_result (complete db_now db clock i w) (\<lambda>r. Inr (fst r))))"
| "exec_job db (db_now, clock, Retry i c) =
     bind_result (check_retry_command c) (\<lambda>_.
     bind_result (positive_job_id i) (\<lambda>_.
     bind_result (retry db_now db clock i c) (\<lambda>r. Inr (fst r))))"
| "exec_job db (db_now, clock, Cancel owner i) =
     bind_result (service_cancel db_now db clock owner i) (\<lambda>r. Inr (fst r))"
| "exec_job db (db_now, clock, Reclaim locked limit) =
     bind_result (service_reclaim db_now db clock locked limit) (\<lambda>r. Inr (fst r))"

end
