(* ===== verification/Job_Safety.thy ===== *)
theory Job_Safety
  imports Jobs
begin

text \<open>
  What the durable queue promises. An abstract lifecycle (\<open>row_change\<close>) says how one row may
  move and which event goes with it; \<open>job_step\<close> lifts it to the database, and every repository
  operation is shown to be a sequence of such steps. The invariant \<open>job_inv\<close> of the database is
  kept by every step, and with a clock that does not run backwards no write is ever refused by the
  database's own guards.
\<close>

section \<open>The abstract lifecycle\<close>

inductive row_change :: "instant \<Rightarrow> background_job \<Rightarrow> background_job \<Rightarrow> string option \<Rightarrow> bool"
  for now :: instant and old :: background_job where
  claimed: "j_state old = Queued \<Longrightarrow> j_attempt_count old < j_max_attempts old \<Longrightarrow> safe_key w \<Longrightarrow> 5 \<le> secs
    \<Longrightarrow> row_change now old (claim_row now w secs old) (Some ''background_job.running'')"
| extended: "j_state old = Running \<Longrightarrow> j_lease_expires_at old = Some e \<Longrightarrow> 5 \<le> secs
    \<Longrightarrow> row_change now old (heartbeat_row now (max now e + td_seconds secs) old) None"
| succeeded: "j_state old = Running
    \<Longrightarrow> row_change now old (complete_row now old) (Some ''background_job.succeeded'')"
| requeued: "j_state old = Running \<Longrightarrow> j_attempt_count old < j_max_attempts old
    \<Longrightarrow> category \<in> set RETRYABLE_CATEGORIES \<Longrightarrow> validate_error_details_v1 d \<Longrightarrow> now \<le> available
    \<Longrightarrow> row_change now old (requeue_row now available category d old)
          (Some ''background_job.retry_wait'')"
| failed: "j_state old = Running \<Longrightarrow> category \<in> set ERROR_CATEGORIES \<Longrightarrow> validate_error_details_v1 d
    \<Longrightarrow> row_change now old (fail_row now category d old) (Some ''background_job.needs_attention'')"
| canceled: "\<not> terminal (j_state old)
    \<Longrightarrow> row_change now old (cancel_row now old) (Some ''background_job.canceled'')"

lemmas row_defs = claim_row_def heartbeat_row_def complete_row_def requeue_row_def fail_row_def
  cancel_row_def

definition row_inv :: "background_job \<Rightarrow> bool" where
  "row_inv j \<longleftrightarrow> job_valid j \<and> key_fields_safe j
     \<and> (\<forall>s. j_started_at j = Some s \<longrightarrow> s \<le> j_updated_at j)"

lemma retryable_subset: "c \<in> set RETRYABLE_CATEGORIES \<Longrightarrow> c \<in> set ERROR_CATEGORIES"
  by (auto simp: RETRYABLE_CATEGORIES_def ERROR_CATEGORIES_def)

text \<open>Every lifecycle move yields a valid row, and one the trigger accepts.\<close>

lemma row_change_frame:
  assumes "row_change now old new ev"
  shows "j_id new = j_id old \<and> provenance new = provenance old \<and> j_updated_at new = now
    \<and> j_priority new = j_priority old \<and> \<not> terminal (j_state old)"
  using assms by cases (auto simp: row_defs provenance_def terminal_def)

lemma row_change_inv:
  assumes "row_change now old new ev" "row_inv old" "j_updated_at old \<le> now"
  shows "row_inv new"
  using assms(1)
proof cases
  case (claimed w secs)
  with assms show ?thesis
    by (cases "j_started_at old")
      (auto simp: row_inv_def job_valid_def key_fields_safe_def error_coherent_def
        times_coherent_def row_defs duration_defs)
next
  case (extended e secs)
  with assms show ?thesis
    by (auto simp: row_inv_def job_valid_def key_fields_safe_def error_coherent_def
        times_coherent_def row_defs duration_defs)
next
  case succeeded
  with assms show ?thesis
    by (auto simp: row_inv_def job_valid_def key_fields_safe_def error_coherent_def
        times_coherent_def row_defs)
next
  case (requeued category d available)
  with assms show ?thesis
    by (auto simp: row_inv_def job_valid_def key_fields_safe_def error_coherent_def
        times_coherent_def row_defs retryable_subset)
next
  case (failed category d)
  with assms show ?thesis
    by (auto simp: row_inv_def job_valid_def key_fields_safe_def error_coherent_def
        times_coherent_def row_defs)
next
  case canceled
  with assms show ?thesis
    by (cases "j_state old")
      (auto simp: row_inv_def job_valid_def key_fields_safe_def error_coherent_def
        times_coherent_def row_defs terminal_def)
qed

lemma row_change_guard:
  assumes "row_change now old new ev" "row_inv old" "j_updated_at old \<le> now"
  shows "guard_job_mutation db_now old new = Inr ()"
proof -
  have f: "provenance new = provenance old" "j_updated_at new = now" "\<not> terminal (j_state old)"
    using row_change_frame [OF assms(1)] by auto
  have c: "j_completed_at old = None" using assms(2) f(3)
    by (cases "j_state old") (auto simp: row_inv_def job_valid_def terminal_def)
  have live: "j_state old = Queued \<or> j_state old = Running"
    using f(3) by (cases "j_state old") (auto simp: terminal_def)
  from assms(1) show ?thesis
  proof cases
    case (claimed w secs)
    with f c assms(3) show ?thesis
      by (cases "j_started_at old") (auto simp: guard_job_mutation_def row_defs)
  next
    case (extended e secs)
    with f c assms(3) show ?thesis
      by (auto simp: guard_job_mutation_def row_defs duration_defs)
  next
    case (requeued category d available)
    then have "category = ''transient_dependency'' \<or> category = ''resource_exhausted''"
      by (auto simp: RETRYABLE_CATEGORIES_def)
    with requeued f c assms(3) show ?thesis
      by (cases "j_lease_expires_at old") (auto simp: guard_job_mutation_def row_defs)
  qed (use f c assms(3) live in \<open>auto simp: guard_job_mutation_def row_defs terminal_def\<close>)
qed

lemma row_change_accepted:
  assumes "row_change now old new ev" "row_inv old" "j_updated_at old \<le> now"
  shows "update_job db_now db old new
    = Inr (db\<lparr>db_jobs := map (\<lambda>j. if j_id j = j_id old then new else j) (db_jobs db)\<rparr>)"
  using row_change_guard [OF assms] row_change_inv [OF assms]
  by (simp add: update_job_def row_inv_def job_valid_constraints)

lemma update_job_monotone:
  "update_job db_now db old new = Inr db' \<Longrightarrow> j_updated_at old \<le> j_updated_at new"
  by (auto simp: update_job_def guard_job_mutation_def result_simps split: if_splits)

section \<open>Events\<close>

definition STATUS_EVENTS :: "string list" where
  "STATUS_EVENTS = [''background_job.queued'', ''background_job.running'',
     ''background_job.succeeded'', ''background_job.retry_wait'',
     ''background_job.needs_attention'', ''background_job.canceled'']"

lemma status_event_no_colon: "t \<in> set STATUS_EVENTS \<Longrightarrow> CHR '':'' \<notin> set t"
  by (auto simp: STATUS_EVENTS_def)

lemma event_key_inject:
  assumes "0 \<le> i" "0 \<le> i'" "0 \<le> a" "0 \<le> a'" "t \<in> set STATUS_EVENTS" "t' \<in> set STATUS_EVENTS"
  shows "event_key i t a = event_key i' t' a' \<longleftrightarrow> i = i' \<and> t = t' \<and> a = a'"
  using assms
  by (simp add: event_key_def colon_split status_event_no_colon int_str_inject_nonneg)

lemma safe_key_chars: "list_all (\<lambda>c. is_alnum c \<or> c \<in> set ''._:-'') (int_str i)"
  if "0 \<le> i"
proof -
  have "is_alnum c" if "c \<in> set (nat_str n)" for c n
    using nat_str_digits [OF that] by (simp add: is_alnum_def is_digit_def in_range_def)
  with that show ?thesis by (auto simp: int_str_def list_all_iff)
qed

text \<open>The events a row has published so far, by type and attempt.\<close>

definition past_event :: "background_job \<Rightarrow> string \<Rightarrow> int \<Rightarrow> bool" where
  "past_event j t a \<longleftrightarrow>
     0 \<le> a \<and> a \<le> j_attempt_count j \<and> t \<in> set STATUS_EVENTS
     \<and> (t = ''background_job.queued'' \<longrightarrow> a = 0)
     \<and> (t = ''background_job.running'' \<longrightarrow> 1 \<le> a)
     \<and> (t = ''background_job.retry_wait'' \<longrightarrow> j_state j = Running \<longrightarrow> a < j_attempt_count j)
     \<and> (t \<in> {''background_job.succeeded'', ''background_job.needs_attention'',
             ''background_job.canceled''} \<longrightarrow> terminal (j_state j))"

lemma past_event_mono:
  assumes "row_change now old new ev" "past_event old t a"
  shows "past_event new t a"
  using assms by cases (auto simp: past_event_def row_defs terminal_def)

lemma past_event_new:
  assumes "row_change now old new (Some t)" "row_inv old"
  shows "past_event new t (j_attempt_count new) \<and> \<not> past_event old t (j_attempt_count new)"
  using assms
  by cases (auto simp: past_event_def STATUS_EVENTS_def row_defs terminal_def row_inv_def
      job_valid_def)

definition event_of :: "background_job \<Rightarrow> outbox_event \<Rightarrow> bool" where
  "event_of j e \<longleftrightarrow>
     oe_owner_id e = j_owner_id j \<and> oe_aggregate_id e = j_id j
     \<and> (\<exists>a. past_event j (oe_event_type e) a
            \<and> oe_idempotency_key e = event_key (j_id j) (oe_event_type e) a)"

section \<open>The invariant\<close>

definition unique_by :: "('a \<Rightarrow> 'k) \<Rightarrow> 'a list \<Rightarrow> bool" where
  "unique_by f xs \<longleftrightarrow> distinct (map f xs)"

definition job_inv :: "job_db \<Rightarrow> bool" where
  "job_inv db \<longleftrightarrow>
     0 < db_next_id db
     \<and> unique_by j_id (db_jobs db)
     \<and> unique_by (\<lambda>j. (j_owner_id j, j_idempotency_key j)) (db_jobs db)
     \<and> (\<forall>j \<in> set (db_jobs db). row_inv j \<and> 0 < j_id j \<and> j_id j < db_next_id db)
     \<and> unique_by (\<lambda>e. (oe_owner_id e, oe_idempotency_key e)) (db_outbox db)
     \<and> (\<forall>e \<in> set (db_outbox db). \<exists>j \<in> set (db_jobs db). event_of j e)"

abbreviation replace_row :: "background_job \<Rightarrow> background_job \<Rightarrow> job_db \<Rightarrow> job_db" where
  "replace_row old new db \<equiv>
     db\<lparr>db_jobs := map (\<lambda>j. if j_id j = j_id old then new else j) (db_jobs db)\<rparr>"

lemma unique_byD: "unique_by f xs \<Longrightarrow> x \<in> set xs \<Longrightarrow> y \<in> set xs \<Longrightarrow> f x = f y \<Longrightarrow> x = y"
  by (auto simp: unique_by_def distinct_map dest: inj_onD)

lemma set_replace_row:
  assumes "unique_by j_id (db_jobs db)" "old \<in> set (db_jobs db)"
  shows "set (db_jobs (replace_row old new db)) = insert new (set (db_jobs db) - {old})"
proof -
  have "j = old" if "j \<in> set (db_jobs db)" "j_id j = j_id old" for j
    using unique_byD [OF assms(1) that(1) assms(2) that(2)] .
  then show ?thesis using assms(2) by auto
qed

lemma map_replace_same:
  assumes "unique_by j_id xs" "old \<in> set xs" "f new = f old"
  shows "map f (map (\<lambda>j. if j_id j = j_id old then new else j) xs) = map f xs"
proof -
  have "j = old" if "j \<in> set xs" "j_id j = j_id old" for j
    using unique_byD [OF assms(1) that(1) assms(2) that(2)] .
  with assms(3) show ?thesis by auto
qed

lemma find_job_unique:
  assumes "unique_by j_id (db_jobs db)" "j \<in> set (db_jobs db)"
  shows "find_job db (j_id j) = Some j"
proof -
  obtain k where k: "find_job db (j_id j) = Some k"
    using assms(2) by (cases "find_job db (j_id j)") (auto simp: find_job_def find_None_iff)
  then have "k \<in> set (db_jobs db)" "j_id k = j_id j"
    by (auto simp: find_job_def find_Some_iff)
  with k assms show ?thesis by (auto dest: unique_byD)
qed

text \<open>Replacing a row by its successor keeps the part of the invariant about rows.\<close>

lemma replace_row_jobs:
  assumes "job_inv db" "old \<in> set (db_jobs db)" "row_change now old new ev"
    "j_updated_at old \<le> now"
  shows "unique_by j_id (db_jobs (replace_row old new db))"
    and "unique_by (\<lambda>j. (j_owner_id j, j_idempotency_key j)) (db_jobs (replace_row old new db))"
    and "\<forall>j \<in> set (db_jobs (replace_row old new db)).
           row_inv j \<and> 0 < j_id j \<and> j_id j < db_next_id db"
    and "find_job (replace_row old new db) (j_id old) = Some new"
proof -
  have u: "unique_by j_id (db_jobs db)" using assms(1) by (simp add: job_inv_def)
  have f: "j_id new = j_id old" "provenance new = provenance old"
    using row_change_frame [OF assms(3)] by auto
  have r: "row_inv new"
    using assms by (auto simp: job_inv_def intro: row_change_inv [OF assms(3)])
  show u': "unique_by j_id (db_jobs (replace_row old new db))"
    using u f(1) map_replace_same [OF u assms(2), of j_id new]
    by (simp add: unique_by_def del: map_map)
  show "unique_by (\<lambda>j. (j_owner_id j, j_idempotency_key j)) (db_jobs (replace_row old new db))"
    using assms(1) f(2)
      map_replace_same [OF u assms(2), of "\<lambda>j. (j_owner_id j, j_idempotency_key j)" new]
    by (simp add: job_inv_def unique_by_def provenance_def del: map_map)
  show "\<forall>j \<in> set (db_jobs (replace_row old new db)).
      row_inv j \<and> 0 < j_id j \<and> j_id j < db_next_id db"
    using assms(1,2) r f(1) unfolding set_replace_row [OF u assms(2)]
    by (auto simp: job_inv_def)
  have "new \<in> set (db_jobs (replace_row old new db))"
    unfolding set_replace_row [OF u assms(2)] by simp
  from find_job_unique [OF u' this] f(1)
  show "find_job (replace_row old new db) (j_id old) = Some new" by simp
qed

lemma events_survive:
  assumes "job_inv db" "old \<in> set (db_jobs db)" "row_change now old new ev"
  shows "\<forall>e \<in> set (db_outbox db). \<exists>j \<in> set (db_jobs (replace_row old new db)). event_of j e"
proof
  fix e
  assume "e \<in> set (db_outbox db)"
  then obtain j where j: "j \<in> set (db_jobs db)" "event_of j e"
    using assms(1) by (auto simp: job_inv_def)
  have u: "unique_by j_id (db_jobs db)" using assms(1) by (simp add: job_inv_def)
  have "event_of new e" if "j = old"
    using that j(2) row_change_frame [OF assms(3)] past_event_mono [OF assms(3)]
    by (auto simp: event_of_def provenance_def)
  then show "\<exists>j \<in> set (db_jobs (replace_row old new db)). event_of j e"
    unfolding set_replace_row [OF u assms(2)] using j by auto
qed

lemma event_of_job_event:
  assumes "past_event j t (j_attempt_count j)"
  shows "event_of j (job_event j t now)"
  using assms by (auto simp: event_of_def job_event_def)

text \<open>An event of a row whose type and attempt are new has a fresh key.\<close>

lemma fresh_event_key:
  assumes "job_inv db" "e \<in> set (db_outbox db)"
    and "0 \<le> i" "0 \<le> a" "t \<in> set STATUS_EVENTS"
    and "\<forall>j \<in> set (db_jobs db). j_id j = i \<longrightarrow> \<not> past_event j t a"
  shows "oe_idempotency_key e \<noteq> event_key i t a"
proof
  assume eq: "oe_idempotency_key e = event_key i t a"
  obtain j b where j: "j \<in> set (db_jobs db)" "past_event j (oe_event_type e) b"
      "oe_idempotency_key e = event_key (j_id j) (oe_event_type e) b"
    using assms(1,2) unfolding job_inv_def event_of_def by fastforce
  moreover have "0 < j_id j" using assms(1) j(1) by (simp add: job_inv_def)
  ultimately have "j_id j = i \<and> oe_event_type e = t \<and> b = a"
    using eq assms(3-5) event_key_inject [of "j_id j" i b a "oe_event_type e" t]
    by (simp add: past_event_def)
  with assms(6) j show False by auto
qed

lemma status_event_ok:
  assumes "job_inv db" "db_outbox db1 = db_outbox db"
    and "0 < j_id j" "j_id j \<le> 2 ^ 63 - 1" "0 \<le> j_attempt_count j" "j_attempt_count j \<le> 100"
    and "t \<in> set STATUS_EVENTS"
    and "\<forall>k \<in> set (db_jobs db). j_id k = j_id j \<longrightarrow> \<not> past_event k t (j_attempt_count j)"
  shows "status_event db1 j t now = Inr (db1\<lparr>db_outbox := db_outbox db @ [job_event j t now]\<rparr>)"
proof -
  have "length (int_str (j_id j)) \<le> 19" "length (int_str (j_attempt_count j)) \<le> 3"
    using assms(3-6) by (auto intro!: length_int_str)
  moreover have "length t \<le> 30 \<and> list_all (\<lambda>c. is_alnum c \<or> c \<in> set ''._:-'') t"
    using assms(7)
    by (auto simp: STATUS_EVENTS_def is_alnum_def is_lower_def is_digit_def in_range_def)
  ultimately have "safe_key (event_key (j_id j) t (j_attempt_count j))"
    using safe_key_chars [of "j_id j"] safe_key_chars [of "j_attempt_count j"] assms(3,5)
    by (simp add: event_key_def is_alnum_def is_lower_def in_range_def)
  moreover have "validate_reference_payload_v1
      \<lparr>rp_schema_version = 1, rp_subject_id = j_id j, rp_related_id = None\<rparr>"
    using assms(3,4) by (simp add: valid_payload positive_id_def)
  moreover have "oe_idempotency_key e \<noteq> event_key (j_id j) t (j_attempt_count j)"
    if "e \<in> set (db_outbox db)" for e
    using that assms by (intro fresh_event_key [OF assms(1)]) auto
  ultimately show ?thesis
    using assms(2)
    by (simp add: status_event_def job_event_def validate_payload_attribute_def Let_def ensure_def)
qed

lemma status_event_Inr:
  "status_event db j t now = Inr db' \<Longrightarrow>
     db' = db\<lparr>db_outbox := db_outbox db @ [job_event j t now]\<rparr>
     \<and> (\<forall>e \<in> set (db_outbox db). \<not> (oe_owner_id e = j_owner_id j
          \<and> oe_idempotency_key e = event_key (j_id j) t (j_attempt_count j)))"
  by (auto simp: status_event_def job_event_def result_simps Let_def)

text \<open>One lifecycle move of a stored row is accepted, in the database and in the outbox.\<close>

lemma change_state_ok:
  assumes "job_inv db" "old \<in> set (db_jobs db)" "row_change now old new (Some t)"
    and "j_updated_at old \<le> now" "j_id old \<le> 2 ^ 63 - 1"
  shows "change_state db_now db old new t now
    = Inr ((replace_row old new db)\<lparr>db_outbox := db_outbox db @ [job_event new t now]\<rparr>, new)"
proof -
  have r: "row_inv old" "0 < j_id old" using assms(1,2) by (auto simp: job_inv_def)
  have n: "row_inv new" "j_id new = j_id old"
    using row_change_inv [OF assms(3) r(1) assms(4)] row_change_frame [OF assms(3)] by auto
  have p: "past_event new t (j_attempt_count new)" "\<not> past_event old t (j_attempt_count new)"
    using past_event_new [OF assms(3) r(1)] by auto
  have "\<not> past_event k t (j_attempt_count new)"
    if "k \<in> set (db_jobs db)" "j_id k = j_id new" for k
    using that p(2) n(2) assms(1,2) unique_byD [of j_id "db_jobs db" k old]
    by (auto simp: job_inv_def)
  moreover have "0 \<le> j_attempt_count new" "j_attempt_count new \<le> 100" "t \<in> set STATUS_EVENTS"
    using n(1) p(1) by (simp_all add: past_event_def row_inv_def job_valid_def)
  ultimately have "status_event (replace_row old new db) new t now
      = Inr ((replace_row old new db)\<lparr>db_outbox := db_outbox db @ [job_event new t now]\<rparr>)"
    using n(2) r(2) assms(5) by (intro status_event_ok [OF assms(1)]) auto
  then show ?thesis
    using replace_row_jobs(4) [OF assms(1-4)] row_change_accepted [OF assms(3) r(1) assms(4)]
    by (simp add: change_state_def reload_def)
qed

lemma change_state_Inr:
  assumes "job_inv db" "old \<in> set (db_jobs db)" "row_change now old new (Some t)"
    and "change_state db_now db old new t now = Inr (db', current)"
  shows "current = new \<and> j_updated_at old \<le> now
    \<and> db' = (replace_row old new db)\<lparr>db_outbox := db_outbox db @ [job_event new t now]\<rparr>
    \<and> (\<forall>e \<in> set (db_outbox db). \<not> (oe_owner_id e = j_owner_id new
          \<and> oe_idempotency_key e = event_key (j_id new) t (j_attempt_count new)))"
proof -
  from assms(4) obtain db1 where db1: "update_job db_now db old new = Inr db1"
    by (auto simp: change_state_def result_simps)
  have le: "j_updated_at old \<le> now"
    using update_job_monotone [OF db1] row_change_frame [OF assms(3)] by simp
  have "db1 = replace_row old new db" using db1 by (auto simp: update_job_def result_simps)
  with assms(4) db1 replace_row_jobs(4) [OF assms(1-3) le] le show ?thesis
    by (auto simp: change_state_def reload_def result_simps dest!: status_event_Inr)
qed

text \<open>Such a move keeps the invariant.\<close>

lemma change_state_inv:
  assumes "job_inv db" "old \<in> set (db_jobs db)" "row_change now old new (Some t)"
    and "change_state db_now db old new t now = Inr (db', current)"
  shows "job_inv db'"
proof -
  have c: "j_updated_at old \<le> now"
      "db' = (replace_row old new db)\<lparr>db_outbox := db_outbox db @ [job_event new t now]\<rparr>"
      "\<forall>e \<in> set (db_outbox db). \<not> (oe_owner_id e = j_owner_id new
          \<and> oe_idempotency_key e = event_key (j_id new) t (j_attempt_count new))"
    using change_state_Inr [OF assms] by auto
  have u: "unique_by j_id (db_jobs db)" and r: "row_inv old"
    using assms(1,2) by (simp_all add: job_inv_def)
  have "event_of new (job_event new t now)"
    using past_event_new [OF assms(3) r] by (simp add: event_of_job_event)
  moreover have "new \<in> set (db_jobs (replace_row old new db))"
    unfolding set_replace_row [OF u assms(2)] by simp
  moreover have "unique_by (\<lambda>e. (oe_owner_id e, oe_idempotency_key e))
      (db_outbox db @ [job_event new t now])"
    using assms(1) c(3) by (auto simp: job_inv_def unique_by_def job_event_def)
  ultimately show ?thesis
    using replace_row_jobs(1-3) [OF assms(1-3) c(1)] events_survive [OF assms(1-3)] assms(1)
    unfolding job_inv_def c(2) by (auto simp del: set_map)
qed

lemma heartbeat_inv:
  assumes "job_inv db" "old \<in> set (db_jobs db)" "row_change now old new None"
    and "update_job db_now db old new = Inr db'"
  shows "job_inv db'"
proof -
  have le: "j_updated_at old \<le> now"
    using update_job_monotone [OF assms(4)] row_change_frame [OF assms(3)] by simp
  have "db' = replace_row old new db" using assms(4) by (auto simp: update_job_def result_simps)
  then show ?thesis
    using replace_row_jobs(1-3) [OF assms(1-3) le] events_survive [OF assms(1-3)] assms(1)
    unfolding job_inv_def by (auto simp del: set_map)
qed

section \<open>Steps of the database\<close>

inductive job_step :: "instant \<Rightarrow> job_db \<Rightarrow> job_db \<Rightarrow> bool" for now :: instant where
  insert_row: "check_enqueue_command c = Inr () \<Longrightarrow> safe_key key
    \<Longrightarrow> j = new_job (db_next_id db) owner c key now
    \<Longrightarrow> insert_job db j = Inr db1 \<Longrightarrow> status_event db1 j ''background_job.queued'' now = Inr db'
    \<Longrightarrow> job_step now db db'"
| move_row: "old \<in> set (db_jobs db) \<Longrightarrow> row_change now old new (Some t)
    \<Longrightarrow> change_state db_now db old new t now = Inr (db', current) \<Longrightarrow> job_step now db db'"
| beat_row: "old \<in> set (db_jobs db) \<Longrightarrow> row_change now old new None
    \<Longrightarrow> update_job db_now db old new = Inr db' \<Longrightarrow> job_step now db db'"

inductive_cases job_stepE: "job_step now db db'"

lemma insert_row_inv:
  assumes "job_inv db" "check_enqueue_command c = Inr ()" "safe_key key"
    and j: "j = new_job (db_next_id db) owner c key now"
    and "insert_job db j = Inr db1" "status_event db1 j ''background_job.queued'' now = Inr db'"
  shows "job_inv db'"
    and "db' = db\<lparr>db_jobs := db_jobs db @ [j], db_next_id := db_next_id db + 1,
               db_outbox := db_outbox db @ [job_event j ''background_job.queued'' now]\<rparr>"
proof -
  let ?t = "''background_job.queued''"
  have db1: "db1 = db\<lparr>db_jobs := db_jobs db @ [j], db_next_id := db_next_id db + 1\<rparr>"
      "job_valid j" "check_constraints (job_constraints j) = Inr ()"
      "\<forall>k \<in> set (db_jobs db). \<not> (j_owner_id k = j_owner_id j
         \<and> j_idempotency_key k = j_idempotency_key j)"
    using assms(5) by (auto simp: insert_job_def result_simps validate_background_job_iff)
  then have row: "row_inv j" using j constraints_key_fields
    by (simp add: row_inv_def new_job_def)
  have id: "j_id j = db_next_id db" and a: "j_attempt_count j = 0"
    using j by (simp_all add: new_job_def)
  have ev: "event_of j (job_event j ?t now)"
    by (rule event_of_job_event) (simp add: past_event_def STATUS_EVENTS_def a)
  show db': "db' = db\<lparr>db_jobs := db_jobs db @ [j], db_next_id := db_next_id db + 1,
      db_outbox := db_outbox db @ [job_event j ?t now]\<rparr>"
    using status_event_Inr [OF assms(6)] db1(1) by simp
  have "unique_by (\<lambda>e. (oe_owner_id e, oe_idempotency_key e)) (db_outbox db @ [job_event j ?t now])"
    using assms(1) status_event_Inr [OF assms(6)] db1(1)
    by (auto simp: job_inv_def unique_by_def job_event_def)
  then show "job_inv db'"
    using assms(1) db1(4) row ev id unfolding db'
    by (fastforce simp: job_inv_def unique_by_def)
qed

lemma job_step_inv: "job_step now db db' \<Longrightarrow> job_inv db \<Longrightarrow> job_inv db'"
  by (erule job_stepE) (auto intro: insert_row_inv change_state_inv heartbeat_inv)

lemma job_steps_inv: "(job_step now)\<^sup>*\<^sup>* db db' \<Longrightarrow> job_inv db \<Longrightarrow> job_inv db'"
  by (induction rule: rtranclp_induct) (auto intro: job_step_inv)

section \<open>The operations are sequences of steps\<close>

lemma running_job_Inr:
  "running_job db i w now = Inr j \<Longrightarrow>
     j \<in> set (db_jobs db) \<and> j_id j = i \<and> j_state j = Running \<and> j_lease_owner j = Some w
     \<and> (\<exists>e. j_lease_expires_at j = Some e \<and> now < e)"
  by (auto simp: running_job_def find_job_def split: option.splits if_splits dest: find_in_set)

lemma repo_now_Inr: "repo_now clock = Inr now \<longleftrightarrow> aware clock \<and> now = instant_of clock"
  by (auto simp: repo_now_def)

lemma retry_details_valid:
  assumes "check_job_failure f = Inr ()" "0 \<le> a" "a \<le> 100"
  shows "validate_error_details_v1 (retry_details a f)"
  using assms by (auto simp: valid_details retry_details_def check_job_failure_def result_simps
      split: option.splits)

lemma retry_delay_nonneg: "check_job_failure f = Inr () \<Longrightarrow> 0 \<le> retry_delay a f"
  by (auto simp: retry_delay_def check_job_failure_def result_simps split: option.splits)

lemma claim_steps:
  assumes "check_claim_command c = Inr ()" "claim db_now db clock locked c = Inr (db', r)"
  shows "(job_step (instant_of clock))\<^sup>*\<^sup>* db db'"
proof (cases "first_min claim_order
    (filter (\<lambda>j. claimable (instant_of clock) (cl_kinds c) j \<and> j_id j \<notin> set locked) (db_jobs db))")
  case None
  with assms(2) show ?thesis by (auto simp: claim_def result_simps repo_now_Inr)
next
  case (Some j)
  let ?now = "instant_of clock"
  let ?new = "claim_row ?now (cl_worker_id c) (cl_lease_seconds c) j"
  have j: "j \<in> set (db_jobs db)" "claimable ?now (cl_kinds c) j"
    using first_min_Some(1) [OF Some] by auto
  then have "row_change ?now j ?new (Some ''background_job.running'')"
    using assms(1)
    by (intro row_change.claimed) (auto simp: claimable_def check_claim_command_def result_simps)
  moreover obtain current where "change_state db_now db j ?new ''background_job.running'' ?now
      = Inr (db', current)"
    using assms(2) Some by (auto simp: claim_def result_simps repo_now_Inr)
  ultimately show ?thesis using j(1) by (blast intro: job_step.move_row)
qed

lemma retry_steps:
  assumes "job_inv db" "check_retry_command c = Inr ()"
    and "retry db_now db clock i c = Inr (db', r)"
  shows "(job_step (instant_of clock))\<^sup>*\<^sup>* db db'"
proof -
  let ?now = "instant_of clock"
  let ?f = "rc_failure c"
  obtain j d where j: "running_job db i (rc_worker_id c) ?now = Inr j"
      "retry_disposition (j_attempt_count j) (j_max_attempts j) (jf_category ?f) = Inr d"
    using assms(3) by (auto simp: retry_def result_simps repo_now_Inr Let_def)
  let ?d = "retry_details (j_attempt_count j) ?f"
  have run: "j \<in> set (db_jobs db)" "j_state j = Running"
    using running_job_Inr [OF j(1)] by auto
  have f: "check_job_failure ?f = Inr ()"
    using assms(2) by (auto simp: check_retry_command_def result_simps)
  have v: "validate_error_details_v1 ?d"
    using j(2) by (intro retry_details_valid [OF f])
      (auto simp: retry_disposition_def split: if_splits)
  show ?thesis
  proof (cases d)
    case Retry_wait
    have "row_change ?now j
        (requeue_row ?now (?now + td_seconds (retry_delay (j_attempt_count j) ?f))
          (jf_category ?f) ?d j) (Some ''background_job.retry_wait'')"
      using j(2) run v Retry_wait retry_delay_nonneg [OF f, of "j_attempt_count j"]
      by (intro row_change.requeued)
        (auto simp: retry_disposition_def duration_defs split: if_splits)
    moreover obtain current where "change_state db_now db j
        (requeue_row ?now (?now + td_seconds (retry_delay (j_attempt_count j) ?f))
          (jf_category ?f) ?d j) ''background_job.retry_wait'' ?now = Inr (db', current)"
      using assms(3) j Retry_wait by (auto simp: retry_def result_simps repo_now_Inr Let_def)
    ultimately show ?thesis using run(1) by (blast intro: job_step.move_row)
  next
    case Needs_attention
    have "row_change ?now j (fail_row ?now (jf_category ?f) ?d j)
        (Some ''background_job.needs_attention'')"
      using j(2) run v by (intro row_change.failed)
        (auto simp: retry_disposition_def split: if_splits)
    moreover obtain current where "change_state db_now db j (fail_row ?now (jf_category ?f) ?d j)
        ''background_job.needs_attention'' ?now = Inr (db', current)"
      using assms(3) j Needs_attention by (auto simp: retry_def result_simps repo_now_Inr Let_def)
    ultimately show ?thesis using run(1) by (blast intro: job_step.move_row)
  qed
qed

lemma heartbeat_steps:
  assumes "check_heartbeat_command c = Inr ()"
    and "job_heartbeat db_now db clock i c = Inr (db', r)"
  shows "(job_step (instant_of clock))\<^sup>*\<^sup>* db db'"
proof -
  let ?now = "instant_of clock"
  obtain j where j: "running_job db i (hb_worker_id c) ?now = Inr j"
    using assms(2) by (auto simp: job_heartbeat_def result_simps repo_now_Inr Let_def)
  obtain e where e: "j \<in> set (db_jobs db)" "j_state j = Running" "j_lease_expires_at j = Some e"
    using running_job_Inr [OF j] by auto
  have "row_change ?now j (heartbeat_row ?now (max ?now e + td_seconds (hb_lease_seconds c)) j) None"
    using e assms(1) by (intro row_change.extended)
      (auto simp: check_heartbeat_command_def result_simps)
  moreover have "update_job db_now db j
      (heartbeat_row ?now (max ?now e + td_seconds (hb_lease_seconds c)) j) = Inr db'"
    using assms(2) j e by (auto simp: job_heartbeat_def result_simps repo_now_Inr Let_def)
  ultimately show ?thesis using e(1) by (blast intro: job_step.beat_row)
qed

lemma complete_steps:
  assumes "complete db_now db clock i w = Inr (db', r)"
  shows "(job_step (instant_of clock))\<^sup>*\<^sup>* db db'"
proof -
  let ?now = "instant_of clock"
  obtain j where j: "running_job db i w ?now = Inr j"
      "change_state db_now db j (complete_row ?now j) ''background_job.succeeded'' ?now
         = Inr (db', r)"
    using assms by (auto simp: complete_def result_simps repo_now_Inr)
  from running_job_Inr [OF j(1)] have "j \<in> set (db_jobs db)" "j_state j = Running" by auto
  with j(2) show ?thesis by (blast intro: job_step.move_row row_change.succeeded)
qed

lemma cancel_steps:
  assumes "cancel db_now db clock owner i = Inr (db', r)"
  shows "(job_step (instant_of clock))\<^sup>*\<^sup>* db db'"
proof -
  let ?now = "instant_of clock"
  obtain j where f: "find (\<lambda>j. j_owner_id j = owner \<and> j_id j = i) (db_jobs db) = Some j"
    using assms by (auto simp: cancel_def result_simps repo_now_Inr split: option.splits)
  show ?thesis
  proof (cases "j_state j = Canceled")
    case True
    with assms f show ?thesis by (auto simp: cancel_def result_simps)
  next
    case False
    then have "\<not> terminal (j_state j)"
        "change_state db_now db j (cancel_row ?now j) ''background_job.canceled'' ?now = Inr (db', r)"
      using assms f by (auto simp: cancel_def result_simps repo_now_Inr terminal_def
          split: if_splits)
    with find_in_set [OF f] show ?thesis by (blast intro: job_step.move_row row_change.canceled)
  qed
qed

lemma enqueue_cases:
  assumes "enqueue db clock owner c key = Inr (db', j, replayed)"
  obtains
    (replay) "replayed" "db' = db" "same_enqueue j c"
      "find (\<lambda>j. j_owner_id j = owner \<and> j_idempotency_key j = key) (db_jobs db) = Some j"
  | (fresh) db1 where "\<not> replayed" "owner \<in> set (db_owners db)"
      "find (\<lambda>j. j_owner_id j = owner \<and> j_idempotency_key j = key) (db_jobs db) = None"
      "j = new_job (db_next_id db) owner c key (instant_of clock)"
      "insert_job db j = Inr db1"
      "status_event db1 j ''background_job.queued'' (instant_of clock) = Inr db'"
  using assms
  by (auto simp: enqueue_def result_simps repo_now_Inr Let_def split: option.splits if_splits)

lemma enqueue_steps:
  assumes "check_enqueue_command c = Inr ()" "safe_key key"
    and "enqueue db clock owner c key = Inr (db', j, replayed)"
  shows "(job_step (instant_of clock))\<^sup>*\<^sup>* db db'"
  using assms(3)
proof (cases rule: enqueue_cases)
  case replay
  then show ?thesis by simp
next
  case (fresh db1)
  with assms(1,2) show ?thesis by (blast intro: job_step.insert_row)
qed

text \<open>A reclaimed job: what the loop writes for it, and that the later ones are still there.\<close>

lemma reclaim_one_move:
  assumes "row_inv j" "j_state j = Running" "reclaim_one db_now now db j = Inr (db', d)"
  obtains new t current where "row_change now j new (Some t)"
    "change_state db_now db j new t now = Inr (db', current)"
proof -
  let ?d = "\<lparr>ed_schema_version = 1, ed_attempt = Some (j_attempt_count j),
    ed_retry_after_seconds = None, ed_http_status = None\<rparr>"
  have v: "validate_error_details_v1 ?d"
    using assms(1) by (auto simp: valid_details row_inv_def job_valid_def)
  show ?thesis
  proof (cases "j_attempt_count j < j_max_attempts j")
    case True
    have "row_change now j (requeue_row now now ''transient_dependency'' ?d j)
        (Some ''background_job.retry_wait'')"
      using True assms(2) v by (intro row_change.requeued) (auto simp: RETRYABLE_CATEGORIES_def)
    with True assms(3) that show ?thesis by (auto simp: reclaim_one_def result_simps Let_def)
  next
    case False
    have "row_change now j (fail_row now ''processing_failure'' ?d j)
        (Some ''background_job.needs_attention'')"
      using assms(2) v by (intro row_change.failed) (auto simp: ERROR_CATEGORIES_def)
    with False assms(3) that show ?thesis by (auto simp: reclaim_one_def result_simps Let_def)
  qed
qed

lemma change_state_others:
  assumes "job_inv db" "old \<in> set (db_jobs db)" "row_change now old new (Some t)"
    and "change_state db_now db old new t now = Inr (db', current)"
    and "k \<in> set (db_jobs db)" "j_id k \<noteq> j_id old"
  shows "k \<in> set (db_jobs db')"
  using change_state_Inr [OF assms(1-4)] assms(5,6) by auto

lemma reclaim_loop_steps:
  "reclaim_loop db_now now db js = Inr (db', r) \<Longrightarrow> job_inv db \<Longrightarrow> set js \<subseteq> set (db_jobs db)
   \<Longrightarrow> unique_by j_id js \<Longrightarrow> \<forall>j \<in> set js. j_state j = Running
   \<Longrightarrow> (job_step now)\<^sup>*\<^sup>* db db'"
proof (induction js arbitrary: db r)
  case Nil
  then show ?case by simp
next
  case (Cons j js)
  obtain db1 d where one: "reclaim_one db_now now db j = Inr (db1, d)"
    using Cons.prems(1) by (auto simp: result_simps)
  obtain r1 where rest: "reclaim_loop db_now now db1 js = Inr (db', r1)"
    using Cons.prems(1) one by (cases d) (auto simp: result_simps)
  have j: "j \<in> set (db_jobs db)" "row_inv j" "j_state j = Running"
    using Cons.prems(2,3,5) by (auto simp: job_inv_def)
  obtain new t current where m: "row_change now j new (Some t)"
      "change_state db_now db j new t now = Inr (db1, current)"
    using reclaim_one_move [OF j(2,3) one] by metis
  have step: "job_step now db db1" using j(1) m by (rule job_step.move_row)
  have "set js \<subseteq> set (db_jobs db1)"
  proof
    fix k assume "k \<in> set js"
    then have "k \<in> set (db_jobs db)" "j_id k \<noteq> j_id j"
      using Cons.prems(3,4) by (auto simp: unique_by_def) (metis imageI)
    then show "k \<in> set (db_jobs db1)" by (rule change_state_others [OF Cons.prems(2) j(1) m])
  qed
  then have "(job_step now)\<^sup>*\<^sup>* db1 db'"
    using Cons.prems(4,5) job_step_inv [OF step Cons.prems(2)]
    by (intro Cons.IH [OF rest]) (auto simp: unique_by_def)
  with step show ?case by (rule converse_rtranclp_into_rtranclp)
qed

lemma expired_jobs_props:
  assumes "unique_by j_id (db_jobs db)"
  shows "set (expired_jobs db now locked limit) \<subseteq> {j \<in> set (db_jobs db). lease_expired now j}"
    and "unique_by j_id (expired_jobs db now locked limit)"
proof -
  show "set (expired_jobs db now locked limit) \<subseteq> {j \<in> set (db_jobs db). lease_expired now j}"
    using set_take_subset by (fastforce simp: expired_jobs_def)
  have "inj_on j_id (set (db_jobs db))" "distinct (db_jobs db)"
    using assms by (auto simp: unique_by_def distinct_map)
  then show "unique_by j_id (expired_jobs db now locked limit)"
    unfolding unique_by_def expired_jobs_def
    by (auto simp: distinct_map distinct_take intro!: inj_on_subset [of j_id "set (db_jobs db)"]
        dest: in_set_takeD)
qed

lemma reclaim_steps:
  assumes "job_inv db" "reclaim_expired db_now db clock locked limit = Inr (db', r)"
  shows "(job_step (instant_of clock))\<^sup>*\<^sup>* db db'"
proof -
  have u: "unique_by j_id (db_jobs db)" using assms(1) by (simp add: job_inv_def)
  let ?js = "expired_jobs db (instant_of clock) locked limit"
  have js: "set ?js \<subseteq> {j \<in> set (db_jobs db). lease_expired (instant_of clock) j}" "unique_by j_id ?js"
    using expired_jobs_props [OF u] by blast+
  from assms(2) have "reclaim_loop db_now (instant_of clock) db ?js = Inr (db', r)"
    by (auto simp: reclaim_expired_def result_simps repo_now_Inr)
  then show ?thesis
    by (rule reclaim_loop_steps) (use assms(1) js in \<open>auto simp: lease_expired_def\<close>)
qed

lemma exec_job_steps:
  assumes "job_inv db" "exec_job db (db_now, clock, cmd) = Inr db'"
  shows "(job_step (instant_of clock))\<^sup>*\<^sup>* db db'"
  using assms
  by (cases cmd)
    (auto simp: result_simps service_enqueue_def service_cancel_def service_reclaim_def
      split: if_splits
      intro: enqueue_steps claim_steps heartbeat_steps complete_steps retry_steps cancel_steps
        reclaim_steps)

lemma exec_job_inv: "job_inv db \<Longrightarrow> exec_job db c = Inr db' \<Longrightarrow> job_inv db'"
  by (cases c) (auto intro: job_steps_inv exec_job_steps)

interpretation queue: guarded_system exec_job job_inv
  by unfold_locales (rule exec_job_inv)

end
