(* ===== verification/Job_Properties.thy ===== *)
theory Job_Properties
  imports Job_Safety
begin

text \<open>
  The guarantees of the durable queue, stated over its commands: rows stay valid, history is only
  extended, claims follow the published order, a lease is exclusive, enqueueing is idempotent,
  attempts are bounded, expired leases are recovered, and the database never has to refuse a write.
\<close>

section \<open>History is only extended\<close>

definition empty_db :: "int list \<Rightarrow> job_db" where
  "empty_db owners = \<lparr>db_owners = owners, db_jobs = [], db_next_id = 1, db_outbox = []\<rparr>"

lemma empty_db_inv: "job_inv (empty_db owners)"
  by (simp add: job_inv_def empty_db_def unique_by_def)

definition row_extends :: "background_job \<Rightarrow> background_job \<Rightarrow> bool" where
  "row_extends j k \<longleftrightarrow>
     j_id k = j_id j \<and> provenance k = provenance j \<and> j_attempt_count j \<le> j_attempt_count k
     \<and> j_priority k = j_priority j \<and> j_updated_at j \<le> j_updated_at k
     \<and> (terminal (j_state j) \<longrightarrow> k = j)"

definition db_extends :: "job_db \<Rightarrow> job_db \<Rightarrow> bool" where
  "db_extends a b \<longleftrightarrow>
     db_owners b = db_owners a \<and> prefix (db_outbox a) (db_outbox b)
     \<and> (\<forall>j \<in> set (db_jobs a). \<exists>k \<in> set (db_jobs b). row_extends j k)"

lemma row_extends_refl: "row_extends j j"
  by (simp add: row_extends_def)

lemma row_extends_trans: "row_extends j k \<Longrightarrow> row_extends k l \<Longrightarrow> row_extends j l"
  by (auto simp: row_extends_def)

lemma db_extends_refl: "db_extends a a"
  by (auto simp: db_extends_def intro: row_extends_refl)

lemma db_extends_trans: "db_extends a b \<Longrightarrow> db_extends b c \<Longrightarrow> db_extends a c"
  unfolding db_extends_def by (metis prefix_order.trans row_extends_trans)

lemma row_change_extends:
  assumes "row_change now old new ev" "j_updated_at old \<le> now"
  shows "row_extends old new"
proof -
  have "j_attempt_count old \<le> j_attempt_count new" using assms(1) by cases (auto simp: row_defs)
  with row_change_frame [OF assms(1)] assms(2) show ?thesis by (auto simp: row_extends_def)
qed

lemma replace_row_extends:
  assumes "unique_by j_id (db_jobs db)" "old \<in> set (db_jobs db)" "row_extends old new"
  shows "\<forall>j \<in> set (db_jobs db). \<exists>k \<in> set (db_jobs (replace_row old new db)). row_extends j k"
  unfolding set_replace_row [OF assms(1,2)] using assms(3) by (auto intro: row_extends_refl)

lemma job_step_extends:
  assumes "job_step now db db'" "job_inv db"
  shows "db_extends db db'"
  using assms(1)
proof cases
  case (insert_row c key j owner db1)
  from insert_row_inv(2) [OF assms(2) this] show ?thesis
    by (auto simp: db_extends_def intro: row_extends_refl)
next
  case 2: (move_row old new t db_now current)
  have c: "j_updated_at old \<le> now"
      "db' = (replace_row old new db)\<lparr>db_outbox := db_outbox db @ [job_event new t now]\<rparr>"
    using change_state_Inr [OF assms(2) 2] by auto
  show ?thesis
    using replace_row_extends [OF _ 2(1) row_change_extends [OF 2(2) c(1)]] assms(2)
    by (simp add: db_extends_def c(2) job_inv_def)
next
  case 3: (beat_row old new db_now)
  then have "j_updated_at old \<le> now" "db' = replace_row old new db"
    using update_job_monotone [OF 3(3)] row_change_frame [OF 3(2)]
    by (auto simp: update_job_def result_simps)
  with replace_row_extends [OF _ 3(1) row_change_extends [OF 3(2)]] assms(2) show ?thesis
    by (simp add: db_extends_def job_inv_def)
qed

lemma job_steps_extends: "(job_step now)\<^sup>*\<^sup>* db db' \<Longrightarrow> job_inv db \<Longrightarrow> db_extends db db'"
proof (induction rule: rtranclp_induct)
  case base
  show ?case by (rule db_extends_refl)
next
  case (step b c)
  then have "db_extends b c" using job_step_extends job_steps_inv by blast
  with step show ?case using db_extends_trans by blast
qed

lemma exec_job_extends: "job_inv db \<Longrightarrow> exec_job db c = Inr db' \<Longrightarrow> db_extends db db'"
  by (cases c) (auto intro: job_steps_extends exec_job_steps)

interpretation history: growing_system exec_job job_inv db_extends
  by unfold_locales (auto intro: db_extends_refl db_extends_trans exec_job_extends)

text \<open>
  C6. However the queue is used, with any clocks and any interleaving of commands, every stored
  row passes the ORM validator and every constraint of the table, ids and idempotency keys are
  unique, and no two outbox events of an owner share an idempotency key.
\<close>

theorem queue_rows_stay_valid:
  "let db = run_commands exec_job (empty_db owners) cs in
     list_all (\<lambda>j. validate_background_job j = Inr ()
                 \<and> check_constraints (job_constraints j) = Inr ()) (db_jobs db)
     \<and> distinct (map j_id (db_jobs db))
     \<and> distinct (map (\<lambda>j. (j_owner_id j, j_idempotency_key j)) (db_jobs db))
     \<and> distinct (map (\<lambda>e. (oe_owner_id e, oe_idempotency_key e)) (db_outbox db))"
  using queue.run_inv [OF empty_db_inv, of owners cs]
  by (auto simp: job_inv_def unique_by_def list_all_iff row_inv_def validate_background_job_iff
      job_valid_constraints Let_def)

text \<open>
  C22. The queue's history is only ever extended: after any further commands the outbox still
  starts with the events it had, every row is still there with the same owner, kind, payload, key
  and attempt limit, its attempt count has not dropped, and a row that was succeeded, failed or
  canceled is exactly as it was.
\<close>

theorem queue_history_is_kept:
  "let a = run_commands exec_job (empty_db owners) cs;
       b = run_commands exec_job (empty_db owners) (cs @ ds)
   in prefix (db_outbox a) (db_outbox b)
      \<and> list_all (\<lambda>j. list_ex (\<lambda>k. j_id k = j_id j \<and> provenance k = provenance j
                     \<and> j_attempt_count j \<le> j_attempt_count k
                     \<and> (if terminal (j_state j) then k = j else True)) (db_jobs b)) (db_jobs a)"
  using history.run_extends [OF queue.run_inv [OF empty_db_inv], of owners cs ds]
  by (fastforce simp: db_extends_def row_extends_def list_all_iff list_ex_iff run_commands_append
      Let_def)

section \<open>Claims\<close>

definition to_candidate :: "background_job \<Rightarrow> claim_candidate" where
  "to_candidate j = \<lparr>cc_id = j_id j, cc_priority = j_priority j, cc_available_at = j_available_at j\<rparr>"

lemma candidate_key_of_job: "candidate_key (to_candidate j) = claim_order j"
  by (simp add: candidate_key_def to_candidate_def claim_order_def)

lemma claim_cases:
  assumes "job_inv db" "check_claim_command c = Inr ()"
    and "claim db_now db clock locked c = Inr (db', r)"
  obtains
    (idle) "r = None" "db' = db"
      "filter (\<lambda>j. claimable (instant_of clock) (cl_kinds c) j \<and> j_id j \<notin> set locked)
         (db_jobs db) = []"
  | (taken) j where "r = Some (claim_row (instant_of clock) (cl_worker_id c) (cl_lease_seconds c) j)"
      "first_min claim_order (filter (\<lambda>j. claimable (instant_of clock) (cl_kinds c) j
         \<and> j_id j \<notin> set locked) (db_jobs db)) = Some j"
      "db_jobs db' = map (\<lambda>k. if j_id k = j_id j
         then claim_row (instant_of clock) (cl_worker_id c) (cl_lease_seconds c) j else k) (db_jobs db)"
proof (cases "first_min claim_order
    (filter (\<lambda>j. claimable (instant_of clock) (cl_kinds c) j \<and> j_id j \<notin> set locked) (db_jobs db))")
  case None
  with assms(3) idle show ?thesis
    by (auto simp: claim_def result_simps repo_now_Inr first_min_None_iff)
next
  case (Some j)
  let ?now = "instant_of clock"
  let ?new = "claim_row ?now (cl_worker_id c) (cl_lease_seconds c) j"
  have j: "j \<in> set (db_jobs db)" "claimable ?now (cl_kinds c) j"
    using first_min_Some(1) [OF Some] by auto
  have rc: "row_change ?now j ?new (Some ''background_job.running'')"
    using assms(2) j(2)
    by (intro row_change.claimed) (auto simp: claimable_def check_claim_command_def result_simps)
  obtain current where cs: "change_state db_now db j ?new ''background_job.running'' ?now
      = Inr (db', current)" "r = Some current"
    using assms(3) Some by (auto simp: claim_def result_simps repo_now_Inr)
  with change_state_Inr [OF assms(1) j(1) rc cs(1)] Some taken show ?thesis by auto
qed

text \<open>
  C9. A claim serves the queue in the published order. If it returns nothing, no unlocked job is
  claimable. Otherwise the job was queued, due, of a requested kind, with attempts left and not
  locked, it comes first in the pure policy's order of all such jobs (highest priority, then
  earliest availability, then lowest id), and it is now running with one more attempt under a
  lease of the requested length held by the claiming worker.
\<close>

theorem claim_takes_first_in_order:
  assumes "db = run_commands exec_job (empty_db owners) cs"
    and "check_claim_command c = Inr ()"
    and "claim db_now db clock locked c = Inr (db', r)"
  shows "let now = instant_of clock;
             eligible = filter (\<lambda>j. claimable now (cl_kinds c) j \<and> j_id j \<notin> set locked) (db_jobs db)
         in case r of
              None \<Rightarrow> eligible = [] \<and> db' = db
            | Some k \<Rightarrow> \<exists>j \<in> set eligible.
                hd (order_claim_candidates (map to_candidate eligible)) = to_candidate j
                \<and> k = claim_row now (cl_worker_id c) (cl_lease_seconds c) j
                \<and> find_job db' (j_id j) = Some k"
proof -
  let ?now = "instant_of clock"
  let ?el = "filter (\<lambda>j. claimable ?now (cl_kinds c) j \<and> j_id j \<notin> set locked) (db_jobs db)"
  have inv: "job_inv db" using assms(1) queue.run_inv [OF empty_db_inv] by simp
  have inv': "job_inv db'"
    using job_steps_inv [OF claim_steps [OF assms(2,3)] inv] .
  from inv assms(2,3) show ?thesis
  proof (cases rule: claim_cases)
    case idle
    then show ?thesis by simp
  next
    case (taken j)
    have j: "j \<in> set ?el" using first_min_Some(1) [OF taken(2)] .
    then obtain rest where "sort_key claim_order ?el = j # rest"
      using taken(2) by (auto simp: first_min_def split: list.splits)
    moreover have "order_claim_candidates (map to_candidate ?el)
        = map to_candidate (sort_key claim_order ?el)"
      unfolding order_claim_candidates_def
      by (simp add: sort_key_map candidate_key_of_job)
    ultimately have "hd (order_claim_candidates (map to_candidate ?el)) = to_candidate j" by simp
    moreover have "claim_row ?now (cl_worker_id c) (cl_lease_seconds c) j \<in> set (db_jobs db')"
      using j taken(3) by auto
    then have "find_job db' (j_id j) = Some (claim_row ?now (cl_worker_id c) (cl_lease_seconds c) j)"
      using find_job_unique [of db'] inv' by (fastforce simp: job_inv_def row_defs)
    ultimately show ?thesis using j taken(1) by (auto simp: Let_def)
  qed
qed

section \<open>A concrete queue\<close>

text \<open>Two jobs of one owner; the second has the higher priority and is claimed by a worker.\<close>

definition sample_enqueue :: "int \<Rightarrow> enqueue_command" where
  "sample_enqueue prio = \<lparr>ec_kind = ''transcribe'',
     ec_payload = \<lparr>rp_schema_version = 1, rp_subject_id = 42, rp_related_id = None\<rparr>,
     ec_priority = prio, ec_available_at = Aware 0 0, ec_max_attempts = 3\<rparr>"

definition sample_claim :: claim_command where
  "sample_claim = \<lparr>cl_worker_id = ''worker-a'', cl_kinds = [''transcribe''], cl_lease_seconds = 60\<rparr>"

definition sample_queued :: "timed_command list" where
  "sample_queued =
     [(0, Aware 0 0, Enqueue 1 (sample_enqueue 10) ''low''),
      (0, Aware 1000 0, Enqueue 1 (sample_enqueue 90) ''high'')]"

definition sample_running :: "timed_command list" where
  "sample_running = sample_queued @ [(0, Aware 2000 0, Claim [] sample_claim)]"

abbreviation queued_db :: job_db where
  "queued_db \<equiv> run_commands exec_job (empty_db [1]) sample_queued"

abbreviation running_db :: job_db where
  "running_db \<equiv> run_commands exec_job (empty_db [1]) sample_running"

theorem claim_takes_first_in_order_witness:
  "\<exists>db' k. claim 0 queued_db (Aware 2000 0) [] sample_claim = Inr (db', Some k)
     \<and> find_job db' 2 = Some k"
proof -
  have c: "check_claim_command sample_claim = Inr ()" by code_simp
  have "case claim 0 queued_db (Aware 2000 0) [] sample_claim of
      Inr (db', Some k) \<Rightarrow> True | _ \<Rightarrow> False" by code_simp
  then obtain db' k where k: "claim 0 queued_db (Aware 2000 0) [] sample_claim = Inr (db', Some k)"
    by (auto split: sum.splits prod.splits option.splits)
  have h: "cc_id (hd (order_claim_candidates (map to_candidate
      (filter (\<lambda>j. claimable (instant_of (Aware 2000 0)) (cl_kinds sample_claim) j
         \<and> j_id j \<notin> set []) (db_jobs queued_db))))) = 2" by code_simp
  from claim_takes_first_in_order [OF refl c k] h have "find_job db' 2 = Some k"
    by (auto simp: Let_def to_candidate_def)
  with k show ?thesis by blast
qed

section \<open>Leases\<close>

lemma reclaim_loop_others:
  "reclaim_loop db_now now db js = Inr (db', r) \<Longrightarrow> job_inv db \<Longrightarrow> set js \<subseteq> set (db_jobs db)
   \<Longrightarrow> unique_by j_id js \<Longrightarrow> \<forall>j \<in> set js. j_state j = Running
   \<Longrightarrow> k \<in> set (db_jobs db) \<Longrightarrow> k \<notin> set js \<Longrightarrow> k \<in> set (db_jobs db')"
proof (induction js arbitrary: db r)
  case Nil
  then show ?case by simp
next
  case (Cons j js)
  obtain db1 d where one: "reclaim_one db_now now db j = Inr (db1, d)"
    using Cons.prems(1) by (auto simp: result_simps)
  obtain r1 where rest: "reclaim_loop db_now now db1 js = Inr (db', r1)"
    using Cons.prems(1) one by (cases d) (auto simp: result_simps)
  have j: "j \<in> set (db_jobs db)" "row_inv j" "j_state j = Running"
    using Cons.prems(2,3,5) by (auto simp: job_inv_def)
  obtain new t current where m: "row_change now j new (Some t)"
      "change_state db_now db j new t now = Inr (db1, current)"
    using reclaim_one_move [OF j(2,3) one] by metis
  have u: "unique_by j_id (db_jobs db)" using Cons.prems(2) by (simp add: job_inv_def)
  have keep: "i \<in> set (db_jobs db1)" if "i \<in> set (db_jobs db)" "i \<noteq> j" for i
    using that change_state_others [OF Cons.prems(2) j(1) m] unique_byD [OF u that(1) j(1)] by blast
  have "j \<notin> set js" using Cons.prems(4) by (auto simp: unique_by_def)
  then have "set js \<subseteq> set (db_jobs db1)" using keep Cons.prems(3) by auto
  moreover have "job_inv db1" by (rule change_state_inv [OF Cons.prems(2) j(1) m])
  ultimately show ?case
    using Cons.IH [OF rest] Cons.prems(4-7) keep by (auto simp: unique_by_def)
qed

fun worker_of :: "job_command \<Rightarrow> string option" where
  "worker_of (Heartbeat i c) = Some (hb_worker_id c)"
| "worker_of (Complete i w) = Some w"
| "worker_of (Retry i c) = Some (rc_worker_id c)"
| "worker_of _ = None"

fun cancels :: "job_command \<Rightarrow> int \<Rightarrow> bool" where
  "cancels (Cancel owner i) k \<longleftrightarrow> i = k"
| "cancels _ k \<longleftrightarrow> False"

definition foreign_command :: "background_job \<Rightarrow> timed_command \<Rightarrow> bool" where
  "foreign_command j c \<longleftrightarrow>
     (case j_lease_expires_at j of None \<Rightarrow> False | Some e \<Rightarrow> instant_of (fst (snd c)) < e)
     \<and> worker_of (snd (snd c)) \<noteq> j_lease_owner j \<and> \<not> cancels (snd (snd c)) (j_id j)"

lemma foreign_row:
  assumes "unique_by j_id (db_jobs db)" "j \<in> set (db_jobs db)" "j_state j = Running"
    "running_job db i w now = Inr k" "Some w \<noteq> j_lease_owner j"
  shows "j_id j \<noteq> j_id k"
proof
  assume "j_id j = j_id k"
  with unique_byD [OF assms(1,2), of k] running_job_Inr [OF assms(4)] have "j = k" by simp
  with running_job_Inr [OF assms(4)] assms(5) show False by simp
qed

lemma foreign_change:
  assumes "job_inv db" "j \<in> set (db_jobs db)" "k \<in> set (db_jobs db)" "j_id j \<noteq> j_id k"
    and "change_state db_now db k new t now = Inr (db', current)"
  shows "j \<in> set (db_jobs db')"
proof -
  obtain db1 where "update_job db_now db k new = Inr db1" "db_jobs db' = db_jobs db1"
    using assms(5) by (auto simp: change_state_def result_simps dest!: status_event_Inr)
  with assms(2,4) show ?thesis by (auto simp: update_job_def result_simps)
qed

lemma foreign_command_spares:
  assumes inv: "job_inv db" and j: "j \<in> set (db_jobs db)" and run: "j_state j = Running"
    and foreign: "foreign_command j (db_now, clock, cmd)"
    and ok: "exec_job db (db_now, clock, cmd) = Inr db'"
  shows "j \<in> set (db_jobs db')"
proof -
  have u: "unique_by j_id (db_jobs db)" using inv by (simp add: job_inv_def)
  note spare = foreign_change [OF inv j]
  note other = foreign_row [OF u j run]
  show ?thesis
  proof (cases cmd)
    case (Enqueue owner c key)
    with ok show ?thesis using j
      by (auto simp: result_simps service_enqueue_def insert_job_def split: if_splits
          dest!: status_event_Inr elim!: enqueue_cases)
  next
    case (Claim locked c)
    then obtain r where c: "check_claim_command c = Inr ()"
        "claim db_now db clock locked c = Inr (db', r)"
      using ok by (auto simp: result_simps)
    from inv c show ?thesis
    proof (cases rule: claim_cases)
      case (taken k)
      have "k \<in> set (db_jobs db)" "j_state k = Queued"
        using first_min_Some(1) [OF taken(2)] by (auto simp: claimable_def)
      then have "j_id j \<noteq> j_id k" using run unique_byD [OF u j] by fastforce
      with taken(3) j show ?thesis by auto
    qed (use j in simp)
  next
    case (Heartbeat i c)
    then have w: "Some (hb_worker_id c) \<noteq> j_lease_owner j" using foreign
      by (auto simp: foreign_command_def)
    from ok Heartbeat obtain k new db1 where
        k: "running_job db i (hb_worker_id c) (instant_of clock) = Inr k"
        and up: "update_job db_now db k new = Inr db'"
      by (auto simp: result_simps job_heartbeat_def repo_now_Inr Let_def)
    from other [OF k w] up j show ?thesis by (auto simp: update_job_def result_simps)
  next
    case (Complete i w)
    then have w: "Some w \<noteq> j_lease_owner j" using foreign by (auto simp: foreign_command_def)
    from ok Complete obtain k new t cur where
        k: "running_job db i w (instant_of clock) = Inr k"
        and up: "change_state db_now db k new t (instant_of clock) = Inr (db', cur)"
      by (auto simp: result_simps complete_def repo_now_Inr)
    from spare [OF _ other [OF k w] up] running_job_Inr [OF k] show ?thesis by blast
  next
    case (Retry i c)
    then have w: "Some (rc_worker_id c) \<noteq> j_lease_owner j" using foreign
      by (auto simp: foreign_command_def)
    from ok Retry obtain k new t cur where
        k: "running_job db i (rc_worker_id c) (instant_of clock) = Inr k"
        and up: "change_state db_now db k new t (instant_of clock) = Inr (db', cur)"
      by (auto simp: result_simps retry_def repo_now_Inr Let_def split: disposition.splits)
        (metis disposition.exhaust)+
    from spare [OF _ other [OF k w] up] running_job_Inr [OF k] show ?thesis by blast
  next
    case (Cancel owner i)
    then have "j_id j \<noteq> i" using foreign by (auto simp: foreign_command_def)
    then show ?thesis
      using ok Cancel j spare
      by (auto simp: result_simps service_cancel_def cancel_def split: if_splits option.splits
          dest!: find_in_set)
  next
    case (Reclaim locked limit)
    let ?js = "expired_jobs db (instant_of clock) locked limit"
    have js: "set ?js \<subseteq> {j \<in> set (db_jobs db). lease_expired (instant_of clock) j}"
        "unique_by j_id ?js"
      using expired_jobs_props [OF u] by blast+
    have sub: "set ?js \<subseteq> set (db_jobs db)" "\<forall>j \<in> set ?js. j_state j = Running"
      using js(1) by (auto simp: lease_expired_def)
    have nj: "j \<notin> set ?js"
      using js(1) foreign by (auto simp: foreign_command_def lease_expired_def split: option.splits)
    obtain r where "reclaim_loop db_now (instant_of clock) db ?js = Inr (db', r)"
      using ok Reclaim by (auto simp: result_simps service_reclaim_def reclaim_expired_def
          repo_now_Inr split: if_splits)
    from reclaim_loop_others [OF this inv sub(1) js(2) sub(2) j nj] show ?thesis .
  qed
qed

text \<open>
  C8. A lease is exclusive. While a worker's lease on a running job has not expired, no sequence
  of commands of other workers, of claims, of reclaims and of enqueues changes anything in the
  job's row; only the lease's owner or a cancellation of that very job does.
\<close>

theorem lease_is_exclusive:
  assumes "db = run_commands exec_job (empty_db owners) cs"
    and "j \<in> set (db_jobs db)" and "j_state j = Running"
    and "list_all (foreign_command j) ds"
  shows "j \<in> set (db_jobs (run_commands exec_job db ds))"
proof -
  have "job_inv db" using assms(1) queue.run_inv [OF empty_db_inv] by simp
  then show ?thesis using assms(2,4)
  proof (induction ds arbitrary: db)
    case Nil
    then show ?case by simp
  next
    case (Cons c ds)
    obtain t clock cmd where c: "c = (t, clock, cmd)" by (cases c) auto
    show ?case
    proof (cases "exec_job db c")
      case (Inl e)
      with Cons show ?thesis by simp
    next
      case (Inr db')
      have "j \<in> set (db_jobs db')"
        using Cons.prems c Inr foreign_command_spares [OF Cons.prems(1,2) assms(3), of t clock cmd]
        by simp
      with Cons.IH [of db'] Cons.prems Inr exec_job_inv [OF Cons.prems(1) Inr] show ?thesis by simp
    qed
  qed
qed

theorem lease_is_exclusive_witness:
  "\<exists>j. find_job running_db 2 = Some j \<and> j_lease_owner j = Some ''worker-a''
     \<and> j \<in> set (db_jobs (run_commands exec_job running_db
         [(0, Aware 3000 0, Complete 2 ''worker-b''), (0, Aware 60001000 0, Reclaim [] 10)]))"
proof -
  have "case find_job running_db 2 of
      Some j \<Rightarrow> j_lease_owner j = Some ''worker-a'' \<and> j_state j = Running
        \<and> list_all (foreign_command j)
            [(0, Aware 3000 0, Complete 2 ''worker-b''), (0, Aware 60001000 0, Reclaim [] 10)]
    | None \<Rightarrow> False" by code_simp
  then obtain j where j: "find_job running_db 2 = Some j" "j_lease_owner j = Some ''worker-a''"
      "j_state j = Running" "list_all (foreign_command j)
         [(0, Aware 3000 0, Complete 2 ''worker-b''), (0, Aware 60001000 0, Reclaim [] 10)]"
    by (auto split: option.splits)
  have "j \<in> set (db_jobs running_db)" using j(1) by (auto simp: find_job_def dest: find_in_set)
  from lease_is_exclusive [OF refl this j(3,4)] j(1,2) show ?thesis by blast
qed

section \<open>Enqueueing\<close>

text \<open>
  C23. A replayed enqueue never creates a second job. Once an enqueue has been accepted, the same
  command under the same key, after any other commands, finds the same row: it returns that row
  and changes nothing if the row still has the availability it was enqueued with, and is refused
  as a conflict otherwise.
\<close>

theorem enqueue_replay:
  assumes "db = run_commands exec_job (empty_db owners) cs"
    and "exec_job db (t, clock, Enqueue owner c key) = Inr db1"
    and "db2 = run_commands exec_job db1 ds" and "aware clock'"
  shows "\<exists>k \<in> set (db_jobs db2).
    j_owner_id k = owner \<and> j_idempotency_key k = key
    \<and> enqueue db2 clock' owner c key =
        (if j_available_at k = instant_of (ec_available_at c) then Inr (db2, k, True)
         else Inl (JobConflict ''Idempotency-Key was reused for another job''))"
proof -
  have inv: "job_inv db" using assms(1) queue.run_inv [OF empty_db_inv] by simp
  have inv1: "job_inv db1" using exec_job_inv [OF inv assms(2)] .
  have ext: "db_extends db1 db2" and inv2: "job_inv db2"
    using history.run_extends [OF inv1] queue.run_inv [OF inv1] assms(3) by auto
  obtain j rep where e: "enqueue db clock owner c key = Inr (db1, j, rep)"
    using assms(2) by (auto simp: result_simps service_enqueue_def split: if_splits)
  then have own: "owner \<in> set (db_owners db)"
    by (auto simp: enqueue_def result_simps split: if_splits)
  have j: "j \<in> set (db_jobs db1) \<and> j_owner_id j = owner \<and> j_idempotency_key j = key
      \<and> j_kind j = ec_kind c \<and> j_payload j = ec_payload c \<and> j_priority j = ec_priority c
      \<and> j_max_attempts j = ec_max_attempts c \<and> db_owners db1 = db_owners db"
    using e
    by (cases rule: enqueue_cases)
      (auto simp: same_enqueue_def new_job_def insert_job_def result_simps
        dest!: status_event_Inr find_in_set)
  then obtain k where k: "k \<in> set (db_jobs db2)" "row_extends j k"
    using ext by (auto simp: db_extends_def)
  then have same: "same_enqueue k c \<longleftrightarrow> j_available_at k = instant_of (ec_available_at c)"
      and key: "j_owner_id k = owner" "j_idempotency_key k = key"
    using j by (auto simp: row_extends_def provenance_def same_enqueue_def)
  obtain k' where k': "find (\<lambda>j. j_owner_id j = owner \<and> j_idempotency_key j = key) (db_jobs db2)
      = Some k'"
    using k(1) key
    by (cases "find (\<lambda>j. j_owner_id j = owner \<and> j_idempotency_key j = key) (db_jobs db2)")
      (auto simp: find_None_iff)
  have "k' = k"
    using find_in_set [OF k'] k(1) key inv2
      unique_byD [of "\<lambda>j. (j_owner_id j, j_idempotency_key j)" "db_jobs db2" k' k]
    by (simp add: job_inv_def)
  then have "enqueue db2 clock' owner c key =
      (if j_available_at k = instant_of (ec_available_at c) then Inr (db2, k, True)
       else Inl (JobConflict ''Idempotency-Key was reused for another job''))"
    using k' same own j ext assms(4)
    by (simp add: enqueue_def repo_now_def db_extends_def)
  with k(1) key show ?thesis by blast
qed

theorem enqueue_replay_witness:
  "\<exists>k \<in> set (db_jobs running_db). j_owner_id k = 1 \<and> j_idempotency_key k = ''high''
     \<and> enqueue running_db (Aware 5000 0) 1 (sample_enqueue 90) ''high'' =
        (if j_available_at k = 0 then Inr (running_db, k, True)
         else Inl (JobConflict ''Idempotency-Key was reused for another job''))"
proof -
  let ?low = "run_commands exec_job (empty_db [1]) (take 1 sample_queued)"
  have "is_ok (exec_job ?low (0, Aware 1000 0, Enqueue 1 (sample_enqueue 90) ''high''))"
    by code_simp
  then obtain db1 where db1:
      "exec_job ?low (0, Aware 1000 0, Enqueue 1 (sample_enqueue 90) ''high'') = Inr db1"
    by (auto simp: is_ok_iff)
  have split: "sample_running = take 1 sample_queued
      @ [(0, Aware 1000 0, Enqueue 1 (sample_enqueue 90) ''high''),
         (0, Aware 2000 0, Claim [] sample_claim)]"
    by (simp add: sample_running_def sample_queued_def)
  have "running_db = run_commands exec_job ?low
      [(0, Aware 1000 0, Enqueue 1 (sample_enqueue 90) ''high''),
       (0, Aware 2000 0, Claim [] sample_claim)]"
    unfolding split by (rule run_commands_append)
  then have "running_db = run_commands exec_job db1 [(0, Aware 2000 0, Claim [] sample_claim)]"
    using db1 by (simp only: run_commands.simps sum.case)
  from enqueue_replay [OF refl db1 this, of "Aware 5000 0"] show ?thesis
    by (simp add: sample_enqueue_def)
qed

text \<open>
  C35. The replay of an enqueue is refused once the job has been retried. A worker's voluntary
  retry moves the row's availability, which the replay check compares with the command: repeating
  the accepted enqueue after a retry with a thirty second delay raises the conflict of a reused
  key.
\<close>

definition sample_failure :: retry_command where
  "sample_failure = \<lparr>rc_worker_id = ''worker-a'',
     rc_failure = \<lparr>jf_category = ''transient_dependency'', jf_retry_after_seconds = Some 30,
       jf_http_status = None\<rparr>\<rparr>"

theorem replay_after_retry_conflicts:
  "enqueue (run_commands exec_job (empty_db [1])
       [(0, Aware 0 0, Enqueue 1 (sample_enqueue 50) ''key''),
        (0, Aware 1000 0, Claim [] sample_claim),
        (0, Aware 2000 0, Retry 1 sample_failure)])
     (Aware 3000 0) 1 (sample_enqueue 50) ''key''
   = Inl (JobConflict ''Idempotency-Key was reused for another job'')"
  by code_simp

section \<open>Attempts\<close>

lemma length_card_image: "distinct (map f xs) \<Longrightarrow> length xs = card (f ` set xs)"
  by (metis distinct_card length_map set_map)

text \<open>
  C24. No job is started more often than its limit: in any reachable database the outbox holds at
  most \<open>max_attempts\<close> running events of a job, whatever mixture of retries, crashes and reclaims
  led there.
\<close>

theorem job_starts_bounded:
  assumes "db = run_commands exec_job (empty_db owners) cs" and "find_job db i = Some j"
  shows "int (length (filter (\<lambda>e. oe_aggregate_id e = i \<and> oe_event_type e = ''background_job.running'')
      (db_outbox db))) \<le> j_max_attempts j"
proof -
  let ?t = "''background_job.running''"
  let ?es = "filter (\<lambda>e. oe_aggregate_id e = i \<and> oe_event_type e = ?t) (db_outbox db)"
  have inv: "job_inv db" using assms(1) queue.run_inv [OF empty_db_inv] by simp
  have j: "j \<in> set (db_jobs db)" "j_id j = i"
    using find_in_set [OF assms(2) [unfolded find_job_def]] by auto
  have u: "unique_by j_id (db_jobs db)" using inv by (simp add: job_inv_def)
  have ev: "oe_owner_id e = j_owner_id j
      \<and> oe_idempotency_key e \<in> event_key i ?t ` {1..j_attempt_count j}"
    if "e \<in> set ?es" for e
  proof -
    have e: "e \<in> set (db_outbox db)" "oe_aggregate_id e = i" "oe_event_type e = ?t"
      using that by auto
    obtain k where k: "k \<in> set (db_jobs db)" "event_of k e" using inv e(1)
      by (auto simp: job_inv_def)
    have "j_id k = j_id j" using k(2) e(2) j(2) unfolding event_of_def by simp
    then have "k = j" by (rule unique_byD [OF u k(1) j(1)])
    with k(2) e(3) j(2) obtain a where a: "oe_owner_id e = j_owner_id j" "past_event j ?t a"
        "oe_idempotency_key e = event_key i ?t a"
      unfolding event_of_def by metis
    then have "a \<in> {1..j_attempt_count j}" unfolding past_event_def by simp
    with a show ?thesis by blast
  qed
  have "distinct (map (\<lambda>e. (oe_owner_id e, oe_idempotency_key e)) ?es)"
    using inv by (intro distinct_map_filter) (simp add: job_inv_def unique_by_def)
  then have "length ?es = card ((\<lambda>e. (oe_owner_id e, oe_idempotency_key e)) ` set ?es)"
    by (rule length_card_image)
  also have "\<dots> \<le> card (Pair (j_owner_id j) ` event_key i ?t ` {1..j_attempt_count j})"
    using ev by (intro card_mono) auto
  also have "\<dots> \<le> card {1..j_attempt_count j}"
    by (meson card_image_le finite_atLeastAtMost_int finite_imageI order_trans)
  finally have "length ?es \<le> card {1..j_attempt_count j}" .
  then have "int (length ?es) \<le> int (nat (j_attempt_count j))"
    by (simp only: card_atLeastAtMost_int of_nat_le_iff)
  also have "\<dots> \<le> j_max_attempts j"
    using inv j(1) unfolding job_inv_def row_inv_def job_valid_def by simp
  finally show ?thesis .
qed

theorem job_starts_bounded_witness:
  "\<exists>j. find_job running_db 2 = Some j
     \<and> int (length (filter (\<lambda>e. oe_aggregate_id e = 2 \<and> oe_event_type e = ''background_job.running'')
          (db_outbox running_db))) \<le> j_max_attempts j"
proof -
  have "find_job running_db 2 \<noteq> None" by code_simp
  then obtain j where "find_job running_db 2 = Some j" by auto
  with job_starts_bounded [OF refl this] show ?thesis by blast
qed

end
