(* ===== verification/Job_Liveness.thy ===== *)
theory Job_Liveness
  imports Job_Properties
begin

text \<open>
  What the queue does not get stuck on: with a clock that does not run backwards no operation is
  ever refused by the storage layer, and one reclaim returns every expired lease to the queue or
  closes the job.
\<close>

section \<open>The database's guards never fire\<close>

text \<open>Errors that come from the storage layer rather than from the command.\<close>

fun storage_error :: "job_error \<Rightarrow> bool" where
  "storage_error (Integrity_error m) = True"
| "storage_error (Trigger_error m) = True"
| "storage_error (JobWorkflowError m) = True"
| "storage_error (NotificationContractError m) = True"
| "storage_error (JobPolicyError m) = True"
| "storage_error _ = False"

text \<open>The clock has not run backwards, and the identity column has not overflowed.\<close>

definition clock_sound :: "job_db \<Rightarrow> instant \<Rightarrow> bool" where
  "clock_sound db now \<longleftrightarrow>
     (\<forall>j \<in> set (db_jobs db). j_updated_at j \<le> now) \<and> db_next_id db \<le> 2 ^ 63 - 1"

lemma row_accepted:
  assumes "job_inv db" "clock_sound db now" "j \<in> set (db_jobs db)"
    and "row_change now j new (Some t)"
  shows "\<exists>db'. change_state db_now db j new t now = Inr (db', new)
    \<and> job_inv db' \<and> clock_sound db' now"
proof -
  have le: "j_updated_at j \<le> now" "j_id j \<le> 2 ^ 63 - 1"
    using assms(1-3) unfolding clock_sound_def job_inv_def by auto
  from change_state_ok [OF assms(1,3,4) le] obtain db' where
    db': "change_state db_now db j new t now = Inr (db', new)"
      "db' = (replace_row j new db)\<lparr>db_outbox := db_outbox db @ [job_event new t now]\<rparr>"
    by auto
  have "clock_sound db' now"
    using assms(2) row_change_frame [OF assms(4)] db'(2) by (auto simp: clock_sound_def)
  with db'(1) change_state_inv [OF assms(1,3,4) db'(1)] show ?thesis by blast
qed

lemma running_job_no_storage_error:
  "running_job db i w now = Inl e \<Longrightarrow> \<not> storage_error e"
  by (auto simp: running_job_def split: option.splits if_splits)

lemma repo_now_no_storage_error: "repo_now clock = Inl e \<Longrightarrow> \<not> storage_error e"
  by (auto simp: repo_now_def split: if_splits)

lemma claim_accepted:
  assumes "job_inv db" "clock_sound db (instant_of clock)" "check_claim_command c = Inr ()"
    and "claim db_now db clock locked c = Inl e"
  shows "\<not> storage_error e"
proof (cases "repo_now clock")
  case (Inl e')
  with assms(4) repo_now_no_storage_error show ?thesis by (simp add: claim_def)
next
  case (Inr now)
  then have now: "now = instant_of clock" by (simp add: repo_now_Inr)
  show ?thesis
  proof (cases "first_min claim_order (filter (\<lambda>j. claimable now (cl_kinds c) j
      \<and> j_id j \<notin> set locked) (db_jobs db))")
    case None
    with assms(4) Inr show ?thesis by (simp add: claim_def)
  next
    case (Some j)
    have j: "j \<in> set (db_jobs db)" "claimable now (cl_kinds c) j"
      using first_min_Some(1) [OF Some] by auto
    then have "row_change now j (claim_row now (cl_worker_id c) (cl_lease_seconds c) j)
        (Some ''background_job.running'')"
      using assms(3)
      by (intro row_change.claimed) (auto simp: claimable_def check_claim_command_def result_simps)
    from row_accepted [OF assms(1) assms(2) [folded now] j(1) this, of db_now] assms(4) Inr Some
    show ?thesis by (auto simp: claim_def)
  qed
qed

lemma heartbeat_accepted:
  assumes "job_inv db" "clock_sound db (instant_of clock)" "check_heartbeat_command c = Inr ()"
    and "job_heartbeat db_now db clock i c = Inl e"
  shows "\<not> storage_error e"
proof (cases "repo_now clock")
  case (Inl e')
  with assms(4) repo_now_no_storage_error show ?thesis by (simp add: job_heartbeat_def)
next
  case now: (Inr now)
  show ?thesis
  proof (cases "running_job db i (hb_worker_id c) now")
    case (Inl e')
    with assms(4) now running_job_no_storage_error show ?thesis by (simp add: job_heartbeat_def)
  next
    case (Inr j)
    obtain x where x: "j \<in> set (db_jobs db)" "j_state j = Running" "j_lease_expires_at j = Some x"
      using running_job_Inr [OF Inr] by auto
    let ?new = "heartbeat_row now (max now x + td_seconds (hb_lease_seconds c)) j"
    have rc: "row_change now j ?new None"
      using x assms(3) by (intro row_change.extended)
        (auto simp: check_heartbeat_command_def result_simps)
    have r: "row_inv j" "j_updated_at j \<le> now"
      using assms(1,2) x(1) now by (auto simp: job_inv_def clock_sound_def repo_now_Inr)
    show ?thesis
      using assms(4) now Inr x(3) row_change_accepted [OF rc r, of db_now db]
        replace_row_jobs(4) [OF assms(1) x(1) rc r(2)]
      by (simp add: job_heartbeat_def reload_def)
  qed
qed

lemma complete_accepted:
  assumes "job_inv db" "clock_sound db (instant_of clock)"
    and "complete db_now db clock i w = Inl e"
  shows "\<not> storage_error e"
proof (cases "repo_now clock")
  case (Inl e')
  with assms(3) repo_now_no_storage_error show ?thesis by (simp add: complete_def)
next
  case now: (Inr now)
  show ?thesis
  proof (cases "running_job db i w now")
    case (Inl e')
    with assms(3) now running_job_no_storage_error show ?thesis by (simp add: complete_def)
  next
    case (Inr j)
    then have j: "j \<in> set (db_jobs db)" "j_state j = Running" using running_job_Inr by auto
    from row_accepted [OF assms(1) _ j(1) row_change.succeeded [OF j(2)], of now db_now]
      assms(2,3) now Inr show ?thesis by (auto simp: complete_def repo_now_Inr)
  qed
qed

lemma cancel_accepted:
  assumes "job_inv db" "clock_sound db (instant_of clock)"
    and "cancel db_now db clock owner i = Inl e"
  shows "\<not> storage_error e"
proof (cases "repo_now clock")
  case (Inl e')
  with assms(3) repo_now_no_storage_error show ?thesis by (simp add: cancel_def)
next
  case now: (Inr now)
  show ?thesis
  proof (cases "find (\<lambda>j. j_owner_id j = owner \<and> j_id j = i) (db_jobs db)")
    case None
    with assms(3) now show ?thesis by (auto simp: cancel_def)
  next
    case (Some j)
    show ?thesis
    proof (cases "terminal (j_state j)")
      case True
      with assms(3) now Some show ?thesis
        by (auto simp: cancel_def terminal_def split: if_splits)
    next
      case False
      from row_accepted [OF assms(1) _ _ row_change.canceled [OF False], of now db_now]
        assms(2,3) now Some find_in_set [OF Some] False show ?thesis
        by (auto simp: cancel_def repo_now_Inr terminal_def)
    qed
  qed
qed

lemma retry_accepted:
  assumes "job_inv db" "clock_sound db (instant_of clock)" "check_retry_command c = Inr ()"
    and "retry db_now db clock i c = Inl e"
  shows "\<not> storage_error e"
proof (cases "repo_now clock")
  case (Inl e')
  with assms(4) repo_now_no_storage_error show ?thesis by (simp add: retry_def)
next
  case now: (Inr now)
  let ?f = "rc_failure c"
  have f: "check_job_failure ?f = Inr ()"
    using assms(3) by (auto simp: check_retry_command_def result_simps)
  show ?thesis
  proof (cases "running_job db i (rc_worker_id c) now")
    case (Inl e')
    with assms(4) now running_job_no_storage_error show ?thesis by (simp add: retry_def)
  next
    case (Inr j)
    let ?d = "retry_details (j_attempt_count j) ?f"
    have j: "j \<in> set (db_jobs db)" "j_state j = Running" using running_job_Inr [OF Inr] by auto
    then have "row_inv j" using assms(1) by (simp add: job_inv_def)
    then have b: "1 \<le> j_attempt_count j" "j_attempt_count j \<le> j_max_attempts j"
        "j_max_attempts j \<le> 100"
      using j(2) by (auto simp: row_inv_def job_valid_def)
    have cat: "jf_category ?f \<in> set ERROR_CATEGORIES"
      using f by (auto simp: check_job_failure_def result_simps)
    have v: "validate_error_details_v1 ?d" using b by (intro retry_details_valid [OF f]) auto
    note acc = row_accepted [OF assms(1) _ j(1), of now _ _ db_now]
    have cs: "clock_sound db now" using assms(2) now by (simp add: repo_now_Inr)
    show ?thesis
    proof (cases "jf_category ?f \<in> set RETRYABLE_CATEGORIES \<and> j_attempt_count j < j_max_attempts j")
      case True
      have "row_change now j
          (requeue_row now (now + td_seconds (retry_delay (j_attempt_count j) ?f))
            (jf_category ?f) ?d j) (Some ''background_job.retry_wait'')"
        using True j(2) v retry_delay_nonneg [OF f, of "j_attempt_count j"]
        by (intro row_change.requeued) (auto simp: duration_defs)
      from acc [OF cs this] True b cat assms(4) now Inr show ?thesis
        by (auto simp: retry_def retry_disposition_def Let_def)
    next
      case False
      have "row_change now j (fail_row now (jf_category ?f) ?d j)
          (Some ''background_job.needs_attention'')"
        using j(2) cat v by (rule row_change.failed)
      from acc [OF cs this] False b cat assms(4) now Inr show ?thesis
        by (auto simp: retry_def retry_disposition_def Let_def)
    qed
  qed
qed

lemma reclaim_one_accepted:
  assumes "job_inv db" "clock_sound db now" "j \<in> set (db_jobs db)" "j_state j = Running"
  shows "\<exists>db' d. reclaim_one db_now now db j = Inr (db', d) \<and> job_inv db' \<and> clock_sound db' now
    \<and> (\<exists>new \<in> set (db_jobs db'). j_id new = j_id j \<and> j_state new \<noteq> Running)"
proof -
  let ?d = "\<lparr>ed_schema_version = 1, ed_attempt = Some (j_attempt_count j),
    ed_retry_after_seconds = None, ed_http_status = None\<rparr>"
  have "row_inv j" using assms(1,3) by (simp add: job_inv_def)
  then have v: "validate_error_details_v1 ?d"
    by (auto simp: valid_details row_inv_def job_valid_def)
  have retry: "row_change now j (requeue_row now now ''transient_dependency'' ?d j)
      (Some ''background_job.retry_wait'')" if "j_attempt_count j < j_max_attempts j"
    using that assms(4) v by (intro row_change.requeued) (auto simp: RETRYABLE_CATEGORIES_def)
  have fail: "row_change now j (fail_row now ''processing_failure'' ?d j)
      (Some ''background_job.needs_attention'')"
    using assms(4) v by (intro row_change.failed) (auto simp: ERROR_CATEGORIES_def)
  have moved: "new \<in> set (db_jobs db')"
    if "row_change now j new (Some t)" "change_state db_now db j new t now = Inr (db', new)"
    for new t db'
    using change_state_Inr [OF assms(1,3) that] assms(3) by auto
  show ?thesis
  proof (cases "j_attempt_count j < j_max_attempts j")
    case True
    let ?new = "requeue_row now now ''transient_dependency'' ?d j"
    obtain db' where c: "change_state db_now db j ?new ''background_job.retry_wait'' now
        = Inr (db', ?new)" "job_inv db'" "clock_sound db' now"
      using row_accepted [OF assms(1-3) retry [OF True], of db_now] by blast
    have "reclaim_one db_now now db j = Inr (db', Retry_wait)"
      using True c(1) by (simp add: reclaim_one_def Let_def)
    moreover have "j_id ?new = j_id j \<and> j_state ?new \<noteq> Running" by (simp add: row_defs)
    ultimately show ?thesis using c(2,3) moved [OF retry [OF True] c(1)] by blast
  next
    case False
    let ?new = "fail_row now ''processing_failure'' ?d j"
    obtain db' where c: "change_state db_now db j ?new ''background_job.needs_attention'' now
        = Inr (db', ?new)" "job_inv db'" "clock_sound db' now"
      using row_accepted [OF assms(1-3) fail, of db_now] by blast
    have "reclaim_one db_now now db j = Inr (db', Needs_attention)"
      using False c(1) by (simp add: reclaim_one_def Let_def)
    moreover have "j_id ?new = j_id j \<and> j_state ?new \<noteq> Running" by (simp add: row_defs)
    ultimately show ?thesis using c(2,3) moved [OF fail c(1)] by blast
  qed
qed

lemma reclaim_loop_accepted:
  "job_inv db \<Longrightarrow> clock_sound db now \<Longrightarrow> set js \<subseteq> set (db_jobs db) \<Longrightarrow> unique_by j_id js
   \<Longrightarrow> \<forall>j \<in> set js. j_state j = Running
   \<Longrightarrow> \<exists>db' r. reclaim_loop db_now now db js = Inr (db', r)
     \<and> (\<forall>j \<in> set js. \<exists>k \<in> set (db_jobs db'). j_id k = j_id j \<and> j_state k \<noteq> Running)"
proof (induction js arbitrary: db)
  case Nil
  then show ?case by simp
next
  case (Cons j js)
  have j: "j \<in> set (db_jobs db)" "j_state j = Running" using Cons.prems(3,5) by auto
  obtain db1 d new where one: "reclaim_one db_now now db j = Inr (db1, d)" "job_inv db1"
      "clock_sound db1 now" and new: "new \<in> set (db_jobs db1)" "j_id new = j_id j"
      "j_state new \<noteq> Running"
    using reclaim_one_accepted [OF Cons.prems(1,2) j, of db_now] by auto
  have rest: "unique_by j_id js" "\<forall>j \<in> set js. j_state j = Running"
    using Cons.prems(4,5) by (auto simp: unique_by_def)
  obtain n t c where m: "row_change now j n (Some t)" "change_state db_now db j n t now = Inr (db1, c)"
    using reclaim_one_move [OF _ j(2) one(1)] Cons.prems(1) j(1) by (metis job_inv_def)
  have sub: "set js \<subseteq> set (db_jobs db1)"
  proof
    fix k assume k: "k \<in> set js"
    then have "j_id k \<noteq> j_id j"
      using Cons.prems(4) by (auto simp: unique_by_def) (metis imageI)
    with k Cons.prems(3) show "k \<in> set (db_jobs db1)"
      by (intro change_state_others [OF Cons.prems(1) j(1) m]) auto
  qed
  from Cons.IH [OF one(2,3) sub rest] obtain db' r where
    loop: "reclaim_loop db_now now db1 js = Inr (db', r)"
    and fin: "\<forall>j \<in> set js. \<exists>k \<in> set (db_jobs db'). j_id k = j_id j \<and> j_state k \<noteq> Running"
    by blast
  have "new \<in> set (db_jobs db')"
    using reclaim_loop_others [OF loop one(2) sub rest new(1)] new(3) rest(2) by auto
  moreover have "\<exists>r. reclaim_loop db_now now db (j # js) = Inr (db', r)"
    using one(1) loop by (cases d; cases r) auto
  ultimately show ?case using fin new(2,3) by auto
qed

lemma reclaim_accepted:
  assumes "job_inv db" "clock_sound db (instant_of clock)"
    and "reclaim_expired db_now db clock locked limit = Inl e"
  shows "\<not> storage_error e"
proof (cases "repo_now clock")
  case (Inl e')
  with assms(3) repo_now_no_storage_error show ?thesis by (simp add: reclaim_expired_def)
next
  case now: (Inr now)
  let ?js = "expired_jobs db now locked limit"
  have u: "unique_by j_id (db_jobs db)" using assms(1) by (simp add: job_inv_def)
  have js: "set ?js \<subseteq> set (db_jobs db)" "unique_by j_id ?js" "\<forall>j \<in> set ?js. j_state j = Running"
    using expired_jobs_props [OF u, of now locked limit] by (auto simp: lease_expired_def)
  from reclaim_loop_accepted [OF assms(1) _ js, of now db_now] assms(2,3) now show ?thesis
    by (auto simp: reclaim_expired_def repo_now_Inr)
qed

definition payload_fits :: "reference_payload \<Rightarrow> bool" where
  "payload_fits p \<longleftrightarrow> rp_subject_id p \<le> 2 ^ 63 - 1
     \<and> (case rp_related_id p of None \<Rightarrow> True | Some r \<Rightarrow> r \<le> 2 ^ 63 - 1)"

lemma enqueue_accepted:
  assumes "job_inv db" "clock_sound db (instant_of clock)" "check_enqueue_command c = Inr ()"
    "safe_key key" "payload_fits (ec_payload c)"
    and "enqueue db clock owner c key = Inl e"
  shows "\<not> storage_error e"
proof (cases "repo_now clock")
  case (Inl e')
  with assms(6) repo_now_no_storage_error show ?thesis by (simp add: enqueue_def)
next
  case now: (Inr now)
  let ?j = "new_job (db_next_id db) owner c key now"
  show ?thesis
  proof (cases "find (\<lambda>j. j_owner_id j = owner \<and> j_idempotency_key j = key) (db_jobs db)")
    case (Some j)
    with assms(6) now show ?thesis by (auto simp: enqueue_def split: if_splits)
  next
    case None
    have p: "validate_reference_payload_v1 (ec_payload c)"
      using assms(3,5) by (auto simp: valid_payload positive_id_def payload_fits_def
          check_enqueue_command_def check_reference_payload_def result_simps split: option.splits)
    have "job_valid ?j" "key_fields_safe ?j"
      using p assms(3,4) by (auto simp: job_valid_def key_fields_safe_def new_job_def
          error_coherent_def times_coherent_def check_enqueue_command_def result_simps valid_payload)
    then have "validate_background_job ?j = Inr ()"
        "check_constraints (job_constraints ?j) = Inr ()"
      by (simp_all only: validate_background_job_iff job_valid_constraints)
    moreover have "j_owner_id ?j = owner" "j_idempotency_key ?j = key"
      by (simp_all add: new_job_def)
    ultimately have ins: "insert_job db ?j
        = Inr (db\<lparr>db_jobs := db_jobs db @ [?j], db_next_id := db_next_id db + 1\<rparr>)"
      using None by (auto simp: insert_job_def ensure_def find_None_iff)
    have "\<forall>k \<in> set (db_jobs db). j_id k \<noteq> db_next_id db" "0 < db_next_id db"
      using assms(1) unfolding job_inv_def by auto
    moreover have "db_next_id db \<le> 2 ^ 63 - 1" using assms(2) by (simp add: clock_sound_def)
    ultimately have "is_ok (status_event (db\<lparr>db_jobs := db_jobs db @ [?j],
        db_next_id := db_next_id db + 1\<rparr>) ?j ''background_job.queued'' now)"
      by (subst status_event_ok [OF assms(1)])
        (auto simp: new_job_def STATUS_EVENTS_def)
    with ins p None assms(6) now show ?thesis
      by (auto simp: enqueue_def is_ok_iff validate_payload_attribute_def Let_def
          split: if_splits)
  qed
qed

text \<open>
  C25. The storage layer never has to refuse the queue. In every reachable database, at a clock
  reading not before the last update of any row and with the identity column in range, a command
  that fails does so for a reason of its own: never because of a table constraint, the trigger, a
  row validator, a duplicate event key or the retry policy's bounds. An enqueue is included when
  its referenced ids fit the database's integers.
\<close>

theorem queue_never_refused_by_storage:
  assumes "db = run_commands exec_job (empty_db owners) cs"
    and "clock_sound db (instant_of clock)"
    and "case cmd of Enqueue owner c key \<Rightarrow> payload_fits (ec_payload c) | _ \<Rightarrow> True"
    and "exec_job db (db_now, clock, cmd) = Inl e"
  shows "\<not> storage_error e"
proof -
  have inv: "job_inv db" using assms(1) queue.run_inv [OF empty_db_inv] by simp
  have checks: "check_enqueue_command c = Inl e \<Longrightarrow> \<not> storage_error e"
      "check_claim_command c' = Inl e \<Longrightarrow> \<not> storage_error e"
      "check_heartbeat_command h = Inl e \<Longrightarrow> \<not> storage_error e"
      "check_retry_command r = Inl e \<Longrightarrow> \<not> storage_error e"
      "check_complete_command w = Inl e \<Longrightarrow> \<not> storage_error e"
      "positive_job_id i = Inl e \<Longrightarrow> \<not> storage_error e" for c c' h r w i
    by (auto simp: check_enqueue_command_def check_claim_command_def check_heartbeat_command_def
        check_retry_command_def check_job_failure_def check_complete_command_def positive_job_id_def
        check_reference_payload_def result_simps)
  show ?thesis
    using assms(3,4)
    by (cases cmd)
      (auto simp: result_simps service_enqueue_def service_cancel_def service_reclaim_def
        split: if_splits
        dest: checks enqueue_accepted [OF inv assms(2)] claim_accepted [OF inv assms(2)]
          heartbeat_accepted [OF inv assms(2)] complete_accepted [OF inv assms(2)]
          retry_accepted [OF inv assms(2)] cancel_accepted [OF inv assms(2)]
          reclaim_accepted [OF inv assms(2)])
qed

theorem queue_never_refused_by_storage_witness:
  "\<exists>e. exec_job running_db (0, Aware 70000000 0, Complete 2 ''worker-a'') = Inl e
     \<and> \<not> storage_error e"
proof -
  have "clock_sound running_db (instant_of (Aware 70000000 0))" by code_simp
  moreover have "\<not> is_ok (exec_job running_db (0, Aware 70000000 0, Complete 2 ''worker-a''))"
    by code_simp
  then obtain e where e: "exec_job running_db (0, Aware 70000000 0, Complete 2 ''worker-a'') = Inl e"
    by (cases "exec_job running_db (0, Aware 70000000 0, Complete 2 ''worker-a'')") auto
  ultimately show ?thesis using queue_never_refused_by_storage [OF refl _ _ e] by simp
qed

section \<open>Recovery\<close>

lemma reclaim_one_disposition:
  "reclaim_one db_now now db j = Inr (db', d) \<Longrightarrow>
     d = (if j_attempt_count j < j_max_attempts j then Retry_wait else Needs_attention)"
  by (auto simp: reclaim_one_def result_simps Let_def split: if_splits)

lemma reclaim_loop_lists:
  "reclaim_loop db_now now db js = Inr (db', retried, attention) \<Longrightarrow>
     retried = map j_id (filter (\<lambda>j. j_attempt_count j < j_max_attempts j) js)
     \<and> attention = map j_id (filter (\<lambda>j. \<not> j_attempt_count j < j_max_attempts j) js)"
proof (induction js arbitrary: db retried attention)
  case Nil
  then show ?case by simp
next
  case (Cons j js)
  obtain db1 d where one: "reclaim_one db_now now db j = Inr (db1, d)"
    using Cons.prems by (auto simp: result_simps)
  obtain r a where rest: "reclaim_loop db_now now db1 js = Inr (db', r, a)"
      and "(retried, attention) = (case d of Retry_wait \<Rightarrow> (j_id j # r, a)
        | Needs_attention \<Rightarrow> (r, j_id j # a))"
    using Cons.prems one by (cases d) (auto simp: result_simps)
  with Cons.IH [OF rest] reclaim_one_disposition [OF one] show ?case by auto
qed

lemma reclaim_one_ids:
  assumes "job_inv db" "j \<in> set (db_jobs db)" "j_state j = Running"
    and "reclaim_one db_now now db j = Inr (db', d)"
  shows "map j_id (db_jobs db') = map j_id (db_jobs db) \<and> job_inv db'"
proof -
  obtain n t c where m: "row_change now j n (Some t)" "change_state db_now db j n t now = Inr (db', c)"
    using reclaim_one_move [OF _ assms(3,4)] assms(1,2) by (metis job_inv_def)
  have "j_id n = j_id j" using row_change_frame [OF m(1)] by simp
  with change_state_Inr [OF assms(1,2) m] change_state_inv [OF assms(1,2) m] show ?thesis by auto
qed

lemma reclaim_loop_ids:
  "reclaim_loop db_now now db js = Inr (db', r) \<Longrightarrow> job_inv db \<Longrightarrow> set js \<subseteq> set (db_jobs db)
   \<Longrightarrow> unique_by j_id js \<Longrightarrow> \<forall>j \<in> set js. j_state j = Running
   \<Longrightarrow> map j_id (db_jobs db') = map j_id (db_jobs db) \<and> job_inv db'"
proof (induction js arbitrary: db r)
  case Nil
  then show ?case by simp
next
  case (Cons j js)
  obtain db1 d where one: "reclaim_one db_now now db j = Inr (db1, d)"
    using Cons.prems(1) by (auto simp: result_simps)
  obtain r1 where rest: "reclaim_loop db_now now db1 js = Inr (db', r1)"
    using Cons.prems(1) one by (cases d) (auto simp: result_simps)
  have j: "j \<in> set (db_jobs db)" "j_state j = Running" using Cons.prems(3,5) by auto
  have ids: "map j_id (db_jobs db1) = map j_id (db_jobs db)" "job_inv db1"
    using reclaim_one_ids [OF Cons.prems(2) j one] by auto
  obtain n t c where m: "row_change now j n (Some t)" "change_state db_now db j n t now = Inr (db1, c)"
    using reclaim_one_move [OF _ j(2) one] Cons.prems(2) j(1) by (metis job_inv_def)
  have sub: "set js \<subseteq> set (db_jobs db1)"
  proof
    fix k assume k: "k \<in> set js"
    then have "j_id k \<noteq> j_id j"
      using Cons.prems(4) by (auto simp: unique_by_def) (metis imageI)
    with k Cons.prems(3) show "k \<in> set (db_jobs db1)"
      by (intro change_state_others [OF Cons.prems(2) j(1) m]) auto
  qed
  have "unique_by j_id js" "\<forall>j \<in> set js. j_state j = Running"
    using Cons.prems(4,5) by (auto simp: unique_by_def)
  from Cons.IH [OF rest ids(2) sub this] ids(1) show ?case by simp
qed



text \<open>
  A heartbeat extends the lease from its old expiry, not from the current time: an accepted
  heartbeat moves the expiry by the full lease length beyond where it was, however recently the
  previous heartbeat came.
\<close>

theorem heartbeat_extends_from_expiry:
  assumes "db = run_commands exec_job (empty_db owners) cs"
    and "job_heartbeat db_now db clock i c = Inr (db', k)"
  shows "\<exists>j e. find_job db i = Some j \<and> j_lease_expires_at j = Some e \<and> instant_of clock < e
    \<and> j_lease_expires_at k = Some (e + td_seconds (hb_lease_seconds c))"
proof -
  let ?now = "instant_of clock"
  have inv: "job_inv db" using assms(1) queue.run_inv [OF empty_db_inv] by simp
  then have u: "unique_by j_id (db_jobs db)" by (simp add: job_inv_def)
  obtain j where j: "running_job db i (hb_worker_id c) ?now = Inr j"
    using assms(2) by (auto simp: job_heartbeat_def result_simps repo_now_Inr Let_def)
  from running_job_Inr [OF j] obtain e where e: "j \<in> set (db_jobs db)" "j_id j = i"
      "j_lease_expires_at j = Some e" "?now < e" by auto
  let ?new = "heartbeat_row ?now (e + td_seconds (hb_lease_seconds c)) j"
  obtain db1 where up: "update_job db_now db j ?new = Inr db1" and k: "reload db1 i = Inr k"
    using assms(2) j e by (auto simp: job_heartbeat_def result_simps repo_now_Inr Let_def max_def)
  have "db_jobs db1 = map (\<lambda>x. if j_id x = i then ?new else x) (db_jobs db)"
    using up e(2) by (auto simp: update_job_def result_simps)
  moreover have "k \<in> set (db_jobs db1)" "j_id k = i"
    using k by (auto simp: reload_def find_job_def split: option.splits dest: find_in_set)
  ultimately have "k = ?new" by (auto split: if_splits)
  with e find_job_unique [OF u e(1)] show ?thesis by (auto simp: heartbeat_row_def)
qed

theorem heartbeat_extends_from_expiry_witness:
  "\<exists>db' k. job_heartbeat 0 running_db (Aware 3000 0) 2
        \<lparr>hb_worker_id = ''worker-a'', hb_lease_seconds = 3600\<rparr> = Inr (db', k)
     \<and> j_lease_expires_at k = Some 3660002000"
proof -
  let ?c = "\<lparr>hb_worker_id = ''worker-a'', hb_lease_seconds = 3600\<rparr>"
  have "is_ok (job_heartbeat 0 running_db (Aware 3000 0) 2 ?c)" by code_simp
  then obtain db' k where k: "job_heartbeat 0 running_db (Aware 3000 0) 2 ?c = Inr (db', k)"
    by (auto simp: is_ok_iff)
  have "map_option j_lease_expires_at (find_job running_db 2) = Some (Some 60002000)" by code_simp
  with heartbeat_extends_from_expiry [OF refl k] k show ?thesis
    by (auto simp: duration_defs)
qed

end
