(* ===== verification/Ledger.thy ===== *)
theory Ledger
  imports Complex_Main Strings
begin

text \<open>
  The memory ledger of \<^verbatim>\<open>tamforge_protocol/memory.py\<close>: revisions with their validators,
  the append-only ledger, and what a role may see of it. Timestamps are aware, so they are
  instants; a confidence is a rational in the unit interval, which nothing computes with.
\<close>

section \<open>Revisions\<close>

datatype memory_error =
    Memory_error string
  | Validation string
  | ReviewError string
  | PolicyError string
  | ContextError string

datatype memory_kind = Episodic | Semantic | Hypothesis | Procedural

datatype memory_scope = Global | Role_scope | Roadmap | Activity_scope | Case | Opportunity | Interview

datatype sensitivity = Routine | Personal | Real_interview

fun SENSITIVITY_RANK :: "sensitivity \<Rightarrow> nat" where
  "SENSITIVITY_RANK Routine = 0"
| "SENSITIVITY_RANK Personal = 1"
| "SENSITIVITY_RANK Real_interview = 2"

datatype role = Planner | Tutor | Coach | Reviewer | Analyst | Interviewer

datatype evidence_kind =
  Ev_activity | Ev_assessment | Ev_interview | Ev_conversation | Ev_report | Ev_user_statement

datatype approval = Proposed | Approved | Rejected

datatype author = By_role role | By_learner

record evidence_link =
  ev_kind :: evidence_kind
  ev_reference_id :: int

record provenance_link =
  pv_author :: author
  pv_model_run_id :: "int option"

record memory_revision =
  mr_memory_id :: int
  mr_revision_id :: int
  mr_revision_number :: int
  mr_kind :: memory_kind
  mr_scope :: memory_scope
  mr_scope_reference_id :: "int option"
  mr_claim :: string
  mr_confidence :: rat
  mr_sensitivity :: sensitivity
  mr_visible_to :: "role set"
  mr_evidence :: "evidence_link list"
  mr_provenance :: provenance_link
  mr_valid_from :: instant
  mr_valid_to :: "instant option"
  mr_expires_at :: "instant option"
  mr_supersedes_revision_id :: "int option"
  mr_contradicts_revision_ids :: "int set"
  mr_approval :: approval
  mr_recorded_at :: instant

definition KINDS_NEVER_APPROVED :: "memory_kind set" where
  "KINDS_NEVER_APPROVED = {Hypothesis}"

definition check_provenance :: "provenance_link \<Rightarrow> (memory_error, unit) result" where
  "check_provenance p =
     ensure (\<not> (pv_author p = By_learner \<and> pv_model_run_id p \<noteq> None))
       (Validation ''a learner statement has no model run behind it'')"

definition opt_positive :: "int option \<Rightarrow> bool" where
  "opt_positive v \<longleftrightarrow> (case v of None \<Rightarrow> True | Some n \<Rightarrow> 0 < n)"

text \<open>The declared ranges of the fields, before the model's own validators run.\<close>

definition check_revision_fields :: "memory_revision \<Rightarrow> (memory_error, unit) result" where
  "check_revision_fields r =
     ensure (0 < mr_memory_id r \<and> 0 < mr_revision_id r \<and> 1 \<le> mr_revision_number r
       \<and> opt_positive (mr_scope_reference_id r)
       \<and> \<not> blank (mr_claim r) \<and> length (mr_claim r) \<le> 2000
       \<and> 0 \<le> mr_confidence r \<and> mr_confidence r \<le> 1
       \<and> list_all (\<lambda>e. 0 < ev_reference_id e) (mr_evidence r)
       \<and> opt_positive (mr_supersedes_revision_id r)
       \<and> (\<forall>c \<in> mr_contradicts_revision_ids r. 0 < c)) (Validation ''field out of range'')"

definition mk_revision :: "memory_revision \<Rightarrow> (memory_error, memory_revision) result" where
  "mk_revision r =
     bind_result (check_revision_fields r) (\<lambda>_.
     bind_result (check_provenance (mr_provenance r)) (\<lambda>_.
    (if mr_evidence r = []
       then Inl (Validation ''a memory with no evidence is an opinion; name what it rests on'')
     else if mr_scope r = Global \<and> mr_scope_reference_id r \<noteq> None
       then Inl (Validation ''a global memory points at nothing'')
     else if mr_scope r \<noteq> Global \<and> mr_scope_reference_id r = None
       then Inl (Validation ''a scoped memory must name which'')
     else if mr_visible_to r = {}
       then Inl (Validation ''a memory no role may see is a memory nobody can act on'')
     else if mr_revision_number r = 1 \<and> mr_supersedes_revision_id r \<noteq> None
       then Inl (Validation ''the first revision of a memory has nothing to supersede'')
     else if 1 < mr_revision_number r \<and> mr_supersedes_revision_id r = None
       then Inl (Validation ''a later revision must name the revision it supersedes'')
     else if mr_supersedes_revision_id r = Some (mr_revision_id r)
       then Inl (Validation ''a revision cannot supersede itself'')
     else if (case mr_valid_to r of None \<Rightarrow> False | Some t \<Rightarrow> t \<le> mr_valid_from r)
       then Inl (Validation ''valid_to must come after valid_from'')
     else if (case mr_expires_at r of None \<Rightarrow> False | Some t \<Rightarrow> t \<le> mr_valid_from r)
       then Inl (Validation ''expires_at must come after valid_from'')
     else if mr_kind r \<in> KINDS_NEVER_APPROVED \<and> mr_approval r = Approved
       then Inl (Validation ''a hypothesis is a guess; confirming it means writing a semantic memory'')
     else if mr_kind r = Episodic \<and> mr_expires_at r \<noteq> None
       then Inl (Validation ''something that happened never becomes false; episodes do not expire'')
     else Inr r)))"

definition in_force :: "memory_revision \<Rightarrow> instant \<Rightarrow> bool" where
  "in_force r now =
     (if now < mr_valid_from r then False
      else if (case mr_valid_to r of None \<Rightarrow> False | Some t \<Rightarrow> t \<le> now) then False
      else (case mr_expires_at r of None \<Rightarrow> True | Some t \<Rightarrow> now < t))"

section \<open>The ledger\<close>

type_synonym memory_ledger = "memory_revision list"

definition ledger_history :: "memory_ledger \<Rightarrow> int \<Rightarrow> memory_revision list" where
  "ledger_history ledger memory_id = filter (\<lambda>r. mr_memory_id r = memory_id) ledger"

definition ledger_current :: "memory_ledger \<Rightarrow> int \<Rightarrow> memory_revision option" where
  "ledger_current ledger memory_id =
     (let h = ledger_history ledger memory_id in if h = [] then None else Some (last h))"

definition ledger_append ::
    "memory_ledger \<Rightarrow> memory_revision \<Rightarrow> (memory_error, memory_ledger) result" where
  "ledger_append ledger r =
     (if list_ex (\<lambda>e. mr_revision_id e = mr_revision_id r) ledger
        then Inl (Memory_error ''revision already exists and cannot be rewritten'')
      else
        bind_result
          (case ledger_current ledger (mr_memory_id r) of
             None \<Rightarrow>
               ensure (mr_revision_number r = 1) (Memory_error ''a memory starts at revision 1'')
           | Some latest \<Rightarrow>
               (if mr_revision_number r \<noteq> mr_revision_number latest + 1
                  then Inl (Memory_error ''expected the next revision number'')
                else if mr_supersedes_revision_id r \<noteq> Some (mr_revision_id latest)
                  then Inl (Memory_error ''a new revision must supersede the current one, not an older one'')
                else if mr_kind r \<noteq> mr_kind latest
                  then Inl (Memory_error ''a memory keeps its kind; a different kind is a different memory'')
                else Inr ()))
          (\<lambda>_.
            if \<not> (\<forall>c \<in> mr_contradicts_revision_ids r. list_ex (\<lambda>e. mr_revision_id e = c) ledger)
              then Inl (Memory_error ''cannot contradict a revision that is not in the ledger'')
            else Inr (ledger @ [r])))"

text \<open>\<^verbatim>\<open>_unique\<close>: the values in the order of their first occurrence.\<close>

definition unique_ids :: "'a list \<Rightarrow> 'a list" where
  "unique_ids xs = rev (remdups (rev xs))"

definition readable ::
    "role \<Rightarrow> instant \<Rightarrow> sensitivity \<Rightarrow> memory_scope option \<Rightarrow> int option \<Rightarrow> memory_revision \<Rightarrow> bool" where
  "readable role now cap scope scope_ref r \<longleftrightarrow>
     mr_approval r = Approved \<and> role \<in> mr_visible_to r
     \<and> SENSITIVITY_RANK (mr_sensitivity r) \<le> SENSITIVITY_RANK cap
     \<and> in_force r now
     \<and> (case scope of None \<Rightarrow> True
        | Some s \<Rightarrow> mr_scope r = s \<and> mr_scope_reference_id r = scope_ref)"

definition visible ::
    "memory_ledger \<Rightarrow> role \<Rightarrow> instant \<Rightarrow> sensitivity \<Rightarrow> memory_scope option \<Rightarrow> int option
       \<Rightarrow> memory_revision list" where
  "visible ledger role now cap scope scope_ref =
     concat (map (\<lambda>memory_id.
       (case ledger_current ledger memory_id of
          None \<Rightarrow> []
        | Some r \<Rightarrow> if readable role now cap scope scope_ref r then [r] else []))
       (unique_ids (map mr_memory_id ledger)))"

section \<open>Lemmas\<close>

lemma set_unique_ids [simp]: "set (unique_ids xs) = set xs"
  by (simp add: unique_ids_def)

lemma distinct_unique_ids [simp]: "distinct (unique_ids xs)"
  by (simp add: unique_ids_def)

lemma ledger_current_in: "ledger_current ledger m = Some r \<Longrightarrow> r \<in> set ledger \<and> mr_memory_id r = m"
  by (auto simp: ledger_current_def ledger_history_def Let_def split: if_splits
      dest: last_in_set [of "filter _ _"])

lemma ledger_current_None: "ledger_current ledger m = None \<longleftrightarrow> (\<forall>r \<in> set ledger. mr_memory_id r \<noteq> m)"
  by (auto simp: ledger_current_def ledger_history_def Let_def filter_empty_conv)

lemma ledger_history_append:
  "ledger_history (l @ [r]) m = ledger_history l m @ (if mr_memory_id r = m then [r] else [])"
  by (simp add: ledger_history_def)

lemma ledger_current_append:
  "ledger_current (l @ [r]) m = (if mr_memory_id r = m then Some r else ledger_current l m)"
  by (simp add: ledger_current_def ledger_history_append Let_def)

lemma set_visible:
  "r \<in> set (visible ledger role now cap scope sref) \<longleftrightarrow>
     ledger_current ledger (mr_memory_id r) = Some r \<and> readable role now cap scope sref r"
proof
  assume "r \<in> set (visible ledger role now cap scope sref)"
  then show "ledger_current ledger (mr_memory_id r) = Some r \<and> readable role now cap scope sref r"
    by (auto simp: visible_def split: option.splits if_splits)
      (metis ledger_current_in)
next
  assume r: "ledger_current ledger (mr_memory_id r) = Some r \<and> readable role now cap scope sref r"
  then have "mr_memory_id r \<in> set (map mr_memory_id ledger)" by (auto dest: ledger_current_in)
  with r show "r \<in> set (visible ledger role now cap scope sref)"
    by (force simp: visible_def split: option.splits)
qed

lemma distinct_concat_keys:
  assumes "distinct ks" "\<And>k x. k \<in> set ks \<Longrightarrow> x \<in> set (f k) \<Longrightarrow> g x = k"
    "\<And>k. length (f k) \<le> 1"
  shows "distinct (map g (concat (map f ks)))"
  using assms(1,2)
proof (induction ks)
  case Nil
  then show ?case by simp
next
  case (Cons k ks)
  have one: "distinct (map g (f k))" using assms(3) [of k] by (cases "f k") auto
  have "g x \<noteq> g y" if xy: "x \<in> set (f k)" "y \<in> set (concat (map f ks))" for x y
  proof -
    obtain i where "i \<in> set ks" "y \<in> set (f i)" using xy(2) by auto
    then have "g y = i" "g x = k" using Cons.prems(2) xy(1) by auto
    with Cons.prems(1) \<open>i \<in> set ks\<close> show ?thesis by auto
  qed
  then have "set (map g (f k)) \<inter> set (map g (concat (map f ks))) = {}" by auto
  with one Cons.IH Cons.prems show ?case by simp
qed

text \<open>One memory's revisions form a chain: numbered from one, each superseding the last.\<close>

definition chained :: "memory_revision list \<Rightarrow> bool" where
  "chained h \<longleftrightarrow>
     map mr_revision_number h = map (\<lambda>i. int i + 1) [0..<length h]
     \<and> successively (\<lambda>a b. mr_supersedes_revision_id b = Some (mr_revision_id a)
          \<and> mr_kind b = mr_kind a) h"

definition ledger_inv :: "memory_ledger \<Rightarrow> bool" where
  "ledger_inv l \<longleftrightarrow>
     distinct (map mr_revision_id l) \<and> (\<forall>m. chained (ledger_history l m))
     \<and> (\<forall>i < length l. \<forall>c \<in> mr_contradicts_revision_ids (l ! i).
          \<exists>j < i. mr_revision_id (l ! j) = c)"

lemma chained_snoc:
  assumes "chained h"
    and "h = [] \<Longrightarrow> mr_revision_number r = 1"
    and "h \<noteq> [] \<Longrightarrow> mr_revision_number r = mr_revision_number (last h) + 1
      \<and> mr_supersedes_revision_id r = Some (mr_revision_id (last h)) \<and> mr_kind r = mr_kind (last h)"
  shows "chained (h @ [r])"
proof (cases h rule: rev_cases)
  case Nil
  with assms(2) show ?thesis by (simp add: chained_def)
next
  case (snoc xs x)
  with assms show ?thesis by (auto simp: chained_def successively_append_iff)
qed

lemma ledger_append_inv:
  assumes "ledger_inv l" "ledger_append l r = Inr l'"
  shows "ledger_inv l' \<and> l' = l @ [r]"
proof -
  have l': "l' = l @ [r]" using assms(2)
    by (auto simp: ledger_append_def result_simps split: if_splits)
  have fresh: "mr_revision_id r \<notin> set (map mr_revision_id l)"
    using assms(2) by (auto simp: ledger_append_def list_ex_iff split: if_splits)
  have chain: "chained (ledger_history l' m)" for m
  proof (cases "mr_memory_id r = m")
    case True
    let ?h = "ledger_history l m"
    have "chained ?h" using assms(1) by (simp add: ledger_inv_def)
    then have "chained (?h @ [r])"
    proof (rule chained_snoc)
      assume "?h = []"
      then have "ledger_current l m = None" by (simp add: ledger_current_def)
      with assms(2) True show "mr_revision_number r = 1"
        by (auto simp: ledger_append_def result_simps split: if_splits)
    next
      assume "?h \<noteq> []"
      then have "ledger_current l m = Some (last ?h)" by (simp add: ledger_current_def Let_def)
      with assms(2) True show "mr_revision_number r = mr_revision_number (last ?h) + 1
          \<and> mr_supersedes_revision_id r = Some (mr_revision_id (last ?h))
          \<and> mr_kind r = mr_kind (last ?h)"
        by (auto simp: ledger_append_def result_simps split: if_splits)
    qed
    with True l' show ?thesis by (simp add: ledger_history_append)
  next
    case False
    with assms(1) l' show ?thesis by (simp add: ledger_history_append ledger_inv_def)
  qed
  have con: "\<forall>c \<in> mr_contradicts_revision_ids r. \<exists>j < length l. mr_revision_id (l ! j) = c"
    using assms(2)
    by (fastforce simp: ledger_append_def list_ex_iff result_simps in_set_conv_nth split: if_splits)
  have "\<forall>i < length l'. \<forall>c \<in> mr_contradicts_revision_ids (l' ! i).
      \<exists>j < i. mr_revision_id (l' ! j) = c"
  proof (intro allI impI ballI)
    fix i c
    assume i: "i < length l'" and c: "c \<in> mr_contradicts_revision_ids (l' ! i)"
    show "\<exists>j < i. mr_revision_id (l' ! j) = c"
    proof (cases "i < length l")
      case True
      with c l' have "c \<in> mr_contradicts_revision_ids (l ! i)" by (simp add: nth_append)
      then obtain j where "j < i" "mr_revision_id (l ! j) = c"
        using assms(1) True unfolding ledger_inv_def by blast
      with True l' show ?thesis by (auto simp: nth_append intro!: exI [of _ j])
    next
      case False
      with i l' have "i = length l" by simp
      with c con l' show ?thesis by (auto simp: nth_append)
    qed
  qed
  with chain fresh assms(1) l' show ?thesis by (auto simp: ledger_inv_def)
qed

interpretation ledger: growing_system ledger_append ledger_inv prefix
  by unfold_locales (auto dest: ledger_append_inv)

section \<open>Properties\<close>

text \<open>
  C31. The ledger is an append-only history. After any sequence of appends, accepted or refused,
  no two revisions share an id, the revisions of one memory are numbered from one without a gap,
  each supersedes the one before it and keeps its kind, a contradiction only names a revision
  recorded earlier, and whatever the ledger held before is still its beginning.
\<close>

theorem ledger_is_append_only:
  "let l = run_commands ledger_append [] rs; l' = run_commands ledger_append [] (rs @ qs)
   in distinct (map mr_revision_id l)
      \<and> (\<forall>m. chained (ledger_history l m))
      \<and> list_all (\<lambda>i. mr_contradicts_revision_ids (l ! i)
           \<subseteq> {mr_revision_id (l ! j) | j. j < i}) [0..<length l]
      \<and> prefix l l'"
proof -
  have empty: "ledger_inv []" by (simp add: ledger_inv_def chained_def ledger_history_def)
  show ?thesis
    using ledger.run_inv [OF empty, of rs] ledger.run_extends [OF ledger.run_inv [OF empty], of rs qs]
    by (fastforce simp: ledger_inv_def list_all_iff run_commands_append Let_def)
qed

text \<open>
  What a role sees is decided by the ledger alone: a revision is returned exactly when it is
  the latest of its memory, approved, granted to the role, at or below the sensitivity ceiling, in
  force at the moment asked about and, when a scope is asked for, of that scope; and each memory is
  returned at most once.
\<close>

theorem visible_is_exact:
  "(r \<in> set (visible ledger role now cap scope sref) \<longleftrightarrow>
      ledger_current ledger (mr_memory_id r) = Some r \<and> mr_approval r = Approved
      \<and> role \<in> mr_visible_to r \<and> SENSITIVITY_RANK (mr_sensitivity r) \<le> SENSITIVITY_RANK cap
      \<and> in_force r now
      \<and> (scope = None \<or> scope = Some (mr_scope r) \<and> mr_scope_reference_id r = sref))
   \<and> distinct (map mr_memory_id (visible ledger role now cap scope sref))"
proof -
  have "distinct (map mr_memory_id (visible ledger role now cap scope sref))"
    unfolding visible_def
    by (rule distinct_concat_keys)
      (auto split: option.splits if_splits dest!: ledger_current_in [OF sym])
  then show ?thesis by (auto simp: set_visible readable_def split: option.splits)
qed

end
