(* ===== verification/Memory_Review.thy ===== *)
theory Memory_Review
  imports Ledger
begin

text \<open>
  Who decides what becomes a memory: the policy table of \<^verbatim>\<open>memory/policy.py\<close> and the
  review service of \<^verbatim>\<open>memory/service.py\<close> over the ledger. The two regular expressions of
  the policy are written as matchers over the lower-cased claim.
\<close>

section \<open>The policy\<close>

datatype decision = AUTO_ACCEPT | STORE_HYPOTHESIS | REQUIRE_USER_APPROVAL | REJECT

datatype reason_code =
    Verified_fact | Explicit_preference | Agent_pattern | Single_event_not_a_trait
  | Sensitive_inference | Personal_inference | No_provenance | No_evidence
  | Coach_mode_current_content | Transcript_instruction | Unknown_author

datatype origin = From_system | From_evidence | Learner_statement | Agent_inference

datatype proposal_author = System_author | Learner_author | Agent_author role

definition VERIFIED_EVIDENCE :: "evidence_kind set" where
  "VERIFIED_EVIDENCE = {Ev_activity, Ev_assessment, Ev_report}"

definition MIN_EVENTS_FOR_TRAIT :: int where "MIN_EVENTS_FOR_TRAIT = 3"

fun RETENTION :: "memory_kind \<Rightarrow> int option" where
  "RETENTION Episodic = None"
| "RETENTION Semantic = Some (td_days 180)"
| "RETENTION Hypothesis = Some (td_days 30)"
| "RETENTION Procedural = Some (td_days 365)"

definition word_char :: "char \<Rightarrow> bool" where
  "word_char c \<longleftrightarrow> is_alnum c \<or> c = CHR ''_''
     \<or> (let n = of_char c :: nat in
          n \<in> {170, 178, 179, 181, 185, 186, 188, 189, 190} \<or> (192 \<le> n \<and> n \<noteq> 215 \<and> n \<noteq> 247))"

definition lower_char :: "char \<Rightarrow> char" where
  "lower_char c = (if in_range (CHR ''A'') (CHR ''Z'') c then char_of (of_char c + 32 :: nat) else c)"

definition instruction_starts :: "string list" where
  "instruction_starts = [''ignore'', ''disregard'', ''forget'', ''remember that you'',
     ''from now on'', ''you must'', ''always say'', ''never say'', ''system prompt'',
     ''as an ai'', ''override'']"

definition is_instruction :: "string \<Rightarrow> bool" where
  "is_instruction claim \<longleftrightarrow>
     (let s = map lower_char (dropWhile is_space claim) in
      list_ex (\<lambda>w. prefix w s \<and> (case drop (length w) s of [] \<Rightarrow> True | c # _ \<Rightarrow> \<not> word_char c))
        instruction_starts)"

definition sensitive_topics :: "string list" where
  "sensitive_topics = [''health'', ''medical'', ''diagnos'', ''pregnan'', ''religio'', ''politic'',
     ''ethnic'', ''sexual'', ''disabilit'', ''salary'', ''visa'', ''immigration'', ''mental'',
     ''therapy'', ''divorce'']"

text \<open>A topic at the start of a word, anywhere in the text.\<close>

fun topic_from :: "bool \<Rightarrow> string \<Rightarrow> bool" where
  "topic_from in_word [] = False"
| "topic_from in_word (c # cs) \<longleftrightarrow>
     (\<not> in_word \<and> list_ex (\<lambda>t. prefix t (c # cs)) sensitive_topics) \<or> topic_from (word_char c) cs"

definition mentions_sensitive :: "string \<Rightarrow> bool" where
  "mentions_sensitive claim = topic_from False (map lower_char claim)"

record memory_proposal =
  mp_kind :: memory_kind
  mp_claim :: string
  mp_origin :: origin
  mp_author :: proposal_author
  mp_model_run_id :: "int option"
  mp_evidence_kinds :: "evidence_kind list"
  mp_event_count :: int
  mp_sensitivity :: sensitivity
  mp_quoted_source :: "string option"
  mp_coach_mode_current_answer :: bool
  mp_about_the_person :: bool

definition mk_proposal :: "memory_proposal \<Rightarrow> (memory_error, memory_proposal) result" where
  "mk_proposal p =
     (if blank (mp_claim p) then Inl (PolicyError ''an empty claim proposes nothing'')
      else if mp_event_count p < 0 then Inl (PolicyError ''event_count cannot be negative'')
      else if mp_author p \<noteq> System_author \<and> mp_author p \<noteq> Learner_author \<and> mp_model_run_id p = None
        then Inl (PolicyError ''an agent proposal names the model run that produced it'')
      else Inr p)"

record policy_outcome =
  po_decision :: decision
  po_reason :: reason_code
  po_stored_kind :: "memory_kind option"
  po_retention :: "int option"
  po_visible_to :: "role set"
  po_required_evidence :: int

definition outcome_writes :: "policy_outcome \<Rightarrow> bool" where
  "outcome_writes po \<longleftrightarrow> po_decision po \<in> {AUTO_ACCEPT, STORE_HYPOTHESIS}"

definition ALL_ROLES :: "role set" where
  "ALL_ROLES = {Planner, Tutor, Coach, Reviewer, Analyst}"

definition LEARNER_FACING :: "role set" where
  "LEARNER_FACING = {Tutor, Coach, Planner}"

definition reject_outcome :: "reason_code \<Rightarrow> policy_outcome" where
  "reject_outcome reason =
     \<lparr>po_decision = REJECT, po_reason = reason, po_stored_kind = None, po_retention = None,
      po_visible_to = {}, po_required_evidence = 0\<rparr>"

fun known_author :: "proposal_author \<Rightarrow> bool" where
  "known_author (Agent_author r) \<longleftrightarrow> r \<in> ALL_ROLES"
| "known_author _ \<longleftrightarrow> True"

definition hypothesis_outcome :: "decision \<Rightarrow> reason_code \<Rightarrow> role set \<Rightarrow> policy_outcome" where
  "hypothesis_outcome d reason who =
     \<lparr>po_decision = d, po_reason = reason, po_stored_kind = Some Hypothesis,
      po_retention = RETENTION Hypothesis, po_visible_to = who,
      po_required_evidence = MIN_EVENTS_FOR_TRAIT\<rparr>"

definition fact_outcome :: "decision \<Rightarrow> reason_code \<Rightarrow> memory_kind \<Rightarrow> role set \<Rightarrow> policy_outcome" where
  "fact_outcome d reason kind who =
     \<lparr>po_decision = d, po_reason = reason, po_stored_kind = Some kind,
      po_retention = RETENTION kind, po_visible_to = who, po_required_evidence = 1\<rparr>"

definition decide :: "memory_proposal \<Rightarrow> policy_outcome" where
  "decide p =
    (if mp_coach_mode_current_answer p then reject_outcome Coach_mode_current_content
     else if is_instruction (mp_claim p) then reject_outcome Transcript_instruction
     else if \<not> known_author (mp_author p) then reject_outcome Unknown_author
     else if mp_origin p = Agent_inference \<and> mp_model_run_id p = None
       then reject_outcome No_provenance
     else if mp_evidence_kinds p = [] then reject_outcome No_evidence
     else
       let sensitive = (mp_sensitivity p = Real_interview \<or> mentions_sensitive (mp_claim p)) in
       if mp_origin p \<in> {From_system, From_evidence}
          \<and> set (mp_evidence_kinds p) \<inter> VERIFIED_EVIDENCE \<noteq> {}
         then (if sensitive
                 then fact_outcome REQUIRE_USER_APPROVAL Sensitive_inference (mp_kind p) LEARNER_FACING
               else fact_outcome AUTO_ACCEPT Verified_fact (mp_kind p) ALL_ROLES)
       else if mp_origin p = Learner_statement \<and> mp_quoted_source p \<notin> {None, Some []}
         then (if sensitive
                 then fact_outcome REQUIRE_USER_APPROVAL Sensitive_inference (mp_kind p) LEARNER_FACING
               else fact_outcome AUTO_ACCEPT Explicit_preference (mp_kind p) LEARNER_FACING)
       else if mp_origin p = Learner_statement then reject_outcome No_provenance
       else if sensitive \<or> mp_about_the_person p
         then hypothesis_outcome REQUIRE_USER_APPROVAL
                (if sensitive then Sensitive_inference else Personal_inference) {Coach}
       else if mp_event_count p < MIN_EVENTS_FOR_TRAIT \<and> mp_kind p \<noteq> Episodic
         then hypothesis_outcome STORE_HYPOTHESIS Single_event_not_a_trait LEARNER_FACING
       else hypothesis_outcome STORE_HYPOTHESIS Agent_pattern LEARNER_FACING)"

section \<open>The review service\<close>

datatype proposal_status = Written | Pending_approval | Rejected_status | Approved_status | Promoted

record proposal_record =
  pr_proposal_id :: int
  pr_proposal :: memory_proposal
  pr_outcome :: policy_outcome
  pr_status :: proposal_status
  pr_revision_id :: "int option"
  pr_decided_at :: instant
  pr_reviewed_by :: "string option"
  pr_promoted_to_revision_id :: "int option"

record memory_review =
  rv_ledger :: memory_ledger
  rv_records :: "int \<Rightarrow> proposal_record option"
  rv_next_proposal :: int
  rv_next_memory :: int
  rv_next_revision :: int

definition empty_review :: memory_review where
  "empty_review = \<lparr>rv_ledger = [], rv_records = (\<lambda>_. None), rv_next_proposal = 1,
     rv_next_memory = 1, rv_next_revision = 1\<rparr>"

definition proposal_provenance :: "memory_proposal \<Rightarrow> provenance_link" where
  "proposal_provenance p =
     (case mp_author p of
        Agent_author r \<Rightarrow> \<lparr>pv_author = By_role r, pv_model_run_id = mp_model_run_id p\<rparr>
      | _ \<Rightarrow> \<lparr>pv_author = By_learner, pv_model_run_id = None\<rparr>)"

definition draft_revision ::
    "memory_review \<Rightarrow> memory_proposal \<Rightarrow> policy_outcome \<Rightarrow> memory_kind \<Rightarrow> instant \<Rightarrow> approval
       \<Rightarrow> evidence_link list \<Rightarrow> memory_revision" where
  "draft_revision st p po kind now appr evidence =
     \<lparr>mr_memory_id = rv_next_memory st, mr_revision_id = rv_next_revision st,
      mr_revision_number = 1, mr_kind = kind, mr_scope = Global, mr_scope_reference_id = None,
      mr_claim = mp_claim p, mr_confidence = (if kind = Hypothesis then 5 / 10 else 8 / 10),
      mr_sensitivity = mp_sensitivity p, mr_visible_to = po_visible_to po,
      mr_evidence = evidence, mr_provenance = proposal_provenance p, mr_valid_from = now,
      mr_valid_to = None,
      mr_expires_at = (case po_retention po of None \<Rightarrow> None | Some d \<Rightarrow> Some (now + d)),
      mr_supersedes_revision_id = None, mr_contradicts_revision_ids = {},
      mr_approval = appr, mr_recorded_at = now\<rparr>"

text \<open>\<^verbatim>\<open>_write\<close>; the outcome of a written proposal always names a kind.\<close>

definition write_revision ::
    "memory_review \<Rightarrow> memory_proposal \<Rightarrow> policy_outcome \<Rightarrow> instant \<Rightarrow> approval \<Rightarrow> evidence_link list
       \<Rightarrow> (memory_error, memory_revision \<times> memory_review) result" where
  "write_revision st p po now appr evidence =
     (case po_stored_kind po of
        None \<Rightarrow> Inl (Validation ''assert outcome.stored_kind is not None'')
      | Some kind \<Rightarrow>
          bind_result (mk_revision (draft_revision st p po kind now appr evidence)) (\<lambda>r.
          bind_result (ledger_append (rv_ledger st) r) (\<lambda>l.
            Inr (r, st\<lparr>rv_ledger := l, rv_next_memory := rv_next_memory st + 1,
                       rv_next_revision := rv_next_revision st + 1\<rparr>))))"

definition new_record ::
    "int \<Rightarrow> memory_proposal \<Rightarrow> policy_outcome \<Rightarrow> proposal_status \<Rightarrow> int option \<Rightarrow> instant
       \<Rightarrow> string option \<Rightarrow> int option \<Rightarrow> proposal_record" where
  "new_record i p po status rev_id now who promoted =
     \<lparr>pr_proposal_id = i, pr_proposal = p, pr_outcome = po, pr_status = status,
      pr_revision_id = rev_id, pr_decided_at = now, pr_reviewed_by = who,
      pr_promoted_to_revision_id = promoted\<rparr>"

definition store_record :: "memory_review \<Rightarrow> proposal_record \<Rightarrow> memory_review" where
  "store_record st rec = st\<lparr>rv_records := (rv_records st)(pr_proposal_id rec := Some rec)\<rparr>"

text \<open>
  \<^verbatim>\<open>propose\<close> takes the next proposal id before it writes, so a write that raises has used
  the id up; the state is part of the result in both cases. Its branches that write and that do
  not:
\<close>

definition propose_written ::
    "memory_review \<Rightarrow> int \<Rightarrow> memory_proposal \<Rightarrow> approval \<Rightarrow> evidence_link list \<Rightarrow> instant
       \<Rightarrow> (memory_error, proposal_record) result \<times> memory_review" where
  "propose_written st1 i p appr evidence now =
     (case write_revision st1 p (decide p) now appr evidence of
        Inl e \<Rightarrow> (Inl e, st1)
      | Inr (r, st2) \<Rightarrow>
          (let rec = new_record i p (decide p) Written (Some (mr_revision_id r)) now None None
           in (Inr rec, store_record st2 rec)))"

definition propose_unwritten ::
    "memory_review \<Rightarrow> int \<Rightarrow> memory_proposal \<Rightarrow> proposal_status \<Rightarrow> instant
       \<Rightarrow> (memory_error, proposal_record) result \<times> memory_review" where
  "propose_unwritten st1 i p status now =
     (let rec = new_record i p (decide p) status None now None None
      in (Inr rec, store_record st1 rec))"

definition propose ::
    "memory_review \<Rightarrow> memory_proposal \<Rightarrow> evidence_link list \<Rightarrow> instant
       \<Rightarrow> (memory_error, proposal_record) result \<times> memory_review" where
  "propose st p evidence now =
     (let i = rv_next_proposal st; st1 = st\<lparr>rv_next_proposal := rv_next_proposal st + 1\<rparr> in
      if int (length evidence) < po_required_evidence (decide p) \<and> po_decision (decide p) = AUTO_ACCEPT
        then (Inl (ReviewError ''an accepted fact must cite the evidence it rests on''), st)
      else case po_decision (decide p) of
        AUTO_ACCEPT \<Rightarrow> propose_written st1 i p Approved evidence now
      | STORE_HYPOTHESIS \<Rightarrow> propose_written st1 i p Proposed evidence now
      | REQUIRE_USER_APPROVAL \<Rightarrow> propose_unwritten st1 i p Pending_approval now
      | REJECT \<Rightarrow> propose_unwritten st1 i p Rejected_status now)"

definition approve ::
    "memory_review \<Rightarrow> int \<Rightarrow> string \<Rightarrow> evidence_link list \<Rightarrow> instant
       \<Rightarrow> (memory_error, proposal_record \<times> memory_review) result" where
  "approve st i who evidence now =
     (case rv_records st i of
        None \<Rightarrow> Inl (ReviewError ''only a pending proposal can be approved'')
      | Some rec \<Rightarrow>
          if pr_status rec \<noteq> Pending_approval
            then Inl (ReviewError ''only a pending proposal can be approved'')
          else if int (length evidence) < po_required_evidence (pr_outcome rec)
            then Inl (ReviewError ''approval needs more pieces of evidence'')
          else
            let kind = mp_kind (pr_proposal rec);
                confirmed = (pr_outcome rec)\<lparr>po_stored_kind :=
                  Some (if kind = Hypothesis then Semantic else kind)\<rparr>
            in bind_result (write_revision st (pr_proposal rec) confirmed now Approved evidence)
                 (\<lambda>(r, st1).
                    let updated = new_record i (pr_proposal rec) (pr_outcome rec) Approved_status
                          (Some (mr_revision_id r)) now (Some who) None
                    in Inr (updated, store_record st1 updated)))"

definition reject ::
    "memory_review \<Rightarrow> int \<Rightarrow> string \<Rightarrow> instant
       \<Rightarrow> (memory_error, proposal_record \<times> memory_review) result" where
  "reject st i who now =
     (case rv_records st i of
        None \<Rightarrow> Inl (ReviewError ''only a pending proposal can be rejected'')
      | Some rec \<Rightarrow>
          if pr_status rec \<noteq> Pending_approval
            then Inl (ReviewError ''only a pending proposal can be rejected'')
          else
            let updated = new_record i (pr_proposal rec) (pr_outcome rec) Rejected_status None now
                  (Some who) None
            in Inr (updated, store_record st updated))"

definition memory_of :: "memory_ledger \<Rightarrow> int \<Rightarrow> (memory_error, int) result" where
  "memory_of ledger rev_id =
     (case find (\<lambda>r. mr_revision_id r = rev_id) ledger of
        None \<Rightarrow> Inl (ReviewError ''revision is not in the ledger'')
      | Some r \<Rightarrow> Inr (mr_memory_id r))"

definition promote ::
    "memory_review \<Rightarrow> int \<Rightarrow> evidence_link list \<Rightarrow> instant
       \<Rightarrow> (memory_error, proposal_record \<times> memory_review) result" where
  "promote st i evidence now =
     (case rv_records st i of
        None \<Rightarrow> Inl (ReviewError ''only a stored hypothesis can be promoted'')
      | Some rec \<Rightarrow>
         (case pr_revision_id rec of
            None \<Rightarrow> Inl (ReviewError ''only a stored hypothesis can be promoted'')
          | Some rev_id \<Rightarrow>
              if po_stored_kind (pr_outcome rec) \<noteq> Some Hypothesis
                then Inl (ReviewError ''only a stored hypothesis can be promoted'')
              else if pr_status rec = Promoted then Inl (ReviewError ''already promoted'')
              else if int (length evidence) < po_required_evidence (pr_outcome rec)
                then Inl (ReviewError ''promotion needs more pieces of evidence'')
              else
                bind_result (memory_of (rv_ledger st) rev_id) (\<lambda>_.
                  let semantic = (pr_outcome rec)\<lparr>po_decision := AUTO_ACCEPT,
                        po_reason := Verified_fact, po_stored_kind := Some Semantic\<rparr>
                  in bind_result
                       (write_revision st (pr_proposal rec) semantic now Approved evidence)
                       (\<lambda>(r, st1).
                          let updated = new_record i (pr_proposal rec) (pr_outcome rec) Promoted
                                (Some rev_id) now None (Some (mr_revision_id r))
                          in Inr (updated, store_record st1 updated)))))"

text \<open>\<^verbatim>\<open>except MemoryError as error: raise ReviewError(str(error))\<close>\<close>

fun reraise :: "(memory_error, 'a) result \<Rightarrow> (memory_error, 'a) result" where
  "reraise (Inl (Memory_error m)) = Inl (ReviewError m)"
| "reraise r = r"

text \<open>
  \<^verbatim>\<open>model_copy\<close> does not validate, and the ledger does not revalidate the revisions it is
  given: the new revision is appended as it is.
\<close>

definition correct ::
    "memory_review \<Rightarrow> int \<Rightarrow> string \<Rightarrow> instant
       \<Rightarrow> (memory_error, memory_revision \<times> memory_review) result" where
  "correct st rev_id claim now =
     bind_result (memory_of (rv_ledger st) rev_id) (\<lambda>m.
       case ledger_current (rv_ledger st) m of
         None \<Rightarrow> Inl (ReviewError ''only the current revision of a memory can be corrected'')
       | Some cur \<Rightarrow>
           if mr_revision_id cur \<noteq> rev_id
             then Inl (ReviewError ''only the current revision of a memory can be corrected'')
           else
             let r = cur\<lparr>mr_revision_id := rv_next_revision st,
                   mr_revision_number := mr_revision_number cur + 1,
                   mr_supersedes_revision_id := Some (mr_revision_id cur),
                   mr_claim := claim, mr_recorded_at := now\<rparr>
             in bind_result (reraise (ledger_append (rv_ledger st) r)) (\<lambda>l.
                  Inr (r, st\<lparr>rv_ledger := l, rv_next_revision := rv_next_revision st + 1\<rparr>)))"

definition expire ::
    "memory_review \<Rightarrow> int \<Rightarrow> instant \<Rightarrow> instant
       \<Rightarrow> (memory_error, memory_revision \<times> memory_review) result" where
  "expire st rev_id until now =
     bind_result (memory_of (rv_ledger st) rev_id) (\<lambda>m.
       case ledger_current (rv_ledger st) m of
         None \<Rightarrow> Inl (ReviewError ''only the current revision of a memory can be expired'')
       | Some cur \<Rightarrow>
           if mr_revision_id cur \<noteq> rev_id
             then Inl (ReviewError ''only the current revision of a memory can be expired'')
           else
             let r = cur\<lparr>mr_revision_id := rv_next_revision st,
                   mr_revision_number := mr_revision_number cur + 1,
                   mr_supersedes_revision_id := Some (mr_revision_id cur),
                   mr_valid_to := Some until, mr_recorded_at := now\<rparr>
             in bind_result (ledger_append (rv_ledger st) r) (\<lambda>l.
                  Inr (r, st\<lparr>rv_ledger := l, rv_next_revision := rv_next_revision st + 1\<rparr>)))"

datatype review_command =
    Propose memory_proposal "evidence_link list" instant
  | Approve int string "evidence_link list" instant
  | Reject int string instant
  | Promote int "evidence_link list" instant
  | Correct int string instant
  | Expire int instant instant

fun exec_review :: "memory_review \<Rightarrow> review_command \<Rightarrow> (memory_error, memory_review) result" where
  "exec_review st (Propose p ev now) =
     bind_result (mk_proposal p) (\<lambda>_. Inr (snd (propose st p ev now)))"
| "exec_review st (Approve i who ev now) = bind_result (approve st i who ev now) (\<lambda>r. Inr (snd r))"
| "exec_review st (Reject i who now) = bind_result (reject st i who now) (\<lambda>r. Inr (snd r))"
| "exec_review st (Promote i ev now) = bind_result (promote st i ev now) (\<lambda>r. Inr (snd r))"
| "exec_review st (Correct rev_id claim now) = bind_result (correct st rev_id claim now) (\<lambda>r. Inr (snd r))"
| "exec_review st (Expire rev_id until now) = bind_result (expire st rev_id until now) (\<lambda>r. Inr (snd r))"

end
