(* ===== verification/Memory_Safety.thy ===== *)
theory Memory_Safety
  imports Memory_Review
begin

text \<open>
  What the memory review guarantees: no guess is ever approved, the Interviewer never sees a
  memory, an agent's proposal changes nothing any role can see until the learner or evidence
  confirms it, and decisions already taken are never undone.
\<close>

section \<open>The policy\<close>

lemma decide_visible: "Interviewer \<notin> po_visible_to (decide p)"
  by (simp add: decide_def Let_def reject_outcome_def fact_outcome_def hypothesis_outcome_def
      ALL_ROLES_def LEARNER_FACING_def)

lemma decide_hypothesis:
  "po_decision (decide p) = STORE_HYPOTHESIS \<Longrightarrow> po_stored_kind (decide p) = Some Hypothesis"
  by (auto simp: decide_def Let_def reject_outcome_def fact_outcome_def hypothesis_outcome_def
      split: if_splits)

section \<open>The invariant\<close>

definition revision_ok :: "memory_revision \<Rightarrow> bool" where
  "revision_ok r \<longleftrightarrow>
     (mr_approval r = Approved \<longleftrightarrow> mr_kind r \<noteq> Hypothesis) \<and> mr_approval r \<noteq> Rejected
     \<and> Interviewer \<notin> mr_visible_to r \<and> mr_evidence r \<noteq> []"

definition record_ok :: "memory_review \<Rightarrow> int \<Rightarrow> proposal_record \<Rightarrow> bool" where
  "record_ok st i rec \<longleftrightarrow>
     i < rv_next_proposal st \<and> pr_proposal_id rec = i \<and> pr_outcome rec = decide (pr_proposal rec)
     \<and> (pr_status rec \<in> {Pending_approval, Rejected_status} \<longrightarrow> pr_revision_id rec = None)"

definition review_inv :: "memory_review \<Rightarrow> bool" where
  "review_inv st \<longleftrightarrow>
     ledger_inv (rv_ledger st)
     \<and> (\<forall>r \<in> set (rv_ledger st). revision_ok r \<and> mr_revision_id r < rv_next_revision st
          \<and> mr_memory_id r < rv_next_memory st)
     \<and> (\<forall>i rec. rv_records st i = Some rec \<longrightarrow> record_ok st i rec)"

lemma empty_review_inv: "review_inv empty_review"
  by (simp add: review_inv_def empty_review_def ledger_inv_def ledger_history_def chained_def)

lemma mk_revision_Inr:
  "mk_revision r = Inr r' \<Longrightarrow> r' = r \<and> mr_evidence r \<noteq> []
     \<and> \<not> (mr_kind r = Hypothesis \<and> mr_approval r = Approved)
     \<and> \<not> (mr_kind r = Episodic \<and> mr_expires_at r \<noteq> None)"
  unfolding mk_revision_def bind_result_Inr_iff guard_Inr_iff KINDS_NEVER_APPROVED_def by auto

lemma write_revision_Inr:
  assumes "write_revision st p po now appr evidence = Inr (r, st')"
  obtains kind where "po_stored_kind po = Some kind"
    "r = draft_revision st p po kind now appr evidence" "mk_revision r = Inr r"
    "ledger_append (rv_ledger st) r = Inr (rv_ledger st')"
    "st' = st\<lparr>rv_ledger := rv_ledger st', rv_next_memory := rv_next_memory st + 1,
       rv_next_revision := rv_next_revision st + 1\<rparr>"
proof -
  from assms obtain kind where k: "po_stored_kind po = Some kind"
    by (auto simp: write_revision_def split: option.splits)
  have mk: "mk_revision (draft_revision st p po kind now appr evidence) = Inr r"
    using assms k by (auto simp: write_revision_def result_simps)
  then have "r = draft_revision st p po kind now appr evidence" using mk_revision_Inr by simp
  with assms k mk that show ?thesis by (auto simp: write_revision_def result_simps)
qed

text \<open>The ledger part of the invariant survives a revision under the next id.\<close>

definition ledger_part :: "memory_review \<Rightarrow> bool" where
  "ledger_part st \<longleftrightarrow> ledger_inv (rv_ledger st)
     \<and> (\<forall>r \<in> set (rv_ledger st). revision_ok r \<and> mr_revision_id r < rv_next_revision st
          \<and> mr_memory_id r < rv_next_memory st)"

lemma ledger_part_append:
  assumes "ledger_part st" "ledger_append (rv_ledger st) r = Inr l" "revision_ok r"
    and "mr_revision_id r = rv_next_revision st" "mr_memory_id r \<le> rv_next_memory st"
    and "rv_next_memory st' = rv_next_memory st + 1 \<or>
      rv_next_memory st' = rv_next_memory st \<and> mr_memory_id r < rv_next_memory st"
    and "rv_ledger st' = l" "rv_next_revision st' = rv_next_revision st + 1"
  shows "ledger_part st'"
proof -
  have l: "ledger_inv l" "l = rv_ledger st @ [r]"
    using ledger_append_inv [OF _ assms(2)] assms(1) by (auto simp: ledger_part_def)
  then have s: "set (rv_ledger st') = insert r (set (rv_ledger st))" using assms(7) by simp
  show ?thesis
    unfolding ledger_part_def s
    using assms l(1) by (auto simp: ledger_part_def)
qed

lemma write_revision_part:
  assumes "ledger_part st" "write_revision st p po now appr evidence = Inr (r, st')"
    and "Interviewer \<notin> po_visible_to po"
    and "appr = Approved \<or> appr = Proposed \<and> po_stored_kind po = Some Hypothesis"
  shows "ledger_part st' \<and> rv_ledger st' = rv_ledger st @ [r]
    \<and> rv_records st' = rv_records st \<and> rv_next_proposal st' = rv_next_proposal st
    \<and> mr_approval r = appr \<and> mr_memory_id r = rv_next_memory st"
  using assms(2)
proof (rule write_revision_Inr)
  fix kind
  assume k: "po_stored_kind po = Some kind" "r = draft_revision st p po kind now appr evidence"
    "mk_revision r = Inr r" and l: "ledger_append (rv_ledger st) r = Inr (rv_ledger st')"
    and st': "st' = st\<lparr>rv_ledger := rv_ledger st', rv_next_memory := rv_next_memory st + 1,
       rv_next_revision := rv_next_revision st + 1\<rparr>"
  have "revision_ok r"
    using k(1,2) mk_revision_Inr [OF k(3)] assms(3,4)
    by (auto simp: revision_ok_def draft_revision_def)
  moreover have "rv_next_memory st' = rv_next_memory st + 1"
      "rv_next_revision st' = rv_next_revision st + 1"
      "rv_records st' = rv_records st" "rv_next_proposal st' = rv_next_proposal st"
    by (subst st', simp)+
  moreover have "mr_revision_id r = rv_next_revision st" "mr_memory_id r = rv_next_memory st"
      "mr_approval r = appr"
    using k(2) by (simp_all add: draft_revision_def)
  ultimately show ?thesis
    using ledger_part_append [OF assms(1) l, of st'] ledger_append_inv [OF _ l] assms(1)
    by (auto simp: ledger_part_def)
qed

lemma review_inv_split:
  "review_inv st \<longleftrightarrow> ledger_part st \<and> (\<forall>i rec. rv_records st i = Some rec \<longrightarrow> record_ok st i rec)"
  by (simp add: review_inv_def ledger_part_def)

section \<open>What each command does\<close>

text \<open>How a record may change, and what a command may do to the whole review.\<close>

definition record_moves :: "proposal_record \<Rightarrow> proposal_record \<Rightarrow> bool" where
  "record_moves a b \<longleftrightarrow>
     b = a
     \<or> (pr_proposal b = pr_proposal a \<and> pr_outcome b = pr_outcome a
        \<and> ((pr_status a = Pending_approval \<and> pr_status b \<noteq> Written)
           \<or> (pr_status a \<in> {Written, Approved_status} \<and> pr_status b = Promoted)))"

definition review_extends :: "memory_review \<Rightarrow> memory_review \<Rightarrow> bool" where
  "review_extends s t \<longleftrightarrow>
     prefix (rv_ledger s) (rv_ledger t)
     \<and> (\<forall>i a. rv_records s i = Some a \<longrightarrow> (\<exists>b. rv_records t i = Some b \<and> record_moves a b))"

lemma record_moves_trans: "record_moves a b \<Longrightarrow> record_moves b c \<Longrightarrow> record_moves a c"
  by (auto simp: record_moves_def)

lemma review_extends_refl: "review_extends s s"
  by (auto simp: review_extends_def record_moves_def)

lemma review_extends_trans: "review_extends s t \<Longrightarrow> review_extends t u \<Longrightarrow> review_extends s u"
  unfolding review_extends_def by (meson prefix_order.trans record_moves_trans)

text \<open>Storing one record on top of a state whose ledger part holds.\<close>

lemma store_record_ok:
  assumes "review_inv st" "ledger_part st1" "prefix (rv_ledger st) (rv_ledger st1)"
    and "rv_records st1 = rv_records st" "rv_next_proposal st \<le> rv_next_proposal st1"
    and "record_ok st1 (pr_proposal_id rec) rec"
    and "\<And>old. rv_records st (pr_proposal_id rec) = Some old \<Longrightarrow> record_moves old rec"
  shows "review_inv (store_record st1 rec) \<and> review_extends st (store_record st1 rec)"
proof -
  have "record_ok (store_record st1 rec) i r"
    if "rv_records (store_record st1 rec) i = Some r" for i r
    using that assms(1,4,5,6)
    by (fastforce simp: store_record_def record_ok_def review_inv_def split: if_splits)
  moreover have "ledger_part (store_record st1 rec)"
    using assms(2) by (simp add: ledger_part_def store_record_def)
  moreover have "review_extends st (store_record st1 rec)"
    using assms(3,4,7) by (auto simp: review_extends_def store_record_def record_moves_def)
  ultimately show ?thesis by (simp add: review_inv_split)
qed

lemma propose_ok:
  assumes "review_inv st"
  shows "review_inv (snd (propose st p ev now)) \<and> review_extends st (snd (propose st p ev now))"
proof -
  let ?po = "decide p"
  let ?i = "rv_next_proposal st"
  let ?st1 = "st\<lparr>rv_next_proposal := rv_next_proposal st + 1\<rparr>"
  have part: "ledger_part ?st1" using assms by (auto simp: review_inv_def ledger_part_def)
  have fresh: "rv_records st ?i = None"
    using assms by (cases "rv_records st ?i") (auto simp: review_inv_def record_ok_def)
  have keep: "review_inv ?st1 \<and> review_extends st ?st1"
    using assms
    by (fastforce simp: review_inv_def record_ok_def review_extends_def record_moves_def)
  have stored: "review_inv (store_record st2 (new_record ?i p ?po s r now None None))
      \<and> review_extends st (store_record st2 (new_record ?i p ?po s r now None None))"
    if "ledger_part st2" "prefix (rv_ledger st) (rv_ledger st2)" "rv_records st2 = rv_records st"
      "rv_next_proposal st2 = rv_next_proposal st + 1"
      "s \<in> {Pending_approval, Rejected_status} \<longrightarrow> r = None" for st2 s r
    using that fresh by (intro store_record_ok [OF assms]) (auto simp: new_record_def record_ok_def)
  have written: "review_inv (snd (propose_written ?st1 ?i p appr ev now))
      \<and> review_extends st (snd (propose_written ?st1 ?i p appr ev now))"
    if a: "appr = Approved \<or> appr = Proposed \<and> po_stored_kind ?po = Some Hypothesis" for appr
  proof (cases "write_revision ?st1 p ?po now appr ev")
    case (Inl e)
    with keep show ?thesis by (simp add: propose_written_def)
  next
    case (Inr x)
    obtain r st2 where x: "x = (r, st2)" by (cases x)
    have "ledger_part st2 \<and> rv_ledger st2 = rv_ledger st @ [r] \<and> rv_records st2 = rv_records st
        \<and> rv_next_proposal st2 = rv_next_proposal st + 1"
      using write_revision_part [OF part _ decide_visible a] Inr x by auto
    with stored [of st2 Written] Inr x show ?thesis by (simp add: propose_written_def Let_def)
  qed
  have unwritten: "review_inv (snd (propose_unwritten ?st1 ?i p s now))
      \<and> review_extends st (snd (propose_unwritten ?st1 ?i p s now))" for s
    using stored [of ?st1 s None] part by (simp add: propose_unwritten_def Let_def)
  show ?thesis
    using written [of Approved] written [of Proposed] decide_hypothesis [of p] unwritten
      assms review_extends_refl [of st]
    by (cases "po_decision ?po") (simp_all add: propose_def Let_def)
qed

lemma approve_ok:
  assumes "review_inv st" "approve st i who ev now = Inr (rec', st')"
  shows "review_inv st' \<and> review_extends st st'"
proof -
  from assms(2) obtain rec where rec: "rv_records st i = Some rec" "pr_status rec = Pending_approval"
    by (auto simp: approve_def split: option.splits if_splits)
  let ?kind = "mp_kind (pr_proposal rec)"
  let ?po = "(pr_outcome rec)\<lparr>po_stored_kind := Some (if ?kind = Hypothesis then Semantic else ?kind)\<rparr>"
  obtain r st1 where w: "write_revision st (pr_proposal rec) ?po now Approved ev = Inr (r, st1)"
    and st': "st' = store_record st1 (new_record i (pr_proposal rec) (pr_outcome rec)
        Approved_status (Some (mr_revision_id r)) now (Some who) None)"
    using assms(2) rec by (auto simp: approve_def result_simps Let_def split: if_splits)
  have ok: "record_ok st i rec" and part: "ledger_part st"
    using assms(1) rec by (auto simp: review_inv_split)
  have vis: "Interviewer \<notin> po_visible_to ?po" using ok decide_visible by (simp add: record_ok_def)
  have w': "ledger_part st1 \<and> rv_ledger st1 = rv_ledger st @ [r] \<and> rv_records st1 = rv_records st
      \<and> rv_next_proposal st1 = rv_next_proposal st"
    using write_revision_part [OF part w vis] by auto
  show ?thesis
    unfolding st' using w' ok rec
    by (intro store_record_ok [OF assms(1)]) (auto simp: new_record_def record_ok_def record_moves_def)
qed

lemma promote_ok:
  assumes "review_inv st" "promote st i ev now = Inr (rec', st')"
  shows "review_inv st' \<and> review_extends st st'"
proof -
  from assms(2) obtain rec v where rec: "rv_records st i = Some rec" "pr_revision_id rec = Some v"
      "pr_status rec \<noteq> Promoted"
    by (auto simp: promote_def split: option.splits if_splits)
  let ?po = "(pr_outcome rec)\<lparr>po_decision := AUTO_ACCEPT, po_reason := Verified_fact,
    po_stored_kind := Some Semantic\<rparr>"
  obtain r st1 where w: "write_revision st (pr_proposal rec) ?po now Approved ev = Inr (r, st1)"
    and st': "st' = store_record st1 (new_record i (pr_proposal rec) (pr_outcome rec)
        Promoted (Some v) now None (Some (mr_revision_id r)))"
    using assms(2) rec by (auto simp: promote_def result_simps Let_def split: if_splits)
  have ok: "record_ok st i rec" and part: "ledger_part st"
    using assms(1) rec by (auto simp: review_inv_split)
  have vis: "Interviewer \<notin> po_visible_to ?po" using ok decide_visible by (simp add: record_ok_def)
  have w': "ledger_part st1 \<and> rv_ledger st1 = rv_ledger st @ [r] \<and> rv_records st1 = rv_records st
      \<and> rv_next_proposal st1 = rv_next_proposal st"
    using write_revision_part [OF part w vis] by auto
  have "pr_status rec \<in> {Written, Approved_status}"
    using ok rec by (cases "pr_status rec") (auto simp: record_ok_def)
  then show ?thesis
    unfolding st' using w' ok rec
    by (intro store_record_ok [OF assms(1)]) (auto simp: new_record_def record_ok_def record_moves_def)
qed

lemma reject_ok:
  assumes "review_inv st" "reject st i who now = Inr (rec', st')"
  shows "review_inv st' \<and> review_extends st st'"
proof -
  from assms(2) obtain rec where rec: "rv_records st i = Some rec" "pr_status rec = Pending_approval"
    and st': "st' = store_record st (new_record i (pr_proposal rec) (pr_outcome rec)
        Rejected_status None now (Some who) None)"
    by (auto simp: reject_def Let_def split: option.splits if_splits)
  have "record_ok st i rec" "ledger_part st" using assms(1) rec by (auto simp: review_inv_split)
  then show ?thesis
    unfolding st' using rec
    by (intro store_record_ok [OF assms(1)]) (auto simp: new_record_def record_ok_def record_moves_def)
qed

text \<open>A copied revision keeps what made its original acceptable.\<close>

lemma copy_ok:
  assumes "review_inv st" "ledger_current (rv_ledger st) m = Some cur"
    and "r = f cur" "mr_revision_id r = rv_next_revision st"
    and "mr_memory_id r = mr_memory_id cur" "mr_kind r = mr_kind cur"
    and "mr_approval r = mr_approval cur" "mr_visible_to r = mr_visible_to cur"
    and "mr_evidence r = mr_evidence cur"
    and "ledger_append (rv_ledger st) r = Inr l"
  shows "review_inv (st\<lparr>rv_ledger := l, rv_next_revision := rv_next_revision st + 1\<rparr>)
    \<and> review_extends st (st\<lparr>rv_ledger := l, rv_next_revision := rv_next_revision st + 1\<rparr>)"
proof -
  let ?st = "st\<lparr>rv_ledger := l, rv_next_revision := rv_next_revision st + 1\<rparr>"
  have part: "ledger_part st" using assms(1) by (simp add: review_inv_split)
  have cur: "cur \<in> set (rv_ledger st)" using ledger_current_in [OF assms(2)] by simp
  then have c: "revision_ok cur" "mr_memory_id cur < rv_next_memory st"
    using part by (auto simp: ledger_part_def)
  then have "revision_ok r" using assms(6-9) by (simp add: revision_ok_def)
  then have "ledger_part ?st"
    using c(2) assms(4,5) by (intro ledger_part_append [OF part assms(10)]) auto
  moreover have "l = rv_ledger st @ [r]"
    using ledger_append_inv [OF _ assms(10)] part by (simp add: ledger_part_def)
  ultimately show ?thesis
    using assms(1) by (auto simp: review_inv_split record_ok_def review_extends_def record_moves_def)
qed

lemma reraise_Inr: "reraise r = Inr a \<longleftrightarrow> r = Inr a"
  by (cases r rule: reraise.cases) auto

lemma correct_ok:
  assumes "review_inv st" "correct st v claim now = Inr (r, st')"
  shows "review_inv st' \<and> review_extends st st'"
proof -
  from assms(2) obtain m cur l where
    m: "ledger_current (rv_ledger st) m = Some cur" and
    r: "r = cur\<lparr>mr_revision_id := rv_next_revision st,
          mr_revision_number := mr_revision_number cur + 1,
          mr_supersedes_revision_id := Some (mr_revision_id cur), mr_claim := claim,
          mr_recorded_at := now\<rparr>" and
    l: "ledger_append (rv_ledger st) r = Inr l" and
    st': "st' = st\<lparr>rv_ledger := l, rv_next_revision := rv_next_revision st + 1\<rparr>"
    by (auto simp: correct_def result_simps reraise_Inr Let_def split: option.splits if_splits)
  show ?thesis
    unfolding st' by (rule copy_ok [OF assms(1) m, of r "\<lambda>_. r"]) (use r l in simp_all)
qed

lemma expire_ok:
  assumes "review_inv st" "expire st v until now = Inr (r, st')"
  shows "review_inv st' \<and> review_extends st st'"
proof -
  from assms(2) obtain m cur l where
    m: "ledger_current (rv_ledger st) m = Some cur" and
    r: "r = cur\<lparr>mr_revision_id := rv_next_revision st,
          mr_revision_number := mr_revision_number cur + 1,
          mr_supersedes_revision_id := Some (mr_revision_id cur), mr_valid_to := Some until,
          mr_recorded_at := now\<rparr>" and
    l: "ledger_append (rv_ledger st) r = Inr l" and
    st': "st' = st\<lparr>rv_ledger := l, rv_next_revision := rv_next_revision st + 1\<rparr>"
    by (auto simp: expire_def result_simps Let_def split: option.splits if_splits)
  show ?thesis
    unfolding st' by (rule copy_ok [OF assms(1) m, of r "\<lambda>_. r"]) (use r l in simp_all)
qed

lemma exec_review_ok:
  assumes "review_inv st" "exec_review st c = Inr st'"
  shows "review_inv st' \<and> review_extends st st'"
  using assms
  by (cases c)
    (auto simp: result_simps dest: approve_ok promote_ok reject_ok correct_ok expire_ok
      intro: propose_ok [THEN conjunct1] propose_ok [THEN conjunct2])

interpretation memory: growing_system exec_review review_inv review_extends
  by unfold_locales
    (auto dest: exec_review_ok intro: review_extends_refl review_extends_trans)

section \<open>Properties\<close>

text \<open>
  C35. The ledger never approves a guess and nobody interviews from memory. In every state any
  sequence of review commands can reach, a revision is approved exactly when it is not a
  hypothesis, every revision cites evidence, and the Interviewer sees nothing at any moment, at any
  sensitivity ceiling and in any scope.
\<close>

theorem memory_never_approves_a_guess:
  "let st = run_commands exec_review empty_review cs in
     list_all (\<lambda>r. (mr_approval r = Approved \<longleftrightarrow> mr_kind r \<noteq> Hypothesis) \<and> mr_evidence r \<noteq> [])
       (rv_ledger st)
     \<and> visible (rv_ledger st) Interviewer now cap scope sref = []"
proof -
  let ?st = "run_commands exec_review empty_review cs"
  have inv: "review_inv ?st" by (rule memory.run_inv [OF empty_review_inv])
  then have ok: "\<forall>r \<in> set (rv_ledger ?st). revision_ok r" by (simp add: review_inv_def)
  have "r \<notin> set (visible (rv_ledger ?st) Interviewer now cap scope sref)" for r
    using ok by (auto simp: set_visible readable_def revision_ok_def dest: ledger_current_in)
  then have "visible (rv_ledger ?st) Interviewer now cap scope sref = []"
    by (metis list.set_intros(1) neq_Nil_conv)
  with ok show ?thesis by (simp add: list_all_iff revision_ok_def Let_def)
qed

text \<open>
  C36. Decisions stick. After any further commands the ledger still begins with the revisions it
  had, every proposal record is still there for the same proposal and outcome, and a proposal that
  was rejected or promoted is exactly as it was.
\<close>

theorem memory_decisions_are_kept:
  "let s = run_commands exec_review empty_review cs;
       t = run_commands exec_review empty_review (cs @ ds)
   in prefix (rv_ledger s) (rv_ledger t)
      \<and> (case rv_records s i of
           None \<Rightarrow> True
         | Some a \<Rightarrow>
             (case rv_records t i of
                None \<Rightarrow> False
              | Some b \<Rightarrow>
                  pr_proposal b = pr_proposal a \<and> pr_outcome b = pr_outcome a
                  \<and> (if pr_status a \<in> {Rejected_status, Promoted} then b = a else True)))"
proof -
  let ?s = "run_commands exec_review empty_review cs"
  let ?t = "run_commands exec_review empty_review (cs @ ds)"
  have "review_extends ?s ?t"
    using memory.run_extends [OF memory.run_inv [OF empty_review_inv], of cs ds]
    by (simp add: run_commands_append)
  then show ?thesis
    by (cases "rv_records ?s i") (fastforce simp: review_extends_def record_moves_def Let_def)+
qed

lemma decide_agent:
  "mp_origin p = Agent_inference \<Longrightarrow> po_decision (decide p) \<noteq> AUTO_ACCEPT
     \<and> (po_decision (decide p) = REJECT \<or> 3 \<le> po_required_evidence (decide p))"
  by (auto simp: decide_def Let_def reject_outcome_def fact_outcome_def hypothesis_outcome_def
      MIN_EVENTS_FOR_TRAIT_def)

lemma visible_new_proposed:
  assumes "mr_approval r \<noteq> Approved" "\<forall>x \<in> set l. mr_memory_id x \<noteq> mr_memory_id r"
  shows "visible (l @ [r]) role now cap scope sref = visible l role now cap scope sref"
proof -
  let ?f = "\<lambda>l m. case ledger_current l m of None \<Rightarrow> []
    | Some r \<Rightarrow> if readable role now cap scope sref r then [r] else []"
  have ids: "unique_ids (map mr_memory_id (l @ [r])) = unique_ids (map mr_memory_id l) @ [mr_memory_id r]"
    using assms(2) by (auto simp: unique_ids_def)
  have e1: "map (?f (l @ [r])) (unique_ids (map mr_memory_id l)) = map (?f l) (unique_ids (map mr_memory_id l))"
    using assms(2) by (auto simp: ledger_current_append)
  have e2: "?f (l @ [r]) (mr_memory_id r) = []"
    using assms(1) by (simp add: ledger_current_append readable_def)
  show ?thesis
    unfolding visible_def
    unfolding ids
    unfolding map_append concat_append e1
    by (simp add: e2)
qed


definition agent_claim :: memory_proposal where
  "agent_claim = \<lparr>mp_kind = Semantic, mp_claim = ''prefers worked examples'',
     mp_origin = Agent_inference, mp_author = Agent_author Tutor, mp_model_run_id = Some 9,
     mp_evidence_kinds = [Ev_conversation], mp_event_count = 5, mp_sensitivity = Routine,
     mp_quoted_source = None, mp_coach_mode_current_answer = False, mp_about_the_person = False\<rparr>"

definition sample_evidence :: "evidence_link list" where
  "sample_evidence = map (\<lambda>i. \<lparr>ev_kind = Ev_activity, ev_reference_id = i\<rparr>) [1, 2, 3]"


text \<open>
  A pending episode can never be approved. When an agent's claim about a personal or sensitive
  episode waits for the learner, its outcome carries the thirty day lifetime of a hypothesis, and
  approving it always raises: an episodic memory may not expire. The learner's approval is lost.
\<close>

theorem pending_episode_cannot_be_approved:
  assumes "rv_records st i = Some rec" and "pr_status rec = Pending_approval"
    and "mp_kind (pr_proposal rec) = Episodic" and "mp_origin (pr_proposal rec) = Agent_inference"
    and "pr_outcome rec = decide (pr_proposal rec)"
    and "po_decision (decide (pr_proposal rec)) = REQUIRE_USER_APPROVAL"
  shows "\<not> is_ok (approve st i who ev now)"
proof -
  let ?p = "pr_proposal rec"
  have ret: "po_retention (decide ?p) = Some (td_days 30)"
    using assms(4,6) by (auto simp: decide_def Let_def reject_outcome_def fact_outcome_def
        hypothesis_outcome_def split: if_splits)
  let ?po = "(decide ?p)\<lparr>po_stored_kind := Some Episodic\<rparr>"
  have "mr_expires_at (draft_revision st ?p ?po Episodic now Approved ev) \<noteq> None"
      "mr_kind (draft_revision st ?p ?po Episodic now Approved ev) = Episodic"
    using ret by (simp_all add: draft_revision_def)
  then have "mk_revision (draft_revision st ?p ?po Episodic now Approved ev) \<noteq> Inr x" for x
    using mk_revision_Inr by blast
  then have "\<not> is_ok (write_revision st ?p ?po now Approved ev)"
    by (auto simp: write_revision_def is_ok_iff result_simps)
  with assms(1-3,5) show ?thesis
    by (auto simp: approve_def is_ok_iff result_simps Let_def)
qed

definition episode_claim :: memory_proposal where
  "episode_claim = agent_claim\<lparr>mp_kind := Episodic, mp_about_the_person := True\<rparr>"

theorem pending_episode_cannot_be_approved_witness:
  "\<exists>rec. rv_records (snd (propose empty_review episode_claim sample_evidence 0)) 1 = Some rec
     \<and> pr_status rec = Pending_approval
     \<and> \<not> is_ok (approve (snd (propose empty_review episode_claim sample_evidence 0)) 1
          ''learner'' sample_evidence 100)"
proof -
  let ?st = "snd (propose empty_review episode_claim sample_evidence 0)"
  have "case rv_records ?st 1 of None \<Rightarrow> False | Some rec \<Rightarrow>
      pr_status rec = Pending_approval \<and> mp_kind (pr_proposal rec) = Episodic
      \<and> mp_origin (pr_proposal rec) = Agent_inference
      \<and> po_decision (decide (pr_proposal rec)) = REQUIRE_USER_APPROVAL" by code_simp
  then obtain rec where rec: "rv_records ?st 1 = Some rec" "pr_status rec = Pending_approval"
      "mp_kind (pr_proposal rec) = Episodic" "mp_origin (pr_proposal rec) = Agent_inference"
      "po_decision (decide (pr_proposal rec)) = REQUIRE_USER_APPROVAL"
    by (auto split: option.splits)
  have "review_inv ?st" using propose_ok [OF empty_review_inv] by blast
  then have "pr_outcome rec = decide (pr_proposal rec)"
    using rec(1) by (auto simp: review_inv_def record_ok_def)
  from pending_episode_cannot_be_approved [OF rec(1-4) this rec(5)] rec(1,2) show ?thesis by blast
qed

text \<open>
  The same claim can be written twice. A proposal the learner has approved still counts as a
  stored hypothesis for promotion: promoting it is accepted and appends a second approved memory
  with the same claim, so a role sees the claim twice.
\<close>

theorem approved_claim_is_promoted_again:
  "map mr_claim (visible (rv_ledger (run_commands exec_review empty_review
      [Propose (agent_claim\<lparr>mp_about_the_person := True\<rparr>) sample_evidence 0,
       Approve 1 ''learner'' sample_evidence 10,
       Promote 1 sample_evidence 20])) Coach 30 Routine None None)
   = [''prefers worked examples'', ''prefers worked examples'']"
  by code_simp

text \<open>
  Expiring a memory can put a revision into the ledger that the contract refuses: an expiry
  before the moment the memory became valid is accepted and recorded with a validity that ends
  before it begins, although constructing that revision raises.
\<close>

theorem expire_skips_validation:
  "let st = run_commands exec_review empty_review
      [Propose (agent_claim\<lparr>mp_origin := From_system, mp_author := System_author,
          mp_evidence_kinds := [Ev_activity]\<rparr>) sample_evidence 1000,
       Expire 1 500 2000]
   in (case ledger_current (rv_ledger st) 1 of
         None \<Rightarrow> False
       | Some r \<Rightarrow> mr_revision_id r = 2 \<and> mr_valid_to r = Some 500 \<and> mr_valid_from r = 1000
                   \<and> mk_revision r = Inl (Validation ''valid_to must come after valid_from''))"
  by code_simp

end
