(* ===== verification/Memory_Context.thy ===== *)
theory Memory_Context
  imports Memory_Safety "HOL-Library.Multiset"
begin

text \<open>
  The context packet of \<^verbatim>\<open>memory/context.py\<close>: every candidate source of a model run is
  decided, the survivors are ordered by the fixed hierarchy, and the token budget is spent in that
  order. What a packet relies on from the ledger is the contract \<open>memory_view\<close>, which the ledger's
  \<open>visible\<close> meets.
\<close>

section \<open>Data\<close>

datatype tier =
    Current_assignment | Current_subject | Rubric_contract | Active_corrections
  | Related_evidence | Active_company | Verified_role_memory | Broader_history

definition HIERARCHY :: "tier list" where
  "HIERARCHY = [Current_assignment, Current_subject, Rubric_contract, Active_corrections,
     Related_evidence, Active_company, Verified_role_memory, Broader_history]"

text \<open>\<^verbatim>\<open>HIERARCHY.index(tier)\<close>\<close>

definition tier_index :: "tier \<Rightarrow> nat" where
  "tier_index t = length (takeWhile (\<lambda>x. x \<noteq> t) HIERARCHY)"

datatype exclusion_reason =
    Interviewer_excluded | Role_not_allowed | Sensitivity_above_ceiling | Other_owner
  | Other_company | Not_current | Coach_current_answer_hidden | Over_budget

fun TIERS_BY_ROLE :: "role \<Rightarrow> tier set" where
  "TIERS_BY_ROLE Planner = set HIERARCHY"
| "TIERS_BY_ROLE Tutor = set HIERARCHY - {Broader_history}"
| "TIERS_BY_ROLE Coach = set HIERARCHY"
| "TIERS_BY_ROLE Reviewer = set HIERARCHY - {Active_company, Broader_history}"
| "TIERS_BY_ROLE Analyst = set HIERARCHY"
| "TIERS_BY_ROLE Interviewer = {}"

definition MAX_ACTIVE_CORRECTIONS :: int where "MAX_ACTIVE_CORRECTIONS = 2"
definition CHARS_PER_TOKEN :: int where "CHARS_PER_TOKEN = 4"

record context_source =
  cs_source_id :: string
  cs_tier :: tier
  cs_owner_id :: int
  cs_text :: string
  cs_sensitivity :: sensitivity
  cs_company_id :: "int option"
  cs_revision_id :: "int option"
  cs_is_current_answer :: bool

definition source_tokens :: "context_source \<Rightarrow> int" where
  "source_tokens s = max 1 (int (length (cs_text s)) div CHARS_PER_TOKEN)"

record context_request =
  cr_owner_id :: int
  cr_role :: role
  cr_ceiling :: sensitivity
  cr_at :: instant
  cr_token_budget :: int
  cr_company_id :: "int option"

definition check_context_request :: "context_request \<Rightarrow> (memory_error, context_request) result" where
  "check_context_request q =
     (if cr_owner_id q \<le> 0 then Inl (ContextError ''a packet is always for one owner'')
      else if cr_token_budget q \<le> 0 then Inl (ContextError ''token budget must be positive'')
      else Inr q)"

record included =
  in_source_id :: string
  in_tier :: tier
  in_position :: nat
  in_tokens :: int
  in_revision_id :: "int option"

record excluded =
  ex_source_id :: string
  ex_tier :: tier
  ex_reason :: exclusion_reason

record context_packet =
  cp_owner_id :: int
  cp_role :: role
  cp_ceiling :: sensitivity
  cp_token_budget :: int
  cp_tokens_used :: int
  cp_included :: "included list"
  cp_excluded :: "excluded list"

section \<open>Building a packet\<close>

definition exclusion :: "context_source \<Rightarrow> context_request \<Rightarrow> int set \<Rightarrow> exclusion_reason option" where
  "exclusion s q current =
    (if cr_role q = Interviewer then Some Interviewer_excluded
     else if cs_tier s \<notin> TIERS_BY_ROLE (cr_role q) then Some Role_not_allowed
     else if cs_owner_id s \<noteq> cr_owner_id q then Some Other_owner
     else if SENSITIVITY_RANK (cr_ceiling q) < SENSITIVITY_RANK (cs_sensitivity s)
       then Some Sensitivity_above_ceiling
     else if cs_company_id s \<noteq> None \<and> cr_company_id q \<noteq> None \<and> cs_company_id s \<noteq> cr_company_id q
       then Some Other_company
     else if (case cs_revision_id s of None \<Rightarrow> False | Some v \<Rightarrow> v \<notin> current) then Some Not_current
     else if cr_role q = Coach \<and> cs_is_current_answer s then Some Coach_current_answer_hidden
     else None)"

definition exclude :: "context_source \<Rightarrow> exclusion_reason \<Rightarrow> excluded" where
  "exclude s why = \<lparr>ex_source_id = cs_source_id s, ex_tier = cs_tier s, ex_reason = why\<rparr>"

definition include_at :: "nat \<Rightarrow> context_source \<Rightarrow> included" where
  "include_at n s = \<lparr>in_source_id = cs_source_id s, in_tier = cs_tier s, in_position = n,
     in_tokens = source_tokens s, in_revision_id = cs_revision_id s\<rparr>"

text \<open>The loop over the survivors, with the corrections taken, the tokens used and both lists.\<close>

fun pack :: "int \<Rightarrow> context_source list \<Rightarrow> int \<Rightarrow> int \<Rightarrow> included list \<Rightarrow> excluded list
    \<Rightarrow> int \<times> included list \<times> excluded list" where
  "pack budget [] taken used inc exc = (used, inc, exc)"
| "pack budget (s # ss) taken used inc exc =
     (if cs_tier s = Active_corrections \<and> MAX_ACTIVE_CORRECTIONS \<le> taken
        then pack budget ss taken used inc (exc @ [exclude s Over_budget])
      else
        let taken' = (if cs_tier s = Active_corrections then taken + 1 else taken) in
        if budget < used + source_tokens s
          then pack budget ss taken' used inc (exc @ [exclude s Over_budget])
        else pack budget ss taken' (used + source_tokens s)
               (inc @ [include_at (length inc) s]) exc)"

definition survivors :: "context_source list \<Rightarrow> context_request \<Rightarrow> int set \<Rightarrow> context_source list" where
  "survivors sources q current =
     sort_key (\<lambda>s. (tier_index (cs_tier s), cs_source_id s))
       (filter (\<lambda>s. exclusion s q current = None) sources)"

definition refused :: "context_source list \<Rightarrow> context_request \<Rightarrow> int set \<Rightarrow> excluded list" where
  "refused sources q current =
     concat (map (\<lambda>s. case exclusion s q current of None \<Rightarrow> [] | Some why \<Rightarrow> [exclude s why]) sources)"

definition build_packet :: "context_source list \<Rightarrow> context_request \<Rightarrow> int set \<Rightarrow> context_packet" where
  "build_packet sources q current =
     (case pack (cr_token_budget q) (survivors sources q current) 0 0 [] (refused sources q current) of
        (used, inc, exc) \<Rightarrow>
          \<lparr>cp_owner_id = cr_owner_id q, cp_role = cr_role q, cp_ceiling = cr_ceiling q,
           cp_token_budget = cr_token_budget q, cp_tokens_used = used,
           cp_included = inc, cp_excluded = exc\<rparr>)"

definition build_context ::
    "context_source list \<Rightarrow> context_request \<Rightarrow> memory_ledger \<Rightarrow> context_packet" where
  "build_context sources q ledger =
     build_packet sources q
       (mr_revision_id ` set (visible ledger (cr_role q) (cr_at q) (cr_ceiling q) None None))"

section \<open>The loop\<close>

lemma pack_accounts:
  assumes "pack budget ss taken used inc exc = (used', inc', exc')" "used \<le> budget"
    "used = sum_list (map in_tokens inc)" "map in_position inc = [0..<length inc]"
  shows "used' = sum_list (map in_tokens inc') \<and> used' \<le> budget
    \<and> map in_position inc' = [0..<length inc']"
  using assms
proof (induction budget ss taken used inc exc rule: pack.induct)
  case (1 budget taken used inc exc)
  then show ?case by auto
next
  case (2 budget s ss taken used inc exc)
  let ?taken = "if cs_tier s = Active_corrections then taken + 1 else taken"
  consider (capped) "cs_tier s = Active_corrections \<and> MAX_ACTIVE_CORRECTIONS \<le> taken"
    | (over) "\<not> (cs_tier s = Active_corrections \<and> MAX_ACTIVE_CORRECTIONS \<le> taken)"
        "budget < used + source_tokens s"
    | (fits) "\<not> (cs_tier s = Active_corrections \<and> MAX_ACTIVE_CORRECTIONS \<le> taken)"
        "used + source_tokens s \<le> budget" by linarith
  then show ?case
  proof cases
    case capped
    with 2 show ?thesis by simp
  next
    case over
    with 2(2) [OF over(1) refl over(2)] 2(4-7) show ?thesis by (simp add: Let_def)
  next
    case fits
    then have "\<not> budget < used + source_tokens s" by simp
    from 2(3) [OF fits(1) refl this] 2(4-7) fits show ?thesis
      by (auto simp: Let_def include_at_def)
  qed
qed

text \<open>The packet is a selection of the survivors in their order, and nothing is lost.\<close>

definition from_source :: "included \<Rightarrow> context_source \<Rightarrow> bool" where
  "from_source i s \<longleftrightarrow> in_source_id i = cs_source_id s \<and> in_tier i = cs_tier s
     \<and> in_tokens i = source_tokens s \<and> in_revision_id i = cs_revision_id s"

lemma pack_selects:
  "pack budget ss taken used inc exc = (used', inc', exc') \<Longrightarrow>
     \<exists>picked. subseq picked ss
       \<and> list_all2 from_source (drop (length inc) inc') picked \<and> take (length inc) inc' = inc
       \<and> mset (map in_source_id inc') + mset (map ex_source_id exc')
         = mset (map in_source_id inc) + mset (map ex_source_id exc) + mset (map cs_source_id ss)
       \<and> int (length (filter (\<lambda>s. cs_tier s = Active_corrections) picked)) + taken
         \<le> max taken MAX_ACTIVE_CORRECTIONS"
proof (induction budget ss taken used inc exc rule: pack.induct)
  case (1 budget taken used inc exc)
  then show ?case by auto
next
  case (2 budget s ss taken used inc exc)
  let ?taken = "if cs_tier s = Active_corrections then taken + 1 else taken"
  consider (capped) "cs_tier s = Active_corrections \<and> MAX_ACTIVE_CORRECTIONS \<le> taken"
    | (over) "\<not> (cs_tier s = Active_corrections \<and> MAX_ACTIVE_CORRECTIONS \<le> taken)"
        "budget < used + source_tokens s"
    | (fits) "\<not> (cs_tier s = Active_corrections \<and> MAX_ACTIVE_CORRECTIONS \<le> taken)"
        "\<not> budget < used + source_tokens s" by linarith
  then show ?case
  proof cases
    case capped
    with 2(1) [OF capped] 2(4) obtain picked where
      "subseq picked ss" "list_all2 from_source (drop (length inc) inc') picked"
      "take (length inc) inc' = inc"
      "mset (map in_source_id inc') + mset (map ex_source_id exc')
        = mset (map in_source_id inc) + mset (map ex_source_id (exc @ [exclude s Over_budget]))
          + mset (map cs_source_id ss)"
      "int (length (filter (\<lambda>s. cs_tier s = Active_corrections) picked)) + taken
        \<le> max taken MAX_ACTIVE_CORRECTIONS"
      by auto
    then show ?thesis by (intro exI [of _ picked]) (auto simp: exclude_def)
  next
    case over
    with 2(2) [OF over(1) refl over(2)] 2(4) obtain picked where
      "subseq picked ss" "list_all2 from_source (drop (length inc) inc') picked"
      "take (length inc) inc' = inc"
      "mset (map in_source_id inc') + mset (map ex_source_id exc')
        = mset (map in_source_id inc) + mset (map ex_source_id (exc @ [exclude s Over_budget]))
          + mset (map cs_source_id ss)"
      "int (length (filter (\<lambda>s. cs_tier s = Active_corrections) picked)) + ?taken
        \<le> max ?taken MAX_ACTIVE_CORRECTIONS"
      by (auto simp: Let_def)
    with over(1) show ?thesis
      by (intro exI [of _ picked]) (auto simp: exclude_def split: if_splits)
  next
    case fits
    let ?inc = "inc @ [include_at (length inc) s]"
    from fits 2(3) [OF fits(1) refl fits(2)] 2(4) obtain picked where
      p: "subseq picked ss" "list_all2 from_source (drop (length ?inc) inc') picked"
      "take (length ?inc) inc' = ?inc"
      "mset (map in_source_id inc') + mset (map ex_source_id exc')
        = mset (map in_source_id ?inc) + mset (map ex_source_id exc) + mset (map cs_source_id ss)"
      "int (length (filter (\<lambda>s. cs_tier s = Active_corrections) picked)) + ?taken
        \<le> max ?taken MAX_ACTIVE_CORRECTIONS"
      by (auto simp: Let_def)
    obtain rest where rest: "inc' = ?inc @ rest" using p(3) by (metis append_take_drop_id)
    have "from_source (include_at (length inc) s) s" by (simp add: from_source_def include_at_def)
    with p rest fits(1) show ?thesis
      by (intro exI [of _ "s # picked"]) (auto simp: include_at_def split: if_splits)
  qed
qed

lemma refused_ids:
  "mset (map ex_source_id (refused sources q current))
    + mset (map cs_source_id (filter (\<lambda>s. exclusion s q current = None) sources))
   = mset (map cs_source_id sources)"
  by (induction sources) (auto simp: refused_def exclude_def split: option.splits)

lemma mset_survivors:
  "mset (map cs_source_id (survivors sources q current))
   = mset (map cs_source_id (filter (\<lambda>s. exclusion s q current = None) sources))"
  by (simp add: survivors_def)

lemma build_packet_selects:
  obtains picked where "subseq picked (survivors sources q current)"
    "list_all2 from_source (cp_included (build_packet sources q current)) picked"
    "mset (map in_source_id (cp_included (build_packet sources q current)))
      + mset (map ex_source_id (cp_excluded (build_packet sources q current)))
     = mset (map cs_source_id sources)"
    "length (filter (\<lambda>s. cs_tier s = Active_corrections) picked) \<le> 2"
proof -
  obtain used inc exc where p: "pack (cr_token_budget q) (survivors sources q current) 0 0 []
      (refused sources q current) = (used, inc, exc)" by (cases "pack (cr_token_budget q)
      (survivors sources q current) 0 0 [] (refused sources q current)")
  from pack_selects [OF p] obtain picked where
    s: "subseq picked (survivors sources q current)" "list_all2 from_source inc picked"
    "mset (map in_source_id inc) + mset (map ex_source_id exc)
      = mset (map ex_source_id (refused sources q current))
        + mset (map cs_source_id (survivors sources q current))"
    "int (length (filter (\<lambda>s. cs_tier s = Active_corrections) picked)) \<le> 2"
    by (auto simp: MAX_ACTIVE_CORRECTIONS_def)
  have "mset (map in_source_id inc) + mset (map ex_source_id exc) = mset (map cs_source_id sources)"
    using s(3) unfolding mset_survivors refused_ids .
  with s that p show ?thesis by (simp add: build_packet_def)
qed

lemma set_subseq: "subseq xs ys \<Longrightarrow> set xs \<subseteq> set ys"
  by (induction rule: list_emb.induct) auto

lemma sorted_subseq: "subseq xs ys \<Longrightarrow> sorted (map f ys) \<Longrightarrow> sorted (map f xs)"
  by (induction rule: list_emb.induct) (auto dest: set_subseq)

lemma length_filter_field: "length (filter (\<lambda>x. f x = a) xs) = length (filter (\<lambda>y. y = a) (map f xs))"
  by (simp add: filter_map comp_def)

section \<open>What a packet relies on\<close>

text \<open>
  The contract of the memory view: whatever it shows a role at a moment under a ceiling is an
  approved revision granted to the role, no more sensitive than the ceiling and in force.
\<close>

locale memory_view =
  fixes view :: "'l \<Rightarrow> role \<Rightarrow> instant \<Rightarrow> sensitivity \<Rightarrow> memory_revision list"
  assumes view_sound: "r \<in> set (view l role now cap) \<Longrightarrow>
    mr_approval r = Approved \<and> role \<in> mr_visible_to r
    \<and> SENSITIVITY_RANK (mr_sensitivity r) \<le> SENSITIVITY_RANK cap \<and> in_force r now"
begin

definition view_ids :: "'l \<Rightarrow> context_request \<Rightarrow> int set" where
  "view_ids l q = mr_revision_id ` set (view l (cr_role q) (cr_at q) (cr_ceiling q))"

lemma included_memory_sound:
  assumes "i \<in> set (cp_included (build_packet sources q (view_ids l q)))"
    and "in_revision_id i = Some v"
  shows "\<exists>r \<in> set (view l (cr_role q) (cr_at q) (cr_ceiling q)).
    mr_revision_id r = v \<and> mr_approval r = Approved \<and> cr_role q \<in> mr_visible_to r
    \<and> SENSITIVITY_RANK (mr_sensitivity r) \<le> SENSITIVITY_RANK (cr_ceiling q) \<and> in_force r (cr_at q)"
proof -
  obtain picked where p: "subseq picked (survivors sources q (view_ids l q))"
    "list_all2 from_source (cp_included (build_packet sources q (view_ids l q))) picked"
    by (rule build_packet_selects)
  then obtain s where s: "s \<in> set picked" "from_source i s"
    using assms(1) by (auto simp: list_all2_conv_all_nth in_set_conv_nth) metis
  have "s \<in> set (survivors sources q (view_ids l q))"
    using s(1) p(1) by (auto dest: set_subseq)
  then have "exclusion s q (view_ids l q) = None" by (simp add: survivors_def)
  moreover have "cs_revision_id s = Some v" using s(2) assms(2) by (simp add: from_source_def)
  ultimately have "v \<in> view_ids l q" by (auto simp: exclusion_def split: if_splits)
  then show ?thesis using view_sound by (auto simp: view_ids_def)
qed

end

interpretation ledger_view: memory_view "\<lambda>l role now cap. visible l role now cap None None"
  by unfold_locales (simp add: set_visible readable_def)

lemma build_context_view: "build_context sources q ledger =
    build_packet sources q (ledger_view.view_ids ledger q)"
  by (simp add: build_context_def ledger_view.view_ids_def)

section \<open>Properties\<close>

text \<open>
  C38. A packet leaks nothing. Every source in it is one of the candidates, belongs to the owner the
  packet is for, is in a tier the role may receive, is not above the sensitivity ceiling, is not of
  another company than the one asked about, is not the answer a Coach is coaching, and if it cites
  a memory then an approved revision of that id, granted to the role and in force, is in the
  ledger. A packet for the Interviewer is empty.
\<close>

theorem context_packet_leaks_nothing:
  "list_all (\<lambda>i. \<exists>s. s \<in> set sources \<and> from_source i s
       \<and> cr_role q \<noteq> Interviewer \<and> cs_tier s \<in> TIERS_BY_ROLE (cr_role q)
       \<and> cs_owner_id s = cr_owner_id q
       \<and> SENSITIVITY_RANK (cs_sensitivity s) \<le> SENSITIVITY_RANK (cr_ceiling q)
       \<and> (cs_company_id s = None \<or> cr_company_id q = None \<or> cs_company_id s = cr_company_id q)
       \<and> \<not> (cr_role q = Coach \<and> cs_is_current_answer s)
       \<and> (case cs_revision_id s of None \<Rightarrow> True
          | Some v \<Rightarrow> \<exists>r. r \<in> set ledger \<and> mr_revision_id r = v \<and> mr_approval r = Approved
              \<and> cr_role q \<in> mr_visible_to r \<and> in_force r (cr_at q)))
     (cp_included (build_context sources q ledger))"
  unfolding list_all_iff
proof
  fix i
  assume i: "i \<in> set (cp_included (build_context sources q ledger))"
  let ?ids = "ledger_view.view_ids ledger q"
  obtain picked where p: "subseq picked (survivors sources q ?ids)"
    "list_all2 from_source (cp_included (build_context sources q ledger)) picked"
    unfolding build_context_view by (rule build_packet_selects)
  then obtain s where s: "s \<in> set picked" "from_source i s"
    using i by (auto simp: list_all2_conv_all_nth in_set_conv_nth) metis
  have "s \<in> set (survivors sources q ?ids)" using s(1) p(1) by (auto dest: set_subseq)
  then have src: "s \<in> set sources" and none: "exclusion s q ?ids = None"
    by (simp_all add: survivors_def)
  have mem: "\<exists>r. r \<in> set ledger \<and> mr_revision_id r = v \<and> mr_approval r = Approved
      \<and> cr_role q \<in> mr_visible_to r \<and> in_force r (cr_at q)" if "cs_revision_id s = Some v" for v
    using ledger_view.included_memory_sound [OF i [unfolded build_context_view]] s(2) that
    by (fastforce simp: from_source_def set_visible dest: ledger_current_in)
  have filters: "cr_role q \<noteq> Interviewer \<and> cs_tier s \<in> TIERS_BY_ROLE (cr_role q)
      \<and> cs_owner_id s = cr_owner_id q
      \<and> SENSITIVITY_RANK (cs_sensitivity s) \<le> SENSITIVITY_RANK (cr_ceiling q)
      \<and> (cs_company_id s = None \<or> cr_company_id q = None \<or> cs_company_id s = cr_company_id q)
      \<and> \<not> (cr_role q = Coach \<and> cs_is_current_answer s)"
    using none by (simp add: exclusion_def split: if_splits)
  show "\<exists>s. s \<in> set sources \<and> from_source i s
       \<and> cr_role q \<noteq> Interviewer \<and> cs_tier s \<in> TIERS_BY_ROLE (cr_role q)
       \<and> cs_owner_id s = cr_owner_id q
       \<and> SENSITIVITY_RANK (cs_sensitivity s) \<le> SENSITIVITY_RANK (cr_ceiling q)
       \<and> (cs_company_id s = None \<or> cr_company_id q = None \<or> cs_company_id s = cr_company_id q)
       \<and> \<not> (cr_role q = Coach \<and> cs_is_current_answer s)
       \<and> (case cs_revision_id s of None \<Rightarrow> True
          | Some v \<Rightarrow> \<exists>r. r \<in> set ledger \<and> mr_revision_id r = v \<and> mr_approval r = Approved
              \<and> cr_role q \<in> mr_visible_to r \<and> in_force r (cr_at q))"
    using src s(2) filters mem by (intro exI [of _ s]) (auto split: option.split)
qed

text \<open>
  C39. The packet's accounts are right. Every candidate appears exactly once, included or excluded;
  the included sources follow the hierarchy and are numbered from zero; the tokens used are the sum
  of theirs and, for an accepted request, within the budget; and at most two active corrections are
  in it.
\<close>

theorem context_packet_accounts:
  assumes "check_context_request q = Inr q"
  shows "let p = build_context sources q ledger in
    mset (map in_source_id (cp_included p)) + mset (map ex_source_id (cp_excluded p))
      = mset (map cs_source_id sources)
    \<and> sorted (map (\<lambda>i. tier_index (in_tier i)) (cp_included p))
    \<and> map in_position (cp_included p) = [0..<length (cp_included p)]
    \<and> cp_tokens_used p = sum_list (map in_tokens (cp_included p))
    \<and> cp_tokens_used p \<le> cr_token_budget q
    \<and> length (filter (\<lambda>i. in_tier i = Active_corrections) (cp_included p)) \<le> 2"
proof -
  let ?ids = "ledger_view.view_ids ledger q"
  let ?p = "build_packet sources q ?ids"
  obtain picked where k: "subseq picked (survivors sources q ?ids)"
    "list_all2 from_source (cp_included ?p) picked"
    "mset (map in_source_id (cp_included ?p)) + mset (map ex_source_id (cp_excluded ?p))
      = mset (map cs_source_id sources)"
    "length (filter (\<lambda>s. cs_tier s = Active_corrections) picked) \<le> 2"
    by (rule build_packet_selects)
  have tiers: "map in_tier (cp_included ?p) = map cs_tier picked"
    using k(2) by (auto simp: list_all2_conv_all_nth from_source_def intro!: nth_equalityI)
  have "sorted (map (\<lambda>s. (tier_index (cs_tier s), cs_source_id s)) (survivors sources q ?ids))"
    by (simp add: survivors_def)
  then have "sorted (map (\<lambda>s. tier_index (cs_tier s)) (survivors sources q ?ids))"
    by (auto simp: sorted_map elim!: sorted_wrt_mono_rel [rotated] simp: less_eq_prod_def)
  then have "sorted (map (\<lambda>s. tier_index (cs_tier s)) picked)" by (rule sorted_subseq [OF k(1)])
  moreover have "map (\<lambda>s. tier_index (cs_tier s)) picked
      = map (\<lambda>i. tier_index (in_tier i)) (cp_included ?p)"
    using arg_cong [OF tiers, of "map tier_index"] by (simp add: comp_def)
  moreover have "length (filter (\<lambda>i. in_tier i = Active_corrections) (cp_included ?p)) \<le> 2"
    using k(4) unfolding length_filter_field [of in_tier] length_filter_field [of cs_tier] tiers .
  moreover obtain used inc exc where pk: "pack (cr_token_budget q) (survivors sources q ?ids) 0 0 []
      (refused sources q ?ids) = (used, inc, exc)" by (cases "pack (cr_token_budget q)
      (survivors sources q ?ids) 0 0 [] (refused sources q ?ids)")
  moreover have "0 \<le> cr_token_budget q" using assms
    by (auto simp: check_context_request_def split: if_splits)
  ultimately show ?thesis
    using k(3) pack_accounts [OF pk] by (simp add: build_context_view build_packet_def Let_def)
qed

definition sample_source :: "string \<Rightarrow> tier \<Rightarrow> nat \<Rightarrow> context_source" where
  "sample_source i t n = \<lparr>cs_source_id = i, cs_tier = t, cs_owner_id = 1,
     cs_text = replicate n (CHR ''x''), cs_sensitivity = Routine, cs_company_id = None,
     cs_revision_id = None, cs_is_current_answer = False\<rparr>"

definition sample_request :: context_request where
  "sample_request = \<lparr>cr_owner_id = 1, cr_role = Coach, cr_ceiling = Routine, cr_at = 0,
     cr_token_budget = 10, cr_company_id = None\<rparr>"

theorem context_packet_accounts_witness:
  "let p = build_context [sample_source ''b'' Broader_history 8, sample_source ''a'' Current_subject 8]
       sample_request [] in
   sorted (map (\<lambda>i. tier_index (in_tier i)) (cp_included p)) \<and> cp_tokens_used p \<le> 10"
proof -
  have "check_context_request sample_request = Inr sample_request" by code_simp
  from context_packet_accounts [OF this, of
      "[sample_source ''b'' Broader_history 8, sample_source ''a'' Current_subject 8]" "[]"]
  show ?thesis by (simp add: Let_def sample_request_def)
qed

text \<open>
  The budget does not trim from the bottom only. A source that does not fit is skipped and the
  loop goes on: with a budget of ten tokens, a current assignment of twenty tokens is left out as
  over budget while a source of broader history, the last tier, is included.
\<close>

theorem budget_can_trim_from_the_top:
  "let p = build_context [sample_source ''assignment'' Current_assignment 80,
       sample_source ''old'' Broader_history 8] sample_request [] in
   map in_tier (cp_included p) = [Broader_history]
   \<and> map ex_tier (cp_excluded p) = [Current_assignment]
   \<and> map ex_reason (cp_excluded p) = [Over_budget]"
  by code_simp

end
