(* ===== verification/Evidence_Config.thy ===== *)
theory Evidence_Config
  imports Decimal Strings
begin

text \<open>
  The checked-in scoring configuration, \<^verbatim>\<open>evidence/config_models.py\<close>: exercise types and
  their skill impacts, the factor tables and thresholds of a scoring formula, and rubrics, with
  the field constraints and the model validators a configuration passes before any score is
  computed. A \<^verbatim>\<open>Decimal\<close> field is its exact value.
\<close>

section \<open>Field constraints\<close>

definition slug_ok :: "string \<Rightarrow> bool" where
  "slug_ok s \<longleftrightarrow>
     (case s of [] \<Rightarrow> False
      | c # cs \<Rightarrow> is_lower c \<and> length cs \<le> 63 \<and>
          list_all (\<lambda>d. is_lower d \<or> is_digit d \<or> d = CHR ''_'') cs)"

definition version_key_ok :: "string \<Rightarrow> bool" where
  "version_key_ok s \<longleftrightarrow>
     (case s of [] \<Rightarrow> False
      | c # cs \<Rightarrow> (is_lower c \<or> is_digit c) \<and> length cs \<le> 63 \<and>
          list_all (\<lambda>d. is_lower d \<or> is_digit d \<or>
                        d \<in> {CHR ''.'', CHR ''_'', CHR ''-''}) cs)"

definition weight_ok :: "rat \<Rightarrow> bool" where
  "weight_ok w \<longleftrightarrow> 0 < w \<and> w \<le> 1 \<and> places 6 w"

definition factor_ok :: "rat \<Rightarrow> bool" where
  "factor_ok w \<longleftrightarrow> 0 \<le> w \<and> w \<le> 115 / 100 \<and> places 6 w"

definition effective_weight_ok :: "rat \<Rightarrow> bool" where
  "effective_weight_ok w \<longleftrightarrow> 0 \<le> w \<and> w \<le> 1000 \<and> places 6 w"

definition prior_weight_ok :: "rat \<Rightarrow> bool" where
  "prior_weight_ok w \<longleftrightarrow> 0 < w \<and> w \<le> 1000 \<and> places 6 w"

definition discount_factor_ok :: "rat \<Rightarrow> bool" where
  "discount_factor_ok w \<longleftrightarrow> 0 < w \<and> w < 1 \<and> places 6 w"

definition maximum_event_weight_ok :: "rat \<Rightarrow> bool" where
  "maximum_event_weight_ok w \<longleftrightarrow> 0 < w \<and> w \<le> 115 / 100 \<and> places 6 w"

section \<open>Exercise types\<close>

record skill_impact_config =
  skill_slug :: string
  impact_weight :: rat
  impact_condition :: string

record child_exercise_ref =
  ref_exercise_type :: string
  ref_mapping_version :: string

record composite_metric_config =
  metric_slug :: string
  metric_weight :: rat

record exercise_type_config =
  exercise_slug :: string
  exercise_mapping_version :: string
  evidence_mode :: string
  impacts :: "skill_impact_config list"
  tags :: "string list"
  condition_note :: "string option"
  required_precommit_field :: "string option"
  allowed_domain_competencies :: "string list"
  allowed_story_competencies :: "string list"
  selected_impact :: "rat option"
  composite_metrics :: "composite_metric_config list"
  component_scoring_required :: bool
  child_exercise_type_refs :: "child_exercise_ref list"

datatype config_error = ConfigError string

definition allowed_selected_competencies :: "exercise_type_config \<Rightarrow> string list" where
  "allowed_selected_competencies e =
     (if allowed_domain_competencies e \<noteq> [] then allowed_domain_competencies e
      else allowed_story_competencies e)"

text \<open>
  \<^verbatim>\<open>value not in (None, False)\<close> compares by \<^verbatim>\<open>==\<close>, so it also drops a selected impact
  equal to zero; a \<^verbatim>\<open>Weight\<close> is positive, so that case does not arise after validation.
\<close>

definition validate_selector_shape ::
    "exercise_type_config \<Rightarrow> (config_error, exercise_type_config) result" where
  "validate_selector_shape e =
     (let present = [required_precommit_field e \<noteq> None,
                     allowed_selected_competencies e \<noteq> [],
                     selected_impact e \<noteq> None \<and> selected_impact e \<noteq> Some 0]
      in if list_ex (\<lambda>b. b) present \<and> \<not> list_all (\<lambda>b. b) present
         then Inl (ConfigError ''dynamic selector requires field, allowlist, and selected impact'')
         else if allowed_domain_competencies e \<noteq> [] \<and> allowed_story_competencies e \<noteq> []
         then Inl (ConfigError ''dynamic selector must use exactly one allowlist'')
         else if required_precommit_field e = Some ''domain_competency_slug'' \<and>
                 allowed_domain_competencies e = []
         then Inl (ConfigError ''domain selector requires domain competency allowlist'')
         else if required_precommit_field e = Some ''story_competency_slug'' \<and>
                 allowed_story_competencies e = []
         then Inl (ConfigError ''story selector requires story competency allowlist'')
         else if component_scoring_required e \<noteq> (child_exercise_type_refs e \<noteq> [])
         then Inl (ConfigError ''component scoring and child exercise references must agree'')
         else Inr e)"

text \<open>A dictionary comprehension keeps the last of several equal keys.\<close>

definition skill_impacts :: "exercise_type_config \<Rightarrow> string \<Rightarrow> skill_impact_config option" where
  "skill_impacts e slug = find (\<lambda>i. skill_slug i = slug) (rev (impacts e))"

definition composite_metric_weights :: "exercise_type_config \<Rightarrow> string \<Rightarrow> rat option" where
  "composite_metric_weights e slug =
     map_option metric_weight (find (\<lambda>m. metric_slug m = slug) (rev (composite_metrics e)))"

section \<open>The scoring formula\<close>

record practice_mode_factors =
  exposure_only :: rat
  guided_practice :: rat
  independent_practice :: rat
  timed_assessment :: rat
  mock_interview :: rat
  real_interview :: rat

record assistance_factors =
  no_ai :: rat
  ai_after_committed_attempt :: rat
  ai_hints_during_attempt :: rat
  ai_co_created :: rat
  ai_generated :: rat

record evaluator_factors =
  evaluator_self :: rat
  ai_rubric_reviewer :: rat
  peer :: rat
  human_coach :: rat
  explicit_interviewer_feedback :: rat

record difficulty_factors =
  introductory :: rat
  standard :: rat
  advanced :: rat

record confidence_rules =
  high_minimum_effective_weight :: rat
  high_minimum_exercise_types :: nat
  high_recent_assessment_days :: nat
  high_requires_reviewed_artifact_or_recording :: bool
  medium_minimum_effective_weight :: rat
  medium_minimum_exercise_types :: nat
  medium_requires_independent_attempt :: bool

definition validate_threshold_order ::
    "confidence_rules \<Rightarrow> (config_error, confidence_rules) result" where
  "validate_threshold_order r =
     (if high_minimum_effective_weight r < medium_minimum_effective_weight r
      then Inl (ConfigError ''high confidence threshold must be at least medium'')
      else if high_minimum_exercise_types r < medium_minimum_exercise_types r
      then Inl (ConfigError ''high confidence exercise count must be at least medium'')
      else Inr r)"

record recency_rules =
  fresh_max_days :: nat
  aging_max_days :: nat

definition validate_window_order :: "recency_rules \<Rightarrow> (config_error, recency_rules) result" where
  "validate_window_order r =
     (if aging_max_days r < fresh_max_days r
      then Inl (ConfigError ''fresh recency must not exceed aging recency'') else Inr r)"

record trend_rules =
  recent_event_count :: nat
  preceding_event_count :: nat
  minimum_delta :: rat

definition trend_rules_ok :: "trend_rules \<Rightarrow> bool" where
  "trend_rules_ok r \<longleftrightarrow>
     0 < recent_event_count r \<and> recent_event_count r \<le> 1000 \<and>
     0 < preceding_event_count r \<and> preceding_event_count r \<le> 1000 \<and>
     0 < minimum_delta r \<and> minimum_delta r \<le> 4 \<and> places 3 (minimum_delta r)"

record formula_config =
  formula_version :: string
  prior_weight :: rat
  latest_qualifying_events :: nat
  full_weight_same_day_limit :: nat
  same_day_repetition_factor :: rat
  maximum_effective_weight_per_event :: rat
  performance_scale_min :: rat
  performance_scale_max :: rat
  practice_modes :: practice_mode_factors
  assistances :: assistance_factors
  evaluators :: evaluator_factors
  difficulties :: difficulty_factors
  qualifying_modes :: "string set"
  qualifying_assistance :: "string set"
  requires_rubric_score :: bool
  independent_practice_requires_attempt_a :: bool
  attempt_b_qualifies :: bool
  confidence :: confidence_rules
  trend :: trend_rules
  recency :: recency_rules

definition formula_validate_scale :: "formula_config \<Rightarrow> (config_error, formula_config) result" where
  "formula_validate_scale f =
     (if qualifying_modes f \<noteq>
           {''independent_practice'', ''timed_assessment'', ''mock_interview'', ''real_interview''}
      then Inl (ConfigError ''qualifying modes are fixed by the scoring contract'')
      else if qualifying_assistance f \<noteq> {''no_ai'', ''ai_after_committed_attempt''}
      then Inl (ConfigError ''qualifying assistance is fixed by the scoring contract'')
      else if performance_scale_min f < 0 \<or> 4 < performance_scale_max f
      then Inl (ConfigError ''performance scale must remain within 0 and 4'')
      else if performance_scale_max f \<le> performance_scale_min f
      then Inl (ConfigError ''performance scale maximum must be greater than minimum'')
      else Inr f)"

text \<open>
  \<^verbatim>\<open>getattr(group, name)\<close> on the four factor tables: the declared fields, by name.
\<close>

definition practice_mode_factor :: "practice_mode_factors \<Rightarrow> string \<rightharpoonup> rat" where
  "practice_mode_factor g = map_of
     [(''exposure_only'', exposure_only g), (''guided_practice'', guided_practice g),
      (''independent_practice'', independent_practice g),
      (''timed_assessment'', timed_assessment g), (''mock_interview'', mock_interview g),
      (''real_interview'', real_interview g)]"

definition assistance_factor :: "assistance_factors \<Rightarrow> string \<rightharpoonup> rat" where
  "assistance_factor g = map_of
     [(''no_ai'', no_ai g), (''ai_after_committed_attempt'', ai_after_committed_attempt g),
      (''ai_hints_during_attempt'', ai_hints_during_attempt g),
      (''ai_co_created'', ai_co_created g), (''ai_generated'', ai_generated g)]"

definition evaluator_factor :: "evaluator_factors \<Rightarrow> string \<rightharpoonup> rat" where
  "evaluator_factor g = map_of
     [(''self'', evaluator_self g), (''ai_rubric_reviewer'', ai_rubric_reviewer g),
      (''peer'', peer g), (''human_coach'', human_coach g),
      (''explicit_interviewer_feedback'', explicit_interviewer_feedback g)]"

definition difficulty_factor :: "difficulty_factors \<Rightarrow> string \<rightharpoonup> rat" where
  "difficulty_factor g = map_of
     [(''introductory'', introductory g), (''standard'', standard g), (''advanced'', advanced g)]"

text \<open>What a \<^verbatim>\<open>FormulaConfig\<close> that was constructed satisfies.\<close>

definition confidence_rules_ok :: "confidence_rules \<Rightarrow> bool" where
  "confidence_rules_ok r \<longleftrightarrow>
     effective_weight_ok (high_minimum_effective_weight r) \<and>
     effective_weight_ok (medium_minimum_effective_weight r) \<and>
     0 < high_minimum_exercise_types r \<and> high_minimum_exercise_types r \<le> 1000 \<and>
     0 < medium_minimum_exercise_types r \<and> medium_minimum_exercise_types r \<le> 1000 \<and>
     0 < high_recent_assessment_days r \<and> high_recent_assessment_days r \<le> 3650 \<and>
     is_ok (validate_threshold_order r)"

definition recency_rules_ok :: "recency_rules \<Rightarrow> bool" where
  "recency_rules_ok r \<longleftrightarrow>
     fresh_max_days r \<le> 3650 \<and> 0 < aging_max_days r \<and> aging_max_days r \<le> 3650 \<and>
     is_ok (validate_window_order r)"

definition factors_ok :: "formula_config \<Rightarrow> bool" where
  "factors_ok f \<longleftrightarrow>
     (let p = practice_modes f; a = assistances f; e = evaluators f; d = difficulties f
      in list_all factor_ok
           [exposure_only p, guided_practice p, independent_practice p, timed_assessment p,
            mock_interview p, real_interview p,
            no_ai a, ai_after_committed_attempt a, ai_hints_during_attempt a, ai_co_created a,
            ai_generated a,
            evaluator_self e, ai_rubric_reviewer e, peer e, human_coach e,
            explicit_interviewer_feedback e,
            introductory d, standard d, advanced d])"

definition formula_ok :: "formula_config \<Rightarrow> bool" where
  "formula_ok f \<longleftrightarrow>
     version_key_ok (formula_version f) \<and> prior_weight_ok (prior_weight f) \<and>
     0 < latest_qualifying_events f \<and> latest_qualifying_events f \<le> 1000 \<and>
     0 < full_weight_same_day_limit f \<and> full_weight_same_day_limit f \<le> 1000 \<and>
     discount_factor_ok (same_day_repetition_factor f) \<and>
     maximum_event_weight_ok (maximum_effective_weight_per_event f) \<and>
     factors_ok f \<and>
     requires_rubric_score f \<and> independent_practice_requires_attempt_a f \<and>
     \<not> attempt_b_qualifies f \<and>
     confidence_rules_ok (confidence f) \<and> trend_rules_ok (trend f) \<and>
     recency_rules_ok (recency f) \<and>
     is_ok (formula_validate_scale f)"

section \<open>Rubrics\<close>

record rubric_dimension_config =
  dimension_slug :: string
  dimension_name :: string
  dimension_maximum :: rat
  dimension_weight :: rat
  availability_rule :: string

record rubric_config =
  rubric_slug :: string
  rubric_version :: string
  rubric_name :: string
  rubric_scope :: string
  scale_min :: rat
  scale_max :: rat
  dimensions :: "rubric_dimension_config list"

definition rubric_validate_scale :: "rubric_config \<Rightarrow> (config_error, rubric_config) result" where
  "rubric_validate_scale r =
     (if scale_min r < 0 \<or> 20 < scale_max r
      then Inl (ConfigError ''rubric scale must remain within 0 and 20'')
      else if scale_max r \<le> scale_min r
      then Inl (ConfigError ''scale maximum must be greater than minimum'')
      else Inr r)"

definition rubric_dimension_ok :: "rubric_dimension_config \<Rightarrow> bool" where
  "rubric_dimension_ok d \<longleftrightarrow>
     slug_ok (dimension_slug d) \<and> 0 < dimension_maximum d \<and> dimension_maximum d \<le> 20 \<and>
     weight_ok (dimension_weight d)"

definition rubric_ok :: "rubric_config \<Rightarrow> bool" where
  "rubric_ok r \<longleftrightarrow>
     slug_ok (rubric_slug r) \<and> version_key_ok (rubric_version r) \<and>
     list_all rubric_dimension_ok (dimensions r) \<and> is_ok (rubric_validate_scale r)"

section \<open>Lemmas\<close>

lemma factor_lookups_ok:
  assumes "factors_ok f"
  shows "practice_mode_factor (practice_modes f) n = Some v \<Longrightarrow> factor_ok v"
    and "assistance_factor (assistances f) n = Some v \<Longrightarrow> factor_ok v"
    and "evaluator_factor (evaluators f) n = Some v \<Longrightarrow> factor_ok v"
    and "difficulty_factor (difficulties f) n = Some v \<Longrightarrow> factor_ok v"
  using assms
  by (auto simp: factors_ok_def Let_def practice_mode_factor_def assistance_factor_def
      evaluator_factor_def difficulty_factor_def split: if_splits)

lemma formula_okD:
  assumes "formula_ok f"
  shows "prior_weight_ok (prior_weight f)"
    and "0 < latest_qualifying_events f" "latest_qualifying_events f \<le> 1000"
    and "discount_factor_ok (same_day_repetition_factor f)"
    and "maximum_event_weight_ok (maximum_effective_weight_per_event f)"
    and "factors_ok f" "trend_rules_ok (trend f)" "confidence_rules_ok (confidence f)"
    and "qualifying_modes f =
      {''independent_practice'', ''timed_assessment'', ''mock_interview'', ''real_interview''}"
    and "qualifying_assistance f = {''no_ai'', ''ai_after_committed_attempt''}"
  using assms unfolding formula_ok_def formula_validate_scale_def
  by (auto simp only: is_ok.simps split: if_splits)

end
