(* ===== verification/Weighted_Mean.thy ===== *)
theory Weighted_Mean
  imports Decimal
begin

text \<open>
  Weighted means in decimal arithmetic. A running pair of a weighted sum and a weight sum stays
  inside the hull of the scores it has seen, in spite of the rounding of every product and sum,
  and so does the quotient. The rubric score, the skill estimate and the trend averages all
  rest on these facts.
\<close>

definition weighted_hull :: "rat \<Rightarrow> rat \<Rightarrow> rat \<Rightarrow> rat \<Rightarrow> bool" where
  "weighted_hull l h s w \<longleftrightarrow> 0 \<le> w \<and> places 6 w \<and> l * w \<le> s \<and> s \<le> h * w"

definition hull_bounds :: "rat \<Rightarrow> rat \<Rightarrow> bool" where
  "hull_bounds l h \<longleftrightarrow> 0 \<le> l \<and> l \<le> h \<and> h \<le> 20 \<and> places 3 l \<and> places 3 h"

lemma weighted_hull_start: "weighted_hull l h 0 0"
  by (simp add: weighted_hull_def)

lemma dec_fix_between:
  assumes "l \<le> x" "x \<le> h" "0 \<le> l" "h \<le> 10 ^ 18" "places 9 l" "places 9 h"
  shows "l \<le> dec_fix x" "dec_fix x \<le> h"
proof -
  have "\<bar>x\<bar> < 10 ^ (28 - 9)" using assms by (simp add: abs_if)
  moreover have "l \<le> 0 \<or> x \<noteq> 0" "0 \<le> h" using assms by linarith+
  ultimately show "l \<le> dec_fix x" "dec_fix x \<le> h"
    using assms dec_fix_ge [of l x 9] dec_fix_le [of x h 9] by auto
qed

lemma hull_places:
  assumes "hull_bounds l h" "places 6 w"
  shows "places 9 (l * w)" "places 9 (h * w)"
  using assms places_mult [of 3 l 6 w] places_mult [of 3 h 6 w] by (auto simp: hull_bounds_def)

lemma dec_add_weights:
  assumes "places 6 v" "places 6 w" "0 \<le> v" "0 \<le> w" "v + w \<le> 10 ^ 9"
  shows "dec_add v w = v + w"
  unfolding dec_add_def using assms by (intro dec_fix_exact [where k = 6] places_add) auto

lemma hull_scale:
  assumes "hull_bounds l h" "0 \<le> w" "w \<le> 10 ^ 9"
  shows "0 \<le> l * w" "h * w \<le> 10 ^ 18"
proof -
  show "0 \<le> l * w" using assms by (simp add: hull_bounds_def)
  have "h * w \<le> 20 * 10 ^ 9" using assms unfolding hull_bounds_def by (intro mult_mono) auto
  then show "h * w \<le> 10 ^ 18" by simp
qed

text \<open>The product of one score and one weight.\<close>

lemma dec_mul_hull:
  assumes "hull_bounds l h" "l \<le> s" "s \<le> h" "0 \<le> w" "w \<le> 10 ^ 9" "places 6 w"
  shows "weighted_hull l h (dec_mul s w) w"
proof -
  have "l * w \<le> s * w" "s * w \<le> h * w" using assms by (auto intro: mult_right_mono)
  then have "l * w \<le> dec_fix (s * w)" "dec_fix (s * w) \<le> h * w"
    using dec_fix_between [of "l * w" "s * w" "h * w"] hull_scale [OF assms(1,4,5)]
      hull_places [OF assms(1,6)] by simp_all
  with assms show ?thesis by (simp add: weighted_hull_def dec_mul_def)
qed

text \<open>Two running pairs added up.\<close>

lemma dec_add_hull:
  assumes "hull_bounds l h" "weighted_hull l h s v" "weighted_hull l h t w" "v + w \<le> 10 ^ 9"
  shows "weighted_hull l h (dec_add s t) (v + w)"
proof -
  have lo: "l * (v + w) \<le> s + t" and hi: "s + t \<le> h * (v + w)"
    using assms by (auto simp: weighted_hull_def distrib_left)
  have p: "0 \<le> v + w" "places 6 (v + w)" using assms by (auto simp: weighted_hull_def places_add)
  have "l * (v + w) \<le> dec_fix (s + t)" "dec_fix (s + t) \<le> h * (v + w)"
    using dec_fix_between [OF lo hi] hull_scale [OF assms(1) p(1) assms(4)]
      hull_places [OF assms(1) p(2)] by simp_all
  with p show ?thesis by (simp add: weighted_hull_def dec_add_def)
qed

lemma dec_div_hull:
  assumes "hull_bounds l h" "weighted_hull l h s w" "0 < w"
  shows "l \<le> dec_div s w" "dec_div s w \<le> h"
proof -
  have "l \<le> s / w" "s / w \<le> h" using assms by (auto simp: weighted_hull_def field_simps)
  moreover have "0 \<le> l" "h \<le> 10 ^ 18" "places 9 l" "places 9 h"
    using assms by (auto simp: hull_bounds_def intro: places_mono)
  ultimately show "l \<le> dec_div s w" "dec_div s w \<le> h"
    using dec_fix_between [of l "s / w" h] by (auto simp: dec_div_def)
qed

text \<open>Quantizing a mean to three places neither raises nor leaves the hull.\<close>

lemma quantize_hull:
  assumes "hull_bounds l h" "l \<le> x" "x \<le> h"
  obtains y where "quantize i round_half_up 3 x = Inr y" "l \<le> y" "y \<le> h" "places 3 y"
proof -
  have "\<exists>y. quantize i round_half_up 3 x = Inr y"
    using assms by (intro half_up.quantize_defined [of l x h]) (auto simp: hull_bounds_def abs_if)
  then obtain y where y: "quantize i round_half_up 3 x = Inr y" by blast
  with assms half_up.quantize_le [OF y, of h] half_up.quantize_ge [OF y, of l]
    quantize_places [OF y] show ?thesis by (intro that) (auto simp: hull_bounds_def)
qed

text \<open>Whole sums, as \<^verbatim>\<open>sum(..., Decimal("0"))\<close> computes them.\<close>

lemma dec_sum_weights:
  assumes "list_all (\<lambda>w. 0 \<le> w \<and> w \<le> b \<and> places 6 w) ws" "0 \<le> b"
    and "of_nat (length ws) * b \<le> 10 ^ 9"
  shows "dec_sum ws = sum_list ws \<and> places 6 (sum_list ws) \<and> 0 \<le> sum_list ws
    \<and> sum_list ws \<le> of_nat (length ws) * b"
  using assms
proof (induction ws rule: rev_induct)
  case Nil
  then show ?case by (simp add: dec_sum_def)
next
  case (snoc w ws)
  then have "of_nat (length ws) * b + b \<le> 10 ^ 9" by (simp add: algebra_simps)
  then have IH: "dec_sum ws = sum_list ws" "places 6 (sum_list ws)" "0 \<le> sum_list ws"
    "sum_list ws \<le> of_nat (length ws) * b" and w: "0 \<le> w" "w \<le> b" "places 6 w"
    using snoc by auto
  then have "sum_list ws + w \<le> 10 ^ 9"
    using \<open>of_nat (length ws) * b + b \<le> 10 ^ 9\<close> by linarith
  with IH w have "dec_add (sum_list ws) w = sum_list ws + w" by (intro dec_add_weights)
  with IH w show ?case by (simp add: dec_sum_def places_add algebra_simps)
qed

lemma dec_sum_hull:
  assumes "hull_bounds l h" "list_all (\<lambda>(s, w). weighted_hull l h s w \<and> w \<le> b) sws" "0 \<le> b"
    and "of_nat (length sws) * b \<le> 10 ^ 9"
  shows "weighted_hull l h (dec_sum (map fst sws)) (sum_list (map snd sws))
    \<and> sum_list (map snd sws) \<le> of_nat (length sws) * b"
  using assms
proof (induction sws rule: rev_induct)
  case Nil
  then show ?case by (simp add: dec_sum_def weighted_hull_start)
next
  case (snoc x sws)
  obtain s w where x: "x = (s, w)" by (cases x)
  from snoc.prems have "of_nat (length sws) * b + b \<le> 10 ^ 9" by (simp add: algebra_simps)
  then have IH: "weighted_hull l h (dec_sum (map fst sws)) (sum_list (map snd sws))"
    "sum_list (map snd sws) \<le> of_nat (length sws) * b"
    and w: "weighted_hull l h s w" "w \<le> b"
    using snoc x by auto
  have "sum_list (map snd sws) + w \<le> 10 ^ 9"
    using IH(2) w(2) \<open>of_nat (length sws) * b + b \<le> 10 ^ 9\<close> by linarith
  from dec_add_hull [OF assms(1) IH(1) w(1) this] IH(2) w(2) x show ?case
    by (simp add: dec_sum_def algebra_simps)
qed

lemma sum_list_pos: "xs \<noteq> [] \<Longrightarrow> \<forall>x \<in> set xs. 0 < x \<Longrightarrow> 0 < sum_list xs" for xs :: "rat list"
proof (induction xs)
  case (Cons x xs)
  then show ?case by (cases "xs = []") (auto intro: add_pos_pos)
qed simp

end
