(* ===== verification/Evidence_Scoring.thy ===== *)
theory Evidence_Scoring
  imports Evidence_Config Weighted_Mean
begin

text \<open>
  Scoring one piece of evidence and deciding what it counts for, \<^verbatim>\<open>evidence/scoring.py\<close> and
  \<^verbatim>\<open>evidence/qualification.py\<close>: the weighted rubric score, the effective weight of an
  event, the impact an exercise has on a skill, the fail-closed qualification rules, and the
  competency ladder that moves on qualifying evidence only.
\<close>

section \<open>Scores\<close>

text \<open>
  \<open>InvalidOperation\<close> and \<open>DivisionByZero\<close> are the exceptions of \<^verbatim>\<open>decimal\<close>. An argument that
  \<^verbatim>\<open>_decimal\<close> has to look at is a finite value or anything else (\<open>Unusable\<close>: an infinity,
  a NaN, an object of another type).
\<close>

datatype evidence_error =
    ScoringError string
  | QualificationError string
  | CompetencyAdvanceError string
  | EvidenceEstimateError string
  | PortfolioScoringError string
  | InvalidOperation
  | DivisionByZero

datatype number = Finite rat | Unusable

fun checked_decimal :: "number \<Rightarrow> string \<Rightarrow> (evidence_error, rat) result" where
  "checked_decimal (Finite x) name = Inr x"
| "checked_decimal Unusable name = Inl (ScoringError (name @ '' must be a finite Decimal''))"

definition score_quantum :: "rat \<Rightarrow> (evidence_error, rat) result" where
  "score_quantum x = quantize InvalidOperation round_half_up 3 x"

definition weight_quantum :: "rat \<Rightarrow> (evidence_error, rat) result" where
  "weight_quantum x = quantize InvalidOperation round_half_up 6 x"

definition divide_decimal :: "rat \<Rightarrow> rat \<Rightarrow> (evidence_error, rat) result" where
  "divide_decimal a b =
     (if b = 0 then Inl (if a = 0 then InvalidOperation else DivisionByZero)
      else Inr (dec_div a b))"

record dimension_score_input =
  dim_slug :: string
  dim_score :: number
  dim_weight :: number

record performance_score_result =
  perf_score :: rat
  perf_weighted_sum :: rat
  perf_weight_sum :: rat

fun sum_dimensions ::
    "string set \<Rightarrow> rat \<Rightarrow> rat \<Rightarrow> dimension_score_input list
     \<Rightarrow> (evidence_error, rat \<times> rat) result" where
  "sum_dimensions seen weighted_sum weight_sum [] = Inr (weighted_sum, weight_sum)"
| "sum_dimensions seen weighted_sum weight_sum (d # ds) =
     (if blank (dim_slug d) \<or> dim_slug d \<in> seen
      then Inl (ScoringError ''dimension slugs must be nonblank and unique'')
      else bind_result (checked_decimal (dim_score d) ''dimension score'') (\<lambda>score.
        bind_result (checked_decimal (dim_weight d) ''dimension weight'') (\<lambda>weight.
          if \<not> (0 \<le> score \<and> score \<le> 4)
          then Inl (ScoringError ''dimension score must be between 0 and 4'')
          else if weight \<le> 0
          then Inl (ScoringError ''dimension weight must be greater than zero'')
          else sum_dimensions (insert (dim_slug d) seen)
                 (dec_add weighted_sum (dec_mul score weight)) (dec_add weight_sum weight) ds)))"

definition calculate_performance_score ::
    "dimension_score_input list \<Rightarrow> (evidence_error, performance_score_result) result" where
  "calculate_performance_score ds =
     (if ds = [] then Inl (ScoringError ''at least one rubric dimension is required'')
      else bind_result (sum_dimensions {} 0 0 ds) (\<lambda>(weighted_sum, weight_sum).
        if weight_sum \<le> 0
        then Inl (ScoringError ''dimension weight denominator must be greater than zero'')
        else bind_result (divide_decimal weighted_sum weight_sum) (\<lambda>mean.
          bind_result (score_quantum mean) (\<lambda>score.
            if \<not> (0 \<le> score \<and> score \<le> 4)
            then Inl (ScoringError ''performance score escaped the configured scale'')
            else Inr \<lparr>perf_score = score, perf_weighted_sum = weighted_sum,
                      perf_weight_sum = weight_sum\<rparr>))))"

section \<open>Weights\<close>

record effective_weight_factors =
  fac_skill_impact :: rat
  fac_practice_mode :: rat
  fac_assistance :: rat
  fac_evaluator :: rat
  fac_difficulty :: rat

record effective_weight_result =
  ew_factors :: effective_weight_factors
  ew_raw_weight :: rat
  ew_effective_weight :: rat
  ew_capped :: bool

record skill_impact_result =
  sir_weight :: rat
  sir_source :: string

text \<open>
  \<open>lookup\<close> is \<^verbatim>\<open>getattr\<close> on a factor table. A name that is an attribute of the model class
  but no factor (such as \<^verbatim>\<open>copy\<close>) also ends in \<^verbatim>\<open>ScoringError\<close>, with the message of
  \<^verbatim>\<open>_decimal\<close>.
\<close>

definition factor_named ::
    "(string \<rightharpoonup> rat) \<Rightarrow> string \<Rightarrow> string \<Rightarrow> (evidence_error, rat) result" where
  "factor_named lookup name category =
     (case lookup name of
        None \<Rightarrow> Inl (ScoringError (''unknown '' @ category @ '' factor''))
      | Some v \<Rightarrow> checked_decimal (Finite v) (category @ '' factor''))"

definition calculate_effective_weight ::
    "number \<Rightarrow> string \<Rightarrow> string \<Rightarrow> string \<Rightarrow> string \<Rightarrow> formula_config
     \<Rightarrow> (evidence_error, effective_weight_result) result" where
  "calculate_effective_weight skill_impact practice_mode assistance evaluator difficulty formula =
     bind_result (checked_decimal skill_impact ''skill impact'') (\<lambda>impact.
       if \<not> (0 \<le> impact \<and> impact \<le> 1)
       then Inl (ScoringError ''skill impact must be between 0 and 1'')
       else bind_result
         (if practice_mode = ''pipeline_only'' then Inr 0
          else factor_named (practice_mode_factor (practice_modes formula)) practice_mode
                 ''practice mode'') (\<lambda>practice.
       bind_result (factor_named (assistance_factor (assistances formula)) assistance
                      ''assistance'') (\<lambda>assist.
       bind_result (factor_named (evaluator_factor (evaluators formula)) evaluator
                      ''evaluator'') (\<lambda>evalu.
       bind_result (factor_named (difficulty_factor (difficulties formula)) difficulty
                      ''difficulty'') (\<lambda>diffi.
       bind_result (weight_quantum
           (dec_mul (dec_mul (dec_mul (dec_mul impact practice) assist) evalu) diffi)) (\<lambda>raw.
       bind_result (weight_quantum (maximum_effective_weight_per_event formula)) (\<lambda>maximum.
         Inr \<lparr>ew_factors = \<lparr>fac_skill_impact = impact, fac_practice_mode = practice,
                            fac_assistance = assist, fac_evaluator = evalu,
                            fac_difficulty = diffi\<rparr>,
              ew_raw_weight = raw, ew_effective_weight = min raw maximum,
              ew_capped = (maximum < raw)\<rparr>)))))))"

definition resolve_skill_impact ::
    "exercise_type_config \<Rightarrow> string \<Rightarrow> string set \<Rightarrow> string option \<Rightarrow> bool
     \<Rightarrow> (evidence_error, skill_impact_result) result" where
  "resolve_skill_impact exercise skill conditions_met selected_competency committed =
     (let mapped =
        (case skill_impacts exercise skill of
           None \<Rightarrow> Inr \<lparr>sir_weight = 0, sir_source = ''unmapped''\<rparr>
         | Some impact \<Rightarrow>
             if impact_condition impact \<noteq> ''always'' \<and> impact_condition impact \<notin> conditions_met
             then Inr \<lparr>sir_weight = 0, sir_source = ''condition_not_met''\<rparr>
             else Inr \<lparr>sir_weight = impact_weight impact, sir_source = ''exercise_mapping''\<rparr>)
      in case selected_competency of
           None \<Rightarrow> mapped
         | Some selected \<Rightarrow>
             if required_precommit_field exercise = None \<or> \<not> committed \<or>
                selected \<notin> set (allowed_selected_competencies exercise)
             then Inl (ScoringError ''dynamic impact requires a valid precommit selection'')
             else if skill = selected
             then (case selected_impact exercise of
                     None \<Rightarrow> Inl (ScoringError ''dynamic impact has no configured weight'')
                   | Some w \<Rightarrow> Inr \<lparr>sir_weight = w, sir_source = ''precommit_selector''\<rparr>)
             else mapped)"

section \<open>Qualification\<close>

datatype event_id = IntId int | StrId string

fun str_event_id :: "event_id \<Rightarrow> string" where
  "str_event_id (IntId i) = int_str i"
| "str_event_id (StrId s) = s"

record evidence_candidate =
  cand_event_id :: event_id
  cand_rubric_scored :: bool
  cand_practice_mode :: string
  cand_assistance :: string
  cand_evaluator :: string
  cand_attempt_kind :: string
  cand_exercise_type :: string
  cand_mapping_version :: string
  cand_scenario_key :: string
  cand_occurred_at :: datetime
  cand_ai_role :: string
  cand_required_precommit_field :: "string option"
  cand_selected_competency :: "string option"
  cand_allowed_selected_competencies :: "string set"
  cand_selector_committed_before_attempt :: bool

definition candidate_post_init ::
    "evidence_candidate \<Rightarrow> (evidence_error, evidence_candidate) result" where
  "candidate_post_init c =
     (if \<not> aware (cand_occurred_at c)
      then Inl (QualificationError ''occurred_at must be timezone-aware'')
      else if blank (cand_exercise_type c)
      then Inl (QualificationError ''exercise_type must not be blank'')
      else if blank (cand_mapping_version c)
      then Inl (QualificationError ''mapping_version must not be blank'')
      else if blank (cand_scenario_key c)
      then Inl (QualificationError ''scenario_key must not be blank'')
      else if blank (cand_ai_role c)
      then Inl (QualificationError ''ai_role must not be blank'')
      else Inr c)"

record qualification_result =
  qualifying_for_level :: bool
  qualification_reason :: string

definition disqualified :: "string \<Rightarrow> qualification_result" where
  "disqualified r = \<lparr>qualifying_for_level = False, qualification_reason = r\<rparr>"

definition qualify_evidence :: "formula_config \<Rightarrow> evidence_candidate \<Rightarrow> qualification_result" where
  "qualify_evidence formula c =
     (if requires_rubric_score formula \<and> \<not> cand_rubric_scored c
      then disqualified ''missing_rubric_score''
      else if cand_practice_mode c \<notin> qualifying_modes formula
      then disqualified ''nonqualifying_mode''
      else if cand_assistance c \<notin> qualifying_assistance formula
      then disqualified ''nonqualifying_assistance''
      else if evaluator_factor (evaluators formula) (cand_evaluator c) = None
      then disqualified ''unknown_evaluator''
      else if \<not> attempt_b_qualifies formula \<and> cand_attempt_kind c = ''attempt_b''
      then disqualified ''attempt_b''
      else if independent_practice_requires_attempt_a formula \<and>
              cand_practice_mode c = ''independent_practice'' \<and>
              cand_attempt_kind c \<noteq> ''attempt_a''
      then disqualified ''independent_requires_attempt_a''
      else if cand_required_precommit_field c \<noteq> None \<and> cand_selected_competency c = None
      then disqualified ''missing_precommit_selector''
      else if cand_required_precommit_field c \<noteq> None \<and>
              (\<not> cand_selector_committed_before_attempt c \<or>
               the (cand_selected_competency c) \<notin> cand_allowed_selected_competencies c)
      then disqualified ''invalid_precommit_selector''
      else \<lparr>qualifying_for_level = True, qualification_reason = ''qualifies''\<rparr>)"

definition qualifies_as_transfer ::
    "evidence_candidate \<Rightarrow> evidence_candidate \<Rightarrow> formula_config \<Rightarrow> bool" where
  "qualifies_as_transfer prior candidate formula \<longleftrightarrow>
     qualifying_for_level (qualify_evidence formula prior) \<and>
     qualifying_for_level (qualify_evidence formula candidate) \<and>
     cand_attempt_kind candidate = ''attempt_a'' \<and>
     instant_of (cand_occurred_at prior) < instant_of (cand_occurred_at candidate) \<and>
     cand_scenario_key candidate \<noteq> cand_scenario_key prior"

section \<open>The competency ladder\<close>

text \<open>
  The three values of \<^verbatim>\<open>CompetencyLevel\<close>; a string outside the \<^verbatim>\<open>Literal\<close> is
  \<open>UnknownLevel\<close>, which the run-time checks refuse.
\<close>

datatype competency_level = NotStarted | Practicing | Demonstrated | UnknownLevel string
datatype readiness = NotReady | PartiallyReady | Ready

definition COMPETENCY_LADDER :: "competency_level list" where
  "COMPETENCY_LADDER = [NotStarted, Practicing, Demonstrated]"

record competency_advance =
  level :: competency_level
  qualifying_event_ids :: "event_id list"
  advance_reason :: string

definition advance_post_init ::
    "competency_advance \<Rightarrow> (evidence_error, competency_advance) result" where
  "advance_post_init a =
     (if level a \<notin> set COMPETENCY_LADDER
      then Inl (CompetencyAdvanceError ''unknown competency level'')
      else if level a \<noteq> NotStarted \<and> qualifying_event_ids a = []
      then Inl (CompetencyAdvanceError ''a level above not_started must cite its evidence'')
      else if length (remdups (qualifying_event_ids a)) \<noteq> length (qualifying_event_ids a)
      then Inl (CompetencyAdvanceError ''an event counts once'')
      else Inr a)"

fun index_of :: "'a \<Rightarrow> 'a list \<Rightarrow> nat" where
  "index_of x [] = 0"
| "index_of x (y # ys) = (if x = y then 0 else Suc (index_of x ys))"

definition advance_competency ::
    "formula_config \<Rightarrow> competency_level \<Rightarrow> event_id list \<Rightarrow> evidence_candidate
     \<Rightarrow> (evidence_error, competency_advance) result" where
  "advance_competency formula current kept candidate =
     (if current \<notin> set COMPETENCY_LADDER
      then Inl (CompetencyAdvanceError ''unknown competency level'')
      else let q = qualify_evidence formula candidate in
        if \<not> qualifying_for_level q
        then advance_post_init \<lparr>level = current, qualifying_event_ids = kept,
                                advance_reason = qualification_reason q\<rparr>
        else if cand_event_id candidate \<in> set kept
        then advance_post_init \<lparr>level = current, qualifying_event_ids = kept,
                                advance_reason = ''already_counted''\<rparr>
        else advance_post_init
          \<lparr>level = COMPETENCY_LADDER !
                     min (index_of current COMPETENCY_LADDER + 1) (length COMPETENCY_LADDER - 1),
           qualifying_event_ids = kept @ [cand_event_id candidate],
           advance_reason = ''qualifies''\<rparr>)"

definition readiness_from :: "(string \<times> competency_level) list \<Rightarrow> readiness" where
  "readiness_from levels =
     (if levels = [] then NotReady
      else let demonstrated = length (filter (\<lambda>l. snd l = Demonstrated) levels) in
        if demonstrated = length levels then Ready
        else if 0 < demonstrated \<or> list_ex (\<lambda>l. snd l = Practicing) levels then PartiallyReady
        else NotReady)"

section \<open>Rubric scores stay in the hull of their dimensions\<close>

fun number_value :: "number \<Rightarrow> rat" where
  "number_value (Finite x) = x"
| "number_value Unusable = 0"

text \<open>A dimension with a weight a rubric allows and a score between two bounds.\<close>

definition dimension_within :: "rat \<Rightarrow> rat \<Rightarrow> dimension_score_input \<Rightarrow> bool" where
  "dimension_within l h d \<longleftrightarrow>
     \<not> blank (dim_slug d) \<and>
     (case dim_score d of Finite s \<Rightarrow> l \<le> s \<and> s \<le> h | Unusable \<Rightarrow> False) \<and>
     (case dim_weight d of Finite w \<Rightarrow> weight_ok w | Unusable \<Rightarrow> False)"

lemma dimension_withinE:
  assumes "dimension_within l h d"
  obtains s w where "dim_score d = Finite s" "dim_weight d = Finite w" "l \<le> s" "s \<le> h"
    "weight_ok w" "\<not> blank (dim_slug d)"
  using assms by (auto simp: dimension_within_def split: number.splits)

lemma sum_dimensions_hull:
  assumes "hull_bounds l h" "h \<le> 4" "list_all (dimension_within l h) ds"
    and "distinct (map dim_slug ds)" "\<forall>d \<in> set ds. dim_slug d \<notin> seen"
    and "weighted_hull l h s w" "w + of_nat (length ds) \<le> 10 ^ 9"
  shows "\<exists>s'. sum_dimensions seen s w ds =
      Inr (s', w + sum_list (map (\<lambda>d. number_value (dim_weight d)) ds))
    \<and> weighted_hull l h s' (w + sum_list (map (\<lambda>d. number_value (dim_weight d)) ds))"
  using assms
proof (induction ds arbitrary: seen s w)
  case Nil
  then show ?case by simp
next
  case (Cons d ds)
  from Cons.prems(3) have "dimension_within l h d" by simp
  then obtain x v where d: "dim_score d = Finite x" "dim_weight d = Finite v" "l \<le> x" "x \<le> h"
    "weight_ok v" "\<not> blank (dim_slug d)" by (rule dimension_withinE)
  have v: "0 < v" "v \<le> 1" "places 6 v" using d(5) by (auto simp: weight_ok_def)
  have w: "0 \<le> w" "places 6 w" using Cons.prems(6) by (auto simp: weighted_hull_def)
  have le: "w + v + of_nat (length ds) \<le> 10 ^ 9" using Cons.prems(7) v by simp
  then have wv: "w + v \<le> 10 ^ 9" by (smt (verit) of_nat_0_le_iff add_increasing2 order_trans
        le_add_same_cancel1)
  have "weighted_hull l h (dec_mul x v) v"
    using dec_mul_hull [OF Cons.prems(1) d(3,4)] v by simp
  then have h: "weighted_hull l h (dec_add s (dec_mul x v)) (w + v)"
    using dec_add_hull Cons.prems(1,6) wv by blast
  have e: "dec_add w v = w + v" using dec_add_weights w v wv by simp
  have "0 \<le> x" "x \<le> 4" using d Cons.prems(1,2) by (auto simp: hull_bounds_def)
  then have step: "sum_dimensions seen s w (d # ds) =
      sum_dimensions (insert (dim_slug d) seen) (dec_add s (dec_mul x v)) (w + v) ds"
    using d v e Cons.prems(5) by simp
  have "\<forall>d' \<in> set ds. dim_slug d' \<notin> insert (dim_slug d) seen"
    using Cons.prems(4,5) by (force simp: image_iff)
  from Cons.IH [OF Cons.prems(1,2) _ _ this h le] Cons.prems(3,4) d(2) show ?case
    unfolding step by (simp add: add.assoc)
qed

text \<open>
  A rubric's score is a mean of its dimension scores, never outside them: for any non-empty
  list of dimensions with distinct non-blank slugs, weights the configuration allows and scores
  between two bounds of three decimal places on the 0 to 4 scale, the calculation returns a score
  with three decimal places between the same bounds, and the exact sum of the weights, in spite
  of the rounding of every intermediate product and sum.
\<close>

theorem performance_score_in_hull:
  assumes "ds \<noteq> []" "length ds \<le> 10 ^ 6" "distinct (map dim_slug ds)"
    and "list_all (dimension_within l h) ds" "hull_bounds l h" "h \<le> 4"
  shows "\<exists>r. calculate_performance_score ds = Inr r
    \<and> l \<le> perf_score r \<and> perf_score r \<le> h \<and> places 3 (perf_score r)
    \<and> perf_weight_sum r = sum_list (map (\<lambda>d. number_value (dim_weight d)) ds)"
proof -
  let ?W = "sum_list (map (\<lambda>d. number_value (dim_weight d)) ds)"
  have len: "(of_nat (length ds) :: rat) \<le> 10 ^ 9"
  proof -
    have "(of_nat (length ds) :: rat) \<le> of_nat (10 ^ 6)" using assms(2) by (simp only: of_nat_le_iff)
    then show ?thesis by simp
  qed
  obtain s where s: "sum_dimensions {} 0 0 ds = Inr (s, ?W)" "weighted_hull l h s ?W"
    using sum_dimensions_hull [OF assms(5,6,4,3) _ weighted_hull_start, of "{}"] len by auto
  have "0 < ?W"
  proof -
    have "0 < number_value (dim_weight d)" if "d \<in> set ds" for d
    proof -
      have "dimension_within l h d" using assms(4) that by (simp add: list_all_iff)
      then show ?thesis by (auto simp: weight_ok_def elim: dimension_withinE)
    qed
    with assms(1) show ?thesis by (intro sum_list_pos) auto
  qed
  note b = dec_div_hull [OF assms(5) s(2) this]
  obtain y where "quantize InvalidOperation round_half_up 3 (dec_div s ?W) = Inr y"
    "l \<le> y" "y \<le> h" "places 3 y" by (rule quantize_hull [OF assms(5) b])
  moreover have "0 \<le> l" using assms(5) by (simp add: hull_bounds_def)
  ultimately show ?thesis
    using assms(1,6) s(1) \<open>0 < ?W\<close>
    by (simp add: calculate_performance_score_def divide_decimal_def score_quantum_def)
qed

definition example_dimensions :: "dimension_score_input list" where
  "example_dimensions =
     [\<lparr>dim_slug = ''clarity'', dim_score = Finite 3, dim_weight = Finite (1 / 2)\<rparr>,
      \<lparr>dim_slug = ''depth'', dim_score = Finite (5 / 2), dim_weight = Finite (1 / 4)\<rparr>]"

lemma places_halves [simp]: "places 6 (1 / 2)" "places 6 (1 / 4)" "places 3 (5 / 2)"
  by (simp_all add: places_def Ints_def)

theorem performance_score_in_hull_witness:
  "\<exists>r. calculate_performance_score example_dimensions = Inr r
    \<and> 5 / 2 \<le> perf_score r \<and> perf_score r \<le> 3 \<and> places 3 (perf_score r)
    \<and> perf_weight_sum r = 3 / 4"
  using performance_score_in_hull [of example_dimensions "5 / 2" 3]
  by (simp add: example_dimensions_def dimension_within_def hull_bounds_def weight_ok_def blank_iff
      is_space_def)

section \<open>Event weights are capped\<close>

lemma dec_mul_bounds:
  assumes "0 \<le> x" "x \<le> b" "factor_ok y" "b * (115 / 100) \<le> c" "c \<le> 2" "places 9 c" "0 \<le> b"
  shows "0 \<le> dec_mul x y" "dec_mul x y \<le> c"
proof -
  have "x * y \<le> b * (115 / 100)" using assms unfolding factor_ok_def by (intro mult_mono) auto
  then have hi: "x * y \<le> c" using assms(4) by linarith
  have lo: "0 \<le> x * y" using assms by (simp add: factor_ok_def)
  have "c \<le> 10 ^ 18" using assms(5) by simp
  from dec_fix_between [OF lo hi _ this _ assms(6)] show "0 \<le> dec_mul x y" "dec_mul x y \<le> c"
    by (simp_all add: dec_mul_def)
qed

text \<open>The product of an impact and four factors of at most 1.15 stays below 2.\<close>

lemma factor_product_bounds:
  assumes "0 \<le> i" "i \<le> 1" "factor_ok p" "factor_ok a" "factor_ok e" "factor_ok d"
  shows "0 \<le> dec_mul (dec_mul (dec_mul (dec_mul i p) a) e) d
    \<and> dec_mul (dec_mul (dec_mul (dec_mul i p) a) e) d \<le> 2"
proof -
  have p: "places 9 (115 / 100)" "places 9 (133 / 100)" "places 9 (153 / 100)"
    by (simp_all add: places_def)
  have 1: "0 \<le> dec_mul i p" "dec_mul i p \<le> 115 / 100"
    using dec_mul_bounds [OF assms(1,2,3), of "115 / 100"] p by simp_all
  have 2: "0 \<le> dec_mul (dec_mul i p) a" "dec_mul (dec_mul i p) a \<le> 133 / 100"
    using dec_mul_bounds [OF 1 assms(4), of "133 / 100"] p by simp_all
  have 3: "0 \<le> dec_mul (dec_mul (dec_mul i p) a) e" "dec_mul (dec_mul (dec_mul i p) a) e \<le> 153 / 100"
    using dec_mul_bounds [OF 2 assms(5), of "153 / 100"] p by simp_all
  show ?thesis using dec_mul_bounds [OF 3 assms(6), of 2] by simp
qed

lemma weight_quantum_within:
  assumes "0 \<le> x" "x \<le> 2"
  obtains y where "weight_quantum x = Inr y" "0 \<le> y" "y \<le> 2" "places 6 y"
proof -
  have "\<exists>y. weight_quantum x = Inr y"
    unfolding weight_quantum_def using assms by (intro half_up.quantize_defined [of 0 x 2]) auto
  then obtain y where y: "quantize InvalidOperation round_half_up 6 x = Inr y"
    by (auto simp: weight_quantum_def)
  show ?thesis
    using half_up.quantize_le [OF y assms(2)] half_up.quantize_ge [OF y assms(1)]
      quantize_places [OF y] y by (intro that) (auto simp: weight_quantum_def)
qed

lemma weight_quantum_exact:
  assumes "0 \<le> x" "x \<le> 2" "places 6 x"
  shows "weight_quantum x = Inr x"
  unfolding weight_quantum_def using assms by (intro half_up.quantize_exact) auto

lemma dec_mul_zero [simp]: "dec_mul 0 y = 0" "dec_mul x 0 = 0"
  by (simp_all add: dec_mul_def dec_fix_def)

text \<open>The names the formula's tables know.\<close>

definition names_known :: "formula_config \<Rightarrow> string \<Rightarrow> string \<Rightarrow> string \<Rightarrow> string \<Rightarrow> bool" where
  "names_known f mode assistance evaluator difficulty \<longleftrightarrow>
     (mode = ''pipeline_only'' \<or> practice_mode_factor (practice_modes f) mode \<noteq> None) \<and>
     assistance_factor (assistances f) assistance \<noteq> None \<and>
     evaluator_factor (evaluators f) evaluator \<noteq> None \<and>
     difficulty_factor (difficulties f) difficulty \<noteq> None"

lemma factor_named_Inr: "factor_named m n c = Inr v \<longleftrightarrow> m n = Some v"
  by (auto simp: factor_named_def split: option.splits)

lemma effective_weight_known:
  assumes f: "formula_ok f" and i: "0 \<le> i" "i \<le> 1" and k: "names_known f p a e d"
  shows "\<exists>r. calculate_effective_weight (Finite i) p a e d f = Inr r
    \<and> 0 \<le> ew_effective_weight r
    \<and> ew_effective_weight r \<le> maximum_effective_weight_per_event f
    \<and> places 6 (ew_effective_weight r)
    \<and> (p = ''pipeline_only'' \<longrightarrow> ew_effective_weight r = 0)
    \<and> ew_capped r = (maximum_effective_weight_per_event f < ew_raw_weight r)"
proof -
  let ?M = "maximum_effective_weight_per_event f"
  have M: "0 < ?M" "?M \<le> 115 / 100" "places 6 ?M"
    using formula_okD(5) [OF f] by (auto simp: maximum_event_weight_ok_def)
  note ok = factor_lookups_ok [OF formula_okD(6) [OF f]]
  obtain fp where fp: "(if p = ''pipeline_only'' then Inr 0
      else factor_named (practice_mode_factor (practice_modes f)) p ''practice mode'') = Inr fp"
    "factor_ok fp" "p = ''pipeline_only'' \<Longrightarrow> fp = 0"
  proof (cases "p = ''pipeline_only''")
    case True
    show ?thesis by (rule that [of 0]) (simp_all add: True factor_ok_def)
  next
    case False
    with k obtain v where v: "practice_mode_factor (practice_modes f) p = Some v"
      by (auto simp: names_known_def)
    show ?thesis by (rule that [of v]) (simp_all add: False v ok(1) [OF v] factor_named_Inr)
  qed
  obtain fa fe fd where l: "assistance_factor (assistances f) a = Some fa"
    "evaluator_factor (evaluators f) e = Some fe" "difficulty_factor (difficulties f) d = Some fd"
    using k by (auto simp: names_known_def)
  let ?x = "dec_mul (dec_mul (dec_mul (dec_mul i fp) fa) fe) fd"
  have x: "0 \<le> ?x" "?x \<le> 2" using factor_product_bounds [OF i fp(2) ok(2) [OF l(1)]
        ok(3) [OF l(2)] ok(4) [OF l(3)]] by simp_all
  obtain y where y: "weight_quantum ?x = Inr y" "0 \<le> y" "y \<le> 2" "places 6 y"
    by (rule weight_quantum_within [OF x])
  have z: "y = 0" if "p = ''pipeline_only''"
  proof -
    have "?x = 0" using fp(3) [OF that] by simp
    with y(1) weight_quantum_exact [of 0] show ?thesis by simp
  qed
  have "weight_quantum ?M = Inr ?M" using M by (intro weight_quantum_exact) auto
  then show ?thesis
    unfolding calculate_effective_weight_def
    using i fp(1) l y z M by (simp add: factor_named_def min_def)
qed

text \<open>
  Every event weight a valid formula gives is within the formula's cap. For an impact on the
  0 to 1 scale the calculation succeeds exactly when the four names are in the formula's tables
  (or the mode is \<^verbatim>\<open>pipeline_only\<close>), the result is between zero and the configured maximum,
  pipeline-only work weighs nothing, and the capped flag says whether the raw weight was cut.
\<close>

theorem effective_weight_capped:
  assumes "formula_ok f" "0 \<le> impact" "impact \<le> 1"
  shows "case calculate_effective_weight (Finite impact) mode assistance evaluator difficulty f of
      Inl _ \<Rightarrow> \<not> names_known f mode assistance evaluator difficulty
    | Inr r \<Rightarrow> names_known f mode assistance evaluator difficulty
        \<and> 0 \<le> ew_effective_weight r
        \<and> ew_effective_weight r \<le> maximum_effective_weight_per_event f
        \<and> places 6 (ew_effective_weight r)
        \<and> (if mode = ''pipeline_only'' then ew_effective_weight r = 0 else True)
        \<and> ew_capped r = (maximum_effective_weight_per_event f < ew_raw_weight r)"
proof (cases "names_known f mode assistance evaluator difficulty")
  case True
  with effective_weight_known [OF assms True] show ?thesis by auto
next
  case False
  have "\<not> is_ok (calculate_effective_weight (Finite impact) mode assistance evaluator difficulty f)"
  proof
    assume "is_ok (calculate_effective_weight (Finite impact) mode assistance evaluator difficulty f)"
    then show False
      using False unfolding is_ok_iff calculate_effective_weight_def names_known_def
      by (auto simp: result_simps factor_named_Inr split: if_splits)
  qed
  with False show ?thesis
    by (cases "calculate_effective_weight (Finite impact) mode assistance evaluator difficulty f")
      auto
qed

definition example_formula :: formula_config where
  "example_formula =
     \<lparr>formula_version = ''seed-v1'', prior_weight = 3, latest_qualifying_events = 8,
      full_weight_same_day_limit = 2, same_day_repetition_factor = 1 / 2,
      maximum_effective_weight_per_event = 1,
      performance_scale_min = 0, performance_scale_max = 4,
      practice_modes = \<lparr>exposure_only = 0, guided_practice = 1 / 4, independent_practice = 1 / 2,
        timed_assessment = 1, mock_interview = 1, real_interview = 1\<rparr>,
      assistances = \<lparr>no_ai = 1, ai_after_committed_attempt = 1 / 2, ai_hints_during_attempt = 1 / 4,
        ai_co_created = 0, ai_generated = 0\<rparr>,
      evaluators = \<lparr>evaluator_self = 1 / 2, ai_rubric_reviewer = 1 / 2, peer = 1 / 2,
        human_coach = 1, explicit_interviewer_feedback = 1\<rparr>,
      difficulties = \<lparr>introductory = 1 / 2, standard = 1, advanced = 1\<rparr>,
      qualifying_modes = {''independent_practice'', ''timed_assessment'', ''mock_interview'',
        ''real_interview''},
      qualifying_assistance = {''no_ai'', ''ai_after_committed_attempt''},
      requires_rubric_score = True, independent_practice_requires_attempt_a = True,
      attempt_b_qualifies = False,
      confidence = \<lparr>high_minimum_effective_weight = 4, high_minimum_exercise_types = 3,
        high_recent_assessment_days = 21, high_requires_reviewed_artifact_or_recording = True,
        medium_minimum_effective_weight = 2, medium_minimum_exercise_types = 2,
        medium_requires_independent_attempt = True\<rparr>,
      trend = \<lparr>recent_event_count = 1, preceding_event_count = 1, minimum_delta = 1 / 2\<rparr>,
      recency = \<lparr>fresh_max_days = 14, aging_max_days = 45\<rparr>\<rparr>"

lemma example_formula_ok [simp]: "formula_ok example_formula"
proof -
  have p: "places 6 (1 / 2)" "places 6 (1 / 4)" "places 3 (1 / 2)"
    by (simp_all add: places_def)
  have "factors_ok example_formula"
    by (simp add: factors_ok_def example_formula_def factor_ok_def p)
  moreover have "version_key_ok ''seed-v1''"
    by (simp add: version_key_ok_def is_lower_def is_digit_def in_range_def)
  moreover have "is_ok (formula_validate_scale example_formula)"
    unfolding formula_validate_scale_def by (simp add: example_formula_def)
  ultimately show ?thesis
    unfolding formula_ok_def prior_weight_ok_def discount_factor_ok_def maximum_event_weight_ok_def
      confidence_rules_ok_def effective_weight_ok_def trend_rules_ok_def recency_rules_ok_def
      validate_threshold_order_def validate_window_order_def
    by (simp add: example_formula_def p)
qed

theorem effective_weight_capped_witness:
  "case calculate_effective_weight (Finite (1 / 2)) ''mock_interview'' ''no_ai'' ''peer''
      ''advanced'' example_formula of
      Inl _ \<Rightarrow> False
    | Inr r \<Rightarrow> 0 \<le> ew_effective_weight r \<and> ew_effective_weight r \<le> 1"
proof -
  have k: "names_known example_formula ''mock_interview'' ''no_ai'' ''peer'' ''advanced''"
    by code_simp
  have m: "maximum_effective_weight_per_event example_formula = 1"
    by (simp add: example_formula_def)
  show ?thesis
    using effective_weight_capped [of example_formula "1 / 2" "''mock_interview''" "''no_ai''"
        "''peer''" "''advanced''"] k m
    by (simp split: sum.splits)
qed

section \<open>The ladder follows the evidence\<close>

definition qualifies :: "formula_config \<Rightarrow> evidence_candidate \<Rightarrow> bool" where
  "qualifies f c \<longleftrightarrow> qualifying_for_level (qualify_evidence f c)"

definition unstarted :: competency_advance where
  "unstarted = \<lparr>level = NotStarted, qualifying_event_ids = [], advance_reason = ''''\<rparr>"

text \<open>One more piece of evidence for a competency that is already on record.\<close>

definition advance_step ::
    "formula_config \<Rightarrow> competency_advance \<Rightarrow> evidence_candidate
     \<Rightarrow> (evidence_error, competency_advance) result" where
  "advance_step f a c = advance_competency f (level a) (qualifying_event_ids a) c"

definition competency_ok :: "competency_advance \<Rightarrow> bool" where
  "competency_ok a \<longleftrightarrow>
     distinct (qualifying_event_ids a) \<and>
     level a = COMPETENCY_LADDER ! min 2 (length (qualifying_event_ids a))"

definition linked_ids :: "formula_config \<Rightarrow> event_id list \<Rightarrow> evidence_candidate \<Rightarrow> event_id list" where
  "linked_ids f ids c =
     (if qualifies f c \<and> cand_event_id c \<notin> set ids then ids @ [cand_event_id c] else ids)"

lemma ladder_nth [simp]:
  "COMPETENCY_LADDER ! 0 = NotStarted" "COMPETENCY_LADDER ! Suc 0 = Practicing"
  "COMPETENCY_LADDER ! 2 = Demonstrated" "length COMPETENCY_LADDER = 3"
  "set COMPETENCY_LADDER = {NotStarted, Practicing, Demonstrated}"
  by (simp_all add: COMPETENCY_LADDER_def)

lemma ladder_min:
  "COMPETENCY_LADDER ! min 2 n =
     (if n = 0 then NotStarted else if n = 1 then Practicing else Demonstrated)"
proof -
  consider "n = 0" | "n = 1" | "2 \<le> n" by linarith
  then show ?thesis by cases (auto simp: min_def)
qed

lemma advance_post_init_ok:
  assumes "competency_ok a"
  shows "advance_post_init a = Inr a"
  using assms by (simp add: advance_post_init_def competency_ok_def ladder_min distinct_remdups_id split: if_splits)

lemma ladder_up:
  "COMPETENCY_LADDER ! min (index_of (COMPETENCY_LADDER ! min 2 n) COMPETENCY_LADDER + 1) 2
   = COMPETENCY_LADDER ! min 2 (Suc n)"
  unfolding ladder_min by (simp add: COMPETENCY_LADDER_def)

lemma advance_step_ok:
  assumes "competency_ok a"
  shows "\<exists>a'. advance_step f a c = Inr a' \<and> competency_ok a'
    \<and> qualifying_event_ids a' = linked_ids f (qualifying_event_ids a) c"
proof -
  have l: "level a \<in> set COMPETENCY_LADDER"
    using assms by (simp add: competency_ok_def ladder_min)
  let ?q = "qualify_evidence f c"
  show ?thesis
  proof (cases "qualifies f c \<and> cand_event_id c \<notin> set (qualifying_event_ids a)")
    case True
    let ?a = "\<lparr>level = COMPETENCY_LADDER ! min (index_of (level a) COMPETENCY_LADDER + 1) 2,
      qualifying_event_ids = qualifying_event_ids a @ [cand_event_id c],
      advance_reason = ''qualifies''\<rparr>"
    have "competency_ok ?a"
      using assms True ladder_up [of "length (qualifying_event_ids a)"]
      by (simp add: competency_ok_def)
    then show ?thesis
      using True l advance_post_init_ok [of ?a]
      by (simp add: advance_step_def advance_competency_def linked_ids_def qualifies_def)
  next
    case False
    let ?r = "if \<not> qualifying_for_level ?q then qualification_reason ?q else ''already_counted''"
    let ?a = "\<lparr>level = level a, qualifying_event_ids = qualifying_event_ids a, advance_reason = ?r\<rparr>"
    have "competency_ok ?a" using assms by (simp add: competency_ok_def)
    then show ?thesis
      using False l advance_post_init_ok [of ?a]
      by (auto simp: advance_step_def advance_competency_def linked_ids_def qualifies_def Let_def)
  qed
qed

interpretation competency: growing_system "advance_step f" competency_ok
    "\<lambda>a b. prefix (qualifying_event_ids a) (qualifying_event_ids b)"
proof
  fix s s' and c
  assume s: "competency_ok s" and e: "advance_step f s c = Inr s'"
  obtain a' where a': "advance_step f s c = Inr a'" "competency_ok a'"
    "qualifying_event_ids a' = linked_ids f (qualifying_event_ids s) c"
    using advance_step_ok [OF s] by blast
  with e show "competency_ok s'" by simp
  from a' e show "prefix (qualifying_event_ids s) (qualifying_event_ids s')"
    by (simp add: linked_ids_def)
qed auto

lemma linked_ids_run:
  assumes "competency_ok a"
  shows "qualifying_event_ids (run_commands (advance_step f) a cs)
    = foldl (linked_ids f) (qualifying_event_ids a) cs"
  using assms
proof (induction cs arbitrary: a)
  case (Cons c cs)
  obtain a' where "advance_step f a c = Inr a'" "competency_ok a'"
    "qualifying_event_ids a' = linked_ids f (qualifying_event_ids a) c"
    using advance_step_ok [OF Cons.prems] by blast
  with Cons.IH [of a'] show ?case by simp
qed simp

lemma set_linked_ids:
  "set (foldl (linked_ids f) ids cs) = set ids \<union> cand_event_id ` set (filter (qualifies f) cs)"
  by (induction cs arbitrary: ids) (auto simp: linked_ids_def)

lemma unstarted_ok: "competency_ok unstarted"
  by (simp add: competency_ok_def unstarted_def)

text \<open>
  C30. A competency is exactly what its evidence says. After any sequence of evidence from an
  unstarted competency, the cited events are the events of the qualifying evidence, each once; the
  level is the step of the ladder their number gives (none, one, two or more), so evidence that
  does not qualify or was already counted moves nothing; and the next piece of evidence, whatever
  it is, never raises.
\<close>

theorem competency_follows_evidence:
  "let a = run_commands (advance_step f) unstarted cs in
     set (qualifying_event_ids a) = cand_event_id ` set (filter (qualifies f) cs)
     \<and> distinct (qualifying_event_ids a)
     \<and> level a = COMPETENCY_LADDER ! min 2 (card (cand_event_id ` set (filter (qualifies f) cs)))
     \<and> is_ok (advance_competency f (level a) (qualifying_event_ids a) c)"
proof -
  define a where "a = run_commands (advance_step f) unstarted cs"
  have ok: "competency_ok a" unfolding a_def by (rule competency.run_inv [OF unstarted_ok])
  have ids: "set (qualifying_event_ids a) = cand_event_id ` set (filter (qualifies f) cs)"
    unfolding a_def linked_ids_run [OF unstarted_ok] set_linked_ids by (simp add: unstarted_def)
  have d: "distinct (qualifying_event_ids a)" using ok by (simp add: competency_ok_def)
  have "length (qualifying_event_ids a) = card (cand_event_id ` set (filter (qualifies f) cs))"
    using distinct_card [OF d] ids by simp
  moreover have "is_ok (advance_competency f (level a) (qualifying_event_ids a) c)"
    using advance_step_ok [OF ok, of f c] by (auto simp: advance_step_def)
  ultimately show ?thesis
    using ok ids d unfolding competency_ok_def a_def [symmetric] Let_def by simp
qed

lemma length_filter_all: "length (filter P xs) = length xs \<longleftrightarrow> list_all P xs"
  by (metis filter_True length_filter_less less_irrefl list_all_iff)

lemma readiness_ready_iff:
  "readiness_from levels = Ready \<longleftrightarrow>
     levels \<noteq> [] \<and> list_all (\<lambda>l. snd l = Demonstrated) levels"
  unfolding readiness_from_def Let_def length_filter_all by simp

end
