(* ===== verification/Evidence_Estimate.thy ===== *)
theory Evidence_Estimate
  imports Evidence_Scoring
begin

text \<open>
  Skill estimates from the latest qualifying evidence, \<^verbatim>\<open>evidence/trend.py\<close>,
  \<^verbatim>\<open>evidence/confidence.py\<close> and \<^verbatim>\<open>evidence/portfolio.py\<close>: the trend between two windows
  of events, the confidence and recency of an estimate, the estimate itself with its discount for
  repeated work on one day, and the composite portfolio score. The lemmas carry the hull facts of
  \<open>Weighted_Mean\<close> through the whole pipeline.
\<close>

section \<open>Trend\<close>

record trend_event =
  event_id :: event_id
  performance_score :: rat
  effective_weight :: rat
  occurred_at :: datetime

record trend_result =
  trend_code :: string
  trend_delta :: "rat option"
  preceding_average :: "rat option"
  recent_average :: "rat option"
  trend_event_ids :: "event_id list"

definition evidence_key :: "('a) trend_event_scheme \<Rightarrow> int \<times> string" where
  "evidence_key e = (instant_of (occurred_at e), str_event_id (event_id e))"

definition weighted_average :: "('a) trend_event_scheme list \<Rightarrow> rat option" where
  "weighted_average events =
     (let total_weight = dec_sum (map effective_weight events) in
      if total_weight \<le> 0 then None
      else Some (dec_div (dec_sum (map (\<lambda>e. dec_mul (performance_score e) (effective_weight e)) events))
                  total_weight))"

definition insufficient :: "event_id list \<Rightarrow> trend_result" where
  "insufficient ids =
     \<lparr>trend_code = ''insufficient_evidence'', trend_delta = None, preceding_average = None,
      recent_average = None, trend_event_ids = ids\<rparr>"

definition calculate_trend ::
    "('a) trend_event_scheme list \<Rightarrow> trend_rules \<Rightarrow> (evidence_error, trend_result) result" where
  "calculate_trend events rules =
     (let required = recent_event_count rules + preceding_event_count rules;
          ordered = sort_key evidence_key events
      in if length ordered < required then Inr (insufficient [])
         else let selected = py_suffix required ordered;
                  preceding = take (preceding_event_count rules) selected;
                  recent = drop (preceding_event_count rules) selected;
                  event_ids = map event_id selected
              in case (weighted_average preceding, weighted_average recent) of
                   (Some before, Some after) \<Rightarrow>
                     bind_result (score_quantum (dec_sub after before)) (\<lambda>delta.
                     bind_result (score_quantum before) (\<lambda>p.
                     bind_result (score_quantum after) (\<lambda>r.
                       Inr \<lparr>trend_code =
                              (if minimum_delta rules \<le> delta then ''improving''
                               else if delta \<le> dec_fix (- minimum_delta rules) then ''declining''
                               else ''stable''),
                            trend_delta = Some delta, preceding_average = Some p,
                            recent_average = Some r, trend_event_ids = event_ids\<rparr>)))
                 | _ \<Rightarrow> Inr (insufficient event_ids))"

section \<open>Skill evidence\<close>

record skill_evidence = trend_event +
  se_qualifying :: bool
  se_exercise_type :: string
  se_scenario_key :: string
  se_practice_mode :: string
  se_attempt_kind :: string
  se_reviewed_artifact :: bool
  se_scored_recording :: bool

fun finite_within :: "rat \<Rightarrow> rat \<Rightarrow> number \<Rightarrow> bool" where
  "finite_within l h (Finite x) \<longleftrightarrow> l \<le> x \<and> x \<le> h"
| "finite_within l h Unusable \<longleftrightarrow> False"

fun finite_nonneg :: "number \<Rightarrow> bool" where
  "finite_nonneg (Finite x) \<longleftrightarrow> 0 \<le> x"
| "finite_nonneg Unusable \<longleftrightarrow> False"

text \<open>
  \<^verbatim>\<open>SkillEvidence.__post_init__\<close> on the raw score and weight and the remaining fields of \<open>e\<close>; a
  value that passes has its score and weight stored.
\<close>

definition skill_evidence_post_init ::
    "number \<Rightarrow> number \<Rightarrow> skill_evidence \<Rightarrow> (evidence_error, skill_evidence) result" where
  "skill_evidence_post_init score weight e =
     (if \<not> finite_within 0 4 score
      then Inl (EvidenceEstimateError ''performance_score must be a Decimal from 0 to 4'')
      else if \<not> finite_nonneg weight
      then Inl (EvidenceEstimateError ''effective_weight must be a nonnegative Decimal'')
      else if \<not> aware (occurred_at e)
      then Inl (EvidenceEstimateError ''occurred_at must be timezone-aware'')
      else if blank (se_exercise_type e) \<or> blank (se_scenario_key e)
      then Inl (EvidenceEstimateError ''exercise_type and scenario_key must not be blank'')
      else Inr (e\<lparr>performance_score := number_value score, effective_weight := number_value weight\<rparr>))"

section \<open>Confidence and recency\<close>

record confidence_result =
  confidence_code :: string
  basis_code :: string
  conf_effective_weight :: rat
  exercise_type_count :: nat
  conf_event_ids :: "event_id list"

record recency_result =
  recency_code :: string
  latest_evidence_at :: "datetime option"
  age_days :: "int option"

definition qualifying_by :: "datetime \<Rightarrow> skill_evidence \<Rightarrow> bool" where
  "qualifying_by as_of e \<longleftrightarrow> se_qualifying e \<and> instant_of (occurred_at e) \<le> instant_of as_of"

definition has_recent_assessment :: "formula_config \<Rightarrow> datetime \<Rightarrow> skill_evidence list \<Rightarrow> bool" where
  "has_recent_assessment formula as_of qualifying \<longleftrightarrow>
     (let cutoff = instant_of as_of - td_days (int (high_recent_assessment_days (confidence formula)))
      in list_ex (\<lambda>e. se_practice_mode e \<in> {''timed_assessment'', ''mock_interview''} \<and>
                      cutoff \<le> instant_of (occurred_at e) \<and>
                      instant_of (occurred_at e) \<le> instant_of as_of) qualifying)"

definition classify_confidence ::
    "skill_evidence list \<Rightarrow> formula_config \<Rightarrow> datetime \<Rightarrow> (evidence_error, confidence_result) result" where
  "classify_confidence events formula as_of =
     (if \<not> aware as_of then Inl (EvidenceEstimateError ''as_of must be timezone-aware'')
      else
        let qualifying = sort_key evidence_key (filter (qualifying_by as_of) events);
            rules = confidence formula
        in bind_result (weight_quantum (dec_sum (map effective_weight qualifying))) (\<lambda>total_weight.
          let exercise_count = length (remdups (map se_exercise_type qualifying));
              has_reviewed_output =
                list_ex (\<lambda>e. se_reviewed_artifact e \<or> se_scored_recording e) qualifying;
              high = (high_minimum_effective_weight rules \<le> total_weight \<and>
                      high_minimum_exercise_types rules \<le> exercise_count \<and>
                      has_recent_assessment formula as_of qualifying \<and>
                      (has_reviewed_output \<or>
                       \<not> high_requires_reviewed_artifact_or_recording rules));
              has_independent_attempt =
                list_ex (\<lambda>e. se_practice_mode e = ''independent_practice'' \<and>
                             se_attempt_kind e = ''attempt_a'') qualifying;
              medium = (medium_minimum_effective_weight rules \<le> total_weight \<and>
                        medium_minimum_exercise_types rules \<le> exercise_count \<and>
                        (has_independent_attempt \<or> \<not> medium_requires_independent_attempt rules));
              (code, basis) =
                (if high then (''high'', ''high_weight_diversity_recency'')
                 else if medium then (''medium'', ''medium_weight_diversity'')
                 else (''low'', ''low_weight''))
          in Inr \<lparr>confidence_code = code, basis_code = basis, conf_effective_weight = total_weight,
                  exercise_type_count = exercise_count,
                  conf_event_ids = map event_id qualifying\<rparr>))"

text \<open>\<^verbatim>\<open>max\<close> of datetimes: the first of the latest instants.\<close>

definition latest_of :: "datetime list \<Rightarrow> datetime option" where
  "latest_of ts = first_min (\<lambda>t. - instant_of t) ts"

text \<open>
  The age goes through \<^verbatim>\<open>total_seconds()\<close>, a float that holds every number of microseconds
  below \<open>2 ^ 53\<close> (285 years) without loss of a whole day.
\<close>

definition classify_recency ::
    "skill_evidence list \<Rightarrow> recency_rules \<Rightarrow> datetime \<Rightarrow> (evidence_error, recency_result) result" where
  "classify_recency events rules as_of =
     (if \<not> aware as_of then Inl (EvidenceEstimateError ''as_of must be timezone-aware'')
      else case latest_of (map occurred_at (filter (qualifying_by as_of) events)) of
             None \<Rightarrow> Inr \<lparr>recency_code = ''no_evidence'', latest_evidence_at = None, age_days = None\<rparr>
           | Some latest \<Rightarrow>
               let days = max 0 (instant_of as_of - instant_of latest) div td_days 1
               in Inr \<lparr>recency_code =
                         (if days \<le> int (fresh_max_days rules) then ''fresh''
                          else if days \<le> int (aging_max_days rules) then ''aging'' else ''stale''),
                       latest_evidence_at = Some latest, age_days = Some days\<rparr>)"

section \<open>The estimate\<close>

record weight_manifest_item =
  wm_event_id :: event_id
  wm_raw_weight :: rat
  wm_used_weight :: rat
  wm_inclusion :: string

record skill_estimate_result =
  est_formula_version :: string
  estimate :: rat
  contributing_event_ids :: "event_id list"
  excluded_event_ids :: "event_id list"
  discounted_event_ids :: "event_id list"
  qualifying_event_count :: nat
  weight_manifest :: "weight_manifest_item list"
  total_effective_weight :: rat
  month_one_target_gap :: rat
  final_target_gap :: rat
  est_confidence :: confidence_result
  est_trend :: trend_result
  est_recency :: recency_result
  last_strong_evidence_at :: "datetime option"

type_synonym day_group = "string \<times> string \<times> date"

definition day_group :: "skill_evidence \<Rightarrow> day_group" where
  "day_group e = (se_exercise_type e, se_scenario_key e, date_of (occurred_at e))"

text \<open>The loop over the selected events; \<open>counts\<close> is the dictionary of ranks per group.\<close>

fun adjust_events ::
    "formula_config \<Rightarrow> (day_group \<Rightarrow> nat) \<Rightarrow> skill_evidence list
     \<Rightarrow> (evidence_error, (skill_evidence \<times> weight_manifest_item) list) result" where
  "adjust_events formula counts [] = Inr []"
| "adjust_events formula counts (e # es) =
     (let group = day_group e; rank = counts group + 1;
          discounted = (full_weight_same_day_limit formula < rank)
      in bind_result (weight_quantum (effective_weight e)) (\<lambda>raw_weight.
         bind_result (if discounted
                      then weight_quantum (dec_mul raw_weight (same_day_repetition_factor formula))
                      else Inr raw_weight) (\<lambda>used_weight.
         bind_result (skill_evidence_post_init (Finite (performance_score e)) (Finite used_weight) e)
           (\<lambda>adjusted.
         bind_result (adjust_events formula (counts(group := rank)) es) (\<lambda>rest.
           Inr ((adjusted,
                 \<lparr>wm_event_id = event_id e, wm_raw_weight = raw_weight,
                  wm_used_weight = used_weight,
                  wm_inclusion = (if discounted then ''discounted_same_day'' else ''included'')\<rparr>)
                # rest))))))"

definition strong_modes :: "string set" where
  "strong_modes = {''timed_assessment'', ''mock_interview'', ''real_interview''}"

definition estimate_skill ::
    "number \<Rightarrow> number \<Rightarrow> number \<Rightarrow> skill_evidence list \<Rightarrow> formula_config \<Rightarrow> datetime
     \<Rightarrow> (evidence_error, skill_estimate_result) result" where
  "estimate_skill baseline month_one_target final_target events formula as_of =
     (if \<not> aware as_of then Inl (EvidenceEstimateError ''as_of must be timezone-aware'')
      else if \<not> finite_within 0 4 baseline
      then Inl (EvidenceEstimateError ''baseline must be a Decimal from 0 to 4'')
      else if \<not> finite_within 0 4 month_one_target
      then Inl (EvidenceEstimateError ''month_one_target must be a Decimal from 0 to 4'')
      else if \<not> finite_within 0 4 final_target
      then Inl (EvidenceEstimateError ''final_target must be a Decimal from 0 to 4'')
      else if length (remdups (map event_id events)) \<noteq> length events
      then Inl (EvidenceEstimateError ''event IDs must be unique'')
      else if list_ex (\<lambda>e. maximum_effective_weight_per_event formula < effective_weight e) events
      then Inl (EvidenceEstimateError ''effective_weight exceeds the configured per-event maximum'')
      else
        let qualifying = sort_key evidence_key (filter (qualifying_by as_of) events);
            selected = py_suffix (latest_qualifying_events formula) qualifying;
            selected_ids = set (map event_id selected);
            excluded = sort_key evidence_key (filter (\<lambda>e. event_id e \<notin> selected_ids) events)
        in bind_result (adjust_events formula (\<lambda>_. 0) selected) (\<lambda>pairs.
           let adjusted = map fst pairs; manifest = map snd pairs in
           bind_result (weight_quantum (dec_sum (map effective_weight adjusted))) (\<lambda>total_weight.
           let denominator = dec_add (prior_weight formula) total_weight;
               numerator =
                 dec_add (dec_mul (number_value baseline) (prior_weight formula))
                   (dec_sum (map (\<lambda>e. dec_mul (performance_score e) (effective_weight e)) adjusted))
           in bind_result (divide_decimal numerator denominator) (\<lambda>mean.
           bind_result (score_quantum mean) (\<lambda>est.
           bind_result (classify_confidence adjusted formula as_of) (\<lambda>conf.
           bind_result (calculate_trend adjusted (trend formula)) (\<lambda>tr.
           bind_result (classify_recency adjusted (recency formula) as_of) (\<lambda>rec.
             Inr \<lparr>est_formula_version = formula_version formula, estimate = est,
                  contributing_event_ids = map event_id adjusted,
                  excluded_event_ids = map event_id excluded,
                  discounted_event_ids =
                    map wm_event_id (filter (\<lambda>m. wm_inclusion m = ''discounted_same_day'') manifest),
                  qualifying_event_count = length adjusted,
                  weight_manifest = manifest,
                  total_effective_weight = total_weight,
                  month_one_target_gap = dec_sub (number_value month_one_target) est,
                  final_target_gap = dec_sub (number_value final_target) est,
                  est_confidence = conf, est_trend = tr, est_recency = rec,
                  last_strong_evidence_at =
                    latest_of (map occurred_at
                      (filter (\<lambda>e. se_practice_mode e \<in> strong_modes) adjusted))\<rparr>)))))))) "

section \<open>Portfolio judgment\<close>

record portfolio_history_item =
  score_id :: event_id
  total_score :: rat
  scored_at :: datetime

definition history_post_init ::
    "event_id \<Rightarrow> number \<Rightarrow> datetime \<Rightarrow> (evidence_error, portfolio_history_item) result" where
  "history_post_init i score at_time =
     (if \<not> finite_within 0 20 score
      then Inl (PortfolioScoringError ''portfolio history score must be from 0 to 20'')
      else if \<not> aware at_time
      then Inl (PortfolioScoringError ''scored_at must be timezone-aware'')
      else Inr \<lparr>score_id = i, total_score = number_value score, scored_at = at_time\<rparr>)"

text \<open>The four properties that make a history item a \<^verbatim>\<open>TrendEvent\<close>.\<close>

definition history_event :: "portfolio_history_item \<Rightarrow> trend_event" where
  "history_event i =
     \<lparr>event_id = score_id i, performance_score = total_score i, effective_weight = 1,
      occurred_at = scored_at i\<rparr>"

record portfolio_component_score =
  pc_slug :: string
  pc_score :: rat
  pc_maximum :: rat

record portfolio_score_result =
  ps_metric_slug :: string
  ps_total_score :: rat
  ps_components :: "portfolio_component_score list"
  ps_rubric_version :: string
  ps_formula_version :: string
  ps_exercise_type :: string
  ps_mapping_version :: string
  ps_trend :: trend_result

record portfolio_skill_evidence =
  pse_skill_slug :: string
  pse_performance_score :: rat
  pse_impact :: rat
  pse_exercise_type :: string
  pse_mapping_version :: string

definition portfolio_trend_rules :: "string \<rightharpoonup> trend_rules" where
  "portfolio_trend_rules =
     [''seed-v1'' \<mapsto> \<lparr>recent_event_count = 3, preceding_event_count = 3, minimum_delta = 125 / 100\<rparr>]"

definition score_component ::
    "(string \<times> number) list \<Rightarrow> rubric_dimension_config
     \<Rightarrow> (evidence_error, portfolio_component_score) result" where
  "score_component scores d =
     (case map_of scores (dimension_slug d) of
        Some (Finite v) \<Rightarrow>
          if v < 0 then Inl (PortfolioScoringError ''component score must be a nonnegative Decimal'')
          else if dimension_maximum d < v
          then Inl (PortfolioScoringError (dimension_slug d @ '' exceeds its maximum''))
          else Inr \<lparr>pc_slug = dimension_slug d, pc_score = v, pc_maximum = dimension_maximum d\<rparr>
      | _ \<Rightarrow> Inl (PortfolioScoringError ''component score must be a nonnegative Decimal''))"

definition score_portfolio_judgment ::
    "(string \<times> number) list \<Rightarrow> rubric_config \<Rightarrow> string \<Rightarrow> string \<Rightarrow> string
     \<Rightarrow> portfolio_history_item list \<Rightarrow> (evidence_error, portfolio_score_result) result" where
  "score_portfolio_judgment component_scores rubric formula_ver exercise mapping history =
     (if rubric_slug rubric \<noteq> ''portfolio_judgment'' \<or> scale_max rubric \<noteq> 20
      then Inl (PortfolioScoringError ''portfolio rubric must use the fixed 0 to 20 scale'')
      else case portfolio_trend_rules formula_ver of
        None \<Rightarrow> Inl (PortfolioScoringError ''unknown portfolio formula version'')
      | Some rules \<Rightarrow>
          if set (map fst component_scores) \<noteq> set (map dimension_slug (dimensions rubric))
          then Inl (PortfolioScoringError ''every portfolio component requires an independent score'')
          else bind_result (map_result (score_component component_scores) (dimensions rubric))
            (\<lambda>components.
            bind_result (score_quantum (dec_sum (map pc_score components))) (\<lambda>total.
              if \<not> (scale_min rubric \<le> total \<and> total \<le> scale_max rubric)
              then Inl (PortfolioScoringError ''portfolio total escaped its configured scale'')
              else bind_result
                (if history = []
                 then Inr \<lparr>trend_code = ''first_score'', trend_delta = None,
                           preceding_average = None, recent_average = None, trend_event_ids = []\<rparr>
                 else calculate_trend (map history_event history) rules) (\<lambda>tr.
                Inr \<lparr>ps_metric_slug = ''portfolio_judgment'', ps_total_score = total,
                     ps_components = components, ps_rubric_version = rubric_version rubric,
                     ps_formula_version = formula_ver, ps_exercise_type = exercise,
                     ps_mapping_version = mapping, ps_trend = tr\<rparr>))))"

definition impact_applies :: "string set \<Rightarrow> skill_impact_config \<Rightarrow> bool" where
  "impact_applies conditions_met i \<longleftrightarrow>
     impact_condition i = ''always'' \<or> impact_condition i \<in> conditions_met"

definition map_portfolio_skill_evidence ::
    "exercise_type_config \<Rightarrow> (string \<times> number) list \<Rightarrow> string set
     \<Rightarrow> (evidence_error, portfolio_skill_evidence list) result" where
  "map_portfolio_skill_evidence exercise skill_scores conditions_met =
     (if composite_metric_weights exercise ''portfolio_judgment'' = None
      then Inl (PortfolioScoringError ''exercise is not a portfolio-scored exercise'')
      else
        let applicable = filter (impact_applies conditions_met) (impacts exercise)
        in if set (map fst skill_scores) \<noteq> set (map skill_slug applicable)
           then Inl (PortfolioScoringError ''every applicable mapped skill requires an independent score'')
           else map_result (\<lambda>i.
             case map_of skill_scores (skill_slug i) of
               Some (Finite s) \<Rightarrow>
                 if 0 \<le> s \<and> s \<le> 4
                 then Inr \<lparr>pse_skill_slug = skill_slug i, pse_performance_score = s,
                           pse_impact = impact_weight i, pse_exercise_type = exercise_slug exercise,
                           pse_mapping_version = exercise_mapping_version exercise\<rparr>
                 else Inl (PortfolioScoringError ''independent skill score must be from 0 to 4'')
             | _ \<Rightarrow> Inl (PortfolioScoringError ''independent skill score must be from 0 to 4''))
             applicable)"

definition validate_gauntlet_children ::
    "exercise_type_config \<Rightarrow> (string \<times> string \<rightharpoonup> exercise_type_config)
     \<Rightarrow> (evidence_error, exercise_type_config list) result" where
  "validate_gauntlet_children gauntlet known_exercises =
     (if \<not> component_scoring_required gauntlet \<or> child_exercise_type_refs gauntlet = []
      then Inl (PortfolioScoringError ''gauntlet requires concrete versioned child exercises'')
      else map_result (\<lambda>r.
        case known_exercises (ref_exercise_type r, ref_mapping_version r) of
          None \<Rightarrow> Inl (PortfolioScoringError ''gauntlet child must be a concrete versioned exercise'')
        | Some child \<Rightarrow>
            if exercise_slug child = exercise_slug gauntlet
            then Inl (PortfolioScoringError ''gauntlet child must be a concrete versioned exercise'')
            else Inr child)
        (child_exercise_type_refs gauntlet))"

section \<open>Averages and trends\<close>

text \<open>An event with a score between two bounds and a weight of six decimal places below 2.\<close>

definition event_within :: "rat \<Rightarrow> rat \<Rightarrow> ('a) trend_event_scheme \<Rightarrow> bool" where
  "event_within l h e \<longleftrightarrow>
     l \<le> performance_score e \<and> performance_score e \<le> h \<and>
     0 \<le> effective_weight e \<and> effective_weight e \<le> 2 \<and> places 6 (effective_weight e)"

lemma of_nat_length_le:
  assumes "length xs \<le> 10 ^ 6"
  shows "of_nat (length xs) * (2 :: rat) \<le> 10 ^ 9"
proof -
  have "(of_nat (length xs) :: rat) \<le> of_nat (10 ^ 6)" using assms by (simp only: of_nat_le_iff)
  then show ?thesis by simp
qed

lemma weights_sum:
  assumes "list_all (event_within l h) es" "length es \<le> 10 ^ 6"
  shows "dec_sum (map effective_weight es) = sum_list (map effective_weight es)
    \<and> places 6 (sum_list (map effective_weight es))
    \<and> 0 \<le> sum_list (map effective_weight es)
    \<and> sum_list (map effective_weight es) \<le> of_nat (length es) * 2"
  using dec_sum_weights [of 2 "map effective_weight es"] of_nat_length_le [OF assms(2)] assms(1)
  by (auto simp: list_all_iff event_within_def)

lemma weighted_scores_hull:
  assumes "hull_bounds l h" "list_all (event_within l h) es" "length es \<le> 10 ^ 6"
  shows "weighted_hull l h
      (dec_sum (map (\<lambda>e. dec_mul (performance_score e) (effective_weight e)) es))
      (sum_list (map effective_weight es))"
proof -
  let ?p = "map (\<lambda>e. (dec_mul (performance_score e) (effective_weight e), effective_weight e)) es"
  have "weighted_hull l h (dec_mul (performance_score e) (effective_weight e)) (effective_weight e)"
    if "e \<in> set es" for e
    using that assms(1,2) by (intro dec_mul_hull) (auto simp: list_all_iff event_within_def)
  then have "list_all (\<lambda>(s, w). weighted_hull l h s w \<and> w \<le> 2) ?p"
    using assms(2) by (auto simp: list_all_iff event_within_def)
  from dec_sum_hull [OF assms(1) this] of_nat_length_le [OF assms(3)] show ?thesis
    by (simp add: comp_def)
qed

lemma weighted_average_hull:
  assumes "hull_bounds l h" "list_all (event_within l h) es" "length es \<le> 10 ^ 6"
    and "weighted_average es = Some a"
  shows "l \<le> a" "a \<le> h"
proof -
  note w = weights_sum [OF assms(2,3)]
  have pos: "0 < sum_list (map effective_weight es)"
    and a: "a = dec_div (dec_sum (map (\<lambda>e. dec_mul (performance_score e) (effective_weight e)) es))
      (sum_list (map effective_weight es))"
    using assms(4) w by (auto simp: weighted_average_def Let_def split: if_splits)
  show "l \<le> a" "a \<le> h"
    using dec_div_hull [OF assms(1) weighted_scores_hull [OF assms(1-3)] pos] a by simp_all
qed

lemma list_all_sort_key [simp]: "list_all P (sort_key f xs) = list_all P xs"
  by (simp add: list_all_iff)

lemma list_all_py_suffix: "list_all P xs \<Longrightarrow> list_all P (py_suffix n xs)"
  using set_py_suffix [of n xs] by (auto simp: list_all_iff)

lemma list_all_take_drop:
  "list_all P xs \<Longrightarrow> list_all P (take n xs)" "list_all P xs \<Longrightarrow> list_all P (drop n xs)"
  by (auto simp: list_all_iff dest: in_set_takeD in_set_dropD)

text \<open>The difference of two values in the hull, rounded twice, is at most the hull's width.\<close>

lemma delta_bounds:
  assumes "hull_bounds l h" "l \<le> a" "a \<le> h" "l \<le> b" "b \<le> h"
  obtains d where "score_quantum (dec_sub a b) = Inr d" "d \<le> h - l" "l - h \<le> d"
proof -
  have p: "places 3 (h - l)" "places 3 (l - h)" and w: "0 \<le> h - l" "h - l \<le> 20"
    using assms(1) by (auto simp: hull_bounds_def intro: places_diff)
  have "\<bar>a - b\<bar> < 10 ^ (28 - 3)" using assms w by (simp add: abs_if)
  then have d: "l - h \<le> dec_sub a b" "dec_sub a b \<le> h - l"
    unfolding dec_sub_def using assms w p
    by (auto intro!: dec_fix_le [where k = 3] dec_fix_ge [where k = 3])
  have "\<exists>d. score_quantum (dec_sub a b) = Inr d"
    unfolding score_quantum_def
    using d p w by (intro half_up.quantize_defined [of "l - h" _ "h - l"]) (auto simp: abs_if)
  then obtain y where y: "quantize InvalidOperation round_half_up 3 (dec_sub a b) = Inr y"
    by (auto simp: score_quantum_def)
  show ?thesis
    using half_up.quantize_le [OF y d(2) p(1)] half_up.quantize_ge [OF y d(1) p(2)] y
    by (intro that) (auto simp: score_quantum_def)
qed

lemma score_quantum_hull:
  assumes "hull_bounds l h" "l \<le> x" "x \<le> h"
  obtains y where "score_quantum x = Inr y" "l \<le> y" "y \<le> h" "places 3 y"
  unfolding score_quantum_def using quantize_hull [OF assms] by metis

lemma dec_fix_neg_delta: "trend_rules_ok r \<Longrightarrow> dec_fix (- minimum_delta r) = - minimum_delta r"
  by (intro dec_fix_exact [where k = 3]) (auto simp: trend_rules_ok_def places_def)

lemma trend_defined:
  assumes "trend_rules_ok rules" "hull_bounds l h" "list_all (event_within l h) es"
  shows "\<exists>t. calculate_trend es rules = Inr t
    \<and> trend_code t \<in> {''insufficient_evidence'', ''improving'', ''declining'', ''stable''}
    \<and> (h - l < minimum_delta rules \<longrightarrow> trend_code t \<in> {''insufficient_evidence'', ''stable''})"
proof -
  define n where "n = recent_event_count rules + preceding_event_count rules"
  define sel where "sel = py_suffix n (sort_key evidence_key es)"
  have n: "0 < n" "n \<le> 2000" using assms(1) by (auto simp: n_def trend_rules_ok_def)
  have sel: "list_all (event_within l h) sel" "length sel \<le> 2000"
    using assms(3) n length_py_suffix [of n "sort_key evidence_key es"]
    by (auto simp: sel_def intro: list_all_py_suffix)
  let ?b = "weighted_average (take (preceding_event_count rules) sel)"
  let ?a = "weighted_average (drop (preceding_event_count rules) sel)"
  show ?thesis
  proof (cases "length es < n \<or> ?b = None \<or> ?a = None")
    case True
    then show ?thesis
      by (auto simp: calculate_trend_def Let_def insufficient_def n_def sel_def
          split: option.splits)
  next
    case False
    then obtain a b where ab: "?b = Some b" "?a = Some a" by auto
    have b: "l \<le> b" "b \<le> h"
      using weighted_average_hull [OF assms(2) _ _ ab(1)] sel by (simp_all add: list_all_take_drop min_le_iff_disj)
    have a: "l \<le> a" "a \<le> h"
      using weighted_average_hull [OF assms(2) _ _ ab(2)] sel by (simp_all add: list_all_take_drop min_le_iff_disj)
    obtain d where d: "score_quantum (dec_sub a b) = Inr d" "d \<le> h - l" "l - h \<le> d"
      by (rule delta_bounds [OF assms(2) a b])
    obtain p where p: "score_quantum b = Inr p" by (rule score_quantum_hull [OF assms(2) b])
    obtain r where r: "score_quantum a = Inr r" by (rule score_quantum_hull [OF assms(2) a])
    have "calculate_trend es rules = Inr
      \<lparr>trend_code = (if minimum_delta rules \<le> d then ''improving''
         else if d \<le> - minimum_delta rules then ''declining'' else ''stable''),
       trend_delta = Some d, preceding_average = Some p, recent_average = Some r,
       trend_event_ids = map event_id sel\<rparr>"
      using False ab d(1) p r dec_fix_neg_delta [OF assms(1)]
      by (simp add: calculate_trend_def Let_def flip: n_def sel_def)
    then show ?thesis using d by simp
  qed
qed

text \<open>
  No trend is read into noise. For rules the configuration allows and events whose scores all
  lie between two bounds of three decimal places, the trend calculation returns, with one of the
  four codes; and when the bounds are closer than the configured minimum delta, it never reports
  an improvement or a decline, whatever the weights, the order and the number of events.
\<close>

theorem small_changes_are_no_trend:
  assumes "trend_rules_ok rules" "hull_bounds l h" "list_all (event_within l h) es"
    and "h - l < minimum_delta rules"
  shows "\<exists>t. calculate_trend es rules = Inr t
    \<and> trend_code t \<in> {''insufficient_evidence'', ''stable''}"
  using trend_defined [OF assms(1-3)] assms(4) by blast

definition example_history :: "trend_event list" where
  "example_history =
     map (\<lambda>(i, s). \<lparr>event_id = IntId i, performance_score = s, effective_weight = 1,
                    occurred_at = Aware (td_days i) 0\<rparr>)
       [(1, 2), (2, 5 / 2), (3, 2), (4, 3), (5, 2), (6, 3)]"

theorem small_changes_are_no_trend_witness:
  "\<exists>t. calculate_trend example_history
      \<lparr>recent_event_count = 3, preceding_event_count = 3, minimum_delta = 125 / 100\<rparr> = Inr t
    \<and> trend_code t \<in> {''insufficient_evidence'', ''stable''}"
proof -
  have "places 3 (125 / 100)" by (simp add: places_def)
  then show ?thesis
    by (intro small_changes_are_no_trend [of _ 2 3])
      (simp_all add: trend_rules_ok_def hull_bounds_def example_history_def event_within_def)
qed

section \<open>The estimate stays in the hull\<close>

text \<open>What a constructed \<^verbatim>\<open>SkillEvidence\<close> satisfies.\<close>

definition evidence_ok :: "skill_evidence \<Rightarrow> bool" where
  "evidence_ok e \<longleftrightarrow>
     0 \<le> performance_score e \<and> performance_score e \<le> 4 \<and> 0 \<le> effective_weight e \<and>
     aware (occurred_at e) \<and> \<not> blank (se_exercise_type e) \<and> \<not> blank (se_scenario_key e)"

lemma skill_evidence_post_init_ok:
  "skill_evidence_post_init s w e = Inr e' \<Longrightarrow> evidence_ok e'"
  by (cases s; cases w)
    (auto simp: skill_evidence_post_init_def evidence_ok_def split: if_splits)

text \<open>How one adjusted event and its manifest line come from a selected event.\<close>

definition adjusted_from ::
    "formula_config \<Rightarrow> skill_evidence \<Rightarrow> skill_evidence \<times> weight_manifest_item \<Rightarrow> bool" where
  "adjusted_from f e p \<longleftrightarrow>
     fst p = e\<lparr>effective_weight := wm_used_weight (snd p)\<rparr> \<and>
     wm_event_id (snd p) = event_id e \<and>
     0 \<le> wm_used_weight (snd p) \<and> wm_used_weight (snd p) \<le> wm_raw_weight (snd p) \<and>
     wm_raw_weight (snd p) \<le> maximum_effective_weight_per_event f \<and>
     places 6 (wm_used_weight (snd p))"

lemma adjusted_from_pair:
  "adjusted_from f e (a, m) \<longleftrightarrow>
     a = e\<lparr>effective_weight := wm_used_weight m\<rparr> \<and> wm_event_id m = event_id e \<and>
     0 \<le> wm_used_weight m \<and> wm_used_weight m \<le> wm_raw_weight m \<and>
     wm_raw_weight m \<le> maximum_effective_weight_per_event f \<and> places 6 (wm_used_weight m)"
  by (simp add: adjusted_from_def)

lemma weight_quantum_between:
  assumes "0 \<le> x" "x \<le> b" "b \<le> 2" "places 6 b"
  obtains y where "weight_quantum x = Inr y" "0 \<le> y" "y \<le> b" "places 6 y"
proof -
  obtain y where y: "weight_quantum x = Inr y" "0 \<le> y" "places 6 y"
    by (rule weight_quantum_within [OF assms(1)]) (use assms in auto)
  with half_up.quantize_le [of InvalidOperation 6 x y b] assms show ?thesis
    by (intro that [of y]) (auto simp: weight_quantum_def)
qed

lemma used_weight:
  assumes "formula_ok f" "0 \<le> raw" "raw \<le> 2" "places 6 raw"
  obtains u where "(if d then weight_quantum (dec_mul raw (same_day_repetition_factor f)) else Inr raw)
      = Inr u" "0 \<le> u" "u \<le> raw" "places 6 u"
proof -
  let ?q = "same_day_repetition_factor f"
  have q: "0 < ?q" "?q < 1" using formula_okD(4) [OF assms(1)] by (auto simp: discount_factor_ok_def)
  have "0 \<le> raw * ?q" "raw * ?q \<le> raw"
    using assms(2) q by (auto intro: mult_left_le)
  moreover have "places 9 raw" "raw \<le> 10 ^ 18" using assms by (auto intro: places_mono)
  ultimately have "0 \<le> dec_mul raw ?q" "dec_mul raw ?q \<le> raw"
    using dec_fix_between [of 0 "raw * ?q" raw] by (auto simp: dec_mul_def)
  then obtain y where "weight_quantum (dec_mul raw ?q) = Inr y" "0 \<le> y" "y \<le> raw" "places 6 y"
    by (rule weight_quantum_between [OF _ _ assms(3,4)])
  with assms show ?thesis using that by (cases d) auto
qed

lemma record_same_score:
  "e\<lparr>performance_score := performance_score e, effective_weight := w\<rparr> = e\<lparr>effective_weight := w\<rparr>"
  for e :: skill_evidence
  by (cases e) simp

lemma adjust_events_ok:
  assumes "formula_ok f" "list_all evidence_ok es"
    and "list_all (\<lambda>e. effective_weight e \<le> maximum_effective_weight_per_event f) es"
  shows "\<exists>ps. adjust_events f counts es = Inr ps \<and> list_all2 (adjusted_from f) es ps"
  using assms(2,3)
proof (induction es arbitrary: counts)
  case Nil
  then show ?case by simp
next
  case (Cons e es)
  let ?M = "maximum_effective_weight_per_event f"
  let ?d = "full_weight_same_day_limit f < counts (day_group e) + 1"
  let ?c = "counts(day_group e := counts (day_group e) + 1)"
  have M: "?M \<le> 2" "places 6 ?M"
    using formula_okD(5) [OF assms(1)] by (auto simp: maximum_event_weight_ok_def)
  have e: "evidence_ok e" "effective_weight e \<le> ?M" using Cons.prems by simp_all
  obtain raw where raw: "weight_quantum (effective_weight e) = Inr raw" "0 \<le> raw" "raw \<le> ?M"
    "places 6 raw"
    using weight_quantum_between [of "effective_weight e" ?M] e M by (auto simp: evidence_ok_def)
  obtain u where u: "(if ?d then weight_quantum (dec_mul raw (same_day_repetition_factor f))
      else Inr raw) = Inr u" "0 \<le> u" "u \<le> raw" "places 6 u"
    by (rule used_weight [OF assms(1) raw(2) _ raw(4)]) (use raw M in auto)
  have init: "skill_evidence_post_init (Finite (performance_score e)) (Finite u) e
      = Inr (e\<lparr>effective_weight := u\<rparr>)"
    using e u by (simp add: skill_evidence_post_init_def evidence_ok_def record_same_score)
  obtain ps where ps: "adjust_events f ?c es = Inr ps" "list_all2 (adjusted_from f) es ps"
    using Cons by fastforce
  show ?case
    using raw u ps init by (simp add: adjusted_from_pair)
qed

lemma adjusted_from_within:
  assumes "formula_ok f" "list_all2 (adjusted_from f) es ps"
    and "list_all (\<lambda>e. l \<le> performance_score e \<and> performance_score e \<le> h) es"
  shows "list_all (event_within l h) (map fst ps)"
    and "map event_id (map fst ps) = map event_id es"
    and "length ps = length es"
proof -
  have "maximum_effective_weight_per_event f \<le> 2"
    using formula_okD(5) [OF assms(1)] by (auto simp: maximum_event_weight_ok_def)
  with assms(2,3) show "list_all (event_within l h) (map fst ps)"
    by (induction rule: list_all2_induct) (auto simp: adjusted_from_def event_within_def)
  from assms(2) show "map event_id (map fst ps) = map event_id es"
    by (induction rule: list_all2_induct) (auto simp: adjusted_from_def)
  from assms(2) show "length ps = length es" by (metis list_all2_lengthD)
qed

lemma event_within_filter:
  "list_all P xs \<Longrightarrow> list_all P (filter Q xs)"
  by (auto simp: list_all_iff)

lemma weight_quantum_sum:
  assumes "list_all (event_within l h) es" "length es \<le> 10 ^ 6"
  shows "weight_quantum (dec_sum (map effective_weight es)) = Inr (sum_list (map effective_weight es))"
proof -
  note w = weights_sum [OF assms]
  have "(of_nat (length es) :: rat) * 2 \<le> 10 ^ 9" by (rule of_nat_length_le [OF assms(2)])
  then have "sum_list (map effective_weight es) \<le> 10 ^ 9" using w by linarith
  then show ?thesis
    using w by (auto simp: weight_quantum_def abs_if intro: half_up.quantize_exact)
qed

lemma length_sort_filter: "length (sort_key f (filter P xs)) \<le> length xs"
  by simp

lemma classify_confidence_defined:
  assumes "aware as_of" "list_all (event_within l h) es" "length es \<le> 10 ^ 6"
  shows "\<exists>c. classify_confidence es f as_of = Inr c"
proof -
  have "length (filter (qualifying_by as_of) es) \<le> 10 ^ 6"
    using assms(3) length_filter_le [of "qualifying_by as_of" es] by linarith
  then have "weight_quantum (dec_sum (map effective_weight
      (sort_key evidence_key (filter (qualifying_by as_of) es)))) =
      Inr (sum_list (map effective_weight (sort_key evidence_key (filter (qualifying_by as_of) es))))"
    using assms(2) by (intro weight_quantum_sum) (auto intro: event_within_filter)
  with assms(1) show ?thesis by (simp add: classify_confidence_def Let_def split: prod.splits)
qed

lemma classify_recency_defined: "aware as_of \<Longrightarrow> \<exists>r. classify_recency es rules as_of = Inr r"
  by (auto simp: classify_recency_def Let_def split: option.splits)

text \<open>The events the estimate is computed from.\<close>

definition selected_events :: "formula_config \<Rightarrow> datetime \<Rightarrow> skill_evidence list \<Rightarrow> skill_evidence list" where
  "selected_events f as_of events =
     py_suffix (latest_qualifying_events f) (sort_key evidence_key (filter (qualifying_by as_of) events))"

lemma set_selected: "set (selected_events f as_of es) \<subseteq> set (filter (qualifying_by as_of) es)"
  using set_py_suffix [of _ "sort_key evidence_key (filter (qualifying_by as_of) es)"]
  by (auto simp: selected_events_def)

lemma list_all_selected: "list_all P es \<Longrightarrow> list_all P (selected_events f as_of es)"
  using set_selected [of f as_of es] by (auto simp: list_all_iff)

lemma length_selected: "formula_ok f \<Longrightarrow> length (selected_events f as_of es) \<le> latest_qualifying_events f"
  using formula_okD(2) [of f] by (simp add: selected_events_def length_py_suffix)

text \<open>What the caller has checked before it asks for an estimate.\<close>

definition estimate_input_ok ::
    "formula_config \<Rightarrow> datetime \<Rightarrow> skill_evidence list \<Rightarrow> bool" where
  "estimate_input_ok f as_of events \<longleftrightarrow>
     formula_ok f \<and> aware as_of \<and> list_all evidence_ok events \<and>
     distinct (map event_id events) \<and>
     list_all (\<lambda>e. effective_weight e \<le> maximum_effective_weight_per_event f) events"

lemma estimate_mean:
  assumes f: "formula_ok f" and h: "hull_bounds l h" and b: "l \<le> b" "b \<le> h"
    and es: "list_all (event_within l h) es" "length es \<le> 1000"
  defines "W \<equiv> sum_list (map effective_weight es)"
  shows "\<exists>m y. divide_decimal
      (dec_add (dec_mul b (prior_weight f))
        (dec_sum (map (\<lambda>e. dec_mul (performance_score e) (effective_weight e)) es)))
      (dec_add (prior_weight f) W) = Inr m
    \<and> score_quantum m = Inr y \<and> l \<le> y \<and> y \<le> h"
proof -
  let ?P = "prior_weight f"
  let ?S = "dec_sum (map (\<lambda>e. dec_mul (performance_score e) (effective_weight e)) es)"
  have P: "0 < ?P" "?P \<le> 1000" "places 6 ?P"
    using formula_okD(1) [OF f] by (auto simp: prior_weight_ok_def)
  have len: "length es \<le> 10 ^ 6" using es(2) by simp
  note w = weights_sum [OF es(1) len, folded W_def]
  have "(of_nat (length es) :: rat) \<le> 1000" using es(2) of_nat_mono by fastforce
  then have "W \<le> 2000" using w by linarith
  then have PW: "?P + W \<le> 10 ^ 9" using P by simp
  have den: "dec_add ?P W = ?P + W" using P w PW by (intro dec_add_weights) auto
  have "weighted_hull l h (dec_mul b ?P) ?P" using P by (intro dec_mul_hull [OF h b]) auto
  moreover have "weighted_hull l h ?S W"
    unfolding W_def by (rule weighted_scores_hull [OF h es(1) len])
  ultimately have "weighted_hull l h (dec_add (dec_mul b ?P) ?S) (?P + W)"
    using dec_add_hull [OF h _ _ PW] by blast
  then have m: "l \<le> dec_div (dec_add (dec_mul b ?P) ?S) (?P + W)"
      "dec_div (dec_add (dec_mul b ?P) ?S) (?P + W) \<le> h"
    using dec_div_hull [OF h] P w by simp_all
  obtain y where "score_quantum (dec_div (dec_add (dec_mul b ?P) ?S) (?P + W)) = Inr y"
    "l \<le> y" "y \<le> h" by (rule score_quantum_hull [OF h m])
  moreover have "?P + W \<noteq> 0" using P w by linarith
  ultimately show ?thesis using den by (simp add: divide_decimal_def)
qed


definition example_evidence :: "skill_evidence list" where
  "example_evidence =
     map (\<lambda>(i, s, m). \<lparr>event_id = IntId i, performance_score = s, effective_weight = 1,
        occurred_at = Aware (td_days i) 0, se_qualifying = True, se_exercise_type = ''sql_drill'',
        se_scenario_key = ''case'', se_practice_mode = m, se_attempt_kind = ''attempt_a'',
        se_reviewed_artifact = True, se_scored_recording = False\<rparr>)
       [(1, 2, ''mock_interview''), (2, 3, ''independent_practice'')]"


section \<open>Confidence\<close>

lemma sum_list_insort: "sum_list (map f (insort_key k x xs)) = f x + sum_list (map f xs)"
  for f :: "'a \<Rightarrow> rat"
  by (induction xs) auto

lemma sum_list_sort: "sum_list (map f (sort_key k xs)) = sum_list (map f xs)" for f :: "'a \<Rightarrow> rat"
  by (induction xs) (auto simp: sort_key_def sum_list_insort)

fun confidence_rank :: "confidence_result \<Rightarrow> nat" where
  "confidence_rank c =
     (if confidence_code c = ''high'' then 2 else if confidence_code c = ''medium'' then 1 else 0)"

definition high_tests :: "formula_config \<Rightarrow> datetime \<Rightarrow> skill_evidence list \<Rightarrow> bool" where
  "high_tests f as_of q \<longleftrightarrow>
     high_minimum_effective_weight (confidence f) \<le> sum_list (map effective_weight q) \<and>
     high_minimum_exercise_types (confidence f) \<le> card (se_exercise_type ` set q) \<and>
     has_recent_assessment f as_of q \<and>
     (list_ex (\<lambda>e. se_reviewed_artifact e \<or> se_scored_recording e) q \<or>
      \<not> high_requires_reviewed_artifact_or_recording (confidence f))"

definition medium_tests :: "formula_config \<Rightarrow> skill_evidence list \<Rightarrow> bool" where
  "medium_tests f q \<longleftrightarrow>
     medium_minimum_effective_weight (confidence f) \<le> sum_list (map effective_weight q) \<and>
     medium_minimum_exercise_types (confidence f) \<le> card (se_exercise_type ` set q) \<and>
     (list_ex (\<lambda>e. se_practice_mode e = ''independent_practice'' \<and>
                   se_attempt_kind e = ''attempt_a'') q \<or>
      \<not> medium_requires_independent_attempt (confidence f))"

lemma list_ex_sort [simp]: "list_ex P (sort_key k xs) = list_ex P xs"
  by (simp add: list_ex_iff)

lemma has_recent_assessment_sort [simp]:
  "has_recent_assessment f as_of (sort_key k xs) = has_recent_assessment f as_of xs"
  by (simp add: has_recent_assessment_def Let_def)

lemma confidence_code_tests:
  assumes "aware as_of" "list_all (event_within l h) es" "length es \<le> 10 ^ 6"
  defines "q \<equiv> filter (qualifying_by as_of) es"
  shows "\<exists>c. classify_confidence es f as_of = Inr c
    \<and> confidence_rank c = (if high_tests f as_of q then 2 else if medium_tests f q then 1 else 0)"
proof -
  have "length q \<le> 10 ^ 6"
    using assms(3) length_filter_le [of "qualifying_by as_of" es] unfolding q_def by linarith
  then have w: "weight_quantum (dec_sum (map effective_weight (sort_key evidence_key q)))
      = Inr (sum_list (map effective_weight q))"
    using weight_quantum_sum [of l h "sort_key evidence_key q"] assms(2) q_def
    by (auto simp: sum_list_sort intro: event_within_filter)
  have n: "length (remdups (map se_exercise_type (sort_key evidence_key q)))
      = card (se_exercise_type ` set q)"
    by (simp add: length_remdups_card_conv)
  show ?thesis
    using assms(1) w n
    by (simp add: classify_confidence_def high_tests_def medium_tests_def Let_def flip: q_def)
qed

lemma tests_mono:
  assumes "list_all (event_within l h) more_events"
  shows "high_tests f as_of q \<Longrightarrow> high_tests f as_of (q @ more_events)"
    and "medium_tests f q \<Longrightarrow> medium_tests f (q @ more_events)"
proof -
  have "0 \<le> sum_list (map effective_weight more_events)"
    using assms by (intro sum_list_nonneg) (auto simp: list_all_iff event_within_def)
  moreover have "card (se_exercise_type ` set q) \<le> card (se_exercise_type ` set (q @ more_events))"
    by (intro card_mono) auto
  ultimately show "high_tests f as_of q \<Longrightarrow> high_tests f as_of (q @ more_events)"
    and "medium_tests f q \<Longrightarrow> medium_tests f (q @ more_events)"
    unfolding high_tests_def medium_tests_def has_recent_assessment_def Let_def list_ex_append
      map_append sum_list_append by (auto simp del: set_append)
qed

text \<open>
  More evidence never lowers confidence. At one reference time and under one formula, adding
  events to the evidence a confidence is classified from, qualifying or not, recent or old, leaves
  the classification where it was or raises it, and neither classification raises an exception.
\<close>

theorem confidence_never_drops:
  assumes "aware as_of" "list_all (event_within 0 4) (events @ added)"
    and "length (events @ added) \<le> 10 ^ 6"
  shows "\<exists>c c'. classify_confidence events f as_of = Inr c
    \<and> classify_confidence (events @ added) f as_of = Inr c'
    \<and> confidence_rank c \<le> confidence_rank c'"
proof -
  let ?q = "filter (qualifying_by as_of)"
  have "list_all (event_within 0 4) events" "length events \<le> 10 ^ 6" using assms by simp_all
  then obtain c where c: "classify_confidence events f as_of = Inr c"
    "confidence_rank c = (if high_tests f as_of (?q events) then 2
       else if medium_tests f (?q events) then 1 else 0)"
    using confidence_code_tests [OF assms(1)] by blast
  obtain c' where c': "classify_confidence (events @ added) f as_of = Inr c'"
    "confidence_rank c' = (if high_tests f as_of (?q (events @ added)) then 2
       else if medium_tests f (?q (events @ added)) then 1 else 0)"
    using confidence_code_tests [OF assms] by blast
  have "list_all (event_within 0 4) (?q added)" using assms(2) by (auto intro: event_within_filter)
  note mono = tests_mono [OF this]
  have "confidence_rank c \<le> confidence_rank c'"
    unfolding c(2) c'(2) filter_append using mono(1) [of f as_of "?q events"] mono(2) [of f "?q events"]
    by (auto simp del: confidence_rank.simps)
  with c c' show ?thesis by blast
qed

theorem confidence_never_drops_witness:
  "\<exists>c c'. classify_confidence [] example_formula (Aware (td_days 3) 0) = Inr c
    \<and> classify_confidence example_evidence example_formula (Aware (td_days 3) 0) = Inr c'
    \<and> confidence_rank c \<le> confidence_rank c'"
  using confidence_never_drops [of "Aware (td_days 3) 0" "[]" example_evidence example_formula]
  by (simp add: example_evidence_def event_within_def del: confidence_rank.simps)

end
