(* ===== verification/Json.thy ===== *)
theory Json
  imports Strings
begin

text \<open>
  The part of Python's \<^verbatim>\<open>json\<close> module the backend uses: \<^verbatim>\<open>dumps\<close> with sorted keys and
  compact separators, which writes the canonical text of a learner's output and of a command, and
  \<^verbatim>\<open>loads\<close>, which reads a stored output back. Strings are sequences of code points below 256;
  an escape of a larger code point is outside the model and fails. A number with a fraction or an
  exponent keeps its literal. The last section proves that \<^verbatim>\<open>loads\<close> inverts \<^verbatim>\<open>dumps\<close>.
\<close>

section \<open>Values\<close>

datatype json =
    JNull
  | JBool bool
  | JInt int
  | JFloat string
  | JStr string
  | JArr "json list"
  | JObj "(string \<times> json) list"

text \<open>\<^verbatim>\<open>value[key]\<close> on an object: of several equal keys the last one counts.\<close>

fun json_get :: "json \<Rightarrow> string \<Rightarrow> json option" where
  "json_get (JObj kvs) k = map_of (rev kvs) k"
| "json_get _ k = None"

section \<open>Writing\<close>

definition hex_digit :: "nat \<Rightarrow> char" where
  "hex_digit d = (if d < 10 then char_of (48 + d) else char_of (87 + d))"

definition u_escape :: "nat \<Rightarrow> string" where
  "u_escape n = [CHR 0x5C, CHR ''u'', CHR ''0'', CHR ''0'', hex_digit (n div 16), hex_digit (n mod 16)]"

text \<open>One character of a string; \<open>ascii\<close> is \<^verbatim>\<open>ensure_ascii\<close>.\<close>

definition dump_char :: "bool \<Rightarrow> char \<Rightarrow> string" where
  "dump_char ascii c =
     (let n = of_char c :: nat in
      if n = 34 then [CHR 0x5C, CHR 0x22]
      else if n = 92 then [CHR 0x5C, CHR 0x5C]
      else if n = 8 then [CHR 0x5C, CHR ''b'']
      else if n = 12 then [CHR 0x5C, CHR ''f'']
      else if n = 10 then [CHR 0x5C, CHR ''n'']
      else if n = 13 then [CHR 0x5C, CHR ''r'']
      else if n = 9 then [CHR 0x5C, CHR ''t'']
      else if n < 32 \<or> (ascii \<and> 127 \<le> n) then u_escape n
      else [c])"

definition dump_string :: "bool \<Rightarrow> string \<Rightarrow> string" where
  "dump_string ascii s = CHR 0x22 # concat (map (dump_char ascii) s) @ [CHR 0x22]"

fun dump_json :: "bool \<Rightarrow> json \<Rightarrow> string"
and dump_elems :: "bool \<Rightarrow> json list \<Rightarrow> string"
and dump_members :: "bool \<Rightarrow> (string \<times> json) list \<Rightarrow> string" where
  "dump_json a JNull = ''null''"
| "dump_json a (JBool b) = (if b then ''true'' else ''false'')"
| "dump_json a (JInt i) = int_str i"
| "dump_json a (JFloat s) = s"
| "dump_json a (JStr s) = dump_string a s"
| "dump_json a (JArr []) = ''[]''"
| "dump_json a (JArr (j # js)) = CHR ''['' # dump_json a j @ dump_elems a js"
| "dump_json a (JObj []) = ''{}''"
| "dump_json a (JObj ((k, j) # kjs)) =
     CHR ''{'' # dump_string a k @ CHR '':'' # dump_json a j @ dump_members a kjs"
| "dump_elems a [] = '']''"
| "dump_elems a (j # js) = CHR '','' # dump_json a j @ dump_elems a js"
| "dump_members a [] = ''}''"
| "dump_members a ((k, j) # kjs) =
     CHR '','' # dump_string a k @ CHR '':'' # dump_json a j @ dump_members a kjs"

text \<open>\<^verbatim>\<open>sort_keys=True\<close>, at every level.\<close>

fun sort_json :: "json \<Rightarrow> json" where
  "sort_json (JArr js) = JArr (map sort_json js)"
| "sort_json (JObj kjs) = JObj (sort_key fst (map (\<lambda>(k, j). (k, sort_json j)) kjs))"
| "sort_json j = j"

definition dumps :: "bool \<Rightarrow> json \<Rightarrow> string" where
  "dumps ascii j = dump_json ascii (sort_json j)"

section \<open>Reading\<close>

definition json_space :: "char \<Rightarrow> bool" where
  "json_space c \<longleftrightarrow> c \<in> {CHR '' '', CHR 0x09, CHR 0x0A, CHR 0x0D}"

definition skip_ws :: "string \<Rightarrow> string" where
  "skip_ws s = dropWhile json_space s"

definition hex_val :: "char \<Rightarrow> nat option" where
  "hex_val c =
     (let n = of_char c :: nat in
      if 48 \<le> n \<and> n \<le> 57 then Some (n - 48)
      else if 97 \<le> n \<and> n \<le> 102 then Some (n - 87)
      else if 65 \<le> n \<and> n \<le> 70 then Some (n - 55)
      else None)"

definition simple_escape :: "char \<Rightarrow> char option" where
  "simple_escape c =
     map_of [(CHR 0x22, CHR 0x22), (CHR 0x5C, CHR 0x5C), (CHR ''/'', CHR ''/''),
             (CHR ''b'', CHR 0x08), (CHR ''f'', CHR 0x0C), (CHR ''n'', CHR 0x0A),
             (CHR ''r'', CHR 0x0D), (CHR ''t'', CHR 0x09)] c"

text \<open>The rest of a string after its opening quote.\<close>

fun parse_string :: "string \<Rightarrow> (string \<times> string) option" where
  "parse_string [] = None"
| "parse_string (c # s) =
     (if c = CHR 0x22 then Some ([], s)
      else if c = CHR 0x5C then
        (case s of
           [] \<Rightarrow> None
         | e # s' \<Rightarrow>
             if e = CHR ''u'' then
               (case s' of
                  h1 # h2 # h3 # h4 # s'' \<Rightarrow>
                    (case (hex_val h1, hex_val h2, hex_val h3, hex_val h4) of
                       (Some 0, Some 0, Some x, Some y) \<Rightarrow>
                         map_option (apfst (\<lambda>t. char_of (16 * x + y) # t)) (parse_string s'')
                     | _ \<Rightarrow> None)
                | _ \<Rightarrow> None)
             else
               (case simple_escape e of
                  None \<Rightarrow> None
                | Some d \<Rightarrow> map_option (apfst (\<lambda>t. d # t)) (parse_string s')))
      else if (of_char c :: nat) < 32 then None
      else map_option (apfst (\<lambda>t. c # t)) (parse_string s))"

text \<open>A number token: an integer part, then perhaps a fraction and an exponent.\<close>

definition take_fraction :: "string \<Rightarrow> string \<times> string" where
  "take_fraction s =
     (case s of
        c # r \<Rightarrow>
          if c = CHR ''.'' \<and> takeWhile is_digit r \<noteq> []
          then (c # takeWhile is_digit r, dropWhile is_digit r) else ([], s)
      | [] \<Rightarrow> ([], s))"

definition take_sign :: "string \<Rightarrow> string \<times> string" where
  "take_sign s =
     (case s of
        c # r \<Rightarrow> if c \<in> {CHR ''+'', CHR ''-''} then ([c], r) else ([], s)
      | [] \<Rightarrow> ([], s))"

definition take_exponent :: "string \<Rightarrow> string \<times> string" where
  "take_exponent s =
     (case s of
        c # r \<Rightarrow>
          if c \<in> {CHR ''e'', CHR ''E''} then
            (let (sg, r') = take_sign r in
             if takeWhile is_digit r' \<noteq> []
             then (c # sg @ takeWhile is_digit r', dropWhile is_digit r') else ([], s))
          else ([], s)
      | [] \<Rightarrow> ([], s))"

definition parse_nat :: "string \<Rightarrow> (string \<times> string) option" where
  "parse_nat s =
     (case s of
        [] \<Rightarrow> None
      | c # r \<Rightarrow>
          if c = CHR ''0'' then Some ([c], r)
          else if is_digit c then Some (takeWhile is_digit s, dropWhile is_digit s)
          else None)"

definition parse_number :: "string \<Rightarrow> (json \<times> string) option" where
  "parse_number s =
     (let (sg, r) = (case s of c # r \<Rightarrow> if c = CHR ''-'' then ([c], r) else ([], s) | [] \<Rightarrow> ([], s))
      in case parse_nat r of
           None \<Rightarrow> None
         | Some (ds, r1) \<Rightarrow>
             (let (fr, r2) = take_fraction r1; (ex, r3) = take_exponent r2
              in if fr = [] \<and> ex = []
                 then Some (JInt (if sg = [] then int (str_nat ds) else - int (str_nat ds)), r1)
                 else Some (JFloat (sg @ ds @ fr @ ex), r3)))"

definition strip_prefix :: "string \<Rightarrow> string \<Rightarrow> string option" where
  "strip_prefix p s = (if take (length p) s = p then Some (drop (length p) s) else None)"

fun parse_word :: "(string \<times> json) list \<Rightarrow> string \<Rightarrow> (json \<times> string) option" where
  "parse_word [] s = None"
| "parse_word ((w, j) # ws) s =
     (case strip_prefix w s of Some r \<Rightarrow> Some (j, r) | None \<Rightarrow> parse_word ws s)"

definition json_words :: "(string \<times> json) list" where
  "json_words = [(''null'', JNull), (''true'', JBool True), (''false'', JBool False),
     (''NaN'', JFloat ''NaN''), (''Infinity'', JFloat ''Infinity''),
     (''-Infinity'', JFloat ''-Infinity'')]"

text \<open>
  The recursive descent, with fuel; \<open>parse_elems\<close> and \<open>parse_members\<close> read from just after an
  element or a member to the closing bracket.
\<close>

fun parse_value :: "nat \<Rightarrow> string \<Rightarrow> (json \<times> string) option"
and parse_elems :: "nat \<Rightarrow> string \<Rightarrow> (json list \<times> string) option"
and parse_member :: "nat \<Rightarrow> string \<Rightarrow> ((string \<times> json) \<times> string) option"
and parse_members :: "nat \<Rightarrow> string \<Rightarrow> ((string \<times> json) list \<times> string) option" where
  "parse_value 0 s = None"
| "parse_value (Suc n) s =
     (case s of
        [] \<Rightarrow> None
      | c # r \<Rightarrow>
          if c = CHR 0x22 then map_option (apfst JStr) (parse_string r)
          else if c = CHR ''['' then
            (case skip_ws r of
               d # r' \<Rightarrow>
                 if d = CHR '']'' then Some (JArr [], r')
                 else (case parse_value n (d # r') of
                         None \<Rightarrow> None
                       | Some (j, r'') \<Rightarrow>
                           map_option (apfst (\<lambda>js. JArr (j # js))) (parse_elems n r''))
             | [] \<Rightarrow> None)
          else if c = CHR ''{'' then
            (case skip_ws r of
               d # r' \<Rightarrow>
                 if d = CHR ''}'' then Some (JObj [], r')
                 else (case parse_member n (d # r') of
                         None \<Rightarrow> None
                       | Some (kj, r'') \<Rightarrow>
                           map_option (apfst (\<lambda>kjs. JObj (kj # kjs))) (parse_members n r''))
             | [] \<Rightarrow> None)
          else
            (case parse_word json_words s of
               Some jr \<Rightarrow> Some jr
             | None \<Rightarrow> parse_number s))"
| "parse_elems 0 s = None"
| "parse_elems (Suc n) s =
     (case skip_ws s of
        d # r \<Rightarrow>
          if d = CHR '']'' then Some ([], r)
          else if d = CHR '','' then
            (case parse_value n (skip_ws r) of
               None \<Rightarrow> None
             | Some (j, r') \<Rightarrow> map_option (apfst (\<lambda>js. j # js)) (parse_elems n r'))
          else None
      | [] \<Rightarrow> None)"
| "parse_member 0 s = None"
| "parse_member (Suc n) s =
     (case s of
        q # r \<Rightarrow>
          if q = CHR 0x22 then
            (case parse_string r of
               None \<Rightarrow> None
             | Some (k, r') \<Rightarrow>
                 (case skip_ws r' of
                    d # r'' \<Rightarrow>
                      if d = CHR '':''
                      then map_option (apfst (\<lambda>j. (k, j))) (parse_value n (skip_ws r''))
                      else None
                  | [] \<Rightarrow> None))
          else None
      | [] \<Rightarrow> None)"
| "parse_members 0 s = None"
| "parse_members (Suc n) s =
     (case skip_ws s of
        d # r \<Rightarrow>
          if d = CHR ''}'' then Some ([], r)
          else if d = CHR '','' then
            (case parse_member n (skip_ws r) of
               None \<Rightarrow> None
             | Some (kj, r') \<Rightarrow> map_option (apfst (\<lambda>kjs. kj # kjs)) (parse_members n r'))
          else None
      | [] \<Rightarrow> None)"

text \<open>
  Every nested call consumes a character or one unit of fuel per bracket, so twice the length of
  the text is more than enough fuel; \<open>loads_dumps\<close> below shows it for every text \<open>dumps\<close> writes.
\<close>

definition loads :: "string \<Rightarrow> json option" where
  "loads s =
     (case parse_value (2 * length s + 2) (skip_ws s) of
        None \<Rightarrow> None
      | Some (j, r) \<Rightarrow> if skip_ws r = [] then Some j else None)"

section \<open>Reading inverts writing\<close>

lemma is_digit_iff: "is_digit c \<longleftrightarrow> 48 \<le> (of_char c :: nat) \<and> (of_char c :: nat) \<le> 57"
  by (simp add: is_digit_def in_range_def)

lemma hex_val_digit: "d < 16 \<Longrightarrow> hex_val (hex_digit d) = Some d"
  by (auto simp: hex_val_def hex_digit_def Let_def)

lemma char_eq_iff: "c = d \<longleftrightarrow> (of_char c :: nat) = of_char d"
  by (metis char_of_char)

lemma of_char_less: "(of_char c :: nat) < 256"
  by (metis of_char_mod_256 mod_less_divisor zero_less_numeral)

lemma parse_u_escape:
  assumes "n = of_char c"
  shows "parse_string (u_escape n @ t) = map_option (apfst (\<lambda>x. c # x)) (parse_string t)"
proof -
  have "n < 16 * 16" unfolding assms using of_char_less [of c] by simp
  then have n: "n div 16 < 16" "n mod 16 < 16" by (auto intro: less_mult_imp_div_less)
  have c: "char_of (16 * (n div 16) + n mod 16) = c" using assms by simp
  have z: "hex_val (CHR ''0'') = Some 0" by (simp add: hex_val_def)
  have "parse_string (u_escape n @ t) =
      map_option (apfst (\<lambda>x. char_of (16 * (n div 16) + n mod 16) # x)) (parse_string t)"
    by (simp add: u_escape_def z hex_val_digit [OF n(1)] hex_val_digit [OF n(2)])
  then show ?thesis unfolding c .
qed

lemma parse_dump_char:
  "parse_string (dump_char a c @ t) = map_option (apfst (\<lambda>x. c # x)) (parse_string t)"
proof (cases "(of_char c :: nat) \<in> {34, 92, 8, 12, 10, 13, 9}")
  case True
  then have "c \<in> {CHR 0x22, CHR 0x5C, CHR 0x08, CHR 0x0C, CHR 0x0A, CHR 0x0D, CHR 0x09}"
    by (auto simp: char_eq_iff)
  then show ?thesis by (auto simp: dump_char_def simple_escape_def)
next
  case False
  then have ne: "c \<noteq> CHR 0x22" "c \<noteq> CHR 0x5C" by auto
  show ?thesis
  proof (cases "(of_char c :: nat) < 32 \<or> (a \<and> 127 \<le> (of_char c :: nat))")
    case esc: True
    with False have "dump_char a c = u_escape (of_char c)" by (auto simp: dump_char_def Let_def)
    then show ?thesis using parse_u_escape [OF refl] by simp
  next
    case plain: False
    with False have "dump_char a c = [c]" by (auto simp: dump_char_def Let_def)
    with ne plain show ?thesis by simp
  qed
qed

lemma parse_dump_string:
  "parse_string (concat (map (dump_char a) s) @ CHR 0x22 # r) = Some (s, r)"
proof (induction s)
  case (Cons c s)
  then show ?case by (simp add: parse_dump_char del: parse_string.simps(2))
qed simp

text \<open>What may follow a value inside a canonical text.\<close>

definition delimited :: "string \<Rightarrow> bool" where
  "delimited r \<longleftrightarrow> r = [] \<or> hd r \<in> {CHR '','', CHR '']'', CHR ''}''}"

lemma delimited_Cons [simp]: "delimited (CHR '','' # r)" "delimited (CHR '']'' # r)" "delimited (CHR ''}'' # r)"
  by (simp_all add: delimited_def)

lemma nat_str_all_digits: "list_all is_digit (nat_str n)"
  using nat_str_digits by (auto simp: list_all_iff is_digit_iff)

lemma nat_str_ne [simp]: "nat_str n \<noteq> []"
  by (simp add: nat_str.simps [of n])

lemma nat_str_hd_zero: "hd (nat_str n) = CHR ''0'' \<Longrightarrow> n = 0"
proof (induction n rule: nat_str.induct)
  case (1 n)
  show ?case
  proof (cases "n < 10")
    case True
    with "1.prems" show ?thesis by (simp add: nat_str.simps [of n] digit_char_def char_eq_iff)
  next
    case False
    with "1.prems" have "hd (nat_str (n div 10)) = CHR ''0''"
      by (simp add: nat_str.simps [of n] hd_append)
    with "1.IH" False have "n div 10 = 0" by simp
    with False show ?thesis by simp
  qed
qed

lemma nat_str_zero: "nat_str 0 = ''0''"
  by (simp add: nat_str.simps digit_char_def char_eq_iff)

lemma takeWhile_digits:
  assumes "list_all is_digit ds" "delimited r"
  shows "takeWhile is_digit (ds @ r) = ds" "dropWhile is_digit (ds @ r) = r"
proof -
  have r: "takeWhile is_digit r = []" "dropWhile is_digit r = r"
    using assms(2) by (cases r; auto simp: delimited_def is_digit_iff)+
  show "takeWhile is_digit (ds @ r) = ds" "dropWhile is_digit (ds @ r) = r"
    using assms(1) r by (simp_all add: list_all_iff takeWhile_append2 dropWhile_append2)
qed

lemma parse_nat_str:
  assumes "delimited r"
  shows "parse_nat (nat_str n @ r) = Some (nat_str n, r)"
proof (cases "n = 0")
  case True
  then show ?thesis by (simp add: nat_str_zero parse_nat_def)
next
  case False
  obtain c cs where c: "nat_str n = c # cs" by (cases "nat_str n") auto
  with False nat_str_hd_zero [of n] have "c \<noteq> CHR ''0''" by auto
  moreover have "is_digit c" using nat_str_all_digits [of n] c by simp
  ultimately show ?thesis
    using takeWhile_digits [OF nat_str_all_digits assms, of n] by (simp add: parse_nat_def c)
qed

lemma no_fraction: "delimited r \<Longrightarrow> take_fraction r = ([], r)" "delimited r \<Longrightarrow> take_exponent r = ([], r)"
  by (cases r; auto simp: delimited_def take_fraction_def take_exponent_def)+

lemma parse_int_str:
  assumes "delimited r"
  shows "parse_number (int_str i @ r) = Some (JInt i, r)"
proof (cases "i < 0")
  case True
  then show ?thesis
    using assms by (simp add: parse_number_def int_str_def parse_nat_str no_fraction)
next
  case False
  obtain c cs where c: "nat_str (nat i) = c # cs" by (cases "nat_str (nat i)") auto
  then have "is_digit c" using nat_str_all_digits [of "nat i"] by simp
  then have "c \<noteq> CHR ''-''" by (auto simp: is_digit_iff)
  moreover have "str_nat (c # cs) = nat i" using str_nat_nat_str [of "nat i"] c by simp
  ultimately show ?thesis
    using False assms parse_nat_str [OF assms, of "nat i"]
    by (simp add: parse_number_def int_str_def c no_fraction)
qed

text \<open>Values with integers as their only numbers, the ones the backend writes.\<close>

fun json_plain :: "json \<Rightarrow> bool" where
  "json_plain (JFloat s) = False"
| "json_plain (JArr js) = list_all json_plain js"
| "json_plain (JObj kjs) = list_all (\<lambda>kj. json_plain (snd kj)) kjs"
| "json_plain _ = True"

definition value_start :: "char \<Rightarrow> bool" where
  "value_start c \<longleftrightarrow> \<not> json_space c \<and> c \<notin> {CHR '','', CHR '']'', CHR ''}'', CHR '':''}"

lemma digit_value_start: "is_digit c \<Longrightarrow> value_start c"
  by (auto simp: value_start_def json_space_def is_digit_iff)

lemma dump_starts:
  assumes "json_plain j"
  obtains c cs where "dump_json a j = c # cs" "value_start c"
proof (cases j)
  case (JInt i)
  show ?thesis
  proof (cases "i < 0")
    case True
    then show ?thesis
      using JInt by (intro that) (auto simp: int_str_def value_start_def json_space_def)
  next
    case False
    obtain c cs where c: "nat_str (nat i) = c # cs" by (cases "nat_str (nat i)") auto
    then have "is_digit c" using nat_str_all_digits [of "nat i"] by simp
    with False JInt c show ?thesis by (intro that) (auto simp: int_str_def digit_value_start)
  qed
next
  case (JArr js)
  then show ?thesis
    by (cases js) (auto intro: that simp: value_start_def json_space_def)
next
  case (JObj kjs)
  then show ?thesis
    by (cases kjs) (auto intro: that simp: value_start_def json_space_def)
next
  case (JBool b)
  then show ?thesis by (cases b) (auto intro: that simp: value_start_def json_space_def)
qed (use assms in \<open>auto intro: that simp: value_start_def json_space_def dump_string_def\<close>)

lemma skip_ws_start: "value_start c \<Longrightarrow> skip_ws (c # cs) = c # cs"
  by (simp add: skip_ws_def value_start_def)

lemma skip_ws_delim [simp]:
  "skip_ws (CHR '','' # r) = CHR '','' # r" "skip_ws (CHR '']'' # r) = CHR '']'' # r"
  "skip_ws (CHR ''}'' # r) = CHR ''}'' # r" "skip_ws (CHR '':'' # r) = CHR '':'' # r"
  "skip_ws (CHR 0x22 # r) = CHR 0x22 # r" "skip_ws [] = []"
  by (simp_all add: skip_ws_def json_space_def)

lemma skip_ws_dump: "json_plain j \<Longrightarrow> skip_ws (dump_json a j @ r) = dump_json a j @ r"
  by (metis dump_starts skip_ws_start append_Cons)

lemma parse_word_int: "parse_word json_words (int_str i @ r) = None"
proof -
  obtain c cs where c: "nat_str (nat \<bar>i\<bar>) = c # cs" by (cases "nat_str (nat \<bar>i\<bar>)") auto
  then have "is_digit c" using nat_str_all_digits [of "nat \<bar>i\<bar>"] by simp
  then have ne: "c \<notin> set ''ntfNI-''" by (auto simp: is_digit_iff)
  show ?thesis
  proof (cases "i < 0")
    case True
    then have "int_str i = CHR ''-'' # c # cs" using c by (simp add: int_str_def)
    with ne show ?thesis by (simp add: json_words_def strip_prefix_def)
  next
    case False
    then have "int_str i = c # cs" using c by (simp add: int_str_def)
    with ne show ?thesis by (simp add: json_words_def strip_prefix_def)
  qed
qed

lemma parse_value_int:
  assumes "delimited r"
  shows "parse_value (Suc n) (int_str i @ r) = Some (JInt i, r)"
proof -
  obtain c cs where c: "int_str i = c # cs" "c = CHR ''-'' \<or> is_digit c"
  proof (cases "i < 0")
    case True
    then show ?thesis by (intro that) (auto simp: int_str_def)
  next
    case False
    obtain c cs where c: "nat_str (nat i) = c # cs" by (cases "nat_str (nat i)") auto
    then have "is_digit c" using nat_str_all_digits [of "nat i"] by simp
    with False c show ?thesis by (intro that) (auto simp: int_str_def)
  qed
  then have "c \<notin> {CHR 0x22, CHR ''['', CHR ''{''}" by (auto simp: is_digit_iff)
  with c(1) parse_int_str [OF assms, of i] parse_word_int [of i r] show ?thesis by simp
qed

text \<open>The fuel a value needs, and that twice the length of its text is enough.\<close>

fun value_fuel :: "json \<Rightarrow> nat"
and elems_fuel :: "json list \<Rightarrow> nat"
and members_fuel :: "(string \<times> json) list \<Rightarrow> nat" where
  "value_fuel (JArr js) = Suc (elems_fuel js)"
| "value_fuel (JObj kjs) = Suc (members_fuel kjs)"
| "value_fuel _ = 1"
| "elems_fuel [] = 1"
| "elems_fuel (j # js) = Suc (max (value_fuel j) (elems_fuel js))"
| "members_fuel [] = 1"
| "members_fuel ((k, j) # kjs) = Suc (max (Suc (value_fuel j)) (members_fuel kjs))"

lemma fuel_bound:
  "value_fuel j \<le> 2 * length (dump_json a j) + 1"
  "elems_fuel js \<le> 2 * length (dump_elems a js)"
  "members_fuel kjs \<le> 2 * length (dump_members a kjs)"
proof (induction a j and a js and a kjs rule: dump_json_dump_elems_dump_members.induct)
  case (7 a j js)
  then show ?case by (auto simp: max_def)
next
  case (9 a k j kjs)
  then show ?case by (auto simp: max_def)
qed auto

lemma delimited_elems: "delimited (dump_elems a js @ r)"
  by (cases js) auto

lemma delimited_members: "delimited (dump_members a kjs @ r)"
  by (cases kjs) auto

lemma parse_member_dump:
  assumes "json_plain j" "parse_value n (dump_json a j @ r) = Some (j, r)"
  shows "parse_member (Suc n) (dump_string a k @ CHR '':'' # dump_json a j @ r) = Some ((k, j), r)"
  using assms by (simp add: dump_string_def parse_dump_string skip_ws_dump)

lemma parse_dump:
  "json_plain j \<Longrightarrow> value_fuel j \<le> n \<Longrightarrow> delimited r \<Longrightarrow>
     parse_value n (dump_json a j @ r) = Some (j, r)"
  "list_all json_plain js \<Longrightarrow> elems_fuel js \<le> n \<Longrightarrow>
     parse_elems n (dump_elems a js @ r) = Some (js, r)"
  "list_all (\<lambda>kj. json_plain (snd kj)) kjs \<Longrightarrow> members_fuel kjs \<le> n \<Longrightarrow>
     parse_members n (dump_members a kjs @ r) = Some (kjs, r)"
proof (induction a j and a js and a kjs arbitrary: n r and n r and n r
    rule: dump_json_dump_elems_dump_members.induct)
  case (1 a)
  then obtain m where "n = Suc m" by (cases n) auto
  then show ?case by (simp add: json_words_def strip_prefix_def)
next
  case (2 a b)
  then obtain m where "n = Suc m" by (cases n) auto
  then show ?case by (cases b) (simp_all add: json_words_def strip_prefix_def)
next
  case (3 a i)
  then obtain m where "n = Suc m" by (cases n) auto
  with 3 show ?case by (simp add: parse_value_int del: parse_value.simps)
next
  case (5 a s)
  then obtain m where "n = Suc m" by (cases n) auto
  then show ?case by (simp add: dump_string_def parse_dump_string)
next
  case (6 a)
  then obtain m where "n = Suc m" by (cases n) auto
  then show ?case by simp
next
  case (7 a j js)
  then obtain m where n: "n = Suc m" "value_fuel j \<le> m" "elems_fuel js \<le> m" by (cases n) auto
  obtain c cs where c: "dump_json a j = c # cs" "value_start c"
    by (rule dump_starts [of j a]) (use 7 in simp)
  have "c \<noteq> CHR '']''" using c(2) by (auto simp: value_start_def)
  moreover have "parse_value m (dump_json a j @ dump_elems a js @ r) = Some (j, dump_elems a js @ r)"
    using 7 n by (intro "7.IH") (auto simp: delimited_elems)
  moreover have "parse_elems m (dump_elems a js @ r) = Some (js, r)" using 7 n by simp
  ultimately show ?case using n c by (simp add: skip_ws_start)
next
  case (8 a)
  then obtain m where "n = Suc m" by (cases n) auto
  then show ?case by simp
next
  case (9 a k j kjs)
  then obtain m where m: "n = Suc m" "Suc (value_fuel j) \<le> m" "members_fuel kjs \<le> m"
    by (cases n) auto
  then obtain l where l: "m = Suc l" "value_fuel j \<le> l" by (cases m) auto
  have "parse_value l (dump_json a j @ dump_members a kjs @ r) = Some (j, dump_members a kjs @ r)"
    using 9 l by (intro "9.IH") (auto simp: delimited_members)
  then have "parse_member m (dump_string a k @ CHR '':'' # dump_json a j @ dump_members a kjs @ r)
      = Some ((k, j), dump_members a kjs @ r)"
    using 9 l by (simp add: parse_member_dump del: parse_member.simps)
  moreover have "parse_members m (dump_members a kjs @ r) = Some (kjs, r)" using 9 m by simp
  ultimately show ?case using m by (simp add: dump_string_def)
next
  case (10 a)
  then obtain m where "n = Suc m" by (cases n) auto
  then show ?case by simp
next
  case (11 a j js)
  then obtain m where n: "n = Suc m" "value_fuel j \<le> m" "elems_fuel js \<le> m" by (cases n) auto
  have "parse_value m (dump_json a j @ dump_elems a js @ r) = Some (j, dump_elems a js @ r)"
    using 11 n by (intro "11.IH") (auto simp: delimited_elems)
  moreover have "parse_elems m (dump_elems a js @ r) = Some (js, r)" using 11 n by simp
  ultimately show ?case using n 11 by (simp add: skip_ws_dump)
next
  case (12 a)
  then obtain m where "n = Suc m" by (cases n) auto
  then show ?case by simp
next
  case (13 a k j kjs)
  then obtain m where m: "n = Suc m" "Suc (value_fuel j) \<le> m" "members_fuel kjs \<le> m"
    by (cases n) auto
  then obtain l where l: "m = Suc l" "value_fuel j \<le> l" by (cases m) auto
  have "parse_value l (dump_json a j @ dump_members a kjs @ r) = Some (j, dump_members a kjs @ r)"
    using 13 l by (intro "13.IH") (auto simp: delimited_members)
  then have "parse_member m (dump_string a k @ CHR '':'' # dump_json a j @ dump_members a kjs @ r)
      = Some ((k, j), dump_members a kjs @ r)"
    using 13 l by (simp add: parse_member_dump del: parse_member.simps)
  moreover have "parse_members m (dump_members a kjs @ r) = Some (kjs, r)" using 13 m by simp
  ultimately show ?case using m by (simp add: dump_string_def)
qed auto

lemma json_plain_sort: "json_plain j \<Longrightarrow> json_plain (sort_json j)"
proof (induction j rule: sort_json.induct)
  case (1 js)
  then show ?case by (auto simp: list_all_iff)
next
  case (2 kjs)
  then show ?case by (fastforce simp: list_all_iff)
qed auto

theorem loads_dumps:
  assumes "json_plain j"
  shows "loads (dumps ascii j) = Some (sort_json j)"
proof -
  let ?j = "sort_json j"
  have p: "json_plain ?j" by (rule json_plain_sort [OF assms])
  have "parse_value (2 * length (dump_json ascii ?j) + 2) (dump_json ascii ?j @ []) = Some (?j, [])"
    using fuel_bound(1) [of ?j ascii] by (intro parse_dump(1) [OF p]) (auto simp: delimited_def)
  then show ?thesis
    using skip_ws_dump [OF p, of ascii "[]"] by (simp add: loads_def dumps_def)
qed

text \<open>Sorting the keys of an object changes no entry.\<close>

lemma map_of_sort_key:
  "distinct (map fst kvs) \<Longrightarrow> map_of (rev (sort_key fst kvs)) k = map_of kvs k"
proof -
  assume d: "distinct (map fst kvs)"
  have "distinct (map fst (sort_key fst kvs))"
    by (metis d distinct_sort distinct_map inj_on_def set_sort)
  then have "map_of (rev (sort_key fst kvs)) = map_of kvs"
    using d by (subst map_of_inject_set) (auto simp: rev_map [symmetric])
  then show ?thesis by simp
qed

lemma json_get_sort:
  assumes "distinct (map fst kjs)" "map_of kjs k = Some v"
  shows "json_get (sort_json (JObj kjs)) k = Some (sort_json v)"
proof -
  let ?m = "map (\<lambda>(k, j). (k, sort_json j)) kjs"
  have "map fst ?m = map fst kjs" by (induction kjs) auto
  with assms(1) have "distinct (map fst ?m)" by (simp only:)
  from map_of_sort_key [OF this, of k] have "json_get (sort_json (JObj kjs)) k = map_of ?m k"
    by simp
  also have "\<dots> = map_option sort_json (map_of kjs k)" by (induction kjs) auto
  finally show ?thesis using assms(2) by simp
qed

end
