(* ===== verification/Object_Store.thy ===== *)
theory Object_Store
  imports Strings
begin

text \<open>
  Private object storage: the trust-boundary checks of \<^verbatim>\<open>storage/models.py\<close>, the port of
  \<^verbatim>\<open>storage/ports.py\<close> as a locale, and the in-process store of \<^verbatim>\<open>storage/fake.py\<close> that
  implements it. Objects are content-addressed and immutable. The SHA-256 function is an argument
  (\<open>sha\<close>, from the bytes to their hexadecimal digest), so the theorems hold for any hash; bytes are
  characters, and a dictionary is an association list with distinct keys.
\<close>

section \<open>Values and checks\<close>

datatype object_error =
    InvalidObjectKey string
  | InvalidObjectMetadata string
  | InvalidPresignExpiry string
  | ObjectConflict string
  | ObjectIntegrityError string
  | ObjectTooLarge string
  | ObjectNotFound string
  | PresignValueError string

definition MAX_OBJECT_KEY_BYTES :: int where "MAX_OBJECT_KEY_BYTES = 1024"
definition MAX_PRESIGN_EXPIRY_SECONDS :: int where "MAX_PRESIGN_EXPIRY_SECONDS = 900"
definition MAX_METADATA_BYTES :: int where "MAX_METADATA_BYTES = 2 * 1024"
definition READ_CHUNK_BYTES :: nat where "READ_CHUNK_BYTES = 64 * 1024"

definition SHA256_METADATA_KEY :: string where "SHA256_METADATA_KEY = ''sha256''"
definition BYTE_LENGTH_METADATA_KEY :: string where "BYTE_LENGTH_METADATA_KEY = ''byte-length''"

text \<open>\<^verbatim>\<open>len(text.encode("utf-8"))\<close>: a code point from 128 takes two bytes.\<close>

definition utf8_size :: "string \<Rightarrow> nat" where
  "utf8_size s = sum_list (map (\<lambda>c. if (of_char c :: nat) < 128 then 1 else 2) s)"

definition is_control :: "char \<Rightarrow> bool" where
  "is_control c \<longleftrightarrow> (of_char c :: nat) < 32 \<or> (of_char c :: nat) = 127"

definition is_segment_start :: "char \<Rightarrow> bool" where
  "is_segment_start c \<longleftrightarrow> is_lower c \<or> is_digit c"

definition is_segment_char :: "char \<Rightarrow> bool" where
  "is_segment_char c \<longleftrightarrow> is_lower c \<or> is_digit c \<or> c \<in> {CHR ''.'', CHR ''_'', CHR ''-''}"

text \<open>\<^verbatim>\<open>^[a-z0-9][a-z0-9._-]{0,n}$\<close>, the shape of a key segment and of a metadata key.\<close>

fun segment_shape :: "nat \<Rightarrow> string \<Rightarrow> bool" where
  "segment_shape n [] = False"
| "segment_shape n (c # cs) \<longleftrightarrow>
     is_segment_start c \<and> length cs \<le> n \<and> list_all is_segment_char cs"

definition is_hex :: "char \<Rightarrow> bool" where
  "is_hex c \<longleftrightarrow> is_digit c \<or> in_range (CHR ''a'') (CHR ''f'') c"

definition sha256_shape :: "string \<Rightarrow> bool" where
  "sha256_shape s \<longleftrightarrow> length s = 64 \<and> list_all is_hex s"

definition validate_sha256 :: "string \<Rightarrow> (object_error, string) result" where
  "validate_sha256 v =
     (if \<not> sha256_shape v
      then Inl (ObjectIntegrityError ''SHA-256 must be 64 lowercase hexadecimal characters'')
      else Inr v)"

definition validate_key_segment :: "string \<Rightarrow> (object_error, string) result" where
  "validate_key_segment v =
     (if \<not> segment_shape 127 v \<or> v \<in> {''.'', ''..''}
      then Inl (InvalidObjectKey ''object key segment is invalid'') else Inr v)"

text \<open>\<^verbatim>\<open>key.split("/")\<close> and \<^verbatim>\<open>"/".join(parts)\<close>.\<close>

fun split_slash :: "string \<Rightarrow> string list" where
  "split_slash [] = [[]]"
| "split_slash (c # s) =
     (if c = CHR ''/'' then [] # split_slash s
      else (case split_slash s of p # ps \<Rightarrow> (c # p) # ps | [] \<Rightarrow> [[c]]))"

fun join_slash :: "string list \<Rightarrow> string" where
  "join_slash [] = []"
| "join_slash [p] = p"
| "join_slash (p # ps) = p @ CHR ''/'' # join_slash ps"

definition validate_object_key :: "string \<Rightarrow> (object_error, string) result" where
  "validate_object_key key =
     (if key = [] \<or> hd key = CHR ''/'' \<or> CHR 0x5C \<in> set key \<or>
         MAX_OBJECT_KEY_BYTES < int (utf8_size key) \<or> list_ex is_control key
      then Inl (InvalidObjectKey ''object key is invalid'')
      else let parts = split_slash key in
        if length parts \<noteq> 4
        then Inl (InvalidObjectKey ''object key must contain class, owner, logical ID, and hash'')
        else bind_result (map_result validate_key_segment (take 3 parts)) (\<lambda>_.
          case validate_sha256 (parts ! 3) of
            Inl _ \<Rightarrow> Inl (InvalidObjectKey ''object key hash segment is invalid'')
          | Inr _ \<Rightarrow> Inr key))"

definition build_object_key ::
    "string \<Rightarrow> string \<Rightarrow> string \<Rightarrow> string \<Rightarrow> (object_error, string) result" where
  "build_object_key artifact_class owner_id logical_id sha256 =
     bind_result (validate_sha256 sha256) (\<lambda>digest.
     bind_result (validate_key_segment artifact_class) (\<lambda>c.
     bind_result (validate_key_segment owner_id) (\<lambda>ow.
     bind_result (validate_key_segment logical_id) (\<lambda>l.
       validate_object_key (join_slash [c, ow, l, digest])))))"

definition validate_key_sha256 :: "string \<Rightarrow> string \<Rightarrow> (object_error, string \<times> string) result" where
  "validate_key_sha256 key sha256 =
     bind_result (validate_object_key key) (\<lambda>k.
     bind_result (validate_sha256 sha256) (\<lambda>digest.
       if last (split_slash k) \<noteq> digest
       then Inl (ObjectIntegrityError ''object key hash does not match declared SHA-256'')
       else Inr (k, digest)))"

definition validate_content_type :: "string \<Rightarrow> (object_error, string) result" where
  "validate_content_type t =
     (if t = [] \<or> 255 < int (length t) \<or> list_ex is_control t
      then Inl (InvalidObjectMetadata ''content type is invalid'') else Inr t)"

type_synonym metadata = "(string \<times> string) list"

definition RESERVED_METADATA :: "string set" where
  "RESERVED_METADATA = {SHA256_METADATA_KEY, BYTE_LENGTH_METADATA_KEY}"

definition metadata_entry_ok :: "string \<times> string \<Rightarrow> bool" where
  "metadata_entry_ok kv \<longleftrightarrow>
     segment_shape 63 (fst kv) \<and> fst kv \<notin> RESERVED_METADATA \<and>
     list_all (\<lambda>c. (of_char c :: nat) < 128) (snd kv) \<and> int (length (snd kv)) \<le> 1024 \<and>
     \<not> list_ex is_control (snd kv)"

fun normalize_entries :: "int \<Rightarrow> metadata \<Rightarrow> (object_error, metadata) result" where
  "normalize_entries total_bytes [] = Inr []"
| "normalize_entries total_bytes (kv # kvs) =
     (if \<not> metadata_entry_ok kv then Inl (InvalidObjectMetadata ''object metadata is invalid'')
      else let total = total_bytes + int (utf8_size (fst kv)) + int (utf8_size (snd kv)) in
        if MAX_METADATA_BYTES < total
        then Inl (InvalidObjectMetadata ''object metadata is too large'')
        else bind_result (normalize_entries total kvs) (\<lambda>rest. Inr (kv # rest)))"

definition normalize_metadata :: "metadata \<Rightarrow> (object_error, metadata) result" where
  "normalize_metadata m = normalize_entries 0 m"

definition integrity_metadata ::
    "string \<Rightarrow> int \<Rightarrow> metadata \<Rightarrow> (object_error, metadata) result" where
  "integrity_metadata sha256 byte_length m =
     bind_result (validate_sha256 sha256) (\<lambda>digest.
       if byte_length < 0 then Inl (ObjectIntegrityError ''byte length cannot be negative'')
       else bind_result (normalize_metadata m) (\<lambda>normalized.
         let merged = normalized @ [(SHA256_METADATA_KEY, digest),
                                    (BYTE_LENGTH_METADATA_KEY, int_str byte_length)]
         in if MAX_METADATA_BYTES < sum_list (map (\<lambda>kv. int (length (fst kv) + length (snd kv))) merged)
            then Inl (InvalidObjectMetadata ''object metadata is too large'')
            else Inr merged))"

definition validate_presign_expiry :: "int \<Rightarrow> (object_error, int) result" where
  "validate_presign_expiry s =
     (if \<not> (1 \<le> s \<and> s \<le> MAX_PRESIGN_EXPIRY_SECONDS)
      then Inl (InvalidPresignExpiry ''expiry is out of range'') else Inr s)"

record stored_object =
  so_key :: string
  so_sha256 :: string
  so_byte_length :: int
  so_content_type :: string
  so_metadata :: metadata

definition stored_object_post_init :: "stored_object \<Rightarrow> (object_error, stored_object) result" where
  "stored_object_post_init o1 =
     bind_result (validate_key_sha256 (so_key o1) (so_sha256 o1)) (\<lambda>_.
     bind_result (validate_content_type (so_content_type o1)) (\<lambda>_.
     bind_result (integrity_metadata (so_sha256 o1) (so_byte_length o1)
                    (filter (\<lambda>kv. fst kv \<notin> RESERVED_METADATA) (so_metadata o1))) (\<lambda>expected.
       if set expected \<noteq> set (so_metadata o1)
       then Inl (ObjectIntegrityError ''stored object metadata is incomplete'')
       else Inr (o1\<lparr>so_metadata := expected\<rparr>))))"

record presign_put_request =
  pr_key :: string
  pr_sha256 :: string
  pr_byte_length :: int
  pr_content_type :: string
  pr_metadata :: metadata
  pr_expires_seconds :: int

definition presign_put_post_init ::
    "presign_put_request \<Rightarrow> (object_error, presign_put_request) result" where
  "presign_put_post_init q =
     bind_result (validate_key_sha256 (pr_key q) (pr_sha256 q)) (\<lambda>_.
       if pr_byte_length q < 0
       then Inl (ObjectIntegrityError ''byte length cannot be negative'')
       else
         bind_result (validate_content_type (pr_content_type q)) (\<lambda>_.
         bind_result (normalize_metadata (pr_metadata q)) (\<lambda>normalized.
         bind_result (integrity_metadata (pr_sha256 q) (pr_byte_length q) normalized) (\<lambda>_.
         bind_result (validate_presign_expiry (pr_expires_seconds q)) (\<lambda>_.
           Inr (q\<lparr>pr_metadata := normalized\<rparr>))))))"

record presigned_request =
  ps_url :: string
  ps_method :: string
  ps_headers :: metadata
  ps_expires_seconds :: int

definition presigned_post_init ::
    "presigned_request \<Rightarrow> (object_error, presigned_request) result" where
  "presigned_post_init p =
     (if ps_url p = [] then Inl (PresignValueError ''presigned URL cannot be empty'')
      else if ps_method p \<noteq> ''PUT''
      then Inl (PresignValueError ''only private PUT requests are supported'')
      else bind_result (validate_presign_expiry (ps_expires_seconds p)) (\<lambda>_. Inr p))"

text \<open>\<^verbatim>\<open>b64encode(bytes.fromhex(...))\<close>.\<close>

definition hex_nibble :: "char \<Rightarrow> nat" where
  "hex_nibble c = (if is_digit c then of_char c - 48 else of_char c - 87)"

fun from_hex :: "string \<Rightarrow> nat list" where
  "from_hex (a # b # s) = (16 * hex_nibble a + hex_nibble b) # from_hex s"
| "from_hex _ = []"

definition b64_char :: "nat \<Rightarrow> char" where
  "b64_char n = (if n < 26 then char_of (65 + n) else if n < 52 then char_of (71 + n)
     else if n < 62 then char_of (n - 4) else if n = 62 then CHR ''+'' else CHR ''/'')"

fun b64encode :: "nat list \<Rightarrow> string" where
  "b64encode [] = []"
| "b64encode [a] = [b64_char (a div 4), b64_char (a mod 4 * 16), CHR ''='', CHR ''='']"
| "b64encode [a, b] =
     [b64_char (a div 4), b64_char (a mod 4 * 16 + b div 16), b64_char (b mod 16 * 4), CHR ''='']"
| "b64encode (a # b # c # xs) =
     b64_char (a div 4) # b64_char (a mod 4 * 16 + b div 16) #
     b64_char (b mod 16 * 4 + c div 64) # b64_char (c mod 64) # b64encode xs"

definition provider_sha256_checksum :: "string \<Rightarrow> (object_error, string) result" where
  "provider_sha256_checksum v =
     bind_result (validate_sha256 v) (\<lambda>d. Inr (b64encode (from_hex d)))"

section \<open>The in-process store\<close>

datatype chunk = Bytes string | NotBytes

type_synonym objects = "string \<rightharpoonup> stored_object \<times> string"

record object_store =
  max_upload_bytes :: nat
  objects :: objects

fun read_body :: "nat \<Rightarrow> string \<Rightarrow> chunk list \<Rightarrow> (object_error, string) result" where
  "read_body limit data [] = Inr data"
| "read_body limit data (NotBytes # cs) =
     Inl (ObjectIntegrityError ''object body chunks must be bytes'')"
| "read_body limit data (Bytes b # cs) =
     (if limit < length data + length b
      then Inl (ObjectTooLarge ''object exceeds configured upload limit'')
      else read_body limit (data @ b) cs)"

text \<open>Equality of two objects; the metadata are dictionaries.\<close>

definition same_object :: "stored_object \<Rightarrow> stored_object \<Rightarrow> bool" where
  "same_object a b \<longleftrightarrow>
     so_key a = so_key b \<and> so_sha256 a = so_sha256 b \<and> so_byte_length a = so_byte_length b \<and>
     so_content_type a = so_content_type b \<and> set (so_metadata a) = set (so_metadata b)"

definition put_immutable ::
    "(string \<Rightarrow> string) \<Rightarrow> object_store \<Rightarrow> string \<Rightarrow> chunk list \<Rightarrow> string \<Rightarrow> string \<Rightarrow> metadata
     \<Rightarrow> (object_error, object_store \<times> stored_object) result" where
  "put_immutable sha st key body sha256 content_type m =
     bind_result (validate_key_sha256 key sha256) (\<lambda>(_, digest).
     bind_result (validate_content_type content_type) (\<lambda>_.
     bind_result (read_body (max_upload_bytes st) [] body) (\<lambda>data.
       if sha data \<noteq> digest
       then Inl (ObjectIntegrityError ''streamed body does not match declared SHA-256'')
       else
         bind_result (integrity_metadata digest (int (length data)) m) (\<lambda>object_metadata.
         bind_result (stored_object_post_init
             \<lparr>so_key = key, so_sha256 = digest, so_byte_length = int (length data),
              so_content_type = content_type, so_metadata = object_metadata\<rparr>) (\<lambda>candidate.
           case objects st key of
             Some (existing, _) \<Rightarrow>
               if same_object existing candidate then Inr (st, existing)
               else Inl (ObjectConflict ''immutable object already exists with different content'')
           | None \<Rightarrow>
               Inr (st\<lparr>objects := (objects st)(key \<mapsto> (candidate, data))\<rparr>, candidate))))))"

definition stat :: "object_store \<Rightarrow> string \<Rightarrow> (object_error, stored_object option) result" where
  "stat st key =
     bind_result (validate_object_key key) (\<lambda>_. Inr (map_option fst (objects st key)))"

function chunks_of :: "nat \<Rightarrow> string \<Rightarrow> string list" where
  "chunks_of n s = (if s = [] \<or> n = 0 then [] else take n s # chunks_of n (drop n s))"
  by pat_completeness auto
termination by (relation "measure (\<lambda>(n, s). length s)") auto

declare chunks_of.simps [simp del]

definition open_object :: "object_store \<Rightarrow> string \<Rightarrow> (object_error, string list) result" where
  "open_object st key =
     bind_result (validate_object_key key) (\<lambda>_.
       case objects st key of
         None \<Rightarrow> Inl (ObjectNotFound ''private object was not found'')
       | Some (_, data) \<Rightarrow> Inr (chunks_of READ_CHUNK_BYTES data))"

text \<open>
  \<^verbatim>\<open>quote\<close> leaves the characters of a valid key unchanged. Both URLs name the fake's host.
\<close>

definition object_url :: "string \<Rightarrow> string" where
  "object_url key = ''https://object-store.invalid/'' @ key @ ''?signed=1''"

definition presign_put ::
    "object_store \<Rightarrow> presign_put_request \<Rightarrow> (object_error, presigned_request) result" where
  "presign_put st q =
     (if int (max_upload_bytes st) < pr_byte_length q
      then Inl (ObjectTooLarge ''object exceeds configured upload limit'')
      else
        bind_result (integrity_metadata (pr_sha256 q) (pr_byte_length q) (pr_metadata q)) (\<lambda>m.
        bind_result (provider_sha256_checksum (pr_sha256 q)) (\<lambda>checksum.
          presigned_post_init
            \<lparr>ps_url = object_url (pr_key q), ps_method = ''PUT'',
             ps_headers =
               [(''content-type'', pr_content_type q), (''if-none-match'', ''*''),
                (''x-amz-acl'', ''private''), (''x-amz-checksum-sha256'', checksum)]
               @ map (\<lambda>kv. (''x-amz-meta-'' @ fst kv, snd kv)) m,
             ps_expires_seconds = pr_expires_seconds q\<rparr>)))"

definition presign_get :: "object_store \<Rightarrow> string \<Rightarrow> int \<Rightarrow> (object_error, string) result" where
  "presign_get st key expires_seconds =
     bind_result (validate_object_key key) (\<lambda>_.
     bind_result (validate_presign_expiry expires_seconds) (\<lambda>_. Inr (object_url key)))"

section \<open>Keys\<close>

lemma split_slash_ne: "split_slash s \<noteq> []"
  by (induction s) (auto split: list.splits)

lemma split_slash_plain: "CHR ''/'' \<notin> set p \<Longrightarrow> split_slash p = [p]"
  by (induction p) auto

lemma split_slash_append:
  "CHR ''/'' \<notin> set p \<Longrightarrow> split_slash (p @ CHR ''/'' # s) = p # split_slash s"
  by (induction p) auto

lemma split_join:
  "ps \<noteq> [] \<Longrightarrow> list_all (\<lambda>p. CHR ''/'' \<notin> set p) ps \<Longrightarrow> split_slash (join_slash ps) = ps"
  by (induction ps rule: join_slash.induct) (auto simp: split_slash_plain split_slash_append)

lemma segment_no_slash: "segment_shape n p \<Longrightarrow> CHR ''/'' \<notin> set p"
  by (cases p)
    (auto simp: is_segment_start_def is_segment_char_def is_lower_def is_digit_def in_range_def
      list_all_iff)

lemma sha256_no_slash: "sha256_shape h \<Longrightarrow> CHR ''/'' \<notin> set h"
  by (auto simp: sha256_shape_def is_hex_def is_digit_def in_range_def list_all_iff)

text \<open>
  An object key carries its four parts without loss: whenever a key is built, splitting it
  again gives the class, the owner, the logical id and the content hash it was built from, so two
  different objects never share a key, and the built key passes the check every operation of the
  store makes.
\<close>

theorem object_key_roundtrip:
  assumes "build_object_key c ow l h = Inr key"
  shows "split_slash key = [c, ow, l, h] \<and> validate_object_key key = Inr key
    \<and> validate_key_sha256 key h = Inr (key, h)"
proof -
  have parts: "sha256_shape h" "segment_shape 127 c" "segment_shape 127 ow" "segment_shape 127 l"
    and key: "validate_object_key (join_slash [c, ow, l, h]) = Inr key"
    using assms
    by (auto simp: build_object_key_def validate_sha256_def validate_key_segment_def result_simps
        split: if_splits)
  have k: "key = join_slash [c, ow, l, h]"
    using key by (auto simp: validate_object_key_def Let_def result_simps split: if_splits sum.splits)
  have s: "split_slash key = [c, ow, l, h]"
    unfolding k using parts by (intro split_join) (auto simp: segment_no_slash sha256_no_slash)
  moreover have v: "validate_object_key key = Inr key" using key k by simp
  ultimately show ?thesis
    using parts(1) by (simp add: validate_key_sha256_def validate_sha256_def)
qed

theorem object_key_roundtrip_witness:
  "\<exists>key. build_object_key ''transcript'' ''7'' ''activity-12'' (replicate 64 (CHR ''a'')) = Inr key
    \<and> split_slash key = [''transcript'', ''7'', ''activity-12'', replicate 64 (CHR ''a'')]"
proof -
  have "case build_object_key ''transcript'' ''7'' ''activity-12'' (replicate 64 (CHR ''a'')) of
      Inr k \<Rightarrow> True | Inl _ \<Rightarrow> False" by code_simp
  then obtain key where k:
    "build_object_key ''transcript'' ''7'' ''activity-12'' (replicate 64 (CHR ''a'')) = Inr key"
    by (cases "build_object_key ''transcript'' ''7'' ''activity-12'' (replicate 64 (CHR ''a''))") auto
  with object_key_roundtrip [OF k] show ?thesis by blast
qed

section \<open>The port\<close>

text \<open>
  What \<^verbatim>\<open>ObjectStore\<close> promises its clients: an accepted upload can be looked up and read back
  under its key, the bytes have the declared hash and length, and no later upload changes or hides
  what is stored.
\<close>

definition keep_state :: "('s \<Rightarrow> 'u \<Rightarrow> ('e, 's \<times> 'x) result) \<Rightarrow> 's \<Rightarrow> 'u \<Rightarrow> ('e, 's) result" where
  "keep_state f s u = bind_result (f s u) (\<lambda>(s', x). Inr s')"

lemma keep_state_Inr: "keep_state f s u = Inr s' \<longleftrightarrow> (\<exists>x. f s u = Inr (s', x))"
  by (auto simp: keep_state_def result_simps)

type_synonym upload = "string \<times> chunk list \<times> string \<times> string \<times> metadata"

locale object_port =
  fixes sha :: "string \<Rightarrow> string"
    and put :: "'s \<Rightarrow> upload \<Rightarrow> (object_error, 's \<times> stored_object) result"
    and look :: "'s \<Rightarrow> string \<Rightarrow> (object_error, stored_object option) result"
    and fetch :: "'s \<Rightarrow> string \<Rightarrow> (object_error, string list) result"
    and good :: "'s \<Rightarrow> bool"
  assumes put_good: "good s \<Longrightarrow> put s u = Inr (s', x) \<Longrightarrow> good s'"
    and put_look: "good s \<Longrightarrow> put s u = Inr (s', x) \<Longrightarrow> look s' (fst u) = Inr (Some x)"
    and look_fetch: "good s \<Longrightarrow> look s k = Inr (Some x) \<Longrightarrow>
      \<exists>cs. fetch s k = Inr cs \<and> sha (concat cs) = so_sha256 x
        \<and> int (length (concat cs)) = so_byte_length x"
    and put_keeps: "good s \<Longrightarrow> put s u = Inr (s', y) \<Longrightarrow> look s k = Inr (Some x) \<Longrightarrow>
      look s' k = Inr (Some x) \<and> fetch s' k = fetch s k"
begin

lemma run_good: "good s \<Longrightarrow> good (run_commands (keep_state put) s us)"
proof (induction us arbitrary: s)
  case (Cons u us)
  have "keep_state put s u = Inr s' \<Longrightarrow> good s'" for s'
    unfolding keep_state_Inr using put_good [OF Cons.prems(1)] by blast
  with Cons show ?case by (cases "keep_state put s u") simp_all
qed simp

lemma run_keeps:
  "good s \<Longrightarrow> look s k = Inr (Some x) \<Longrightarrow>
     look (run_commands (keep_state put) s us) k = Inr (Some x)
     \<and> fetch (run_commands (keep_state put) s us) k = fetch s k"
proof (induction us arbitrary: s)
  case (Cons u us)
  show ?case
  proof (cases "keep_state put s u")
    case (Inl e)
    with Cons show ?thesis by simp
  next
    case (Inr s')
    then obtain y where y: "put s u = Inr (s', y)" by (auto simp: keep_state_Inr)
    from put_keeps [OF Cons.prems(1) y Cons.prems(2)] put_good [OF Cons.prems(1) y] Cons.IH [of s']
    show ?thesis using Inr by simp
  qed
qed simp

text \<open>What was uploaded once is found and read back after any further uploads.\<close>

lemma upload_survives:
  assumes "good s" "put s u = Inr (s', x)"
  shows "look (run_commands (keep_state put) s' us) (fst u) = Inr (Some x)
    \<and> (\<exists>cs. fetch (run_commands (keep_state put) s' us) (fst u) = Inr cs
        \<and> sha (concat cs) = so_sha256 x \<and> int (length (concat cs)) = so_byte_length x)"
proof -
  have g: "good s'" and l: "look s' (fst u) = Inr (Some x)"
    using put_good [OF assms] put_look [OF assms] by auto
  from run_keeps [OF g l, of us] look_fetch [OF g l] show ?thesis by auto
qed

end

section \<open>The in-process store implements the port\<close>

definition store_ok :: "(string \<Rightarrow> string) \<Rightarrow> object_store \<Rightarrow> bool" where
  "store_ok sha st \<longleftrightarrow>
     (\<forall>k x data. objects st k = Some (x, data) \<longrightarrow>
        so_key x = k \<and> validate_key_sha256 k (so_sha256 x) = Inr (k, so_sha256 x)
        \<and> sha data = so_sha256 x \<and> int (length data) = so_byte_length x
        \<and> length data \<le> max_upload_bytes st)"

fun put_upload ::
    "(string \<Rightarrow> string) \<Rightarrow> object_store \<Rightarrow> upload \<Rightarrow> (object_error, object_store \<times> stored_object) result" where
  "put_upload sha st (key, body, sha256, content_type, m) =
     put_immutable sha st key body sha256 content_type m"

lemma concat_chunks: "0 < n \<Longrightarrow> concat (chunks_of n s) = s"
proof (induction n s rule: chunks_of.induct)
  case (1 n s)
  then show ?case by (subst chunks_of.simps) simp
qed

fun body_bytes :: "chunk list \<Rightarrow> string" where
  "body_bytes [] = []"
| "body_bytes (Bytes b # cs) = b @ body_bytes cs"
| "body_bytes (NotBytes # cs) = body_bytes cs"

lemma read_body_Inr:
  "read_body limit data cs = Inr d \<Longrightarrow>
     d = data @ body_bytes cs \<and> (length data \<le> limit \<longrightarrow> length d \<le> limit)"
  by (induction limit data cs rule: read_body.induct) (auto split: if_splits)

lemma validate_key_sha256_Inr:
  "validate_key_sha256 k h = Inr (k', h') \<Longrightarrow> k' = k \<and> h' = h \<and> validate_object_key k = Inr k"
  by (auto simp: validate_key_sha256_def validate_object_key_def validate_sha256_def Let_def
      result_simps split: if_splits sum.splits)

lemma put_immutable_cases:
  assumes "put_immutable sha st key body h t m = Inr (st', x)"
  obtains (kept) y data where "st' = st" "x = y" "objects st key = Some (y, data)"
      "validate_key_sha256 key h = Inr (key, h)"
  | (fresh) data where "objects st key = None" "st' = st\<lparr>objects := (objects st)(key \<mapsto> (x, data))\<rparr>"
      "data = body_bytes body" "length data \<le> max_upload_bytes st" "sha data = h"
      "validate_key_sha256 key h = Inr (key, h)"
      "so_key x = key" "so_sha256 x = h" "so_byte_length x = int (length data)"
proof -
  from assms obtain k' h' data om cand where c: "validate_key_sha256 key h = Inr (k', h')"
    "read_body (max_upload_bytes st) [] body = Inr data" "sha data = h'"
    "stored_object_post_init \<lparr>so_key = key, so_sha256 = h', so_byte_length = int (length data),
        so_content_type = t, so_metadata = om\<rparr> = Inr cand"
    "(case objects st key of
        Some (existing, _) \<Rightarrow> if same_object existing cand then Inr (st, existing)
          else Inl (ObjectConflict ''immutable object already exists with different content'')
      | None \<Rightarrow> Inr (st\<lparr>objects := (objects st)(key \<mapsto> (cand, data))\<rparr>, cand)) = Inr (st', x)"
    by (auto simp: put_immutable_def result_simps split: if_splits)
  have hk: "k' = key" "h' = h" using validate_key_sha256_Inr [OF c(1)] by auto
  have cand: "so_key cand = key" "so_sha256 cand = h" "so_byte_length cand = int (length data)"
    using c(4) hk by (auto simp: stored_object_post_init_def result_simps split: if_splits)
  have d: "data = body_bytes body" "length data \<le> max_upload_bytes st"
    using read_body_Inr [OF c(2)] by auto
  show ?thesis
  proof (cases "objects st key")
    case None
    then show ?thesis using c hk cand d by (intro fresh [of data]) auto
  next
    case (Some yd)
    obtain y data' where "yd = (y, data')" by (cases yd)
    with Some c hk show ?thesis by (intro kept [of y data']) (auto split: if_splits)
  qed
qed

lemma stat_Inr_Some: "stat st k = Inr (Some x) \<longleftrightarrow>
    validate_object_key k = Inr k \<and> (\<exists>data. objects st k = Some (x, data))"
  by (auto simp: stat_def result_simps validate_object_key_def Let_def split: if_splits sum.splits)

lemma open_object_Some:
  assumes "validate_object_key k = Inr k" "objects st k = Some (x, data)"
  shows "open_object st k = Inr (chunks_of READ_CHUNK_BYTES data)"
  using assms by (simp add: open_object_def)

lemma put_immutable_ok:
  assumes "store_ok sha st" "put_immutable sha st key body h t m = Inr (st', x)"
  shows "store_ok sha st' \<and> stat st' key = Inr (Some x)
    \<and> (\<forall>k y. stat st k = Inr (Some y) \<longrightarrow> stat st' k = Inr (Some y) \<and> open_object st' k = open_object st k)"
  using assms(2)
proof (cases rule: put_immutable_cases)
  case (kept y data)
  with assms(1) validate_key_sha256_Inr [OF kept(4)] show ?thesis by (auto simp: stat_Inr_Some)
next
  case (fresh data)
  have "stat st k = Inr (Some y) \<Longrightarrow> k \<noteq> key" for k y
    using fresh(1) by (auto simp: stat_Inr_Some)
  moreover have "store_ok sha st'" using assms(1) fresh by (auto simp: store_ok_def)
  ultimately show ?thesis
    using fresh validate_key_sha256_Inr [OF fresh(6)]
    by (auto simp: stat_Inr_Some open_object_def)
qed

interpretation fake_store: object_port sha "put_upload sha" stat open_object "store_ok sha" for sha
proof
  fix s s' :: object_store and u :: upload and x y k
  assume ok: "store_ok sha s"
  obtain key body h t m where u: "u = (key, body, h, t, m)" by (cases u)
  {
    assume p: "put_upload sha s u = Inr (s', x)"
    from put_immutable_ok [OF ok, of key body h t m s' x] p u
    show "store_ok sha s'" "stat s' (fst u) = Inr (Some x)" by auto
  next
    assume l: "stat s k = Inr (Some x)"
    then obtain data where d: "objects s k = Some (x, data)" "validate_object_key k = Inr k"
      by (auto simp: stat_Inr_Some)
    then have "sha data = so_sha256 x" "int (length data) = so_byte_length x"
      using ok by (auto simp: store_ok_def)
    with d show "\<exists>cs. open_object s k = Inr cs \<and> sha (concat cs) = so_sha256 x
        \<and> int (length (concat cs)) = so_byte_length x"
      by (simp add: open_object_Some concat_chunks READ_CHUNK_BYTES_def)
  next
    assume p: "put_upload sha s u = Inr (s', y)" and l: "stat s k = Inr (Some x)"
    from put_immutable_ok [OF ok, of key body h t m s' y] p u l
    show "stat s' k = Inr (Some x) \<and> open_object s' k = open_object s k" by auto
  }
qed

definition empty_store :: "nat \<Rightarrow> object_store" where
  "empty_store limit = \<lparr>max_upload_bytes = limit, objects = Map.empty\<rparr>"

lemma empty_store_ok: "store_ok sha (empty_store limit)"
  by (simp add: store_ok_def empty_store_def)

text \<open>
  C32. Stored objects are immutable and come back intact. In a store that any uploads led to, an
  accepted upload is found under its key and read back, also after any further uploads, accepted
  or refused: the chunks concatenate to bytes with the declared hash and length, and to exactly
  the uploaded bytes when the key was new.
\<close>

theorem object_upload_roundtrip:
  assumes "st = run_commands (keep_state (put_upload sha)) (empty_store limit) us"
    and "put_immutable sha st key body h t m = Inr (st1, x)"
    and "st2 = run_commands (keep_state (put_upload sha)) st1 vs"
  shows "stat st2 key = Inr (Some x) \<and>
    (\<exists>cs. open_object st2 key = Inr cs \<and> sha (concat cs) = h
       \<and> int (length (concat cs)) = so_byte_length x
       \<and> (if objects st key = None then concat cs = body_bytes body else True))"
proof -
  have ok: "store_ok sha st" unfolding assms(1) by (rule fake_store.run_good [OF empty_store_ok])
  have p: "put_upload sha st (key, body, h, t, m) = Inr (st1, x)" using assms(2) by simp
  have ok1: "store_ok sha st1" and l: "stat st1 key = Inr (Some x)"
    using put_immutable_ok [OF ok assms(2)] by auto
  have keep: "stat st2 key = Inr (Some x)" "open_object st2 key = open_object st1 key"
    using fake_store.run_keeps [OF ok1 l] assms(3) by auto
  obtain data where d: "objects st1 key = Some (x, data)" "validate_object_key key = Inr key"
    using l by (auto simp: stat_Inr_Some)
  then have o1: "open_object st1 key = Inr (chunks_of READ_CHUNK_BYTES data)"
    by (simp add: open_object_Some)
  have x: "sha data = so_sha256 x" "int (length data) = so_byte_length x"
    using ok1 d by (auto simp: store_ok_def)
  have "so_sha256 x = h \<and> (objects st key = None \<longrightarrow> data = body_bytes body)"
    using assms(2)
  proof (cases rule: put_immutable_cases)
    case (kept y data')
    then have "validate_key_sha256 key (so_sha256 x) = Inr (key, so_sha256 x)"
      using ok by (auto simp: store_ok_def)
    with kept show ?thesis
      by (auto simp: validate_key_sha256_def result_simps split: if_splits)
  next
    case (fresh data')
    with d show ?thesis by auto
  qed
  then show ?thesis
    using keep o1 x by (simp add: concat_chunks READ_CHUNK_BYTES_def)
qed

definition toy_hash :: "string \<Rightarrow> string" where
  "toy_hash s = replicate 64 (CHR ''a'')"

definition toy_key :: string where
  "toy_key = ''transcript/7/activity-12/'' @ replicate 64 (CHR ''a'')"

theorem object_upload_roundtrip_witness:
  "\<exists>st1 x cs. put_immutable toy_hash (empty_store 100) toy_key [Bytes ''ab'', Bytes ''c'']
      (replicate 64 (CHR ''a'')) ''text/plain'' [] = Inr (st1, x)
    \<and> stat st1 toy_key = Inr (Some x)
    \<and> open_object st1 toy_key = Inr cs \<and> concat cs = ''abc''"
proof -
  let ?p = "put_immutable toy_hash (empty_store 100) toy_key [Bytes ''ab'', Bytes ''c'']
      (replicate 64 (CHR ''a'')) ''text/plain'' []"
  have "is_ok ?p" by code_simp
  then obtain st1 x where p: "?p = Inr (st1, x)" by (auto simp: is_ok_iff)
  have e: "empty_store 100 = run_commands (keep_state (put_upload toy_hash)) (empty_store 100) []"
    by simp
  have "st1 = run_commands (keep_state (put_upload toy_hash)) st1 []" by simp
  from object_upload_roundtrip [OF e p this] p show ?thesis
    by (auto simp: empty_store_def)
qed

end
