(* ===== verification/Output_Contract.thy ===== *)
theory Output_Contract
  imports Json Object_Store "HOL-Library.Multiset"
begin

text \<open>
  What a learner commits for an activity: the five output contracts of
  \<^verbatim>\<open>learning/contracts.py\<close> with the canonical snapshot they are stored as, and the
  content-addressed artifacts of \<^verbatim>\<open>learning/artifacts.py\<close> with the digest that binds them to the
  output. A request body that has the fields and types of one of the contracts is a \<open>Payload\<close>; every
  other body is \<open>Malformed\<close>.
\<close>

section \<open>Output contracts\<close>

definition bounded_text :: "int \<Rightarrow> string \<Rightarrow> bool" where
  "bounded_text maximum_bytes v \<longleftrightarrow> \<not> blank v \<and> int (utf8_size v) \<le> maximum_bytes"

definition text256 :: "string \<Rightarrow> bool" where "text256 = bounded_text 256"
definition text4096 :: "string \<Rightarrow> bool" where "text4096 = bounded_text 4096"
definition text1M :: "string \<Rightarrow> bool" where "text1M = bounded_text 1048576"
definition text4M :: "string \<Rightarrow> bool" where "text4M = bounded_text (4 * 1024 * 1024)"

record output_base =
  contract_version :: int
  prompt :: string
  audience :: string
  time_limit_minutes :: int
  domain_competency_slug :: "string option"
  story_competency_slug :: "string option"

record reading_output =
  key_ideas :: "string list"
  boundary_or_failure :: string
  tam_customer_example :: string
  unresolved_question :: string

record sql_output =
  query :: string
  sql_result :: string
  validation :: string
  explanation :: string
  business_meaning :: string
  solving_seconds :: int
  assistance_used :: string

record case_output =
  canonical_prompt :: string
  canonical_facts :: "string list"
  discovery_questions :: "string list"
  assumptions :: "string list"
  working_notes :: string
  final_artifact :: string
  decisions :: "string list"
  risks :: "string list"
  unresolved_questions :: "string list"

record writing_output =
  requested_action :: string
  wr_facts :: "string list"
  unknowns :: "string list"
  tone :: string
  word_or_character_limit :: string
  draft_markdown :: string
  self_edit_notes :: string

record pipeline_output =
  company :: string
  pl_role :: string
  stage :: string
  completed_action :: string
  artifact_summary :: string
  next_action :: string

datatype output_body =
    ReadingOutput reading_output
  | SqlOutput sql_output
  | CaseOutput case_output
  | WritingOutput writing_output
  | PipelineOutput pipeline_output

datatype output_payload = Malformed | Payload output_base output_body

datatype contract_error = OutputContractError string

definition base_ok :: "output_base \<Rightarrow> bool" where
  "base_ok b \<longleftrightarrow>
     contract_version b = 1 \<and> text1M (prompt b) \<and> text256 (audience b) \<and>
     0 < time_limit_minutes b \<and> time_limit_minutes b \<le> 255 \<and>
     (case domain_competency_slug b of None \<Rightarrow> True | Some s \<Rightarrow> safe_kind s) \<and>
     (case story_competency_slug b of None \<Rightarrow> True | Some s \<Rightarrow> safe_kind s) \<and>
     \<not> (domain_competency_slug b \<noteq> None \<and> story_competency_slug b \<noteq> None)"

definition items_ok :: "nat \<Rightarrow> nat \<Rightarrow> string list \<Rightarrow> bool" where
  "items_ok low high xs \<longleftrightarrow> low \<le> length xs \<and> length xs \<le> high \<and> list_all text4096 xs"

fun body_ok :: "output_body \<Rightarrow> bool" where
  "body_ok (ReadingOutput r) \<longleftrightarrow>
     items_ok 3 3 (key_ideas r) \<and> text4096 (boundary_or_failure r) \<and>
     text4096 (tam_customer_example r) \<and> text4096 (unresolved_question r)"
| "body_ok (SqlOutput s) \<longleftrightarrow>
     text4M (query s) \<and> text4M (sql_result s) \<and> text4096 (validation s) \<and>
     text4096 (explanation s) \<and> text4096 (business_meaning s) \<and>
     0 \<le> solving_seconds s \<and> solving_seconds s \<le> 255 * 60 \<and>
     assistance_used s \<in> {''none'', ''coach_preparation'', ''hint_ladder'', ''time_expired'',
                          ''reference_only''}"
| "body_ok (CaseOutput c) \<longleftrightarrow>
     text1M (canonical_prompt c) \<and> items_ok 1 128 (canonical_facts c) \<and>
     items_ok 1 128 (discovery_questions c) \<and> items_ok 1 128 (assumptions c) \<and>
     text4M (working_notes c) \<and> text4M (final_artifact c) \<and> items_ok 1 128 (decisions c) \<and>
     items_ok 1 128 (risks c) \<and> items_ok 1 128 (unresolved_questions c)"
| "body_ok (WritingOutput w) \<longleftrightarrow>
     text4096 (requested_action w) \<and> items_ok 1 128 (wr_facts w) \<and> items_ok 1 128 (unknowns w) \<and>
     text256 (tone w) \<and> text256 (word_or_character_limit w) \<and> text4M (draft_markdown w) \<and>
     text4096 (self_edit_notes w)"
| "body_ok (PipelineOutput p) \<longleftrightarrow>
     text256 (company p) \<and> text256 (pl_role p) \<and> text256 (stage p) \<and>
     text4096 (completed_action p) \<and> text4096 (artifact_summary p) \<and> text4096 (next_action p)"

fun parse_output :: "output_payload \<Rightarrow> (contract_error, output_base \<times> output_body) result" where
  "parse_output Malformed = Inl (OutputContractError ''output contract is invalid'')"
| "parse_output (Payload b body) =
     (if base_ok b \<and> body_ok body then Inr (b, body)
      else Inl (OutputContractError ''output contract is invalid''))"

fun output_kind :: "output_body \<Rightarrow> string" where
  "output_kind (ReadingOutput r) = ''reading''"
| "output_kind (SqlOutput s) = ''sql''"
| "output_kind (CaseOutput c) = ''case''"
| "output_kind (WritingOutput w) = ''writing''"
| "output_kind (PipelineOutput p) = ''pipeline''"

definition ALLOWED_KINDS_BY_BLOCK :: "string \<rightharpoonup> string set" where
  "ALLOWED_KINDS_BY_BLOCK = map_of
     [(''technical_learning'', {''reading''}),
      (''sql'', {''sql''}),
      (''tam_case'', {''case''}),
      (''communication_spoken'', {''case'', ''writing''}),
      (''career_pipeline'', {''pipeline''}),
      (''correction_warmup'', {''sql'', ''case'', ''writing''}),
      (''daily_close'', {''writing''}),
      (''saturday_assessment'', {''sql'', ''case'', ''writing''})]"

record contract_context =
  cc_block :: string
  cc_source_hidden :: bool
  cc_timebox_minutes :: int
  cc_task_stable_id :: string
  cc_exercise_type :: string
  cc_mapping_version :: string
  cc_roadmap_version_key :: string
  cc_task_definition_id :: int

definition context_post_init ::
    "contract_context \<Rightarrow> (contract_error, contract_context) result" where
  "context_post_init c =
     (if ALLOWED_KINDS_BY_BLOCK (cc_block c) = None \<or>
         \<not> (0 < cc_timebox_minutes c \<and> cc_timebox_minutes c \<le> 255) \<or>
         cc_task_definition_id c \<le> 0 \<or>
         list_ex blank [cc_task_stable_id c, cc_exercise_type c, cc_mapping_version c,
                        cc_roadmap_version_key c]
      then Inl (OutputContractError ''activity contract context is invalid'') else Inr c)"

record validated_output =
  vo_kind :: string
  vo_prompt :: string
  vo_audience :: string
  vo_canonical_payload :: json
  vo_canonical_json :: string
  vo_original_markdown :: "string option"
  vo_original_sql :: "string option"

text \<open>\<^verbatim>\<open>parsed.model_dump(mode="json", exclude_none=True)\<close> without the contract version.\<close>

definition jstrs :: "string list \<Rightarrow> json" where
  "jstrs xs = JArr (map JStr xs)"

fun opt_member :: "string \<Rightarrow> string option \<Rightarrow> (string \<times> json) list" where
  "opt_member k None = []"
| "opt_member k (Some v) = [(k, JStr v)]"

fun body_members :: "output_body \<Rightarrow> (string \<times> json) list" where
  "body_members (ReadingOutput r) =
     [(''key_ideas'', jstrs (key_ideas r)), (''boundary_or_failure'', JStr (boundary_or_failure r)),
      (''tam_customer_example'', JStr (tam_customer_example r)),
      (''unresolved_question'', JStr (unresolved_question r))]"
| "body_members (SqlOutput s) =
     [(''query'', JStr (query s)), (''result'', JStr (sql_result s)),
      (''validation'', JStr (validation s)), (''explanation'', JStr (explanation s)),
      (''business_meaning'', JStr (business_meaning s)),
      (''solving_seconds'', JInt (solving_seconds s)),
      (''assistance_used'', JStr (assistance_used s))]"
| "body_members (CaseOutput c) =
     [(''canonical_prompt'', JStr (canonical_prompt c)),
      (''canonical_facts'', jstrs (canonical_facts c)),
      (''discovery_questions'', jstrs (discovery_questions c)),
      (''assumptions'', jstrs (assumptions c)), (''working_notes'', JStr (working_notes c)),
      (''final_artifact'', JStr (final_artifact c)), (''decisions'', jstrs (decisions c)),
      (''risks'', jstrs (risks c)), (''unresolved_questions'', jstrs (unresolved_questions c))]"
| "body_members (WritingOutput w) =
     [(''requested_action'', JStr (requested_action w)), (''facts'', jstrs (wr_facts w)),
      (''unknowns'', jstrs (unknowns w)), (''tone'', JStr (tone w)),
      (''word_or_character_limit'', JStr (word_or_character_limit w)),
      (''draft_markdown'', JStr (draft_markdown w)),
      (''self_edit_notes'', JStr (self_edit_notes w))]"
| "body_members (PipelineOutput p) =
     [(''company'', JStr (company p)), (''role'', JStr (pl_role p)), (''stage'', JStr (stage p)),
      (''completed_action'', JStr (completed_action p)),
      (''artifact_summary'', JStr (artifact_summary p)), (''next_action'', JStr (next_action p))]"

definition output_members :: "output_base \<Rightarrow> output_body \<Rightarrow> (string \<times> json) list" where
  "output_members b body =
     [(''prompt'', JStr (prompt b)), (''audience'', JStr (audience b)),
      (''time_limit_minutes'', JInt (time_limit_minutes b))]
     @ opt_member ''domain_competency_slug'' (domain_competency_slug b)
     @ opt_member ''story_competency_slug'' (story_competency_slug b)
     @ [(''kind'', JStr (output_kind body))] @ body_members body"

definition context_members :: "contract_context \<Rightarrow> (string \<times> json) list" where
  "context_members c =
     [(''task_definition_id'', JInt (cc_task_definition_id c)),
      (''task_stable_id'', JStr (cc_task_stable_id c)),
      (''exercise_type'', JStr (cc_exercise_type c)),
      (''mapping_version'', JStr (cc_mapping_version c)),
      (''roadmap_version_key'', JStr (cc_roadmap_version_key c)),
      (''time_limit_minutes'', JInt (cc_timebox_minutes c))]"

definition canonical_members :: "output_base \<Rightarrow> output_body \<Rightarrow> contract_context \<Rightarrow> (string \<times> json) list" where
  "canonical_members b body c =
     [(''contract_version'', JInt (contract_version b)),
      (''task_context'', JObj (context_members c)),
      (''output'', JObj (output_members b body))]"

fun original_markdown_of :: "output_body \<Rightarrow> string option" where
  "original_markdown_of (WritingOutput w) = Some (draft_markdown w)"
| "original_markdown_of (CaseOutput c) = Some (final_artifact c)"
| "original_markdown_of (PipelineOutput p) = Some (artifact_summary p)"
| "original_markdown_of _ = None"

fun original_sql_of :: "output_body \<Rightarrow> string option" where
  "original_sql_of (SqlOutput s) = Some (query s)"
| "original_sql_of _ = None"

fun is_reading :: "output_body \<Rightarrow> bool" where
  "is_reading (ReadingOutput r) = True"
| "is_reading _ = False"

fun sql_seconds :: "output_body \<Rightarrow> int option" where
  "sql_seconds (SqlOutput s) = Some (solving_seconds s)"
| "sql_seconds _ = None"

definition validate_output_contract ::
    "output_payload \<Rightarrow> contract_context \<Rightarrow> (contract_error, validated_output) result" where
  "validate_output_contract payload context =
     bind_result (parse_output payload) (\<lambda>(b, body).
       if (case ALLOWED_KINDS_BY_BLOCK (cc_block context) of
             None \<Rightarrow> True | Some ks \<Rightarrow> output_kind body \<notin> ks)
       then Inl (OutputContractError ''output kind is not allowed for this task block'')
       else if time_limit_minutes b \<noteq> cc_timebox_minutes context
       then Inl (OutputContractError ''output time limit does not match the assigned task'')
       else if is_reading body \<and> \<not> cc_source_hidden context
       then Inl (OutputContractError ''source must be hidden before reading recall is committed'')
       else if (case sql_seconds body of None \<Rightarrow> False | Some s \<Rightarrow> cc_timebox_minutes context * 60 < s)
       then Inl (OutputContractError ''SQL solving time exceeds the assigned time limit'')
       else
         let canonical = JObj (canonical_members b body context)
         in Inr \<lparr>vo_kind = output_kind body, vo_prompt = prompt b, vo_audience = audience b,
                 vo_canonical_payload = canonical, vo_canonical_json = dumps False canonical,
                 vo_original_markdown = original_markdown_of body,
                 vo_original_sql = original_sql_of body\<rparr>)"

section \<open>Artifacts\<close>

datatype artifact_error = ArtifactValidationError string | Storage_error object_error

definition ARTIFACT_CLASSES :: "string set" where
  "ARTIFACT_CLASSES = {''original_audio'', ''transcript'', ''written_output'', ''sql_output'',
     ''recall_note'', ''case_artifact'', ''analysis'', ''export''}"

definition LINK_ROLES :: "string set" where
  "LINK_ROLES = {''original_output'', ''presentation_audio'', ''transcript'', ''analysis'',
     ''supporting'', ''correction''}"

definition filename_shape :: "string \<Rightarrow> bool" where
  "filename_shape s \<longleftrightarrow>
     1 \<le> length s \<and> int (length s) \<le> 512 \<and>
     list_all (\<lambda>c. c \<noteq> CHR ''/'' \<and> c \<noteq> CHR 0x5C \<and> \<not> is_control c) s"

definition is_type_char :: "char \<Rightarrow> bool" where
  "is_type_char c \<longleftrightarrow> is_lower c \<or> is_digit c \<or> c \<in> {CHR ''.'', CHR ''+'', CHR ''-''}"

fun type_part :: "string \<Rightarrow> bool" where
  "type_part [] = False"
| "type_part (c # cs) \<longleftrightarrow> (is_lower c \<or> is_digit c) \<and> list_all is_type_char cs"

definition content_type_shape :: "string \<Rightarrow> bool" where
  "content_type_shape s \<longleftrightarrow>
     (case split_slash s of [a, b] \<Rightarrow> type_part a \<and> type_part b | _ \<Rightarrow> False)"

record artifact_upload_intent =
  ui_owner_id :: int
  ui_activity_id :: int
  ui_artifact_class :: string
  ui_object_key :: string
  ui_sha256 :: string
  ui_byte_length :: int
  ui_content_type :: string
  ui_original_filename :: string
  ui_metadata :: metadata

record artifact_commitment =
  ac_artifact_id :: int
  ac_sha256 :: string
  ac_link_role :: string

text \<open>
  The handlers around the storage checks name \<^verbatim>\<open>ValueError\<close>, and the exceptions of
  \<^verbatim>\<open>storage/models.py\<close> derive from \<^verbatim>\<open>Exception\<close>, so they pass through.
\<close>

definition storage_step :: "(object_error, 'a) result \<Rightarrow> (artifact_error, 'a) result" where
  "storage_step r = (case r of Inl e \<Rightarrow> Inl (Storage_error e) | Inr a \<Rightarrow> Inr a)"

definition commitment_post_init ::
    "artifact_commitment \<Rightarrow> (artifact_error, artifact_commitment) result" where
  "commitment_post_init c =
     (if ac_artifact_id c \<le> 0 \<or> ac_link_role c \<notin> LINK_ROLES
      then Inl (ArtifactValidationError ''artifact commitment is invalid'')
      else bind_result (storage_step (validate_sha256 (ac_sha256 c))) (\<lambda>_. Inr c))"

definition build_upload_intent ::
    "int \<Rightarrow> int \<Rightarrow> string \<Rightarrow> string \<Rightarrow> int \<Rightarrow> string \<Rightarrow> string
     \<Rightarrow> (artifact_error, artifact_upload_intent) result" where
  "build_upload_intent owner_id activity_id artifact_class sha256 byte_length content_type filename =
     (if owner_id \<le> 0 \<or> activity_id \<le> 0
      then Inl (ArtifactValidationError ''artifact owner or activity is invalid'')
      else if artifact_class \<notin> ARTIFACT_CLASSES
      then Inl (ArtifactValidationError ''artifact class is invalid'')
      else if byte_length < 0
      then Inl (ArtifactValidationError ''artifact byte length is invalid'')
      else if \<not> filename_shape filename \<or> blank filename \<or> 512 < int (utf8_size filename)
      then Inl (ArtifactValidationError ''artifact filename is invalid'')
      else
        bind_result (storage_step (validate_sha256 sha256)) (\<lambda>digest.
        bind_result (storage_step (validate_content_type content_type)) (\<lambda>checked_type.
        bind_result (storage_step
            (build_object_key artifact_class (int_str owner_id)
               (''activity-'' @ int_str activity_id) digest)) (\<lambda>object_key.
          if 128 < int (utf8_size checked_type)
          then Inl (ArtifactValidationError ''artifact content type is too long'')
          else if \<not> content_type_shape checked_type
          then Inl (ArtifactValidationError ''artifact content type is invalid'')
          else Inr \<lparr>ui_owner_id = owner_id, ui_activity_id = activity_id,
                    ui_artifact_class = artifact_class, ui_object_key = object_key,
                    ui_sha256 = digest, ui_byte_length = byte_length,
                    ui_content_type = checked_type, ui_original_filename = filename,
                    ui_metadata = [(''activity-id'', int_str activity_id),
                                   (''owner-id'', int_str owner_id)]\<rparr>))))"

definition verify_confirm_request ::
    "artifact_upload_intent \<Rightarrow> string \<Rightarrow> (artifact_error, unit) result" where
  "verify_confirm_request intent object_key =
     ensure (object_key = ui_object_key intent)
       (ArtifactValidationError ''confirmation requires the server-generated object key'')"

definition verify_stored_object ::
    "artifact_upload_intent \<Rightarrow> stored_object \<Rightarrow> (artifact_error, unit) result" where
  "verify_stored_object intent stored =
     ensure (so_key stored = ui_object_key intent \<and> so_sha256 stored = ui_sha256 intent \<and>
             so_byte_length stored = ui_byte_length intent \<and>
             so_content_type stored = ui_content_type intent \<and>
             list_all (\<lambda>(k, v). map_of (so_metadata stored) k = Some v) (ui_metadata intent))
       (ArtifactValidationError ''uploaded object does not match the confirmed intent'')"

definition commitment_json :: "artifact_commitment \<Rightarrow> json" where
  "commitment_json c =
     JObj [(''artifact_id'', JInt (ac_artifact_id c)), (''sha256'', JStr (ac_sha256 c)),
           (''link_role'', JStr (ac_link_role c))]"

definition commitment_manifest :: "artifact_commitment list \<Rightarrow> artifact_commitment list" where
  "commitment_manifest cs = sort_key (\<lambda>c. (ac_artifact_id c, ac_link_role c)) cs"

text \<open>\<open>sha\<close> is SHA-256 on the canonical text; the digest is its hexadecimal form.\<close>

definition build_commitment_digest ::
    "(string \<Rightarrow> string) \<Rightarrow> validated_output \<Rightarrow> artifact_commitment list
     \<Rightarrow> (artifact_error, string) result" where
  "build_commitment_digest sha out cs =
     (let manifest = commitment_manifest cs;
          keys = map (\<lambda>c. (ac_artifact_id c, ac_link_role c)) manifest
      in if length (remdups keys) \<noteq> length manifest
         then Inl (ArtifactValidationError ''artifact commitment contains duplicate links'')
         else Inr (sha (dumps False
           (JObj [(''output'', vo_canonical_payload out),
                  (''artifacts'', JArr (map commitment_json manifest))]))))"

section \<open>Reading a committed output back\<close>

text \<open>
  \<^verbatim>\<open>ActivityService._parent_evidence_mapping\<close>: the exercise type and the mapping version in the
  stored text of an earlier attempt, or nothing where the service raises.
\<close>

fun json_text :: "json \<Rightarrow> string option" where
  "json_text (JStr s) = (if blank s then None else Some s)"
| "json_text _ = None"

definition parent_evidence_mapping :: "string option \<Rightarrow> (string \<times> string) option" where
  "parent_evidence_mapping original_text =
     (case loads (case original_text of None \<Rightarrow> [] | Some t \<Rightarrow> t) of
        None \<Rightarrow> None
      | Some payload \<Rightarrow>
          (case json_get payload ''task_context'' of
             None \<Rightarrow> None
           | Some context \<Rightarrow>
               (case (json_get context ''exercise_type'', json_get context ''mapping_version'') of
                  (Some e, Some m) \<Rightarrow>
                    (case (json_text e, json_text m) of
                       (Some et, Some mv) \<Rightarrow> Some (et, mv)
                     | _ \<Rightarrow> None)
                | _ \<Rightarrow> None)))"

section \<open>Properties\<close>

lemma plain_jstrs [simp]: "json_plain (jstrs xs)"
  by (simp add: jstrs_def list_all_iff)

lemma plain_opt_member [simp]: "list_all (\<lambda>kj. json_plain (snd kj)) (opt_member k v)"
  by (cases v) auto

lemma plain_body_members: "list_all (\<lambda>kj. json_plain (snd kj)) (body_members body)"
  by (cases body) auto

lemma plain_canonical: "json_plain (JObj (canonical_members b body c))"
  by (simp add: canonical_members_def context_members_def output_members_def plain_body_members)

lemma validate_output_contract_payload:
  assumes "validate_output_contract p c = Inr v"
  obtains b body where "vo_canonical_payload v = JObj (canonical_members b body c)"
    "vo_canonical_json v = dumps False (JObj (canonical_members b body c))"
    "base_ok b" "body_ok body" "vo_prompt v = prompt b" "vo_kind v = output_kind body"
  using assms
  by (cases p) (auto simp: validate_output_contract_def Let_def result_simps split: if_splits)

text \<open>
  C33. A correction inherits the evidence mapping of the attempt it corrects. Whatever output was
  accepted for a task, reading its stored text back as JSON gives exactly the exercise type and the
  mapping version of the task it was committed for; no text a learner writes can change them.
\<close>

theorem committed_mapping_roundtrip:
  assumes "context_post_init c = Inr c" "validate_output_contract p c = Inr v"
  shows "parent_evidence_mapping (Some (vo_canonical_json v))
    = Some (cc_exercise_type c, cc_mapping_version c)"
proof -
  from assms(2) obtain b body where v: "vo_canonical_json v = dumps False (JObj (canonical_members b body c))"
    by (rule validate_output_contract_payload)
  let ?top = "canonical_members b body c" and ?ctx = "context_members c"
  have "loads (vo_canonical_json v) = Some (sort_json (JObj ?top))"
    unfolding v by (rule loads_dumps [OF plain_canonical])
  moreover have "json_get (sort_json (JObj ?top)) ''task_context'' = Some (sort_json (JObj ?ctx))"
    by (rule json_get_sort) (simp_all add: canonical_members_def)
  moreover have "json_get (sort_json (JObj ?ctx)) ''exercise_type'' = Some (sort_json (JStr (cc_exercise_type c)))"
    by (rule json_get_sort) (simp_all add: context_members_def)
  moreover have "json_get (sort_json (JObj ?ctx)) ''mapping_version'' = Some (sort_json (JStr (cc_mapping_version c)))"
    by (rule json_get_sort) (simp_all add: context_members_def)
  moreover have "\<not> blank (cc_exercise_type c)" "\<not> blank (cc_mapping_version c)"
    using assms(1) by (auto simp: context_post_init_def split: if_splits)
  ultimately show ?thesis by (simp add: parent_evidence_mapping_def del: sort_json.simps(2) json_get.simps)
qed

definition example_context :: contract_context where
  "example_context =
     \<lparr>cc_block = ''career_pipeline'', cc_source_hidden = False, cc_timebox_minutes = 25,
      cc_task_stable_id = ''m1-w1-d01-a'', cc_exercise_type = ''outreach'',
      cc_mapping_version = ''v1'', cc_roadmap_version_key = ''r1'', cc_task_definition_id = 3\<rparr>"

definition example_output :: output_payload where
  "example_output =
     Payload
       \<lparr>contract_version = 1, prompt = [CHR 0x22], audience = ''hm'', time_limit_minutes = 25,
        domain_competency_slug = None, story_competency_slug = None\<rparr>
       (PipelineOutput
         \<lparr>company = ''a'', pl_role = ''b'', stage = ''c'', completed_action = ''d'',
          artifact_summary = [CHR 0x5C], next_action = ''f''\<rparr>)"

theorem committed_mapping_roundtrip_witness:
  "\<exists>v. validate_output_contract example_output example_context = Inr v
    \<and> parent_evidence_mapping (Some (vo_canonical_json v)) = Some (''outreach'', ''v1'')"
proof -
  have c: "context_post_init example_context = Inr example_context"
    by (simp add: context_post_init_def example_context_def ALLOWED_KINDS_BY_BLOCK_def blank_iff
        is_space_def)
  have "is_ok (validate_output_contract example_output example_context)" by code_simp
  then obtain v where v: "validate_output_contract example_output example_context = Inr v"
    by (auto simp: is_ok_iff)
  from committed_mapping_roundtrip [OF c v] v show ?thesis by (simp add: example_context_def)
qed

lemma sort_key_mset:
  assumes "mset xs = mset ys" "distinct (map k xs)"
  shows "sort_key k xs = sort_key k ys"
proof (rule properties_for_sort_key)
  show "mset (sort_key k ys) = mset xs" using assms(1) by simp
  show "sorted (map k (sort_key k ys))" by simp
  have d: "distinct (map k (sort_key k ys))"
    using assms by (metis distinct_map distinct_sort mset_eq_setD mset_eq_imp_distinct_iff set_sort)
  fix x assume x: "x \<in> set (sort_key k ys)"
  have one: "filter (\<lambda>y. k x = k y) zs = [x]" if "x \<in> set zs" "distinct (map k zs)" for zs
    using that
  proof (induction zs)
    case (Cons z zs)
    show ?case
    proof (cases "x = z")
      case True
      with Cons.prems have "filter (\<lambda>y. k x = k y) zs = []" by (auto simp: filter_empty_conv)
      with True show ?thesis by simp
    next
      case False
      then have "k x \<noteq> k z" using Cons.prems by (auto simp: image_iff)
      with False Cons show ?thesis by auto
    qed
  qed simp
  have "x \<in> set xs" using x assms(1) by (metis mset_eq_setD set_sort)
  then show "filter (\<lambda>y. k x = k y) (sort_key k ys) = filter (\<lambda>y. k x = k y) xs"
    using one [OF x d] one [of xs] assms(2) by simp
qed

lemma sort_commitment_json:
  "sort_json (commitment_json a) = sort_json (commitment_json b) \<longleftrightarrow> a = b"
  by (cases a; cases b) (auto simp: commitment_json_def)

text \<open>The text a commitment digest is taken of.\<close>

definition commitment_value :: "validated_output \<Rightarrow> artifact_commitment list \<Rightarrow> json" where
  "commitment_value out cs =
     JObj [(''output'', vo_canonical_payload out),
           (''artifacts'', JArr (map commitment_json (commitment_manifest cs)))]"

lemma commitment_value_sorted:
  "sort_json (commitment_value v cs) = sort_json (commitment_value w ds) \<longleftrightarrow>
     sort_json (vo_canonical_payload v) = sort_json (vo_canonical_payload w)
     \<and> commitment_manifest cs = commitment_manifest ds"
proof -
  have "map (sort_json \<circ> commitment_json) xs = map (sort_json \<circ> commitment_json) ys \<longleftrightarrow> xs = ys"
    for xs ys
    by (rule inj_map_eq_map) (auto simp: inj_def sort_commitment_json)
  then show ?thesis by (auto simp: commitment_value_def)
qed

lemma digest_Inr:
  "build_commitment_digest sha v cs = Inr d \<longleftrightarrow>
     distinct (map (\<lambda>c. (ac_artifact_id c, ac_link_role c)) cs)
     \<and> d = sha (dumps False (commitment_value v cs))"
proof -
  let ?k = "\<lambda>c. (ac_artifact_id c, ac_link_role c)"
  have "length (remdups (map ?k (commitment_manifest cs))) = length (map ?k (commitment_manifest cs))
      \<longleftrightarrow> distinct (map ?k (commitment_manifest cs))"
    by (simp only: length_remdups_eq remdups_id_iff_distinct)
  also have "\<dots> \<longleftrightarrow> distinct (map ?k cs)"
    by (simp add: commitment_manifest_def distinct_map)
  finally show ?thesis
    by (auto simp: build_commitment_digest_def commitment_value_def Let_def simp del: length_remdups_eq)
qed

text \<open>
  C34. A commitment binds the output and its artifacts, and nothing else. Two commitments, for
  outputs that were accepted, have the same digest exactly when their canonical outputs agree up to
  the order of object keys and they name the same artifacts in the same roles, in any order;
  assuming only that the hash does not collide on the two canonical texts.
\<close>

theorem commitment_binds_evidence:
  assumes "validate_output_contract p c = Inr v" "validate_output_contract p' c' = Inr w"
    and "build_commitment_digest sha v cs = Inr d" "build_commitment_digest sha w ds = Inr e"
    and "inj_on sha {dumps False (commitment_value v cs), dumps False (commitment_value w ds)}"
  shows "d = e \<longleftrightarrow>
    sort_json (vo_canonical_payload v) = sort_json (vo_canonical_payload w) \<and> mset cs = mset ds"
proof -
  have plain: "json_plain (commitment_value u bs)" if "validate_output_contract q k = Inr u" for u q k bs
    using that plain_canonical
    by (auto simp: commitment_value_def commitment_json_def list_all_iff
        elim!: validate_output_contract_payload)
  let ?k = "\<lambda>c. (ac_artifact_id c, ac_link_role c)"
  have d: "d = sha (dumps False (commitment_value v cs))" "e = sha (dumps False (commitment_value w ds))"
    and dist: "distinct (map ?k cs)"
    using assms(3,4) by (auto simp: digest_Inr)
  have "d = e \<longleftrightarrow> dumps False (commitment_value v cs) = dumps False (commitment_value w ds)"
    unfolding d by (rule inj_on_eq_iff [OF assms(5)]) simp_all
  also have "\<dots> \<longleftrightarrow> sort_json (commitment_value v cs) = sort_json (commitment_value w ds)"
    using loads_dumps [OF plain [OF assms(1)], of False cs] loads_dumps [OF plain [OF assms(2)], of False ds]
    by (metis dumps_def option.inject)
  also have "\<dots> \<longleftrightarrow> sort_json (vo_canonical_payload v) = sort_json (vo_canonical_payload w)
      \<and> commitment_manifest cs = commitment_manifest ds" by (rule commitment_value_sorted)
  also have "commitment_manifest cs = commitment_manifest ds \<longleftrightarrow> mset cs = mset ds"
    unfolding commitment_manifest_def using sort_key_mset [OF _ dist] by (metis mset_sort)
  finally show ?thesis .
qed

definition example_link :: "int \<Rightarrow> artifact_commitment" where
  "example_link i =
     \<lparr>ac_artifact_id = i, ac_sha256 = replicate 64 (CHR ''a''), ac_link_role = ''supporting''\<rparr>"

theorem commitment_binds_evidence_witness:
  "\<exists>v d e. validate_output_contract example_output example_context = Inr v
    \<and> build_commitment_digest (\<lambda>s. s) v [example_link 1, example_link 2] = Inr d
    \<and> build_commitment_digest (\<lambda>s. s) v [example_link 2, example_link 1] = Inr e
    \<and> d = e"
proof -
  have "is_ok (validate_output_contract example_output example_context)" by code_simp
  then obtain v where v: "validate_output_contract example_output example_context = Inr v"
    by (auto simp: is_ok_iff)
  obtain d where d: "build_commitment_digest (\<lambda>s. s) v [example_link 1, example_link 2] = Inr d"
    by (simp add: digest_Inr example_link_def)
  obtain e where e: "build_commitment_digest (\<lambda>s. s) v [example_link 2, example_link 1] = Inr e"
    by (simp add: digest_Inr example_link_def)
  have "d = e" using commitment_binds_evidence [OF v v d e] by (simp add: add_mset_commute)
  with v d e show ?thesis by blast
qed

text \<open>
  An upload whose content type the storage layer rejects does not end in the artifact error the
  caller handles. The handlers in \<^verbatim>\<open>build_upload_intent\<close> name \<^verbatim>\<open>ValueError\<close>, which the storage
  exceptions are not, so a content type with a control character escapes as a storage exception.
\<close>

theorem upload_metadata_error_escapes:
  "build_upload_intent 7 12 ''transcript'' (replicate 64 (CHR ''a'')) 10 [CHR ''a'', CHR 0x01, CHR ''b'']
      ''notes.txt''
    = Inl (Storage_error (InvalidObjectMetadata ''content type is invalid''))"
  by code_simp

end
