(* ===== verification/Study_Rows.thy ===== *)
theory Study_Rows
  imports Activity Output_Contract
begin

text \<open>
  The tables behind a study day (\<^verbatim>\<open>learning/models.py\<close>, the receipts of
  \<^verbatim>\<open>auth/models.py\<close>): the rows, the attribute listeners and flush validators the ORM runs, the
  check constraints and unique indexes PostgreSQL evaluates, and the triggers the migrations
  install (\<^verbatim>\<open>20260825_0003\<close>, the timer trigger as \<^verbatim>\<open>20260827_0008\<close> and the activity trigger as
  \<^verbatim>\<open>20260828_0009\<close> leave it). A flush of one row runs the validator, then the trigger, then the
  constraints; a refused flush raises and the transaction is rolled back. A \<^verbatim>\<open>timestamptz\<close> column
  is an instant, a 32-byte digest column is its lowercase hexadecimal text, and the primary keys
  come from one increasing sequence.
\<close>

section \<open>Errors\<close>

datatype study_error =
    ActivityNotFound string
  | ActivityConflict string
  | ActivityInvalidRequest string
  | ActivityUnavailable string
  | StudyDayWorkflowError string
  | ActivityWorkflowError string
  | TimerWorkflowError string
  | AttemptWorkflowError string
  | SQLAlchemyError string
  | ObjectStoreError object_error
  | ArtifactError string
  | PydanticError string

section \<open>Rows\<close>

record study_day =
  sd_id :: int
  sd_owner_id :: int
  sd_roadmap_version_id :: int
  sd_local_date :: date
  sd_planned_minutes :: int
  sd_focused_minutes :: int
  sd_day_type :: string
  sd_status :: string
  sd_created_at :: instant
  sd_started_at :: "instant option"
  sd_closed_at :: "instant option"

record activity_instance =
  ai_id :: int
  ai_owner_id :: int
  ai_study_day_id :: int
  ai_roadmap_version_id :: int
  ai_task_definition_id :: int
  ai_task_stable_id_snapshot :: string
  ai_task_mapping_version_snapshot :: string
  ai_task_objective_snapshot :: string
  ai_task_timebox_minutes_snapshot :: int
  ai_roadmap_version_key_snapshot :: string
  ai_state :: activity_state
  ai_attempt_kind :: string
  ai_assistance_mode :: string
  ai_classification :: string
  ai_timebox_minutes :: int
  ai_source_hidden :: bool
  ai_optimistic_version :: int
  ai_replacement_version :: int
  ai_replaces_activity_id :: "int option"
  ai_stronger_evidence_activity_id :: "int option"
  ai_created_at :: instant
  ai_started_at :: "instant option"
  ai_output_committed_at :: "instant option"
  ai_completed_at :: "instant option"

record timer_session =
  ts_id :: int
  ts_owner_id :: int
  ts_activity_instance_id :: int
  ts_idempotency_key :: string
  ts_started_at :: instant
  ts_last_heartbeat_at :: instant
  ts_paused_at :: "instant option"
  ts_ended_at :: "instant option"
  ts_counted_seconds :: int
  ts_last_client_sequence :: int

record attempt =
  at_id :: int
  at_owner_id :: int
  at_activity_instance_id :: int
  at_attempt_kind :: string
  at_parent_attempt_id :: "int option"
  at_original_text :: "string option"
  at_original_markdown :: "string option"
  at_original_sql :: "string option"
  at_audience :: string
  at_prompt :: string
  at_assistance_mode :: string
  at_commitment_hash :: string
  at_committed_at :: instant
  at_created_at :: instant

record artifact =
  ar_id :: int
  ar_owner_id :: int
  ar_object_key :: string
  ar_content_hash :: string
  ar_content_type :: string
  ar_original_filename :: string
  ar_byte_size :: int
  ar_artifact_class :: string
  ar_encryption_metadata :: json
  ar_derived_from_artifact_id :: "int option"
  ar_immutable_version :: int
  ar_created_at :: instant

record artifact_link =
  al_id :: int
  al_owner_id :: int
  al_activity_instance_id :: int
  al_attempt_id :: "int option"
  al_artifact_id :: int
  al_link_role :: string
  al_created_at :: instant

record self_review =
  sr_id :: int
  sr_owner_id :: int
  sr_activity_instance_id :: int
  sr_attempt_id :: int
  sr_main_answer :: string
  sr_did_well :: string
  sr_structure_weakness :: string
  sr_vague_points :: string
  sr_hesitation_points :: string
  sr_change_next :: string
  sr_self_score :: int
  sr_submitted_at :: instant

record task_definition =
  df_id :: int
  df_owner_id :: int
  df_stable_id :: string
  df_exercise_type :: "string option"
  df_mapping_version :: "string option"
  df_objective :: string
  df_timebox_minutes :: int
  df_block :: string
  df_required :: bool
  df_output_contract :: json
  df_pass_contract :: json
  df_evidence_contract :: json
  df_source_references :: "json list"
  df_allowed_ai_role :: string

text \<open>The responses of the commands (\<^verbatim>\<open>learning/schemas.py\<close>), which the receipts store.\<close>

record timer_response =
  tr_id :: int
  tr_started_at :: instant
  tr_last_heartbeat_at :: instant
  tr_counted_seconds :: int
  tr_last_client_sequence :: int

record activity_response =
  rs_id :: int
  rs_study_day_id :: int
  rs_state :: activity_state
  rs_optimistic_version :: int
  rs_classification :: string
  rs_stronger_evidence_id :: "int option"
  rs_activity_focused_seconds :: int
  rs_day_focused_minutes :: int
  rs_hard_stop_recommended :: bool
  rs_open_timer :: "timer_response option"
  rs_source_hidden :: bool

record artifact_intent_receipt =
  ir_artifact_id :: "int option"
  ir_owner_id :: int
  ir_activity_id :: int
  ir_expected_version :: int
  ir_artifact_class :: string
  ir_object_key :: string
  ir_sha256 :: string
  ir_byte_length :: int
  ir_content_type :: string
  ir_original_filename :: string
  ir_reused :: bool

record artifact_response =
  ap_id :: int
  ap_sha256 :: string
  ap_byte_length :: int
  ap_content_type :: string
  ap_original_filename :: string
  ap_artifact_class :: string

record presigned_upload_response =
  pu_url :: string
  pu_method :: string
  pu_headers :: metadata
  pu_expires_seconds :: int

record artifact_presign_response =
  pp_artifact_id :: "int option"
  pp_object_key :: string
  pp_reused :: bool
  pp_upload :: "presigned_upload_response option"

record output_commit_response =
  oc_activity_id :: int
  oc_state :: activity_state
  oc_optimistic_version :: int
  oc_attempt_id :: int
  oc_commitment_sha256 :: string
  oc_artifact_ids :: "int list"

record self_review_response =
  rr_activity_id :: int
  rr_state :: activity_state
  rr_optimistic_version :: int
  rr_self_review_id :: int
  rr_attempt_id :: int
  rr_self_score :: int

record committed_output_summary =
  cs_attempt_id :: int
  cs_attempt_kind :: string
  cs_commitment_sha256 :: string
  cs_contract_payload :: json
  cs_artifact_ids :: "int list"
  cs_committed_at :: instant

record procedure_step =
  st_phase :: string
  st_minutes :: "int option"
  st_requirement :: string

record task_contract =
  tk_stable_id :: string
  tk_block :: string
  tk_objective :: string
  tk_timebox_minutes :: int
  tk_required :: bool
  tk_source_references :: "(string \<times> string option) list"
  tk_required_output :: "string list"
  tk_pass_criteria :: "string list"
  tk_evidence_requirements :: "string list"
  tk_allowed_ai_role :: string
  tk_procedure :: "procedure_step list"
  tk_constraints :: "string list"
  tk_exercise_type :: "string option"
  tk_mapping_version :: "string option"

record activity_detail_response =
  dr_activity :: activity_response
  dr_task_contract :: task_contract
  dr_committed_output :: "committed_output_summary option"
  dr_self_review :: "self_review option"

datatype result_payload =
    Activity_payload activity_response
  | Detail_payload activity_detail_response
  | Intent_payload artifact_intent_receipt
  | Artifact_payload artifact_response
  | Commit_payload output_commit_response
  | Review_payload self_review_response

record command_receipt =
  cr_id :: int
  cr_owner_id :: int
  cr_command_scope :: string
  cr_idempotency_key :: string
  cr_request_hash :: string
  cr_status :: string
  cr_result_payload :: result_payload
  cr_created_at :: instant
  cr_expires_at :: instant

record study_db =
  db_owners :: "int list"
  db_days :: "study_day list"
  db_activities :: "activity_instance list"
  db_definitions :: "task_definition list"
  db_timers :: "timer_session list"
  db_attempts :: "attempt list"
  db_artifacts :: "artifact list"
  db_links :: "artifact_link list"
  db_reviews :: "self_review list"
  db_receipts :: "command_receipt list"
  db_coach_modes :: "((int \<times> int) \<times> string) list"
  db_next_id :: int

section \<open>Column values\<close>

text \<open>
  \<^verbatim>\<open>btrim\<close> removes spaces only;
  an \<^verbatim>\<open>Integer\<close> column holds 32 bits.
\<close>

fun coalesce :: "'a option \<Rightarrow> 'a \<Rightarrow> 'a" where
  "coalesce None d = d"
| "coalesce (Some v) d = v"

definition btrim_empty :: "string \<Rightarrow> bool" where
  "btrim_empty s \<longleftrightarrow> list_all (\<lambda>c. c = CHR '' '') s"

definition filled :: "int \<Rightarrow> string \<Rightarrow> bool" where
  "filled limit s \<longleftrightarrow> \<not> btrim_empty s \<and> int (utf8_size s) \<le> limit"

definition int32 :: "int \<Rightarrow> bool" where
  "int32 v \<longleftrightarrow> - (2 ^ 31) \<le> v \<and> v < 2 ^ 31"

definition put_row :: "('r \<Rightarrow> int) \<Rightarrow> 'r \<Rightarrow> 'r list \<Rightarrow> 'r list" where
  "put_row key y xs = map (\<lambda>x. if key x = key y then y else x) xs"

definition SAVED_ATTEMPT_KINDS :: "string list" where
  "SAVED_ATTEMPT_KINDS = [''attempt_a'', ''attempt_b'', ''no_ai_assessment'', ''real_interview'']"

definition ATTEMPT_KINDS :: "string list" where
  "ATTEMPT_KINDS = ''none'' # SAVED_ATTEMPT_KINDS"

definition ASSISTANCE_MODES :: "string list" where
  "ASSISTANCE_MODES =
     [''none'', ''coach_preparation'', ''hint_ladder'', ''time_expired'', ''reference_only'']"

definition CLASSIFICATIONS :: "string list" where
  "CLASSIFICATIONS = [''required'', ''useful'', ''optional'', ''superseded'']"

section \<open>Study days\<close>

definition STUDY_DAY_TRANSITIONS :: "(string \<times> string list) list" where
  "STUDY_DAY_TRANSITIONS =
     [(''planned'', [''in_progress'', ''skipped'']),
      (''in_progress'', [''closed'', ''incomplete'']),
      (''closed'', []), (''incomplete'', []), (''skipped'', [])]"

definition set_day_status :: "string \<Rightarrow> study_day \<Rightarrow> (study_error, study_day) result" where
  "set_day_status v d =
     (if map_of STUDY_DAY_TRANSITIONS v = None
      then Inl (StudyDayWorkflowError ''invalid study day status'')
      else if v \<noteq> sd_status d
           \<and> v \<notin> set (coalesce (map_of STUDY_DAY_TRANSITIONS (sd_status d)) [])
      then Inl (StudyDayWorkflowError ''invalid study day status transition'')
      else Inr (d\<lparr>sd_status := v\<rparr>))"

definition set_day_started_at ::
    "instant option \<Rightarrow> study_day \<Rightarrow> (study_error, study_day) result" where
  "set_day_started_at v d =
     (if v \<noteq> sd_started_at d \<and> sd_started_at d \<noteq> None
      then Inl (StudyDayWorkflowError ''study day lifecycle timestamps are write-once'')
      else Inr (d\<lparr>sd_started_at := v\<rparr>))"

text \<open>Attribute histories compare the row in memory with the row that was loaded.\<close>

definition validate_study_day_workflow ::
    "study_day \<Rightarrow> study_day \<Rightarrow> (study_error, unit) result" where
  "validate_study_day_workflow old t =
     (if t \<noteq> old \<and> sd_status old = sd_status t \<and> sd_status t \<noteq> ''in_progress''
      then Inl (StudyDayWorkflowError ''same-status study day updates are limited to in_progress'')
      else if sd_focused_minutes t < sd_focused_minutes old
      then Inl (StudyDayWorkflowError ''focused minutes cannot decrease'')
      else if sd_status t = ''planned'' \<and> (sd_started_at t \<noteq> None \<or> sd_closed_at t \<noteq> None)
      then Inl (StudyDayWorkflowError ''planned study day timestamps are incoherent'')
      else if sd_status t = ''in_progress'' \<and> (sd_started_at t = None \<or> sd_closed_at t \<noteq> None)
      then Inl (StudyDayWorkflowError ''active study day timestamps are incoherent'')
      else if sd_status t \<in> {''closed'', ''incomplete''}
           \<and> (sd_started_at t = None \<or> sd_closed_at t = None)
      then Inl (StudyDayWorkflowError ''closed study day timestamps are incoherent'')
      else Inr ())"

definition day_lifecycle_coherent :: "study_day \<Rightarrow> bool" where
  "day_lifecycle_coherent d \<longleftrightarrow>
     (sd_status d = ''planned'' \<and> sd_started_at d = None \<and> sd_closed_at d = None)
     \<or> (sd_status d = ''in_progress'' \<and> sd_started_at d \<noteq> None \<and> sd_closed_at d = None)
     \<or> (sd_status d \<in> {''closed'', ''incomplete''} \<and> sd_started_at d \<noteq> None
        \<and> sd_closed_at d \<noteq> None)
     \<or> (sd_status d = ''skipped'' \<and> sd_closed_at d \<noteq> None)"

definition day_checks :: "study_day \<Rightarrow> bool" where
  "day_checks d \<longleftrightarrow>
     0 \<le> sd_planned_minutes d \<and> sd_planned_minutes d \<le> 255
     \<and> 0 \<le> sd_focused_minutes d \<and> sd_focused_minutes d \<le> 255
     \<and> sd_day_type d \<in> {''weekday'', ''saturday'', ''sunday'', ''interview''}
     \<and> (sd_day_type d = ''sunday'' \<and> sd_planned_minutes d = 0
        \<or> sd_day_type d = ''saturday'' \<and> sd_planned_minutes d \<le> 120
        \<or> sd_day_type d \<in> {''weekday'', ''interview''})
     \<and> map_of STUDY_DAY_TRANSITIONS (sd_status d) \<noteq> None
     \<and> null_or (\<lambda>s. sd_created_at d \<le> s) (sd_started_at d)
     \<and> null_or (\<lambda>c. coalesce (sd_started_at d) (sd_created_at d) \<le> c) (sd_closed_at d)
     \<and> day_lifecycle_coherent d"

definition day_provenance :: "study_day \<Rightarrow> int \<times> int \<times> date \<times> int \<times> string \<times> instant" where
  "day_provenance d = (sd_owner_id d, sd_roadmap_version_id d, sd_local_date d,
     sd_planned_minutes d, sd_day_type d, sd_created_at d)"

definition guard_study_day_update :: "study_day \<Rightarrow> study_day \<Rightarrow> (study_error, unit) result" where
  "guard_study_day_update old t =
     (if day_provenance t \<noteq> day_provenance old
      then Inl (SQLAlchemyError ''study day provenance is immutable'')
      else if sd_focused_minutes t < sd_focused_minutes old
      then Inl (SQLAlchemyError ''focused minutes cannot decrease'')
      else if \<not> (sd_status old = ''planned'' \<and> sd_status t \<in> {''in_progress'', ''skipped''}
                \<or> sd_status old = ''in_progress'' \<and> sd_status t = ''in_progress''
                \<or> sd_status old = ''in_progress'' \<and> sd_status t \<in> {''closed'', ''incomplete''})
      then Inl (SQLAlchemyError ''invalid study day status transition'')
      else if sd_started_at old \<noteq> None \<and> sd_started_at t \<noteq> sd_started_at old
           \<or> sd_closed_at old \<noteq> None \<and> sd_closed_at t \<noteq> sd_closed_at old
      then Inl (SQLAlchemyError ''study day lifecycle timestamps are write-once'')
      else Inr ())"

text \<open>A flush of a row without a net change runs the validator and sends no statement.\<close>

definition flush_day :: "study_day \<Rightarrow> study_day \<Rightarrow> study_db \<Rightarrow> (study_error, study_db) result" where
  "flush_day old t db =
     bind_result (validate_study_day_workflow old t) (\<lambda>_.
     if t = old then Inr db
     else bind_result (guard_study_day_update old t) (\<lambda>_.
          bind_result (ensure (day_checks t) (SQLAlchemyError ''study_days'')) (\<lambda>_.
          Inr (db\<lparr>db_days := put_row sd_id t (db_days db)\<rparr>))))"

section \<open>Activities\<close>

fun ACTIVITY_TRANSITIONS :: "activity_state \<Rightarrow> activity_state list" where
  "ACTIVITY_TRANSITIONS READY = [ACTIVE]"
| "ACTIVITY_TRANSITIONS ACTIVE = [PAUSED, OUTPUT_COMMITTED, INCOMPLETE]"
| "ACTIVITY_TRANSITIONS PAUSED = [ACTIVE, INCOMPLETE]"
| "ACTIVITY_TRANSITIONS OUTPUT_COMMITTED = [SELF_REVIEW_COMPLETE]"
| "ACTIVITY_TRANSITIONS SELF_REVIEW_COMPLETE = [AI_PROCESSING]"
| "ACTIVITY_TRANSITIONS AI_PROCESSING = [FEEDBACK_READY]"
| "ACTIVITY_TRANSITIONS FEEDBACK_READY = [CORRECTION_DUE]"
| "ACTIVITY_TRANSITIONS CORRECTION_DUE = [DEMONSTRATED, NEEDS_WORK]"
| "ACTIVITY_TRANSITIONS DEMONSTRATED = []"
| "ACTIVITY_TRANSITIONS NEEDS_WORK = []"
| "ACTIVITY_TRANSITIONS INCOMPLETE = []"
| "ACTIVITY_TRANSITIONS SUPERSEDED = []"

definition set_activity_state ::
    "activity_state \<Rightarrow> activity_instance \<Rightarrow> (study_error, activity_instance) result" where
  "set_activity_state v a =
     (if v \<noteq> ai_state a \<and> v \<notin> set (ACTIVITY_TRANSITIONS (ai_state a))
      then Inl (ActivityWorkflowError ''invalid activity state transition'')
      else Inr (a\<lparr>ai_state := v\<rparr>))"

definition write_once :: "instant option \<Rightarrow> instant option \<Rightarrow> (study_error, unit) result" where
  "write_once v old =
     ensure (\<not> (v \<noteq> old \<and> old \<noteq> None))
       (ActivityWorkflowError ''activity lifecycle timestamps are write-once'')"

definition committed_states :: "activity_state list" where
  "committed_states = [OUTPUT_COMMITTED, SELF_REVIEW_COMPLETE, AI_PROCESSING, FEEDBACK_READY,
     CORRECTION_DUE, DEMONSTRATED, NEEDS_WORK]"

text \<open>The second half of the validator: what holds of the row whatever its history.\<close>

definition validate_activity_shape :: "activity_instance \<Rightarrow> (study_error, unit) result" where
  "validate_activity_shape t =
     (if (ai_classification t = ''superseded'') \<noteq> (ai_stronger_evidence_activity_id t \<noteq> None)
      then Inl (ActivityWorkflowError ''superseded work must link stronger evidence'')
      else if ai_stronger_evidence_activity_id t = Some (ai_id t)
      then Inl (ActivityWorkflowError ''activity cannot supersede itself'')
      else if ai_state t = READY
           \<and> \<not> (ai_started_at t = None \<and> ai_output_committed_at t = None \<and> ai_completed_at t = None)
      then Inl (ActivityWorkflowError ''ready activity timestamps are incoherent'')
      else if ai_state t \<in> {ACTIVE, PAUSED}
           \<and> (ai_started_at t = None \<or> ai_output_committed_at t \<noteq> None \<or> ai_completed_at t \<noteq> None)
      then Inl (ActivityWorkflowError ''active activity timestamps are incoherent'')
      else if ai_state t = INCOMPLETE \<and> (ai_started_at t = None \<or> ai_completed_at t = None)
      then Inl (ActivityWorkflowError ''incomplete activity timestamps are incoherent'')
      else if ai_state t \<in> set committed_states
           \<and> (ai_started_at t = None \<or> ai_output_committed_at t = None)
      then Inl (ActivityWorkflowError ''committed activity timestamps are incoherent'')
      else Inr ())"

definition validate_activity_workflow ::
    "activity_instance \<Rightarrow> activity_instance \<Rightarrow> (study_error, unit) result" where
  "validate_activity_workflow old t =
     (let state_changed = ai_state t \<noteq> ai_state old;
          kind_changed = ai_attempt_kind t \<noteq> ai_attempt_kind old;
          classified = ai_classification t \<noteq> ai_classification old
            \<or> ai_stronger_evidence_activity_id t \<noteq> ai_stronger_evidence_activity_id old
      in if ai_optimistic_version t \<noteq> ai_optimistic_version old + 1
         then Inl (ActivityWorkflowError ''optimistic version must increase by one'')
         else if classified \<and> (ai_state t \<noteq> INCOMPLETE \<or> ai_state old \<notin> {ACTIVE, PAUSED})
         then Inl (ActivityWorkflowError
                ''incomplete classification can change only when work becomes incomplete'')
         else if kind_changed
              \<and> \<not> (ai_attempt_kind old = ''none''
                    \<and> ai_attempt_kind t \<in> {''attempt_a'', ''attempt_b''}
                    \<and> ai_state old = ACTIVE \<and> ai_state t = OUTPUT_COMMITTED)
         then Inl (ActivityWorkflowError
                ''attempt kind can be selected only while committing active output'')
         else if ai_source_hidden t \<noteq> ai_source_hidden old
              \<and> (state_changed \<or> kind_changed \<or> classified
                 \<or> ai_state t \<notin> {READY, ACTIVE, PAUSED})
         then Inl (ActivityWorkflowError ''source visibility can change only before output commitment'')
         else if ai_source_hidden t = ai_source_hidden old \<and> \<not> state_changed
         then Inl (ActivityWorkflowError ''activity update must change state or source visibility'')
         else validate_activity_shape t)"

definition activity_checks :: "activity_instance \<Rightarrow> bool" where
  "activity_checks a \<longleftrightarrow>
     filled 192 (ai_task_stable_id_snapshot a)
     \<and> filled 64 (ai_task_mapping_version_snapshot a)
     \<and> filled 4096 (ai_task_objective_snapshot a)
     \<and> 0 < ai_task_timebox_minutes_snapshot a
     \<and> filled 128 (ai_roadmap_version_key_snapshot a)
     \<and> ai_attempt_kind a \<in> set ATTEMPT_KINDS
     \<and> ai_assistance_mode a \<in> set ASSISTANCE_MODES
     \<and> ai_classification a \<in> set CLASSIFICATIONS
     \<and> (ai_classification a = ''superseded'') = (ai_stronger_evidence_activity_id a \<noteq> None)
     \<and> ai_stronger_evidence_activity_id a \<noteq> Some (ai_id a)
     \<and> 0 < ai_timebox_minutes a \<and> ai_timebox_minutes a \<le> 255
     \<and> 0 < ai_optimistic_version a \<and> int32 (ai_optimistic_version a)
     \<and> 0 < ai_replacement_version a
     \<and> (ai_replacement_version a = 1) = (ai_replaces_activity_id a = None)
     \<and> null_or (\<lambda>s. ai_created_at a \<le> s) (ai_started_at a)
     \<and> null_or (\<lambda>c. null_or (\<lambda>s. s \<le> c) (ai_started_at a)) (ai_output_committed_at a)
     \<and> null_or (\<lambda>c. coalesce (ai_output_committed_at a)
                       (coalesce (ai_started_at a) (ai_created_at a)) \<le> c) (ai_completed_at a)"

definition activity_provenance ::
    "activity_instance \<Rightarrow> (int \<times> int \<times> int \<times> int) \<times> (string \<times> string \<times> string \<times> int \<times> string)
      \<times> string \<times> int \<times> int \<times> int option \<times> instant" where
  "activity_provenance a =
     ((ai_owner_id a, ai_study_day_id a, ai_roadmap_version_id a, ai_task_definition_id a),
      (ai_task_stable_id_snapshot a, ai_task_mapping_version_snapshot a,
       ai_task_objective_snapshot a, ai_task_timebox_minutes_snapshot a,
       ai_roadmap_version_key_snapshot a),
      ai_assistance_mode a, ai_timebox_minutes a, ai_replacement_version a,
      ai_replaces_activity_id a, ai_created_at a)"

definition guard_activity_update ::
    "activity_instance \<Rightarrow> activity_instance \<Rightarrow> (study_error, unit) result" where
  "guard_activity_update old t =
     (if activity_provenance t \<noteq> activity_provenance old
      then Inl (SQLAlchemyError ''activity provenance is immutable'')
      else if ai_optimistic_version t \<noteq> ai_optimistic_version old + 1
      then Inl (SQLAlchemyError ''optimistic version must increase by one'')
      else if ai_state t = ai_state old
      then ensure (ai_state t \<in> {READY, ACTIVE, PAUSED}
             \<and> ai_source_hidden t \<noteq> ai_source_hidden old
             \<and> ai_attempt_kind t = ai_attempt_kind old
             \<and> ai_classification t = ai_classification old
             \<and> ai_stronger_evidence_activity_id t = ai_stronger_evidence_activity_id old
             \<and> ai_started_at t = ai_started_at old
             \<and> ai_output_committed_at t = ai_output_committed_at old
             \<and> ai_completed_at t = ai_completed_at old)
             (SQLAlchemyError ''invalid source visibility mutation'')
      else if ai_source_hidden t \<noteq> ai_source_hidden old
      then Inl (SQLAlchemyError ''source visibility must change separately'')
      else if (ai_classification t \<noteq> ai_classification old
               \<or> ai_stronger_evidence_activity_id t \<noteq> ai_stronger_evidence_activity_id old)
           \<and> \<not> (ai_state old \<in> {ACTIVE, PAUSED} \<and> ai_state t = INCOMPLETE)
      then Inl (SQLAlchemyError ''incomplete classification can change only for incomplete work'')
      else if (ai_classification t = ''superseded'') \<noteq> (ai_stronger_evidence_activity_id t \<noteq> None)
           \<or> ai_stronger_evidence_activity_id t = Some (ai_id t)
      then Inl (SQLAlchemyError ''superseded work must link different stronger evidence'')
      else if ai_attempt_kind t \<noteq> ai_attempt_kind old
           \<and> \<not> (ai_attempt_kind old = ''none'' \<and> ai_attempt_kind t \<in> {''attempt_a'', ''attempt_b''}
                 \<and> ai_state old = ACTIVE \<and> ai_state t = OUTPUT_COMMITTED)
      then Inl (SQLAlchemyError ''attempt kind can change only during output commitment'')
      else if ai_state t \<notin> set (ACTIVITY_TRANSITIONS (ai_state old))
      then Inl (SQLAlchemyError ''invalid activity state transition'')
      else if \<not> (frozen (ai_started_at old) (ai_started_at t)
                \<and> frozen (ai_output_committed_at old) (ai_output_committed_at t)
                \<and> frozen (ai_completed_at old) (ai_completed_at t))
      then Inl (SQLAlchemyError ''activity lifecycle timestamps are write-once'')
      else if ai_state t \<in> {ACTIVE, PAUSED}
              \<and> (ai_started_at t = None \<or> ai_output_committed_at t \<noteq> None \<or> ai_completed_at t \<noteq> None)
           \<or> ai_state t = INCOMPLETE \<and> (ai_started_at t = None \<or> ai_completed_at t = None)
           \<or> ai_state t \<in> set committed_states
              \<and> (ai_started_at t = None \<or> ai_output_committed_at t = None)
      then Inl (SQLAlchemyError ''activity lifecycle timestamps are incoherent'')
      else Inr ())"

definition owned_activity :: "study_db \<Rightarrow> int \<Rightarrow> int \<Rightarrow> bool" where
  "owned_activity db ow i \<longleftrightarrow>
     list_ex (\<lambda>a. ai_owner_id a = ow \<and> ai_id a = i) (db_activities db)"

definition flush_activity ::
    "activity_instance \<Rightarrow> activity_instance \<Rightarrow> study_db \<Rightarrow> (study_error, study_db) result" where
  "flush_activity old t db =
     bind_result (validate_activity_workflow old t) (\<lambda>_.
     bind_result (guard_activity_update old t) (\<lambda>_.
     bind_result
       (ensure (activity_checks t
          \<and> null_or (owned_activity db (ai_owner_id t)) (ai_stronger_evidence_activity_id t))
          (SQLAlchemyError ''activity_instances'')) (\<lambda>_.
     Inr (db\<lparr>db_activities := put_row ai_id t (db_activities db)\<rparr>))))"

section \<open>Timers\<close>

definition validate_timer_workflow ::
    "timer_session \<Rightarrow> timer_session \<Rightarrow> (study_error, unit) result" where
  "validate_timer_workflow old t =
     (if ts_ended_at old \<noteq> None
      then Inl (TimerWorkflowError ''ended timer is immutable'')
      else if (ts_owner_id t, ts_activity_instance_id t, ts_idempotency_key t, ts_started_at t)
           \<noteq> (ts_owner_id old, ts_activity_instance_id old, ts_idempotency_key old, ts_started_at old)
      then Inl (TimerWorkflowError ''timer provenance is immutable'')
      else if ts_last_heartbeat_at t < ts_last_heartbeat_at old
      then Inl (TimerWorkflowError ''timer heartbeat cannot move backward'')
      else if ts_counted_seconds t < ts_counted_seconds old
      then Inl (TimerWorkflowError ''counted seconds cannot decrease'')
      else if ts_last_client_sequence t < ts_last_client_sequence old
      then Inl (TimerWorkflowError ''timer client sequence cannot decrease'')
      else if ts_paused_at old \<noteq> None \<and> ts_paused_at t \<noteq> ts_paused_at old
      then Inl (TimerWorkflowError ''paused_at is write-once'')
      else Inr ())"

definition timer_checks :: "timer_session \<Rightarrow> bool" where
  "timer_checks t \<longleftrightarrow>
     filled 256 (ts_idempotency_key t)
     \<and> 0 \<le> ts_counted_seconds t \<and> ts_counted_seconds t \<le> 918000
     \<and> 0 \<le> ts_last_client_sequence t \<and> int32 (ts_last_client_sequence t)
     \<and> ts_started_at t \<le> ts_last_heartbeat_at t
     \<and> null_or (\<lambda>p. ts_started_at t \<le> p) (ts_paused_at t)
     \<and> null_or (\<lambda>e. coalesce (ts_paused_at t) (ts_last_heartbeat_at t) \<le> e) (ts_ended_at t)
     \<and> null_or (\<lambda>e. ts_last_heartbeat_at t \<le> e) (ts_ended_at t)"

definition guard_timer_update :: "timer_session \<Rightarrow> timer_session \<Rightarrow> (study_error, unit) result" where
  "guard_timer_update old t =
     (if (ts_owner_id t, ts_activity_instance_id t, ts_idempotency_key t, ts_started_at t)
         \<noteq> (ts_owner_id old, ts_activity_instance_id old, ts_idempotency_key old, ts_started_at old)
      then Inl (SQLAlchemyError ''timer provenance is immutable'')
      else if ts_ended_at old \<noteq> None
      then Inl (SQLAlchemyError ''ended timer is immutable'')
      else if ts_counted_seconds t < ts_counted_seconds old
           \<or> ts_last_client_sequence t < ts_last_client_sequence old
           \<or> ts_last_heartbeat_at t < ts_last_heartbeat_at old
           \<or> \<not> frozen (ts_paused_at old) (ts_paused_at t)
      then Inl (SQLAlchemyError ''timer progress must be monotonic'')
      else Inr ())"

definition flush_timer ::
    "timer_session \<Rightarrow> timer_session \<Rightarrow> study_db \<Rightarrow> (study_error, study_db) result" where
  "flush_timer old t db =
     bind_result (validate_timer_workflow old t) (\<lambda>_.
     bind_result (guard_timer_update old t) (\<lambda>_.
     bind_result (ensure (timer_checks t) (SQLAlchemyError ''activity_timer_sessions'')) (\<lambda>_.
     Inr (db\<lparr>db_timers := put_row ts_id t (db_timers db)\<rparr>))))"

definition open_timer_of :: "int \<Rightarrow> timer_session \<Rightarrow> bool" where
  "open_timer_of i t \<longleftrightarrow> ts_activity_instance_id t = i \<and> ts_ended_at t = None"

definition insert_timer ::
    "timer_session \<Rightarrow> study_db \<Rightarrow> (study_error, study_db \<times> timer_session) result" where
  "insert_timer t0 db =
     (let t = t0\<lparr>ts_id := db_next_id db\<rparr>
      in bind_result
           (ensure (timer_checks t
              \<and> owned_activity db (ts_owner_id t) (ts_activity_instance_id t)
              \<and> \<not> list_ex (\<lambda>u. ts_owner_id u = ts_owner_id t
                       \<and> ts_idempotency_key u = ts_idempotency_key t) (db_timers db)
              \<and> \<not> (ts_ended_at t = None
                   \<and> list_ex (open_timer_of (ts_activity_instance_id t)) (db_timers db)))
              (SQLAlchemyError ''activity_timer_sessions'')) (\<lambda>_.
         Inr (db\<lparr>db_timers := db_timers db @ [t], db_next_id := db_next_id db + 1\<rparr>, t)))"

section \<open>Append-only evidence\<close>

text \<open>
  Attempts, artifacts, links and self reviews are only ever inserted: the ORM and the triggers
  reject every update and delete.
\<close>

definition owned_attempt :: "study_db \<Rightarrow> int \<Rightarrow> int \<Rightarrow> attempt option" where
  "owned_attempt db ow i =
     find (\<lambda>p. at_owner_id p = ow \<and> at_id p = i) (db_attempts db)"

definition activity_of :: "study_db \<Rightarrow> int \<Rightarrow> int \<Rightarrow> activity_instance option" where
  "activity_of db ow i =
     find (\<lambda>a. ai_owner_id a = ow \<and> ai_id a = i) (db_activities db)"

definition attempt_parent ::
    "study_db \<Rightarrow> attempt \<Rightarrow> (string \<times> string \<times> string) option" where
  "attempt_parent db t =
     (case at_parent_attempt_id t of None \<Rightarrow> None
      | Some i \<Rightarrow> (case owned_attempt db (at_owner_id t) i of None \<Rightarrow> None
         | Some p \<Rightarrow> (case activity_of db (at_owner_id p) (at_activity_instance_id p) of None \<Rightarrow> None
            | Some a \<Rightarrow> Some (at_attempt_kind p, ai_attempt_kind a, at_prompt p))))"

definition validate_attempt_workflow :: "study_db \<Rightarrow> attempt \<Rightarrow> (study_error, unit) result" where
  "validate_attempt_workflow db t =
     (if at_attempt_kind t \<notin> set SAVED_ATTEMPT_KINDS
      then Inl (AttemptWorkflowError ''invalid attempt kind'')
      else if (at_attempt_kind t = ''attempt_b'') \<noteq> (at_parent_attempt_id t \<noteq> None)
      then Inl (AttemptWorkflowError ''invalid Attempt A/B relation shape'')
      else if map_option ai_attempt_kind (activity_of db (at_owner_id t) (at_activity_instance_id t))
           \<noteq> Some (at_attempt_kind t)
      then Inl (AttemptWorkflowError ''attempt kind must match child activity kind'')
      else if at_attempt_kind t \<noteq> ''attempt_b'' then Inr ()
      else case attempt_parent db t of
             None \<Rightarrow> Inl (AttemptWorkflowError
               ''invalid Attempt A/B relation: parent must be an owner-scoped Attempt A'')
           | Some (kind, activity_kind, parent_prompt) \<Rightarrow>
               if kind \<noteq> ''attempt_a'' then Inl (AttemptWorkflowError
                 ''invalid Attempt A/B relation: parent must be an owner-scoped Attempt A'')
               else if activity_kind \<noteq> ''attempt_a''
               then Inl (AttemptWorkflowError ''Attempt A parent activity kind must be attempt_a'')
               else if parent_prompt \<noteq> at_prompt t
               then Inl (AttemptWorkflowError ''Attempt B must use the same prompt as Attempt A'')
               else Inr ())"

definition attempt_checks :: "attempt \<Rightarrow> bool" where
  "attempt_checks t \<longleftrightarrow>
     at_attempt_kind t \<in> set SAVED_ATTEMPT_KINDS
     \<and> (at_attempt_kind t = ''attempt_b'') = (at_parent_attempt_id t \<noteq> None)
     \<and> \<not> (at_original_text t = None \<and> at_original_markdown t = None \<and> at_original_sql t = None)
     \<and> null_or (filled 4194304) (at_original_text t)
     \<and> null_or (filled 4194304) (at_original_markdown t)
     \<and> null_or (filled 4194304) (at_original_sql t)
     \<and> filled 256 (at_audience t) \<and> filled 1048576 (at_prompt t)
     \<and> at_assistance_mode t \<in> set ASSISTANCE_MODES
     \<and> length (at_commitment_hash t) = 64
     \<and> at_created_at t \<le> at_committed_at t"

definition guard_attempt_insert :: "study_db \<Rightarrow> attempt \<Rightarrow> (study_error, unit) result" where
  "guard_attempt_insert db t =
     (if map_option ai_attempt_kind (activity_of db (at_owner_id t) (at_activity_instance_id t))
         \<noteq> Some (at_attempt_kind t)
      then Inl (SQLAlchemyError ''attempt kind must match child activity kind'')
      else if at_attempt_kind t \<noteq> ''attempt_b'' then Inr ()
      else if map_option fst (attempt_parent db t) \<noteq> Some ''attempt_a''
      then Inl (SQLAlchemyError ''Attempt B requires an owner-scoped Attempt A parent'')
      else if map_option (fst \<circ> snd) (attempt_parent db t) \<noteq> Some ''attempt_a''
      then Inl (SQLAlchemyError ''Attempt A parent activity kind must be attempt_a'')
      else if map_option (snd \<circ> snd) (attempt_parent db t) \<noteq> Some (at_prompt t)
      then Inl (SQLAlchemyError ''Attempt B must use the same prompt as Attempt A'')
      else Inr ())"

definition insert_attempt ::
    "attempt \<Rightarrow> study_db \<Rightarrow> (study_error, study_db \<times> attempt) result" where
  "insert_attempt t0 db =
     (let t = t0\<lparr>at_id := db_next_id db\<rparr>
      in bind_result (validate_attempt_workflow db t) (\<lambda>_.
         bind_result (guard_attempt_insert db t) (\<lambda>_.
         bind_result
           (ensure (attempt_checks t
              \<and> \<not> list_ex (\<lambda>u. at_owner_id u = at_owner_id t
                    \<and> at_activity_instance_id u = at_activity_instance_id t
                    \<and> at_attempt_kind u = at_attempt_kind t) (db_attempts db))
              (SQLAlchemyError ''attempts'')) (\<lambda>_.
         Inr (db\<lparr>db_attempts := db_attempts db @ [t], db_next_id := db_next_id db + 1\<rparr>, t)))))"

text \<open>
  An artifact row always stores the constant \<^verbatim>\<open>unencrypted_metadata()\<close>, so the two constraints
  on that column are left out. \<^verbatim>\<open>[[:cntrl:]]\<close> is read as in the C locale.
\<close>

definition unencrypted_metadata :: json where
  "unencrypted_metadata = JObj [(''schema_version'', JInt 1), (''encrypted'', JBool False),
     (''algorithm'', JNull), (''key_reference'', JNull)]"

definition is_scheme_char :: "char \<Rightarrow> bool" where
  "is_scheme_char c \<longleftrightarrow> is_lower c \<or> is_digit c \<or> c \<in> {CHR ''+'', CHR ''.'', CHR ''-''}"

definition url_like :: "string \<Rightarrow> bool" where
  "url_like s \<longleftrightarrow> s \<noteq> [] \<and> is_lower (hd s)
     \<and> take 3 (dropWhile is_scheme_char s) = ''://''"

definition artifact_checks :: "artifact \<Rightarrow> bool" where
  "artifact_checks a \<longleftrightarrow>
     filled 1024 (ar_object_key a) \<and> \<not> url_like (ar_object_key a)
     \<and> ''..'' \<notin> set (split_slash (ar_object_key a)) \<and> \<not> list_ex is_control (ar_object_key a)
     \<and> length (ar_content_hash a) = 64
     \<and> content_type_shape (ar_content_type a) \<and> utf8_size (ar_content_type a) \<le> 128
     \<and> filled 512 (ar_original_filename a)
     \<and> list_all (\<lambda>c. c \<noteq> CHR ''/'' \<and> c \<noteq> CHR 0x5C \<and> \<not> is_control c) (ar_original_filename a)
     \<and> 0 \<le> ar_byte_size a
     \<and> ar_artifact_class a \<in> ARTIFACT_CLASSES
     \<and> 0 < ar_immutable_version a
     \<and> ar_derived_from_artifact_id a \<noteq> Some (ar_id a)"

definition insert_artifact ::
    "artifact \<Rightarrow> study_db \<Rightarrow> (study_error, study_db \<times> artifact) result" where
  "insert_artifact a0 db =
     (let a = a0\<lparr>ar_id := db_next_id db\<rparr>
      in bind_result
           (ensure (artifact_checks a \<and> ar_owner_id a \<in> set (db_owners db)
              \<and> \<not> list_ex (\<lambda>u. ar_owner_id u = ar_owner_id a
                    \<and> (ar_object_key u = ar_object_key a \<or> ar_content_hash u = ar_content_hash a))
                  (db_artifacts db))
              (SQLAlchemyError ''artifacts'')) (\<lambda>_.
         Inr (db\<lparr>db_artifacts := db_artifacts db @ [a], db_next_id := db_next_id db + 1\<rparr>, a)))"

definition link_fields :: "artifact_link \<Rightarrow> int \<times> int \<times> int option \<times> int \<times> string" where
  "link_fields l = (al_owner_id l, al_activity_instance_id l, al_attempt_id l, al_artifact_id l,
     al_link_role l)"

definition link_checks :: "study_db \<Rightarrow> artifact_link \<Rightarrow> bool" where
  "link_checks db l \<longleftrightarrow>
     al_link_role l \<in> LINK_ROLES
     \<and> owned_activity db (al_owner_id l) (al_activity_instance_id l)
     \<and> null_or (\<lambda>i. list_ex (\<lambda>p. at_owner_id p = al_owner_id l
           \<and> at_activity_instance_id p = al_activity_instance_id l \<and> at_id p = i) (db_attempts db))
         (al_attempt_id l)
     \<and> list_ex (\<lambda>a. ar_owner_id a = al_owner_id l \<and> ar_id a = al_artifact_id l) (db_artifacts db)
     \<and> link_fields l \<notin> set (map link_fields (db_links db))"

definition insert_link :: "artifact_link \<Rightarrow> study_db \<Rightarrow> (study_error, study_db) result" where
  "insert_link l0 db =
     (let l = l0\<lparr>al_id := db_next_id db\<rparr>
      in bind_result (ensure (link_checks db l) (SQLAlchemyError ''activity_artifact_links'')) (\<lambda>_.
         Inr (db\<lparr>db_links := db_links db @ [l], db_next_id := db_next_id db + 1\<rparr>)))"

definition review_checks :: "self_review \<Rightarrow> bool" where
  "review_checks r \<longleftrightarrow>
     list_all (filled 8192) [sr_main_answer r, sr_did_well r, sr_structure_weakness r,
       sr_vague_points r, sr_hesitation_points r, sr_change_next r]
     \<and> 0 \<le> sr_self_score r \<and> sr_self_score r \<le> 4"

definition review_fields :: "self_review \<Rightarrow> int \<times> int \<times> int" where
  "review_fields r = (sr_owner_id r, sr_activity_instance_id r, sr_attempt_id r)"

definition insert_review ::
    "self_review \<Rightarrow> study_db \<Rightarrow> (study_error, study_db \<times> self_review) result" where
  "insert_review r0 db =
     (let r = r0\<lparr>sr_id := db_next_id db\<rparr>
      in bind_result
           (ensure (review_checks r
              \<and> list_ex (\<lambda>p. review_fields r = (at_owner_id p, at_activity_instance_id p, at_id p))
                  (db_attempts db)
              \<and> review_fields r \<notin> set (map review_fields (db_reviews db)))
              (SQLAlchemyError ''self_reviews'')) (\<lambda>_.
         Inr (db\<lparr>db_reviews := db_reviews db @ [r], db_next_id := db_next_id db + 1\<rparr>, r)))"

section \<open>Receipts\<close>

definition receipt_key :: "command_receipt \<Rightarrow> int \<times> string \<times> string" where
  "receipt_key r = (cr_owner_id r, cr_command_scope r, cr_idempotency_key r)"

definition receipt_checks :: "command_receipt \<Rightarrow> bool" where
  "receipt_checks r \<longleftrightarrow>
     \<not> btrim_empty (cr_command_scope r) \<and> \<not> btrim_empty (cr_idempotency_key r)
     \<and> length (cr_request_hash r) = 64 \<and> \<not> btrim_empty (cr_status r)
     \<and> cr_created_at r < cr_expires_at r"

definition insert_receipt :: "command_receipt \<Rightarrow> study_db \<Rightarrow> (study_error, study_db) result" where
  "insert_receipt r0 db =
     (let r = r0\<lparr>cr_id := db_next_id db\<rparr>
      in bind_result
           (ensure (receipt_checks r \<and> cr_owner_id r \<in> set (db_owners db)
              \<and> receipt_key r \<notin> set (map receipt_key (db_receipts db)))
              (SQLAlchemyError ''command_receipts'')) (\<lambda>_.
         Inr (db\<lparr>db_receipts := db_receipts db @ [r], db_next_id := db_next_id db + 1\<rparr>)))"

section \<open>What a flush does\<close>

named_theorems flush_simps \<open>when a flush is accepted, and the database it leaves\<close>

lemma flush_day_Inr [flush_simps]:
  "flush_day old t db = Inr db' \<longleftrightarrow>
     validate_study_day_workflow old t = Inr ()
     \<and> (t = old \<and> db' = db
        \<or> t \<noteq> old \<and> guard_study_day_update old t = Inr () \<and> day_checks t
          \<and> db' = db\<lparr>db_days := put_row sd_id t (db_days db)\<rparr>)"
  by (auto simp: flush_day_def result_simps)

lemma flush_activity_Inr [flush_simps]:
  "flush_activity old t db = Inr db' \<longleftrightarrow>
     validate_activity_workflow old t = Inr () \<and> guard_activity_update old t = Inr ()
     \<and> activity_checks t
     \<and> null_or (owned_activity db (ai_owner_id t)) (ai_stronger_evidence_activity_id t)
     \<and> db' = db\<lparr>db_activities := put_row ai_id t (db_activities db)\<rparr>"
  by (auto simp: flush_activity_def result_simps)

lemma flush_timer_Inr [flush_simps]:
  "flush_timer old t db = Inr db' \<longleftrightarrow>
     validate_timer_workflow old t = Inr () \<and> guard_timer_update old t = Inr () \<and> timer_checks t
     \<and> db' = db\<lparr>db_timers := put_row ts_id t (db_timers db)\<rparr>"
  by (auto simp: flush_timer_def result_simps)

lemma insert_timer_Inr [flush_simps]:
  "insert_timer t0 db = Inr (db', t) \<longleftrightarrow>
     t = t0\<lparr>ts_id := db_next_id db\<rparr> \<and> timer_checks t
     \<and> owned_activity db (ts_owner_id t) (ts_activity_instance_id t)
     \<and> \<not> list_ex (\<lambda>u. ts_owner_id u = ts_owner_id t
           \<and> ts_idempotency_key u = ts_idempotency_key t) (db_timers db)
     \<and> \<not> (ts_ended_at t = None
          \<and> list_ex (open_timer_of (ts_activity_instance_id t)) (db_timers db))
     \<and> db' = db\<lparr>db_timers := db_timers db @ [t], db_next_id := db_next_id db + 1\<rparr>"
  by (auto simp: insert_timer_def Let_def result_simps)

lemma insert_attempt_Inr [flush_simps]:
  "insert_attempt t0 db = Inr (db', t) \<longleftrightarrow>
     t = t0\<lparr>at_id := db_next_id db\<rparr> \<and> validate_attempt_workflow db t = Inr ()
     \<and> guard_attempt_insert db t = Inr () \<and> attempt_checks t
     \<and> \<not> list_ex (\<lambda>u. at_owner_id u = at_owner_id t
           \<and> at_activity_instance_id u = at_activity_instance_id t
           \<and> at_attempt_kind u = at_attempt_kind t) (db_attempts db)
     \<and> db' = db\<lparr>db_attempts := db_attempts db @ [t], db_next_id := db_next_id db + 1\<rparr>"
  by (auto simp: insert_attempt_def Let_def result_simps)

lemma insert_artifact_Inr [flush_simps]:
  "insert_artifact a0 db = Inr (db', a) \<longleftrightarrow>
     a = a0\<lparr>ar_id := db_next_id db\<rparr> \<and> artifact_checks a \<and> ar_owner_id a \<in> set (db_owners db)
     \<and> \<not> list_ex (\<lambda>u. ar_owner_id u = ar_owner_id a
           \<and> (ar_object_key u = ar_object_key a \<or> ar_content_hash u = ar_content_hash a))
         (db_artifacts db)
     \<and> db' = db\<lparr>db_artifacts := db_artifacts db @ [a], db_next_id := db_next_id db + 1\<rparr>"
  by (auto simp: insert_artifact_def Let_def result_simps)

lemma insert_link_Inr [flush_simps]:
  "insert_link l0 db = Inr db' \<longleftrightarrow>
     link_checks db (l0\<lparr>al_id := db_next_id db\<rparr>)
     \<and> db' = db\<lparr>db_links := db_links db @ [l0\<lparr>al_id := db_next_id db\<rparr>],
               db_next_id := db_next_id db + 1\<rparr>"
  by (auto simp: insert_link_def Let_def result_simps)

lemma insert_review_Inr [flush_simps]:
  "insert_review r0 db = Inr (db', r) \<longleftrightarrow>
     r = r0\<lparr>sr_id := db_next_id db\<rparr> \<and> review_checks r
     \<and> list_ex (\<lambda>p. review_fields r = (at_owner_id p, at_activity_instance_id p, at_id p))
         (db_attempts db)
     \<and> review_fields r \<notin> set (map review_fields (db_reviews db))
     \<and> db' = db\<lparr>db_reviews := db_reviews db @ [r], db_next_id := db_next_id db + 1\<rparr>"
  by (auto simp: insert_review_def Let_def result_simps)

lemma insert_receipt_Inr [flush_simps]:
  "insert_receipt r0 db = Inr db' \<longleftrightarrow>
     receipt_checks (r0\<lparr>cr_id := db_next_id db\<rparr>) \<and> cr_owner_id r0 \<in> set (db_owners db)
     \<and> receipt_key r0 \<notin> set (map receipt_key (db_receipts db))
     \<and> db' = db\<lparr>db_receipts := db_receipts db @ [r0\<lparr>cr_id := db_next_id db\<rparr>],
               db_next_id := db_next_id db + 1\<rparr>"
  by (auto simp: insert_receipt_def Let_def result_simps receipt_key_def)

end
