(* ===== verification/Study_Service.thy ===== *)
theory Study_Service
  imports Study_Rows
begin

text \<open>
  The activity commands of \<^verbatim>\<open>learning/service.py\<close>. A command is one transaction: it returns the
  new database and the response, or raises and leaves the database as it was. What the service
  receives from outside is an argument: the hash, pydantic's reading of a raw payload, the object
  store, and the readings of the clock in the order the command takes them. In one flush the
  rows are written in the order day, activity, timer; another order changes at most which of
  several errors is reported.
\<close>

section \<open>What the service is given\<close>

record store_port =
  sp_stat :: "string \<Rightarrow> (object_error, stored_object option) result"
  sp_presign_put :: "presign_put_request \<Rightarrow> (object_error, presigned_request) result"

record services =
  sv_sha :: "string \<Rightarrow> string"
  sv_parse :: "json \<Rightarrow> output_payload"
  sv_lax_int :: "json \<Rightarrow> int option"
  sv_store :: "store_port option"
  sv_clock :: "nat \<Rightarrow> datetime"

text \<open>\<^verbatim>\<open>except SQLAlchemyError: raise ActivityUnavailable\<close>.\<close>

fun storage_guard :: "(study_error, 'a) result \<Rightarrow> (study_error, 'a) result" where
  "storage_guard (Inl (SQLAlchemyError m)) =
     Inl (ActivityUnavailable ''activity storage is unavailable'')"
| "storage_guard r = r"

definition now_of :: "services \<Rightarrow> nat \<Rightarrow> (study_error, instant) result" where
  "now_of sv k =
     (case sv_clock sv k of
        Naive w \<Rightarrow> Inl (ActivityInvalidRequest ''server clock must be timezone-aware'')
      | Aware w off \<Rightarrow> Inr (instant_of (Aware w off)))"

text \<open>\<^verbatim>\<open>scalar_one_or_none\<close> raises when the query has several rows.\<close>

fun one_or_none :: "'a list \<Rightarrow> (study_error, 'a option) result" where
  "one_or_none [] = Inr None"
| "one_or_none [x] = Inr (Some x)"
| "one_or_none _ = Inl (SQLAlchemyError ''multiple rows'')"

section \<open>Loading and deciding\<close>

record locked_activity =
  lk_activity :: activity_instance
  lk_day :: study_day
  lk_definition :: task_definition

definition load_activity :: "study_db \<Rightarrow> int \<Rightarrow> int \<Rightarrow> (study_error, locked_activity) result" where
  "load_activity db owner_id activity_id =
     (case activity_of db owner_id activity_id of
        None \<Rightarrow> Inl (ActivityNotFound ''activity was not found'')
      | Some a \<Rightarrow>
          (case find (\<lambda>d. sd_owner_id d = ai_owner_id a \<and> sd_id d = ai_study_day_id a) (db_days db) of
             None \<Rightarrow> Inl (ActivityNotFound ''activity was not found'')
           | Some d \<Rightarrow>
               (case find (\<lambda>f. df_owner_id f = ai_owner_id a \<and> df_id f = ai_task_definition_id a)
                       (db_definitions db) of
                  None \<Rightarrow> Inl (ActivityNotFound ''activity was not found'')
                | Some f \<Rightarrow> Inr \<lparr>lk_activity = a, lk_day = d, lk_definition = f\<rparr>)))"

definition decide_transition ::
    "locked_activity \<Rightarrow> activity_state \<Rightarrow> int \<Rightarrow> (study_error, transition_decision) result" where
  "decide_transition row target expected_version =
     (case transition (ai_state (lk_activity row)) target (ai_optimistic_version (lk_activity row))
             expected_version (sd_day_type (lk_day row)) (sd_status (lk_day row)) of
        Inl (ActivityStateError m) \<Rightarrow> Inl (ActivityConflict m)
      | Inl _ \<Rightarrow> Inl (ActivityConflict ''invalid activity state transition'')
      | Inr d \<Rightarrow> Inr d)"

definition require_version_and_state ::
    "locked_activity \<Rightarrow> int \<Rightarrow> activity_state list \<Rightarrow> (study_error, unit) result" where
  "require_version_and_state row expected_version allowed_states =
     (if ai_optimistic_version (lk_activity row) \<noteq> expected_version
      then Inl (ActivityConflict ''stale activity version'')
      else if ai_state (lk_activity row) \<notin> set allowed_states
      then Inl (ActivityConflict ''activity state does not allow this command'')
      else Inr ())"

definition open_timer ::
    "study_db \<Rightarrow> activity_instance \<Rightarrow> (study_error, timer_session option) result" where
  "open_timer db a =
     one_or_none (filter (\<lambda>t. ts_owner_id t = ai_owner_id a \<and> open_timer_of (ai_id a) t)
       (db_timers db))"

definition timer_on_day :: "study_db \<Rightarrow> int \<Rightarrow> int \<Rightarrow> timer_session \<Rightarrow> bool" where
  "timer_on_day db ow day t \<longleftrightarrow>
     list_ex (\<lambda>a. ai_owner_id a = ts_owner_id t \<and> ai_id a = ts_activity_instance_id t
        \<and> ai_owner_id a = ow \<and> ai_study_day_id a = day) (db_activities db)"

definition day_seconds :: "study_db \<Rightarrow> locked_activity \<Rightarrow> int" where
  "day_seconds db row =
     sum_list (map ts_counted_seconds
       (filter (timer_on_day db (ai_owner_id (lk_activity row)) (sd_id (lk_day row)))
          (db_timers db)))"

definition activity_seconds :: "study_db \<Rightarrow> activity_instance \<Rightarrow> int" where
  "activity_seconds db a =
     sum_list (map ts_counted_seconds
       (filter (\<lambda>t. ts_owner_id t = ai_owner_id a \<and> ts_activity_instance_id t = ai_id a)
          (db_timers db)))"

definition maximum_minutes_of :: "study_day \<Rightarrow> int" where
  "maximum_minutes_of d = (if sd_day_type d = ''saturday'' then 120 else 255)"

definition timer_state_of :: "timer_session \<Rightarrow> timer_state" where
  "timer_state_of t =
     \<lparr>started_at = Aware (ts_started_at t) 0, last_heartbeat_at = Aware (ts_last_heartbeat_at t) 0,
      counted_seconds = ts_counted_seconds t, last_client_sequence = ts_last_client_sequence t,
      paused_at = map_option (\<lambda>i. Aware i 0) (ts_paused_at t),
      ended_at = map_option (\<lambda>i. Aware i 0) (ts_ended_at t)\<rparr>"

definition apply_timer_heartbeat ::
    "study_db \<Rightarrow> locked_activity \<Rightarrow> timer_session \<Rightarrow> int \<Rightarrow> instant
      \<Rightarrow> (study_error, study_db \<times> timer_session \<times> study_day) result" where
  "apply_timer_heartbeat db row timer client_sequence server_now =
     (let maximum_seconds = maximum_minutes_of (lk_day row) * 60
      in case apply_heartbeat (timer_state_of timer) (Aware server_now 0) client_sequence
                (day_seconds db row) MAX_HEARTBEAT_GAP_SECONDS maximum_seconds of
           Inl (TimerPolicyError m) \<Rightarrow> Inl (ActivityConflict m)
         | Inl _ \<Rightarrow> Inl (PydanticError ''naive timestamp'')
         | Inr decision \<Rightarrow>
             (let timer' = timer
                    \<lparr>ts_last_heartbeat_at := instant_of (last_heartbeat_at (hd_timer decision)),
                     ts_counted_seconds := counted_seconds (hd_timer decision),
                     ts_last_client_sequence := last_client_sequence (hd_timer decision)\<rparr>
              in bind_result (flush_timer timer timer' db) (\<lambda>db'.
                 Inr (db', timer',
                   (lk_day row)\<lparr>sd_focused_minutes :=
                      min (maximum_seconds div 60) (hd_day_counted_seconds decision div 60)\<rparr>))))"

definition timer_response_of :: "timer_session \<Rightarrow> timer_response" where
  "timer_response_of t =
     \<lparr>tr_id = ts_id t, tr_started_at = ts_started_at t, tr_last_heartbeat_at = ts_last_heartbeat_at t,
      tr_counted_seconds = ts_counted_seconds t,
      tr_last_client_sequence = ts_last_client_sequence t\<rparr>"

definition response_of ::
    "study_db \<Rightarrow> activity_instance \<Rightarrow> study_day \<Rightarrow> (study_error, activity_response) result" where
  "response_of db a d =
     bind_result (open_timer db a) (\<lambda>timer.
     if ai_classification a \<notin> set CLASSIFICATIONS
     then Inl (PydanticError ''not a valid IncompleteClassification'')
     else Inr \<lparr>rs_id = ai_id a, rs_study_day_id = sd_id d, rs_state = ai_state a,
       rs_optimistic_version = ai_optimistic_version a, rs_classification = ai_classification a,
       rs_stronger_evidence_id = ai_stronger_evidence_activity_id a,
       rs_activity_focused_seconds = activity_seconds db a,
       rs_day_focused_minutes = sd_focused_minutes d,
       rs_hard_stop_recommended = (maximum_minutes_of d \<le> sd_focused_minutes d),
       rs_open_timer = map_option timer_response_of timer,
       rs_source_hidden = ai_source_hidden a\<rparr>)"

section \<open>Receipts\<close>

definition request_hash :: "services \<Rightarrow> json list \<Rightarrow> string" where
  "request_hash sv values = sv_sha sv (dumps True (JArr values))"

definition duplicate_as ::
    "study_db \<Rightarrow> int \<Rightarrow> string \<Rightarrow> string \<Rightarrow> string \<Rightarrow> (study_error, result_payload option) result" where
  "duplicate_as db owner_id scope idempotency_key hash =
     bind_result (ensure (safe_key idempotency_key)
        (ActivityInvalidRequest ''Idempotency-Key is invalid'')) (\<lambda>_.
     bind_result (one_or_none
        (filter (\<lambda>r. receipt_key r = (owner_id, scope, idempotency_key)) (db_receipts db))) (\<lambda>found.
     case found of
       None \<Rightarrow> Inr None
     | Some r \<Rightarrow>
         if cr_request_hash r \<noteq> hash
         then Inl (ActivityConflict ''Idempotency-Key was reused for another command'')
         else Inr (Some (cr_result_payload r))))"

text \<open>Reading a receipt back at the type of the command's response.\<close>

fun activity_result :: "result_payload \<Rightarrow> (study_error, activity_response) result" where
  "activity_result (Activity_payload r) = Inr r"
| "activity_result _ = Inl (PydanticError ''ActivityResponse'')"

fun detail_result :: "result_payload \<Rightarrow> (study_error, activity_detail_response) result" where
  "detail_result (Detail_payload r) = Inr r"
| "detail_result _ = Inl (PydanticError ''ActivityDetailResponse'')"

fun intent_result :: "result_payload \<Rightarrow> (study_error, artifact_intent_receipt) result" where
  "intent_result (Intent_payload r) = Inr r"
| "intent_result _ = Inl (PydanticError ''_ArtifactIntentReceipt'')"

fun artifact_result :: "result_payload \<Rightarrow> (study_error, artifact_response) result" where
  "artifact_result (Artifact_payload r) = Inr r"
| "artifact_result _ = Inl (PydanticError ''ArtifactResponse'')"

fun commit_result :: "result_payload \<Rightarrow> (study_error, output_commit_response) result" where
  "commit_result (Commit_payload r) = Inr r"
| "commit_result _ = Inl (PydanticError ''OutputCommitResponse'')"

fun review_result :: "result_payload \<Rightarrow> (study_error, self_review_response) result" where
  "review_result (Review_payload r) = Inr r"
| "review_result _ = Inl (PydanticError ''SelfReviewResponse'')"

text \<open>Return the stored response of an earlier identical command, or run the command.\<close>

definition replay_or ::
    "study_db \<Rightarrow> int \<Rightarrow> string \<Rightarrow> string \<Rightarrow> string \<Rightarrow> (result_payload \<Rightarrow> (study_error, 'a) result)
      \<Rightarrow> (study_error, study_db \<times> 'a) result \<Rightarrow> (study_error, study_db \<times> 'a) result" where
  "replay_or db owner_id scope idempotency_key hash decode body =
     bind_result (duplicate_as db owner_id scope idempotency_key hash) (\<lambda>duplicate.
     case duplicate of
       Some p \<Rightarrow> bind_result (decode p) (\<lambda>r. Inr (db, r))
     | None \<Rightarrow> body)"

definition save_receipt ::
    "services \<Rightarrow> nat \<Rightarrow> int \<Rightarrow> string \<Rightarrow> string \<Rightarrow> string \<Rightarrow> result_payload \<Rightarrow> study_db
      \<Rightarrow> (study_error, study_db) result" where
  "save_receipt sv k owner_id scope idempotency_key hash payload db =
     bind_result (now_of sv k) (\<lambda>now.
     insert_receipt \<lparr>cr_id = 0, cr_owner_id = owner_id, cr_command_scope = scope,
       cr_idempotency_key = idempotency_key, cr_request_hash = hash, cr_status = ''completed'',
       cr_result_payload = payload, cr_created_at = now, cr_expires_at = now + td_days 7\<rparr> db)"

definition lock_owner :: "study_db \<Rightarrow> int \<Rightarrow> (study_error, unit) result" where
  "lock_owner db owner_id =
     ensure (owner_id \<in> set (db_owners db)) (ActivityNotFound ''activity owner was not found'')"

definition assert_timer_key_available :: "study_db \<Rightarrow> int \<Rightarrow> string \<Rightarrow> (study_error, unit) result" where
  "assert_timer_key_available db owner_id idempotency_key =
     bind_result (lock_owner db owner_id) (\<lambda>_.
     ensure (\<not> list_ex (\<lambda>t. ts_owner_id t = owner_id \<and> ts_idempotency_key t = idempotency_key)
                (db_timers db))
       (ActivityConflict ''Idempotency-Key was already used for a timer''))"

definition new_timer :: "int \<Rightarrow> int \<Rightarrow> string \<Rightarrow> timer_state \<Rightarrow> timer_session" where
  "new_timer owner_id activity_id idempotency_key initial =
     \<lparr>ts_id = 0, ts_owner_id = owner_id, ts_activity_instance_id = activity_id,
      ts_idempotency_key = idempotency_key, ts_started_at = instant_of (started_at initial),
      ts_last_heartbeat_at = instant_of (last_heartbeat_at initial), ts_paused_at = None,
      ts_ended_at = None, ts_counted_seconds = 0, ts_last_client_sequence = 0\<rparr>"

text \<open>\<^verbatim>\<open>start_timer(now)\<close> on a reading that \<^verbatim>\<open>_now\<close> has made aware cannot raise.\<close>

definition begin_timer ::
    "int \<Rightarrow> int \<Rightarrow> string \<Rightarrow> instant \<Rightarrow> study_db \<Rightarrow> (study_error, study_db) result" where
  "begin_timer owner_id activity_id idempotency_key now db =
     (case start_timer (Aware now 0) of
        Inl _ \<Rightarrow> Inl (PydanticError ''naive timestamp'')
      | Inr initial \<Rightarrow>
          bind_result (insert_timer (new_timer owner_id activity_id idempotency_key initial) db)
            (\<lambda>(db', t). Inr db'))"

section \<open>Starting, beating, pausing, resuming\<close>

definition start ::
    "services \<Rightarrow> study_db \<Rightarrow> int \<Rightarrow> int \<Rightarrow> int \<Rightarrow> string
      \<Rightarrow> (study_error, study_db \<times> activity_response) result" where
  "start sv db owner_id activity_id expected_version idempotency_key =
     storage_guard (
     bind_result (load_activity db owner_id activity_id) (\<lambda>row.
     let hash = request_hash sv [JStr ''start'', JInt activity_id, JInt expected_version]
     in replay_or db owner_id ''activity.start'' idempotency_key hash activity_result (
     bind_result (assert_timer_key_available db owner_id idempotency_key) (\<lambda>_.
     bind_result (decide_transition row ACTIVE expected_version) (\<lambda>decision.
     bind_result (now_of sv 0) (\<lambda>now.
     bind_result
       (if sd_status (lk_day row) = ''planned''
        then bind_result (set_day_status ''in_progress'' (lk_day row)) (set_day_started_at (Some now))
        else Inr (lk_day row)) (\<lambda>day.
     bind_result (set_activity_state (td_state decision) (lk_activity row)) (\<lambda>moved.
     bind_result (write_once (Some now) (ai_started_at moved)) (\<lambda>_.
     let act = moved\<lparr>ai_started_at := Some now,
                     ai_optimistic_version := td_next_version decision\<rparr>
     in bind_result (flush_day (lk_day row) day db) (\<lambda>db1.
     bind_result (flush_activity (lk_activity row) act db1) (\<lambda>db2.
     bind_result (begin_timer owner_id activity_id idempotency_key now db2) (\<lambda>db3.
     bind_result (response_of db3 act day) (\<lambda>r.
     bind_result (save_receipt sv 1 owner_id ''activity.start'' idempotency_key hash
        (Activity_payload r) db3) (\<lambda>db4.
     Inr (db4, r)))))))))))))))"

definition service_heartbeat ::
    "services \<Rightarrow> study_db \<Rightarrow> int \<Rightarrow> int \<Rightarrow> int \<Rightarrow> int \<Rightarrow> string
      \<Rightarrow> (study_error, study_db \<times> activity_response) result" where
  "service_heartbeat sv db owner_id activity_id expected_version client_sequence idempotency_key =
     storage_guard (
     bind_result (load_activity db owner_id activity_id) (\<lambda>row.
     let hash = request_hash sv
       [JStr ''heartbeat'', JInt activity_id, JInt expected_version, JInt client_sequence]
     in replay_or db owner_id ''activity.heartbeat'' idempotency_key hash activity_result (
     if ai_optimistic_version (lk_activity row) \<noteq> expected_version
     then Inl (ActivityConflict ''stale activity version'')
     else if ai_state (lk_activity row) \<noteq> ACTIVE
     then Inl (ActivityConflict ''activity is not active'')
     else bind_result (open_timer db (lk_activity row)) (\<lambda>found.
     case found of
       None \<Rightarrow> Inl (ActivityConflict ''active activity has no open timer'')
     | Some timer \<Rightarrow>
     bind_result (now_of sv 0) (\<lambda>now.
     bind_result (apply_timer_heartbeat db row timer client_sequence now) (\<lambda>(db1, timer1, day).
     bind_result (response_of db1 (lk_activity row) day) (\<lambda>r.
     bind_result (flush_day (lk_day row) day db1) (\<lambda>db2.
     bind_result (save_receipt sv 1 owner_id ''activity.heartbeat'' idempotency_key hash
        (Activity_payload r) db2) (\<lambda>db3.
     Inr (db3, r))))))))))"

definition pause ::
    "services \<Rightarrow> study_db \<Rightarrow> int \<Rightarrow> int \<Rightarrow> int \<Rightarrow> int \<Rightarrow> string
      \<Rightarrow> (study_error, study_db \<times> activity_response) result" where
  "pause sv db owner_id activity_id expected_version client_sequence idempotency_key =
     storage_guard (
     bind_result (load_activity db owner_id activity_id) (\<lambda>row.
     let hash = request_hash sv
       [JStr ''pause'', JInt activity_id, JInt expected_version, JInt client_sequence]
     in replay_or db owner_id ''activity.pause'' idempotency_key hash activity_result (
     bind_result (decide_transition row PAUSED expected_version) (\<lambda>decision.
     bind_result (open_timer db (lk_activity row)) (\<lambda>found.
     case found of
       None \<Rightarrow> Inl (ActivityConflict ''active activity has no open timer'')
     | Some timer \<Rightarrow>
     bind_result (now_of sv 0) (\<lambda>now.
     bind_result (apply_timer_heartbeat db row timer client_sequence now) (\<lambda>(db1, timer1, day).
     bind_result (set_activity_state (td_state decision) (lk_activity row)) (\<lambda>moved.
     let act = moved\<lparr>ai_optimistic_version := td_next_version decision\<rparr>
     in bind_result (flush_day (lk_day row) day db1) (\<lambda>db2.
     bind_result (flush_activity (lk_activity row) act db2) (\<lambda>db3.
     bind_result (flush_timer timer1 (timer1\<lparr>ts_paused_at := Some now, ts_ended_at := Some now\<rparr>)
        db3) (\<lambda>db4.
     bind_result (response_of db4 act day) (\<lambda>r.
     bind_result (save_receipt sv 1 owner_id ''activity.pause'' idempotency_key hash
        (Activity_payload r) db4) (\<lambda>db5.
     Inr (db5, r))))))))))))))"

definition resume ::
    "services \<Rightarrow> study_db \<Rightarrow> int \<Rightarrow> int \<Rightarrow> int \<Rightarrow> string
      \<Rightarrow> (study_error, study_db \<times> activity_response) result" where
  "resume sv db owner_id activity_id expected_version idempotency_key =
     storage_guard (
     bind_result (load_activity db owner_id activity_id) (\<lambda>row.
     let hash = request_hash sv [JStr ''resume'', JInt activity_id, JInt expected_version]
     in replay_or db owner_id ''activity.resume'' idempotency_key hash activity_result (
     bind_result (assert_timer_key_available db owner_id idempotency_key) (\<lambda>_.
     bind_result (decide_transition row ACTIVE expected_version) (\<lambda>decision.
     bind_result (open_timer db (lk_activity row)) (\<lambda>found.
     if found \<noteq> None
     then Inl (ActivityConflict ''paused activity already has an open timer'')
     else
     bind_result (now_of sv 0) (\<lambda>now.
     bind_result (set_activity_state (td_state decision) (lk_activity row)) (\<lambda>moved.
     let act = moved\<lparr>ai_optimistic_version := td_next_version decision\<rparr>
     in bind_result (flush_activity (lk_activity row) act db) (\<lambda>db1.
     bind_result (begin_timer owner_id activity_id idempotency_key now db1) (\<lambda>db2.
     bind_result (response_of db2 act (lk_day row)) (\<lambda>r.
     bind_result (save_receipt sv 1 owner_id ''activity.resume'' idempotency_key hash
        (Activity_payload r) db2) (\<lambda>db3.
     Inr (db3, r)))))))))))))"

section \<open>Leaving work incomplete\<close>

definition validate_incomplete_evidence ::
    "study_db \<Rightarrow> int \<Rightarrow> int \<Rightarrow> string \<Rightarrow> int option \<Rightarrow> (study_error, unit) result" where
  "validate_incomplete_evidence db owner_id activity_id cls stronger_evidence_id =
     (if (cls = ''superseded'') \<noteq> (stronger_evidence_id \<noteq> None)
      then Inl (ActivityInvalidRequest
             ''superseded incomplete work requires exactly one stronger evidence ID'')
      else case stronger_evidence_id of
             None \<Rightarrow> Inr ()
           | Some e \<Rightarrow>
               if e = activity_id
               then Inl (ActivityInvalidRequest ''activity cannot supersede itself'')
               else ensure (owned_activity db owner_id e)
                      (ActivityInvalidRequest ''stronger evidence activity was not found''))"

definition json_opt :: "int option \<Rightarrow> json" where
  "json_opt x = (case x of None \<Rightarrow> JNull | Some n \<Rightarrow> JInt n)"

text \<open>Ending the open timer, when there is one: the last heartbeat is the server's own.\<close>

definition classify_incomplete ::
    "services \<Rightarrow> study_db \<Rightarrow> int \<Rightarrow> int \<Rightarrow> int \<Rightarrow> string \<Rightarrow> int option \<Rightarrow> string
      \<Rightarrow> (study_error, study_db \<times> activity_response) result" where
  "classify_incomplete sv db owner_id activity_id expected_version cls stronger_evidence_id
       idempotency_key =
     storage_guard (
     bind_result (load_activity db owner_id activity_id) (\<lambda>row.
     let hash = request_hash sv [JStr ''classify-incomplete'', JInt activity_id,
       JInt expected_version, JStr cls, json_opt stronger_evidence_id]
     in replay_or db owner_id ''activity.classify-incomplete'' idempotency_key hash activity_result (
     bind_result (validate_incomplete_evidence db owner_id activity_id cls stronger_evidence_id) (\<lambda>_.
     bind_result (decide_transition row INCOMPLETE expected_version) (\<lambda>decision.
     bind_result (open_timer db (lk_activity row)) (\<lambda>found.
     bind_result (now_of sv 0) (\<lambda>now.
     bind_result
       (case found of
          None \<Rightarrow> Inr (db, None, lk_day row)
        | Some timer \<Rightarrow>
            bind_result (apply_timer_heartbeat db row timer (ts_last_client_sequence timer + 1) now)
              (\<lambda>(db1, timer1, day). Inr (db1, Some timer1, day))) (\<lambda>(db1, ended, day).
     bind_result (write_once (Some now) (ai_completed_at (lk_activity row))) (\<lambda>_.
     bind_result (set_activity_state (td_state decision) (lk_activity row)) (\<lambda>moved.
     let act = moved\<lparr>ai_classification := cls,
                     ai_stronger_evidence_activity_id := stronger_evidence_id,
                     ai_completed_at := Some now,
                     ai_optimistic_version := td_next_version decision\<rparr>
     in bind_result (flush_day (lk_day row) day db1) (\<lambda>db2.
     bind_result (flush_activity (lk_activity row) act db2) (\<lambda>db3.
     bind_result
       (case ended of
          None \<Rightarrow> Inr db3
        | Some timer1 \<Rightarrow> flush_timer timer1 (timer1\<lparr>ts_ended_at := Some now\<rparr>) db3) (\<lambda>db4.
     bind_result (response_of db4 act day) (\<lambda>r.
     bind_result (save_receipt sv 1 owner_id ''activity.classify-incomplete'' idempotency_key hash
        (Activity_payload r) db4) (\<lambda>db5.
     Inr (db5, r))))))))))))))))"

end
