(* ===== verification/Study_Outputs.thy ===== *)
theory Study_Outputs
  imports Study_Service
begin

text \<open>
  The second half of \<^verbatim>\<open>learning/service.py\<close>: the detailed view of an activity, uploads and
  their confirmation, the visibility of the source, the commitment of an output as an immutable
  attempt, and the self review.
\<close>

section \<open>The task contract and the detailed response\<close>

definition bounded_string :: "int \<Rightarrow> int \<Rightarrow> string \<Rightarrow> bool" where
  "bounded_string low high s \<longleftrightarrow> low \<le> int (length s) \<and> int (length s) \<le> high"

fun json_string :: "json \<Rightarrow> string option" where
  "json_string (JStr s) = Some s"
| "json_string _ = None"

fun is_object :: "json \<Rightarrow> bool" where
  "is_object (JObj kvs) = True"
| "is_object _ = False"

fun string_list :: "json list \<Rightarrow> string list option" where
  "string_list [] = Some []"
| "string_list (JStr s # js) = map_option (\<lambda>ss. s # ss) (string_list js)"
| "string_list (_ # js) = None"

definition string_items :: "json \<Rightarrow> string \<Rightarrow> (study_error, string list) result" where
  "string_items payload field =
     (if \<not> is_object payload then Inl (ActivityConflict ''stored task contract is invalid'')
      else case json_get payload field of
             Some (JArr js) \<Rightarrow>
               (case string_list js of
                  None \<Rightarrow> Inl (ActivityConflict ''stored task contract is invalid'')
                | Some ss \<Rightarrow> Inr ss)
           | _ \<Rightarrow> Inl (ActivityConflict ''stored task contract is invalid''))"

text \<open>One source reference: a missing heading and a null heading both mean no anchor.\<close>

definition source_reference :: "json \<Rightarrow> (study_error, string \<times> string option) result" where
  "source_reference j =
     (case json_get j ''path'' of
        Some (JStr path) \<Rightarrow>
          bind_result
            (case json_get j ''heading'' of
               None \<Rightarrow> Inr None
             | Some JNull \<Rightarrow> Inr None
             | Some (JStr h) \<Rightarrow> Inr (Some h)
             | Some _ \<Rightarrow> Inl (ActivityConflict ''stored task source reference is invalid'')) (\<lambda>anchor.
          if bounded_string 1 2048 path \<and> null_or (bounded_string 0 512) anchor
          then Inr (path, anchor) else Inl (PydanticError ''ActivitySourceReference''))
      | _ \<Rightarrow> Inl (ActivityConflict ''stored task source reference is invalid''))"

definition procedure_step_of :: "services \<Rightarrow> json \<Rightarrow> (study_error, procedure_step) result" where
  "procedure_step_of sv j =
     (case j of
        JObj kvs \<Rightarrow>
          (case (json_get j ''phase'', json_get j ''requirement'') of
             (Some (JStr phase), Some (JStr requirement)) \<Rightarrow>
               (let minutes = (case json_get j ''minutes'' of
                      None \<Rightarrow> Some None
                    | Some JNull \<Rightarrow> Some None
                    | Some v \<Rightarrow> map_option Some (sv_lax_int sv v))
                in case minutes of
                     Some m \<Rightarrow>
                       if list_all (\<lambda>k. k \<in> {''phase'', ''minutes'', ''requirement''}) (map fst kvs)
                          \<and> bounded_string 1 256 phase \<and> bounded_string 1 2048 requirement
                          \<and> null_or (\<lambda>n. 0 < n \<and> n \<le> 255) m
                       then Inr \<lparr>st_phase = phase, st_minutes = m, st_requirement = requirement\<rparr>
                       else Inl (ActivityConflict ''stored task procedure is invalid'')
                   | None \<Rightarrow> Inl (ActivityConflict ''stored task procedure is invalid''))
           | _ \<Rightarrow> Inl (ActivityConflict ''stored task procedure is invalid''))
      | _ \<Rightarrow> Inl (ActivityConflict ''stored task procedure is invalid''))"

definition ACTIVITY_BLOCKS :: "string list" where
  "ACTIVITY_BLOCKS = [''sql'', ''technical_learning'', ''career_pipeline'', ''correction_warmup'',
     ''tam_case'', ''communication_spoken'', ''daily_close'', ''saturday_assessment'']"

definition ACTIVITY_AI_ROLES :: "string list" where
  "ACTIVITY_AI_ROLES =
     [''none'', ''planner'', ''tutor'', ''coach'', ''interviewer'', ''reviewer'', ''analyst'']"

definition task_contract_ok :: "task_contract \<Rightarrow> bool" where
  "task_contract_ok c \<longleftrightarrow>
     bounded_string 1 192 (tk_stable_id c) \<and> tk_block c \<in> set ACTIVITY_BLOCKS
     \<and> bounded_string 1 4096 (tk_objective c)
     \<and> 0 < tk_timebox_minutes c \<and> tk_timebox_minutes c \<le> 255
     \<and> length (tk_source_references c) \<le> 256 \<and> length (tk_required_output c) \<le> 256
     \<and> length (tk_pass_criteria c) \<le> 256 \<and> length (tk_evidence_requirements c) \<le> 256
     \<and> tk_allowed_ai_role c \<in> set ACTIVITY_AI_ROLES
     \<and> length (tk_procedure c) \<le> 64 \<and> length (tk_constraints c) \<le> 256
     \<and> null_or (bounded_string 0 64) (tk_exercise_type c)
     \<and> null_or (bounded_string 0 64) (tk_mapping_version c)"

definition task_contract_response ::
    "services \<Rightarrow> task_definition \<Rightarrow> (study_error, task_contract) result" where
  "task_contract_response sv f =
     bind_result (map_result source_reference (df_source_references f)) (\<lambda>references.
     if \<not> is_object (df_output_contract f)
     then Inl (ActivityConflict ''stored task output contract is invalid'')
     else bind_result
       (case json_get (df_output_contract f) ''procedure'' of
          Some (JArr js) \<Rightarrow> map_result (procedure_step_of sv) js
        | _ \<Rightarrow> Inl (ActivityConflict ''stored task output contract is invalid'')) (\<lambda>procedure.
     bind_result (string_items (df_output_contract f) ''items'') (\<lambda>required_output.
     bind_result (string_items (df_pass_contract f) ''items'') (\<lambda>pass_criteria.
     bind_result (string_items (df_evidence_contract f) ''items'') (\<lambda>evidence_requirements.
     bind_result (string_items (df_output_contract f) ''constraints'') (\<lambda>constraints.
     let c = \<lparr>tk_stable_id = df_stable_id f, tk_block = df_block f, tk_objective = df_objective f,
        tk_timebox_minutes = df_timebox_minutes f, tk_required = df_required f,
        tk_source_references = references, tk_required_output = required_output,
        tk_pass_criteria = pass_criteria, tk_evidence_requirements = evidence_requirements,
        tk_allowed_ai_role = df_allowed_ai_role f, tk_procedure = procedure,
        tk_constraints = constraints, tk_exercise_type = df_exercise_type f,
        tk_mapping_version = df_mapping_version f\<rparr>
     in if task_contract_ok c then Inr c else Inl (PydanticError ''ActivityTaskContract'')))))))"

definition attempt_for_activity ::
    "study_db \<Rightarrow> int \<Rightarrow> int \<Rightarrow> (study_error, attempt option) result" where
  "attempt_for_activity db owner_id activity_id =
     one_or_none (filter (\<lambda>p. at_owner_id p = owner_id \<and> at_activity_instance_id p = activity_id)
       (db_attempts db))"

definition committed_summary ::
    "study_db \<Rightarrow> activity_instance \<Rightarrow> attempt \<Rightarrow> (study_error, committed_output_summary) result" where
  "committed_summary db a p =
     (case loads (coalesce (at_original_text p) []) of
        Some (JObj kvs) \<Rightarrow>
          Inr \<lparr>cs_attempt_id = at_id p, cs_attempt_kind = at_attempt_kind p,
               cs_commitment_sha256 = at_commitment_hash p, cs_contract_payload = JObj kvs,
               cs_artifact_ids = sort (map al_artifact_id
                 (filter (\<lambda>l. al_owner_id l = ai_owner_id a
                      \<and> al_activity_instance_id l = ai_id a \<and> al_attempt_id l = Some (at_id p))
                   (db_links db))),
               cs_committed_at = at_committed_at p\<rparr>
      | _ \<Rightarrow> Inl (ActivityConflict ''committed output snapshot is invalid''))"

definition detail_response_of ::
    "services \<Rightarrow> study_db \<Rightarrow> activity_instance \<Rightarrow> study_day \<Rightarrow> task_definition
      \<Rightarrow> (study_error, activity_detail_response) result" where
  "detail_response_of sv db a d f =
     bind_result (response_of db a d) (\<lambda>base.
     bind_result (attempt_for_activity db (ai_owner_id a) (ai_id a)) (\<lambda>found.
     bind_result
       (case found of
          None \<Rightarrow> Inr (None, None)
        | Some p \<Rightarrow>
            bind_result (committed_summary db a p) (\<lambda>committed.
            bind_result (one_or_none (filter
               (\<lambda>r. review_fields r = (ai_owner_id a, ai_id a, at_id p)) (db_reviews db))) (\<lambda>review.
            Inr (Some committed, review)))) (\<lambda>(committed, review).
     bind_result (task_contract_response sv f) (\<lambda>contract.
     Inr \<lparr>dr_activity = base, dr_task_contract = contract, dr_committed_output = committed,
          dr_self_review = review\<rparr>))))"

definition get_activity ::
    "services \<Rightarrow> study_db \<Rightarrow> int \<Rightarrow> int \<Rightarrow> (study_error, activity_detail_response) result" where
  "get_activity sv db owner_id activity_id =
     storage_guard (
     bind_result (load_activity db owner_id activity_id) (\<lambda>row.
     detail_response_of sv db (lk_activity row) (lk_day row) (lk_definition row)))"

definition set_source_visibility ::
    "services \<Rightarrow> study_db \<Rightarrow> int \<Rightarrow> int \<Rightarrow> int \<Rightarrow> bool \<Rightarrow> string
      \<Rightarrow> (study_error, study_db \<times> activity_detail_response) result" where
  "set_source_visibility sv db owner_id activity_id expected_version hidden idempotency_key =
     storage_guard (
     bind_result (load_activity db owner_id activity_id) (\<lambda>row.
     let hash = request_hash sv
       [JStr ''source-visibility'', JInt activity_id, JInt expected_version, JBool hidden]
     in replay_or db owner_id ''activity.source-visibility'' idempotency_key hash detail_result (
     bind_result (require_version_and_state row expected_version [READY, ACTIVE, PAUSED]) (\<lambda>_.
     bind_result
       (if ai_source_hidden (lk_activity row) \<noteq> hidden
        then let act = (lk_activity row)\<lparr>ai_source_hidden := hidden,
                   ai_optimistic_version := ai_optimistic_version (lk_activity row) + 1\<rparr>
             in bind_result (flush_activity (lk_activity row) act db) (\<lambda>db1. Inr (db1, act))
        else Inr (db, lk_activity row)) (\<lambda>(db1, act).
     bind_result (detail_response_of sv db1 act (lk_day row) (lk_definition row)) (\<lambda>r.
     bind_result (save_receipt sv 0 owner_id ''activity.source-visibility'' idempotency_key hash
        (Detail_payload r) db1) (\<lambda>db2.
     Inr (db2, r))))))))"

section \<open>Uploads\<close>

definition require_object_store :: "services \<Rightarrow> (study_error, store_port) result" where
  "require_object_store sv =
     (case sv_store sv of
        None \<Rightarrow> Inl (ActivityUnavailable ''private object storage is unavailable'')
      | Some st \<Rightarrow> Inr st)"

text \<open>
  \<^verbatim>\<open>except ArtifactValidationError\<close> turns the message into the given command error; an exception
  of the storage layer is none and passes.
\<close>

fun artifact_guard ::
    "(string \<Rightarrow> study_error) \<Rightarrow> (artifact_error, 'a) result \<Rightarrow> (study_error, 'a) result" where
  "artifact_guard f (Inl (ArtifactValidationError m)) = Inl (f m)"
| "artifact_guard f (Inl (Storage_error e)) = Inl (ObjectStoreError e)"
| "artifact_guard f (Inr a) = Inr a"

text \<open>\<^verbatim>\<open>except ObjectStoreError\<close>; the checks of a presigned request raise \<^verbatim>\<open>ValueError\<close> instead.\<close>

fun store_guard :: "(object_error, 'a) result \<Rightarrow> (study_error, 'a) result" where
  "store_guard (Inl (PresignValueError m)) = Inl (PydanticError m)"
| "store_guard (Inl e) = Inl (ActivityUnavailable ''private object storage is unavailable'')"
| "store_guard (Inr a) = Inr a"

definition intent_receipt ::
    "artifact_upload_intent \<Rightarrow> int \<Rightarrow> int option \<Rightarrow> bool \<Rightarrow> string option \<Rightarrow> artifact_intent_receipt" where
  "intent_receipt intent expected_version artifact_id reused object_key =
     \<lparr>ir_artifact_id = artifact_id, ir_owner_id = ui_owner_id intent,
      ir_activity_id = ui_activity_id intent, ir_expected_version = expected_version,
      ir_artifact_class = ui_artifact_class intent,
      ir_object_key = (case object_key of
         None \<Rightarrow> ui_object_key intent
       | Some k \<Rightarrow> if k = [] then ui_object_key intent else k),
      ir_sha256 = ui_sha256 intent, ir_byte_length = ui_byte_length intent,
      ir_content_type = ui_content_type intent,
      ir_original_filename = ui_original_filename intent, ir_reused = reused\<rparr>"

definition upload_intent ::
    "artifact_intent_receipt \<Rightarrow> (study_error, artifact_upload_intent) result" where
  "upload_intent r =
     artifact_guard (\<lambda>m. ActivityInvalidRequest ''stored upload intent is invalid'')
       (build_upload_intent (ir_owner_id r) (ir_activity_id r) (ir_artifact_class r) (ir_sha256 r)
          (ir_byte_length r) (ir_content_type r) (ir_original_filename r))"

definition load_artifact_intent ::
    "services \<Rightarrow> nat \<Rightarrow> study_db \<Rightarrow> int \<Rightarrow> string \<Rightarrow> (study_error, artifact_intent_receipt) result" where
  "load_artifact_intent sv k db owner_id idempotency_key =
     bind_result (ensure (safe_key idempotency_key)
        (ActivityInvalidRequest ''Idempotency-Key is invalid'')) (\<lambda>_.
     bind_result (one_or_none (filter
        (\<lambda>r. receipt_key r = (owner_id, ''activity.artifact.presign'', idempotency_key))
        (db_receipts db))) (\<lambda>found.
     case found of
       None \<Rightarrow> Inl (ActivityInvalidRequest ''upload intent was not found'')
     | Some r \<Rightarrow>
         if cr_status r \<noteq> ''completed''
         then Inl (ActivityInvalidRequest ''upload intent was not found'')
         else bind_result (now_of sv k) (\<lambda>now.
           if cr_expires_at r \<le> now
           then Inl (ActivityInvalidRequest ''upload intent was not found'')
           else case intent_result (cr_result_payload r) of
                  Inl _ \<Rightarrow> Inl (ActivityInvalidRequest ''stored upload intent is invalid'')
                | Inr i \<Rightarrow> Inr i)))"

definition presign_response ::
    "store_port \<Rightarrow> artifact_intent_receipt \<Rightarrow> (study_error, artifact_presign_response) result" where
  "presign_response st r =
     (if ir_reused r
      then Inr \<lparr>pp_artifact_id = ir_artifact_id r, pp_object_key = ir_object_key r,
                pp_reused = True, pp_upload = None\<rparr>
      else bind_result (upload_intent r) (\<lambda>intent.
        bind_result (store_guard
          (bind_result (presign_put_post_init
             \<lparr>pr_key = ui_object_key intent, pr_sha256 = ui_sha256 intent,
              pr_byte_length = ui_byte_length intent, pr_content_type = ui_content_type intent,
              pr_metadata = ui_metadata intent, pr_expires_seconds = 300\<rparr>)
             (sp_presign_put st))) (\<lambda>signed.
        Inr \<lparr>pp_artifact_id = None, pp_object_key = ui_object_key intent, pp_reused = False,
             pp_upload = Some \<lparr>pu_url = ps_url signed, pu_method = ''PUT'',
               pu_headers = ps_headers signed, pu_expires_seconds = ps_expires_seconds signed\<rparr>\<rparr>)))"

definition artifact_by_hash ::
    "study_db \<Rightarrow> int \<Rightarrow> string \<Rightarrow> (study_error, artifact option) result" where
  "artifact_by_hash db owner_id sha256 =
     one_or_none (filter (\<lambda>a. ar_owner_id a = owner_id \<and> ar_content_hash a = sha256)
       (db_artifacts db))"

definition artifact_by_id ::
    "study_db \<Rightarrow> int \<Rightarrow> int \<Rightarrow> (study_error, artifact option) result" where
  "artifact_by_id db owner_id artifact_id =
     one_or_none (filter (\<lambda>a. ar_owner_id a = owner_id \<and> ar_id a = artifact_id) (db_artifacts db))"

definition ensure_pending_artifact_link ::
    "services \<Rightarrow> nat \<Rightarrow> int \<Rightarrow> int \<Rightarrow> int \<Rightarrow> study_db \<Rightarrow> (study_error, study_db) result" where
  "ensure_pending_artifact_link sv k owner_id activity_id artifact_id db =
     (if (owner_id, activity_id, None, artifact_id, ''supporting'') \<in> set (map link_fields (db_links db))
      then Inr db
      else bind_result (now_of sv k) (\<lambda>now.
        insert_link \<lparr>al_id = 0, al_owner_id = owner_id, al_activity_instance_id = activity_id,
          al_attempt_id = None, al_artifact_id = artifact_id, al_link_role = ''supporting'',
          al_created_at = now\<rparr> db))"

definition validate_reusable_artifact ::
    "artifact \<Rightarrow> artifact_upload_intent \<Rightarrow> (study_error, unit) result" where
  "validate_reusable_artifact a intent =
     ensure (ar_content_hash a = ui_sha256 intent \<and> ar_byte_size a = ui_byte_length intent
             \<and> ar_content_type a = ui_content_type intent
             \<and> ar_artifact_class a = ui_artifact_class intent)
       (ActivityConflict ''existing content hash has incompatible artifact metadata'')"

definition verify_reusable_stored_object ::
    "store_port \<Rightarrow> int \<Rightarrow> artifact \<Rightarrow> (study_error, unit) result" where
  "verify_reusable_stored_object st owner_id a =
     bind_result (store_guard (sp_stat st (ar_object_key a))) (\<lambda>found.
     ensure (case found of
               None \<Rightarrow> False
             | Some x \<Rightarrow> so_sha256 x = ar_content_hash a \<and> so_byte_length x = ar_byte_size a
                 \<and> so_content_type x = ar_content_type a
                 \<and> map_of (so_metadata x) ''owner-id'' = Some (int_str owner_id))
       (ActivityConflict ''stored artifact no longer matches immutable metadata''))"

definition artifact_response_of :: "artifact \<Rightarrow> artifact_response" where
  "artifact_response_of a =
     \<lparr>ap_id = ar_id a, ap_sha256 = ar_content_hash a, ap_byte_length = ar_byte_size a,
      ap_content_type = ar_content_type a, ap_original_filename = ar_original_filename a,
      ap_artifact_class = ar_artifact_class a\<rparr>"

text \<open>The receipt of a new upload intent; an artifact the owner already has is reused.\<close>

definition new_intent_receipt ::
    "store_port \<Rightarrow> study_db \<Rightarrow> locked_activity \<Rightarrow> int \<Rightarrow> int \<Rightarrow> int \<Rightarrow> string \<Rightarrow> string \<Rightarrow> int \<Rightarrow> string
      \<Rightarrow> string \<Rightarrow> (study_error, artifact_intent_receipt) result" where
  "new_intent_receipt st db row owner_id activity_id expected_version artifact_class sha256
       byte_length content_type original_filename =
     bind_result (require_version_and_state row expected_version [ACTIVE, PAUSED]) (\<lambda>_.
     bind_result (artifact_guard ActivityInvalidRequest
       (build_upload_intent owner_id activity_id artifact_class sha256 byte_length content_type
          original_filename)) (\<lambda>intent.
     bind_result (artifact_by_hash db owner_id sha256) (\<lambda>existing.
     case existing of
       Some a \<Rightarrow>
         bind_result (validate_reusable_artifact a intent) (\<lambda>_.
         bind_result (verify_reusable_stored_object st owner_id a) (\<lambda>_.
         Inr (intent_receipt intent expected_version (Some (ar_id a)) True (Some (ar_object_key a)))))
     | None \<Rightarrow> Inr (intent_receipt intent expected_version None False None))))"

definition presign_artifact ::
    "services \<Rightarrow> study_db \<Rightarrow> int \<Rightarrow> int \<Rightarrow> int \<Rightarrow> string \<Rightarrow> string \<Rightarrow> int \<Rightarrow> string \<Rightarrow> string \<Rightarrow> string
      \<Rightarrow> (study_error, study_db \<times> artifact_presign_response) result" where
  "presign_artifact sv db owner_id activity_id expected_version artifact_class sha256 byte_length
       content_type original_filename idempotency_key =
     storage_guard (
     bind_result (require_object_store sv) (\<lambda>st.
     bind_result (load_activity db owner_id activity_id) (\<lambda>row.
     let hash = request_hash sv [JStr ''artifact-presign'', JInt activity_id, JInt expected_version,
       JStr artifact_class, JStr sha256, JInt byte_length, JStr content_type, JStr original_filename]
     in bind_result
       (replay_or db owner_id ''activity.artifact.presign'' idempotency_key hash intent_result (
          bind_result (new_intent_receipt st db row owner_id activity_id expected_version
             artifact_class sha256 byte_length content_type original_filename) (\<lambda>r.
          bind_result (save_receipt sv 0 owner_id ''activity.artifact.presign'' idempotency_key hash
             (Intent_payload r) db) (\<lambda>db1.
          Inr (db1, r))))) (\<lambda>(db1, r).
     bind_result
       (case (ir_reused r, ir_artifact_id r) of
          (True, Some i) \<Rightarrow> ensure_pending_artifact_link sv 1 owner_id activity_id i db1
        | _ \<Rightarrow> Inr db1) (\<lambda>db2.
     if \<not> ir_reused r \<and> ai_state (lk_activity row) \<notin> {ACTIVE, PAUSED}
     then Inl (ActivityConflict ''upload URL cannot be refreshed after output commitment'')
     else bind_result (presign_response st r) (\<lambda>response.
     Inr (db2, response)))))))"

text \<open>The object behind a new upload, checked, and its artifact row.\<close>

definition confirm_new_artifact ::
    "services \<Rightarrow> store_port \<Rightarrow> study_db \<Rightarrow> int \<Rightarrow> artifact_intent_receipt \<Rightarrow> string
      \<Rightarrow> (study_error, study_db \<times> artifact) result" where
  "confirm_new_artifact sv st db owner_id receipt object_key =
     bind_result (upload_intent receipt) (\<lambda>intent.
     bind_result (artifact_guard ActivityInvalidRequest (verify_confirm_request intent object_key)) (\<lambda>_.
     bind_result (store_guard (sp_stat st (ui_object_key intent))) (\<lambda>found.
     bind_result
       (case found of
          None \<Rightarrow> Inl (ActivityInvalidRequest ''uploaded object was not found'')
        | Some x \<Rightarrow> artifact_guard ActivityInvalidRequest (verify_stored_object intent x)) (\<lambda>_.
     bind_result (lock_owner db owner_id) (\<lambda>_.
     bind_result (artifact_by_hash db owner_id (ui_sha256 intent)) (\<lambda>existing.
     case existing of
       Some a \<Rightarrow> bind_result (validate_reusable_artifact a intent) (\<lambda>_. Inr (db, a))
     | None \<Rightarrow>
         bind_result (now_of sv 1) (\<lambda>now.
         insert_artifact \<lparr>ar_id = 0, ar_owner_id = owner_id, ar_object_key = ui_object_key intent,
           ar_content_hash = ui_sha256 intent, ar_content_type = ui_content_type intent,
           ar_original_filename = ui_original_filename intent,
           ar_byte_size = ui_byte_length intent, ar_artifact_class = ui_artifact_class intent,
           ar_encryption_metadata = unencrypted_metadata, ar_derived_from_artifact_id = None,
           ar_immutable_version = 1, ar_created_at = now\<rparr> db)))))))"

definition reuse_artifact ::
    "store_port \<Rightarrow> study_db \<Rightarrow> int \<Rightarrow> artifact_intent_receipt
      \<Rightarrow> (study_error, study_db \<times> artifact) result" where
  "reuse_artifact st db owner_id receipt =
     (case ir_artifact_id receipt of
        None \<Rightarrow> Inl (ActivityInvalidRequest ''reused upload intent is invalid'')
      | Some i \<Rightarrow>
          bind_result (artifact_by_id db owner_id i) (\<lambda>found.
          case found of
            None \<Rightarrow> Inl (ActivityConflict ''reused artifact no longer exists'')
          | Some a \<Rightarrow> bind_result (verify_reusable_stored_object st owner_id a) (\<lambda>_. Inr (db, a))))"

definition confirm_artifact ::
    "services \<Rightarrow> study_db \<Rightarrow> int \<Rightarrow> int \<Rightarrow> int \<Rightarrow> string \<Rightarrow> string \<Rightarrow> string
      \<Rightarrow> (study_error, study_db \<times> artifact_response) result" where
  "confirm_artifact sv db owner_id activity_id expected_version upload_idempotency_key object_key
       idempotency_key =
     storage_guard (
     bind_result (require_object_store sv) (\<lambda>st.
     bind_result (load_activity db owner_id activity_id) (\<lambda>row.
     let hash = request_hash sv [JStr ''artifact-confirm'', JInt activity_id, JInt expected_version,
       JStr upload_idempotency_key, JStr object_key]
     in replay_or db owner_id ''activity.artifact.confirm'' idempotency_key hash artifact_result (
     bind_result (require_version_and_state row expected_version [ACTIVE, PAUSED]) (\<lambda>_.
     bind_result (load_artifact_intent sv 0 db owner_id upload_idempotency_key) (\<lambda>receipt.
     if ir_owner_id receipt \<noteq> owner_id \<or> ir_activity_id receipt \<noteq> activity_id
        \<or> ir_expected_version receipt \<noteq> expected_version
     then Inl (ActivityInvalidRequest ''upload intent does not belong to this activity state'')
     else
     bind_result
       (if ir_reused receipt then reuse_artifact st db owner_id receipt
        else confirm_new_artifact sv st db owner_id receipt object_key) (\<lambda>(db1, a).
     bind_result (ensure_pending_artifact_link sv 2 owner_id activity_id (ar_id a) db1) (\<lambda>db2.
     bind_result (save_receipt sv 3 owner_id ''activity.artifact.confirm'' idempotency_key hash
        (Artifact_payload (artifact_response_of a)) db2) (\<lambda>db3.
     Inr (db3, artifact_response_of a))))))))))"

section \<open>Committing an output\<close>

definition ASSISTANCE_RANK :: "(string \<times> nat) list" where
  "ASSISTANCE_RANK = [(''none'', 0), (''coach_preparation'', 1), (''hint_ladder'', 2)]"

definition stronger_assistance :: "string \<Rightarrow> string option \<Rightarrow> string" where
  "stronger_assistance current coached =
     (case (coached, map_of ASSISTANCE_RANK current) of
        (Some c, Some rank) \<Rightarrow> if rank < coalesce (map_of ASSISTANCE_RANK c) 0 then c else current
      | _ \<Rightarrow> current)"

definition coached_assistance :: "study_db \<Rightarrow> int \<Rightarrow> int \<Rightarrow> string \<Rightarrow> string" where
  "coached_assistance db owner_id activity_id current =
     stronger_assistance current (map_of (db_coach_modes db) (owner_id, activity_id))"

definition source_attempt_a :: "study_db \<Rightarrow> int \<Rightarrow> int option \<Rightarrow> (study_error, attempt) result" where
  "source_attempt_a db owner_id parent_attempt_id =
     (case parent_attempt_id of
        None \<Rightarrow> Inl (ActivityInvalidRequest ''Attempt B requires its source Attempt A'')
      | Some i \<Rightarrow>
          (case owned_attempt db owner_id i of
             None \<Rightarrow> Inl (ActivityInvalidRequest
               ''Attempt B parent must be an owner-scoped Attempt A'')
           | Some p \<Rightarrow>
               if at_attempt_kind p \<noteq> ''attempt_a''
               then Inl (ActivityInvalidRequest ''Attempt B parent must be an owner-scoped Attempt A'')
               else Inr p))"

definition validate_output ::
    "services \<Rightarrow> study_db \<Rightarrow> locked_activity \<Rightarrow> json \<Rightarrow> int \<Rightarrow> int option
      \<Rightarrow> (study_error, validated_output) result" where
  "validate_output sv db row output owner_id parent_attempt_id =
     bind_result
       (if df_block (lk_definition row) = ''correction_warmup''
        then bind_result (source_attempt_a db owner_id parent_attempt_id) (\<lambda>p.
             case parent_evidence_mapping (at_original_text p) of
               None \<Rightarrow> Inl (ActivityConflict ''Attempt A evidence mapping is invalid'')
             | Some (e, m) \<Rightarrow> Inr (Some e, Some m))
        else Inr (df_exercise_type (lk_definition row), df_mapping_version (lk_definition row)))
       (\<lambda>mapping.
     case mapping of
       (Some exercise_type, Some mapping_version) \<Rightarrow>
         (case bind_result (context_post_init
                  \<lparr>cc_block = df_block (lk_definition row),
                   cc_source_hidden = ai_source_hidden (lk_activity row),
                   cc_timebox_minutes = ai_timebox_minutes (lk_activity row),
                   cc_task_stable_id = ai_task_stable_id_snapshot (lk_activity row),
                   cc_exercise_type = exercise_type, cc_mapping_version = mapping_version,
                   cc_roadmap_version_key = ai_roadmap_version_key_snapshot (lk_activity row),
                   cc_task_definition_id = ai_task_definition_id (lk_activity row)\<rparr>)
                (validate_output_contract (sv_parse sv output)) of
            Inl (OutputContractError m) \<Rightarrow> Inl (ActivityInvalidRequest m)
          | Inr v \<Rightarrow> Inr v)
     | _ \<Rightarrow> Inl (ActivityConflict ''task evidence mapping is incomplete''))"

definition select_attempt_kind ::
    "study_db \<Rightarrow> locked_activity \<Rightarrow> int \<Rightarrow> int option \<Rightarrow> string \<Rightarrow> (study_error, string) result" where
  "select_attempt_kind db row owner_id parent_attempt_id expected_prompt =
     bind_result
       (if ai_attempt_kind (lk_activity row) \<noteq> ''none'' then Inr (ai_attempt_kind (lk_activity row))
        else if df_block (lk_definition row) = ''correction_warmup''
        then bind_result (ensure (parent_attempt_id \<noteq> None)
               (ActivityInvalidRequest ''Attempt B requires its source Attempt A'')) (\<lambda>_.
             Inr ''attempt_b'')
        else bind_result (ensure (parent_attempt_id = None)
               (ActivityInvalidRequest ''Attempt A cannot have a parent attempt'')) (\<lambda>_.
             Inr ''attempt_a'')) (\<lambda>current.
     if current = ''attempt_b''
     then bind_result (source_attempt_a db owner_id parent_attempt_id) (\<lambda>p.
          if at_prompt p \<noteq> expected_prompt
          then Inl (ActivityInvalidRequest ''Attempt B must use the same prompt as Attempt A'')
          else Inr current)
     else if parent_attempt_id \<noteq> None
     then Inl (ActivityInvalidRequest ''only Attempt B can have a parent attempt'')
     else Inr current)"

type_synonym artifact_reference = "int \<times> string"

text \<open>References are pairs of artifact id and link role.\<close>

definition load_commitment_artifacts ::
    "study_db \<Rightarrow> int \<Rightarrow> int \<Rightarrow> artifact_reference list
      \<Rightarrow> (study_error, artifact_commitment list \<times> (artifact_reference \<times> artifact) list) result" where
  "load_commitment_artifacts db owner_id activity_id refs =
     (let owned = (\<lambda>i. find (\<lambda>a. ar_owner_id a = owner_id \<and> ar_id a = i) (db_artifacts db));
          bound = (\<lambda>i. list_ex (\<lambda>l. al_owner_id l = owner_id \<and> al_activity_instance_id l = activity_id
             \<and> al_attempt_id l = None \<and> al_artifact_id l = i) (db_links db))
      in if \<not> distinct refs
         then Inl (ActivityInvalidRequest ''artifact references contain duplicate links'')
         else if refs = [] then Inr ([], [])
         else if \<not> list_all (\<lambda>r. owned (fst r) \<noteq> None) refs
         then Inl (ActivityInvalidRequest ''artifact reference was not found for this owner'')
         else if \<not> list_all (\<lambda>r. bound (fst r)) refs
         then Inl (ActivityInvalidRequest ''artifact was not uploaded for this activity'')
         else
           let paired = map (\<lambda>r. (r, the (owned (fst r)))) refs
           in bind_result (map_result (\<lambda>(r, a). artifact_guard ArtifactError
                (commitment_post_init \<lparr>ac_artifact_id = ar_id a, ac_sha256 = ar_content_hash a,
                   ac_link_role = snd r\<rparr>)) paired) (\<lambda>commitments.
              Inr (commitments, paired)))"

fun insert_links ::
    "int \<Rightarrow> int \<Rightarrow> int \<Rightarrow> instant \<Rightarrow> (artifact_reference \<times> artifact) list \<Rightarrow> study_db
      \<Rightarrow> (study_error, study_db) result" where
  "insert_links owner_id activity_id attempt_id now [] db = Inr db"
| "insert_links owner_id activity_id attempt_id now ((r, a) # rest) db =
     bind_result (insert_link
       \<lparr>al_id = 0, al_owner_id = owner_id, al_activity_instance_id = activity_id,
        al_attempt_id = Some attempt_id, al_artifact_id = ar_id a, al_link_role = snd r,
        al_created_at = now\<rparr> db)
       (insert_links owner_id activity_id attempt_id now rest)"

definition reference_json :: "artifact_reference \<Rightarrow> json" where
  "reference_json r = JObj [(''artifact_id'', JInt (fst r)), (''link_role'', JStr (snd r))]"

definition commit_output ::
    "services \<Rightarrow> study_db \<Rightarrow> int \<Rightarrow> int \<Rightarrow> int \<Rightarrow> int \<Rightarrow> json \<Rightarrow> artifact_reference list \<Rightarrow> int option
      \<Rightarrow> string \<Rightarrow> (study_error, study_db \<times> output_commit_response) result" where
  "commit_output sv db owner_id activity_id expected_version client_sequence output artifact_refs
       parent_attempt_id idempotency_key =
     storage_guard (
     bind_result (load_activity db owner_id activity_id) (\<lambda>row.
     let hash = request_hash sv [JStr ''commit-output'', JInt activity_id, JInt expected_version,
       JInt client_sequence, output, JArr (map reference_json artifact_refs),
       json_opt parent_attempt_id]
     in replay_or db owner_id ''activity.commit-output'' idempotency_key hash commit_result (
     bind_result (decide_transition row OUTPUT_COMMITTED expected_version) (\<lambda>decision.
     bind_result (validate_output sv db row output owner_id parent_attempt_id) (\<lambda>validated.
     bind_result (select_attempt_kind db row owner_id parent_attempt_id (vo_prompt validated)) (\<lambda>kind.
     bind_result (load_commitment_artifacts db owner_id activity_id artifact_refs)
       (\<lambda>(commitments, artifacts).
     bind_result (artifact_guard ActivityInvalidRequest
        (build_commitment_digest (sv_sha sv) validated commitments)) (\<lambda>commitment_hash.
     bind_result (open_timer db (lk_activity row)) (\<lambda>found.
     case found of
       None \<Rightarrow> Inl (ActivityConflict ''active activity has no open timer'')
     | Some timer \<Rightarrow>
     bind_result (now_of sv 0) (\<lambda>now.
     bind_result (apply_timer_heartbeat db row timer client_sequence now) (\<lambda>(db1, timer1, day).
     bind_result (set_activity_state (td_state decision) (lk_activity row)) (\<lambda>moved.
     bind_result (write_once (Some now) (ai_output_committed_at moved)) (\<lambda>_.
     let act = moved\<lparr>ai_attempt_kind := kind, ai_output_committed_at := Some now,
                     ai_optimistic_version := td_next_version decision\<rparr>
     in bind_result (flush_day (lk_day row) day db1) (\<lambda>db2.
     bind_result (flush_activity (lk_activity row) act db2) (\<lambda>db3.
     bind_result (flush_timer timer1 (timer1\<lparr>ts_ended_at := Some now\<rparr>) db3) (\<lambda>db4.
     bind_result (insert_attempt
        \<lparr>at_id = 0, at_owner_id = owner_id, at_activity_instance_id = activity_id,
         at_attempt_kind = kind, at_parent_attempt_id = parent_attempt_id,
         at_original_text = Some (vo_canonical_json validated),
         at_original_markdown = vo_original_markdown validated,
         at_original_sql = vo_original_sql validated, at_audience = vo_audience validated,
         at_prompt = vo_prompt validated,
         at_assistance_mode =
           coached_assistance db4 owner_id activity_id (ai_assistance_mode act),
         at_commitment_hash = commitment_hash, at_committed_at = now, at_created_at = now\<rparr> db4)
       (\<lambda>(db5, att).
     bind_result (insert_links owner_id activity_id (at_id att) now artifacts db5) (\<lambda>db6.
     let r = \<lparr>oc_activity_id = activity_id, oc_state = OUTPUT_COMMITTED,
              oc_optimistic_version = ai_optimistic_version act, oc_attempt_id = at_id att,
              oc_commitment_sha256 = commitment_hash,
              oc_artifact_ids = sort (map (\<lambda>(_, a). ar_id a) artifacts)\<rparr>
     in bind_result (save_receipt sv 1 owner_id ''activity.commit-output'' idempotency_key hash
        (Commit_payload r) db6) (\<lambda>db7.
     Inr (db7, r))))))))))))))))))))"

section \<open>The self review\<close>

record review_answers =
  ra_main_answer :: string
  ra_did_well :: string
  ra_structure_weakness :: string
  ra_vague_points :: string
  ra_hesitation_points :: string
  ra_change_next :: string

definition answer_list :: "review_answers \<Rightarrow> string list" where
  "answer_list a = [ra_main_answer a, ra_did_well a, ra_structure_weakness a, ra_vague_points a,
     ra_hesitation_points a, ra_change_next a]"

definition validate_self_review_values :: "review_answers \<Rightarrow> int \<Rightarrow> (study_error, unit) result" where
  "validate_self_review_values a self_score =
     ensure (0 \<le> self_score \<and> self_score \<le> 4
             \<and> list_all (\<lambda>s. \<not> blank s \<and> int (utf8_size s) \<le> 8192) (answer_list a))
       (ActivityInvalidRequest ''self-review answers or score are invalid'')"

definition submit_self_review ::
    "services \<Rightarrow> study_db \<Rightarrow> int \<Rightarrow> int \<Rightarrow> int \<Rightarrow> review_answers \<Rightarrow> int \<Rightarrow> string
      \<Rightarrow> (study_error, study_db \<times> self_review_response) result" where
  "submit_self_review sv db owner_id activity_id expected_version answers self_score
       idempotency_key =
     storage_guard (
     bind_result (validate_self_review_values answers self_score) (\<lambda>_.
     bind_result (load_activity db owner_id activity_id) (\<lambda>row.
     let hash = request_hash sv ([JStr ''self-review'', JInt activity_id, JInt expected_version]
       @ map JStr (answer_list answers) @ [JInt self_score])
     in replay_or db owner_id ''activity.self-review'' idempotency_key hash review_result (
     bind_result (decide_transition row SELF_REVIEW_COMPLETE expected_version) (\<lambda>decision.
     bind_result (attempt_for_activity db owner_id activity_id) (\<lambda>found.
     case found of
       None \<Rightarrow> Inl (ActivityConflict ''committed activity has no immutable attempt'')
     | Some att \<Rightarrow>
     bind_result (now_of sv 0) (\<lambda>now.
     bind_result (set_activity_state (td_state decision) (lk_activity row)) (\<lambda>moved.
     let act = moved\<lparr>ai_optimistic_version := td_next_version decision\<rparr>
     in bind_result (flush_activity (lk_activity row) act db) (\<lambda>db1.
     bind_result (insert_review
        \<lparr>sr_id = 0, sr_owner_id = owner_id, sr_activity_instance_id = activity_id,
         sr_attempt_id = at_id att, sr_main_answer = ra_main_answer answers,
         sr_did_well = ra_did_well answers,
         sr_structure_weakness = ra_structure_weakness answers,
         sr_vague_points = ra_vague_points answers,
         sr_hesitation_points = ra_hesitation_points answers,
         sr_change_next = ra_change_next answers, sr_self_score = self_score,
         sr_submitted_at = now\<rparr> db1) (\<lambda>(db2, review).
     let r = \<lparr>rr_activity_id = activity_id, rr_state = SELF_REVIEW_COMPLETE,
              rr_optimistic_version = ai_optimistic_version act, rr_self_review_id = sr_id review,
              rr_attempt_id = at_id att, rr_self_score = self_score\<rparr>
     in bind_result (save_receipt sv 1 owner_id ''activity.self-review'' idempotency_key hash
        (Review_payload r) db2) (\<lambda>db3.
     Inr (db3, r))))))))))))"

section \<open>Commands\<close>

datatype study_command =
    Start int int int string
  | Heartbeat int int int int string
  | Pause int int int int string
  | Resume int int int string
  | Classify_incomplete int int int string "int option" string
  | Set_source_visibility int int int bool string
  | Presign_artifact int int int string string int string string string
  | Confirm_artifact int int int string string string
  | Commit_output int int int int json "artifact_reference list" "int option" string
  | Submit_self_review int int int review_answers int string

datatype study_response =
    Activity_response activity_response
  | Detail_response activity_detail_response
  | Presign_response artifact_presign_response
  | Artifact_response artifact_response
  | Commit_response output_commit_response
  | Review_response self_review_response

definition respond ::
    "('a \<Rightarrow> study_response) \<Rightarrow> (study_error, study_db \<times> 'a) result
      \<Rightarrow> (study_error, study_db \<times> study_response) result" where
  "respond f r = bind_result r (\<lambda>(db, a). Inr (db, f a))"

text \<open>One request: the command with what the service is given while it runs.\<close>

fun exec_study ::
    "study_db \<Rightarrow> services \<times> study_command \<Rightarrow> (study_error, study_db \<times> study_response) result" where
  "exec_study db (sv, Start ow i v k) = respond Activity_response (start sv db ow i v k)"
| "exec_study db (sv, Heartbeat ow i v n k) =
     respond Activity_response (service_heartbeat sv db ow i v n k)"
| "exec_study db (sv, Pause ow i v n k) = respond Activity_response (pause sv db ow i v n k)"
| "exec_study db (sv, Resume ow i v k) = respond Activity_response (resume sv db ow i v k)"
| "exec_study db (sv, Classify_incomplete ow i v c e k) =
     respond Activity_response (classify_incomplete sv db ow i v c e k)"
| "exec_study db (sv, Set_source_visibility ow i v h k) =
     respond Detail_response (set_source_visibility sv db ow i v h k)"
| "exec_study db (sv, Presign_artifact ow i v c h n t f k) =
     respond Presign_response (presign_artifact sv db ow i v c h n t f k)"
| "exec_study db (sv, Confirm_artifact ow i v u ok k) =
     respond Artifact_response (confirm_artifact sv db ow i v u ok k)"
| "exec_study db (sv, Commit_output ow i v n out refs p k) =
     respond Commit_response (commit_output sv db ow i v n out refs p k)"
| "exec_study db (sv, Submit_self_review ow i v a s k) =
     respond Review_response (submit_self_review sv db ow i v a s k)"

end
