(* ===== verification/Study_Step.thy ===== *)
theory Study_Step
  imports Study_Outputs
begin

text \<open>
  What a command of the activity service may do to the database, as a step relation with one rule
  per effect, and the proof that every accepted command is such a step. The invariants of the
  tables are then proved over the relation.
\<close>

section \<open>When the parts of a command succeed\<close>

lemma storage_guard_Inr [simp]: "storage_guard r = Inr x \<longleftrightarrow> r = Inr x"
  by (cases r rule: storage_guard.cases) auto

lemma replay_or_Inr:
  "replay_or db ow scope key hash decode body = Inr (db', r) \<longleftrightarrow>
     (\<exists>p. duplicate_as db ow scope key hash = Inr (Some p) \<and> decode p = Inr r \<and> db' = db)
     \<or> duplicate_as db ow scope key hash = Inr None \<and> body = Inr (db', r)"
  by (auto simp: replay_or_def result_simps split: option.splits)

lemma now_of_Inr: "now_of sv k = Inr n \<longleftrightarrow> aware (sv_clock sv k) \<and> n = instant_of (sv_clock sv k)"
  by (cases "sv_clock sv k") (auto simp: now_of_def)

lemma one_or_none_Inr:
  "one_or_none xs = Inr v \<longleftrightarrow> (xs = [] \<and> v = None) \<or> (\<exists>x. xs = [x] \<and> v = Some x)"
  by (cases xs rule: one_or_none.cases) auto

lemma filter_singleton: "filter P xs = [x] \<Longrightarrow> x \<in> set xs \<and> P x"
  by (metis Cons_eq_filterD in_set_conv_decomp)

lemma open_timer_Some:
  "open_timer db a = Inr (Some t) \<Longrightarrow>
     t \<in> set (db_timers db) \<and> ts_owner_id t = ai_owner_id a \<and> open_timer_of (ai_id a) t"
  by (auto simp: open_timer_def one_or_none_Inr dest!: filter_singleton)

lemma open_timer_None:
  "open_timer db a = Inr None \<Longrightarrow> t \<in> set (db_timers db) \<Longrightarrow> ts_owner_id t = ai_owner_id a \<Longrightarrow>
     \<not> open_timer_of (ai_id a) t"
  by (auto simp: open_timer_def one_or_none_Inr filter_empty_conv)

lemma load_activity_Inr:
  assumes "load_activity db ow i = Inr row"
  shows "lk_activity row \<in> set (db_activities db)" "ai_owner_id (lk_activity row) = ow"
    "ai_id (lk_activity row) = i" "lk_day row \<in> set (db_days db)" "sd_owner_id (lk_day row) = ow"
    "sd_id (lk_day row) = ai_study_day_id (lk_activity row)"
    "lk_definition row \<in> set (db_definitions db)" "df_owner_id (lk_definition row) = ow"
    "df_id (lk_definition row) = ai_task_definition_id (lk_activity row)"
  using assms
  by (auto simp: load_activity_def activity_of_def dest!: find_in_set split: option.splits)

lemma decide_transition_Inr:
  "decide_transition row target v = Inr d \<longleftrightarrow>
     transition (ai_state (lk_activity row)) target (ai_optimistic_version (lk_activity row)) v
       (sd_day_type (lk_day row)) (sd_status (lk_day row)) = Inr d"
  by (auto simp: decide_transition_def split: sum.splits activity_error.splits)

lemmas decided = decide_transition_Inr transition_Inr_iff

lemma set_activity_state_Inr:
  "set_activity_state v a = Inr b \<longleftrightarrow>
     (v = ai_state a \<or> v \<in> set (ACTIVITY_TRANSITIONS (ai_state a))) \<and> b = a\<lparr>ai_state := v\<rparr>"
  by (auto simp: set_activity_state_def)

lemma write_once_Inr: "write_once v old = Inr u \<longleftrightarrow> frozen old v"
  by (auto simp: write_once_def frozen_def result_simps)

lemma begin_timer_Inr:
  "begin_timer ow i key now db = Inr db' \<longleftrightarrow>
     (\<exists>t. insert_timer (new_timer ow i key \<lparr>started_at = Aware now 0,
        last_heartbeat_at = Aware now 0, counted_seconds = 0, last_client_sequence = 0,
        paused_at = None, ended_at = None\<rparr>) db = Inr (db', t))"
  by (auto simp: begin_timer_def start_timer_def result_simps)

lemma new_timer_simps [simp]:
  "ts_owner_id (new_timer ow i key s) = ow" "ts_activity_instance_id (new_timer ow i key s) = i"
  "ts_idempotency_key (new_timer ow i key s) = key" "ts_ended_at (new_timer ow i key s) = None"
  "ts_paused_at (new_timer ow i key s) = None" "ts_counted_seconds (new_timer ow i key s) = 0"
  by (simp_all add: new_timer_def)

lemma save_receipt_Inr:
  "save_receipt sv k ow scope key hash p db = Inr db' \<longleftrightarrow>
     aware (sv_clock sv k) \<and>
     insert_receipt \<lparr>cr_id = 0, cr_owner_id = ow, cr_command_scope = scope,
       cr_idempotency_key = key, cr_request_hash = hash, cr_status = ''completed'',
       cr_result_payload = p, cr_created_at = instant_of (sv_clock sv k),
       cr_expires_at = instant_of (sv_clock sv k) + td_days 7\<rparr> db = Inr db'"
  by (auto simp: save_receipt_def result_simps now_of_Inr)

text \<open>A saved receipt is one more row whose key is new.\<close>

definition with_receipt :: "study_db \<Rightarrow> study_db \<Rightarrow> bool" where
  "with_receipt db db' \<longleftrightarrow>
     (\<exists>c. receipt_key c \<notin> set (map receipt_key (db_receipts db)) \<and>
        db' = db\<lparr>db_receipts := db_receipts db @ [c], db_next_id := db_next_id db + 1\<rparr>)"

lemma save_receipt_with:
  assumes "save_receipt sv k ow scope key hash p db = Inr db'"
  shows "with_receipt db db'"
proof -
  let ?r = "\<lparr>cr_id = 0, cr_owner_id = ow, cr_command_scope = scope, cr_idempotency_key = key,
    cr_request_hash = hash, cr_status = ''completed'', cr_result_payload = p,
    cr_created_at = instant_of (sv_clock sv k),
    cr_expires_at = instant_of (sv_clock sv k) + td_days 7\<rparr>"
  have "receipt_key (?r\<lparr>cr_id := db_next_id db\<rparr>) = receipt_key ?r" by (simp add: receipt_key_def)
  with assms show ?thesis
    unfolding save_receipt_Inr insert_receipt_Inr with_receipt_def by metis
qed

section \<open>Counting time\<close>

text \<open>
  What a heartbeat records: \<open>k\<close> more seconds on the open timer of \<open>a\<close>, and the day's focused
  minutes that follow.
\<close>

definition seconds_on_day :: "study_db \<Rightarrow> int \<Rightarrow> int \<Rightarrow> int" where
  "seconds_on_day db ow day =
     sum_list (map ts_counted_seconds (filter (timer_on_day db ow day) (db_timers db)))"

lemma day_seconds_on_day:
  "day_seconds db row = seconds_on_day db (ai_owner_id (lk_activity row)) (sd_id (lk_day row))"
  by (simp add: day_seconds_def seconds_on_day_def)

definition timed_by ::
    "study_db \<Rightarrow> activity_instance \<Rightarrow> study_day \<Rightarrow> timer_session \<Rightarrow> timer_session \<Rightarrow> study_day
      \<Rightarrow> int \<Rightarrow> instant \<Rightarrow> int \<Rightarrow> bool" where
  "timed_by db a d t t' d' k now sq \<longleftrightarrow>
     t \<in> set (db_timers db) \<and> ts_owner_id t = ai_owner_id a \<and> open_timer_of (ai_id a) t
     \<and> timer_checks t' \<and> 0 \<le> k \<and> k \<le> MAX_HEARTBEAT_GAP_SECONDS
     \<and> td_seconds k \<le> now - ts_last_heartbeat_at t
     \<and> (k = 0 \<or> seconds_on_day db (ai_owner_id a) (sd_id d) + k \<le> maximum_minutes_of d * 60)
     \<and> ts_last_client_sequence t < sq
     \<and> t' = t\<lparr>ts_last_heartbeat_at := now, ts_counted_seconds := ts_counted_seconds t + k,
             ts_last_client_sequence := sq\<rparr>
     \<and> d' = d\<lparr>sd_focused_minutes :=
          min (maximum_minutes_of d) ((seconds_on_day db (ai_owner_id a) (sd_id d) + k) div 60)\<rparr>"

lemma apply_heartbeat_Inr:
  assumes "apply_heartbeat (timer_state_of t) (Aware now 0) sq secs gap stop = Inr h"
  shows "\<exists>k. 0 \<le> k \<and> k \<le> gap \<and> td_seconds k \<le> now - ts_last_heartbeat_at t
      \<and> (k = 0 \<or> secs + k \<le> stop) \<and> ts_last_client_sequence t < sq
      \<and> instant_of (last_heartbeat_at (hd_timer h)) = now
      \<and> counted_seconds (hd_timer h) = ts_counted_seconds t + k
      \<and> last_client_sequence (hd_timer h) = sq \<and> hd_day_counted_seconds h = secs + k"
proof -
  let ?el = "(now - ts_last_heartbeat_at t) div 1000000"
  let ?k = "min (min ?el gap) (max 0 (stop - secs))"
  from assms have le: "ts_last_heartbeat_at t \<le> now" and gap: "0 < gap"
    and sq: "ts_last_client_sequence t < sq" and h: "instant_of (last_heartbeat_at (hd_timer h)) = now"
    "counted_seconds (hd_timer h) = ts_counted_seconds t + ?k"
    "last_client_sequence (hd_timer h) = sq" "hd_day_counted_seconds h = secs + ?k"
    by (auto simp: apply_heartbeat_def timer_state_of_def Let_def split: if_splits)
  have el: "0 \<le> ?el" "?el * 1000000 \<le> now - ts_last_heartbeat_at t" using le by auto
  have "0 \<le> ?k" "?k \<le> gap" "?k = 0 \<or> secs + ?k \<le> stop" using el gap by auto
  moreover have "td_seconds ?k \<le> now - ts_last_heartbeat_at t"
    using el by (auto simp: td_seconds_def min_def)
  ultimately show ?thesis using h sq by (intro exI [of _ ?k]) blast
qed

lemma apply_timer_heartbeat_timed:
  assumes "apply_timer_heartbeat db row timer sq now = Inr (db1, t', d')"
    and t: "timer \<in> set (db_timers db)" "ts_owner_id timer = ai_owner_id (lk_activity row)"
    "open_timer_of (ai_id (lk_activity row)) timer"
  shows "\<exists>k. timed_by db (lk_activity row) (lk_day row) timer t' d' k now sq"
    and "db1 = db\<lparr>db_timers := put_row ts_id t' (db_timers db)\<rparr>"
proof -
  let ?stop = "maximum_minutes_of (lk_day row) * 60"
  obtain h where h: "apply_heartbeat (timer_state_of timer) (Aware now 0) sq (day_seconds db row)
        MAX_HEARTBEAT_GAP_SECONDS ?stop = Inr h"
      and t': "t' = timer\<lparr>ts_last_heartbeat_at := instant_of (last_heartbeat_at (hd_timer h)),
           ts_counted_seconds := counted_seconds (hd_timer h),
           ts_last_client_sequence := last_client_sequence (hd_timer h)\<rparr>"
      and fl: "flush_timer timer t' db = Inr db1"
      and d': "d' = (lk_day row)\<lparr>sd_focused_minutes :=
           min (?stop div 60) (hd_day_counted_seconds h div 60)\<rparr>"
    using assms(1)
    by (auto simp: apply_timer_heartbeat_def Let_def result_simps
        split: sum.splits activity_error.splits)
  from fl show "db1 = db\<lparr>db_timers := put_row ts_id t' (db_timers db)\<rparr>"
    by (simp add: flush_simps)
  from fl have c: "timer_checks t'" by (simp add: flush_simps)
  obtain k where k: "0 \<le> k" "k \<le> MAX_HEARTBEAT_GAP_SECONDS"
    "td_seconds k \<le> now - ts_last_heartbeat_at timer"
    "k = 0 \<or> day_seconds db row + k \<le> ?stop" "ts_last_client_sequence timer < sq"
    and eqs: "instant_of (last_heartbeat_at (hd_timer h)) = now"
    "counted_seconds (hd_timer h) = ts_counted_seconds timer + k"
    "last_client_sequence (hd_timer h) = sq" "hd_day_counted_seconds h = day_seconds db row + k"
    using apply_heartbeat_Inr [OF h] by blast
  have "?stop div 60 = maximum_minutes_of (lk_day row)" by simp
  then have "timed_by db (lk_activity row) (lk_day row) timer t' d' k now sq"
    unfolding timed_by_def day_seconds_on_day [symmetric]
    using t c k t' [unfolded eqs] d' [unfolded eqs] by simp
  then show "\<exists>k. timed_by db (lk_activity row) (lk_day row) timer t' d' k now sq" ..
qed

section \<open>The effects of a command\<close>

text \<open>An activity and its study day.\<close>

definition row_of :: "study_db \<Rightarrow> activity_instance \<Rightarrow> study_day \<Rightarrow> bool" where
  "row_of db a d \<longleftrightarrow> a \<in> set (db_activities db) \<and> d \<in> set (db_days db)
     \<and> sd_id d = ai_study_day_id a \<and> sd_owner_id d = ai_owner_id a"

text \<open>An accepted change of an activity row that changes its state.\<close>

definition moves :: "activity_instance \<Rightarrow> activity_instance \<Rightarrow> bool" where
  "moves a a' \<longleftrightarrow>
     ai_id a' = ai_id a \<and> activity_provenance a' = activity_provenance a
     \<and> (ai_state a, ai_state a') \<in> set activity_transitions
     \<and> ai_optimistic_version a' = ai_optimistic_version a + 1
     \<and> ai_source_hidden a' = ai_source_hidden a
     \<and> (ai_attempt_kind a' = ai_attempt_kind a \<or> ai_state a' = OUTPUT_COMMITTED)
     \<and> frozen (ai_started_at a) (ai_started_at a')
     \<and> frozen (ai_output_committed_at a) (ai_output_committed_at a')
     \<and> frozen (ai_completed_at a) (ai_completed_at a')
     \<and> activity_checks a' \<and> validate_activity_shape a' = Inr ()"

text \<open>An accepted change of a study day, or none.\<close>

definition advances :: "study_day \<Rightarrow> study_day \<Rightarrow> bool" where
  "advances d d' \<longleftrightarrow>
     sd_id d' = sd_id d \<and> day_provenance d' = day_provenance d
     \<and> sd_focused_minutes d \<le> sd_focused_minutes d'
     \<and> (sd_status d' = sd_status d \<or> sd_status d = ''planned'' \<and> sd_status d' = ''in_progress'')
     \<and> (d' \<noteq> d \<longrightarrow> sd_status d' = ''in_progress'' \<and> day_checks d')"

definition fresh_timer :: "study_db \<Rightarrow> activity_instance \<Rightarrow> timer_session \<Rightarrow> bool" where
  "fresh_timer db a t \<longleftrightarrow>
     ts_id t = db_next_id db \<and> ts_owner_id t = ai_owner_id a \<and> open_timer_of (ai_id a) t
     \<and> ts_counted_seconds t = 0 \<and> timer_checks t
     \<and> \<not> list_ex (open_timer_of (ai_id a)) (db_timers db)"

definition ended_by :: "timer_session \<Rightarrow> timer_session \<Rightarrow> bool" where
  "ended_by t t' \<longleftrightarrow>
     (\<exists>p now. t' = t\<lparr>ts_paused_at := p, ts_ended_at := Some now\<rparr>) \<and> timer_checks t'"

text \<open>The pending uploads of an activity, and what an upload adds.\<close>

definition adds_uploads :: "study_db \<Rightarrow> study_db \<Rightarrow> bool" where
  "adds_uploads db db' \<longleftrightarrow>
     (\<exists>as ls cs n. list_all artifact_checks as \<and> list_all (\<lambda>l. al_attempt_id l = None) ls
        \<and> distinct (map receipt_key (db_receipts db @ cs)) \<and> db_next_id db \<le> n
        \<and> db' = db\<lparr>db_artifacts := db_artifacts db @ as, db_links := db_links db @ ls,
                  db_receipts := db_receipts db @ cs, db_next_id := n\<rparr>)"

inductive study_step :: "study_db \<Rightarrow> study_db \<Rightarrow> bool" where
  replayed: "study_step db db"
| noted: "with_receipt db db' \<Longrightarrow> study_step db db'"
| begun: "row_of db a d \<Longrightarrow> moves a a' \<Longrightarrow> ai_state a' = ACTIVE \<Longrightarrow> advances d d' \<Longrightarrow>
    sd_status d' = ''in_progress'' \<Longrightarrow> sd_focused_minutes d' = sd_focused_minutes d \<Longrightarrow>
    fresh_timer db a t \<Longrightarrow>
    with_receipt (db\<lparr>db_days := put_row sd_id d' (db_days db),
      db_activities := put_row ai_id a' (db_activities db),
      db_timers := db_timers db @ [t], db_next_id := db_next_id db + 1\<rparr>) db' \<Longrightarrow>
    study_step db db'"
| beat: "row_of db a d \<Longrightarrow> ai_state a = ACTIVE \<Longrightarrow> timed_by db a d t t' d' k now sq \<Longrightarrow>
    advances d d' \<Longrightarrow>
    with_receipt (db\<lparr>db_timers := put_row ts_id t' (db_timers db),
      db_days := put_row sd_id d' (db_days db)\<rparr>) db' \<Longrightarrow>
    study_step db db'"
| stopped: "row_of db a d \<Longrightarrow> ai_state a \<in> {ACTIVE, PAUSED} \<Longrightarrow>
    timed_by db a d t t1 d' k now sq \<Longrightarrow> advances d d' \<Longrightarrow> ended_by t1 t' \<Longrightarrow>
    moves a a' \<Longrightarrow> ai_state a' \<in> {PAUSED, INCOMPLETE} \<Longrightarrow>
    with_receipt (db\<lparr>db_days := put_row sd_id d' (db_days db),
      db_activities := put_row ai_id a' (db_activities db),
      db_timers := put_row ts_id t' (db_timers db)\<rparr>) db' \<Longrightarrow>
    study_step db db'"
| abandoned: "a \<in> set (db_activities db) \<Longrightarrow> moves a a' \<Longrightarrow> ai_state a' = INCOMPLETE \<Longrightarrow>
    (\<forall>t \<in> set (db_timers db). ts_owner_id t = ai_owner_id a \<longrightarrow> \<not> open_timer_of (ai_id a) t) \<Longrightarrow>
    with_receipt (db\<lparr>db_activities := put_row ai_id a' (db_activities db)\<rparr>) db' \<Longrightarrow>
    study_step db db'"
| committed: "row_of db a d \<Longrightarrow> timed_by db a d t t1 d' k now sq \<Longrightarrow> advances d d' \<Longrightarrow>
    ended_by t1 t' \<Longrightarrow> moves a a' \<Longrightarrow> ai_state a' = OUTPUT_COMMITTED \<Longrightarrow>
    at_owner_id p = ai_owner_id a \<Longrightarrow> at_activity_instance_id p = ai_id a \<Longrightarrow>
    at_attempt_kind p = ai_attempt_kind a' \<Longrightarrow> attempt_checks p \<Longrightarrow> at_id p = db_next_id db \<Longrightarrow>
    list_all (\<lambda>l. al_owner_id l = ai_owner_id a \<and> al_activity_instance_id l = ai_id a
       \<and> al_attempt_id l = Some (at_id p)) ls \<Longrightarrow> db_next_id db < n \<Longrightarrow>
    with_receipt (db\<lparr>db_days := put_row sd_id d' (db_days db),
      db_activities := put_row ai_id a' (db_activities db),
      db_timers := put_row ts_id t' (db_timers db),
      db_attempts := db_attempts db @ [p], db_links := db_links db @ ls,
      db_next_id := n\<rparr>) db' \<Longrightarrow>
    study_step db db'"
| reviewed: "a \<in> set (db_activities db) \<Longrightarrow> moves a a' \<Longrightarrow> ai_state a' = SELF_REVIEW_COMPLETE \<Longrightarrow>
    p \<in> set (db_attempts db) \<Longrightarrow> at_owner_id p = ai_owner_id a \<Longrightarrow>
    at_activity_instance_id p = ai_id a \<Longrightarrow>
    review_fields r = (ai_owner_id a, ai_id a, at_id p) \<Longrightarrow> review_checks r \<Longrightarrow>
    with_receipt (db\<lparr>db_activities := put_row ai_id a' (db_activities db),
      db_reviews := db_reviews db @ [r], db_next_id := db_next_id db + 1\<rparr>) db' \<Longrightarrow>
    study_step db db'"
| revealed: "a \<in> set (db_activities db) \<Longrightarrow> ai_state a \<in> {READY, ACTIVE, PAUSED} \<Longrightarrow>
    a' = a\<lparr>ai_source_hidden := h, ai_optimistic_version := ai_optimistic_version a + 1\<rparr> \<Longrightarrow>
    activity_checks a' \<Longrightarrow>
    with_receipt (db\<lparr>db_activities := put_row ai_id a' (db_activities db)\<rparr>) db' \<Longrightarrow>
    study_step db db'"
| uploaded: "adds_uploads db db' \<Longrightarrow> study_step db db'"

section \<open>Flushes as changes\<close>

lemma ACTIVITY_TRANSITIONS_iff:
  "t \<in> set (ACTIVITY_TRANSITIONS s) \<longleftrightarrow> (s, t) \<in> set activity_transitions"
  by (cases s; cases t) (simp_all add: activity_transitions_def)

lemma put_row_id:
  assumes "distinct (map key xs)" "x \<in> set xs"
  shows "put_row key x xs = xs"
  unfolding put_row_def using assms by (auto intro!: map_idI dest: inj_onD simp: distinct_map)

lemma flush_activity_moves:
  assumes "flush_activity a a' db = Inr db'" "ai_id a' = ai_id a" "ai_state a' \<noteq> ai_state a"
  shows "moves a a'" "db' = db\<lparr>db_activities := put_row ai_id a' (db_activities db)\<rparr>"
proof -
  from assms(1) have v: "validate_activity_workflow a a' = Inr ()"
    and g: "guard_activity_update a a' = Inr ()" and c: "activity_checks a'"
    and "db' = db\<lparr>db_activities := put_row ai_id a' (db_activities db)\<rparr>"
    by (simp_all add: flush_simps)
  then show "db' = db\<lparr>db_activities := put_row ai_id a' (db_activities db)\<rparr>" by simp
  from v have "validate_activity_shape a' = Inr ()"
    by (simp add: validate_activity_workflow_def Let_def split: if_splits)
  with g c assms(2,3) show "moves a a'"
    unfolding guard_activity_update_def moves_def ACTIVITY_TRANSITIONS_iff [symmetric]
    by (auto split: if_splits)
qed

lemma flush_day_advances:
  assumes "flush_day d d' db = Inr db'" "sd_id d' = sd_id d" "d \<in> set (db_days db)"
    and "distinct (map sd_id (db_days db))" "sd_status d' \<in> {sd_status d, ''in_progress''}"
  shows "advances d d'" "db' = db\<lparr>db_days := put_row sd_id d' (db_days db)\<rparr>"
proof -
  show "db' = db\<lparr>db_days := put_row sd_id d' (db_days db)\<rparr>"
    using assms(1,3,4) by (auto simp: flush_simps put_row_id)
  show "advances d d'"
    using assms(1,2,5)
    by (auto simp: flush_simps advances_def guard_study_day_update_def
        validate_study_day_workflow_def split: if_splits)
qed

section \<open>Every accepted command is a step\<close>

definition rows_ok :: "study_db \<Rightarrow> bool" where
  "rows_ok db \<longleftrightarrow>
     distinct (map sd_id (db_days db)) \<and> distinct (map ai_id (db_activities db))
     \<and> distinct (map receipt_key (db_receipts db))
     \<and> list_all (\<lambda>a. validate_activity_shape a = Inr ()) (db_activities db)"

lemma shape_of:
  "rows_ok db \<Longrightarrow> a \<in> set (db_activities db) \<Longrightarrow> validate_activity_shape a = Inr ()"
  by (simp add: rows_ok_def list_all_iff)

lemma shape_ready: "validate_activity_shape a = Inr () \<Longrightarrow> ai_state a = READY \<Longrightarrow> ai_started_at a = None"
  by (simp add: validate_activity_shape_def split: if_splits)

lemma shape_active: "validate_activity_shape a = Inr () \<Longrightarrow> ai_state a = ACTIVE \<Longrightarrow> ai_started_at a \<noteq> None"
  by (simp add: validate_activity_shape_def split: if_splits)

lemma load_row:
  "load_activity db ow i = Inr row \<Longrightarrow> row_of db (lk_activity row) (lk_day row)"
  using load_activity_Inr [of db ow i row] by (simp add: row_of_def)

lemma begin_timer_fresh:
  assumes "begin_timer (ai_owner_id a) (ai_id a) key now db = Inr db'"
    and "db_timers db = db_timers db0" "db_next_id db = db_next_id db0"
  shows "\<exists>t. fresh_timer db0 a t
    \<and> db' = db\<lparr>db_timers := db_timers db @ [t], db_next_id := db_next_id db + 1\<rparr>"
proof -
  let ?n = "new_timer (ai_owner_id a) (ai_id a) key \<lparr>started_at = Aware now 0,
    last_heartbeat_at = Aware now 0, counted_seconds = 0, last_client_sequence = 0,
    paused_at = None, ended_at = None\<rparr>"
  from assms(1) obtain t where "insert_timer ?n db = Inr (db', t)" unfolding begin_timer_Inr ..
  then have t: "t = ?n\<lparr>ts_id := db_next_id db\<rparr>" and c: "timer_checks t"
    and n: "\<not> (ts_ended_at t = None
        \<and> list_ex (open_timer_of (ts_activity_instance_id t)) (db_timers db))"
    and db': "db' = db\<lparr>db_timers := db_timers db @ [t], db_next_id := db_next_id db + 1\<rparr>"
    unfolding insert_timer_Inr by blast+
  have "fresh_timer db0 a t"
    using c n assms(2,3) unfolding fresh_timer_def open_timer_of_def t by simp
  with db' show ?thesis by blast
qed

lemma start_step:
  assumes ok: "rows_ok db" and run: "start sv db ow i v key = Inr (db', r)"
  shows "study_step db db'"
  using run unfolding start_def Let_def storage_guard_Inr bind_result_Inr_iff replay_or_Inr
proof (elim exE conjE disjE)
  fix row
  assume "db' = db"
  then show ?thesis by (simp add: replayed)
next
  fix row decision now day moved db1 db2 db3 r1 db4
  assume l: "load_activity db ow i = Inr row"
    and dec: "decide_transition row ACTIVE v = Inr decision"
    and day: "(if sd_status (lk_day row) = ''planned''
        then bind_result (set_day_status ''in_progress'' (lk_day row)) (set_day_started_at (Some now))
        else Inr (lk_day row)) = Inr day"
    and mv: "set_activity_state (td_state decision) (lk_activity row) = Inr moved"
    and f1: "flush_day (lk_day row) day db = Inr db1"
    and f2: "flush_activity (lk_activity row)
        (moved\<lparr>ai_started_at := Some now, ai_optimistic_version := td_next_version decision\<rparr>) db1
          = Inr db2"
    and f3: "begin_timer ow i key now db2 = Inr db3"
    and f4: "save_receipt sv 1 ow ''activity.start'' key
        (request_hash sv [JStr ''start'', JInt i, JInt v]) (Activity_payload r1) db3 = Inr db4"
    and out: "Inr (db4, r1) = Inr (db', r)"
  let ?a = "lk_activity row" and ?d = "lk_day row"
  let ?a' = "moved\<lparr>ai_started_at := Some now, ai_optimistic_version := td_next_version decision\<rparr>"
  note ld = load_activity_Inr [OF l]
  have st: "td_state decision = ACTIVE" "(ai_state ?a, ACTIVE) \<in> set activity_transitions"
    "sd_status ?d \<in> {''planned'', ''in_progress''}"
    using dec by (auto simp: decided)
  have m: "moved = ?a\<lparr>ai_state := ACTIVE\<rparr>" using mv st(1) by (auto simp: set_activity_state_Inr)
  have dd: "sd_id day = sd_id ?d" "sd_status day = ''in_progress''"
    "sd_focused_minutes day = sd_focused_minutes ?d"
    using day st(3) by (auto simp: result_simps set_day_status_def set_day_started_at_def
        split: if_splits)
  have adv: "advances ?d day" and db1: "db1 = db\<lparr>db_days := put_row sd_id day (db_days db)\<rparr>"
    using flush_day_advances [OF f1 dd(1) ld(4)] ok dd(2) by (auto simp: rows_ok_def)
  have ne: "ai_state ?a \<noteq> ACTIVE" using st(2) by (auto simp: activity_transitions_def)
  have mov: "moves ?a ?a'"
    and db2: "db2 = db1\<lparr>db_activities := put_row ai_id ?a' (db_activities db1)\<rparr>"
    using flush_activity_moves [OF f2] ne by (simp_all add: m)
  obtain t where t: "fresh_timer db ?a t"
    and db3: "db3 = db2\<lparr>db_timers := db_timers db2 @ [t], db_next_id := db_next_id db2 + 1\<rparr>"
    using begin_timer_fresh [of ?a key now db2 db3 db] f3 ld(2,3) by (auto simp: db1 db2)
  show ?thesis
    using study_step.begun [OF load_row [OF l] mov _ adv dd(2,3) t, of db']
      save_receipt_with [OF f4] out
    by (simp add: db1 db2 db3 m)
qed

lemma case_option_Inr:
  "(case x of None \<Rightarrow> Inl e | Some y \<Rightarrow> f y) = Inr z \<longleftrightarrow> (\<exists>y. x = Some y \<and> f y = Inr z)"
  by (cases x) auto

lemmas run_simps = Let_def storage_guard_Inr bind_result_Inr_iff replay_or_Inr guard_Inr_iff
  case_option_Inr split_paired_Ex prod.case

lemma resume_step:
  assumes ok: "rows_ok db" and run: "resume sv db ow i v key = Inr (db', r)"
  shows "study_step db db'"
  using run unfolding resume_def run_simps
proof (elim exE conjE disjE)
  assume "db' = db"
  then show ?thesis by (simp add: replayed)
next
  fix row decision found now moved db1 db2 db3 r1
  assume l: "load_activity db ow i = Inr row"
    and dec: "decide_transition row ACTIVE v = Inr decision"
    and mv: "set_activity_state (td_state decision) (lk_activity row) = Inr moved"
    and f1: "flush_activity (lk_activity row)
        (moved\<lparr>ai_optimistic_version := td_next_version decision\<rparr>) db = Inr db1"
    and f2: "begin_timer ow i key now db1 = Inr db2"
    and f3: "save_receipt sv 1 ow ''activity.resume'' key
        (request_hash sv [JStr ''resume'', JInt i, JInt v]) (Activity_payload r1) db2 = Inr db3"
    and out: "Inr (db3, r1) = Inr (db', r)"
  let ?a = "lk_activity row" and ?d = "lk_day row"
  let ?a' = "moved\<lparr>ai_optimistic_version := td_next_version decision\<rparr>"
  note ld = load_activity_Inr [OF l]
  have st: "td_state decision = ACTIVE" "(ai_state ?a, ACTIVE) \<in> set activity_transitions"
    "ai_state ?a = PAUSED \<Longrightarrow> sd_status ?d = ''in_progress''"
    using dec by (auto simp: decided)
  have m: "moved = ?a\<lparr>ai_state := ACTIVE\<rparr>" using mv st(1) by (auto simp: set_activity_state_Inr)
  have ne: "ai_state ?a \<noteq> ACTIVE" using st(2) by (auto simp: activity_transitions_def)
  have mov: "moves ?a ?a'"
    and db1: "db1 = db\<lparr>db_activities := put_row ai_id ?a' (db_activities db)\<rparr>"
    using flush_activity_moves [OF f1] ne by (simp_all add: m)
  have "validate_activity_shape ?a' = Inr ()" using mov unfolding moves_def by blast
  from shape_active [OF this] have "ai_started_at ?a \<noteq> None" by (simp add: m)
  then have "ai_state ?a = PAUSED"
    using shape_ready [OF shape_of [OF ok ld(1)]] st(2) by (auto simp: activity_transitions_def)
  then have d: "sd_status ?d = ''in_progress''" by (rule st(3))
  have same: "put_row sd_id ?d (db_days db) = db_days db"
    using ok ld(4) by (intro put_row_id) (simp_all add: rows_ok_def)
  have adv: "advances ?d ?d" by (simp add: advances_def)
  obtain t where t: "fresh_timer db ?a t"
    and db2: "db2 = db1\<lparr>db_timers := db_timers db1 @ [t], db_next_id := db_next_id db1 + 1\<rparr>"
    using begin_timer_fresh [of ?a key now db1 db2 db] f2 ld(2,3) by (auto simp: db1)
  show ?thesis
    using study_step.begun [OF load_row [OF l] mov _ adv d refl t, of db']
      save_receipt_with [OF f3] out
    by (simp add: db1 db2 m same)
qed

text \<open>The heartbeat inside a command: the time counted, and the database with the timer flushed.\<close>

lemma heartbeat_parts:
  assumes "load_activity db ow i = Inr row" "open_timer db (lk_activity row) = Inr (Some timer)"
    and "apply_timer_heartbeat db row timer sq now = Inr (db1, t1, day)"
  shows "\<exists>k. timed_by db (lk_activity row) (lk_day row) timer t1 day k now sq"
    and "db1 = db\<lparr>db_timers := put_row ts_id t1 (db_timers db)\<rparr>"
  using apply_timer_heartbeat_timed [OF assms(3)] open_timer_Some [OF assms(2)] by blast+

lemma timed_by_day:
  "timed_by db a d t t' d' k now sq \<Longrightarrow> sd_id d' = sd_id d \<and> sd_status d' = sd_status d"
  by (simp add: timed_by_def)

lemma timed_by_timer: "timed_by db a d t t' d' k now sq \<Longrightarrow> ts_id t' = ts_id t"
  by (simp add: timed_by_def)

lemma put_row_put_row:
  "key y = key x \<Longrightarrow> put_row key y (put_row key x xs) = put_row key y xs"
  by (simp add: put_row_def)

lemma service_heartbeat_step:
  assumes ok: "rows_ok db" and run: "service_heartbeat sv db ow i v n key = Inr (db', r)"
  shows "study_step db db'"
  using run unfolding service_heartbeat_def run_simps
proof (elim exE conjE disjE)
  assume "db' = db"
  then show ?thesis by (simp add: replayed)
next
  fix row found timer now db1 t1 day r1 db2 db3
  assume l: "load_activity db ow i = Inr row" and act: "\<not> ai_state (lk_activity row) \<noteq> ACTIVE"
    and o: "open_timer db (lk_activity row) = Inr found" "found = Some timer"
    and ap: "apply_timer_heartbeat db row timer n now = Inr (db1, t1, day)"
    and f1: "flush_day (lk_day row) day db1 = Inr db2"
    and f2: "save_receipt sv 1 ow ''activity.heartbeat'' key
        (request_hash sv [JStr ''heartbeat'', JInt i, JInt v, JInt n]) (Activity_payload r1) db2
          = Inr db3"
    and out: "Inr (db3, r1) = Inr (db', r)"
  note ld = load_activity_Inr [OF l]
  obtain k where k: "timed_by db (lk_activity row) (lk_day row) timer t1 day k now n"
    and db1: "db1 = db\<lparr>db_timers := put_row ts_id t1 (db_timers db)\<rparr>"
    using heartbeat_parts [OF l _ ap] o by blast
  have adv: "advances (lk_day row) day"
    and db2: "db2 = db1\<lparr>db_days := put_row sd_id day (db_days db1)\<rparr>"
    using flush_day_advances [OF f1] timed_by_day [OF k] ld(4) ok
    by (simp_all add: db1 rows_ok_def)
  show ?thesis
    using study_step.beat [OF load_row [OF l] _ k adv, of db'] save_receipt_with [OF f2] act out
    by (simp add: db1 db2)
qed

lemma ended_by_flush:
  assumes "flush_timer t1 (t1\<lparr>ts_paused_at := p, ts_ended_at := Some now\<rparr>) db = Inr db'"
  shows "ended_by t1 (t1\<lparr>ts_paused_at := p, ts_ended_at := Some now\<rparr>)"
    and "db' = db\<lparr>db_timers :=
      put_row ts_id (t1\<lparr>ts_paused_at := p, ts_ended_at := Some now\<rparr>) (db_timers db)\<rparr>"
  using assms unfolding flush_timer_Inr ended_by_def by blast+

lemma pause_step:
  assumes ok: "rows_ok db" and run: "pause sv db ow i v n key = Inr (db', r)"
  shows "study_step db db'"
  using run unfolding pause_def run_simps
proof (elim exE conjE disjE)
  assume "db' = db"
  then show ?thesis by (simp add: replayed)
next
  fix row decision found timer now db1 t1 day moved db2 db3 db4 r1 db5
  assume l: "load_activity db ow i = Inr row"
    and dec: "decide_transition row PAUSED v = Inr decision"
    and o: "open_timer db (lk_activity row) = Inr found" "found = Some timer"
    and ap: "apply_timer_heartbeat db row timer n now = Inr (db1, t1, day)"
    and mv: "set_activity_state (td_state decision) (lk_activity row) = Inr moved"
    and f1: "flush_day (lk_day row) day db1 = Inr db2"
    and f2: "flush_activity (lk_activity row)
        (moved\<lparr>ai_optimistic_version := td_next_version decision\<rparr>) db2 = Inr db3"
    and f3: "flush_timer t1 (t1\<lparr>ts_paused_at := Some now, ts_ended_at := Some now\<rparr>) db3 = Inr db4"
    and f4: "save_receipt sv 1 ow ''activity.pause'' key
        (request_hash sv [JStr ''pause'', JInt i, JInt v, JInt n]) (Activity_payload r1) db4
          = Inr db5"
    and out: "Inr (db5, r1) = Inr (db', r)"
  let ?a = "lk_activity row"
  let ?a' = "moved\<lparr>ai_optimistic_version := td_next_version decision\<rparr>"
  note ld = load_activity_Inr [OF l]
  have st: "td_state decision = PAUSED" "(ai_state ?a, PAUSED) \<in> set activity_transitions"
    using dec by (auto simp: decided)
  have act: "ai_state ?a = ACTIVE" using st(2) by (auto simp: activity_transitions_def)
  have m: "moved = ?a\<lparr>ai_state := PAUSED\<rparr>" using mv st(1) by (auto simp: set_activity_state_Inr)
  obtain k where k: "timed_by db ?a (lk_day row) timer t1 day k now n"
    and db1: "db1 = db\<lparr>db_timers := put_row ts_id t1 (db_timers db)\<rparr>"
    using heartbeat_parts [OF l _ ap] o by blast
  have adv: "advances (lk_day row) day"
    and db2: "db2 = db1\<lparr>db_days := put_row sd_id day (db_days db1)\<rparr>"
    using flush_day_advances [OF f1] timed_by_day [OF k] ld(4) ok
    by (simp_all add: db1 rows_ok_def)
  have mov: "moves ?a ?a'"
    and db3: "db3 = db2\<lparr>db_activities := put_row ai_id ?a' (db_activities db2)\<rparr>"
    using flush_activity_moves [OF f2] act by (simp_all add: m)
  note ended = ended_by_flush [OF f3]
  show ?thesis
    using study_step.stopped [OF load_row [OF l] _ k adv ended(1) mov, of db'] act
      save_receipt_with [OF f4] out
    by (simp add: db1 db2 db3 ended(2) m put_row_put_row)
qed

lemma classify_incomplete_step:
  assumes ok: "rows_ok db" and run: "classify_incomplete sv db ow i v cls e key = Inr (db', r)"
  shows "study_step db db'"
  using run unfolding classify_incomplete_def run_simps
proof (elim exE conjE disjE)
  assume "db' = db"
  then show ?thesis by (simp add: replayed)
next
  fix row decision found now db1 ended day moved db2 db3 db4 r1 db5
  assume l: "load_activity db ow i = Inr row"
    and dec: "decide_transition row INCOMPLETE v = Inr decision"
    and o: "open_timer db (lk_activity row) = Inr found"
    and tm: "(case found of None \<Rightarrow> Inr (db, None, lk_day row)
        | Some timer \<Rightarrow> bind_result
            (apply_timer_heartbeat db row timer (ts_last_client_sequence timer + 1) now)
            (\<lambda>(db1, timer1, day). Inr (db1, Some timer1, day))) = Inr (db1, ended, day)"
    and mv: "set_activity_state (td_state decision) (lk_activity row) = Inr moved"
    and f1: "flush_day (lk_day row) day db1 = Inr db2"
    and f2: "flush_activity (lk_activity row)
        (moved\<lparr>ai_classification := cls, ai_stronger_evidence_activity_id := e,
           ai_completed_at := Some now, ai_optimistic_version := td_next_version decision\<rparr>) db2
          = Inr db3"
    and f3: "(case ended of None \<Rightarrow> Inr db3
        | Some timer1 \<Rightarrow> flush_timer timer1 (timer1\<lparr>ts_ended_at := Some now\<rparr>) db3) = Inr db4"
    and f4: "save_receipt sv 1 ow ''activity.classify-incomplete'' key
        (request_hash sv [JStr ''classify-incomplete'', JInt i, JInt v, JStr cls, json_opt e])
          (Activity_payload r1) db4 = Inr db5"
    and out: "Inr (db5, r1) = Inr (db', r)"
  let ?a = "lk_activity row"
  let ?a' = "moved\<lparr>ai_classification := cls, ai_stronger_evidence_activity_id := e,
    ai_completed_at := Some now, ai_optimistic_version := td_next_version decision\<rparr>"
  note ld = load_activity_Inr [OF l]
  have st: "td_state decision = INCOMPLETE" "(ai_state ?a, INCOMPLETE) \<in> set activity_transitions"
    using dec by (auto simp: decided)
  have act: "ai_state ?a \<in> {ACTIVE, PAUSED}" using st(2) by (auto simp: activity_transitions_def)
  have m: "moved = ?a\<lparr>ai_state := INCOMPLETE\<rparr>"
    using mv st(1) by (auto simp: set_activity_state_Inr)
  have mov: "moves ?a ?a'"
    and db3: "db3 = db2\<lparr>db_activities := put_row ai_id ?a' (db_activities db2)\<rparr>"
    using flush_activity_moves [OF f2] act by (auto simp: m)
  show ?thesis
  proof (cases found)
    case None
    then have parts: "db1 = db" "ended = None" "day = lk_day row" using tm by simp_all
    have "db2 = db" using f1 by (simp add: parts flush_simps)
    then show ?thesis
      using study_step.abandoned [OF ld(1) mov, of db'] open_timer_None o None f3
        save_receipt_with [OF f4] out
      by (auto simp: parts db3 m)
  next
    case (Some timer)
    then obtain t1 where parts: "ended = Some t1"
      and ap: "apply_timer_heartbeat db row timer (ts_last_client_sequence timer + 1) now
        = Inr (db1, t1, day)"
      using tm by (auto simp: result_simps)
    obtain k where k: "timed_by db ?a (lk_day row) timer t1 day k now (ts_last_client_sequence timer + 1)"
      and db1: "db1 = db\<lparr>db_timers := put_row ts_id t1 (db_timers db)\<rparr>"
      using heartbeat_parts [OF l _ ap] o Some by blast
    have adv: "advances (lk_day row) day"
      and db2: "db2 = db1\<lparr>db_days := put_row sd_id day (db_days db1)\<rparr>"
      using flush_day_advances [OF f1] timed_by_day [OF k] ld(4) ok
      by (simp_all add: db1 rows_ok_def)
    have "flush_timer t1 (t1\<lparr>ts_paused_at := ts_paused_at t1, ts_ended_at := Some now\<rparr>) db3 = Inr db4"
      using f3 parts by simp
    note ended = ended_by_flush [OF this]
    show ?thesis
      using study_step.stopped [OF load_row [OF l] act k adv ended(1) mov, of db']
        save_receipt_with [OF f4] out
      by (simp add: db1 db2 db3 ended(2) m put_row_put_row)
  qed
qed

lemma set_source_visibility_step:
  assumes ok: "rows_ok db" and run: "set_source_visibility sv db ow i v h key = Inr (db', r)"
  shows "study_step db db'"
  using run unfolding set_source_visibility_def run_simps
proof (elim exE conjE disjE)
  assume "db' = db"
  then show ?thesis by (simp add: replayed)
next
  fix row u db1 act r1 db2
  assume l: "load_activity db ow i = Inr row"
    and rq: "require_version_and_state row v [READY, ACTIVE, PAUSED] = Inr u"
    and f1: "(if ai_source_hidden (lk_activity row) \<noteq> h
        then bind_result (flush_activity (lk_activity row)
               ((lk_activity row)\<lparr>ai_source_hidden := h,
                  ai_optimistic_version := ai_optimistic_version (lk_activity row) + 1\<rparr>) db)
               (\<lambda>db1. Inr (db1, (lk_activity row)\<lparr>ai_source_hidden := h,
                  ai_optimistic_version := ai_optimistic_version (lk_activity row) + 1\<rparr>))
        else Inr (db, lk_activity row)) = Inr (db1, act)"
    and f2: "save_receipt sv 0 ow ''activity.source-visibility'' key
        (request_hash sv [JStr ''source-visibility'', JInt i, JInt v, JBool h])
          (Detail_payload r1) db1 = Inr db2"
    and out: "Inr (db2, r1) = Inr (db', r)"
  let ?a = "lk_activity row"
  have st: "ai_state ?a \<in> {READY, ACTIVE, PAUSED}"
    using rq by (auto simp: require_version_and_state_def split: if_splits)
  show ?thesis
  proof (cases "ai_source_hidden ?a = h")
    case True
    then have "db1 = db" using f1 by simp
    then show ?thesis using save_receipt_with [OF f2] out by (auto intro: noted)
  next
    case False
    let ?a' = "?a\<lparr>ai_source_hidden := h, ai_optimistic_version := ai_optimistic_version ?a + 1\<rparr>"
    from False f1 have "flush_activity ?a ?a' db = Inr db1" by (auto simp: result_simps)
    then have c: "activity_checks ?a'"
      and db1: "db1 = db\<lparr>db_activities := put_row ai_id ?a' (db_activities db)\<rparr>"
      unfolding flush_activity_Inr by blast+
    show ?thesis
      using study_step.revealed [OF load_activity_Inr(1) [OF l] st refl c, of db']
        save_receipt_with [OF f2] out
      by (simp add: db1)
  qed
qed

lemma submit_self_review_step:
  assumes ok: "rows_ok db" and run: "submit_self_review sv db ow i v ans s key = Inr (db', r)"
  shows "study_step db db'"
  using run unfolding submit_self_review_def run_simps
proof (elim exE conjE disjE)
  assume "db' = db"
  then show ?thesis by (simp add: replayed)
next
  fix row found now db1 db2 db3
    and decision :: transition_decision and att :: attempt
    and moved :: activity_instance and review :: self_review
  let ?r0 = "\<lparr>sr_id = 0, sr_owner_id = ow, sr_activity_instance_id = i,
         sr_attempt_id = at_id att, sr_main_answer = ra_main_answer ans,
         sr_did_well = ra_did_well ans,
         sr_structure_weakness = ra_structure_weakness ans,
         sr_vague_points = ra_vague_points ans,
         sr_hesitation_points = ra_hesitation_points ans,
         sr_change_next = ra_change_next ans, sr_self_score = s,
         sr_submitted_at = now\<rparr>"
  let ?out = "\<lparr>rr_activity_id = i, rr_state = SELF_REVIEW_COMPLETE,
              rr_optimistic_version = ai_optimistic_version
                (moved\<lparr>ai_optimistic_version := td_next_version decision\<rparr>),
              rr_self_review_id = sr_id review,
              rr_attempt_id = at_id att, rr_self_score = s\<rparr>"
  assume l: "load_activity db ow i = Inr row"
    and dec: "decide_transition row SELF_REVIEW_COMPLETE v = Inr decision"
    and att: "attempt_for_activity db ow i = Inr found" "found = Some att"
    and mv: "set_activity_state (td_state decision) (lk_activity row) = Inr moved"
    and f1: "flush_activity (lk_activity row)
        (moved\<lparr>ai_optimistic_version := td_next_version decision\<rparr>) db = Inr db1"
    and f2: "insert_review ?r0 db1 = Inr (db2, review)"
    and f3: "save_receipt sv 1 ow ''activity.self-review'' key
        (request_hash sv ([JStr ''self-review'', JInt i, JInt v]
           @ map JStr (answer_list ans) @ [JInt s])) (Review_payload ?out) db2 = Inr db3"
    and out: "Inr (db3, ?out) = Inr (db', r)"
  let ?a = "lk_activity row"
  let ?a' = "moved\<lparr>ai_optimistic_version := td_next_version decision\<rparr>"
  note ld = load_activity_Inr [OF l]
  have st: "td_state decision = SELF_REVIEW_COMPLETE"
    "(ai_state ?a, SELF_REVIEW_COMPLETE) \<in> set activity_transitions"
    using dec by (auto simp: decided)
  have ne: "ai_state ?a \<noteq> SELF_REVIEW_COMPLETE" using st(2) by (auto simp: activity_transitions_def)
  have m: "moved = ?a\<lparr>ai_state := SELF_REVIEW_COMPLETE\<rparr>"
    using mv st(1) by (auto simp: set_activity_state_Inr)
  have mov: "moves ?a ?a'"
    and db1: "db1 = db\<lparr>db_activities := put_row ai_id ?a' (db_activities db)\<rparr>"
    using flush_activity_moves [OF f1] ne by (simp_all add: m)
  have p: "att \<in> set (db_attempts db)" "at_owner_id att = ai_owner_id ?a"
    "at_activity_instance_id att = ai_id ?a"
    using att ld(2,3) by (auto simp: attempt_for_activity_def one_or_none_Inr dest!: filter_singleton)
  from f2 have rv: "review = ?r0\<lparr>sr_id := db_next_id db1\<rparr>" and rc: "review_checks review"
    and db2: "db2 = db1\<lparr>db_reviews := db_reviews db1 @ [review], db_next_id := db_next_id db1 + 1\<rparr>"
    unfolding insert_review_Inr by blast+
  have rf: "review_fields review = (ai_owner_id ?a, ai_id ?a, at_id att)"
    using ld(2,3) by (simp add: rv review_fields_def)
  show ?thesis
    using study_step.reviewed [OF ld(1) mov _ p rf rc, of db'] save_receipt_with [OF f3] out
    by (simp add: db1 db2 m)
qed

text \<open>Uploads only append, one row at a time.\<close>

lemma adds_uploads_trans:
  assumes "adds_uploads db db1" "adds_uploads db1 db2"
  shows "adds_uploads db db2"
proof -
  from assms(1) obtain as ls cs n where 1: "list_all artifact_checks as"
    "list_all (\<lambda>l. al_attempt_id l = None) ls" "db_next_id db \<le> n"
    "db1 = db\<lparr>db_artifacts := db_artifacts db @ as, db_links := db_links db @ ls,
       db_receipts := db_receipts db @ cs, db_next_id := n\<rparr>"
    unfolding adds_uploads_def by blast
  from assms(2) obtain as' ls' cs' n' where 2: "list_all artifact_checks as'"
    "list_all (\<lambda>l. al_attempt_id l = None) ls'" "db_next_id db1 \<le> n'"
    "distinct (map receipt_key (db_receipts db1 @ cs'))"
    "db2 = db1\<lparr>db_artifacts := db_artifacts db1 @ as', db_links := db_links db1 @ ls',
       db_receipts := db_receipts db1 @ cs', db_next_id := n'\<rparr>"
    unfolding adds_uploads_def by blast
  show ?thesis
    unfolding adds_uploads_def
    by (intro exI [of _ "as @ as'"] exI [of _ "ls @ ls'"] exI [of _ "cs @ cs'"] exI [of _ n'] conjI)
      (use 1 2 in simp_all)
qed

lemma adds_uploads_one:
  assumes "distinct (map receipt_key (db_receipts db))"
  shows "adds_uploads db db"
    and "with_receipt db db' \<Longrightarrow> adds_uploads db db'"
    and "insert_artifact a0 db = Inr (db', a) \<Longrightarrow> adds_uploads db db'"
    and "al_attempt_id l0 = None \<Longrightarrow> insert_link l0 db = Inr db' \<Longrightarrow> adds_uploads db db'"
proof -
  show "adds_uploads db db"
    unfolding adds_uploads_def using assms
    by (intro exI [of _ "[]"] exI [of _ "db_next_id db"] conjI) simp_all
  show "with_receipt db db' \<Longrightarrow> adds_uploads db db'"
    unfolding adds_uploads_def with_receipt_def using assms
    by (elim exE conjE, intro exI [of _ "[]"] exI [of _ "[_]"] exI [of _ "db_next_id db + 1"] conjI)
      simp_all
  show "insert_artifact a0 db = Inr (db', a) \<Longrightarrow> adds_uploads db db'"
    unfolding adds_uploads_def insert_artifact_Inr using assms
    by (elim conjE, intro exI [of _ "[a]"] exI [of _ "[]"] exI [of _ "db_next_id db + 1"] conjI)
      simp_all
  show "al_attempt_id l0 = None \<Longrightarrow> insert_link l0 db = Inr db' \<Longrightarrow> adds_uploads db db'"
    unfolding adds_uploads_def insert_link_Inr using assms
    by (elim conjE, intro exI [of _ "[]"] exI [of _ "[l0\<lparr>al_id := db_next_id db\<rparr>]"]
        exI [of _ "db_next_id db + 1"] conjI) simp_all
qed

lemma adds_uploads_receipts:
  "adds_uploads db db' \<Longrightarrow> distinct (map receipt_key (db_receipts db'))"
  by (auto simp: adds_uploads_def)

lemma pending_link_adds:
  assumes "distinct (map receipt_key (db_receipts db))"
    and "ensure_pending_artifact_link sv k ow i art db = Inr db'"
  shows "adds_uploads db db'"
  using assms(2) adds_uploads_one(1) [OF assms(1)]
  by (auto simp: ensure_pending_artifact_link_def result_simps
      elim!: adds_uploads_one(4) [OF assms(1), rotated] split: if_splits)

lemma confirm_new_adds:
  assumes "distinct (map receipt_key (db_receipts db))"
    and "confirm_new_artifact sv st db ow rc ok = Inr (db', a)"
  shows "adds_uploads db db'"
  using assms(2) adds_uploads_one(1,3) [OF assms(1)]
  by (auto simp: confirm_new_artifact_def result_simps split: option.splits)

lemma reuse_adds:
  assumes "distinct (map receipt_key (db_receipts db))" "reuse_artifact st db ow rc = Inr (db', a)"
  shows "adds_uploads db db'"
  using assms(2) adds_uploads_one(1) [OF assms(1)]
  by (auto simp: reuse_artifact_def result_simps split: option.splits)

lemma presign_finish:
  assumes "rows_ok db" "db1 = db \<or> with_receipt db db1"
    and "(case (ir_reused rc, ir_artifact_id rc) of
          (True, Some i') \<Rightarrow> ensure_pending_artifact_link sv 1 ow i i' db1
        | _ \<Rightarrow> Inr db1) = Inr db'"
  shows "study_step db db'"
proof -
  have d: "distinct (map receipt_key (db_receipts db))" using assms(1) by (simp add: rows_ok_def)
  have 1: "adds_uploads db db1" using assms(2) adds_uploads_one [OF d] by blast
  have "adds_uploads db1 db'"
    using assms(3) pending_link_adds [OF adds_uploads_receipts [OF 1]]
      adds_uploads_one(1) [OF adds_uploads_receipts [OF 1]]
    by (auto split: bool.splits option.splits)
  with 1 show ?thesis by (blast intro: uploaded adds_uploads_trans)
qed

lemma presign_artifact_step:
  assumes ok: "rows_ok db" and run: "presign_artifact sv db ow i v c h n t f key = Inr (db', r)"
  shows "study_step db db'"
  using run unfolding presign_artifact_def Let_def storage_guard_Inr bind_result_Inr_iff replay_or_Inr
    guard_Inr_iff split_paired_Ex prod.case
proof (elim exE conjE disjE)
  fix rc :: artifact_intent_receipt and db1 db2 response
  assume "db1 = db" and "(case ir_reused rc of
          True \<Rightarrow> (case ir_artifact_id rc of None \<Rightarrow> Inr db1
             | Some i' \<Rightarrow> ensure_pending_artifact_link sv 1 ow i i' db1)
        | False \<Rightarrow> Inr db1) = Inr db2" and "Inr (db2, response) = Inr (db', r)"
  then show ?thesis
    using presign_finish [OF ok, where ?db1.0 = db1 and rc = rc and sv = sv and ow = ow and i = i]
    by simp
next
  fix rc rc' :: artifact_intent_receipt and db1 db1' db2 response
  assume "save_receipt sv 0 ow ''activity.artifact.presign'' key
      (request_hash sv [JStr ''artifact-presign'', JInt i, JInt v, JStr c, JStr h, JInt n,
         JStr t, JStr f]) (Intent_payload rc') db = Inr db1'"
    and "Inr (db1', rc') = Inr (db1, rc)"
    and "(case ir_reused rc of
          True \<Rightarrow> (case ir_artifact_id rc of None \<Rightarrow> Inr db1
             | Some i' \<Rightarrow> ensure_pending_artifact_link sv 1 ow i i' db1)
        | False \<Rightarrow> Inr db1) = Inr db2" and "Inr (db2, response) = Inr (db', r)"
  then show ?thesis
    using presign_finish [OF ok, where ?db1.0 = db1 and rc = rc and sv = sv and ow = ow and i = i]
      save_receipt_with
    by fastforce
qed

lemma confirm_artifact_step:
  assumes ok: "rows_ok db" and run: "confirm_artifact sv db ow i v u okey key = Inr (db', r)"
  shows "study_step db db'"
proof -
  have d: "distinct (map receipt_key (db_receipts db))" using ok by (simp add: rows_ok_def)
  from run consider "db' = db"
    | st rc db1 a db2 where "(if ir_reused rc then reuse_artifact st db ow rc
          else confirm_new_artifact sv st db ow rc okey) = Inr (db1, a)"
        "ensure_pending_artifact_link sv 2 ow i (ar_id a) db1 = Inr db2" "with_receipt db2 db'"
    unfolding confirm_artifact_def
    by (auto simp: Let_def bind_result_Inr_iff replay_or_Inr split_paired_Ex guard_Inr_iff
        dest!: save_receipt_with)
  then show ?thesis
  proof cases
    case 1
    then show ?thesis by (simp add: replayed)
  next
    case 2
    have a: "adds_uploads db db1"
      using 2(1) confirm_new_adds [OF d] reuse_adds [OF d] by (auto split: if_splits)
    have b: "adds_uploads db1 db2" by (rule pending_link_adds [OF adds_uploads_receipts [OF a] 2(2)])
    have c: "adds_uploads db2 db'" by (rule adds_uploads_one(2) [OF adds_uploads_receipts [OF b] 2(3)])
    from a b c show ?thesis by (blast intro: uploaded adds_uploads_trans)
  qed
qed

lemma insert_links_adds:
  "insert_links ow i att now arts db = Inr db' \<Longrightarrow>
     \<exists>ls. list_all (\<lambda>l. al_owner_id l = ow \<and> al_activity_instance_id l = i
           \<and> al_attempt_id l = Some att) ls
        \<and> db' = db\<lparr>db_links := db_links db @ ls, db_next_id := db_next_id db + int (length ls)\<rparr>"
proof (induction arts arbitrary: db)
  case Nil
  then show ?case by (intro exI [of _ "[]"]) simp
next
  case (Cons x rest)
  obtain ref a where x: "x = (ref, a)" by (cases x)
  let ?l = "\<lparr>al_id = 0, al_owner_id = ow, al_activity_instance_id = i, al_attempt_id = Some att,
    al_artifact_id = ar_id a, al_link_role = snd ref, al_created_at = now\<rparr>"
  from Cons.prems obtain db1 where 1: "insert_link ?l db = Inr db1"
    and 2: "insert_links ow i att now rest db1 = Inr db'"
    by (auto simp: x bind_result_Inr_iff)
  from Cons.IH [OF 2] obtain ls where ls: "list_all (\<lambda>l. al_owner_id l = ow
      \<and> al_activity_instance_id l = i \<and> al_attempt_id l = Some att) ls"
    and db': "db' = db1\<lparr>db_links := db_links db1 @ ls,
      db_next_id := db_next_id db1 + int (length ls)\<rparr>" by blast
  have db1: "db1 = db\<lparr>db_links := db_links db @ [?l\<lparr>al_id := db_next_id db\<rparr>],
      db_next_id := db_next_id db + 1\<rparr>"
    using 1 unfolding insert_link_Inr by blast
  show ?case
    by (intro exI [of _ "?l\<lparr>al_id := db_next_id db\<rparr> # ls"] conjI) (use ls in \<open>simp_all add: db' db1\<close>)
qed

lemma commit_output_step:
  assumes ok: "rows_ok db" and run: "commit_output sv db ow i v n out refs parent key = Inr (db', r)"
  shows "study_step db db'"
  using run unfolding commit_output_def run_simps
proof (elim exE conjE disjE)
  assume "db' = db"
  then show ?thesis by (simp add: replayed)
next
  fix row kind hash found timer now db1 t1 day db2 db3 db4 db5 db6 db7
    and decision :: transition_decision and moved :: activity_instance and att :: attempt
    and validated :: validated_output and artifacts :: "(artifact_reference \<times> artifact) list"
  let ?a' = "moved\<lparr>ai_attempt_kind := kind, ai_output_committed_at := Some now,
    ai_optimistic_version := td_next_version decision\<rparr>"
  let ?att0 = "\<lparr>at_id = 0, at_owner_id = ow, at_activity_instance_id = i,
         at_attempt_kind = kind, at_parent_attempt_id = parent,
         at_original_text = Some (vo_canonical_json validated),
         at_original_markdown = vo_original_markdown validated,
         at_original_sql = vo_original_sql validated, at_audience = vo_audience validated,
         at_prompt = vo_prompt validated,
         at_assistance_mode = coached_assistance db4 ow i (ai_assistance_mode ?a'),
         at_commitment_hash = hash, at_committed_at = now, at_created_at = now\<rparr>"
  let ?out = "\<lparr>oc_activity_id = i, oc_state = OUTPUT_COMMITTED,
              oc_optimistic_version = ai_optimistic_version ?a', oc_attempt_id = at_id att,
              oc_commitment_sha256 = hash,
              oc_artifact_ids = sort (map (\<lambda>(_, a). ar_id a) artifacts)\<rparr>"
  assume l: "load_activity db ow i = Inr row"
    and dec: "decide_transition row OUTPUT_COMMITTED v = Inr decision"
    and o: "open_timer db (lk_activity row) = Inr found" "found = Some timer"
    and ap: "apply_timer_heartbeat db row timer n now = Inr (db1, t1, day)"
    and mv: "set_activity_state (td_state decision) (lk_activity row) = Inr moved"
    and f1: "flush_day (lk_day row) day db1 = Inr db2"
    and f2: "flush_activity (lk_activity row) ?a' db2 = Inr db3"
    and f3: "flush_timer t1 (t1\<lparr>ts_ended_at := Some now\<rparr>) db3 = Inr db4"
    and f4: "insert_attempt ?att0 db4 = Inr (db5, att)"
    and f5: "insert_links ow i (at_id att) now artifacts db5 = Inr db6"
    and f6: "save_receipt sv 1 ow ''activity.commit-output'' key
        (request_hash sv [JStr ''commit-output'', JInt i, JInt v, JInt n, out,
           JArr (map reference_json refs), json_opt parent]) (Commit_payload ?out) db6 = Inr db7"
    and fin: "Inr (db7, ?out) = Inr (db', r)"
  let ?a = "lk_activity row"
  note ld = load_activity_Inr [OF l]
  have st: "td_state decision = OUTPUT_COMMITTED"
    "(ai_state ?a, OUTPUT_COMMITTED) \<in> set activity_transitions"
    using dec by (auto simp: decided)
  have act: "ai_state ?a = ACTIVE" using st(2) by (auto simp: activity_transitions_def)
  have m: "moved = ?a\<lparr>ai_state := OUTPUT_COMMITTED\<rparr>"
    using mv st(1) by (auto simp: set_activity_state_Inr)
  obtain k where k: "timed_by db ?a (lk_day row) timer t1 day k now n"
    and db1: "db1 = db\<lparr>db_timers := put_row ts_id t1 (db_timers db)\<rparr>"
    using heartbeat_parts [OF l _ ap] o by blast
  have adv: "advances (lk_day row) day"
    and db2: "db2 = db1\<lparr>db_days := put_row sd_id day (db_days db1)\<rparr>"
    using flush_day_advances [OF f1] timed_by_day [OF k] ld(4) ok
    by (simp_all add: db1 rows_ok_def)
  have mov: "moves ?a ?a'"
    and db3: "db3 = db2\<lparr>db_activities := put_row ai_id ?a' (db_activities db2)\<rparr>"
    using flush_activity_moves [OF f2] act by (simp_all add: m)
  have "flush_timer t1 (t1\<lparr>ts_paused_at := ts_paused_at t1, ts_ended_at := Some now\<rparr>) db3 = Inr db4"
    using f3 by simp
  note ended = ended_by_flush [OF this]
  from f4 have att: "att = ?att0\<lparr>at_id := db_next_id db4\<rparr>" and ac: "attempt_checks att"
    and db5: "db5 = db4\<lparr>db_attempts := db_attempts db4 @ [att], db_next_id := db_next_id db4 + 1\<rparr>"
    unfolding insert_attempt_Inr by blast+
  obtain ls where ls: "list_all (\<lambda>l. al_owner_id l = ow \<and> al_activity_instance_id l = i
        \<and> al_attempt_id l = Some (at_id att)) ls"
    and db6: "db6 = db5\<lparr>db_links := db_links db5 @ ls,
        db_next_id := db_next_id db5 + int (length ls)\<rparr>"
    using insert_links_adds [OF f5] by blast
  have p: "at_owner_id att = ai_owner_id ?a" "at_activity_instance_id att = ai_id ?a"
    "at_attempt_kind att = ai_attempt_kind ?a'" "at_id att = db_next_id db"
    using ld(2,3) by (simp_all add: att ended(2) db3 db2 db1)
  note rule = study_step.committed [OF load_row [OF l] k adv ended(1) mov _ p(1,2,3) ac p(4) _ _,
      of ls "db_next_id db + 1 + int (length ls)" db']
  have "with_receipt db6 db'" using save_receipt_with [OF f6] fin by simp
  then show ?thesis
    by (intro rule) (use ls ld(2,3) in
        \<open>simp_all add: m db6 db5 ended(2) db3 db2 db1 put_row_put_row\<close>)
qed

theorem exec_study_is_step:
  assumes "rows_ok db" "exec_study db (sv, c) = Inr (db', r)"
  shows "study_step db db'"
  using assms
  by (cases c)
    (auto simp: respond_def result_simps intro: start_step service_heartbeat_step pause_step
      resume_step classify_incomplete_step set_source_visibility_step presign_artifact_step
      confirm_artifact_step commit_output_step submit_self_review_step)

end
