(* ===== verification/Study_Safety.thy ===== *)
theory Study_Safety
  imports Study_Step
begin

text \<open>
  The invariant of the study tables under the commands of the activity service, proved over the
  step relation of \<open>Study_Step\<close>, and the properties that follow for every sequence of requests.
\<close>

section \<open>The invariant\<close>

text \<open>An activity is being worked on exactly when one timer of it is open.\<close>

definition timers_ok :: "study_db \<Rightarrow> bool" where
  "timers_ok db \<longleftrightarrow>
     distinct (map ts_id (db_timers db))
     \<and> (\<forall>t \<in> set (db_timers db). ts_id t < db_next_id db \<and> timer_checks t
          \<and> (\<exists>a \<in> set (db_activities db). ai_id a = ts_activity_instance_id t
               \<and> ai_owner_id a = ts_owner_id t))
     \<and> (\<forall>a \<in> set (db_activities db).
          ai_state a = ACTIVE \<longleftrightarrow> (\<exists>t \<in> set (db_timers db). open_timer_of (ai_id a) t))
     \<and> (\<forall>t \<in> set (db_timers db). \<forall>u \<in> set (db_timers db).
          ts_ended_at t = None \<and> ts_ended_at u = None
          \<and> ts_activity_instance_id t = ts_activity_instance_id u \<longrightarrow> t = u)"

text \<open>The day's focused minutes are the whole minutes its timers counted, within the budget.\<close>

definition time_ok :: "study_db \<Rightarrow> bool" where
  "time_ok db \<longleftrightarrow>
     (\<forall>d \<in> set (db_days db).
        seconds_on_day db (sd_owner_id d) (sd_id d) \<le> maximum_minutes_of d * 60
        \<and> sd_focused_minutes d = seconds_on_day db (sd_owner_id d) (sd_id d) div 60)"

definition days_ok :: "study_db \<Rightarrow> bool" where
  "days_ok db \<longleftrightarrow>
     (\<forall>a \<in> set (db_activities db). \<forall>d \<in> set (db_days db).
        ai_state a = ACTIVE \<and> sd_id d = ai_study_day_id a \<and> sd_owner_id d = ai_owner_id a
          \<longrightarrow> sd_status d = ''in_progress'')"

text \<open>
  An activity has an attempt exactly when its output is committed, and one only; it has a self
  review exactly when it is past the self review.
\<close>

definition reviewed_states :: "activity_state list" where
  "reviewed_states = tl committed_states"

definition evidence_ok :: "study_db \<Rightarrow> bool" where
  "evidence_ok db \<longleftrightarrow>
     distinct (map at_activity_instance_id (db_attempts db))
     \<and> distinct (map at_id (db_attempts db))
     \<and> (\<forall>p \<in> set (db_attempts db). at_id p < db_next_id db \<and> attempt_checks p
          \<and> (\<exists>a \<in> set (db_activities db). ai_id a = at_activity_instance_id p
               \<and> ai_owner_id a = at_owner_id p \<and> ai_attempt_kind a = at_attempt_kind p))
     \<and> (\<forall>a \<in> set (db_activities db).
          ai_state a \<in> set committed_states
            \<longleftrightarrow> ai_id a \<in> at_activity_instance_id ` set (db_attempts db))
     \<and> (\<forall>a \<in> set (db_activities db).
          ai_state a \<in> set reviewed_states
            \<longleftrightarrow> ai_id a \<in> sr_activity_instance_id ` set (db_reviews db))"

definition study_inv :: "study_db \<Rightarrow> bool" where
  "study_inv db \<longleftrightarrow> rows_ok db \<and> timers_ok db \<and> days_ok db \<and> time_ok db \<and> evidence_ok db"

section \<open>Replacing a row\<close>

lemma map_put_row [simp]: "map key (put_row key y xs) = map key xs"
  by (simp add: put_row_def)

lemma in_put_row:
  "x \<in> set (put_row key y xs) \<longleftrightarrow>
     x \<in> set xs \<and> key x \<noteq> key y \<or> x = y \<and> (\<exists>z \<in> set xs. key z = key y)"
  by (auto simp: put_row_def)

lemma bex_put_row:
  "(\<exists>x \<in> set (put_row key y xs). Q x) \<longleftrightarrow>
     (\<exists>x \<in> set xs. key x \<noteq> key y \<and> Q x) \<or> (\<exists>x \<in> set xs. key x = key y) \<and> Q y"
  unfolding Bex_def in_put_row by blast

lemma distinct_keyD:
  "distinct (map key xs) \<Longrightarrow> x \<in> set xs \<Longrightarrow> y \<in> set xs \<Longrightarrow> key x = key y \<Longrightarrow> x = y"
  by (auto simp: distinct_map dest: inj_onD)

lemma bex_put_row_same:
  assumes "distinct (map key xs)" "x \<in> set xs" "key y = key x" "Q y = Q x"
  shows "(\<exists>z \<in> set (put_row key y xs). Q z) \<longleftrightarrow> (\<exists>z \<in> set xs. Q z)"
proof
  assume "\<exists>z \<in> set (put_row key y xs). Q z"
  then show "\<exists>z \<in> set xs. Q z" using assms(2,4) by (auto simp: in_put_row)
next
  assume "\<exists>z \<in> set xs. Q z"
  then obtain z where z: "z \<in> set xs" "Q z" by blast
  show "\<exists>z \<in> set (put_row key y xs). Q z"
  proof (cases "key z = key y")
    case True
    then have "z = x" using distinct_keyD [OF assms(1) z(1) assms(2)] assms(3) by simp
    with z assms(2-4) show ?thesis unfolding bex_put_row by metis
  next
    case False
    with z show ?thesis unfolding bex_put_row by blast
  qed
qed

lemma image_const:
  "\<forall>x \<in> set xs. f x = c \<Longrightarrow> f ` set xs = (if xs = [] then {} else {c})"
  by (cases xs) auto

lemma sum_put_row:
  fixes f :: "'r \<Rightarrow> int"
  assumes "distinct (map key xs)" "x \<in> set xs" "key y = key x" "P y = P x"
  shows "sum_list (map f (filter P (put_row key y xs)))
    = sum_list (map f (filter P xs)) + (if P x then f y - f x else 0)"
  using assms
proof (induction xs)
  case (Cons z zs)
  show ?case
  proof (cases "z = x")
    case True
    have "key w \<noteq> key y" if "w \<in> set zs" for w
      using imageI [OF that, of key] Cons.prems True by auto
    then have "put_row key y zs = zs" by (auto simp: put_row_def intro!: map_idI)
    with True Cons.prems show ?thesis by (simp add: put_row_def)
  next
    case False
    with Cons.prems have "key z \<noteq> key y" "x \<in> set zs" by auto
    with Cons show ?thesis by (simp add: put_row_def)
  qed
qed simp

section \<open>The day's seconds\<close>

text \<open>Changing an activity row never moves a timer to another day.\<close>

lemma timer_on_day_put:
  assumes "a \<in> set (db_activities db)" "ai_id a' = ai_id a"
    and "activity_provenance a' = activity_provenance a" "distinct (map ai_id (db_activities db))"
    and "db_activities db' = put_row ai_id a' (db_activities db)"
  shows "timer_on_day db' = timer_on_day db"
proof (intro ext)
  fix ow day t
  have same: "ai_owner_id a' = ai_owner_id a" "ai_study_day_id a' = ai_study_day_id a"
    using assms(3) by (simp_all add: activity_provenance_def)
  show "timer_on_day db' ow day t = timer_on_day db ow day t"
    unfolding timer_on_day_def assms(5) list_ex_iff
    by (rule bex_put_row_same [OF assms(4,1,2)]) (simp add: same assms(2))
qed

lemma seconds_on_day_cong:
  "timer_on_day db' = timer_on_day db \<Longrightarrow> db_timers db' = db_timers db \<Longrightarrow>
     seconds_on_day db' = seconds_on_day db"
  by (intro ext) (simp add: seconds_on_day_def)

lemma timer_on_day_cong: "db_activities db' = db_activities db \<Longrightarrow> timer_on_day db' = timer_on_day db"
  by (intro ext) (simp add: timer_on_day_def)

lemma timer_on_day_row:
  assumes "row_of db a d" "open_timer_of (ai_id a) t" "ts_owner_id t = ai_owner_id a"
    and "distinct (map ai_id (db_activities db))"
  shows "timer_on_day db ow day t \<longleftrightarrow> ow = sd_owner_id d \<and> day = sd_id d"
proof -
  have "x = a" if "x \<in> set (db_activities db)" "ai_id x = ai_id a" for x
    using distinct_keyD [OF assms(4) that(1) _ that(2)] assms(1) by (simp add: row_of_def)
  then show ?thesis
    using assms(1-3) unfolding timer_on_day_def list_ex_iff row_of_def open_timer_of_def by metis
qed

section \<open>Timers\<close>

lemma timers_okD:
  assumes "timers_ok db"
  shows "distinct (map ts_id (db_timers db))"
    and "t \<in> set (db_timers db) \<Longrightarrow> ts_id t < db_next_id db"
    and "t \<in> set (db_timers db) \<Longrightarrow> timer_checks t"
    and "t \<in> set (db_timers db) \<Longrightarrow>
      \<exists>a \<in> set (db_activities db). ai_id a = ts_activity_instance_id t \<and> ai_owner_id a = ts_owner_id t"
    and "a \<in> set (db_activities db) \<Longrightarrow>
      ai_state a = ACTIVE \<longleftrightarrow> (\<exists>t \<in> set (db_timers db). open_timer_of (ai_id a) t)"
    and "t \<in> set (db_timers db) \<Longrightarrow> u \<in> set (db_timers db) \<Longrightarrow> ts_ended_at t = None \<Longrightarrow>
      ts_ended_at u = None \<Longrightarrow> ts_activity_instance_id t = ts_activity_instance_id u \<Longrightarrow> t = u"
  using assms unfolding timers_ok_def by blast+

text \<open>Replacing the open timer of an activity together with the activity itself.\<close>

lemma timers_ok_put:
  assumes ok: "timers_ok db" and dist: "distinct (map ai_id (db_activities db))"
    and a: "a \<in> set (db_activities db)" "ai_id a' = ai_id a" "ai_owner_id a' = ai_owner_id a"
    and t: "t \<in> set (db_timers db)" "open_timer_of (ai_id a) t"
    and t': "ts_id t' = ts_id t" "ts_activity_instance_id t' = ts_activity_instance_id t"
      "ts_owner_id t' = ts_owner_id t" "timer_checks t'"
    and st: "(ts_ended_at t' = None) = (ai_state a' = ACTIVE)"
    and db': "db_timers db' = put_row ts_id t' (db_timers db)"
      "db_activities db' = put_row ai_id a' (db_activities db)" "db_next_id db \<le> db_next_id db'"
  shows "timers_ok db'"
proof -
  note D = timers_okD [OF ok]
  have fk: "(\<exists>x \<in> set (db_activities db'). ai_id x = i \<and> ai_owner_id x = ow)
      \<longleftrightarrow> (\<exists>x \<in> set (db_activities db). ai_id x = i \<and> ai_owner_id x = ow)" for i ow
    unfolding db'(2) by (rule bex_put_row_same [OF dist a(1,2)]) (simp add: a)
  have ob: "ts_activity_instance_id t = ai_id a" "ts_ended_at t = None"
    using t(2) by (simp_all add: open_timer_of_def)
  have mem: "u \<in> set (db_timers db') \<longleftrightarrow> u = t' \<or> u \<in> set (db_timers db) \<and> ts_id u \<noteq> ts_id t" for u
    unfolding db'(1) in_put_row t'(1) using t(1) by blast
  have other: "ts_activity_instance_id u \<noteq> ai_id a"
    if "u \<in> set (db_timers db)" "ts_id u \<noteq> ts_id t" "ts_ended_at u = None" for u
    using D(6) [OF that(1) t(1) that(3) ob(2)] that(2) ob(1) by auto
  have "ts_id u < db_next_id db' \<and> timer_checks u
      \<and> (\<exists>x \<in> set (db_activities db'). ai_id x = ts_activity_instance_id u
           \<and> ai_owner_id x = ts_owner_id u)" if "u \<in> set (db_timers db')" for u
  proof -
    consider "u = t'" | "u \<in> set (db_timers db)"
      using \<open>u \<in> set (db_timers db')\<close> unfolding mem by blast
    then show ?thesis
    proof cases
      case 1
      then show ?thesis using D(2,4) [OF t(1)] t' db'(3) unfolding fk by simp
    next
      case 2
      then show ?thesis using D(2-4) [OF 2] db'(3) unfolding fk by simp
    qed
  qed
  moreover have "ai_state x = ACTIVE \<longleftrightarrow> (\<exists>u \<in> set (db_timers db'). open_timer_of (ai_id x) u)"
    if "x \<in> set (db_activities db')" for x
  proof (cases "ai_id x = ai_id a")
    case True
    then have "x = a'" using that a(2) unfolding db'(2) in_put_row by auto
    with True st other ob(1) t'(2) show ?thesis
      unfolding open_timer_of_def Bex_def mem by auto
  next
    case False
    then have "x \<in> set (db_activities db)" using that a(2) unfolding db'(2) in_put_row by auto
    with D(5) have "ai_state x = ACTIVE \<longleftrightarrow> (\<exists>u \<in> set (db_timers db). open_timer_of (ai_id x) u)"
      by blast
    moreover have "u = t \<or> ts_id u \<noteq> ts_id t" if "u \<in> set (db_timers db)" for u
      using distinct_keyD [OF D(1) that t(1)] by blast
    ultimately show ?thesis using False ob(1) t'(2) unfolding open_timer_of_def Bex_def mem by metis
  qed
  moreover have "u = w" if "u \<in> set (db_timers db')" "w \<in> set (db_timers db')"
    "ts_ended_at u = None" "ts_ended_at w = None"
    "ts_activity_instance_id u = ts_activity_instance_id w" for u w
  proof -
    consider "u \<in> set (db_timers db)" "w \<in> set (db_timers db)" | "u = t'" "w = t'"
      | "u = t'" "w \<in> set (db_timers db)" "ts_id w \<noteq> ts_id t"
      | "u \<in> set (db_timers db)" "ts_id u \<noteq> ts_id t" "w = t'"
      using \<open>u \<in> set (db_timers db')\<close> \<open>w \<in> set (db_timers db')\<close> unfolding mem by blast
    then show "u = w" using that(3-5) other ob(1) t'(2) D(6) by cases (metis, simp, metis, metis)
  qed
  moreover have "distinct (map ts_id (db_timers db'))" using D(1) by (simp add: db'(1))
  ultimately show ?thesis unfolding timers_ok_def by blast
qed

lemma timers_ok_put_activity:
  assumes ok: "timers_ok db" and dist: "distinct (map ai_id (db_activities db))"
    and a: "a \<in> set (db_activities db)" "ai_id a' = ai_id a" "ai_owner_id a' = ai_owner_id a"
    and st: "(ai_state a' = ACTIVE) = (ai_state a = ACTIVE)"
    and db': "db_timers db' = db_timers db"
      "db_activities db' = put_row ai_id a' (db_activities db)" "db_next_id db \<le> db_next_id db'"
  shows "timers_ok db'"
proof -
  note D = timers_okD [OF ok]
  have fk: "(\<exists>x \<in> set (db_activities db'). ai_id x = i \<and> ai_owner_id x = ow)
      \<longleftrightarrow> (\<exists>x \<in> set (db_activities db). ai_id x = i \<and> ai_owner_id x = ow)" for i ow
    unfolding db'(2) by (rule bex_put_row_same [OF dist a(1,2)]) (simp add: a)
  have "ai_state x = ACTIVE \<longleftrightarrow> (\<exists>u \<in> set (db_timers db). open_timer_of (ai_id x) u)"
    if "x \<in> set (db_activities db')" for x
    using that D(5) a st unfolding db'(2) in_put_row by metis
  then show ?thesis
    unfolding timers_ok_def fk db'(1)
    using D(1) D(2) [THEN order_less_le_trans, OF _ db'(3)] D(3,4,6) by blast
qed

lemma timers_ok_add:
  assumes ok: "timers_ok db" and dist: "distinct (map ai_id (db_activities db))"
    and a: "a \<in> set (db_activities db)" "ai_id a' = ai_id a" "ai_owner_id a' = ai_owner_id a"
    and st: "ai_state a' = ACTIVE" and t: "fresh_timer db a t"
    and db': "db_timers db' = db_timers db @ [t]"
      "db_activities db' = put_row ai_id a' (db_activities db)" "db_next_id db < db_next_id db'"
  shows "timers_ok db'"
proof -
  note D = timers_okD [OF ok]
  have fk: "(\<exists>x \<in> set (db_activities db'). ai_id x = i \<and> ai_owner_id x = ow)
      \<longleftrightarrow> (\<exists>x \<in> set (db_activities db). ai_id x = i \<and> ai_owner_id x = ow)" for i ow
    unfolding db'(2) by (rule bex_put_row_same [OF dist a(1,2)]) (simp add: a)
  have ft: "ts_id t = db_next_id db" "ts_owner_id t = ai_owner_id a" "timer_checks t"
    "ts_activity_instance_id t = ai_id a" "ts_ended_at t = None"
    and none: "u \<in> set (db_timers db) \<Longrightarrow> ts_ended_at u = None \<Longrightarrow> ts_activity_instance_id u \<noteq> ai_id a"
      for u
    using t by (auto simp: fresh_timer_def open_timer_of_def list_ex_iff)
  have "distinct (map ts_id (db_timers db'))" using D(1,2) ft(1) by (force simp: db'(1))
  moreover have "\<forall>u \<in> set (db_timers db'). ts_id u < db_next_id db' \<and> timer_checks u
      \<and> (\<exists>x \<in> set (db_activities db'). ai_id x = ts_activity_instance_id u
           \<and> ai_owner_id x = ts_owner_id u)"
    unfolding fk using D(2-4) ft a(1) db'(3) by (force simp: db'(1))
  moreover have "ai_state x = ACTIVE \<longleftrightarrow> (\<exists>u \<in> set (db_timers db'). open_timer_of (ai_id x) u)"
    if "x \<in> set (db_activities db')" for x
  proof (cases "ai_id x = ai_id a")
    case True
    then have "x = a'" using that a(2) unfolding db'(2) in_put_row by auto
    with True st ft show ?thesis by (simp add: db'(1) open_timer_of_def)
  next
    case False
    then have "x \<in> set (db_activities db)" using that a(2) unfolding db'(2) in_put_row by auto
    with D(5) False ft show ?thesis by (simp add: db'(1) open_timer_of_def)
  qed
  moreover have "u = w" if "u \<in> set (db_timers db')" "w \<in> set (db_timers db')"
    "ts_ended_at u = None" "ts_ended_at w = None"
    "ts_activity_instance_id u = ts_activity_instance_id w" for u w
  proof -
    consider "u \<in> set (db_timers db)" "w \<in> set (db_timers db)" | "u = t" "w = t"
      | "u = t" "w \<in> set (db_timers db)" | "u \<in> set (db_timers db)" "w = t"
      using \<open>u \<in> set (db_timers db')\<close> \<open>w \<in> set (db_timers db')\<close> by (auto simp: db'(1))
    then show "u = w" using that(3-5) none ft(4) D(6) by cases (metis, simp, metis, metis)
  qed
  ultimately show ?thesis unfolding timers_ok_def by blast
qed

section \<open>Rows, days and time\<close>

lemma rows_ok_put:
  assumes "rows_ok db" "a \<in> set (db_activities db)" "validate_activity_shape a' = Inr ()"
    and "db_days db' = put_row sd_id d' (db_days db)"
      "db_activities db' = put_row ai_id a' (db_activities db)" "db_receipts db' = db_receipts db"
  shows "rows_ok db'"
  using assms unfolding rows_ok_def by (auto simp: list_all_iff in_put_row)

text \<open>The day of an activity that becomes active is in progress, and days never leave that status
  while a command of the service runs.\<close>

lemma days_ok_put:
  assumes ok: "days_ok db" and dist: "distinct (map sd_id (db_days db))"
    and row: "row_of db a d" and adv: "advances d d'"
    and a': "ai_id a' = ai_id a" "activity_provenance a' = activity_provenance a"
      "ai_state a' = ACTIVE \<Longrightarrow> ai_state a = ACTIVE \<or> sd_status d' = ''in_progress''"
    and db': "db_days db' = put_row sd_id d' (db_days db)"
      "db_activities db' = put_row ai_id a' (db_activities db)"
  shows "days_ok db'"
  unfolding days_ok_def
proof (intro ballI impI, elim conjE)
  fix x e
  assume x: "x \<in> set (db_activities db')" and e: "e \<in> set (db_days db')"
    and st: "ai_state x = ACTIVE" and day: "sd_id e = ai_study_day_id x" "sd_owner_id e = ai_owner_id x"
  have d: "sd_id d' = sd_id d" "sd_owner_id d' = sd_owner_id d"
    using adv by (simp_all add: advances_def day_provenance_def)
  have same: "ai_owner_id a' = ai_owner_id a" "ai_study_day_id a' = ai_study_day_id a"
    using a'(2) by (simp_all add: activity_provenance_def)
  obtain e0 where e0: "e0 \<in> set (db_days db)" "sd_id e0 = sd_id e" "sd_owner_id e0 = sd_owner_id e"
    "sd_status e0 = ''in_progress'' \<Longrightarrow> sd_status e = ''in_progress''" "e = e0 \<or> e = d' \<and> e0 = d"
    using e row d adv unfolding db'(1) in_put_row row_of_def advances_def by metis
  consider "x \<in> set (db_activities db)" | "x = a'" "ai_state a = ACTIVE"
    | "x = a'" "sd_status d' = ''in_progress''"
    using x a'(3) st unfolding db'(2) in_put_row by blast
  then show "sd_status e = ''in_progress''"
  proof cases
    case 1
    then show ?thesis using ok e0(1-4) st day unfolding days_ok_def by metis
  next
    case 2
    then show ?thesis using ok e0(1-4) row day same unfolding days_ok_def row_of_def by metis
  next
    case 3
    then have "e0 = d"
      using distinct_keyD [OF dist e0(1), of d] e0(2) day row same by (simp add: row_of_def)
    with 3 e0(5) e0(4) e adv dist d show ?thesis
      unfolding db'(1) in_put_row by (metis advances_def)
  qed
qed

lemma time_ok_put:
  assumes ok: "time_ok db" and dist: "distinct (map sd_id (db_days db))"
      "distinct (map ai_id (db_activities db))" "distinct (map ts_id (db_timers db))"
    and row: "row_of db a d" and timed: "timed_by db a d t t' d' k now sq"
    and a': "ai_id a' = ai_id a" "activity_provenance a' = activity_provenance a"
    and u: "ts_id u = ts_id t" "ts_owner_id u = ts_owner_id t"
      "ts_activity_instance_id u = ts_activity_instance_id t" "ts_counted_seconds u = ts_counted_seconds t'"
    and db': "db_days db' = put_row sd_id d' (db_days db)"
      "db_activities db' = put_row ai_id a' (db_activities db)"
      "db_timers db' = put_row ts_id u (db_timers db)"
  shows "time_ok db'"
proof -
  have on: "timer_on_day db' = timer_on_day db"
    using timer_on_day_put [OF _ a' dist(2) db'(2)] row by (simp add: row_of_def)
  have t: "t \<in> set (db_timers db)" "ts_owner_id t = ai_owner_id a" "open_timer_of (ai_id a) t"
    and k: "k = 0 \<or> seconds_on_day db (ai_owner_id a) (sd_id d) + k \<le> maximum_minutes_of d * 60"
    and d': "d' = d\<lparr>sd_focused_minutes := min (maximum_minutes_of d)
        ((seconds_on_day db (ai_owner_id a) (sd_id d) + k) div 60)\<rparr>"
    and c: "ts_counted_seconds u = ts_counted_seconds t + k"
    using timed u(4) unfolding timed_by_def by auto
  have onu: "timer_on_day db ow day u = timer_on_day db ow day t" for ow day
    unfolding timer_on_day_def u(2,3) ..
  have secs: "seconds_on_day db' ow day = seconds_on_day db ow day
      + (if ow = sd_owner_id d \<and> day = sd_id d then k else 0)" for ow day
    unfolding seconds_on_day_def on db'(3)
      sum_put_row [OF dist(3) t(1) u(1), of "timer_on_day db ow day", OF onu]
    using timer_on_day_row [OF row t(3,2) dist(2), of ow day] c by simp
  have od: "sd_owner_id d = ai_owner_id a" "d \<in> set (db_days db)" using row by (simp_all add: row_of_def)
  have dd: "seconds_on_day db (sd_owner_id d) (sd_id d) \<le> maximum_minutes_of d * 60"
    using ok od(2) unfolding time_ok_def by blast
  show ?thesis
    unfolding time_ok_def
  proof
    fix e
    assume "e \<in> set (db_days db')"
    then consider "e \<in> set (db_days db)" "sd_id e \<noteq> sd_id d" | "e = d'"
      unfolding db'(1) in_put_row d' by auto
    then show "seconds_on_day db' (sd_owner_id e) (sd_id e) \<le> maximum_minutes_of e * 60
        \<and> sd_focused_minutes e = seconds_on_day db' (sd_owner_id e) (sd_id e) div 60"
    proof cases
      case 1
      then show ?thesis using ok unfolding time_ok_def secs by auto
    next
      case 2
      have "maximum_minutes_of d' = maximum_minutes_of d" by (simp add: d' maximum_minutes_of_def)
      then show ?thesis using 2 k dd od(1) unfolding secs by (auto simp: d' min_def)
    qed
  qed
qed

lemma time_ok_keep:
  assumes ok: "time_ok db" and row: "d \<in> set (db_days db)" "sd_id d' = sd_id d"
    and d': "day_provenance d' = day_provenance d" "sd_focused_minutes d' = sd_focused_minutes d"
    and db': "db_days db' = put_row sd_id d' (db_days db)"
      "seconds_on_day db' = seconds_on_day db"
  shows "time_ok db'"
proof -
  have "sd_owner_id d' = sd_owner_id d" "maximum_minutes_of d' = maximum_minutes_of d"
    using d'(1) by (simp_all add: day_provenance_def maximum_minutes_of_def)
  then show ?thesis
    using ok row d'(2) unfolding time_ok_def db' by (auto simp: in_put_row)
qed

section \<open>Evidence\<close>

lemma evidence_okD:
  assumes "evidence_ok db"
  shows "distinct (map at_activity_instance_id (db_attempts db))"
    and "distinct (map at_id (db_attempts db))"
    and "p \<in> set (db_attempts db) \<Longrightarrow> at_id p < db_next_id db"
    and "p \<in> set (db_attempts db) \<Longrightarrow> attempt_checks p"
    and "p \<in> set (db_attempts db) \<Longrightarrow>
      \<exists>a \<in> set (db_activities db). ai_id a = at_activity_instance_id p
         \<and> ai_owner_id a = at_owner_id p \<and> ai_attempt_kind a = at_attempt_kind p"
    and "a \<in> set (db_activities db) \<Longrightarrow>
      ai_state a \<in> set committed_states \<longleftrightarrow> ai_id a \<in> at_activity_instance_id ` set (db_attempts db)"
    and "a \<in> set (db_activities db) \<Longrightarrow>
      ai_state a \<in> set reviewed_states \<longleftrightarrow> ai_id a \<in> sr_activity_instance_id ` set (db_reviews db)"
  using assms unfolding evidence_ok_def by blast+

text \<open>
  Changing an activity, with the attempts and the self reviews that are added for it: they must
  be there exactly when the new state asks for them.
\<close>

lemma evidence_ok_put:
  assumes ok: "evidence_ok db" and dist: "distinct (map ai_id (db_activities db))"
    and a: "a \<in> set (db_activities db)" "ai_id a' = ai_id a" "ai_owner_id a' = ai_owner_id a"
    and kind: "ai_attempt_kind a' = ai_attempt_kind a \<or> ai_state a \<notin> set committed_states"
    and ps: "\<forall>p \<in> set ps. at_activity_instance_id p = ai_id a \<and> at_owner_id p = ai_owner_id a
        \<and> at_attempt_kind p = ai_attempt_kind a' \<and> attempt_checks p \<and> at_id p = db_next_id db"
      "length ps \<le> 1" "ps \<noteq> [] \<Longrightarrow> ai_state a \<notin> set committed_states"
    and rs: "\<forall>r \<in> set rs. sr_activity_instance_id r = ai_id a"
    and st: "ai_state a' \<in> set committed_states \<longleftrightarrow> ai_state a \<in> set committed_states \<or> ps \<noteq> []"
      "ai_state a' \<in> set reviewed_states \<longleftrightarrow> ai_state a \<in> set reviewed_states \<or> rs \<noteq> []"
    and db': "db_activities db' = put_row ai_id a' (db_activities db)"
      "db_attempts db' = db_attempts db @ ps" "db_reviews db' = db_reviews db @ rs"
      "db_next_id db + int (length ps) \<le> db_next_id db'"
  shows "evidence_ok db'"
proof -
  note D = evidence_okD [OF ok]
  have fk: "\<exists>x \<in> set (db_activities db'). ai_id x = at_activity_instance_id p
      \<and> ai_owner_id x = at_owner_id p \<and> ai_attempt_kind x = at_attempt_kind p"
    if "p \<in> set (db_attempts db')" for p
  proof (cases "at_activity_instance_id p = ai_id a")
    case True
    have "ai_owner_id a' = at_owner_id p \<and> ai_attempt_kind a' = at_attempt_kind p"
    proof (cases "p \<in> set ps")
      case True
      then show ?thesis using ps(1) a(3) by simp
    next
      case False
      then have p: "p \<in> set (db_attempts db)" using that db'(2) by simp
      then have "ai_state a \<in> set committed_states"
        using D(6) [OF a(1)] \<open>at_activity_instance_id p = ai_id a\<close> by (metis imageI)
      moreover obtain x where "x \<in> set (db_activities db)" "ai_id x = ai_id a"
        "ai_owner_id x = at_owner_id p" "ai_attempt_kind x = at_attempt_kind p"
        using D(5) [OF p] \<open>at_activity_instance_id p = ai_id a\<close> by auto
      ultimately show ?thesis using distinct_keyD [OF dist _ a(1)] kind a(3) by metis
    qed
    then show ?thesis using True a unfolding db'(1) bex_put_row by auto
  next
    case False
    then have "p \<in> set (db_attempts db)" using that ps(1) db'(2) by auto
    from D(5) [OF this] False show ?thesis unfolding db'(1) bex_put_row a(2) by metis
  qed
  have new: "ai_id a \<notin> at_activity_instance_id ` set (db_attempts db)" if "ps \<noteq> []"
    using D(6) [OF a(1)] ps(3) [OF that] by blast
  have one: "ps = [] \<or> (\<exists>p. ps = [p])" using ps(2) by (cases ps) auto
  have "distinct (map at_activity_instance_id (db_attempts db'))"
    using one by (elim disjE exE) (use D(1) new ps(1) in \<open>simp_all add: db'(2)\<close>)
  moreover have "distinct (map at_id (db_attempts db'))"
    using one D(2,3) ps(1) by (fastforce simp: db'(2))
  moreover have "at_id p < db_next_id db' \<and> attempt_checks p" if "p \<in> set (db_attempts db')" for p
    using that one D(3,4) [of p] ps(1) db'(4) by (auto simp: db'(2))
  moreover have "(ai_state x \<in> set committed_states
      \<longleftrightarrow> ai_id x \<in> at_activity_instance_id ` set (db_attempts db'))
    \<and> (ai_state x \<in> set reviewed_states
      \<longleftrightarrow> ai_id x \<in> sr_activity_instance_id ` set (db_reviews db'))"
    if "x \<in> set (db_activities db')" for x
  proof (cases "ai_id x = ai_id a")
    case True
    then have "x = a'" using that a(2) unfolding db'(1) in_put_row by auto
    moreover have "at_activity_instance_id ` set ps = (if ps = [] then {} else {ai_id a})"
      "sr_activity_instance_id ` set rs = (if rs = [] then {} else {ai_id a})"
      by (rule image_const; use ps(1) rs in simp)+
    ultimately show ?thesis
      using D(6,7) [OF a(1)] a(2) st by (auto simp: db'(2,3) image_Un)
  next
    case False
    then have "x \<in> set (db_activities db)" using that a(2) unfolding db'(1) in_put_row by auto
    moreover have "ai_id x \<notin> at_activity_instance_id ` set ps" "ai_id x \<notin> sr_activity_instance_id ` set rs"
      using False ps(1) rs by auto
    ultimately show ?thesis using D(6,7) by (simp add: db'(2,3) image_Un)
  qed
  ultimately show ?thesis using fk unfolding evidence_ok_def by blast
qed

lemma timers_ok_mono:
  assumes "timers_ok db" "db_timers db' = db_timers db" "db_activities db' = db_activities db"
    and "db_next_id db \<le> db_next_id db'"
  shows "timers_ok db'"
  using timers_okD [OF assms(1)] timers_okD(2) [OF assms(1), THEN order_less_le_trans, OF _ assms(4)]
  unfolding timers_ok_def assms(2,3) by blast

lemma evidence_ok_mono:
  assumes "evidence_ok db" "db_attempts db' = db_attempts db" "db_activities db' = db_activities db"
    and "db_reviews db' = db_reviews db" "db_next_id db \<le> db_next_id db'"
  shows "evidence_ok db'"
  using evidence_okD [OF assms(1)]
    evidence_okD(3) [OF assms(1), THEN order_less_le_trans, OF _ assms(5)]
  unfolding evidence_ok_def assms(2-4) by blast

section \<open>Every step keeps the invariant\<close>

lemma with_receipt_inv:
  assumes "with_receipt db db'" "study_inv db"
  shows "study_inv db'"
proof -
  from assms(1) obtain c where c: "receipt_key c \<notin> set (map receipt_key (db_receipts db))"
    and db': "db' = db\<lparr>db_receipts := db_receipts db @ [c], db_next_id := db_next_id db + 1\<rparr>"
    unfolding with_receipt_def by blast
  have secs: "seconds_on_day db' = seconds_on_day db"
    by (intro seconds_on_day_cong timer_on_day_cong) (simp_all add: db')
  note I = assms(2) [unfolded study_inv_def]
  have "rows_ok db'" using I c by (simp add: rows_ok_def db')
  moreover have "timers_ok db'" by (rule timers_ok_mono [of db]) (use I in \<open>simp_all add: db'\<close>)
  moreover have "days_ok db'" using I unfolding days_ok_def db' by simp
  moreover have "time_ok db'" using I unfolding time_ok_def secs by (simp add: db')
  moreover have "evidence_ok db'" by (rule evidence_ok_mono [of db]) (use I in \<open>simp_all add: db'\<close>)
  ultimately show ?thesis by (simp add: study_inv_def)
qed

lemma moves_facts:
  assumes "moves a a'"
  shows "ai_id a' = ai_id a" "activity_provenance a' = activity_provenance a"
    "ai_owner_id a' = ai_owner_id a" "validate_activity_shape a' = Inr ()"
    "(ai_state a, ai_state a') \<in> set activity_transitions"
    "ai_attempt_kind a' = ai_attempt_kind a \<or> ai_state a' = OUTPUT_COMMITTED"
  using assms by (auto simp: moves_def activity_provenance_def)

lemma state_sets [simp]:
  "s \<in> set committed_states \<longleftrightarrow> s \<in> {OUTPUT_COMMITTED, SELF_REVIEW_COMPLETE, AI_PROCESSING,
     FEEDBACK_READY, CORRECTION_DUE, DEMONSTRATED, NEEDS_WORK}"
  "s \<in> set reviewed_states \<longleftrightarrow> s \<in> {SELF_REVIEW_COMPLETE, AI_PROCESSING, FEEDBACK_READY,
     CORRECTION_DUE, DEMONSTRATED, NEEDS_WORK}"
  by (auto simp: committed_states_def reviewed_states_def)

lemma study_invD:
  assumes "study_inv db"
  shows "rows_ok db" "timers_ok db" "days_ok db" "time_ok db" "evidence_ok db"
    "distinct (map sd_id (db_days db))" "distinct (map ai_id (db_activities db))"
    "distinct (map ts_id (db_timers db))"
  using assms by (simp_all add: study_inv_def rows_ok_def timers_ok_def)

lemma advances_facts:
  assumes "advances d d'"
  shows "sd_id d' = sd_id d" "day_provenance d' = day_provenance d"
  using assms by (simp_all add: advances_def)

lemma begun_inv:
  assumes inv: "study_inv db" and row: "row_of db a d" and mv: "moves a a'"
    and st: "ai_state a' = ACTIVE" and adv: "advances d d'" "sd_status d' = ''in_progress''"
      "sd_focused_minutes d' = sd_focused_minutes d" and t: "fresh_timer db a t"
  shows "study_inv (db\<lparr>db_days := put_row sd_id d' (db_days db),
      db_activities := put_row ai_id a' (db_activities db),
      db_timers := db_timers db @ [t], db_next_id := db_next_id db + 1\<rparr>)" (is "study_inv ?db")
proof -
  note I = study_invD [OF inv] and M = moves_facts [OF mv] and A = advances_facts [OF adv(1)]
  have a: "a \<in> set (db_activities db)" "d \<in> set (db_days db)" using row by (simp_all add: row_of_def)
  have on: "timer_on_day ?db = timer_on_day db" by (rule timer_on_day_put [OF a(1) M(1,2) I(7)]) simp
  have secs: "seconds_on_day ?db = seconds_on_day db"
    using t unfolding seconds_on_day_def on fresh_timer_def by (intro ext) simp
  have "rows_ok ?db" by (rule rows_ok_put [OF I(1) a(1) M(4)]) simp_all
  moreover have "timers_ok ?db" by (rule timers_ok_add [OF I(2,7) a(1) M(1,3) st t]) simp_all
  moreover have "days_ok ?db" by (rule days_ok_put [OF I(3,6) row adv(1) M(1,2)]) (simp_all add: adv)
  moreover have "time_ok ?db" by (rule time_ok_keep [OF I(4) a(2) A adv(3) _ secs]) simp
  moreover have "evidence_ok ?db"
    by (rule evidence_ok_put [OF I(5,7) a(1) M(1,3), where ps = "[]" and rs = "[]"])
      (use M(5,6) st in \<open>auto dest!: transition_from_cases\<close>)
  ultimately show ?thesis by (simp add: study_inv_def)
qed

text \<open>A step that counts time: the timer is replaced, and perhaps ended.\<close>

lemma timed_inv:
  assumes inv: "study_inv db" and row: "row_of db a d"
    and k: "timed_by db a d t t1 d' k now sq" and adv: "advances d d'"
    and t': "ts_id t' = ts_id t1" "ts_owner_id t' = ts_owner_id t1" "timer_checks t'"
      "ts_activity_instance_id t' = ts_activity_instance_id t1"
      "ts_counted_seconds t' = ts_counted_seconds t1"
    and a': "ai_id a' = ai_id a" "activity_provenance a' = activity_provenance a"
      "validate_activity_shape a' = Inr ()"
      "ai_attempt_kind a' = ai_attempt_kind a \<or> ai_state a \<notin> set committed_states"
      "(ts_ended_at t' = None) = (ai_state a' = ACTIVE)"
      "ai_state a' \<in> set committed_states \<longleftrightarrow> ai_state a \<in> set committed_states \<or> ps \<noteq> []"
      "ai_state a' \<in> set reviewed_states \<longleftrightarrow> ai_state a \<in> set reviewed_states"
    and ps: "\<forall>p \<in> set ps. at_activity_instance_id p = ai_id a \<and> at_owner_id p = ai_owner_id a
        \<and> at_attempt_kind p = ai_attempt_kind a' \<and> attempt_checks p \<and> at_id p = db_next_id db"
      "length ps \<le> 1" "ps \<noteq> [] \<Longrightarrow> ai_state a \<notin> set committed_states"
    and db': "db_days db' = put_row sd_id d' (db_days db)"
      "db_activities db' = put_row ai_id a' (db_activities db)"
      "db_timers db' = put_row ts_id t' (db_timers db)" "db_receipts db' = db_receipts db"
      "db_attempts db' = db_attempts db @ ps" "db_reviews db' = db_reviews db"
      "db_next_id db + int (length ps) \<le> db_next_id db'"
  shows "study_inv db'"
proof -
  note I = study_invD [OF inv]
  have a: "a \<in> set (db_activities db)" using row by (simp add: row_of_def)
  have ow: "ai_owner_id a' = ai_owner_id a" using a'(2) by (simp add: activity_provenance_def)
  have t: "t \<in> set (db_timers db)" "open_timer_of (ai_id a) t"
    and t1: "ts_id t1 = ts_id t" "ts_owner_id t1 = ts_owner_id t"
      "ts_activity_instance_id t1 = ts_activity_instance_id t"
    using k by (simp_all add: timed_by_def)
  have act: "ai_state a = ACTIVE" using timers_okD(5) [OF I(2) a] t by blast
  have "rows_ok db'" by (rule rows_ok_put [OF I(1) a a'(3) db'(1,2,4)])
  moreover have "timers_ok db'"
    using t' t1 db'(7)
    by (intro timers_ok_put [OF I(2,7) a a'(1) ow t _ _ _ _ a'(5) db'(3,2)]) simp_all
  moreover have "days_ok db'" by (rule days_ok_put [OF I(3,6) row adv a'(1,2) _ db'(1,2)]) (simp add: act)
  moreover have "time_ok db'"
    using t' t1 by (intro time_ok_put [OF I(4,6,7,8) row k a'(1,2) _ _ _ _ db'(1,2,3)]) simp_all
  moreover have "evidence_ok db'"
    by (rule evidence_ok_put [OF I(5,7) a a'(1) ow a'(4) ps, where rs = "[]"])
      (use a'(6,7) db' in simp_all)
  ultimately show ?thesis by (simp add: study_inv_def)
qed

lemma changed_activity_inv:
  assumes inv: "study_inv db" and a: "a \<in> set (db_activities db)"
    and a': "ai_id a' = ai_id a" "activity_provenance a' = activity_provenance a"
      "validate_activity_shape a' = Inr ()" "ai_attempt_kind a' = ai_attempt_kind a"
      "(ai_state a' = ACTIVE) = (ai_state a = ACTIVE)"
      "ai_state a' \<in> set committed_states \<longleftrightarrow> ai_state a \<in> set committed_states"
      "ai_state a' \<in> set reviewed_states \<longleftrightarrow> ai_state a \<in> set reviewed_states \<or> rs \<noteq> []"
    and rs: "\<forall>r \<in> set rs. sr_activity_instance_id r = ai_id a"
    and db': "db_days db' = db_days db" "db_activities db' = put_row ai_id a' (db_activities db)"
      "db_timers db' = db_timers db" "db_receipts db' = db_receipts db"
      "db_attempts db' = db_attempts db" "db_reviews db' = db_reviews db @ rs"
      "db_next_id db \<le> db_next_id db'"
  shows "study_inv db'"
proof -
  note I = study_invD [OF inv]
  have ow: "ai_owner_id a' = ai_owner_id a" "ai_study_day_id a' = ai_study_day_id a"
    using a'(2) by (simp_all add: activity_provenance_def)
  have on: "timer_on_day db' = timer_on_day db" by (rule timer_on_day_put [OF a a'(1,2) I(7) db'(2)])
  have secs: "seconds_on_day db' = seconds_on_day db" by (rule seconds_on_day_cong [OF on db'(3)])
  have "rows_ok db'"
    using I(1) a a'(3) unfolding rows_ok_def db'(1,2,4) by (auto simp: list_all_iff in_put_row)
  moreover have "timers_ok db'"
    by (rule timers_ok_put_activity [OF I(2,7) a a'(1) ow(1) a'(5) db'(3,2,7)])
  moreover have "days_ok db'"
    unfolding days_ok_def
  proof (intro ballI impI, elim conjE)
    fix x e
    assume "x \<in> set (db_activities db')" "e \<in> set (db_days db')" "ai_state x = ACTIVE"
      "sd_id e = ai_study_day_id x" "sd_owner_id e = ai_owner_id x"
    moreover from this(1) have "x \<in> set (db_activities db) \<or> x = a'"
      unfolding db'(2) in_put_row by blast
    ultimately show "sd_status e = ''in_progress''"
      using I(3) a a'(5) ow unfolding days_ok_def db'(1) by auto
  qed
  moreover have "time_ok db'" using I(4) unfolding time_ok_def secs db'(1) .
  moreover have "evidence_ok db'"
    by (rule evidence_ok_put [OF I(5,7) a a'(1) ow(1) _ _ _ _ rs, where ps = "[]"])
      (use a' db' in simp_all)
  ultimately show ?thesis by (simp add: study_inv_def)
qed

lemma uploads_inv:
  assumes inv: "study_inv db" and up: "adds_uploads db db'"
  shows "study_inv db'"
proof -
  note I = study_invD [OF inv]
  from up obtain as ls cs n where d: "distinct (map receipt_key (db_receipts db @ cs))"
    and n: "db_next_id db \<le> n"
    and db': "db' = db\<lparr>db_artifacts := db_artifacts db @ as, db_links := db_links db @ ls,
        db_receipts := db_receipts db @ cs, db_next_id := n\<rparr>"
    unfolding adds_uploads_def by blast
  have secs: "seconds_on_day db' = seconds_on_day db"
    by (intro seconds_on_day_cong timer_on_day_cong) (simp_all add: db')
  have "rows_ok db'" using I(1) d by (simp add: rows_ok_def db')
  moreover have "timers_ok db'"
    by (rule timers_ok_mono [OF I(2)]) (simp_all add: db' n)
  moreover have "days_ok db'" using I(3) unfolding days_ok_def db' by simp
  moreover have "time_ok db'" using I(4) unfolding time_ok_def secs by (simp add: db')
  moreover have "evidence_ok db'" by (rule evidence_ok_mono [OF I(5)]) (simp_all add: db' n)
  ultimately show ?thesis by (simp add: study_inv_def)
qed

lemma shape_revealed:
  "validate_activity_shape (a\<lparr>ai_source_hidden := h, ai_optimistic_version := v\<rparr>)
     = validate_activity_shape a"
  by (cases a) (simp only: validate_activity_shape_def activity_instance.select_convs
      activity_instance.update_convs)

theorem study_step_inv:
  assumes "study_step db db'" "study_inv db"
  shows "study_inv db'"
  using assms
proof (induction rule: study_step.induct)
  case (replayed db)
  then show ?case .
next
  case (noted db db')
  then show ?case by (blast intro: with_receipt_inv)
next
  case (begun db a d a' d' t db')
  then show ?case using begun_inv [of db a d a' d' t] by (blast intro: with_receipt_inv)
next
  case (beat db a d t t' d' k now sq db')
  have a: "a \<in> set (db_activities db)" using beat.hyps(1) by (simp add: row_of_def)
  have "put_row ai_id a (db_activities db) = db_activities db"
    using study_invD(7) [OF beat.prems] a by (rule put_row_id)
  moreover have "timer_checks t'" "ts_ended_at t' = None"
    using beat.hyps(3) by (auto simp: timed_by_def open_timer_of_def)
  ultimately have "study_inv (db\<lparr>db_timers := put_row ts_id t' (db_timers db),
      db_days := put_row sd_id d' (db_days db)\<rparr>)"
    using beat.hyps(2) shape_of [OF study_invD(1) [OF beat.prems] a]
    by (intro timed_inv [OF beat.prems beat.hyps(1,3,4), where ps = "[]" and a' = a and t' = t'])
      simp_all
  with beat.hyps(5) show ?case by (rule with_receipt_inv)
next
  case (stopped db a d t t1 d' k now sq t' a' db')
  note M = moves_facts [OF stopped.hyps(6)]
  have "study_inv (db\<lparr>db_days := put_row sd_id d' (db_days db),
      db_activities := put_row ai_id a' (db_activities db),
      db_timers := put_row ts_id t' (db_timers db)\<rparr>)"
    by (rule timed_inv [OF stopped.prems stopped.hyps(1,3,4), where ps = "[]" and a' = a' and t' = t'])
      (use stopped.hyps(2,5,7) M in \<open>auto simp: ended_by_def\<close>)
  with stopped.hyps(8) show ?case by (rule with_receipt_inv)
next
  case (abandoned a db a' db')
  note M = moves_facts [OF abandoned.hyps(2)] and I = study_invD [OF abandoned.prems]
  have "\<not> open_timer_of (ai_id a) t" if mem: "t \<in> set (db_timers db)" for t
  proof
    assume o: "open_timer_of (ai_id a) t"
    obtain x where "x \<in> set (db_activities db)" "ai_id x = ai_id a" "ai_owner_id x = ts_owner_id t"
      using timers_okD(4) [OF I(2) mem] o by (auto simp: open_timer_of_def)
    then have "ts_owner_id t = ai_owner_id a"
      using distinct_keyD [OF I(7) _ abandoned.hyps(1)] by metis
    with o abandoned.hyps(4) mem show False by blast
  qed
  then have na: "ai_state a \<noteq> ACTIVE" using timers_okD(5) [OF I(2) abandoned.hyps(1)] by blast
  have "study_inv (db\<lparr>db_activities := put_row ai_id a' (db_activities db)\<rparr>)"
    by (rule changed_activity_inv [OF abandoned.prems abandoned.hyps(1), where rs = "[]"])
      (use M abandoned.hyps(3) na in \<open>auto dest: transition_from_cases\<close>)
  with abandoned.hyps(5) show ?case by (rule with_receipt_inv)
next
  case (committed db a d t t1 d' k now sq t' a' p ls n db')
  note M = moves_facts [OF committed.hyps(5)]
  have st: "ai_state a = ACTIVE" using M(5) committed.hyps(6) by (auto dest: transition_from_cases)
  have "study_inv (db\<lparr>db_days := put_row sd_id d' (db_days db),
      db_activities := put_row ai_id a' (db_activities db),
      db_timers := put_row ts_id t' (db_timers db),
      db_attempts := db_attempts db @ [p], db_links := db_links db @ ls, db_next_id := n\<rparr>)"
    by (rule timed_inv [OF committed.prems committed.hyps(1,2,3), where ps = "[p]" and a' = a'
          and t' = t'])
      (use committed.hyps M st in \<open>auto simp: ended_by_def\<close>)
  with committed.hyps(14) show ?case by (rule with_receipt_inv)
next
  case (reviewed a db a' p r db')
  note M = moves_facts [OF reviewed.hyps(2)]
  have "study_inv (db\<lparr>db_activities := put_row ai_id a' (db_activities db),
      db_reviews := db_reviews db @ [r], db_next_id := db_next_id db + 1\<rparr>)"
    by (rule changed_activity_inv [OF reviewed.prems reviewed.hyps(1), where rs = "[r]"])
      (use M reviewed.hyps in \<open>auto simp: review_fields_def dest: transition_from_cases\<close>)
  with reviewed.hyps(9) show ?case by (rule with_receipt_inv)
next
  case (revealed a db a' h db')
  have sh: "validate_activity_shape a' = Inr ()"
    using shape_of [OF study_invD(1) [OF revealed.prems] revealed.hyps(1)]
    unfolding revealed.hyps(3) shape_revealed .
  have "study_inv (db\<lparr>db_activities := put_row ai_id a' (db_activities db)\<rparr>)"
    by (rule changed_activity_inv [OF revealed.prems revealed.hyps(1) _ _ sh, where rs = "[]"])
      (simp_all add: revealed.hyps(3) activity_provenance_def)
  with revealed.hyps(5) show ?case by (rule with_receipt_inv)
next
  case (uploaded db db')
  then show ?case by (blast intro: uploads_inv)
qed

end
