(* ===== verification/Study_Properties.thy ===== *)
theory Study_Properties
  imports Study_Safety
begin

text \<open>
  What holds of the study tables after any sequence of requests to the activity service: the
  invariant, the history that is kept, the replay of a request, and the errors a request can end
  in.
\<close>

section \<open>History\<close>

text \<open>How an activity row may change over time.\<close>

definition activity_grows :: "activity_instance \<Rightarrow> activity_instance \<Rightarrow> bool" where
  "activity_grows a b \<longleftrightarrow>
     ai_id b = ai_id a \<and> activity_provenance b = activity_provenance a
     \<and> ai_optimistic_version a \<le> ai_optimistic_version b
     \<and> (ai_state a, ai_state b) \<in> (set activity_transitions)\<^sup>*
     \<and> frozen (ai_started_at a) (ai_started_at b)
     \<and> frozen (ai_output_committed_at a) (ai_output_committed_at b)
     \<and> frozen (ai_completed_at a) (ai_completed_at b)"

definition day_grows :: "study_day \<Rightarrow> study_day \<Rightarrow> bool" where
  "day_grows d e \<longleftrightarrow>
     sd_id e = sd_id d \<and> day_provenance e = day_provenance d
     \<and> sd_focused_minutes d \<le> sd_focused_minutes e"

definition study_extends :: "study_db \<Rightarrow> study_db \<Rightarrow> bool" where
  "study_extends db db' \<longleftrightarrow>
     prefix (db_attempts db) (db_attempts db') \<and> prefix (db_artifacts db) (db_artifacts db')
     \<and> prefix (db_links db) (db_links db') \<and> prefix (db_reviews db) (db_reviews db')
     \<and> prefix (db_receipts db) (db_receipts db')
     \<and> list_all2 activity_grows (db_activities db) (db_activities db')
     \<and> list_all2 day_grows (db_days db) (db_days db')
     \<and> db_definitions db' = db_definitions db \<and> db_owners db' = db_owners db"

lemma activity_grows_refl [simp]: "activity_grows a a"
  by (simp add: activity_grows_def)

lemma activity_grows_trans: "activity_grows a b \<Longrightarrow> activity_grows b c \<Longrightarrow> activity_grows a c"
  by (auto simp: activity_grows_def elim: frozen_trans intro: rtrancl_trans)

lemma day_grows_refl [simp]: "day_grows d d"
  by (simp add: day_grows_def)

lemma day_grows_trans: "day_grows a b \<Longrightarrow> day_grows b c \<Longrightarrow> day_grows a c"
  by (auto simp: day_grows_def)

lemma study_extends_refl [simp]: "study_extends db db"
  by (simp add: study_extends_def list_all2_refl)

lemma study_extends_trans:
  "study_extends a b \<Longrightarrow> study_extends b c \<Longrightarrow> study_extends a c"
  unfolding study_extends_def
  by (auto intro: prefix_order.trans
      list_all2_trans [where ?P1.0 = activity_grows and ?P2.0 = activity_grows, OF activity_grows_trans]
      list_all2_trans [where ?P1.0 = day_grows and ?P2.0 = day_grows, OF day_grows_trans])

lemma list_all2_put_row:
  assumes "distinct (map key xs)" "x \<in> set xs" "key y = key x" "R x y" "\<And>z. R z z"
  shows "list_all2 R xs (put_row key y xs)"
proof -
  have "R z (if key z = key y then y else z)" if "z \<in> set xs" for z
    using distinct_keyD [OF assms(1) that assms(2)] assms(3-5) by auto
  then show ?thesis unfolding put_row_def list_all2_map2 by (simp add: list_all2_same)
qed

lemma moves_grows: "moves a a' \<Longrightarrow> activity_grows a a'"
  by (auto simp: moves_def activity_grows_def)

lemma advances_grows: "advances d d' \<Longrightarrow> day_grows d d'"
  by (simp add: advances_def day_grows_def)

lemma with_receipt_extends: "with_receipt db0 db' \<Longrightarrow> study_extends db db0 \<Longrightarrow> study_extends db db'"
  by (auto simp: with_receipt_def study_extends_def intro: prefix_order.trans)

lemma study_step_extends:
  assumes "study_step db db'" "study_inv db"
  shows "study_extends db db'"
  using assms
proof (induction rule: study_step.induct)
  case (begun db a d a' d' t db')
  note I = study_invD [OF begun.prems]
  have "study_extends db (db\<lparr>db_days := put_row sd_id d' (db_days db),
      db_activities := put_row ai_id a' (db_activities db),
      db_timers := db_timers db @ [t], db_next_id := db_next_id db + 1\<rparr>)"
    using begun.hyps(1) moves_grows [OF begun.hyps(2)] advances_grows [OF begun.hyps(4)]
      list_all2_put_row [OF I(7), of a a' activity_grows] list_all2_put_row [OF I(6), of d d' day_grows]
    by (simp add: study_extends_def row_of_def activity_grows_def day_grows_def)
  with begun.hyps(8) show ?case by (rule with_receipt_extends)
next
  case (beat db a d t t' d' k now sq db')
  note I = study_invD [OF beat.prems]
  have "study_extends db (db\<lparr>db_timers := put_row ts_id t' (db_timers db),
      db_days := put_row sd_id d' (db_days db)\<rparr>)"
    using beat.hyps(1) advances_grows [OF beat.hyps(4)]
      list_all2_put_row [OF I(6), of d d' day_grows]
    by (simp add: study_extends_def row_of_def day_grows_def list_all2_refl)
  with beat.hyps(5) show ?case by (rule with_receipt_extends)
next
  case (stopped db a d t t1 d' k now sq t' a' db')
  note I = study_invD [OF stopped.prems]
  have "study_extends db (db\<lparr>db_days := put_row sd_id d' (db_days db),
      db_activities := put_row ai_id a' (db_activities db),
      db_timers := put_row ts_id t' (db_timers db)\<rparr>)"
    using stopped.hyps(1) moves_grows [OF stopped.hyps(6)] advances_grows [OF stopped.hyps(4)]
      list_all2_put_row [OF I(7), of a a' activity_grows] list_all2_put_row [OF I(6), of d d' day_grows]
    by (simp add: study_extends_def row_of_def activity_grows_def day_grows_def)
  with stopped.hyps(8) show ?case by (rule with_receipt_extends)
next
  case (abandoned a db a' db')
  note I = study_invD [OF abandoned.prems]
  have "study_extends db (db\<lparr>db_activities := put_row ai_id a' (db_activities db)\<rparr>)"
    using abandoned.hyps(1) moves_grows [OF abandoned.hyps(2)]
      list_all2_put_row [OF I(7), of a a' activity_grows]
    by (simp add: study_extends_def activity_grows_def list_all2_refl)
  with abandoned.hyps(5) show ?case by (rule with_receipt_extends)
next
  case (committed db a d t t1 d' k now sq t' a' p ls n db')
  note I = study_invD [OF committed.prems]
  have "study_extends db (db\<lparr>db_days := put_row sd_id d' (db_days db),
      db_activities := put_row ai_id a' (db_activities db),
      db_timers := put_row ts_id t' (db_timers db),
      db_attempts := db_attempts db @ [p], db_links := db_links db @ ls, db_next_id := n\<rparr>)"
    using committed.hyps(1) moves_grows [OF committed.hyps(5)] advances_grows [OF committed.hyps(3)]
      list_all2_put_row [OF I(7), of a a' activity_grows] list_all2_put_row [OF I(6), of d d' day_grows]
    by (simp add: study_extends_def row_of_def activity_grows_def day_grows_def)
  with committed.hyps(14) show ?case by (rule with_receipt_extends)
next
  case (reviewed a db a' p r db')
  note I = study_invD [OF reviewed.prems]
  have "study_extends db (db\<lparr>db_activities := put_row ai_id a' (db_activities db),
      db_reviews := db_reviews db @ [r], db_next_id := db_next_id db + 1\<rparr>)"
    using reviewed.hyps(1) moves_grows [OF reviewed.hyps(2)]
      list_all2_put_row [OF I(7), of a a' activity_grows]
    by (simp add: study_extends_def activity_grows_def list_all2_refl)
  with reviewed.hyps(9) show ?case by (rule with_receipt_extends)
next
  case (revealed a db a' h db')
  note I = study_invD [OF revealed.prems]
  have "activity_grows a a'" by (simp add: revealed.hyps(3) activity_grows_def activity_provenance_def)
  then have "study_extends db (db\<lparr>db_activities := put_row ai_id a' (db_activities db)\<rparr>)"
    using revealed.hyps(1) list_all2_put_row [OF I(7), of a a' activity_grows]
    by (simp add: study_extends_def activity_grows_def list_all2_refl)
  with revealed.hyps(5) show ?case by (rule with_receipt_extends)
next
  case (uploaded db db')
  then show ?case by (auto simp: adds_uploads_def study_extends_def list_all2_refl)
qed (auto intro: with_receipt_extends)

interpretation study: growing_system "keep_state exec_study" study_inv study_extends
proof unfold_locales
  fix db c db'
  assume "study_inv db" and "keep_state exec_study db c = Inr db'"
  then have "study_step db db'"
    using exec_study_is_step [of db "fst c" "snd c" db'] study_invD(1)
    by (auto simp: keep_state_Inr)
  with \<open>study_inv db\<close> show "study_inv db'" "study_extends db db'"
    by (blast intro: study_step_inv study_step_extends)+
qed (auto intro: study_extends_trans)

section \<open>What holds after any sequence of requests\<close>

lemma filter_length_one:
  assumes "x \<in> set xs" "P x" "\<And>y. y \<in> set xs \<Longrightarrow> P y \<Longrightarrow> y = x" "distinct xs"
  shows "length (filter P xs) = 1"
proof -
  have "set (filter P xs) = {x}" unfolding set_filter using assms(1-3) by blast
  then have "card (set (filter P xs)) = 1" by simp
  then show ?thesis using distinct_card [OF distinct_filter [OF assms(4), of P]] by metis
qed

lemma open_timer_count:
  assumes "study_inv db" "a \<in> set (db_activities db)"
  shows "length (filter (open_timer_of (ai_id a)) (db_timers db)) = (if ai_state a = ACTIVE then 1 else 0)"
proof (cases "ai_state a = ACTIVE")
  case True
  note D = timers_okD [OF study_invD(2) [OF assms(1)]]
  obtain t where t: "t \<in> set (db_timers db)" "open_timer_of (ai_id a) t"
    using D(5) [OF assms(2)] True by blast
  have "u = t" if "u \<in> set (db_timers db)" "open_timer_of (ai_id a) u" for u
    using D(6) [OF that(1) t(1)] that(2) t(2) by (simp add: open_timer_of_def)
  moreover have "distinct (db_timers db)" using D(1) by (simp add: distinct_map)
  ultimately have "length (filter (open_timer_of (ai_id a)) (db_timers db)) = 1"
    using t by (intro filter_length_one [where x = t]) blast+
  then show ?thesis using True by simp
next
  case False
  then show ?thesis
    using timers_okD(5) [OF study_invD(2) [OF assms(1)] assms(2)] by (simp add: filter_empty_conv)
qed

lemma attempt_count:
  assumes "study_inv db" "a \<in> set (db_activities db)"
  shows "length (filter (\<lambda>p. at_activity_instance_id p = ai_id a) (db_attempts db))
    = (if ai_state a \<in> set committed_states then 1 else 0)"
proof (cases "ai_state a \<in> set committed_states")
  case True
  note D = evidence_okD [OF study_invD(5) [OF assms(1)]]
  obtain p where p: "p \<in> set (db_attempts db)" "at_activity_instance_id p = ai_id a"
    using D(6) [OF assms(2)] True by auto
  have "q = p" if "q \<in> set (db_attempts db)" "at_activity_instance_id q = ai_id a" for q
    using distinct_keyD [OF D(1) that(1) p(1)] that(2) p(2) by simp
  moreover have "distinct (db_attempts db)" using D(2) by (simp add: distinct_map)
  ultimately have "length (filter (\<lambda>p. at_activity_instance_id p = ai_id a) (db_attempts db)) = 1"
    using p by (intro filter_length_one [where x = p]) blast+
  then show ?thesis using True by simp
next
  case False
  then show ?thesis
    using evidence_okD(6) [OF study_invD(5) [OF assms(1)] assms(2)]
    by (force simp: filter_empty_conv)
qed

text \<open>A database to try the commands on: one planned weekday with one activity.\<close>

definition demo_definition :: task_definition where
  "demo_definition = \<lparr>df_id = 3, df_owner_id = 1, df_stable_id = ''m1-d1-sql'',
     df_exercise_type = Some ''sql_drill'', df_mapping_version = Some ''v1'', df_objective = ''joins'',
     df_timebox_minutes = 30, df_block = ''sql'', df_required = True,
     df_output_contract = JObj [(''items'', JArr []), (''constraints'', JArr []), (''procedure'', JArr [])],
     df_pass_contract = JObj [(''items'', JArr [])], df_evidence_contract = JObj [(''items'', JArr [])],
     df_source_references = [], df_allowed_ai_role = ''none''\<rparr>"

definition demo_day :: study_day where
  "demo_day = \<lparr>sd_id = 2, sd_owner_id = 1, sd_roadmap_version_id = 1, sd_local_date = 739000,
     sd_planned_minutes = 240, sd_focused_minutes = 0, sd_day_type = ''weekday'',
     sd_status = ''planned'', sd_created_at = 0, sd_started_at = None, sd_closed_at = None\<rparr>"

definition demo_activity :: activity_instance where
  "demo_activity = \<lparr>ai_id = 4, ai_owner_id = 1, ai_study_day_id = 2, ai_roadmap_version_id = 1,
     ai_task_definition_id = 3, ai_task_stable_id_snapshot = ''m1-d1-sql'',
     ai_task_mapping_version_snapshot = ''v1'', ai_task_objective_snapshot = ''joins'',
     ai_task_timebox_minutes_snapshot = 30, ai_roadmap_version_key_snapshot = ''month-1'',
     ai_state = READY, ai_attempt_kind = ''none'', ai_assistance_mode = ''none'',
     ai_classification = ''required'', ai_timebox_minutes = 30, ai_source_hidden = False,
     ai_optimistic_version = 1, ai_replacement_version = 1, ai_replaces_activity_id = None,
     ai_stronger_evidence_activity_id = None, ai_created_at = 0, ai_started_at = None,
     ai_output_committed_at = None, ai_completed_at = None\<rparr>"

definition demo_db :: study_db where
  "demo_db = \<lparr>db_owners = [1], db_days = [demo_day], db_activities = [demo_activity],
     db_definitions = [demo_definition], db_timers = [], db_attempts = [], db_artifacts = [],
     db_links = [], db_reviews = [], db_receipts = [], db_coach_modes = [], db_next_id = 5\<rparr>"

text \<open>The services at a given second; every text has the same digest.\<close>

definition demo_services :: "int \<Rightarrow> services" where
  "demo_services s = \<lparr>sv_sha = toy_hash, sv_parse = (\<lambda>j. Malformed),
     sv_lax_int = (\<lambda>j. None), sv_store = None, sv_clock = (\<lambda>k. Aware (s * 1000000) 0)\<rparr>"

definition demo_requests :: "(services \<times> study_command) list" where
  "demo_requests = [(demo_services 100, Start 1 4 1 ''k1''),
     (demo_services 120, Heartbeat 1 4 2 1 ''k2''), (demo_services 130, Pause 1 4 2 2 ''k3'')]"

lemma demo_inv: "study_inv demo_db"
  by code_simp

text \<open>
  C1. After any sequence of requests to the activity service, accepted or refused, an activity is
  active exactly when one timer of it is open, and it has exactly one immutable attempt exactly
  when its output is committed: there is never a second open timer, a second attempt, a timer that
  outlives the work, or a committed activity without its evidence.
\<close>

theorem timers_and_attempts_follow_state:
  assumes "study_inv db"
  shows "list_all (\<lambda>a.
       length (filter (open_timer_of (ai_id a))
          (db_timers (run_commands (keep_state exec_study) db reqs)))
         = (if ai_state a = ACTIVE then 1 else 0)
       \<and> length (filter (\<lambda>p. at_activity_instance_id p = ai_id a)
          (db_attempts (run_commands (keep_state exec_study) db reqs)))
         = (if ai_state a \<in> set committed_states then 1 else 0))
     (db_activities (run_commands (keep_state exec_study) db reqs))"
  using open_timer_count [OF study.run_inv [OF assms, of reqs]]
    attempt_count [OF study.run_inv [OF assms, of reqs]]
  by (simp add: list_all_iff del: state_sets)

theorem timers_and_attempts_follow_state_witness:
  "list_all (\<lambda>a.
       length (filter (open_timer_of (ai_id a))
          (db_timers (run_commands (keep_state exec_study) demo_db demo_requests)))
         = (if ai_state a = ACTIVE then 1 else 0)
       \<and> length (filter (\<lambda>p. at_activity_instance_id p = ai_id a)
          (db_attempts (run_commands (keep_state exec_study) demo_db demo_requests)))
         = (if ai_state a \<in> set committed_states then 1 else 0))
     (db_activities (run_commands (keep_state exec_study) demo_db demo_requests))
   \<and> map ai_state (db_activities (run_commands (keep_state exec_study) demo_db demo_requests)) = [PAUSED]
   \<and> map ts_counted_seconds (db_timers (run_commands (keep_state exec_study) demo_db demo_requests)) = [30]"
  by (rule conjI [OF timers_and_attempts_follow_state [OF demo_inv, of demo_requests]]) code_simp

text \<open>
  C3. After any sequence of requests, the focused minutes of every study day are the whole minutes
  its timers counted, and the seconds they counted never exceed the day's hard stop of 255
  minutes, or 120 on a Saturday.
\<close>

theorem study_time_within_budget:
  assumes "study_inv db"
  shows "list_all (\<lambda>d.
       seconds_on_day (run_commands (keep_state exec_study) db reqs) (sd_owner_id d) (sd_id d)
         \<le> (if sd_day_type d = ''saturday'' then 120 else 255) * 60
       \<and> sd_focused_minutes d
         = seconds_on_day (run_commands (keep_state exec_study) db reqs) (sd_owner_id d) (sd_id d) div 60)
     (db_days (run_commands (keep_state exec_study) db reqs))"
  using study_invD(4) [OF study.run_inv [OF assms, of reqs]]
  unfolding time_ok_def list_all_iff maximum_minutes_of_def .

theorem study_time_within_budget_witness:
  "list_all (\<lambda>d.
       seconds_on_day (run_commands (keep_state exec_study) demo_db demo_requests) (sd_owner_id d) (sd_id d)
         \<le> (if sd_day_type d = ''saturday'' then 120 else 255) * 60
       \<and> sd_focused_minutes d
         = seconds_on_day (run_commands (keep_state exec_study) demo_db demo_requests)
             (sd_owner_id d) (sd_id d) div 60)
     (db_days (run_commands (keep_state exec_study) demo_db demo_requests))
   \<and> seconds_on_day (run_commands (keep_state exec_study) demo_db demo_requests) 1 2 = 30"
  by (rule conjI [OF study_time_within_budget [OF demo_inv, of demo_requests]]) code_simp

text \<open>
  C4. No request ever changes or removes recorded evidence: attempts, artifacts, links, self
  reviews and receipts only grow at the end, an activity keeps its identity, its task snapshot and
  its timestamps and moves only along the transition table, and a day's focused minutes never fall.
\<close>

theorem learning_evidence_is_append_only:
  assumes "study_inv db"
  shows "study_extends db (run_commands (keep_state exec_study) db reqs)"
  by (rule study.run_extends [OF assms])

theorem learning_evidence_is_append_only_witness:
  "study_extends demo_db (run_commands (keep_state exec_study) demo_db demo_requests)
   \<and> length (db_receipts (run_commands (keep_state exec_study) demo_db demo_requests)) = 3"
  by (rule conjI [OF learning_evidence_is_append_only [OF demo_inv, of demo_requests]]) code_simp

section \<open>Replaying a request\<close>

text \<open>The receipt that answers a command under its idempotency key.\<close>

definition saved ::
    "study_db \<Rightarrow> int \<Rightarrow> string \<Rightarrow> string \<Rightarrow> string \<Rightarrow> result_payload \<Rightarrow> bool" where
  "saved db ow scope key hash p \<longleftrightarrow> safe_key key \<and>
     (\<exists>c \<in> set (db_receipts db). receipt_key c = (ow, scope, key)
        \<and> cr_request_hash c = hash \<and> cr_result_payload c = p)"

lemma duplicate_as_Some:
  "duplicate_as db ow scope key hash = Inr (Some p) \<Longrightarrow> saved db ow scope key hash p"
  by (auto simp: duplicate_as_def saved_def result_simps one_or_none_Inr
      split: option.splits if_splits dest!: filter_singleton)

lemma duplicate_as_None: "duplicate_as db ow scope key hash = Inr None \<Longrightarrow> safe_key key"
  by (auto simp: duplicate_as_def result_simps)

lemma save_receipt_saved:
  "save_receipt sv k ow scope key hash p db = Inr db' \<Longrightarrow> safe_key key \<Longrightarrow>
     saved db' ow scope key hash p"
  by (auto simp: save_receipt_Inr insert_receipt_Inr saved_def receipt_key_def)

lemma saved_duplicate:
  assumes "saved db ow scope key hash p" "distinct (map receipt_key (db_receipts db))"
  shows "duplicate_as db ow scope key hash = Inr (Some p)"
proof -
  from assms(1) obtain c where c: "c \<in> set (db_receipts db)" "receipt_key c = (ow, scope, key)"
    "cr_request_hash c = hash" "cr_result_payload c = p" and k: "safe_key key"
    unfolding saved_def by blast
  have "y = c" if "y \<in> set (db_receipts db)" "receipt_key y = (ow, scope, key)" for y
    using distinct_keyD [OF assms(2) that(1) c(1)] that(2) c(2) by simp
  moreover have "distinct (db_receipts db)" using assms(2) by (simp add: distinct_map)
  ultimately have "length (filter (\<lambda>r. receipt_key r = (ow, scope, key)) (db_receipts db)) = 1"
    using c(1,2) by (intro filter_length_one [where x = c]) blast+
  then obtain y where y: "filter (\<lambda>r. receipt_key r = (ow, scope, key)) (db_receipts db) = [y]"
    by (auto simp: length_Suc_conv)
  have "c \<in> set (filter (\<lambda>r. receipt_key r = (ow, scope, key)) (db_receipts db))"
    using c(1,2) by simp
  with y have "filter (\<lambda>r. receipt_key r = (ow, scope, key)) (db_receipts db) = [c]" by simp
  then show ?thesis using c(3,4) k by (simp add: duplicate_as_def)
qed

text \<open>Every command but the presigning one leaves its own response as the receipt.\<close>

fun command_target :: "study_command \<Rightarrow> int \<times> int" where
  "command_target (Start ow i v k) = (ow, i)"
| "command_target (Heartbeat ow i v n k) = (ow, i)"
| "command_target (Pause ow i v n k) = (ow, i)"
| "command_target (Resume ow i v k) = (ow, i)"
| "command_target (Classify_incomplete ow i v c e k) = (ow, i)"
| "command_target (Set_source_visibility ow i v h k) = (ow, i)"
| "command_target (Presign_artifact ow i v c h n t f k) = (ow, i)"
| "command_target (Confirm_artifact ow i v u ok k) = (ow, i)"
| "command_target (Commit_output ow i v n out refs p k) = (ow, i)"
| "command_target (Submit_self_review ow i v a s k) = (ow, i)"

fun command_receipt_of ::
    "study_command \<Rightarrow> string \<times> string \<times> json list" where
  "command_receipt_of (Start ow i v k) =
     (''activity.start'', k, [JStr ''start'', JInt i, JInt v])"
| "command_receipt_of (Heartbeat ow i v n k) =
     (''activity.heartbeat'', k, [JStr ''heartbeat'', JInt i, JInt v, JInt n])"
| "command_receipt_of (Pause ow i v n k) =
     (''activity.pause'', k, [JStr ''pause'', JInt i, JInt v, JInt n])"
| "command_receipt_of (Resume ow i v k) =
     (''activity.resume'', k, [JStr ''resume'', JInt i, JInt v])"
| "command_receipt_of (Classify_incomplete ow i v c e k) =
     (''activity.classify-incomplete'', k,
      [JStr ''classify-incomplete'', JInt i, JInt v, JStr c, json_opt e])"
| "command_receipt_of (Set_source_visibility ow i v h k) =
     (''activity.source-visibility'', k, [JStr ''source-visibility'', JInt i, JInt v, JBool h])"
| "command_receipt_of (Presign_artifact ow i v c h n t f k) =
     (''activity.artifact.presign'', k,
      [JStr ''artifact-presign'', JInt i, JInt v, JStr c, JStr h, JInt n, JStr t, JStr f])"
| "command_receipt_of (Confirm_artifact ow i v u ok k) =
     (''activity.artifact.confirm'', k,
      [JStr ''artifact-confirm'', JInt i, JInt v, JStr u, JStr ok])"
| "command_receipt_of (Commit_output ow i v n out refs p k) =
     (''activity.commit-output'', k,
      [JStr ''commit-output'', JInt i, JInt v, JInt n, out, JArr (map reference_json refs), json_opt p])"
| "command_receipt_of (Submit_self_review ow i v a s k) =
     (''activity.self-review'', k,
      [JStr ''self-review'', JInt i, JInt v] @ map JStr (answer_list a) @ [JInt s])"

fun payload_of :: "study_response \<Rightarrow> result_payload option" where
  "payload_of (Activity_response r) = Some (Activity_payload r)"
| "payload_of (Detail_response r) = Some (Detail_payload r)"
| "payload_of (Presign_response r) = None"
| "payload_of (Artifact_response r) = Some (Artifact_payload r)"
| "payload_of (Commit_response r) = Some (Commit_payload r)"
| "payload_of (Review_response r) = Some (Review_payload r)"

definition answered :: "study_db \<Rightarrow> services \<Rightarrow> study_command \<Rightarrow> result_payload \<Rightarrow> bool" where
  "answered db sv c p \<longleftrightarrow>
     saved db (fst (command_target c)) (fst (command_receipt_of c)) (fst (snd (command_receipt_of c)))
       (request_hash sv (snd (snd (command_receipt_of c)))) p"

lemma decode_payload:
  "activity_result p = Inr r \<longleftrightarrow> p = Activity_payload r"
  "detail_result p = Inr d \<longleftrightarrow> p = Detail_payload d"
  "artifact_result p = Inr a \<longleftrightarrow> p = Artifact_payload a"
  "commit_result p = Inr o' \<longleftrightarrow> p = Commit_payload o'"
  "review_result p = Inr s \<longleftrightarrow> p = Review_payload s"
  by (cases p; auto)+

lemma replay_or_saved:
  assumes "replay_or db ow scope key hash decode body = Inr (db', r)"
    and "\<And>p. decode p = Inr r \<Longrightarrow> p = f r"
    and "body = Inr (db', r) \<Longrightarrow> \<exists>k db1. save_receipt sv k ow scope key hash (f r) db1 = Inr db'"
  shows "saved db' ow scope key hash (f r)"
  using assms duplicate_as_Some duplicate_as_None save_receipt_saved unfolding replay_or_Inr
  by metis

lemmas saved_simps = Let_def storage_guard_Inr bind_result_Inr_iff

lemma start_saved:
  "start sv db ow i v k = Inr (db', r) \<Longrightarrow>
     saved db' ow ''activity.start'' k (request_hash sv [JStr ''start'', JInt i, JInt v])
       (Activity_payload r)"
  unfolding start_def saved_simps
  by (elim exE conjE, erule replay_or_saved [where sv = sv]) (auto simp: decode_payload run_simps)

lemma service_heartbeat_saved:
  "service_heartbeat sv db ow i v n k = Inr (db', r) \<Longrightarrow>
     saved db' ow ''activity.heartbeat'' k
       (request_hash sv [JStr ''heartbeat'', JInt i, JInt v, JInt n]) (Activity_payload r)"
  unfolding service_heartbeat_def saved_simps
  by (elim exE conjE, erule replay_or_saved [where sv = sv]) (auto simp: decode_payload run_simps)

lemma pause_saved:
  "pause sv db ow i v n k = Inr (db', r) \<Longrightarrow>
     saved db' ow ''activity.pause'' k
       (request_hash sv [JStr ''pause'', JInt i, JInt v, JInt n]) (Activity_payload r)"
  unfolding pause_def saved_simps
  by (elim exE conjE, erule replay_or_saved [where sv = sv]) (auto simp: decode_payload run_simps)

lemma resume_saved:
  "resume sv db ow i v k = Inr (db', r) \<Longrightarrow>
     saved db' ow ''activity.resume'' k (request_hash sv [JStr ''resume'', JInt i, JInt v])
       (Activity_payload r)"
  unfolding resume_def saved_simps
  by (elim exE conjE, erule replay_or_saved [where sv = sv]) (auto simp: decode_payload run_simps)

lemma classify_incomplete_saved:
  "classify_incomplete sv db ow i v c e k = Inr (db', r) \<Longrightarrow>
     saved db' ow ''activity.classify-incomplete'' k
       (request_hash sv [JStr ''classify-incomplete'', JInt i, JInt v, JStr c, json_opt e])
       (Activity_payload r)"
  unfolding classify_incomplete_def saved_simps
  by (elim exE conjE, erule replay_or_saved [where sv = sv]) (auto simp: decode_payload run_simps)

lemma set_source_visibility_saved:
  "set_source_visibility sv db ow i v h k = Inr (db', r) \<Longrightarrow>
     saved db' ow ''activity.source-visibility'' k
       (request_hash sv [JStr ''source-visibility'', JInt i, JInt v, JBool h]) (Detail_payload r)"
  unfolding set_source_visibility_def saved_simps
  by (elim exE conjE, erule replay_or_saved [where sv = sv]) (auto simp: decode_payload run_simps)

lemma confirm_artifact_saved:
  "confirm_artifact sv db ow i v u ok k = Inr (db', r) \<Longrightarrow>
     saved db' ow ''activity.artifact.confirm'' k
       (request_hash sv [JStr ''artifact-confirm'', JInt i, JInt v, JStr u, JStr ok])
       (Artifact_payload r)"
  unfolding confirm_artifact_def saved_simps
  by (elim exE conjE, erule replay_or_saved [where sv = sv]) (auto simp: decode_payload run_simps)

lemma commit_output_saved:
  "commit_output sv db ow i v n out refs p k = Inr (db', r) \<Longrightarrow>
     saved db' ow ''activity.commit-output'' k
       (request_hash sv [JStr ''commit-output'', JInt i, JInt v, JInt n, out,
          JArr (map reference_json refs), json_opt p]) (Commit_payload r)"
  unfolding commit_output_def saved_simps
  by (elim exE conjE, erule replay_or_saved [where sv = sv]) (auto simp: decode_payload run_simps)

lemma submit_self_review_saved:
  "submit_self_review sv db ow i v a s k = Inr (db', r) \<Longrightarrow>
     saved db' ow ''activity.self-review'' k
       (request_hash sv ([JStr ''self-review'', JInt i, JInt v] @ map JStr (answer_list a) @ [JInt s]))
       (Review_payload r)"
  unfolding submit_self_review_def saved_simps
  by (elim exE conjE, erule replay_or_saved [where sv = sv]) (auto simp: decode_payload run_simps)

lemma find_list_all2:
  "list_all2 R xs ys \<Longrightarrow> (\<And>x y. R x y \<Longrightarrow> P x = P y) \<Longrightarrow> rel_option R (find P xs) (find P ys)"
  by (induction rule: list_all2_induct) auto

text \<open>What a request reads of a row that only grows is still there later.\<close>

lemma activity_of_extends:
  "study_extends db db' \<Longrightarrow> rel_option activity_grows (activity_of db ow i) (activity_of db' ow i)"
  unfolding activity_of_def study_extends_def
  by (elim conjE, erule find_list_all2) (auto simp: activity_grows_def activity_provenance_def)

lemma load_activity_extends:
  assumes "study_extends db db'" "load_activity db ow i = Inr row"
  shows "\<exists>row'. load_activity db' ow i = Inr row'"
proof -
  from assms(2) obtain a where a: "activity_of db ow i = Some a"
    by (auto simp: load_activity_def split: option.splits)
  with activity_of_extends [OF assms(1), of ow i] obtain b where
    b: "activity_of db' ow i = Some b" "activity_grows a b" by (auto simp: option_rel_Some1)
  let ?on = "\<lambda>d. sd_owner_id d = ai_owner_id a \<and> sd_id d = ai_study_day_id a"
  have same: "ai_owner_id b = ai_owner_id a" "ai_study_day_id b = ai_study_day_id a"
    "ai_task_definition_id b = ai_task_definition_id a"
    using b(2) by (simp_all add: activity_grows_def activity_provenance_def)
  from assms(2) a obtain d where d: "find ?on (db_days db) = Some d"
    by (auto simp: load_activity_def split: option.splits)
  have "rel_option day_grows (find ?on (db_days db)) (find ?on (db_days db'))"
    using assms(1) by (intro find_list_all2)
      (auto simp: study_extends_def day_grows_def day_provenance_def)
  with d obtain e where e: "find ?on (db_days db') = Some e" by (auto simp: option_rel_Some1)
  from assms have "db_definitions db' = db_definitions db" by (simp add: study_extends_def)
  then show ?thesis using assms(2) a b(1) d e same
    by (simp add: load_activity_def split: option.splits)
qed

lemma saved_extends:
  "study_extends db db' \<Longrightarrow> saved db ow scope key hash p \<Longrightarrow> saved db' ow scope key hash p"
  unfolding saved_def study_extends_def by (meson set_mono_prefix subsetD)

lemmas exec_saved = start_saved service_heartbeat_saved pause_saved resume_saved
  classify_incomplete_saved set_source_visibility_saved confirm_artifact_saved commit_output_saved
  submit_self_review_saved

lemma respond_Inr: "respond f x = Inr (db, r) \<longleftrightarrow> (\<exists>a. x = Inr (db, a) \<and> r = f a)"
  by (auto simp: respond_def result_simps)

lemma exec_answered:
  "exec_study db (sv, c) = Inr (db', r) \<Longrightarrow> payload_of r = Some p \<Longrightarrow> answered db' sv c p"
  by (cases c) (auto simp: respond_Inr answered_def dest!: exec_saved)

lemmas command_defs = start_def service_heartbeat_def pause_def resume_def classify_incomplete_def
  set_source_visibility_def presign_artifact_def confirm_artifact_def commit_output_def
  submit_self_review_def

lemma exec_loads:
  "exec_study db (sv, c) = Inr (db', r) \<Longrightarrow>
     \<exists>row. load_activity db (fst (command_target c)) (snd (command_target c)) = Inr row"
  by (cases c) (simp add: respond_Inr command_defs saved_simps, blast)+

lemma replay_or_duplicate:
  "duplicate_as db ow scope key hash = Inr (Some p) \<Longrightarrow> decode p = Inr r \<Longrightarrow>
     replay_or db ow scope key hash decode body = Inr (db, r)"
  by (simp add: replay_or_def)

lemma request_hash_clock [simp]: "request_hash (sv\<lparr>sv_clock := ck\<rparr>) xs = request_hash sv xs"
  by (simp add: request_hash_def)

lemma require_object_store_clock [simp]:
  "require_object_store (sv\<lparr>sv_clock := ck\<rparr>) = require_object_store sv"
  by (simp add: require_object_store_def)

lemma command_replays:
  "load_activity db ow i = Inr row \<Longrightarrow>
   duplicate_as db ow ''activity.start'' k (request_hash sv [JStr ''start'', JInt i, JInt v])
     = Inr (Some (Activity_payload r)) \<Longrightarrow> start sv db ow i v k = Inr (db, r)"
  "load_activity db ow i = Inr row \<Longrightarrow>
   duplicate_as db ow ''activity.heartbeat'' k
     (request_hash sv [JStr ''heartbeat'', JInt i, JInt v, JInt n])
     = Inr (Some (Activity_payload r)) \<Longrightarrow> service_heartbeat sv db ow i v n k = Inr (db, r)"
  "load_activity db ow i = Inr row \<Longrightarrow>
   duplicate_as db ow ''activity.pause'' k
     (request_hash sv [JStr ''pause'', JInt i, JInt v, JInt n])
     = Inr (Some (Activity_payload r)) \<Longrightarrow> pause sv db ow i v n k = Inr (db, r)"
  "load_activity db ow i = Inr row \<Longrightarrow>
   duplicate_as db ow ''activity.resume'' k (request_hash sv [JStr ''resume'', JInt i, JInt v])
     = Inr (Some (Activity_payload r)) \<Longrightarrow> resume sv db ow i v k = Inr (db, r)"
  "load_activity db ow i = Inr row \<Longrightarrow>
   duplicate_as db ow ''activity.classify-incomplete'' k
     (request_hash sv [JStr ''classify-incomplete'', JInt i, JInt v, JStr c, json_opt e])
     = Inr (Some (Activity_payload r)) \<Longrightarrow> classify_incomplete sv db ow i v c e k = Inr (db, r)"
  "load_activity db ow i = Inr row \<Longrightarrow>
   duplicate_as db ow ''activity.source-visibility'' k
     (request_hash sv [JStr ''source-visibility'', JInt i, JInt v, JBool h])
     = Inr (Some (Detail_payload d)) \<Longrightarrow> set_source_visibility sv db ow i v h k = Inr (db, d)"
  "load_activity db ow i = Inr row \<Longrightarrow> require_object_store sv = Inr st \<Longrightarrow>
   duplicate_as db ow ''activity.artifact.confirm'' k
     (request_hash sv [JStr ''artifact-confirm'', JInt i, JInt v, JStr u, JStr ok])
     = Inr (Some (Artifact_payload a)) \<Longrightarrow> confirm_artifact sv db ow i v u ok k = Inr (db, a)"
  "load_activity db ow i = Inr row \<Longrightarrow>
   duplicate_as db ow ''activity.commit-output'' k
     (request_hash sv [JStr ''commit-output'', JInt i, JInt v, JInt n, out,
        JArr (map reference_json refs), json_opt e])
     = Inr (Some (Commit_payload oc)) \<Longrightarrow> commit_output sv db ow i v n out refs e k = Inr (db, oc)"
  "load_activity db ow i = Inr row \<Longrightarrow> validate_self_review_values ans s = Inr () \<Longrightarrow>
   duplicate_as db ow ''activity.self-review'' k
     (request_hash sv ([JStr ''self-review'', JInt i, JInt v] @ map JStr (answer_list ans) @ [JInt s]))
     = Inr (Some (Review_payload rv)) \<Longrightarrow> submit_self_review sv db ow i v ans s k = Inr (db, rv)"
  by (simp_all add: command_defs Let_def replay_or_duplicate)

lemma command_requires:
  "confirm_artifact sv db ow i v u ok k = Inr x \<Longrightarrow> \<exists>st. require_object_store sv = Inr st"
  "submit_self_review sv db ow i v ans s k = Inr y \<Longrightarrow> validate_self_review_values ans s = Inr ()"
  by (auto simp: confirm_artifact_def submit_self_review_def storage_guard_Inr bind_result_Inr_iff)

lemma exec_replays:
  assumes "exec_study db (sv, c) = Inr (db1, r)" "payload_of r = Some p"
    and "load_activity db' (fst (command_target c)) (snd (command_target c)) = Inr row"
    and "answered db' sv c p" "distinct (map receipt_key (db_receipts db'))"
  shows "exec_study db' (sv\<lparr>sv_clock := ck\<rparr>, c) = Inr (db', r)"
  using assms(1-3) saved_duplicate [OF assms(4) [unfolded answered_def] assms(5)]
  by (cases c) (auto simp: respond_Inr command_replays dest: command_requires)

text \<open>
  C2. A client that lost the response of an accepted request and sends the request again, under
  the same idempotency key and at any later time, gets the response of the first run and changes
  nothing, whatever requests of any client were accepted or refused in between. This holds for
  every command that answers with its stored result; presigning an upload answers with a fresh
  URL instead.
\<close>

theorem study_requests_replay:
  assumes "study_inv db" and "exec_study db (sv, c) = Inr (db1, r)" and "payload_of r = Some p"
  shows "exec_study (run_commands (keep_state exec_study) db1 reqs) (sv\<lparr>sv_clock := ck\<rparr>, c)
    = Inr (run_commands (keep_state exec_study) db1 reqs, r)"
proof -
  let ?db' = "run_commands (keep_state exec_study) db1 reqs"
  have step: "keep_state exec_study db (sv, c) = Inr db1" using assms(2) by (auto simp: keep_state_Inr)
  note inv = study.exec_inv [OF assms(1) step]
  note ext = study.run_extends [OF inv, of reqs]
  obtain row where "load_activity ?db' (fst (command_target c)) (snd (command_target c)) = Inr row"
    using exec_loads [OF assms(2)] load_activity_extends
      [OF study_extends_trans [OF study.exec_extends [OF assms(1) step] ext]] by blast
  moreover have "answered ?db' sv c p"
    using saved_extends [OF ext] exec_answered [OF assms(2,3)] by (auto simp: answered_def)
  moreover have "distinct (map receipt_key (db_receipts ?db'))"
    using study_invD(1) [OF study.run_inv [OF inv, of reqs]] by (simp add: rows_ok_def)
  ultimately show ?thesis by (rule exec_replays [OF assms(2,3)])
qed

lemma demo_start:
  "case exec_study demo_db (demo_services 100, Start 1 4 1 ''k1'') of
     Inl e \<Rightarrow> False | Inr (db1, r) \<Rightarrow> payload_of r \<noteq> None \<and> db1 \<noteq> demo_db"
  by code_simp

theorem study_requests_replay_witness:
  "\<exists>db1 r. exec_study demo_db (demo_services 100, Start 1 4 1 ''k1'') = Inr (db1, r)
     \<and> db1 \<noteq> demo_db
     \<and> exec_study (run_commands (keep_state exec_study) db1 (tl demo_requests))
         ((demo_services 100)\<lparr>sv_clock := (\<lambda>k. Aware 900000000 0)\<rparr>, Start 1 4 1 ''k1'')
       = Inr (run_commands (keep_state exec_study) db1 (tl demo_requests), r)"
  using demo_start study_requests_replay [OF demo_inv, of "demo_services 100" "Start 1 4 1 ''k1''"
      _ _ _ "tl demo_requests" "\<lambda>k. Aware 900000000 0"]
  by (auto split: sum.splits prod.splits)

section \<open>Listeners and triggers\<close>

lemma timer_trigger_is_listener:
  "guard_timer_update old t = Inr () \<longleftrightarrow> validate_timer_workflow old t = Inr ()"
  by (auto simp: guard_timer_update_def validate_timer_workflow_def frozen_def)

lemma day_status_cases:
  assumes "day_checks d"
  obtains "sd_status d = ''planned''" "sd_started_at d = None" "sd_closed_at d = None"
    | "sd_status d = ''in_progress''" "sd_started_at d \<noteq> None" "sd_closed_at d = None"
    | "sd_status d = ''closed''" "sd_started_at d \<noteq> None" "sd_closed_at d \<noteq> None"
    | "sd_status d = ''incomplete''" "sd_started_at d \<noteq> None" "sd_closed_at d \<noteq> None"
    | "sd_status d = ''skipped''" "sd_closed_at d \<noteq> None"
proof -
  have "day_lifecycle_coherent d" using assms by (simp only: day_checks_def)
  then show ?thesis
    unfolding day_lifecycle_coherent_def insert_iff empty_iff by (elim disjE conjE FalseE) (fact that)+
qed

lemma day_trigger_is_listener:
  assumes "t \<noteq> old" "day_checks old" "day_checks t"
  shows "guard_study_day_update old t = Inr () \<longleftrightarrow>
     validate_study_day_workflow old t = Inr () \<and> is_ok (set_day_status (sd_status t) old)
     \<and> day_provenance t = day_provenance old
     \<and> frozen (sd_started_at old) (sd_started_at t) \<and> frozen (sd_closed_at old) (sd_closed_at t)"
  by (rule day_status_cases [OF assms(2)]; rule day_status_cases [OF assms(3)])
    (simp_all add: assms(1) guard_study_day_update_def validate_study_day_workflow_def set_day_status_def
      STUDY_DAY_TRANSITIONS_def frozen_def del: not_None_eq)

lemma activity_trigger_is_listener:
  assumes "ai_id t = ai_id old" "validate_activity_shape old = Inr ()"
  shows "guard_activity_update old t = Inr () \<longleftrightarrow>
     validate_activity_workflow old t = Inr () \<and> is_ok (set_activity_state (ai_state t) old)
     \<and> activity_provenance t = activity_provenance old
     \<and> frozen (ai_started_at old) (ai_started_at t)
     \<and> frozen (ai_output_committed_at old) (ai_output_committed_at t)
     \<and> frozen (ai_completed_at old) (ai_completed_at t)"
proof (cases "ai_state t = ai_state old")
  case True
  then show ?thesis using assms(1) assms(2) [unfolded validate_activity_shape_def guard_Inr_iff]
    by (cases "ai_state old")
      (simp_all add: guard_activity_update_def validate_activity_workflow_def set_activity_state_def
        validate_activity_shape_def frozen_def Let_def ensure_def committed_states_def del: not_None_eq)
next
  case moved: False
  show ?thesis
  proof (cases "ai_state t \<in> set (ACTIVITY_TRANSITIONS (ai_state old))")
    case True
    with moved assms show ?thesis
      by (cases "ai_state old"; simp; (elim disjE)?)
        (simp_all add: guard_activity_update_def validate_activity_workflow_def
          set_activity_state_def validate_activity_shape_def frozen_def Let_def committed_states_def
          del: not_None_eq)
  next
    case False
    with moved have "\<not> is_ok (set_activity_state (ai_state t) old)"
      by (simp add: set_activity_state_def)
    moreover from False have "guard_activity_update old t \<noteq> Inr ()"
      by (simp only: guard_activity_update_def guard_Inr_iff moved if_False not_False_eq_True
          simp_thms)
    ultimately show ?thesis by blast
  qed
qed

text \<open>
  C5. The rules of the study tables are written twice, as listeners of the object-relational layer
  and as triggers of the database, and both accept the same updates: every update of a timer; every
  update of a day between rows that satisfy the table's checks; and, from a row the listener
  accepts, every update of an activity, once the attribute hooks have passed the state and the
  write-once timestamps and the frozen columns are as they were.
\<close>

theorem triggers_agree_with_listeners:
  "(guard_timer_update tm tm' = Inr () \<longleftrightarrow> validate_timer_workflow tm tm' = Inr ())
   \<and> (d' \<noteq> d \<and> day_checks d \<and> day_checks d' \<longrightarrow>
      (guard_study_day_update d d' = Inr () \<longleftrightarrow>
        validate_study_day_workflow d d' = Inr () \<and> is_ok (set_day_status (sd_status d') d)
        \<and> day_provenance d' = day_provenance d
        \<and> frozen (sd_started_at d) (sd_started_at d') \<and> frozen (sd_closed_at d) (sd_closed_at d')))
   \<and> (ai_id a' = ai_id a \<and> validate_activity_shape a = Inr () \<longrightarrow>
      (guard_activity_update a a' = Inr () \<longleftrightarrow>
        validate_activity_workflow a a' = Inr () \<and> is_ok (set_activity_state (ai_state a') a)
        \<and> activity_provenance a' = activity_provenance a
        \<and> frozen (ai_started_at a) (ai_started_at a')
        \<and> frozen (ai_output_committed_at a) (ai_output_committed_at a')
        \<and> frozen (ai_completed_at a) (ai_completed_at a')))"
  using timer_trigger_is_listener day_trigger_is_listener activity_trigger_is_listener by blast

theorem triggers_agree_with_listeners_witness:
  "guard_activity_update demo_activity
       (demo_activity\<lparr>ai_state := ACTIVE, ai_started_at := Some 5, ai_optimistic_version := 2\<rparr>) = Inr ()
   \<and> guard_study_day_update demo_day
       (demo_day\<lparr>sd_status := ''in_progress'', sd_started_at := Some 5\<rparr>) = Inr ()
   \<and> guard_activity_update demo_activity
       (demo_activity\<lparr>ai_state := PAUSED, ai_optimistic_version := 2\<rparr>) \<noteq> Inr ()"
proof -
  let ?a = "demo_activity\<lparr>ai_state := ACTIVE, ai_started_at := Some 5, ai_optimistic_version := 2\<rparr>"
  let ?d = "demo_day\<lparr>sd_status := ''in_progress'', sd_started_at := Some 5\<rparr>"
  let ?p = "demo_activity\<lparr>ai_state := PAUSED, ai_optimistic_version := 2\<rparr>"
  have "?d \<noteq> demo_day \<and> day_checks demo_day \<and> day_checks ?d" by code_simp
  moreover have "validate_study_day_workflow demo_day ?d = Inr ()
      \<and> is_ok (set_day_status (sd_status ?d) demo_day)
      \<and> day_provenance ?d = day_provenance demo_day
      \<and> frozen (sd_started_at demo_day) (sd_started_at ?d)
      \<and> frozen (sd_closed_at demo_day) (sd_closed_at ?d)" by code_simp
  moreover have "ai_id ?a = ai_id demo_activity \<and> ai_id ?p = ai_id demo_activity
      \<and> validate_activity_shape demo_activity = Inr ()" by code_simp
  moreover have "validate_activity_workflow demo_activity ?a = Inr ()
      \<and> is_ok (set_activity_state (ai_state ?a) demo_activity)
      \<and> activity_provenance ?a = activity_provenance demo_activity
      \<and> frozen (ai_started_at demo_activity) (ai_started_at ?a)
      \<and> frozen (ai_output_committed_at demo_activity) (ai_output_committed_at ?a)
      \<and> frozen (ai_completed_at demo_activity) (ai_completed_at ?a)" by code_simp
  moreover have "\<not> is_ok (set_activity_state (ai_state ?p) demo_activity)" by code_simp
  ultimately show ?thesis
    using triggers_agree_with_listeners [where d = demo_day and d' = ?d and a = demo_activity and a' = ?a]
      triggers_agree_with_listeners [where d = demo_day and d' = ?d and a = demo_activity and a' = ?p]
    by blast
qed

text \<open>
  Two requests the state machine admits end in an error the service does not handle: starting a
  paused activity would overwrite its write-once start time, and resuming one that was never
  started would leave it active without a start time.
\<close>

theorem start_of_paused_work_fails:
  "exec_study (run_commands (keep_state exec_study) demo_db demo_requests)
       (demo_services 140, Start 1 4 3 ''k4'')
     = Inl (ActivityWorkflowError ''activity lifecycle timestamps are write-once'')"
  by code_simp

theorem resume_of_ready_work_fails:
  "exec_study demo_db (demo_services 100, Resume 1 4 1 ''k1'')
     = Inl (ActivityWorkflowError ''active activity timestamps are incoherent'')"
  by code_simp

text \<open>
  A client sequence beyond 32 bits passes the request schema and the heartbeat policy, and the
  column rejects it: the client is told that storage is unavailable.
\<close>

theorem large_client_sequence_is_unavailable:
  "validate_timer_workflow t u = Inr () \<Longrightarrow> 2 ^ 31 \<le> ts_last_client_sequence u \<Longrightarrow>
     storage_guard (flush_timer t u db) = Inl (ActivityUnavailable ''activity storage is unavailable'')"
  using timer_trigger_is_listener [of t u] by (simp add: flush_timer_def timer_checks_def int32_def)

end
