(* ===== verification/Oauth_State.thy ===== *)
theory Oauth_State
  imports Object_Store
begin

text \<open>
  Browser secrets and the signed OAuth state, \<^verbatim>\<open>auth/crypto.py\<close>. The hash functions are
  arguments: \<open>sha\<close> gives the 32 bytes of the SHA-256 digest of a text, \<open>hm\<close> the hexadecimal
  HMAC of a text under a key. Secrets the program draws at random are arguments too.
\<close>

section \<open>Errors\<close>

datatype auth_error =
    InvalidOAuthState string
  | Unauthenticated string
  | ForbiddenIdentity string
  | CsrfRejected string
  | ExternalIdentityProviderError string
  | AuthMisconfigured string
  | AuthStorageUnavailable string
  | NativeAuthCapacityExceeded string
  | AuditContractError string
  | Auth_value_error string
  | Auth_type_error string
  | Auth_sql_error string

section \<open>Text\<close>

text \<open>\<^verbatim>\<open>str.isalnum\<close> on the first 256 code points: letters, digits and the numeric signs.\<close>

definition py_alnum :: "char \<Rightarrow> bool" where
  "py_alnum c \<longleftrightarrow> is_alnum c \<or>
     (let n = of_char c :: nat in
      n \<in> {0xAA, 0xB2, 0xB3, 0xB5, 0xB9, 0xBA, 0xBC, 0xBD, 0xBE}
      \<or> (0xC0 \<le> n \<and> n \<noteq> 0xD7 \<and> n \<noteq> 0xF7))"

definition is_ascii :: "string \<Rightarrow> bool" where
  "is_ascii s \<longleftrightarrow> list_all (\<lambda>c. (of_char c :: nat) < 128) s"

text \<open>The shape of a token of 32 random bytes, as the sources test it.\<close>

definition secret_shape :: "string \<Rightarrow> bool" where
  "secret_shape s \<longleftrightarrow> length s = 43
     \<and> list_all (\<lambda>c. py_alnum c \<or> c \<in> {CHR ''-'', CHR ''_''}) s"

text \<open>\<^verbatim>\<open>s.split(d)\<close> and \<^verbatim>\<open>d.join(parts)\<close> for a separator of one character.\<close>

fun split_on :: "char \<Rightarrow> string \<Rightarrow> string list" where
  "split_on d [] = [[]]"
| "split_on d (c # s) =
     (if c = d then [] # split_on d s
      else (case split_on d s of p # ps \<Rightarrow> (c # p) # ps | [] \<Rightarrow> [[c]]))"

text \<open>
  \<^verbatim>\<open>int(text)\<close> on ASCII text: surrounding blanks, one sign, digits that single underscores may
  group.
\<close>

definition ascii_space :: "char \<Rightarrow> bool" where
  "ascii_space c \<longleftrightarrow> (let n = of_char c :: nat in 9 \<le> n \<and> n \<le> 13 \<or> n = 32)"

definition ascii_strip :: "string \<Rightarrow> string" where
  "ascii_strip s = rev (dropWhile ascii_space (rev (dropWhile ascii_space s)))"

definition digits_of :: "string \<Rightarrow> int option" where
  "digits_of s =
     (if list_all (\<lambda>p. p \<noteq> [] \<and> list_all is_digit p) (split_on (CHR ''_'') s)
      then Some (int (str_nat (concat (split_on (CHR ''_'') s)))) else None)"

definition py_int :: "string \<Rightarrow> int option" where
  "py_int s =
     (case ascii_strip s of
        c # r \<Rightarrow>
          if c = CHR ''-'' then map_option uminus (digits_of r)
          else if c = CHR ''+'' then digits_of r
          else digits_of (c # r)
      | [] \<Rightarrow> None)"

section \<open>Secrets\<close>

definition hash_secret :: "(string \<Rightarrow> string) \<Rightarrow> string \<Rightarrow> (auth_error, string) result" where
  "hash_secret sha raw_secret =
     (if \<not> (1 \<le> length raw_secret \<and> length raw_secret \<le> 512)
      then Inl (Auth_value_error ''browser secret is invalid'')
      else Inr (sha raw_secret))"

text \<open>\<^verbatim>\<open>hmac.compare_digest\<close> takes two byte strings, or two texts that must be ASCII.\<close>

definition compare_text :: "string \<Rightarrow> string \<Rightarrow> (auth_error, bool) result" where
  "compare_text a b =
     (if is_ascii a \<and> is_ascii b then Inr (a = b)
      else Inl (Auth_type_error
        ''comparing strings with non-ASCII characters is not supported''))"

section \<open>The state manager\<close>

definition STATE_VERSION :: string where "STATE_VERSION = ''v1''"
definition MAX_CLOCK_SKEW_SECONDS :: int where "MAX_CLOCK_SKEW_SECONDS = 30"

record state_manager =
  sm_key :: string
  sm_ttl_seconds :: int
  sm_max_consumed_states :: nat
  sm_consumed_until :: "(string \<times> int) list"

text \<open>\<^verbatim>\<open>int(x)\<close> of a number of seconds: towards zero.\<close>

definition whole_seconds :: "int \<Rightarrow> int" where
  "whole_seconds t = (if t < 0 then - ((- t) div 1000000) else t div 1000000)"

definition new_state_manager :: "string \<Rightarrow> int \<Rightarrow> int \<Rightarrow> (auth_error, state_manager) result" where
  "new_state_manager signing_secret ttl max_consumed_states =
     (if utf8_size signing_secret < 32
      then Inl (Auth_value_error ''OAuth state signing secret is invalid'')
      else if \<not> (td_minutes 1 \<le> ttl \<and> ttl \<le> td_minutes 10)
      then Inl (Auth_value_error ''OAuth state lifetime is invalid'')
      else if \<not> (1 \<le> max_consumed_states \<and> max_consumed_states \<le> 4096)
      then Inl (Auth_value_error ''OAuth replay cache bound is invalid'')
      else Inr \<lparr>sm_key = signing_secret, sm_ttl_seconds = whole_seconds ttl,
                sm_max_consumed_states = nat max_consumed_states, sm_consumed_until = []\<rparr>)"

definition utc_now :: "datetime \<Rightarrow> (auth_error, instant) result" where
  "utc_now t =
     (case t of
        Naive w \<Rightarrow> Inl (Auth_value_error ''OAuth state clock must be timezone-aware'')
      | Aware w off \<Rightarrow> Inr (instant_of (Aware w off)))"

definition state_payload :: "string \<Rightarrow> string \<Rightarrow> string" where
  "state_payload raw_issued_at nonce =
     STATE_VERSION @ ''.'' @ raw_issued_at @ ''.'' @ nonce"

definition issue_state ::
    "(string \<Rightarrow> string \<Rightarrow> string) \<Rightarrow> state_manager \<Rightarrow> datetime \<Rightarrow> string \<Rightarrow> (auth_error, string) result" where
  "issue_state hm m clock secret =
     bind_result (utc_now clock) (\<lambda>now.
     let payload = state_payload (int_str (whole_seconds now)) secret
     in Inr (payload @ ''.'' @ hm (sm_key m) payload))"

definition bad_state :: auth_error where
  "bad_state = InvalidOAuthState ''OAuth state is invalid''"

text \<open>What is tested of the state itself, once it is known to equal the cookie.\<close>

definition verify_signed ::
    "(string \<Rightarrow> string \<Rightarrow> string) \<Rightarrow> state_manager \<Rightarrow> datetime \<Rightarrow> string \<Rightarrow> (auth_error, unit) result" where
  "verify_signed hm m clock state =
     (case split_on (CHR ''.'') state of
        [version, raw_issued_at, nonce, supplied_signature] \<Rightarrow>
          if version \<noteq> STATE_VERSION then Inl bad_state
          else if \<not> secret_shape nonce then Inl bad_state
          else (case py_int raw_issued_at of
                  None \<Rightarrow> Inl bad_state
                | Some issued_at \<Rightarrow>
                    bind_result (compare_text supplied_signature
                      (hm (sm_key m) (state_payload raw_issued_at nonce))) (\<lambda>same.
                    if \<not> same then Inl bad_state
                    else bind_result (utc_now clock) (\<lambda>t.
                      let now = whole_seconds t
                      in if now + MAX_CLOCK_SKEW_SECONDS < issued_at
                            \<or> sm_ttl_seconds m < now - issued_at
                         then Inl bad_state else Inr ())))
      | _ \<Rightarrow> Inl bad_state)"

definition verify_state ::
    "(string \<Rightarrow> string \<Rightarrow> string) \<Rightarrow> state_manager \<Rightarrow> datetime \<Rightarrow> string option \<Rightarrow> string option
      \<Rightarrow> (auth_error, unit) result" where
  "verify_state hm m clock state state_cookie =
     (case (state, state_cookie) of
        (Some s, Some c) \<Rightarrow>
          if \<not> (1 \<le> length s \<and> length s \<le> 256) \<or> \<not> (1 \<le> length c \<and> length c \<le> 256)
          then Inl bad_state
          else bind_result (compare_text s c) (\<lambda>same.
               if same then verify_signed hm m clock s else Inl bad_state)
      | _ \<Rightarrow> Inl bad_state)"

text \<open>
  Consuming a state. The cache of consumed states drops what has expired and, when it is full,
  its oldest entry; what it dropped stays dropped when the state is then refused.
\<close>

definition remove_expired :: "int \<Rightarrow> (string \<times> int) list \<Rightarrow> (string \<times> int) list" where
  "remove_expired now consumed = filter (\<lambda>(key, deadline). \<not> deadline < now) consumed"

definition consume_state ::
    "(string \<Rightarrow> string) \<Rightarrow> (string \<Rightarrow> string \<Rightarrow> string) \<Rightarrow> state_manager \<Rightarrow> datetime \<Rightarrow> datetime
      \<Rightarrow> string option \<Rightarrow> string option \<Rightarrow> state_manager \<times> (auth_error, unit) result" where
  "consume_state sha hm m clock1 clock2 state state_cookie =
     (case bind_result (verify_state hm m clock1 state state_cookie) (\<lambda>_.
           bind_result (utc_now clock2) (\<lambda>t.
           bind_result (hash_secret sha (the state)) (\<lambda>state_hash.
           Inr (whole_seconds t, state_hash)))) of
        Inl e \<Rightarrow> (m, Inl e)
      | Inr (now, state_hash) \<Rightarrow>
          (let kept = remove_expired now (sm_consumed_until m)
           in if state_hash \<in> set (map fst kept)
              then (m\<lparr>sm_consumed_until := kept\<rparr>, Inl bad_state)
              else
                let room = (if sm_max_consumed_states m \<le> length kept then tl kept else kept)
                in (m\<lparr>sm_consumed_until := room @ [(state_hash, now + sm_ttl_seconds m)]\<rparr>, Inr ())))"

section \<open>An issued state is accepted\<close>

lemma split_on_ne: "split_on d s \<noteq> []"
  by (induction s) (auto split: list.splits)

lemma split_on_plain: "d \<notin> set p \<Longrightarrow> split_on d p = [p]"
  by (induction p) auto

lemma split_on_append: "d \<notin> set p \<Longrightarrow> split_on d (p @ d # s) = p # split_on d s"
  by (induction p) auto

lemma nat_str_nonempty [simp]: "nat_str n \<noteq> []"
  by (simp add: nat_str.simps [of n])

lemma nat_str_char:
  assumes "c \<in> set (nat_str n)"
  shows "is_digit c" "\<not> ascii_space c" "c \<notin> {CHR ''-'', CHR ''+'', CHR ''_'', CHR ''.''}"
    "(of_char c :: nat) < 128"
  using nat_str_digits [OF assms] by (auto simp: is_digit_def in_range_def ascii_space_def Let_def)

lemma nat_str_no_dot [simp]: "CHR ''.'' \<notin> set (nat_str n)"
  using nat_str_char(3) by blast

lemma dropWhile_none: "\<forall>c \<in> set s. \<not> P c \<Longrightarrow> dropWhile P s = s"
  by (cases s) auto

lemma py_int_nat_str [simp]: "py_int (nat_str n) = Some (int n)"
proof -
  have s: "ascii_strip (nat_str n) = nat_str n"
    unfolding ascii_strip_def using nat_str_char(2) [of _ n] by (simp add: dropWhile_none)
  have "CHR ''_'' \<notin> set (nat_str n)" using nat_str_char(3) by blast
  then have d: "digits_of (nat_str n) = Some (int n)"
    using nat_str_char(1) by (auto simp: digits_of_def split_on_plain list_all_iff)
  obtain c r where cr: "nat_str n = c # r" by (cases "nat_str n") auto
  then have "c \<notin> {CHR ''-'', CHR ''+''}" using nat_str_char(3) [of c n] by auto
  then show ?thesis using s d cr by (auto simp: py_int_def)
qed

lemma hex_chars:
  "is_hex c \<Longrightarrow> (of_char c :: nat) < 128 \<and> c \<noteq> CHR ''.''"
  by (auto simp: is_hex_def is_digit_def in_range_def)

lemma secret_no_dot: "secret_shape s \<Longrightarrow> CHR ''.'' \<notin> set s"
  by (auto simp: secret_shape_def list_all_iff py_alnum_def is_alnum_def is_lower_def is_digit_def
      in_range_def)

lemma issue_state_shape:
  assumes "issue_state hm m clock secret = Inr s" "0 \<le> instant_of clock"
  shows "s = STATE_VERSION @ CHR ''.'' # nat_str (nat (instant_of clock div 1000000)) @ CHR ''.'' # secret
    @ CHR ''.'' # hm (sm_key m) (state_payload (nat_str (nat (instant_of clock div 1000000))) secret)"
  using assms
  by (cases clock) (simp_all add: issue_state_def utc_now_def state_payload_def whole_seconds_def
      int_str_def Let_def div_less_dividend pos_imp_zdiv_neg_iff not_less)

lemma issue_state_size:
  assumes "issue_state hm m clock secret = Inr s" "0 \<le> instant_of clock" "instant_of clock < 10 ^ 18"
    "secret_shape secret" "sha256_shape (hm (sm_key m)
        (state_payload (nat_str (nat (instant_of clock div 1000000))) secret))"
  shows "length s \<le> 256"
proof -
  have "instant_of clock < 1000000000000000000" using assms(3) by simp
  then have "instant_of clock div 1000000 < 1000000000000" by presburger
  then have "nat (instant_of clock div 1000000) < 10 ^ 12" by simp
  then have "length (nat_str (nat (instant_of clock div 1000000))) \<le> 12"
    using length_nat_str [of _ 12] by (metis max_def numeral_le_iff one_le_numeral semiring_norm(69,71))
  then show ?thesis using issue_state_shape [OF assms(1,2)] assms(4,5)
    by (simp add: secret_shape_def sha256_shape_def STATE_VERSION_def)
qed

text \<open>
  A freshly issued OAuth state comes back accepted: with the cookie the browser was given, at
  any moment from thirty seconds before to the end of its lifetime, whatever other states were
  consumed. It takes for granted what the standard library documents, that a drawn secret has 43
  ASCII letters, digits, hyphens and underscores and an HMAC 64 hexadecimal digits.
\<close>

theorem oauth_state_roundtrip:
  assumes "issue_state hm m clock0 secret = Inr s"
    and "0 \<le> instant_of clock0" "instant_of clock0 < 10 ^ 18"
    and "secret_shape secret" "is_ascii secret" "\<And>k p. sha256_shape (hm k p)"
    and "aware clock" "whole_seconds (instant_of clock0) \<le> whole_seconds (instant_of clock) + 30"
    and "whole_seconds (instant_of clock) - whole_seconds (instant_of clock0) \<le> sm_ttl_seconds m"
  shows "verify_state hm (m\<lparr>sm_consumed_until := consumed\<rparr>) clock (Some s) (Some s) = Inr ()"
proof -
  let ?ts = "nat_str (nat (instant_of clock0 div 1000000))"
  let ?sig = "hm (sm_key m) (state_payload ?ts secret)"
  have whole: "whole_seconds (instant_of clock0) = int (nat (instant_of clock0 div 1000000))"
    using assms(2) by (simp add: whole_seconds_def)
  have s: "s = ''v1'' @ CHR ''.'' # ?ts @ CHR ''.'' # secret @ CHR ''.'' # ?sig"
    using issue_state_shape [OF assms(1,2)] by (simp add: STATE_VERSION_def)
  have len: "1 \<le> length s" "length s \<le> 256"
    using s issue_state_size [OF assms(1-4) assms(6)] by simp_all
  have sig: "CHR ''.'' \<notin> set ?sig" "is_ascii ?sig"
    using assms(6) [of "sm_key m" "state_payload ?ts secret"] hex_chars
    by (auto simp: sha256_shape_def list_all_iff is_ascii_def)
  have ts: "CHR ''.'' \<notin> set ?ts" "is_ascii ?ts"
    using nat_str_char(4) by (simp_all add: is_ascii_def list_all_iff)
  have "is_ascii s" using s sig ts assms(5) by (simp add: is_ascii_def)
  moreover have "split_on (CHR ''.'') s = [''v1'', ?ts, secret, ?sig]"
    using s sig ts secret_no_dot [OF assms(4)] by (simp add: split_on_append split_on_plain)
  moreover obtain w off where "clock = Aware w off" using assms(7) by (cases clock) auto
  ultimately show ?thesis
    using len assms(4,8,9) sig(2) whole
    by (simp add: verify_state_def verify_signed_def compare_text_def STATE_VERSION_def utc_now_def
        MAX_CLOCK_SKEW_SECONDS_def Let_def)
qed

definition demo_hmac :: "string \<Rightarrow> string \<Rightarrow> string" where
  "demo_hmac k p = replicate 64 (CHR ''a'')"

definition demo_manager :: state_manager where
  "demo_manager = \<lparr>sm_key = replicate 32 (CHR ''k''), sm_ttl_seconds = 300, sm_max_consumed_states = 4,
     sm_consumed_until = []\<rparr>"

definition demo_secret :: string where
  "demo_secret = replicate 43 (CHR ''x'')"

definition demo_state :: string where
  "demo_state = ''v1.5.'' @ demo_secret @ ''.'' @ replicate 64 (CHR ''a'')"

lemma demo_hmac_shape: "sha256_shape (demo_hmac k p)"
  unfolding demo_hmac_def by code_simp

lemma demo_issued:
  "issue_state demo_hmac demo_manager (Aware 5000000 0) demo_secret = Inr demo_state
   \<and> secret_shape demo_secret \<and> is_ascii demo_secret"
  by code_simp

theorem oauth_state_roundtrip_witness:
  "issue_state demo_hmac demo_manager (Aware 5000000 0) demo_secret = Inr demo_state
   \<and> verify_state demo_hmac (demo_manager\<lparr>sm_consumed_until := []\<rparr>) (Aware 9000000 0)
       (Some demo_state) (Some demo_state) = Inr ()"
proof -
  note d = demo_issued [THEN conjunct1] demo_issued [THEN conjunct2, THEN conjunct1]
    demo_issued [THEN conjunct2, THEN conjunct2]
  show ?thesis
    using oauth_state_roundtrip [OF d(1) _ _ d(2,3) demo_hmac_shape, of "Aware 9000000 0" "[]"] d(1)
    by (simp add: whole_seconds_def demo_manager_def)
qed

section \<open>A state is accepted once\<close>

text \<open>Requests with the reading of the clock at which each is handled.\<close>

type_synonym state_request = "datetime \<times> string option \<times> string option"

fun consume_at ::
    "(string \<Rightarrow> string) \<Rightarrow> (string \<Rightarrow> string \<Rightarrow> string) \<Rightarrow> state_manager \<Rightarrow> state_request
      \<Rightarrow> state_manager \<times> (auth_error, unit) result" where
  "consume_at sha hm m (clock, state, cookie) = consume_state sha hm m clock clock state cookie"

definition consume_all ::
    "(string \<Rightarrow> string) \<Rightarrow> (string \<Rightarrow> string \<Rightarrow> string) \<Rightarrow> state_manager \<Rightarrow> state_request list
      \<Rightarrow> state_manager" where
  "consume_all sha hm m reqs = foldl (\<lambda>m r. fst (consume_at sha hm m r)) m reqs"

text \<open>The entry is in the cache with at most \<open>n\<close> younger ones.\<close>

definition cached :: "string \<times> int \<Rightarrow> nat \<Rightarrow> state_manager \<Rightarrow> bool" where
  "cached e n m \<longleftrightarrow>
     (\<exists>older younger. sm_consumed_until m = older @ e # younger \<and> length younger \<le> n)"

lemma consume_state_Inr:
  "consume_state sha hm m c1 c2 (Some s) k = (m', Inr ()) \<Longrightarrow>
     cached (sha s, whole_seconds (instant_of c2) + sm_ttl_seconds m) 0 m'
     \<and> sm_max_consumed_states m' = sm_max_consumed_states m \<and> sm_ttl_seconds m' = sm_ttl_seconds m"
  by (cases c2)
    (auto simp: consume_state_def cached_def Let_def utc_now_def hash_secret_def result_simps
      split: sum.splits if_splits)

lemma cached_mono: "cached e n m \<Longrightarrow> n \<le> n' \<Longrightarrow> cached e n' m"
  by (auto simp: cached_def intro: order_trans)

lemma cached_kept:
  assumes "cached (h, d) n m" "t \<le> d"
  shows "cached (h, d) n (m\<lparr>sm_consumed_until := remove_expired t (sm_consumed_until m)\<rparr>)"
proof -
  from assms(1) obtain older younger where
    e: "sm_consumed_until m = older @ (h, d) # younger" "length younger \<le> n"
    unfolding cached_def by blast
  then have "remove_expired t (sm_consumed_until m)
      = remove_expired t older @ (h, d) # remove_expired t younger"
    using assms(2) by (simp add: remove_expired_def)
  moreover have "length (remove_expired t younger) \<le> n"
    using e(2) length_filter_le order_trans unfolding remove_expired_def by blast
  ultimately show ?thesis unfolding cached_def by auto
qed

lemma cached_room:
  assumes "cached (h, d) n m" "n + 1 < bound"
  shows "cached (h, d) (n + 1) (m\<lparr>sm_consumed_until :=
     (if bound \<le> length (sm_consumed_until m) then tl (sm_consumed_until m)
      else sm_consumed_until m) @ [x]\<rparr>)"
proof -
  from assms(1) obtain older younger where
    e: "sm_consumed_until m = older @ (h, d) # younger" "length younger \<le> n"
    unfolding cached_def by blast
  show ?thesis
  proof (cases "bound \<le> length (sm_consumed_until m)")
    case True
    then have "older \<noteq> []" using e assms(2) by auto
    then have "tl (sm_consumed_until m) @ [x] = tl older @ (h, d) # (younger @ [x])" using e by simp
    then show ?thesis unfolding cached_def using e(2) True
      by (intro exI [of _ "tl older"] exI [of _ "younger @ [x]"]) simp
  next
    case False
    then show ?thesis unfolding cached_def using e
      by (intro exI [of _ older] exI [of _ "younger @ [x]"]) simp
  qed
qed

lemma consume_state_keeps:
  assumes "cached (h, d) n m" "n + 1 < sm_max_consumed_states m"
    and "whole_seconds (instant_of c2) \<le> d"
  shows "cached (h, d) (n + 1) (fst (consume_state sha hm m c1 c2 s k))"
proof -
  let ?now = "whole_seconds (instant_of c2)"
  let ?kept = "m\<lparr>sm_consumed_until := remove_expired ?now (sm_consumed_until m)\<rparr>"
  have kept: "cached (h, d) n ?kept" by (rule cached_kept [OF assms(1,3)])
  have "utc_now c2 = Inr t \<Longrightarrow> t = instant_of c2" for t
    by (auto simp: utc_now_def split: datetime.splits)
  then show ?thesis
    using cached_mono [OF assms(1), of "n + 1"] cached_mono [OF kept, of "n + 1"]
      cached_room [OF kept assms(2)]
    by (auto simp: consume_state_def Let_def result_simps split: sum.split)
qed

lemma consume_state_bound [simp]:
  "sm_max_consumed_states (fst (consume_state sha hm m c1 c2 s k)) = sm_max_consumed_states m"
  "sm_ttl_seconds (fst (consume_state sha hm m c1 c2 s k)) = sm_ttl_seconds m"
  by (auto simp: consume_state_def Let_def split: sum.split)

lemma consume_all_keeps:
  assumes "cached (h, d) n m" "n + length reqs < sm_max_consumed_states m"
    and "list_all (\<lambda>r. whole_seconds (instant_of (fst r)) \<le> d) reqs"
  shows "cached (h, d) (n + length reqs) (consume_all sha hm m reqs)"
  using assms
proof (induction reqs arbitrary: m n)
  case Nil
  then show ?case by (simp add: consume_all_def)
next
  case (Cons r reqs)
  obtain c s k where r: "r = (c, s, k)" by (cases r)
  have "cached (h, d) (n + 1) (fst (consume_at sha hm m r))"
    using consume_state_keeps [OF Cons.prems(1)] Cons.prems(2,3) by (simp add: r)
  from Cons.IH [OF this] Cons.prems(2,3) show ?case by (simp add: r consume_all_def)
qed

lemma consume_cached_fails:
  assumes "cached (sha s, d) n m" "whole_seconds (instant_of c2) \<le> d"
  shows "snd (consume_state sha hm m c1 c2 (Some s) k) \<noteq> Inr ()"
proof -
  have "utc_now c2 = Inr t \<Longrightarrow> t = instant_of c2" for t
    by (auto simp: utc_now_def split: datetime.splits)
  moreover have "sha s \<in> fst ` set (remove_expired (whole_seconds (instant_of c2)) (sm_consumed_until m))"
    using cached_kept [OF assms] by (force simp: cached_def)
  ultimately show ?thesis
    by (auto simp: consume_state_def Let_def result_simps hash_secret_def split: sum.split if_splits)
qed

lemma verify_state_lifetime:
  "verify_state hm m c (Some s) k = Inr () \<Longrightarrow> py_int (split_on (CHR ''.'') s ! 1) = Some t \<Longrightarrow>
     whole_seconds (instant_of c) - t \<le> sm_ttl_seconds m"
  by (auto simp: verify_state_def verify_signed_def Let_def utc_now_def result_simps
      split: option.splits list.splits if_splits datetime.splits)

lemma consume_state_verifies:
  "snd (consume_state sha hm m c1 c2 s k) = Inr () \<Longrightarrow> verify_state hm m c1 s k = Inr ()"
  by (auto simp: consume_state_def Let_def result_simps split: sum.splits if_splits)



text \<open>
  Two limits of the replay cache. A state stamped by a clock that was ahead can be replayed
  between the end of its entry and the end of its lifetime, and enough other callbacks push its
  entry out.
\<close>

definition replayed_twice :: "state_manager \<Rightarrow> state_request list \<Rightarrow> bool list" where
  "replayed_twice m reqs =
     map (\<lambda>i. snd (consume_at id demo_hmac (consume_all id demo_hmac m (take i reqs)) (reqs ! i)) = Inr ())
       [0..<length reqs]"

theorem skewed_state_is_replayed:
  "replayed_twice (demo_manager\<lparr>sm_ttl_seconds := 60\<rparr>)
     [(Aware (- 20000000) 0, Some demo_state, Some demo_state),
      (Aware 45000000 0, Some demo_state, Some demo_state)] = [True, True]"
  by code_simp

lemma non_ascii_state_is_not_handled:
  "verify_state hm m c (Some [CHR 0xE9]) (Some [CHR 0xE9]) = Inl (Auth_type_error
     ''comparing strings with non-ASCII characters is not supported'')"
  by (simp add: verify_state_def compare_text_def is_ascii_def)

end
