(* ===== verification/Audit_Contract.thy ===== *)
theory Audit_Contract
  imports Oauth_State Json
begin

text \<open>
  The audit contract, \<^verbatim>\<open>auth/audit.py\<close>: the machine-only metadata of an audit event and the
  identifiers it may carry, with the database's own version of the identifier test
  (\<^verbatim>\<open>tamforge_is_safe_audit_machine_value\<close> of the first migration). A mapping is an object whose
  keys are distinct.
\<close>

section \<open>The closed vocabulary\<close>

datatype audit_outcome = Outcome_succeeded | Outcome_failed | Outcome_denied | Outcome_noop

datatype audit_reason =
    Reason_none | Reason_invalid_input | Reason_unauthorized | Reason_conflict
  | Reason_expired | Reason_revoked | Reason_not_found | Reason_internal_error

fun outcome_value :: "audit_outcome \<Rightarrow> string" where
  "outcome_value Outcome_succeeded = ''succeeded''"
| "outcome_value Outcome_failed = ''failed''"
| "outcome_value Outcome_denied = ''denied''"
| "outcome_value Outcome_noop = ''noop''"

fun reason_value :: "audit_reason \<Rightarrow> string" where
  "reason_value Reason_none = ''none''"
| "reason_value Reason_invalid_input = ''invalid_input''"
| "reason_value Reason_unauthorized = ''unauthorized''"
| "reason_value Reason_conflict = ''conflict''"
| "reason_value Reason_expired = ''expired''"
| "reason_value Reason_revoked = ''revoked''"
| "reason_value Reason_not_found = ''not_found''"
| "reason_value Reason_internal_error = ''internal_error''"

definition OUTCOMES :: "string list" where
  "OUTCOMES = map outcome_value [Outcome_succeeded, Outcome_failed, Outcome_denied, Outcome_noop]"

definition REASON_CODES :: "string list" where
  "REASON_CODES = map reason_value [Reason_none, Reason_invalid_input, Reason_unauthorized,
     Reason_conflict, Reason_expired, Reason_revoked, Reason_not_found, Reason_internal_error]"

definition CHANGED_FIELDS :: "string list" where
  "CHANGED_FIELDS = [''github_login'', ''expires_at'', ''revoked_at'', ''last_seen_at'', ''status'',
     ''state'', ''result_payload'']"

definition COUNT_KEYS :: "string list" where
  "COUNT_KEYS = [''attempted'', ''succeeded'', ''failed'', ''affected'', ''remaining'']"

definition FLAG_KEYS :: "string list" where
  "FLAG_KEYS = [''replayed'', ''retryable'', ''authenticated'', ''authorized'', ''redacted'']"

definition AUDIT_METADATA_KEYS :: "string list" where
  "AUDIT_METADATA_KEYS =
     [''schema_version'', ''outcome'', ''reason_code'', ''changed_fields'', ''counts'', ''flags'']"

definition AUDIT_METADATA_MAX_BYTES :: nat where "AUDIT_METADATA_MAX_BYTES = 2048"
definition AUDIT_COUNT_MAX :: int where "AUDIT_COUNT_MAX = 1000000"
definition AUDIT_CHANGED_FIELDS_MAX :: nat where "AUDIT_CHANGED_FIELDS_MAX = 16"

section \<open>Metadata\<close>

fun allowed_word :: "string list \<Rightarrow> json option \<Rightarrow> bool" where
  "allowed_word ws (Some (JStr s)) \<longleftrightarrow> s \<in> set ws"
| "allowed_word ws _ = False"

fun word_list :: "json option \<Rightarrow> string list option" where
  "word_list (Some (JArr js)) =
     (if list_all (\<lambda>j. allowed_word CHANGED_FIELDS (Some j)) js
      then Some (map (\<lambda>j. case j of JStr s \<Rightarrow> s | _ \<Rightarrow> []) js) else None)"
| "word_list _ = None"

fun count_map :: "json option \<Rightarrow> (string \<times> int) list option" where
  "count_map (Some (JObj kvs)) =
     (if list_all (\<lambda>(k, j). k \<in> set COUNT_KEYS
            \<and> (case j of JInt n \<Rightarrow> 0 \<le> n \<and> n \<le> AUDIT_COUNT_MAX | _ \<Rightarrow> False)) kvs
      then Some (map (\<lambda>(k, j). (k, case j of JInt n \<Rightarrow> n | _ \<Rightarrow> 0)) kvs) else None)"
| "count_map _ = None"

fun flag_map :: "json option \<Rightarrow> (string \<times> bool) list option" where
  "flag_map (Some (JObj kvs)) =
     (if list_all (\<lambda>(k, j). k \<in> set FLAG_KEYS \<and> (case j of JBool b \<Rightarrow> True | _ \<Rightarrow> False)) kvs
      then Some (map (\<lambda>(k, j). (k, j = JBool True)) kvs) else None)"
| "flag_map _ = None"

definition canonical_metadata ::
    "string \<Rightarrow> string \<Rightarrow> string list \<Rightarrow> (string \<times> int) list \<Rightarrow> (string \<times> bool) list
      \<Rightarrow> (string \<times> json) list" where
  "canonical_metadata outcome reason changed counts flags =
     [(''schema_version'', JInt 1), (''outcome'', JStr outcome), (''reason_code'', JStr reason),
      (''changed_fields'', JArr (map JStr (sort changed))),
      (''counts'', JObj (map (\<lambda>(k, n). (k, JInt n)) (sort_key fst counts))),
      (''flags'', JObj (map (\<lambda>(k, b). (k, JBool b)) (sort_key fst flags)))]"

definition metadata_error :: auth_error where
  "metadata_error = AuditContractError ''audit metadata violates v1 contract''"

definition validate_audit_metadata ::
    "(string \<times> json) list \<Rightarrow> (auth_error, (string \<times> json) list) result" where
  "validate_audit_metadata v =
     (if set (map fst v) \<noteq> set AUDIT_METADATA_KEYS then Inl metadata_error
      else if map_of v ''schema_version'' \<noteq> Some (JInt 1) then Inl metadata_error
      else if \<not> allowed_word OUTCOMES (map_of v ''outcome'') then Inl metadata_error
      else if \<not> allowed_word REASON_CODES (map_of v ''reason_code'') then Inl metadata_error
      else case (map_of v ''outcome'', map_of v ''reason_code'', map_of v ''changed_fields'',
                 word_list (map_of v ''changed_fields''), count_map (map_of v ''counts''),
                 flag_map (map_of v ''flags'')) of
             (Some (JStr outcome), Some (JStr reason), Some (JArr js), Some changed, Some counts, Some flags) \<Rightarrow>
               if AUDIT_CHANGED_FIELDS_MAX < length js \<or> \<not> distinct changed then Inl metadata_error
               else
                 let canonical = canonical_metadata outcome reason changed counts flags
                 in if AUDIT_METADATA_MAX_BYTES < length (dumps True (JObj canonical))
                    then Inl metadata_error else Inr canonical
           | _ \<Rightarrow> Inl metadata_error)"

record audit_metadata_v1 =
  am_outcome :: audit_outcome
  am_reason_code :: audit_reason
  am_changed_fields :: "string list"
  am_counts :: "(string \<times> int) list"
  am_flags :: "(string \<times> bool) list"

definition to_payload :: "audit_metadata_v1 \<Rightarrow> (auth_error, (string \<times> json) list) result" where
  "to_payload m =
     validate_audit_metadata
       [(''schema_version'', JInt 1), (''outcome'', JStr (outcome_value (am_outcome m))),
        (''reason_code'', JStr (reason_value (am_reason_code m))),
        (''changed_fields'', JArr (map JStr (am_changed_fields m))),
        (''counts'', JObj (map (\<lambda>(k, n). (k, JInt n)) (am_counts m))),
        (''flags'', JObj (map (\<lambda>(k, b). (k, JBool b)) (am_flags m)))]"

section \<open>Identifiers\<close>

definition machine_char :: "char \<Rightarrow> bool" where
  "machine_char c \<longleftrightarrow> is_lower c \<or> is_digit c \<or> c \<in> set ''_.:-''"

definition token_char :: "char \<Rightarrow> bool" where
  "token_char c \<longleftrightarrow> is_lower c \<or> is_digit c \<or> c \<in> set ''_-''"

definition machine_value :: "string \<Rightarrow> bool" where
  "machine_value s \<longleftrightarrow> (case s of [] \<Rightarrow> False
     | c # cs \<Rightarrow> (is_lower c \<or> is_digit c) \<and> list_all machine_char cs)"

definition uuid_value :: "string \<Rightarrow> bool" where
  "uuid_value s \<longleftrightarrow> (case split_on (CHR ''-'') s of
       [a, b, c, d, e] \<Rightarrow>
         list_all (list_all is_hex) [a, b, c, d, e]
         \<and> map length [a, b, c, d, e] = [8, 4, 4, 4, 12]
         \<and> in_range (CHR ''1'') (CHR ''8'') (hd c) \<and> hd d \<in> set ''89ab''
     | _ \<Rightarrow> False)"

definition SECRET_PREFIXES :: "string list" where
  "SECRET_PREFIXES = [''bearer'', ''ghp_'', ''gho_'', ''ghu_'', ''ghs_'', ''ghr_'', ''github_pat_'', ''sk-'',
     ''apikey'', ''api_key'', ''api-key'', ''sessiontoken'', ''session_token'', ''session-token'', ''eyj'']"

definition secret_prefix :: "string \<Rightarrow> bool" where
  "secret_prefix s \<longleftrightarrow> list_ex (\<lambda>p. prefix p s) SECRET_PREFIXES"

definition jwt_value :: "string \<Rightarrow> bool" where
  "jwt_value s \<longleftrightarrow> (case split_on (CHR ''.'') s of
       [a, b, c] \<Rightarrow> list_all (\<lambda>p. 10 \<le> length p \<and> list_all token_char p) [a, b, c]
     | _ \<Rightarrow> False)"

definition opaque_token_value :: "string \<Rightarrow> bool" where
  "opaque_token_value s \<longleftrightarrow> 32 \<le> length s \<and> list_all token_char s"

text \<open>\<^verbatim>\<open>str.lower\<close> on the first 256 code points.\<close>

definition py_lower :: "string \<Rightarrow> string" where
  "py_lower s = map (\<lambda>c. let n = of_char c :: nat in
     if (65 \<le> n \<and> n \<le> 90) \<or> (0xC0 \<le> n \<and> n \<le> 0xDE \<and> n \<noteq> 0xD7) then char_of (n + 32) else c) s"

definition event_error :: auth_error where
  "event_error = AuditContractError ''audit event violates storage contract''"

definition validate_audit_hash :: "string option \<Rightarrow> bool \<Rightarrow> (auth_error, unit) result" where
  "validate_audit_hash v nullable =
     (case v of
        None \<Rightarrow> if nullable then Inr () else Inl event_error
      | Some h \<Rightarrow> if length h \<noteq> 32 then Inl event_error else Inr ())"

definition validate_audit_machine_value :: "string \<Rightarrow> nat \<Rightarrow> (auth_error, unit) result" where
  "validate_audit_machine_value v max_bytes =
     (let lowered = py_lower v
      in if v = [] \<or> max_bytes < utf8_size v \<or> \<not> machine_value v then Inl event_error
         else if secret_prefix lowered \<or> jwt_value lowered then Inl event_error
         else if opaque_token_value lowered \<and> \<not> uuid_value lowered then Inl event_error
         else Inr ())"

definition safe_audit_machine_value :: "string \<Rightarrow> nat \<Rightarrow> bool" where
  "safe_audit_machine_value candidate max_bytes \<longleftrightarrow>
     1 \<le> max_bytes \<and> max_bytes \<le> 128
     \<and> 1 \<le> utf8_size candidate \<and> utf8_size candidate \<le> max_bytes
     \<and> machine_value candidate
     \<and> \<not> secret_prefix (py_lower candidate) \<and> \<not> jwt_value (py_lower candidate)
     \<and> (uuid_value (py_lower candidate) \<or> \<not> opaque_token_value (py_lower candidate))"

section \<open>No secret is an identifier\<close>

lemma hex_is_token: "is_hex c \<Longrightarrow> token_char c"
  by (auto simp: is_hex_def token_char_def is_lower_def in_range_def)

lemma machine_lower: "machine_char c \<Longrightarrow> (of_char c :: nat) < 65 \<or> (90 < (of_char c :: nat) \<and> (of_char c :: nat) < 128)"
  by (auto simp: machine_char_def is_lower_def is_digit_def in_range_def)

lemma machine_value_all: "machine_value s \<Longrightarrow> s \<noteq> [] \<and> list_all machine_char s"
  by (auto simp: machine_value_def machine_char_def split: list.splits)

lemma py_lower_machine: "list_all machine_char s \<Longrightarrow> py_lower s = s"
  unfolding py_lower_def list_all_iff
  by (rule map_idI) (auto dest!: bspec machine_lower simp: Let_def)

lemma machine_utf8: "list_all machine_char s \<Longrightarrow> utf8_size s = length s"
  unfolding utf8_size_def by (induction s) (auto dest!: machine_lower)

lemma uuid_length: "uuid_value s \<Longrightarrow> length s = 36"
proof -
  assume u: "uuid_value s"
  then obtain a b c d e where p: "split_on (CHR ''-'') s = [a, b, c, d, e]"
    and l: "map length [a, b, c, d, e] = [8, 4, 4, 4, 12]"
    by (auto simp: uuid_value_def split: list.splits)
  have "length s + 1 = sum_list (map length (split_on x s)) + length (split_on x s)" for x
    by (induction s) (auto split: list.splits dest: arg_cong [where f = length])
  from this [of "CHR ''-''"] p l show ?thesis by simp
qed

lemma validate_machine_value_iff:
  "validate_audit_machine_value v n = Inr () \<longleftrightarrow>
     machine_value v \<and> length v \<le> n \<and> \<not> secret_prefix v \<and> \<not> jwt_value v
     \<and> (uuid_value v \<or> \<not> opaque_token_value v)"
  using machine_value_all [of v] py_lower_machine [of v] machine_utf8 [of v]
  by (auto simp: validate_audit_machine_value_def Let_def)

text \<open>Lowering and measuring in bytes change nothing on such values, so evaluation skips them.\<close>

lemma validate_machine_value_code [code]:
  "validate_audit_machine_value v n =
     (if machine_value v \<and> length v \<le> n \<and> \<not> secret_prefix v \<and> \<not> jwt_value v
         \<and> (uuid_value v \<or> \<not> opaque_token_value v) then Inr () else Inl event_error)"
  using validate_machine_value_iff [of v n]
  by (auto simp: validate_audit_machine_value_def Let_def split: if_splits)

lemma safe_machine_value_iff:
  "1 \<le> n \<Longrightarrow> n \<le> 128 \<Longrightarrow>
     safe_audit_machine_value v n \<longleftrightarrow> validate_audit_machine_value v n = Inr ()"
  using machine_value_all [of v] py_lower_machine [of v] machine_utf8 [of v]
  by (cases v) (auto simp: validate_machine_value_iff safe_audit_machine_value_def)

lemma token_of_machine:
  "machine_char c \<Longrightarrow> py_alnum c \<or> c \<in> {CHR ''-'', CHR ''_''} \<Longrightarrow> token_char c"
proof -
  have "\<not> py_alnum (CHR ''.'')" "\<not> py_alnum (CHR '':'')" by code_simp+
  then show "machine_char c \<Longrightarrow> py_alnum c \<or> c \<in> {CHR ''-'', CHR ''_''} \<Longrightarrow> token_char c"
    by (auto simp: machine_char_def token_char_def)
qed

lemma secret_is_opaque:
  assumes "secret_shape s \<or> sha256_shape s" "machine_value s"
  shows "opaque_token_value s" "\<not> uuid_value s"
proof -
  have "list_all token_char s"
    using assms(1)
  proof
    assume s: "secret_shape s"
    have "token_char c" if "c \<in> set s" for c
      using s that machine_value_all [OF assms(2)] token_of_machine
      by (simp add: secret_shape_def list_all_iff)
    then show ?thesis by (simp add: list_all_iff)
  qed (auto simp: sha256_shape_def list_all_iff hex_is_token)
  moreover have "length s = 43 \<or> length s = 64"
    using assms(1) by (auto simp: secret_shape_def sha256_shape_def)
  ultimately show "opaque_token_value s" "\<not> uuid_value s"
    using uuid_length [of s] by (auto simp: opaque_token_value_def)
qed

text \<open>
  Neither a session, refresh, exchange or CSRF secret nor the hexadecimal digest of anything can
  be written into the identifiers of an audit event: the listener refuses it, and so does the
  database's own test.
\<close>

theorem audit_refuses_secrets:
  assumes "secret_shape s \<or> sha256_shape s"
  shows "validate_audit_machine_value s n = Inl event_error \<and> \<not> safe_audit_machine_value s n"
proof -
  have "validate_audit_machine_value s n \<noteq> Inr ()"
    using secret_is_opaque [OF assms] by (auto simp: validate_machine_value_iff)
  then have "validate_audit_machine_value s n = Inl event_error"
    by (simp add: validate_audit_machine_value_def Let_def split: if_splits)
  moreover have "\<not> safe_audit_machine_value s n"
    using \<open>validate_audit_machine_value s n \<noteq> Inr ()\<close> safe_machine_value_iff [of n s]
    by (auto simp: safe_audit_machine_value_def)
  ultimately show ?thesis by blast
qed

theorem audit_refuses_secrets_witness:
  "validate_audit_machine_value demo_secret 128 = Inl event_error
   \<and> \<not> safe_audit_machine_value demo_secret 128
   \<and> validate_audit_machine_value ''native_session'' 32 = Inr ()"
  using audit_refuses_secrets [of demo_secret 128] demo_issued
  by (simp add: validate_machine_value_iff) code_simp

section \<open>Canonical metadata\<close>

lemma word_list_JStr:
  "word_list (Some (JArr (map JStr ws))) = (if set ws \<subseteq> set CHANGED_FIELDS then Some ws else None)"
  by (auto simp: list_all_iff o_def)

lemma count_map_JInt:
  "count_map (Some (JObj (map (\<lambda>(k, n). (k, JInt n)) cs))) =
     (if list_all (\<lambda>(k, n). k \<in> set COUNT_KEYS \<and> 0 \<le> n \<and> n \<le> AUDIT_COUNT_MAX) cs
      then Some cs else None)"
  by (auto simp: list_all_iff o_def case_prod_beta)

lemma flag_map_JBool:
  "flag_map (Some (JObj (map (\<lambda>(k, b). (k, JBool b)) fs))) =
     (if list_all (\<lambda>(k, b). k \<in> set FLAG_KEYS) fs then Some fs else None)"
  by (auto simp: list_all_iff o_def case_prod_beta)

lemma word_list_Some: "word_list j = Some ws \<Longrightarrow> set ws \<subseteq> set CHANGED_FIELDS"
proof (induction j rule: word_list.induct)
  case (1 js)
  have "allowed_word ws (Some j) \<Longrightarrow> (case j of JStr s \<Rightarrow> s | _ \<Rightarrow> []) \<in> set ws" for ws j
    by (cases j) auto
  with 1 show ?case by (auto simp: list_all_iff split: if_splits)
qed auto

lemma count_map_Some:
  "count_map j = Some cs \<Longrightarrow>
     list_all (\<lambda>(k, n). k \<in> set COUNT_KEYS \<and> 0 \<le> n \<and> n \<le> AUDIT_COUNT_MAX) cs"
proof (induction j rule: count_map.induct)
  case (1 kvs)
  have "(case j of JInt n \<Rightarrow> 0 \<le> n \<and> n \<le> m | _ \<Rightarrow> False) \<Longrightarrow>
      0 \<le> (case j of JInt n \<Rightarrow> n | _ \<Rightarrow> 0) \<and> (case j of JInt n \<Rightarrow> n | _ \<Rightarrow> 0) \<le> m" for j m
    by (cases j) auto
  then have "list_all (\<lambda>(k, j). k \<in> set COUNT_KEYS
      \<and> (case j of JInt n \<Rightarrow> 0 \<le> n \<and> n \<le> AUDIT_COUNT_MAX | _ \<Rightarrow> False)) kvs \<Longrightarrow>
    list_all (\<lambda>(k, n). k \<in> set COUNT_KEYS \<and> 0 \<le> n \<and> n \<le> AUDIT_COUNT_MAX)
      (map (\<lambda>(k, j). (k, case j of JInt n \<Rightarrow> n | _ \<Rightarrow> 0)) kvs)"
    by (induction kvs) auto
  with 1 show ?case by (simp split: if_splits)
qed auto

lemma flag_map_Some: "flag_map j = Some fs \<Longrightarrow> list_all (\<lambda>(k, b). k \<in> set FLAG_KEYS) fs"
  by (induction j rule: flag_map.induct) (auto simp: list_all_iff split: if_splits)

lemma list_all_by_key [simp]: "list_all P (sort_key f xs) = list_all P xs"
  by (simp add: list_all_iff)

lemma sort_key_idem [simp]: "sort_key f (sort_key f xs) = sort_key f xs"
  by (simp add: sort_key_id_if_sorted)

lemma canonical_keys: "set (map fst (canonical_metadata r q ws cs fs)) = set AUDIT_METADATA_KEYS"
  by (simp add: canonical_metadata_def AUDIT_METADATA_KEYS_def)

lemma canonical_fields:
  "map_of (canonical_metadata r q ws cs fs) ''schema_version'' = Some (JInt 1)"
  "map_of (canonical_metadata r q ws cs fs) ''outcome'' = Some (JStr r)"
  "map_of (canonical_metadata r q ws cs fs) ''reason_code'' = Some (JStr q)"
  "map_of (canonical_metadata r q ws cs fs) ''changed_fields'' = Some (JArr (map JStr (sort ws)))"
  "map_of (canonical_metadata r q ws cs fs) ''counts''
     = Some (JObj (map (\<lambda>(k, n). (k, JInt n)) (sort_key fst cs)))"
  "map_of (canonical_metadata r q ws cs fs) ''flags''
     = Some (JObj (map (\<lambda>(k, b). (k, JBool b)) (sort_key fst fs)))"
  by (simp_all add: canonical_metadata_def)

lemma canonical_sorted:
  "canonical_metadata r q (sort ws) (sort_key fst cs) (sort_key fst fs) = canonical_metadata r q ws cs fs"
  by (simp add: canonical_metadata_def)

lemma validate_canonical:
  "validate_audit_metadata (canonical_metadata r q ws cs fs) = Inr c \<longleftrightarrow>
     r \<in> set OUTCOMES \<and> q \<in> set REASON_CODES \<and> set ws \<subseteq> set CHANGED_FIELDS \<and> distinct ws
     \<and> length ws \<le> AUDIT_CHANGED_FIELDS_MAX
     \<and> list_all (\<lambda>(k, n). k \<in> set COUNT_KEYS \<and> 0 \<le> n \<and> n \<le> AUDIT_COUNT_MAX) cs
     \<and> list_all (\<lambda>(k, b). k \<in> set FLAG_KEYS) fs
     \<and> length (dumps True (JObj (canonical_metadata r q ws cs fs))) \<le> AUDIT_METADATA_MAX_BYTES
     \<and> c = canonical_metadata r q ws cs fs"
  unfolding validate_audit_metadata_def canonical_keys canonical_fields word_list_JStr count_map_JInt
    flag_map_JBool
  by (auto simp: canonical_sorted Let_def)

text \<open>
  Validated metadata is canonical: it has only words of the closed vocabulary, and validating it
  again returns it unchanged.
\<close>

theorem audit_metadata_canonical:
  assumes "validate_audit_metadata v = Inr c"
  shows "validate_audit_metadata c = Inr c"
proof -
  from assms obtain r q js ws cs fs where
    "r \<in> set OUTCOMES" "q \<in> set REASON_CODES"
    "word_list (Some (JArr js)) = Some ws" "count_map (map_of v ''counts'') = Some cs"
    "flag_map (map_of v ''flags'') = Some fs" "length js \<le> AUDIT_CHANGED_FIELDS_MAX" "distinct ws"
    "length (dumps True (JObj (canonical_metadata r q ws cs fs))) \<le> AUDIT_METADATA_MAX_BYTES"
    "c = canonical_metadata r q ws cs fs"
    by (auto simp: validate_audit_metadata_def Let_def simp del: word_list.simps
        split: if_splits option.splits json.splits)
  moreover from this(3) have "length ws = length js" by (auto split: if_splits)
  ultimately show ?thesis
    using word_list_Some count_map_Some flag_map_Some
    by (simp add: validate_canonical del: word_list.simps)
qed

end
