(* ===== verification/Auth_Repository.thy ===== *)
theory Auth_Repository
  imports Audit_Contract
begin

text \<open>
  The owner, session and audit tables (\<^verbatim>\<open>auth/models.py\<close>) and the transactions over them
  (\<^verbatim>\<open>auth/repository.py\<close>). A digest is its 32 bytes; \<^verbatim>\<open>now()\<close> of a transaction is an argument;
  primary keys come from one increasing sequence. A transaction returns the new tables with its
  value, or fails and leaves the tables as they were; the only error a caller sees is that
  storage is unavailable, or that an audit event broke its contract.
\<close>

section \<open>Rows\<close>

record owner_row =
  ow_id :: int
  ow_github_user_id :: int
  ow_github_login :: string

record auth_session =
  as_id :: int
  as_owner_id :: int
  as_token_hash :: string
  as_csrf_hash :: string
  as_expires_at :: instant
  as_revoked_at :: "instant option"
  as_last_seen_at :: "instant option"
  as_created_at :: instant

record native_oauth_flow =
  fl_id :: int
  fl_state_hash :: string
  fl_pkce_challenge :: string
  fl_expires_at :: instant
  fl_consumed_at :: "instant option"
  fl_created_at :: instant

record native_exchange_code =
  xc_id :: int
  xc_owner_id :: int
  xc_code_hash :: string
  xc_pkce_challenge :: string
  xc_expires_at :: instant
  xc_consumed_at :: "instant option"
  xc_created_at :: instant

record native_auth_session =
  ns_id :: int
  ns_owner_id :: int
  ns_access_token_hash :: string
  ns_access_expires_at :: instant
  ns_revoked_at :: "instant option"
  ns_created_at :: instant

record native_refresh_token =
  rt_id :: int
  rt_session_id :: int
  rt_token_hash :: string
  rt_expires_at :: instant
  rt_consumed_at :: "instant option"
  rt_replaced_by_id :: "int option"
  rt_revoked_at :: "instant option"
  rt_created_at :: instant

record audit_event =
  ae_id :: int
  ae_owner_id :: "int option"
  ae_actor_kind :: string
  ae_actor_subject_hash :: string
  ae_action :: string
  ae_aggregate_type :: string
  ae_aggregate_id :: string
  ae_request_correlation_hash :: "string option"
  ae_idempotency_correlation_hash :: "string option"
  ae_redacted_metadata :: "(string \<times> json) list"

record auth_db =
  adb_owners :: "owner_row list"
  adb_sessions :: "auth_session list"
  adb_flows :: "native_oauth_flow list"
  adb_exchanges :: "native_exchange_code list"
  adb_native :: "native_auth_session list"
  adb_refresh :: "native_refresh_token list"
  adb_audit :: "audit_event list"
  adb_next_id :: int

section \<open>Constraints\<close>

text \<open>A window: ends after it begins, and what happens in it does not happen before it.\<close>

fun not_before :: "instant \<Rightarrow> instant option \<Rightarrow> bool" where
  "not_before t None = True"
| "not_before t (Some v) \<longleftrightarrow> t \<le> v"

definition owner_checks :: "owner_row \<Rightarrow> bool" where
  "owner_checks o' \<longleftrightarrow> 0 < ow_github_user_id o' \<and> \<not> list_all (\<lambda>c. c = CHR '' '') (ow_github_login o')"

definition session_checks :: "auth_session \<Rightarrow> bool" where
  "session_checks s \<longleftrightarrow>
     length (as_token_hash s) = 32 \<and> length (as_csrf_hash s) = 32
     \<and> as_created_at s < as_expires_at s \<and> not_before (as_created_at s) (as_revoked_at s)
     \<and> not_before (as_created_at s) (as_last_seen_at s)
     \<and> (case as_last_seen_at s of None \<Rightarrow> True | Some t \<Rightarrow> t \<le> as_expires_at s)"

definition challenge_check :: "string \<Rightarrow> bool" where
  "challenge_check c \<longleftrightarrow> length c = 43 \<and> list_all (\<lambda>x. is_alnum x \<or> x \<in> {CHR ''_'', CHR ''-''}) c"

definition flow_checks :: "native_oauth_flow \<Rightarrow> bool" where
  "flow_checks f \<longleftrightarrow>
     length (fl_state_hash f) = 32 \<and> challenge_check (fl_pkce_challenge f)
     \<and> fl_created_at f < fl_expires_at f \<and> not_before (fl_created_at f) (fl_consumed_at f)"

definition exchange_checks :: "native_exchange_code \<Rightarrow> bool" where
  "exchange_checks x \<longleftrightarrow>
     length (xc_code_hash x) = 32 \<and> challenge_check (xc_pkce_challenge x)
     \<and> xc_created_at x < xc_expires_at x \<and> not_before (xc_created_at x) (xc_consumed_at x)"

definition native_checks :: "native_auth_session \<Rightarrow> bool" where
  "native_checks s \<longleftrightarrow>
     length (ns_access_token_hash s) = 32 \<and> ns_created_at s < ns_access_expires_at s
     \<and> not_before (ns_created_at s) (ns_revoked_at s)"

definition refresh_checks :: "native_refresh_token \<Rightarrow> bool" where
  "refresh_checks t \<longleftrightarrow>
     length (rt_token_hash t) = 32 \<and> rt_created_at t < rt_expires_at t
     \<and> not_before (rt_created_at t) (rt_consumed_at t)
     \<and> not_before (rt_created_at t) (rt_revoked_at t)"

definition storage_error :: auth_error where
  "storage_error = Auth_sql_error ''constraint violated''"

text \<open>
  Inserting a row that must satisfy the table's checks and be new under its unique key, and
  updating the rows a condition selects.
\<close>

definition insert_row ::
    "('r \<Rightarrow> bool) \<Rightarrow> ('r \<Rightarrow> 'k) \<Rightarrow> 'r \<Rightarrow> 'r list \<Rightarrow> (auth_error, 'r list) result" where
  "insert_row checks key r rows =
     (if checks r \<and> key r \<notin> set (map key rows) then Inr (rows @ [r]) else Inl storage_error)"

definition update_rows ::
    "('r \<Rightarrow> bool) \<Rightarrow> ('r \<Rightarrow> 'k) \<Rightarrow> ('r \<Rightarrow> bool) \<Rightarrow> ('r \<Rightarrow> 'r) \<Rightarrow> 'r list
      \<Rightarrow> (auth_error, 'r list) result" where
  "update_rows checks key sel f rows =
     (let rows' = map (\<lambda>r. if sel r then f r else r) rows
      in if list_all (\<lambda>r. sel r \<longrightarrow> checks (f r)) rows \<and> distinct (map key rows')
         then Inr rows' else Inl storage_error)"

fun at_most_one :: "'a list \<Rightarrow> (auth_error, 'a option) result" where
  "at_most_one [] = Inr None"
| "at_most_one [x] = Inr (Some x)"
| "at_most_one _ = Inl (Auth_sql_error ''multiple rows'')"

text \<open>\<^verbatim>\<open>_unavailable_on_database_error\<close>.\<close>

fun unavailable :: "(auth_error, 'a) result \<Rightarrow> (auth_error, 'a) result" where
  "unavailable (Inl (Auth_sql_error m)) =
     Inl (AuthStorageUnavailable ''authentication storage is unavailable'')"
| "unavailable r = r"

section \<open>Owners and browser sessions\<close>

definition upsert_owner ::
    "int \<Rightarrow> string \<Rightarrow> auth_db \<Rightarrow> (auth_error, auth_db \<times> owner_row) result" where
  "upsert_owner github_user_id github_login db =
     (case find (\<lambda>o'. ow_github_user_id o' = github_user_id) (adb_owners db) of
        Some o' \<Rightarrow>
          bind_result (update_rows owner_checks ow_github_user_id
             (\<lambda>r. ow_github_user_id r = github_user_id)
             (\<lambda>r. r\<lparr>ow_github_login := github_login\<rparr>) (adb_owners db)) (\<lambda>rows.
          Inr (db\<lparr>adb_owners := rows\<rparr>, o'\<lparr>ow_github_login := github_login\<rparr>))
      | None \<Rightarrow>
          let o' = \<lparr>ow_id = adb_next_id db, ow_github_user_id = github_user_id,
                    ow_github_login = github_login\<rparr>
          in bind_result (insert_row owner_checks ow_github_user_id o' (adb_owners db)) (\<lambda>rows.
             Inr (db\<lparr>adb_owners := rows, adb_next_id := adb_next_id db + 1\<rparr>, o')))"

record persisted_session =
  ps_session_id :: int
  ps_owner_id :: int
  ps_github_user_id :: int
  ps_github_login :: string
  ps_token_hash :: string
  ps_csrf_hash :: string
  ps_created_at :: instant
  ps_expires_at :: instant
  ps_revoked_at :: "instant option"

definition to_persisted :: "owner_row \<Rightarrow> auth_session \<Rightarrow> persisted_session" where
  "to_persisted o' s =
     \<lparr>ps_session_id = as_id s, ps_owner_id = as_owner_id s,
      ps_github_user_id = ow_github_user_id o', ps_github_login = ow_github_login o',
      ps_token_hash = as_token_hash s, ps_csrf_hash = as_csrf_hash s,
      ps_created_at = as_created_at s, ps_expires_at = as_expires_at s,
      ps_revoked_at = as_revoked_at s\<rparr>"

definition create_owner_session ::
    "instant \<Rightarrow> int \<Rightarrow> string \<Rightarrow> string \<Rightarrow> string \<Rightarrow> int \<Rightarrow> auth_db
      \<Rightarrow> (auth_error, auth_db \<times> persisted_session) result" where
  "create_owner_session now github_user_id github_login token_hash csrf_hash session_ttl db =
     unavailable (
     bind_result (upsert_owner github_user_id github_login db) (\<lambda>(db1, owner).
     let s = \<lparr>as_id = adb_next_id db1, as_owner_id = ow_id owner, as_token_hash = token_hash,
              as_csrf_hash = csrf_hash, as_expires_at = now + session_ttl, as_revoked_at = None,
              as_last_seen_at = None, as_created_at = now\<rparr>
     in bind_result (insert_row session_checks as_token_hash s (adb_sessions db1)) (\<lambda>rows.
        Inr (db1\<lparr>adb_sessions := rows, adb_next_id := adb_next_id db1 + 1\<rparr>,
             to_persisted owner s))))"

definition session_projection :: "auth_db \<Rightarrow> (auth_session \<Rightarrow> bool) \<Rightarrow> persisted_session list" where
  "session_projection db sel =
     [to_persisted o' s. s \<leftarrow> adb_sessions db, sel s, o' \<leftarrow> adb_owners db, ow_id o' = as_owner_id s]"

definition find_active_session ::
    "instant \<Rightarrow> string \<Rightarrow> auth_db \<Rightarrow> (auth_error, persisted_session option) result" where
  "find_active_session now token_hash db =
     unavailable (at_most_one (session_projection db (\<lambda>s. as_token_hash s = token_hash
       \<and> as_revoked_at s = None \<and> now < as_expires_at s)))"

definition repo_session_active :: "instant \<Rightarrow> int \<Rightarrow> auth_db \<Rightarrow> (auth_error, bool) result" where
  "repo_session_active now session_id db =
     unavailable (bind_result (at_most_one (filter (\<lambda>s. as_id s = session_id
       \<and> as_revoked_at s = None \<and> now < as_expires_at s) (adb_sessions db))) (\<lambda>found.
     Inr (found \<noteq> None)))"

definition find_session_for_logout ::
    "string \<Rightarrow> auth_db \<Rightarrow> (auth_error, persisted_session option) result" where
  "find_session_for_logout token_hash db =
     unavailable (at_most_one (session_projection db (\<lambda>s. as_token_hash s = token_hash)))"

definition revoke_session :: "instant \<Rightarrow> string \<Rightarrow> auth_db \<Rightarrow> (auth_error, auth_db \<times> unit) result" where
  "revoke_session now token_hash db =
     unavailable (
     bind_result (update_rows session_checks as_token_hash
        (\<lambda>s. as_token_hash s = token_hash \<and> as_revoked_at s = None)
        (\<lambda>s. s\<lparr>as_revoked_at := Some now\<rparr>) (adb_sessions db)) (\<lambda>rows.
     Inr (db\<lparr>adb_sessions := rows\<rparr>, ())))"

section \<open>Native sign-in\<close>

definition NATIVE_OAUTH_FLOW_CAPACITY :: nat where "NATIVE_OAUTH_FLOW_CAPACITY = 64"

text \<open>What has expired is deleted whether or not the new flow finds room.\<close>

definition create_native_oauth_flow ::
    "instant \<Rightarrow> string \<Rightarrow> string \<Rightarrow> int \<Rightarrow> auth_db \<Rightarrow> (auth_error, auth_db \<times> bool) result" where
  "create_native_oauth_flow now state_hash pkce_challenge flow_ttl db =
     unavailable (
     let db1 = db\<lparr>adb_flows := filter (\<lambda>f. \<not> fl_expires_at f \<le> now) (adb_flows db),
                  adb_exchanges := filter (\<lambda>x. \<not> xc_expires_at x \<le> now) (adb_exchanges db)\<rparr>
     in if NATIVE_OAUTH_FLOW_CAPACITY \<le> length (adb_flows db1) then Inr (db1, False)
        else bind_result (insert_row flow_checks fl_state_hash
          \<lparr>fl_id = adb_next_id db1, fl_state_hash = state_hash, fl_pkce_challenge = pkce_challenge,
           fl_expires_at = now + flow_ttl, fl_consumed_at = None, fl_created_at = now\<rparr>
          (adb_flows db1)) (\<lambda>rows.
        Inr (db1\<lparr>adb_flows := rows, adb_next_id := adb_next_id db1 + 1\<rparr>, True)))"

definition consume_native_oauth_flow ::
    "instant \<Rightarrow> string \<Rightarrow> auth_db \<Rightarrow> (auth_error, auth_db \<times> string option) result" where
  "consume_native_oauth_flow now state_hash db =
     unavailable (
     let live = (\<lambda>f. fl_state_hash f = state_hash \<and> fl_consumed_at f = None \<and> now < fl_expires_at f)
     in bind_result (update_rows flow_checks fl_state_hash live
          (\<lambda>f. f\<lparr>fl_consumed_at := Some now\<rparr>) (adb_flows db)) (\<lambda>rows.
        bind_result (at_most_one (filter live (adb_flows db))) (\<lambda>row.
        Inr (db\<lparr>adb_flows := rows\<rparr>, map_option fl_pkce_challenge row))))"

definition create_native_exchange ::
    "instant \<Rightarrow> int \<Rightarrow> string \<Rightarrow> string \<Rightarrow> string \<Rightarrow> int \<Rightarrow> auth_db
      \<Rightarrow> (auth_error, auth_db \<times> unit) result" where
  "create_native_exchange now github_user_id github_login code_hash pkce_challenge exchange_ttl db =
     unavailable (
     bind_result (upsert_owner github_user_id github_login db) (\<lambda>(db1, owner).
     bind_result (insert_row exchange_checks xc_code_hash
       \<lparr>xc_id = adb_next_id db1, xc_owner_id = ow_id owner, xc_code_hash = code_hash,
        xc_pkce_challenge = pkce_challenge, xc_expires_at = now + exchange_ttl,
        xc_consumed_at = None, xc_created_at = now\<rparr> (adb_exchanges db1)) (\<lambda>rows.
     Inr (db1\<lparr>adb_exchanges := rows, adb_next_id := adb_next_id db1 + 1\<rparr>, ()))))"

section \<open>Audit events\<close>

definition native_audit_event ::
    "int \<Rightarrow> string \<Rightarrow> string \<Rightarrow> string \<Rightarrow> audit_outcome \<Rightarrow> audit_reason \<Rightarrow> bool \<Rightarrow> bool
      \<Rightarrow> (auth_error, audit_event) result" where
  "native_audit_event owner_id subject_hash action aggregate_id outcome reason authenticated replayed =
     bind_result (to_payload \<lparr>am_outcome = outcome, am_reason_code = reason, am_changed_fields = [],
        am_counts = [],
        am_flags = [(''authenticated'', authenticated), (''replayed'', replayed), (''redacted'', True)]\<rparr>)
       (\<lambda>metadata.
     Inr \<lparr>ae_id = 0, ae_owner_id = Some owner_id, ae_actor_kind = ''native_session'',
          ae_actor_subject_hash = subject_hash, ae_action = action,
          ae_aggregate_type = ''native_auth_session'', ae_aggregate_id = aggregate_id,
          ae_request_correlation_hash = None, ae_idempotency_correlation_hash = None,
          ae_redacted_metadata = metadata\<rparr>)"

definition validate_audit_event_insert :: "audit_event \<Rightarrow> (auth_error, audit_event) result" where
  "validate_audit_event_insert e =
     bind_result (validate_audit_hash (Some (ae_actor_subject_hash e)) False) (\<lambda>_.
     bind_result (validate_audit_hash (ae_request_correlation_hash e) True) (\<lambda>_.
     bind_result (validate_audit_hash (ae_idempotency_correlation_hash e) True) (\<lambda>_.
     bind_result (validate_audit_machine_value (ae_actor_kind e) 32) (\<lambda>_.
     bind_result (validate_audit_machine_value (ae_action e) 64) (\<lambda>_.
     bind_result (validate_audit_machine_value (ae_aggregate_type e) 64) (\<lambda>_.
     bind_result (validate_audit_machine_value (ae_aggregate_id e) 128) (\<lambda>_.
     bind_result (validate_audit_metadata (ae_redacted_metadata e)) (\<lambda>metadata.
     Inr (e\<lparr>ae_redacted_metadata := metadata\<rparr>)))))))))"

definition add_audit_event :: "audit_event \<Rightarrow> auth_db \<Rightarrow> (auth_error, auth_db) result" where
  "add_audit_event e db =
     bind_result (validate_audit_event_insert e) (\<lambda>e'.
     Inr (db\<lparr>adb_audit := adb_audit db @ [e'\<lparr>ae_id := adb_next_id db\<rparr>],
             adb_next_id := adb_next_id db + 1\<rparr>))"

section \<open>Native sessions\<close>

record persisted_native_session =
  pn_session_id :: int
  pn_owner_id :: int
  pn_github_user_id :: int
  pn_github_login :: string
  pn_access_token_hash :: string
  pn_access_expires_at :: instant
  pn_refresh_token_hash :: string
  pn_refresh_expires_at :: instant
  pn_revoked_at :: "instant option"

text \<open>\<^verbatim>\<open>.one()\<close>: exactly one row, or the call fails.\<close>

definition exactly_one :: "'a list \<Rightarrow> (auth_error, 'a) result" where
  "exactly_one xs = (case xs of [x] \<Rightarrow> Inr x | _ \<Rightarrow> Inl (Auth_sql_error ''not exactly one row''))"

definition record_event ::
    "int \<Rightarrow> string \<Rightarrow> string \<Rightarrow> int \<Rightarrow> audit_outcome \<Rightarrow> audit_reason \<Rightarrow> bool \<Rightarrow> bool \<Rightarrow> auth_db
      \<Rightarrow> (auth_error, auth_db) result" where
  "record_event owner_id subject_hash action aggregate outcome reason authenticated replayed db =
     bind_result (native_audit_event owner_id subject_hash action (int_str aggregate) outcome reason
        authenticated replayed) (\<lambda>e. add_audit_event e db)"

text \<open>Why an exchange was refused, when the code is known.\<close>

definition deny_exchange :: "instant \<Rightarrow> string \<Rightarrow> auth_db \<Rightarrow> (auth_error, auth_db) result" where
  "deny_exchange now code_hash db =
     bind_result (at_most_one (filter (\<lambda>x. xc_code_hash x = code_hash) (adb_exchanges db))) (\<lambda>denied.
     case denied of
       None \<Rightarrow> Inr db
     | Some x \<Rightarrow> record_event (xc_owner_id x) code_hash ''auth.native_exchange.denied'' (xc_id x)
         Outcome_denied (if xc_expires_at x \<le> now then Reason_expired else Reason_conflict)
         False (xc_consumed_at x \<noteq> None) db)"

definition open_native_session ::
    "instant \<Rightarrow> native_exchange_code \<Rightarrow> string \<Rightarrow> string \<Rightarrow> string \<Rightarrow> int \<Rightarrow> int \<Rightarrow> auth_db
      \<Rightarrow> (auth_error, auth_db \<times> persisted_native_session) result" where
  "open_native_session now x code_hash access_token_hash refresh_token_hash access_ttl refresh_ttl db =
     bind_result (exactly_one (filter (\<lambda>o'. ow_id o' = xc_owner_id x) (adb_owners db))) (\<lambda>owner.
     let s = \<lparr>ns_id = adb_next_id db, ns_owner_id = xc_owner_id x,
              ns_access_token_hash = access_token_hash, ns_access_expires_at = now + access_ttl,
              ns_revoked_at = None, ns_created_at = now\<rparr>;
         t = \<lparr>rt_id = adb_next_id db + 1, rt_session_id = ns_id s,
              rt_token_hash = refresh_token_hash, rt_expires_at = now + refresh_ttl,
              rt_consumed_at = None, rt_replaced_by_id = None, rt_revoked_at = None,
              rt_created_at = now\<rparr>
     in bind_result (insert_row native_checks ns_access_token_hash s (adb_native db)) (\<lambda>sessions.
        bind_result (insert_row refresh_checks rt_token_hash t (adb_refresh db)) (\<lambda>tokens.
        bind_result (record_event (xc_owner_id x) code_hash ''auth.native_exchange.succeeded'' (ns_id s)
           Outcome_succeeded Reason_none True False
           (db\<lparr>adb_native := sessions, adb_refresh := tokens, adb_next_id := adb_next_id db + 2\<rparr>)) (\<lambda>db'.
        Inr (db', \<lparr>pn_session_id = ns_id s, pn_owner_id = xc_owner_id x,
                  pn_github_user_id = ow_github_user_id owner, pn_github_login = ow_github_login owner,
                  pn_access_token_hash = access_token_hash,
                  pn_access_expires_at = ns_access_expires_at s,
                  pn_refresh_token_hash = refresh_token_hash,
                  pn_refresh_expires_at = rt_expires_at t, pn_revoked_at = ns_revoked_at s\<rparr>)))))"

definition consume_native_exchange ::
    "instant \<Rightarrow> string \<Rightarrow> string \<Rightarrow> string \<Rightarrow> string \<Rightarrow> int \<Rightarrow> int \<Rightarrow> auth_db
      \<Rightarrow> (auth_error, auth_db \<times> persisted_native_session option) result" where
  "consume_native_exchange now code_hash pkce_challenge access_token_hash refresh_token_hash
       access_ttl refresh_ttl db =
     unavailable (
     let live = (\<lambda>x. xc_code_hash x = code_hash \<and> xc_pkce_challenge x = pkce_challenge
                    \<and> xc_consumed_at x = None \<and> now < xc_expires_at x)
     in bind_result (update_rows exchange_checks xc_code_hash live
          (\<lambda>x. x\<lparr>xc_consumed_at := Some now\<rparr>) (adb_exchanges db)) (\<lambda>rows.
        bind_result (at_most_one (filter live (adb_exchanges db))) (\<lambda>found.
        case found of
          None \<Rightarrow> bind_result (deny_exchange now code_hash db) (\<lambda>db1. Inr (db1, None))
        | Some x \<Rightarrow>
            bind_result (open_native_session now x code_hash access_token_hash refresh_token_hash
               access_ttl refresh_ttl (db\<lparr>adb_exchanges := rows\<rparr>)) (\<lambda>(db1, r).
            Inr (db1, Some r)))))"

text \<open>A refresh token with its session and owner, as the joins find them.\<close>

definition refresh_rows ::
    "string \<Rightarrow> auth_db \<Rightarrow> (native_refresh_token \<times> native_auth_session \<times> owner_row) list" where
  "refresh_rows token_hash db =
     [(t, s, o'). t \<leftarrow> adb_refresh db, rt_token_hash t = token_hash, s \<leftarrow> adb_native db,
        ns_id s = rt_session_id t, o' \<leftarrow> adb_owners db, ow_id o' = ns_owner_id s]"

definition revoke_native_rows :: "instant \<Rightarrow> int \<Rightarrow> auth_db \<Rightarrow> (auth_error, auth_db) result" where
  "revoke_native_rows now session_id db =
     bind_result (update_rows native_checks ns_access_token_hash
        (\<lambda>s. ns_id s = session_id \<and> ns_revoked_at s = None)
        (\<lambda>s. s\<lparr>ns_revoked_at := Some now\<rparr>) (adb_native db)) (\<lambda>sessions.
     bind_result (update_rows refresh_checks rt_token_hash
        (\<lambda>t. rt_session_id t = session_id \<and> rt_revoked_at t = None)
        (\<lambda>t. t\<lparr>rt_revoked_at := Some now\<rparr>) (adb_refresh db)) (\<lambda>tokens.
     Inr (db\<lparr>adb_native := sessions, adb_refresh := tokens\<rparr>)))"

definition deny_refresh ::
    "instant \<Rightarrow> native_refresh_token \<Rightarrow> native_auth_session \<Rightarrow> auth_db \<Rightarrow> (auth_error, auth_db) result" where
  "deny_refresh now t s db =
     bind_result
       (if rt_consumed_at t \<noteq> None \<and> ns_revoked_at s = None
        then revoke_native_rows now (rt_session_id t) db else Inr db) (\<lambda>db1.
     record_event (ns_owner_id s) (rt_token_hash t) ''auth.native_refresh.denied'' (rt_session_id t)
       Outcome_denied
       (if rt_consumed_at t \<noteq> None then Reason_conflict
        else if rt_expires_at t \<le> now then Reason_expired else Reason_revoked)
       False (rt_consumed_at t \<noteq> None) db1)"

definition rotate_tokens ::
    "instant \<Rightarrow> native_refresh_token \<Rightarrow> native_auth_session \<Rightarrow> owner_row \<Rightarrow> string \<Rightarrow> string \<Rightarrow> int \<Rightarrow> int
      \<Rightarrow> auth_db \<Rightarrow> (auth_error, auth_db \<times> persisted_native_session) result" where
  "rotate_tokens now t s owner new_access_token_hash new_refresh_token_hash access_ttl refresh_ttl db =
     (let new = \<lparr>rt_id = adb_next_id db, rt_session_id = rt_session_id t,
                 rt_token_hash = new_refresh_token_hash, rt_expires_at = now + refresh_ttl,
                 rt_consumed_at = None, rt_replaced_by_id = None, rt_revoked_at = None,
                 rt_created_at = now\<rparr>
      in bind_result (insert_row refresh_checks rt_token_hash new (adb_refresh db)) (\<lambda>tokens0.
         bind_result (update_rows refresh_checks rt_token_hash (\<lambda>u. rt_id u = rt_id t)
            (\<lambda>u. u\<lparr>rt_consumed_at := Some now, rt_replaced_by_id := Some (rt_id new)\<rparr>) tokens0) (\<lambda>tokens.
         bind_result (update_rows native_checks ns_access_token_hash (\<lambda>u. ns_id u = rt_session_id t)
            (\<lambda>u. u\<lparr>ns_access_token_hash := new_access_token_hash,
                   ns_access_expires_at := now + access_ttl\<rparr>) (adb_native db)) (\<lambda>sessions.
         bind_result (record_event (ns_owner_id s) (rt_token_hash t) ''auth.native_refresh.succeeded''
            (rt_session_id t) Outcome_succeeded Reason_none True False
            (db\<lparr>adb_native := sessions, adb_refresh := tokens, adb_next_id := adb_next_id db + 1\<rparr>)) (\<lambda>db'.
         Inr (db', \<lparr>pn_session_id = rt_session_id t, pn_owner_id = ns_owner_id s,
                   pn_github_user_id = ow_github_user_id owner, pn_github_login = ow_github_login owner,
                   pn_access_token_hash = new_access_token_hash,
                   pn_access_expires_at = now + access_ttl,
                   pn_refresh_token_hash = new_refresh_token_hash,
                   pn_refresh_expires_at = rt_expires_at new, pn_revoked_at = ns_revoked_at s\<rparr>))))))"

definition rotate_native_refresh_token ::
    "instant \<Rightarrow> string \<Rightarrow> string \<Rightarrow> string \<Rightarrow> int \<Rightarrow> int \<Rightarrow> auth_db
      \<Rightarrow> (auth_error, auth_db \<times> persisted_native_session option) result" where
  "rotate_native_refresh_token now refresh_token_hash new_access_token_hash new_refresh_token_hash
       access_ttl refresh_ttl db =
     unavailable (
     bind_result (at_most_one (refresh_rows refresh_token_hash db)) (\<lambda>found.
     case found of
       None \<Rightarrow> Inr (db, None)
     | Some (t, s, owner) \<Rightarrow>
         if rt_consumed_at t \<noteq> None \<or> rt_revoked_at t \<noteq> None \<or> rt_expires_at t \<le> now
            \<or> ns_revoked_at s \<noteq> None
         then bind_result (deny_refresh now t s db) (\<lambda>db1. Inr (db1, None))
         else bind_result (rotate_tokens now t s owner new_access_token_hash new_refresh_token_hash
                access_ttl refresh_ttl db) (\<lambda>(db1, r). Inr (db1, Some r))))"

text \<open>A session is alive while it has an unspent refresh token and its access token is current.\<close>

definition live_rows ::
    "instant \<Rightarrow> (native_auth_session \<Rightarrow> bool) \<Rightarrow> auth_db
      \<Rightarrow> (native_auth_session \<times> native_refresh_token) list" where
  "live_rows now sel db =
     [(s, t). s \<leftarrow> adb_native db, sel s, t \<leftarrow> adb_refresh db, rt_session_id t = ns_id s,
        ns_revoked_at s = None, now < ns_access_expires_at s, rt_consumed_at t = None,
        rt_revoked_at t = None, now < rt_expires_at t]"

definition find_active_native_session ::
    "instant \<Rightarrow> string \<Rightarrow> auth_db \<Rightarrow> (auth_error, persisted_native_session option) result" where
  "find_active_native_session now access_token_hash db =
     unavailable (at_most_one
       [\<lparr>pn_session_id = ns_id s, pn_owner_id = ns_owner_id s,
         pn_github_user_id = ow_github_user_id o', pn_github_login = ow_github_login o',
         pn_access_token_hash = ns_access_token_hash s,
         pn_access_expires_at = ns_access_expires_at s, pn_refresh_token_hash = rt_token_hash t,
         pn_refresh_expires_at = rt_expires_at t, pn_revoked_at = ns_revoked_at s\<rparr>.
        (s, t) \<leftarrow> live_rows now (\<lambda>s. ns_access_token_hash s = access_token_hash) db,
        o' \<leftarrow> adb_owners db, ow_id o' = ns_owner_id s])"

definition repo_native_session_active :: "instant \<Rightarrow> int \<Rightarrow> auth_db \<Rightarrow> (auth_error, bool) result" where
  "repo_native_session_active now session_id db =
     unavailable (bind_result (at_most_one (live_rows now (\<lambda>s. ns_id s = session_id) db)) (\<lambda>found.
     Inr (found \<noteq> None)))"

definition repo_revoke_native_session ::
    "instant \<Rightarrow> string \<Rightarrow> auth_db \<Rightarrow> (auth_error, auth_db \<times> bool) result" where
  "repo_revoke_native_session now refresh_token_hash db =
     unavailable (
     bind_result (at_most_one [(t, s). t \<leftarrow> adb_refresh db, rt_token_hash t = refresh_token_hash,
        s \<leftarrow> adb_native db, ns_id s = rt_session_id t]) (\<lambda>found.
     case found of
       None \<Rightarrow> Inr (db, False)
     | Some (t, s) \<Rightarrow>
         bind_result (revoke_native_rows now (rt_session_id t) db) (\<lambda>db1.
         bind_result (record_event (ns_owner_id s) refresh_token_hash ''auth.native_revoke.succeeded''
            (rt_session_id t)
            (if ns_revoked_at s \<noteq> None then Outcome_noop else Outcome_succeeded)
            (if ns_revoked_at s \<noteq> None then Reason_revoked else Reason_none)
            (ns_revoked_at s = None) False db1) (\<lambda>db2.
         Inr (db2, True)))))"

end
