(* ===== verification/Auth_Service.thy ===== *)
theory Auth_Service
  imports Auth_Repository
begin

text \<open>
  The single-owner authentication service, \<^verbatim>\<open>auth/service.py\<close>. A request may run several
  transactions, and what an earlier one committed stays when a later step fails; a request is
  therefore a function from the state of the process and the database to a new state and a
  result. What the service is given from outside is an argument: the hash functions, the secrets
  it draws, the readings of both clocks in the order they are taken, and the identity provider.
\<close>

section \<open>What the service is given\<close>

record github_identity =
  gi_id :: int
  gi_login :: string

definition identity_post_init :: "github_identity \<Rightarrow> (auth_error, github_identity) result" where
  "identity_post_init i =
     (if gi_id i \<le> 0 \<or> blank (gi_login i) \<or> 255 < length (gi_login i)
      then Inl (Auth_value_error ''GitHub identity is invalid'') else Inr i)"

record auth_env =
  ev_sha :: "string \<Rightarrow> string"
  ev_hmac :: "string \<Rightarrow> string \<Rightarrow> string"
  ev_secret :: "nat \<Rightarrow> string"
  ev_now :: "nat \<Rightarrow> instant"
  ev_clock :: "nat \<Rightarrow> datetime"
  ev_identity :: "string \<Rightarrow> string \<Rightarrow> (auth_error, github_identity) result"
  ev_authorization_url :: "string \<Rightarrow> string \<Rightarrow> string"

record auth_config =
  ac_owner_github_id :: int
  ac_session_ttl :: int
  ac_native :: bool
  ac_native_access_ttl :: int
  ac_native_refresh_ttl :: int
  ac_native_exchange_ttl :: int
  ac_native_flow_ttl :: int

definition auth_service_init :: "auth_config \<Rightarrow> (auth_error, auth_config) result" where
  "auth_service_init c =
     (if ac_owner_github_id c \<le> 0 then Inl (Auth_value_error ''owner GitHub ID is invalid'')
      else if \<not> (td_minutes 5 \<le> ac_session_ttl c \<and> ac_session_ttl c \<le> td_days 1)
      then Inl (Auth_value_error ''session lifetime is invalid'')
      else if \<not> (td_minutes 5 \<le> ac_native_access_ttl c \<and> ac_native_access_ttl c \<le> td_minutes 60)
      then Inl (Auth_value_error ''native access lifetime is invalid'')
      else if \<not> (td_days 1 \<le> ac_native_refresh_ttl c \<and> ac_native_refresh_ttl c \<le> td_days 90)
      then Inl (Auth_value_error ''native refresh lifetime is invalid'')
      else if \<not> (td_minutes 1 \<le> ac_native_exchange_ttl c \<and> ac_native_exchange_ttl c \<le> td_minutes 5)
      then Inl (Auth_value_error ''native exchange lifetime is invalid'')
      else if \<not> (td_minutes 1 \<le> ac_native_flow_ttl c \<and> ac_native_flow_ttl c \<le> td_minutes 10)
      then Inl (Auth_value_error ''native OAuth state lifetime is invalid'')
      else Inr c)"

record auth_world =
  aw_manager :: state_manager
  aw_db :: auth_db

type_synonym 'a outcome = "auth_world \<times> (auth_error, 'a) result"

text \<open>One transaction, one check, and the next step after a step that succeeded.\<close>

definition transact :: "auth_world \<Rightarrow> (auth_error, auth_db \<times> 'a) result \<Rightarrow> 'a outcome" where
  "transact w r = (case r of Inl e \<Rightarrow> (w, Inl e) | Inr (db, a) \<Rightarrow> (w\<lparr>aw_db := db\<rparr>, Inr a))"

definition and_then :: "'a outcome \<Rightarrow> (auth_world \<Rightarrow> 'a \<Rightarrow> 'b outcome) \<Rightarrow> 'b outcome" where
  "and_then x f = (case x of (w, Inl e) \<Rightarrow> (w, Inl e) | (w, Inr a) \<Rightarrow> f w a)"

section \<open>Secrets and challenges\<close>

definition urlsafe_b64 :: "string \<Rightarrow> string" where
  "urlsafe_b64 bytes =
     map (\<lambda>c. if c = CHR ''+'' then CHR ''-'' else if c = CHR ''/'' then CHR ''_'' else c)
       (rev (dropWhile (\<lambda>c. c = CHR ''='') (rev (b64encode (map of_char bytes)))))"

definition pkce_challenge :: "(string \<Rightarrow> string) \<Rightarrow> string option \<Rightarrow> (auth_error, string) result" where
  "pkce_challenge sha code_verifier =
     (case code_verifier of
        None \<Rightarrow> Inl (Unauthenticated ''native authentication failed'')
      | Some v \<Rightarrow>
          if \<not> (43 \<le> length v \<and> length v \<le> 128)
             \<or> \<not> list_all (\<lambda>c. py_alnum c \<or> c \<in> set ''-._~'') v
          then Inl (Unauthenticated ''native authentication failed'')
          else if \<not> is_ascii v then Inl (Auth_value_error ''UnicodeEncodeError'')
          else Inr (urlsafe_b64 (sha v)))"

definition looks_like_native_state :: "string option \<Rightarrow> bool" where
  "looks_like_native_state state = (case state of None \<Rightarrow> False | Some s \<Rightarrow> secret_shape s)"

definition validate_pkce_challenge :: "string \<Rightarrow> (auth_error, unit) result" where
  "validate_pkce_challenge challenge =
     ensure (secret_shape challenge) (Unauthenticated ''native authentication failed'')"

definition native_secret_hash ::
    "(string \<Rightarrow> string) \<Rightarrow> bool \<Rightarrow> string option \<Rightarrow> (auth_error, string) result" where
  "native_secret_hash sha state_error raw =
     (case raw of
        Some s \<Rightarrow>
          if secret_shape s then hash_secret sha s
          else Inl (if state_error then InvalidOAuthState ''native OAuth state is invalid''
                    else Unauthenticated ''native authentication failed'')
      | None \<Rightarrow>
          Inl (if state_error then InvalidOAuthState ''native OAuth state is invalid''
               else Unauthenticated ''native authentication failed''))"

definition browser_secret_hash ::
    "(string \<Rightarrow> string) \<Rightarrow> bool \<Rightarrow> string option \<Rightarrow> (auth_error, string) result" where
  "browser_secret_hash sha csrf raw =
     (case raw of
        Some s \<Rightarrow>
          if secret_shape s then hash_secret sha s
          else Inl (if csrf then CsrfRejected ''CSRF validation failed''
                    else Unauthenticated ''authentication required'')
      | None \<Rightarrow>
          Inl (if csrf then CsrfRejected ''CSRF validation failed''
               else Unauthenticated ''authentication required''))"

section \<open>The browser\<close>

record authenticated_owner =
  au_owner_id :: int
  au_github_user_id :: int
  au_github_login :: string
  au_session_id :: int
  au_csrf_hash :: "string option"
  au_expires_at :: instant
  au_method :: string

definition owner_of_session :: "persisted_session \<Rightarrow> authenticated_owner" where
  "owner_of_session s =
     \<lparr>au_owner_id = ps_owner_id s, au_github_user_id = ps_github_user_id s,
      au_github_login = ps_github_login s, au_session_id = ps_session_id s,
      au_csrf_hash = Some (ps_csrf_hash s), au_expires_at = ps_expires_at s,
      au_method = ''cookie''\<rparr>"

definition start_login :: "auth_env \<Rightarrow> string \<Rightarrow> auth_world \<Rightarrow> (string \<times> string) outcome" where
  "start_login ev redirect_uri w =
     (w, bind_result (issue_state (ev_hmac ev) (aw_manager w) (ev_clock ev 0) (ev_secret ev 0)) (\<lambda>state.
         Inr (state, ev_authorization_url ev state redirect_uri)))"

definition issue_session ::
    "auth_config \<Rightarrow> auth_env \<Rightarrow> github_identity \<Rightarrow> auth_world
      \<Rightarrow> (string \<times> string \<times> persisted_session) outcome" where
  "issue_session cf ev identity w =
     (if gi_id identity \<noteq> ac_owner_github_id cf
      then (w, Inl (ForbiddenIdentity ''identity is not authorized''))
      else
      and_then (w, bind_result (hash_secret (ev_sha ev) (ev_secret ev 0)) (\<lambda>token.
                   bind_result (hash_secret (ev_sha ev) (ev_secret ev 1)) (\<lambda>csrf.
                   Inr (token, csrf)))) (\<lambda>w (token, csrf).
      and_then (transact w (create_owner_session (ev_now ev 0) (gi_id identity) (gi_login identity)
          token csrf (ac_session_ttl cf) (aw_db w))) (\<lambda>w persisted.
      (w, Inr (ev_secret ev 0, ev_secret ev 1, persisted)))))"

definition issue_session_for_identity ::
    "auth_config \<Rightarrow> auth_env \<Rightarrow> int \<Rightarrow> string \<Rightarrow> auth_world
      \<Rightarrow> (string \<times> string \<times> persisted_session) outcome" where
  "issue_session_for_identity cf ev github_user_id github_login w =
     and_then (w, identity_post_init \<lparr>gi_id = github_user_id, gi_login = github_login\<rparr>) (\<lambda>w identity.
     issue_session cf ev identity w)"

definition require_code :: "string option \<Rightarrow> (auth_error, string) result" where
  "require_code code =
     (case code of
        None \<Rightarrow> Inl (Unauthenticated ''login failed'')
      | Some c \<Rightarrow>
          if c = [] \<or> 512 < length c then Inl (Unauthenticated ''login failed'') else Inr c)"

text \<open>The identity behind a provider code, which must be the configured owner.\<close>

definition fetch_owner ::
    "auth_config \<Rightarrow> auth_env \<Rightarrow> string option \<Rightarrow> string \<Rightarrow> (auth_error, github_identity) result" where
  "fetch_owner cf ev code redirect_uri =
     bind_result (require_code code) (\<lambda>c.
     bind_result (ev_identity ev c redirect_uri) (\<lambda>identity.
     if gi_id identity \<noteq> ac_owner_github_id cf
     then Inl (ForbiddenIdentity ''identity is not authorized'')
     else Inr identity))"

definition complete_login ::
    "auth_config \<Rightarrow> auth_env \<Rightarrow> string option \<Rightarrow> string option \<Rightarrow> string option \<Rightarrow> string \<Rightarrow> auth_world
      \<Rightarrow> (string \<times> string \<times> persisted_session) outcome" where
  "complete_login cf ev code state state_cookie redirect_uri w =
     (case consume_state (ev_sha ev) (ev_hmac ev) (aw_manager w) (ev_clock ev 0) (ev_clock ev 1)
             state state_cookie of
        (m, r) \<Rightarrow>
          and_then (w\<lparr>aw_manager := m\<rparr>, r) (\<lambda>w _.
          and_then (w, fetch_owner cf ev code redirect_uri) (\<lambda>w identity.
          issue_session cf ev identity w)))"

definition authenticate ::
    "auth_env \<Rightarrow> string option \<Rightarrow> auth_world \<Rightarrow> (auth_error, authenticated_owner) result" where
  "authenticate ev raw_session_token w =
     bind_result (browser_secret_hash (ev_sha ev) False raw_session_token) (\<lambda>token_hash.
     bind_result (find_active_session (ev_now ev 0) token_hash (aw_db w)) (\<lambda>persisted.
     case persisted of
       None \<Rightarrow> Inl (Unauthenticated ''authentication required'')
     | Some s \<Rightarrow> Inr (owner_of_session s)))"

definition verify_csrf ::
    "auth_env \<Rightarrow> authenticated_owner \<Rightarrow> string option \<Rightarrow> (auth_error, unit) result" where
  "verify_csrf ev owner raw_csrf_token =
     (case au_csrf_hash owner of
        None \<Rightarrow> Inl (CsrfRejected ''CSRF validation failed'')
      | Some h \<Rightarrow>
          if au_method owner \<noteq> ''cookie'' then Inl (CsrfRejected ''CSRF validation failed'')
          else bind_result (browser_secret_hash (ev_sha ev) True raw_csrf_token) (\<lambda>supplied.
               ensure (h = supplied) (CsrfRejected ''CSRF validation failed'')))"

definition expose_csrf ::
    "auth_env \<Rightarrow> authenticated_owner \<Rightarrow> string option \<Rightarrow> (auth_error, string) result" where
  "expose_csrf ev owner raw_csrf_token =
     bind_result (verify_csrf ev owner raw_csrf_token) (\<lambda>_. Inr (the raw_csrf_token))"

definition logout ::
    "auth_env \<Rightarrow> string option \<Rightarrow> string option \<Rightarrow> auth_world \<Rightarrow> unit outcome" where
  "logout ev raw_session_token raw_csrf_token w =
     and_then (w, browser_secret_hash (ev_sha ev) False raw_session_token) (\<lambda>w token_hash.
     and_then (w, find_session_for_logout token_hash (aw_db w)) (\<lambda>w persisted.
     case persisted of
       None \<Rightarrow> (w, Inl (Unauthenticated ''authentication required''))
     | Some s \<Rightarrow>
         and_then (w, verify_csrf ev (owner_of_session s) raw_csrf_token) (\<lambda>w _.
         transact w (revoke_session (ev_now ev 0) token_hash (aw_db w)))))"

section \<open>The native client\<close>

definition native_repository :: "auth_config \<Rightarrow> (auth_error, unit) result" where
  "native_repository cf =
     ensure (ac_native cf) (AuthMisconfigured ''native authentication is unavailable'')"

definition start_native_login ::
    "auth_config \<Rightarrow> auth_env \<Rightarrow> string \<Rightarrow> string \<Rightarrow> auth_world \<Rightarrow> (string \<times> string) outcome" where
  "start_native_login cf ev challenge redirect_uri w =
     and_then (w, native_repository cf) (\<lambda>w _.
     and_then (w, validate_pkce_challenge challenge) (\<lambda>w _.
     and_then (w, hash_secret (ev_sha ev) (ev_secret ev 0)) (\<lambda>w state_hash.
     and_then (transact w (create_native_oauth_flow (ev_now ev 0) state_hash challenge
        (ac_native_flow_ttl cf) (aw_db w))) (\<lambda>w created.
     if \<not> created
     then (w, Inl (NativeAuthCapacityExceeded ''native authentication is temporarily busy''))
     else (w, Inr (ev_secret ev 0, ev_authorization_url ev (ev_secret ev 0) redirect_uri))))))"

definition complete_native_login ::
    "auth_config \<Rightarrow> auth_env \<Rightarrow> string option \<Rightarrow> string option \<Rightarrow> string \<Rightarrow> auth_world \<Rightarrow> string outcome" where
  "complete_native_login cf ev code state redirect_uri w =
     and_then (w, native_repository cf) (\<lambda>w _.
     and_then (w, native_secret_hash (ev_sha ev) True state) (\<lambda>w state_hash.
     and_then (transact w (consume_native_oauth_flow (ev_now ev 0) state_hash (aw_db w))) (\<lambda>w found.
     case found of
       None \<Rightarrow> (w, Inl (InvalidOAuthState ''native OAuth state is invalid''))
     | Some challenge \<Rightarrow>
         and_then (w, fetch_owner cf ev code redirect_uri) (\<lambda>w identity.
         and_then (w, hash_secret (ev_sha ev) (ev_secret ev 0)) (\<lambda>w code_hash.
         and_then (transact w (create_native_exchange (ev_now ev 1) (gi_id identity)
            (gi_login identity) code_hash challenge (ac_native_exchange_ttl cf) (aw_db w))) (\<lambda>w _.
         (w, Inr (ev_secret ev 0))))))))"

record issued_native_credentials =
  nc_access_token :: string
  nc_refresh_token :: string
  nc_access_expires_in :: int
  nc_github_login :: string

definition credentials ::
    "auth_config \<Rightarrow> auth_env \<Rightarrow> persisted_native_session \<Rightarrow> issued_native_credentials" where
  "credentials cf ev p =
     \<lparr>nc_access_token = ev_secret ev 0, nc_refresh_token = ev_secret ev 1,
      nc_access_expires_in = whole_seconds (ac_native_access_ttl cf),
      nc_github_login = pn_github_login p\<rparr>"

definition new_token_hashes :: "auth_env \<Rightarrow> (auth_error, string \<times> string) result" where
  "new_token_hashes ev =
     bind_result (hash_secret (ev_sha ev) (ev_secret ev 0)) (\<lambda>access.
     bind_result (hash_secret (ev_sha ev) (ev_secret ev 1)) (\<lambda>refresh.
     Inr (access, refresh)))"

definition exchange_native_code ::
    "auth_config \<Rightarrow> auth_env \<Rightarrow> string option \<Rightarrow> string option \<Rightarrow> auth_world
      \<Rightarrow> issued_native_credentials outcome" where
  "exchange_native_code cf ev code code_verifier w =
     and_then (w, native_repository cf) (\<lambda>w _.
     and_then (w, native_secret_hash (ev_sha ev) False code) (\<lambda>w code_hash.
     and_then (w, pkce_challenge (ev_sha ev) code_verifier) (\<lambda>w challenge.
     and_then (w, new_token_hashes ev) (\<lambda>w (access, refresh).
     and_then (transact w (consume_native_exchange (ev_now ev 0) code_hash challenge access refresh
        (ac_native_access_ttl cf) (ac_native_refresh_ttl cf) (aw_db w))) (\<lambda>w persisted.
     case persisted of
       None \<Rightarrow> (w, Inl (Unauthenticated ''native authentication failed''))
     | Some p \<Rightarrow> (w, Inr (credentials cf ev p)))))))"

definition refresh_native_session ::
    "auth_config \<Rightarrow> auth_env \<Rightarrow> string option \<Rightarrow> auth_world \<Rightarrow> issued_native_credentials outcome" where
  "refresh_native_session cf ev raw_refresh_token w =
     and_then (w, native_repository cf) (\<lambda>w _.
     and_then (w, native_secret_hash (ev_sha ev) False raw_refresh_token) (\<lambda>w refresh_hash.
     and_then (w, new_token_hashes ev) (\<lambda>w (access, refresh).
     and_then (transact w (rotate_native_refresh_token (ev_now ev 0) refresh_hash access refresh
        (ac_native_access_ttl cf) (ac_native_refresh_ttl cf) (aw_db w))) (\<lambda>w persisted.
     case persisted of
       None \<Rightarrow> (w, Inl (Unauthenticated ''native authentication failed''))
     | Some p \<Rightarrow> (w, Inr (credentials cf ev p))))))"

definition authenticate_bearer ::
    "auth_config \<Rightarrow> auth_env \<Rightarrow> string option \<Rightarrow> auth_world \<Rightarrow> (auth_error, authenticated_owner) result" where
  "authenticate_bearer cf ev raw_access_token w =
     bind_result (native_repository cf) (\<lambda>_.
     bind_result (native_secret_hash (ev_sha ev) False raw_access_token) (\<lambda>token_hash.
     bind_result (find_active_native_session (ev_now ev 0) token_hash (aw_db w)) (\<lambda>persisted.
     case persisted of
       None \<Rightarrow> Inl (Unauthenticated ''authentication required'')
     | Some p \<Rightarrow> Inr
         \<lparr>au_owner_id = pn_owner_id p, au_github_user_id = pn_github_user_id p,
          au_github_login = pn_github_login p, au_session_id = pn_session_id p,
          au_csrf_hash = None, au_expires_at = pn_access_expires_at p, au_method = ''bearer''\<rparr>)))"

definition is_session_active ::
    "auth_config \<Rightarrow> auth_env \<Rightarrow> authenticated_owner \<Rightarrow> auth_world \<Rightarrow> (auth_error, bool) result" where
  "is_session_active cf ev owner w =
     (if au_expires_at owner \<le> instant_of (ev_clock ev 0) then Inr False
      else if au_method owner = ''bearer''
      then bind_result (native_repository cf) (\<lambda>_.
           repo_native_session_active (ev_now ev 0) (au_session_id owner) (aw_db w))
      else repo_session_active (ev_now ev 0) (au_session_id owner) (aw_db w))"

definition revoke_native_session ::
    "auth_config \<Rightarrow> auth_env \<Rightarrow> string option \<Rightarrow> auth_world \<Rightarrow> unit outcome" where
  "revoke_native_session cf ev raw_refresh_token w =
     and_then (w, native_repository cf) (\<lambda>w _.
     and_then (w, native_secret_hash (ev_sha ev) False raw_refresh_token) (\<lambda>w refresh_hash.
     and_then (transact w (repo_revoke_native_session (ev_now ev 0) refresh_hash (aw_db w))) (\<lambda>w found.
     (w, Inr ()))))"

section \<open>Requests\<close>

text \<open>
  The requests that can change something. The browser's callback and the native one share an
  address, and the shape of the state tells them apart (\<^verbatim>\<open>auth/routes.py\<close>).
\<close>

datatype auth_command =
    Login string
  | Callback "string option" "string option" "string option" string
  | Native_start string string
  | Native_exchange "string option" "string option"
  | Native_refresh "string option"
  | Native_revoke "string option"
  | Logout "string option" "string option"

fun exec_auth :: "auth_config \<Rightarrow> auth_world \<Rightarrow> auth_env \<times> auth_command \<Rightarrow> auth_world" where
  "exec_auth cf w (ev, Login redirect) = fst (start_login ev redirect w)"
| "exec_auth cf w (ev, Callback code state cookie redirect) =
     (if looks_like_native_state state
      then fst (complete_native_login cf ev code state redirect w)
      else fst (complete_login cf ev code state cookie redirect w))"
| "exec_auth cf w (ev, Native_start challenge redirect) =
     fst (start_native_login cf ev challenge redirect w)"
| "exec_auth cf w (ev, Native_exchange code verifier) = fst (exchange_native_code cf ev code verifier w)"
| "exec_auth cf w (ev, Native_refresh token) = fst (refresh_native_session cf ev token w)"
| "exec_auth cf w (ev, Native_revoke token) = fst (revoke_native_session cf ev token w)"
| "exec_auth cf w (ev, Logout token csrf) = fst (logout ev token csrf w)"

end
