(* ===== verification/Auth_Safety.thy ===== *)
theory Auth_Safety
  imports Auth_Service
begin

text \<open>
  The transactions of the auth repository as one system with an invariant and a history that is
  only extended, and every request of the service as a sequence of them.
\<close>

section \<open>Transactions\<close>

datatype auth_tx =
    Tx_session instant int string string string int
  | Tx_flow instant string string int
  | Tx_consume_flow instant string
  | Tx_new_exchange instant int string string string int
  | Tx_exchange instant string string string string int int
  | Tx_rotate instant string string string int int
  | Tx_revoke instant string
  | Tx_logout instant string

definition tables :: "(auth_error, auth_db \<times> 'a) result \<Rightarrow> (auth_error, auth_db) result" where
  "tables r = bind_result r (\<lambda>(db, a). Inr db)"

fun exec_tx :: "auth_db \<Rightarrow> auth_tx \<Rightarrow> (auth_error, auth_db) result" where
  "exec_tx db (Tx_session now g l h c ttl) = tables (create_owner_session now g l h c ttl db)"
| "exec_tx db (Tx_flow now h c ttl) = tables (create_native_oauth_flow now h c ttl db)"
| "exec_tx db (Tx_consume_flow now h) = tables (consume_native_oauth_flow now h db)"
| "exec_tx db (Tx_new_exchange now g l h c ttl) = tables (create_native_exchange now g l h c ttl db)"
| "exec_tx db (Tx_exchange now h c a r at rt) = tables (consume_native_exchange now h c a r at rt db)"
| "exec_tx db (Tx_rotate now h a r at rt) = tables (rotate_native_refresh_token now h a r at rt db)"
| "exec_tx db (Tx_revoke now h) = tables (repo_revoke_native_session now h db)"
| "exec_tx db (Tx_logout now h) = tables (revoke_session now h db)"

section \<open>What a transaction does\<close>

named_theorems auth_simps \<open>when a transaction succeeds, and the tables it leaves\<close>

lemma unavailable_Inr [auth_simps]: "unavailable r = Inr x \<longleftrightarrow> r = Inr x"
  by (cases r rule: unavailable.cases) auto

lemma tables_Inr [auth_simps]: "tables r = Inr db \<longleftrightarrow> (\<exists>a. r = Inr (db, a))"
  by (auto simp: tables_def result_simps)

lemma insert_row_Inr [auth_simps]:
  "insert_row checks key r rows = Inr rows' \<longleftrightarrow>
     checks r \<and> key r \<notin> key ` set rows \<and> rows' = rows @ [r]"
  by (auto simp: insert_row_def)

lemma update_rows_Inr [auth_simps]:
  "update_rows checks key sel f rows = Inr rows' \<longleftrightarrow>
     (\<forall>r \<in> set rows. sel r \<longrightarrow> checks (f r)) \<and> distinct (map key rows')
     \<and> rows' = map (\<lambda>r. if sel r then f r else r) rows"
  by (auto simp: update_rows_def Let_def list_all_iff)

lemma at_most_one_Inr [auth_simps]:
  "at_most_one xs = Inr y \<longleftrightarrow> (case y of None \<Rightarrow> xs = [] | Some x \<Rightarrow> xs = [x])"
  by (cases xs rule: at_most_one.cases) (auto split: option.splits)

lemma exactly_one_Inr [auth_simps]: "exactly_one xs = Inr x \<longleftrightarrow> xs = [x]"
  by (auto simp: exactly_one_def split: list.splits)

lemma record_event_Inr:
  "record_event ow h a i oc re au rp db = Inr db' \<Longrightarrow>
     \<exists>e. db' = db\<lparr>adb_audit := adb_audit db @ [e], adb_next_id := adb_next_id db + 1\<rparr>"
  by (auto simp: record_event_def add_audit_event_def result_simps)

lemma filter_one: "filter P xs = [x] \<Longrightarrow> x \<in> set xs \<and> P x"
  by (metis filter_eq_Cons_iff in_set_conv_decomp)

section \<open>The invariant\<close>

definition unspent :: "native_refresh_token \<Rightarrow> bool" where
  "unspent t \<longleftrightarrow> rt_consumed_at t = None \<and> rt_revoked_at t = None"

definition owners_ok :: "auth_db \<Rightarrow> bool" where
  "owners_ok db \<longleftrightarrow>
     distinct (map ow_id (adb_owners db)) \<and> distinct (map ow_github_user_id (adb_owners db))
     \<and> (\<forall>o' \<in> set (adb_owners db). ow_id o' < adb_next_id db)
     \<and> (\<forall>s \<in> set (adb_sessions db). as_owner_id s \<in> ow_id ` set (adb_owners db))
     \<and> (\<forall>x \<in> set (adb_exchanges db). xc_owner_id x \<in> ow_id ` set (adb_owners db))
     \<and> (\<forall>s \<in> set (adb_native db). ns_owner_id s \<in> ow_id ` set (adb_owners db))"

definition keys_ok :: "auth_db \<Rightarrow> bool" where
  "keys_ok db \<longleftrightarrow>
     distinct (map as_token_hash (adb_sessions db)) \<and> distinct (map as_id (adb_sessions db))
     \<and> (\<forall>s \<in> set (adb_sessions db). as_id s < adb_next_id db)
     \<and> distinct (map fl_state_hash (adb_flows db))
     \<and> distinct (map xc_code_hash (adb_exchanges db))
     \<and> length (adb_flows db) \<le> NATIVE_OAUTH_FLOW_CAPACITY"

definition native_ok :: "auth_db \<Rightarrow> bool" where
  "native_ok db \<longleftrightarrow>
     distinct (map ns_id (adb_native db)) \<and> distinct (map ns_access_token_hash (adb_native db))
     \<and> distinct (map rt_id (adb_refresh db)) \<and> distinct (map rt_token_hash (adb_refresh db))
     \<and> (\<forall>s \<in> set (adb_native db). ns_id s < adb_next_id db)
     \<and> (\<forall>t \<in> set (adb_refresh db). rt_id t < adb_next_id db
          \<and> rt_session_id t \<in> ns_id ` set (adb_native db))
     \<and> (\<forall>t \<in> set (adb_refresh db). \<forall>u \<in> set (adb_refresh db).
          rt_session_id t = rt_session_id u \<and> unspent t \<and> unspent u \<longrightarrow> t = u)
     \<and> (\<forall>s \<in> set (adb_native db). \<forall>t \<in> set (adb_refresh db).
          ns_revoked_at s \<noteq> None \<and> rt_session_id t = ns_id s \<longrightarrow> rt_revoked_at t \<noteq> None)"

definition auth_inv :: "auth_db \<Rightarrow> bool" where
  "auth_inv db \<longleftrightarrow> owners_ok db \<and> keys_ok db \<and> native_ok db"

lemma auth_invD:
  "auth_inv db \<Longrightarrow> owners_ok db" "auth_inv db \<Longrightarrow> keys_ok db" "auth_inv db \<Longrightarrow> native_ok db"
  by (simp_all add: auth_inv_def)

lemma native_okD:
  assumes "native_ok db"
  shows "distinct (map ns_id (adb_native db))" "distinct (map ns_access_token_hash (adb_native db))"
    "distinct (map rt_id (adb_refresh db))" "distinct (map rt_token_hash (adb_refresh db))"
    "\<And>s. s \<in> set (adb_native db) \<Longrightarrow> ns_id s < adb_next_id db"
    "\<And>t. t \<in> set (adb_refresh db) \<Longrightarrow> rt_id t < adb_next_id db"
    "\<And>t. t \<in> set (adb_refresh db) \<Longrightarrow> rt_session_id t \<in> ns_id ` set (adb_native db)"
    "\<And>t u. t \<in> set (adb_refresh db) \<Longrightarrow> u \<in> set (adb_refresh db) \<Longrightarrow>
       rt_session_id t = rt_session_id u \<Longrightarrow> unspent t \<Longrightarrow> unspent u \<Longrightarrow> t = u"
    "\<And>s t. s \<in> set (adb_native db) \<Longrightarrow> t \<in> set (adb_refresh db) \<Longrightarrow> ns_revoked_at s \<noteq> None \<Longrightarrow>
       rt_session_id t = ns_id s \<Longrightarrow> rt_revoked_at t \<noteq> None"
  using assms unfolding native_ok_def by blast+

lemma inj_key: "distinct (map f xs) \<Longrightarrow> x \<in> set xs \<Longrightarrow> y \<in> set xs \<Longrightarrow> f x = f y \<Longrightarrow> x = y"
  by (simp add: distinct_map inj_on_def)

lemma native_ok_same:
  assumes "native_ok db" "adb_native db' = adb_native db" "adb_refresh db' = adb_refresh db"
    "adb_next_id db \<le> adb_next_id db'"
  shows "native_ok db'"
proof -
  note D = native_okD [OF assms(1)]
  have "s \<in> set (adb_native db) \<Longrightarrow> ns_id s < adb_next_id db'"
    "t \<in> set (adb_refresh db) \<Longrightarrow> rt_id t < adb_next_id db'" for s t
    using D(5) [of s] D(6) [of t] assms(4) by linarith+
  then show ?thesis
    unfolding native_ok_def assms(2,3) using D(1-4,7-9) by (intro conjI ballI impI) blast+
qed

lemma native_ok_open:
  assumes "native_ok db" "adb_native db' = adb_native db @ [s]" "adb_refresh db' = adb_refresh db @ [t]"
    "ns_id s = adb_next_id db" "rt_id t = adb_next_id db + 1" "rt_session_id t = ns_id s"
    "ns_access_token_hash s \<notin> ns_access_token_hash ` set (adb_native db)"
    "rt_token_hash t \<notin> rt_token_hash ` set (adb_refresh db)" "ns_revoked_at s = None"
    "adb_next_id db + 2 \<le> adb_next_id db'"
  shows "native_ok db'"
proof -
  note D = native_okD [OF assms(1)]
  have old: "u \<in> set (adb_refresh db) \<Longrightarrow> rt_session_id u \<noteq> ns_id s" for u
    using D(5,7) assms(4) by (metis imageE order_less_irrefl)
  show ?thesis
    unfolding native_ok_def assms(2,3)
  proof (intro conjI ballI impI)
    show "distinct (map ns_id (adb_native db @ [s]))" using D(1,5) assms(4) by fastforce
    show "distinct (map rt_id (adb_refresh db @ [t]))" using D(3,6) assms(5) by fastforce
  next
    fix u v
    assume "u \<in> set (adb_refresh db @ [t])" "v \<in> set (adb_refresh db @ [t])"
      "rt_session_id u = rt_session_id v \<and> unspent u \<and> unspent v"
    then show "u = v" using D(8) old assms(6) by (auto dest: sym)
  next
    fix r u
    assume "r \<in> set (adb_native db @ [s])" "u \<in> set (adb_refresh db @ [t])"
      "ns_revoked_at r \<noteq> None \<and> rt_session_id u = ns_id r"
    then show "rt_revoked_at u \<noteq> None"
      using D(5) [of r] D(9) [of r u] old [of u] assms(4,6,9) by auto
  qed (use D assms in \<open>auto simp: distinct_map intro: less_trans dest: D(5,6,7)\<close>)
qed

definition revoke_session_row :: "instant \<Rightarrow> int \<Rightarrow> native_auth_session \<Rightarrow> native_auth_session" where
  "revoke_session_row now i s =
     (if ns_id s = i \<and> ns_revoked_at s = None then s\<lparr>ns_revoked_at := Some now\<rparr> else s)"

definition revoke_token_row :: "instant \<Rightarrow> int \<Rightarrow> native_refresh_token \<Rightarrow> native_refresh_token" where
  "revoke_token_row now i t =
     (if rt_session_id t = i \<and> rt_revoked_at t = None then t\<lparr>rt_revoked_at := Some now\<rparr> else t)"

lemma revoked_fields [simp]:
  "ns_id (revoke_session_row now i s) = ns_id s"
  "ns_owner_id (revoke_session_row now i s) = ns_owner_id s"
  "ns_access_token_hash (revoke_session_row now i s) = ns_access_token_hash s"
  "rt_id (revoke_token_row now i t) = rt_id t"
  "rt_token_hash (revoke_token_row now i t) = rt_token_hash t"
  "rt_session_id (revoke_token_row now i t) = rt_session_id t"
  "rt_consumed_at (revoke_token_row now i t) = rt_consumed_at t"
  by (simp_all add: revoke_session_row_def revoke_token_row_def)

lemma native_ok_revoke:
  assumes "native_ok db" "adb_native db' = map (revoke_session_row now i) (adb_native db)"
    "adb_refresh db' = map (revoke_token_row now i) (adb_refresh db)"
    "adb_next_id db \<le> adb_next_id db'"
  shows "native_ok db'"
proof -
  note D = native_okD [OF assms(1)]
  have unspent_old: "unspent (revoke_token_row now i t) \<Longrightarrow> unspent t \<and> revoke_token_row now i t = t" for t
    by (auto simp: unspent_def revoke_token_row_def split: if_splits)
  show ?thesis
    unfolding native_ok_def assms(2,3) map_map o_def revoked_fields set_map image_image
  proof (intro conjI ballI impI)
    fix t u
    assume "t \<in> revoke_token_row now i ` set (adb_refresh db)"
      "u \<in> revoke_token_row now i ` set (adb_refresh db)"
      and same: "rt_session_id t = rt_session_id u \<and> unspent t \<and> unspent u"
    then obtain t0 u0 where "t0 \<in> set (adb_refresh db)" "t = revoke_token_row now i t0"
      "u0 \<in> set (adb_refresh db)" "u = revoke_token_row now i u0" by blast
    then show "t = u" using same unspent_old [of t0] unspent_old [of u0] D(8) [of t0 u0] by auto
  next
    fix s t
    assume "s \<in> revoke_session_row now i ` set (adb_native db)"
      "t \<in> revoke_token_row now i ` set (adb_refresh db)"
      and r: "ns_revoked_at s \<noteq> None \<and> rt_session_id t = ns_id s"
    then obtain s0 t0 where "s0 \<in> set (adb_native db)" "s = revoke_session_row now i s0"
      "t0 \<in> set (adb_refresh db)" "t = revoke_token_row now i t0" by blast
    then show "rt_revoked_at t \<noteq> None" using r D(9) [of s0 t0]
      by (auto simp: revoke_session_row_def revoke_token_row_def split: if_splits)
  next
    fix s assume "s \<in> revoke_session_row now i ` set (adb_native db)"
    then show "ns_id s < adb_next_id db'" using D(5) assms(4) by force
  next
    fix t assume "t \<in> revoke_token_row now i ` set (adb_refresh db)"
    then show "rt_id t < adb_next_id db'" "rt_session_id t \<in> (\<lambda>s. ns_id s) ` set (adb_native db)"
      using D(6,7) assms(4) by force+
  qed (fact D(1-4))+
qed

lemma native_ok_rotate:
  assumes "native_ok db" "t \<in> set (adb_refresh db)" "unspent t"
    "s \<in> set (adb_native db)" "ns_id s = rt_session_id t" "ns_revoked_at s = None"
    "adb_refresh db' = map (\<lambda>u. if rt_id u = rt_id t
        then u\<lparr>rt_consumed_at := Some now, rt_replaced_by_id := Some k\<rparr> else u) (adb_refresh db @ [new])"
    "adb_native db' = map (\<lambda>u. if ns_id u = rt_session_id t
        then u\<lparr>ns_access_token_hash := acc, ns_access_expires_at := e\<rparr> else u) (adb_native db)"
    "distinct (map ns_access_token_hash (adb_native db'))"
    "rt_id new = adb_next_id db" "rt_session_id new = rt_session_id t"
    "rt_token_hash new \<notin> rt_token_hash ` set (adb_refresh db)"
    "adb_next_id db + 1 \<le> adb_next_id db'"
  shows "native_ok db'"
proof -
  note D = native_okD [OF assms(1)]
  define f :: "native_refresh_token \<Rightarrow> native_refresh_token"
    where "f = (\<lambda>u. if rt_id u = rt_id t
        then u\<lparr>rt_consumed_at := Some now, rt_replaced_by_id := Some k\<rparr> else u)"
  define g :: "native_auth_session \<Rightarrow> native_auth_session"
    where "g = (\<lambda>u. if ns_id u = rt_session_id t
        then u\<lparr>ns_access_token_hash := acc, ns_access_expires_at := e\<rparr> else u)"
  have fs: "rt_id (f u) = rt_id u" "rt_token_hash (f u) = rt_token_hash u"
    "rt_session_id (f u) = rt_session_id u" "rt_revoked_at (f u) = rt_revoked_at u"
    "ns_id (g v) = ns_id v" "ns_revoked_at (g v) = ns_revoked_at v" for u v
    by (simp_all add: f_def g_def)
  have new: "f new = new" using D(6) [OF assms(2)] assms(10) by (simp add: f_def)
  have R: "adb_refresh db' = map f (adb_refresh db) @ [new]" using assms(7) new by (simp add: f_def)
  have N: "adb_native db' = map g (adb_native db)" using assms(8) by (simp add: g_def)
  have unspent_old: "unspent (f u) \<Longrightarrow> unspent u \<and> f u = u \<and> rt_id u \<noteq> rt_id t" for u
    by (auto simp: f_def unspent_def split: if_splits)
  show ?thesis
    unfolding native_ok_def
  proof (intro conjI ballI impI)
    fix u v
    assume uv: "u \<in> set (adb_refresh db')" "v \<in> set (adb_refresh db')"
      and same: "rt_session_id u = rt_session_id v \<and> unspent u \<and> unspent v"
    have other: "rt_session_id u0 \<noteq> rt_session_id t" if "u0 \<in> set (adb_refresh db)" "unspent (f u0)" for u0
      using unspent_old [OF that(2)] D(8) [OF that(1) assms(2)] assms(3) by blast
    from uv R consider u0 v0 where "u0 \<in> set (adb_refresh db)" "u = f u0"
        "v0 \<in> set (adb_refresh db)" "v = f v0"
      | u0 where "u0 \<in> set (adb_refresh db)" "u = f u0" "v = new"
      | v0 where "u = new" "v0 \<in> set (adb_refresh db)" "v = f v0" | "u = new" "v = new"
      by auto
    then show "u = v"
    proof cases
      case 1
      then show ?thesis
        using unspent_old [of u0] unspent_old [of v0] D(8) [of u0 v0] same fs(3) by auto
    next
      case 2
      then show ?thesis using other [of u0] same fs(3) assms(11) by simp
    next
      case 3
      then show ?thesis using other [of v0] same fs(3) assms(11) by simp
    qed simp
  next
    fix r u
    assume r: "r \<in> set (adb_native db')" and u: "u \<in> set (adb_refresh db')"
      and q: "ns_revoked_at r \<noteq> None \<and> rt_session_id u = ns_id r"
    from r N obtain r0 where r0: "r0 \<in> set (adb_native db)" "r = g r0" by auto
    have "rt_session_id u \<noteq> rt_session_id t"
      using inj_key [OF D(1) r0(1) assms(4)] r0(2) q assms(5,6) fs(5,6) by auto
    then obtain u0 where "u0 \<in> set (adb_refresh db)" "u = f u0" using u R assms(11) by auto
    then show "rt_revoked_at u \<noteq> None" using D(9) [OF r0(1)] q r0(2) fs by simp
  next
    show "distinct (map rt_id (adb_refresh db'))"
      using D(3,6) assms(10) by (fastforce simp: R fs o_def)
    show "distinct (map rt_token_hash (adb_refresh db'))"
      using D(4) assms(12) by (simp add: R fs o_def)
    show "distinct (map ns_id (adb_native db'))" using D(1) by (simp add: N fs o_def)
  next
    fix u assume "u \<in> set (adb_native db')"
    then show "ns_id u < adb_next_id db'" using D(5) assms(13) by (force simp: N fs)
  next
    fix u assume u: "u \<in> set (adb_refresh db')"
    then show "rt_id u < adb_next_id db'" using D(6) assms(10,13) by (force simp: R fs)
    have "ns_id ` set (adb_native db') = ns_id ` set (adb_native db)" by (force simp: N fs image_iff)
    then show "rt_session_id u \<in> ns_id ` set (adb_native db')"
      using u D(7) D(7) [OF assms(2)] assms(11) by (auto simp: R fs)
  qed (rule assms(9))
qed

section \<open>History\<close>

definition owner_grows :: "owner_row \<Rightarrow> owner_row \<Rightarrow> bool" where
  "owner_grows a b \<longleftrightarrow> ow_id b = ow_id a \<and> ow_github_user_id b = ow_github_user_id a"

definition session_grows :: "auth_session \<Rightarrow> auth_session \<Rightarrow> bool" where
  "session_grows a b \<longleftrightarrow>
     as_id b = as_id a \<and> as_owner_id b = as_owner_id a \<and> as_token_hash b = as_token_hash a
     \<and> as_csrf_hash b = as_csrf_hash a \<and> as_expires_at b = as_expires_at a
     \<and> frozen (as_revoked_at a) (as_revoked_at b)"

definition native_grows :: "native_auth_session \<Rightarrow> native_auth_session \<Rightarrow> bool" where
  "native_grows a b \<longleftrightarrow>
     ns_id b = ns_id a \<and> ns_owner_id b = ns_owner_id a \<and> frozen (ns_revoked_at a) (ns_revoked_at b)"

definition refresh_grows :: "native_refresh_token \<Rightarrow> native_refresh_token \<Rightarrow> bool" where
  "refresh_grows a b \<longleftrightarrow>
     rt_id b = rt_id a \<and> rt_session_id b = rt_session_id a \<and> rt_token_hash b = rt_token_hash a
     \<and> rt_expires_at b = rt_expires_at a \<and> frozen (rt_consumed_at a) (rt_consumed_at b)
     \<and> frozen (rt_revoked_at a) (rt_revoked_at b)"

lemmas grows_defs = owner_grows_def session_grows_def native_grows_def refresh_grows_def

definition auth_extends :: "auth_db \<Rightarrow> auth_db \<Rightarrow> bool" where
  "auth_extends db db' \<longleftrightarrow>
     rows_grow owner_grows (adb_owners db) (adb_owners db')
     \<and> rows_grow session_grows (adb_sessions db) (adb_sessions db')
     \<and> rows_grow native_grows (adb_native db) (adb_native db')
     \<and> rows_grow refresh_grows (adb_refresh db) (adb_refresh db')
     \<and> prefix (adb_audit db) (adb_audit db')"

lemma grows_refl [simp]:
  "owner_grows o' o'" "session_grows s s" "native_grows n n" "refresh_grows t t"
  by (simp_all add: grows_defs)

lemma grows_trans:
  "owner_grows o1 o2 \<Longrightarrow> owner_grows o2 o3 \<Longrightarrow> owner_grows o1 o3"
  "session_grows s1 s2 \<Longrightarrow> session_grows s2 s3 \<Longrightarrow> session_grows s1 s3"
  "native_grows n1 n2 \<Longrightarrow> native_grows n2 n3 \<Longrightarrow> native_grows n1 n3"
  "refresh_grows t1 t2 \<Longrightarrow> refresh_grows t2 t3 \<Longrightarrow> refresh_grows t1 t3"
  unfolding grows_defs by (auto elim: frozen_trans)

lemma auth_extends_refl [simp]: "auth_extends db db"
  by (simp add: auth_extends_def rows_grow_refl)

lemma auth_extends_trans: "auth_extends a b \<Longrightarrow> auth_extends b c \<Longrightarrow> auth_extends a c"
  unfolding auth_extends_def
  by (meson rows_grow_trans grows_trans prefix_order.trans)

section \<open>Every transaction keeps the invariant\<close>

text \<open>The owner row of an identity: new, or the old one with its current login.\<close>

lemma upsert_owner_Inr:
  assumes "upsert_owner g l db = Inr (db1, o')"
  obtains rows n where "db1 = db\<lparr>adb_owners := rows, adb_next_id := n\<rparr>" "adb_next_id db \<le> n"
    "o' \<in> set rows" "ow_github_user_id o' = g" "rows_grow owner_grows (adb_owners db) rows"
    "\<And>r. r \<in> set rows \<Longrightarrow> ow_github_user_id r = g \<or> r \<in> set (adb_owners db)"
    "owners_ok db \<Longrightarrow> owners_ok (db\<lparr>adb_owners := rows, adb_next_id := n\<rparr>)"
proof (cases "find (\<lambda>o'. ow_github_user_id o' = g) (adb_owners db)")
  case None
  define r :: owner_row
    where "r = \<lparr>ow_id = adb_next_id db, ow_github_user_id = g, ow_github_login = l\<rparr>"
  have new: "db1 = db\<lparr>adb_owners := adb_owners db @ [r], adb_next_id := adb_next_id db + 1\<rparr>" "o' = r"
    "g \<notin> ow_github_user_id ` set (adb_owners db)"
    using assms None by (auto simp: upsert_owner_def Let_def result_simps auth_simps r_def)
  show thesis
  proof (rule that [OF new(1)])
    show "rows_grow owner_grows (adb_owners db) (adb_owners db @ [r])" by (simp add: rows_grow_append)
    show "owners_ok db \<Longrightarrow>
      owners_ok (db\<lparr>adb_owners := adb_owners db @ [r], adb_next_id := adb_next_id db + 1\<rparr>)"
      using new(3) by (auto simp: owners_ok_def r_def)
  qed (auto simp: new(2) r_def)
next
  case (Some q)
  define f :: "owner_row \<Rightarrow> owner_row"
    where "f = (\<lambda>r. if ow_github_user_id r = g then r\<lparr>ow_github_login := l\<rparr> else r)"
  have fs: "ow_id (f r) = ow_id r" "ow_github_user_id (f r) = ow_github_user_id r" for r
    by (simp_all add: f_def)
  have old: "db1 = db\<lparr>adb_owners := map f (adb_owners db), adb_next_id := adb_next_id db\<rparr>"
    "o' = q\<lparr>ow_github_login := l\<rparr>"
    using assms Some by (auto simp: upsert_owner_def Let_def result_simps auth_simps f_def)
  have q: "q \<in> set (adb_owners db)" "ow_github_user_id q = g"
    using Some by (auto simp: find_Some_iff)
  show thesis
  proof (rule that [OF old(1)])
    show "o' \<in> set (map f (adb_owners db))" using q by (force simp: old(2) f_def)
    show "rows_grow owner_grows (adb_owners db) (map f (adb_owners db))"
      using rows_grow_map [of "adb_owners db" owner_grows f "[]"] by (simp add: fs owner_grows_def)
    show "owners_ok db \<Longrightarrow> owners_ok (db\<lparr>adb_owners := map f (adb_owners db), adb_next_id := adb_next_id db\<rparr>)"
      by (simp add: owners_ok_def fs o_def image_image)
    show "r \<in> set (map f (adb_owners db)) \<Longrightarrow> ow_github_user_id r = g \<or> r \<in> set (adb_owners db)" for r
      by (auto simp: f_def)
  qed (use q in \<open>simp_all add: old(2)\<close>)
qed

text \<open>What a transaction that leaves the native sessions alone has to show.\<close>

lemma auth_inv_same_native:
  assumes "auth_inv db" "adb_native db' = adb_native db" "adb_refresh db' = adb_refresh db"
    "adb_next_id db \<le> adb_next_id db'" "owners_ok db'" "keys_ok db'"
  shows "auth_inv db'"
  using assms native_ok_same [of db db'] by (simp add: auth_inv_def)

lemma create_owner_session_step:
  assumes "create_owner_session now g l h c ttl db = Inr (db', p)"
  shows "auth_extends db db'" "auth_inv db \<Longrightarrow> auth_inv db'"
proof -
  define new :: "auth_db \<Rightarrow> owner_row \<Rightarrow> auth_session" where
    "new = (\<lambda>db1 o'. \<lparr>as_id = adb_next_id db1, as_owner_id = ow_id o', as_token_hash = h,
       as_csrf_hash = c, as_expires_at = now + ttl, as_revoked_at = None, as_last_seen_at = None,
       as_created_at = now\<rparr>)"
  obtain db1 o' where up: "upsert_owner g l db = Inr (db1, o')"
    and rest: "h \<notin> as_token_hash ` set (adb_sessions db1)"
      "db' = db1\<lparr>adb_sessions := adb_sessions db1 @ [new db1 o'], adb_next_id := adb_next_id db1 + 1\<rparr>"
    using assms by (auto simp: create_owner_session_def Let_def result_simps auth_simps new_def)
  obtain rows n where u: "db1 = db\<lparr>adb_owners := rows, adb_next_id := n\<rparr>" "adb_next_id db \<le> n"
    "o' \<in> set rows" "rows_grow owner_grows (adb_owners db) rows"
    "owners_ok db \<longrightarrow> owners_ok (db\<lparr>adb_owners := rows, adb_next_id := n\<rparr>)"
    by (rule upsert_owner_Inr [OF up]) blast
  obtain s where s: "as_id s = n" "as_owner_id s = ow_id o'"
    "as_token_hash s \<notin> as_token_hash ` set (adb_sessions db)"
    "db' = db\<lparr>adb_owners := rows, adb_sessions := adb_sessions db @ [s], adb_next_id := n + 1\<rparr>"
    by (rule that [of "new db1 o'"]) (use rest u(1) in \<open>simp_all add: new_def\<close>)
  show "auth_extends db db'"
    by (simp add: s(4) auth_extends_def u(4) rows_grow_refl rows_grow_append)
  assume inv: "auth_inv db"
  show "auth_inv db'"
  proof (rule auth_inv_same_native [OF inv])
    show "owners_ok db'"
      using u(3) u(5) auth_invD(1) [OF inv] by (auto simp: s owners_ok_def)
    show "keys_ok db'" using auth_invD(2) [OF inv] s(1,3) u(2) by (fastforce simp: s(4) keys_ok_def)
  qed (use u(2) in \<open>simp_all add: s(4)\<close>)
qed

lemma revoke_session_step:
  assumes "revoke_session now h db = Inr (db', p)"
  shows "auth_extends db db'" "auth_inv db \<Longrightarrow> auth_inv db'"
proof -
  define f :: "auth_session \<Rightarrow> auth_session" where "f = (\<lambda>s. if as_token_hash s = h \<and> as_revoked_at s = None
     then s\<lparr>as_revoked_at := Some now\<rparr> else s)"
  have fs: "as_id (f s) = as_id s" "as_owner_id (f s) = as_owner_id s"
    "as_token_hash (f s) = as_token_hash s" "session_grows s (f s)" for s
    by (simp_all add: f_def session_grows_def frozen_def)
  have d: "db' = db\<lparr>adb_sessions := map f (adb_sessions db)\<rparr>"
    using assms by (auto simp: revoke_session_def Let_def result_simps auth_simps f_def)
  show "auth_extends db db'"
    using rows_grow_map [of "adb_sessions db" session_grows f "[]"]
    by (simp add: d auth_extends_def fs rows_grow_refl)
  assume "auth_inv db"
  then show "auth_inv db'"
    by (rule auth_inv_same_native)
      (use auth_invD [OF \<open>auth_inv db\<close>] in \<open>simp_all add: d owners_ok_def keys_ok_def fs o_def\<close>)
qed

lemma create_native_oauth_flow_Inr:
  assumes "create_native_oauth_flow now h c ttl db = Inr (db', b)"
  shows "\<exists>fs n. db' = db\<lparr>adb_flows := filter (\<lambda>f. \<not> fl_expires_at f \<le> now) (adb_flows db) @ fs,
      adb_exchanges := filter (\<lambda>x. \<not> xc_expires_at x \<le> now) (adb_exchanges db), adb_next_id := n\<rparr>
    \<and> adb_next_id db \<le> n
    \<and> (fs = [] \<or> (\<exists>f. fs = [f] \<and> fl_state_hash f = h
          \<and> h \<notin> fl_state_hash ` set (filter (\<lambda>f. \<not> fl_expires_at f \<le> now) (adb_flows db))
          \<and> length (filter (\<lambda>f. \<not> fl_expires_at f \<le> now) (adb_flows db)) < NATIVE_OAUTH_FLOW_CAPACITY))"
proof -
  let ?db1 = "db\<lparr>adb_flows := filter (\<lambda>f. \<not> fl_expires_at f \<le> now) (adb_flows db),
    adb_exchanges := filter (\<lambda>x. \<not> xc_expires_at x \<le> now) (adb_exchanges db)\<rparr>"
  show ?thesis
  proof (cases "NATIVE_OAUTH_FLOW_CAPACITY \<le> length (adb_flows ?db1)")
    case True
    then have "db' = ?db1" using assms by (auto simp: create_native_oauth_flow_def Let_def auth_simps)
    then show ?thesis by (intro exI [of _ "[]"] exI [of _ "adb_next_id db"]) simp
  next
    case False
    let ?f = "\<lparr>fl_id = adb_next_id db, fl_state_hash = h, fl_pkce_challenge = c,
       fl_expires_at = now + ttl, fl_consumed_at = None, fl_created_at = now\<rparr>"
    from False assms have "h \<notin> fl_state_hash ` set (adb_flows ?db1)"
      "db' = ?db1\<lparr>adb_flows := adb_flows ?db1 @ [?f], adb_next_id := adb_next_id db + 1\<rparr>"
      by (auto simp: create_native_oauth_flow_def Let_def result_simps auth_simps)
    then show ?thesis
      using False by (intro exI [of _ "[?f]"] exI [of _ "adb_next_id db + 1"]) (simp add: not_le)
  qed
qed

lemma create_native_oauth_flow_step:
  assumes "create_native_oauth_flow now h c ttl db = Inr (db', b)"
  shows "auth_extends db db'" "auth_inv db \<Longrightarrow> auth_inv db'"
proof -
  let ?live = "filter (\<lambda>f. \<not> fl_expires_at f \<le> now) (adb_flows db)"
  obtain fs n where d: "db' = db\<lparr>adb_flows := ?live @ fs,
      adb_exchanges := filter (\<lambda>x. \<not> xc_expires_at x \<le> now) (adb_exchanges db), adb_next_id := n\<rparr>"
    "adb_next_id db \<le> n" and fs: "fs = [] \<or> (\<exists>f. fs = [f] \<and> fl_state_hash f = h
       \<and> h \<notin> fl_state_hash ` set ?live \<and> length ?live < NATIVE_OAUTH_FLOW_CAPACITY)"
    using create_native_oauth_flow_Inr [OF assms] by blast
  show "auth_extends db db'" by (simp add: d(1) auth_extends_def rows_grow_refl)
  assume inv: "auth_inv db"
  note K = auth_invD(2) [OF inv, unfolded keys_ok_def]
  have dist: "distinct (map fl_state_hash ?live)" using K by (simp add: distinct_map_filter)
  have "length ?live \<le> NATIVE_OAUTH_FLOW_CAPACITY"
    using K length_filter_le [of _ "adb_flows db"] order_trans by blast
  then have "distinct (map fl_state_hash (?live @ fs)) \<and> length (?live @ fs) \<le> NATIVE_OAUTH_FLOW_CAPACITY"
    using fs dist by (elim disjE exE conjE) (simp_all add: image_iff)
  moreover have "s \<in> set (adb_sessions db) \<Longrightarrow> as_id s < n" for s using K d(2) by force
  ultimately have "keys_ok db'" using K by (auto simp: keys_ok_def d(1) distinct_map_filter)
  moreover have "owners_ok db'" using auth_invD(1) [OF inv] d(2) by (fastforce simp: owners_ok_def d(1))
  ultimately show "auth_inv db'"
    using d by (intro auth_inv_same_native [OF inv]) simp_all
qed

lemma consume_native_oauth_flow_step:
  assumes "consume_native_oauth_flow now h db = Inr (db', b)"
  shows "auth_extends db db'" "auth_inv db \<Longrightarrow> auth_inv db'"
proof -
  define f :: "native_oauth_flow \<Rightarrow> native_oauth_flow" where
    "f = (\<lambda>r. if fl_state_hash r = h \<and> fl_consumed_at r = None \<and> now < fl_expires_at r
       then r\<lparr>fl_consumed_at := Some now\<rparr> else r)"
  have fs: "fl_state_hash (f r) = fl_state_hash r" for r by (simp add: f_def)
  have d: "db' = db\<lparr>adb_flows := map f (adb_flows db)\<rparr>"
    using assms by (auto simp: consume_native_oauth_flow_def Let_def result_simps auth_simps f_def)
  show "auth_extends db db'" by (simp add: d auth_extends_def rows_grow_refl)
  assume "auth_inv db"
  then show "auth_inv db'"
    by (rule auth_inv_same_native)
      (use auth_invD [OF \<open>auth_inv db\<close>] in \<open>simp_all add: d owners_ok_def keys_ok_def fs o_def\<close>)
qed

lemma create_native_exchange_step:
  assumes "create_native_exchange now g l h c ttl db = Inr (db', p)"
  shows "auth_extends db db'" "auth_inv db \<Longrightarrow> auth_inv db'"
proof -
  define new :: "auth_db \<Rightarrow> owner_row \<Rightarrow> native_exchange_code" where
    "new = (\<lambda>db1 o'. \<lparr>xc_id = adb_next_id db1, xc_owner_id = ow_id o', xc_code_hash = h,
        xc_pkce_challenge = c, xc_expires_at = now + ttl, xc_consumed_at = None, xc_created_at = now\<rparr>)"
  obtain db1 o' where up: "upsert_owner g l db = Inr (db1, o')"
    and rest: "h \<notin> xc_code_hash ` set (adb_exchanges db1)"
      "db' = db1\<lparr>adb_exchanges := adb_exchanges db1 @ [new db1 o'], adb_next_id := adb_next_id db1 + 1\<rparr>"
    using assms by (auto simp: create_native_exchange_def Let_def result_simps auth_simps new_def)
  obtain rows n where u: "db1 = db\<lparr>adb_owners := rows, adb_next_id := n\<rparr>" "adb_next_id db \<le> n"
    "o' \<in> set rows" "rows_grow owner_grows (adb_owners db) rows"
    "owners_ok db \<longrightarrow> owners_ok (db\<lparr>adb_owners := rows, adb_next_id := n\<rparr>)"
    by (rule upsert_owner_Inr [OF up]) blast
  obtain x where x: "xc_owner_id x = ow_id o'" "xc_code_hash x \<notin> xc_code_hash ` set (adb_exchanges db)"
    "db' = db\<lparr>adb_owners := rows, adb_exchanges := adb_exchanges db @ [x], adb_next_id := n + 1\<rparr>"
    by (rule that [of "new db1 o'"]) (use rest u(1) in \<open>simp_all add: new_def\<close>)
  show "auth_extends db db'" by (simp add: x(3) auth_extends_def u(4) rows_grow_refl)
  assume inv: "auth_inv db"
  show "auth_inv db'"
  proof (rule auth_inv_same_native [OF inv])
    show "owners_ok db'"
      using u(3) u(5) auth_invD(1) [OF inv] by (auto simp: x owners_ok_def)
    show "keys_ok db'" using auth_invD(2) [OF inv] x(2) u(2) by (fastforce simp: x(3) keys_ok_def)
  qed (use u(2) in \<open>simp_all add: x(3)\<close>)
qed

text \<open>Events only add to the audit trail.\<close>

lemma record_event_same:
  assumes "record_event ow h a i oc re au rp db = Inr db'"
  shows "adb_owners db' = adb_owners db" "adb_sessions db' = adb_sessions db"
    "adb_flows db' = adb_flows db" "adb_exchanges db' = adb_exchanges db"
    "adb_native db' = adb_native db" "adb_refresh db' = adb_refresh db"
    "prefix (adb_audit db) (adb_audit db')" "adb_next_id db' = adb_next_id db + 1"
  using record_event_Inr [OF assms] by auto

lemma keys_ok_same:
  assumes "keys_ok db" "adb_sessions db' = adb_sessions db" "adb_flows db' = adb_flows db"
    "adb_exchanges db' = adb_exchanges db" "adb_next_id db \<le> adb_next_id db'"
  shows "keys_ok db'"
  using assms by (fastforce simp: keys_ok_def)

lemma owners_ok_same:
  assumes "owners_ok db" "adb_owners db' = adb_owners db" "adb_sessions db' = adb_sessions db"
    "xc_owner_id ` set (adb_exchanges db') \<subseteq> xc_owner_id ` set (adb_exchanges db)"
    "ns_owner_id ` set (adb_native db') \<subseteq> ow_id ` set (adb_owners db)"
    "adb_next_id db \<le> adb_next_id db'"
  shows "owners_ok db'"
proof -
  have x: "xc_owner_id ` set (adb_exchanges db) \<subseteq> ow_id ` set (adb_owners db)"
    and n: "\<And>o'. o' \<in> set (adb_owners db) \<Longrightarrow> ow_id o' < adb_next_id db"
    using assms(1) by (auto simp: owners_ok_def)
  show ?thesis
    using assms(1) order_trans [OF assms(4) x] assms(5) less_le_trans [OF n assms(6)]
    unfolding owners_ok_def assms(2,3) by (simp add: image_subset_iff)
qed

lemma record_event_step:
  assumes "record_event ow h a i oc re au rp db = Inr db'"
  shows "auth_extends db db'" "auth_inv db \<Longrightarrow> auth_inv db'"
proof -
  note R = record_event_same [OF assms]
  show "auth_extends db db'" by (simp add: R auth_extends_def rows_grow_refl)
  assume inv: "auth_inv db"
  have "ns_owner_id ` set (adb_native db) \<subseteq> ow_id ` set (adb_owners db)"
    using auth_invD(1) [OF inv] by (auto simp: owners_ok_def)
  then show "auth_inv db'"
    using native_ok_same [of db db'] keys_ok_same [of db db'] owners_ok_same [of db db'] auth_invD [OF inv]
    by (simp add: auth_inv_def R)
qed

lemma deny_exchange_step:
  assumes "deny_exchange now h db = Inr db'"
  shows "auth_extends db db'" "auth_inv db \<Longrightarrow> auth_inv db'"
  using assms record_event_step
  by (auto simp: deny_exchange_def result_simps auth_simps split: option.splits)

lemma open_native_session_step:
  assumes "open_native_session now x h a r at rt db = Inr (db', p)"
  shows "auth_extends db db'" "auth_inv db \<Longrightarrow> auth_inv db'"
proof -
  define s :: native_auth_session where
    "s = \<lparr>ns_id = adb_next_id db, ns_owner_id = xc_owner_id x, ns_access_token_hash = a,
          ns_access_expires_at = now + at, ns_revoked_at = None, ns_created_at = now\<rparr>"
  define t :: native_refresh_token where
    "t = \<lparr>rt_id = adb_next_id db + 1, rt_session_id = adb_next_id db, rt_token_hash = r,
          rt_expires_at = now + rt, rt_consumed_at = None, rt_replaced_by_id = None,
          rt_revoked_at = None, rt_created_at = now\<rparr>"
  let ?db1 = "db\<lparr>adb_native := adb_native db @ [s], adb_refresh := adb_refresh db @ [t],
     adb_next_id := adb_next_id db + 2\<rparr>"
  obtain o' db2 where o: "filter (\<lambda>o'. ow_id o' = xc_owner_id x) (adb_owners db) = [o']"
    and new: "a \<notin> ns_access_token_hash ` set (adb_native db)" "r \<notin> rt_token_hash ` set (adb_refresh db)"
    and ev: "record_event (xc_owner_id x) h ''auth.native_exchange.succeeded'' (ns_id s)
       Outcome_succeeded Reason_none True False ?db1 = Inr db2" and db': "db' = db2"
    using assms unfolding open_native_session_def Let_def
    by (auto simp: result_simps auth_simps s_def t_def)
  have step: "auth_extends db ?db1" by (simp add: auth_extends_def rows_grow_refl rows_grow_append)
  then show "auth_extends db db'"
    using record_event_step(1) [OF ev] auth_extends_trans unfolding db' by blast
  assume inv: "auth_inv db"
  have "native_ok ?db1"
    by (rule native_ok_open [OF auth_invD(3) [OF inv], where s = s and t = t])
      (use new in \<open>simp_all add: s_def t_def\<close>)
  moreover have "keys_ok ?db1" by (rule keys_ok_same [OF auth_invD(2) [OF inv]]) simp_all
  moreover have "xc_owner_id x \<in> ow_id ` set (adb_owners db)" using filter_one [OF o] by force
  then have "owners_ok ?db1"
    using auth_invD(1) [OF inv]
    by (intro owners_ok_same [OF auth_invD(1) [OF inv]]) (auto simp: owners_ok_def s_def)
  ultimately show "auth_inv db'"
    using record_event_step(2) [OF ev] by (simp add: auth_inv_def db')
qed

lemma consume_rows_step:
  assumes "update_rows exchange_checks xc_code_hash live (\<lambda>x. x\<lparr>xc_consumed_at := Some now\<rparr>)
    (adb_exchanges db) = Inr rows"
  shows "auth_extends db (db\<lparr>adb_exchanges := rows\<rparr>)"
    "auth_inv db \<Longrightarrow> auth_inv (db\<lparr>adb_exchanges := rows\<rparr>)"
proof -
  have rows: "map xc_code_hash rows = map xc_code_hash (adb_exchanges db)"
    "map xc_owner_id rows = map xc_owner_id (adb_exchanges db)"
    using assms by (auto simp: auth_simps)
  then have owners: "xc_owner_id ` set rows = xc_owner_id ` set (adb_exchanges db)"
    by (metis list.set_map)
  show "auth_extends db (db\<lparr>adb_exchanges := rows\<rparr>)" by (simp add: auth_extends_def rows_grow_refl)
  assume inv: "auth_inv db"
  show "auth_inv (db\<lparr>adb_exchanges := rows\<rparr>)"
  proof (rule auth_inv_same_native [OF inv])
    show "owners_ok (db\<lparr>adb_exchanges := rows\<rparr>)"
      using auth_invD(1) [OF inv] owners
      by (intro owners_ok_same [OF auth_invD(1) [OF inv]]) (auto simp: owners_ok_def)
    show "keys_ok (db\<lparr>adb_exchanges := rows\<rparr>)"
      using auth_invD(2) [OF inv] rows by (simp add: keys_ok_def)
  qed simp_all
qed

lemma consume_native_exchange_step:
  assumes "consume_native_exchange now h c a r at rt db = Inr (db', p)"
  shows "auth_extends db db'" "auth_inv db \<Longrightarrow> auth_inv db'"
proof -
  let ?live = "\<lambda>x. xc_code_hash x = h \<and> xc_pkce_challenge x = c \<and> xc_consumed_at x = None \<and> now < xc_expires_at x"
  obtain rows where rows: "update_rows exchange_checks xc_code_hash ?live
      (\<lambda>x. x\<lparr>xc_consumed_at := Some now\<rparr>) (adb_exchanges db) = Inr rows"
    and "deny_exchange now h db = Inr db'
      \<or> (\<exists>x q. open_native_session now x h a r at rt (db\<lparr>adb_exchanges := rows\<rparr>) = Inr (db', q))"
    using assms unfolding consume_native_exchange_def unavailable_Inr Let_def
    by (auto simp: result_simps at_most_one_Inr split: option.splits)
  then show "auth_extends db db'" "auth_inv db \<Longrightarrow> auth_inv db'"
    using consume_rows_step [OF rows] deny_exchange_step [of now h db db']
      open_native_session_step [of now _ h a r at rt "db\<lparr>adb_exchanges := rows\<rparr>" db']
      auth_extends_trans [of db "db\<lparr>adb_exchanges := rows\<rparr>" db'] by blast+
qed

lemma revoke_native_rows_Inr:
  assumes "revoke_native_rows now i db = Inr db'"
  shows "db' = db\<lparr>adb_native := map (revoke_session_row now i) (adb_native db),
      adb_refresh := map (revoke_token_row now i) (adb_refresh db)\<rparr>"
  using assms unfolding revoke_native_rows_def revoke_session_row_def [abs_def] revoke_token_row_def [abs_def]
  by (auto simp: result_simps auth_simps)

lemma revoke_native_rows_step:
  assumes "revoke_native_rows now i db = Inr db'"
  shows "auth_extends db db'" "auth_inv db \<Longrightarrow> auth_inv db'"
proof -
  note d = revoke_native_rows_Inr [OF assms]
  have g: "native_grows s (revoke_session_row now i s)" "refresh_grows t (revoke_token_row now i t)" for s t
    by (simp_all add: grows_defs revoke_session_row_def revoke_token_row_def frozen_def)
  show "auth_extends db db'"
    using rows_grow_map [of "adb_native db" native_grows "revoke_session_row now i" "[]"]
      rows_grow_map [of "adb_refresh db" refresh_grows "revoke_token_row now i" "[]"]
    by (simp add: d auth_extends_def rows_grow_refl g)
  assume inv: "auth_inv db"
  have "owners_ok db'"
    using auth_invD(1) [OF inv]
    by (intro owners_ok_same [OF auth_invD(1) [OF inv]]) (auto simp: d owners_ok_def)
  moreover have "keys_ok db'" by (rule keys_ok_same [OF auth_invD(2) [OF inv]]) (simp_all add: d)
  moreover have "native_ok db'" 
    by (rule native_ok_revoke [OF auth_invD(3) [OF inv], of _ now i]) (simp_all add: d)
  ultimately show "auth_inv db'" by (simp add: auth_inv_def)
qed

lemma deny_refresh_step:
  assumes "deny_refresh now t s db = Inr db'"
  shows "auth_extends db db'" "auth_inv db \<Longrightarrow> auth_inv db'"
proof -
  obtain db1 where "db1 = db \<or> revoke_native_rows now (rt_session_id t) db = Inr db1"
    "\<exists>oc re au rp. record_event (ns_owner_id s) (rt_token_hash t) ''auth.native_refresh.denied''
       (rt_session_id t) oc re au rp db1 = Inr db'"
    using assms unfolding deny_refresh_def by (fastforce simp: result_simps split: if_splits)
  then show "auth_extends db db'" "auth_inv db \<Longrightarrow> auth_inv db'"
    using revoke_native_rows_step [of now "rt_session_id t" db db1] record_event_step [of _ _ _ _ _ _ _ _ db1 db']
      auth_extends_trans [of db db1 db'] by blast+
qed

lemma repo_revoke_native_session_step:
  assumes "repo_revoke_native_session now h db = Inr (db', p)"
  shows "auth_extends db db'" "auth_inv db \<Longrightarrow> auth_inv db'"
proof -
  have "db' = db \<or> (\<exists>db1 i ow ag oc re au. revoke_native_rows now i db = Inr db1
      \<and> record_event ow h ''auth.native_revoke.succeeded'' ag oc re au False db1 = Inr db')"
    using assms unfolding repo_revoke_native_session_def unavailable_Inr
    by (auto simp: result_simps auth_simps split: option.splits prod.splits) blast
  then show "auth_extends db db'" "auth_inv db \<Longrightarrow> auth_inv db'"
    by (auto intro: auth_extends_trans dest: revoke_native_rows_step record_event_step)
qed

lemma refresh_rows_one:
  "refresh_rows h db = [(t, s, o')] \<Longrightarrow>
     t \<in> set (adb_refresh db) \<and> rt_token_hash t = h \<and> s \<in> set (adb_native db)
     \<and> ns_id s = rt_session_id t \<and> o' \<in> set (adb_owners db) \<and> ow_id o' = ns_owner_id s"
proof -
  assume "refresh_rows h db = [(t, s, o')]"
  then have "(t, s, o') \<in> set (refresh_rows h db)" by simp
  then show ?thesis by (auto simp: refresh_rows_def split: if_splits)
qed

definition consume_token_row :: "instant \<Rightarrow> int \<Rightarrow> int \<Rightarrow> native_refresh_token \<Rightarrow> native_refresh_token" where
  "consume_token_row now i k t =
     (if rt_id t = i then t\<lparr>rt_consumed_at := Some now, rt_replaced_by_id := Some k\<rparr> else t)"

definition new_access_row :: "string \<Rightarrow> instant \<Rightarrow> int \<Rightarrow> native_auth_session \<Rightarrow> native_auth_session" where
  "new_access_row a e i s =
     (if ns_id s = i then s\<lparr>ns_access_token_hash := a, ns_access_expires_at := e\<rparr> else s)"

lemma rotate_tokens_Inr:
  assumes "rotate_tokens now t s o' a r at rt db = Inr (db', p)"
  obtains new db1 where "rt_id new = adb_next_id db" "rt_session_id new = rt_session_id t"
    "rt_token_hash new = r" "unspent new" "r \<notin> rt_token_hash ` set (adb_refresh db)"
    "db1 = db\<lparr>adb_native := map (new_access_row a (now + at) (rt_session_id t)) (adb_native db),
       adb_refresh := map (consume_token_row now (rt_id t) (rt_id new)) (adb_refresh db @ [new]),
       adb_next_id := adb_next_id db + 1\<rparr>"
    "distinct (map ns_access_token_hash (adb_native db1))"
    "record_event (ns_owner_id s) (rt_token_hash t) ''auth.native_refresh.succeeded''
            (rt_session_id t) Outcome_succeeded Reason_none True False db1 = Inr db'"
    "pn_session_id p = rt_session_id t"
proof -
  define new :: native_refresh_token where
    "new = \<lparr>rt_id = adb_next_id db, rt_session_id = rt_session_id t, rt_token_hash = r,
       rt_expires_at = now + rt, rt_consumed_at = None, rt_replaced_by_id = None,
       rt_revoked_at = None, rt_created_at = now\<rparr>"
  define db1 where "db1 = db\<lparr>adb_native := map (new_access_row a (now + at) (rt_session_id t)) (adb_native db),
       adb_refresh := map (consume_token_row now (rt_id t) (rt_id new)) (adb_refresh db @ [new]),
       adb_next_id := adb_next_id db + 1\<rparr>"
  have "r \<notin> rt_token_hash ` set (adb_refresh db)" "distinct (map ns_access_token_hash (adb_native db1))"
    "record_event (ns_owner_id s) (rt_token_hash t) ''auth.native_refresh.succeeded''
            (rt_session_id t) Outcome_succeeded Reason_none True False db1 = Inr db'"
    "pn_session_id p = rt_session_id t"
  proof -
    obtain toks sess where ins: "r \<notin> rt_token_hash ` set (adb_refresh db)"
      and upd: "update_rows refresh_checks rt_token_hash (\<lambda>u. rt_id u = rt_id t)
        (\<lambda>u. u\<lparr>rt_consumed_at := Some now, rt_replaced_by_id := Some (rt_id new)\<rparr>) (adb_refresh db @ [new])
        = Inr toks"
       "update_rows native_checks ns_access_token_hash (\<lambda>u. ns_id u = rt_session_id t)
        (\<lambda>u. u\<lparr>ns_access_token_hash := a, ns_access_expires_at := now + at\<rparr>) (adb_native db) = Inr sess"
      and ev: "record_event (ns_owner_id s) (rt_token_hash t) ''auth.native_refresh.succeeded''
            (rt_session_id t) Outcome_succeeded Reason_none True False
            (db\<lparr>adb_native := sess, adb_refresh := toks, adb_next_id := adb_next_id db + 1\<rparr>) = Inr db'"
      and p: "pn_session_id p = rt_session_id t"
      using assms unfolding rotate_tokens_def Let_def new_def
      by (auto simp: result_simps insert_row_Inr)
    have "toks = map (consume_token_row now (rt_id t) (rt_id new)) (adb_refresh db @ [new])"
      "sess = map (new_access_row a (now + at) (rt_session_id t)) (adb_native db)"
      "distinct (map ns_access_token_hash sess)"
      using upd unfolding update_rows_Inr consume_token_row_def [abs_def] new_access_row_def [abs_def]
      by blast+
    with ins ev p show "r \<notin> rt_token_hash ` set (adb_refresh db)"
      "distinct (map ns_access_token_hash (adb_native db1))"
      "record_event (ns_owner_id s) (rt_token_hash t) ''auth.native_refresh.succeeded''
            (rt_session_id t) Outcome_succeeded Reason_none True False db1 = Inr db'"
      "pn_session_id p = rt_session_id t"
      by (simp_all add: db1_def)
  qed
  with that [of new db1] show thesis by (simp add: new_def db1_def unspent_def)
qed

lemma row_fields [simp]:
  "rt_id (consume_token_row now i k t) = rt_id t"
  "rt_session_id (consume_token_row now i k t) = rt_session_id t"
  "rt_token_hash (consume_token_row now i k t) = rt_token_hash t"
  "rt_revoked_at (consume_token_row now i k t) = rt_revoked_at t"
  "ns_id (new_access_row a e i s) = ns_id s" "ns_owner_id (new_access_row a e i s) = ns_owner_id s"
  "ns_revoked_at (new_access_row a e i s) = ns_revoked_at s"
  by (simp_all add: consume_token_row_def new_access_row_def)

lemma rotate_tokens_step:
  assumes rot: "rotate_tokens now t s o' a r at rt db = Inr (db', p)"
    and row: "t \<in> set (adb_refresh db)" "unspent t" "s \<in> set (adb_native db)" "ns_id s = rt_session_id t"
      "ns_revoked_at s = None" and inv: "auth_inv db"
  shows "auth_extends db db'" "auth_inv db'"
proof -
  note D = native_okD [OF auth_invD(3) [OF inv]]
  obtain new db1 where new: "rt_id new = adb_next_id db" "rt_session_id new = rt_session_id t"
      "rt_token_hash new = r" "unspent new" "r \<notin> rt_token_hash ` set (adb_refresh db)"
    and db1: "db1 = db\<lparr>adb_native := map (new_access_row a (now + at) (rt_session_id t)) (adb_native db),
       adb_refresh := map (consume_token_row now (rt_id t) (rt_id new)) (adb_refresh db @ [new]),
       adb_next_id := adb_next_id db + 1\<rparr>"
    and dist: "distinct (map ns_access_token_hash (adb_native db1))"
    and ev: "record_event (ns_owner_id s) (rt_token_hash t) ''auth.native_refresh.succeeded''
            (rt_session_id t) Outcome_succeeded Reason_none True False db1 = Inr db'"
    by (rule rotate_tokens_Inr [OF rot])
  have keep: "refresh_grows u (consume_token_row now (rt_id t) (rt_id new) u)"
    if "u \<in> set (adb_refresh db)" for u
    using inj_key [OF D(3) that row(1)] row(2)
    by (auto simp: refresh_grows_def consume_token_row_def unspent_def frozen_def)
  have "native_grows v (new_access_row a (now + at) (rt_session_id t) v)" for v
    by (simp add: native_grows_def)
  then have ext: "auth_extends db db1"
    using rows_grow_map [of "adb_refresh db" refresh_grows, OF keep]
      rows_grow_map [of "adb_native db" native_grows "new_access_row a (now + at) (rt_session_id t)" "[]"]
    by (simp add: auth_extends_def db1 rows_grow_refl)
  then show "auth_extends db db'" using record_event_step(1) [OF ev] auth_extends_trans by blast
  have "native_ok db1"
    by (rule native_ok_rotate [OF auth_invD(3) [OF inv] row,
        where db' = db1 and now = now and k = "rt_id new" and new = new and acc = a and e = "now + at"])
      (use dist new in \<open>simp_all add: db1 consume_token_row_def new_access_row_def cong: if_cong\<close>)
  moreover have "owners_ok db1"
    using auth_invD(1) [OF inv]
    by (intro owners_ok_same [OF auth_invD(1) [OF inv]]) (auto simp: db1 owners_ok_def)
  moreover have "keys_ok db1" by (rule keys_ok_same [OF auth_invD(2) [OF inv]]) (simp_all add: db1)
  ultimately show "auth_inv db'" using record_event_step(2) [OF ev] by (simp add: auth_inv_def)
qed

text \<open>What a refresh comes to.\<close>

lemma rotate_Inr:
  assumes "rotate_native_refresh_token now h a r at rt db = Inr (db', p)"
  obtains (unknown) "refresh_rows h db = []" "db' = db" "p = None"
  | (denied) t s o' where "refresh_rows h db = [(t, s, o')]" "p = None"
      "rt_consumed_at t \<noteq> None \<or> rt_revoked_at t \<noteq> None \<or> rt_expires_at t \<le> now \<or> ns_revoked_at s \<noteq> None"
      "deny_refresh now t s db = Inr db'"
  | (rotated) t s o' q where "refresh_rows h db = [(t, s, o')]" "p = Some q" "unspent t"
      "now < rt_expires_at t" "ns_revoked_at s = None"
      "rotate_tokens now t s o' a r at rt db = Inr (db', q)"
proof -
  note R = assms [unfolded rotate_native_refresh_token_def unavailable_Inr]
  consider "refresh_rows h db = []" | t s o' where "refresh_rows h db = [(t, s, o')]"
  proof -
    from R obtain y where "at_most_one (refresh_rows h db) = Inr y"
      unfolding bind_result_Inr_iff by blast
    then show thesis using that by (cases y) (auto simp: at_most_one_Inr)
  qed
  then show thesis
  proof cases
    case 1
    then have "db' = db \<and> p = None" using R by simp
    then show thesis using unknown [OF 1] by blast
  next
    case (2 t s o')
    show thesis
    proof (cases "rt_consumed_at t \<noteq> None \<or> rt_revoked_at t \<noteq> None \<or> rt_expires_at t \<le> now
        \<or> ns_revoked_at s \<noteq> None")
      case True
      then have "bind_result (deny_refresh now t s db) (\<lambda>db1. Inr (db1, None)) = Inr (db', p)"
        using R 2 by (simp del: not_None_eq)
      then show thesis using denied [OF 2 _ True] by (auto simp: bind_result_Inr_iff)
    next
      case False
      then have "bind_result (rotate_tokens now t s o' a r at rt db) (\<lambda>(db1, r). Inr (db1, Some r)) = Inr (db', p)"
        using R 2 by simp
      then show thesis using rotated [OF 2] False by (auto simp: bind_result_Inr_iff unspent_def)
    qed
  qed
qed

lemma rotate_step:
  assumes "rotate_native_refresh_token now h a r at rt db = Inr (db', p)" "auth_inv db"
  shows "auth_extends db db' \<and> auth_inv db'"
  using assms(1)
proof (cases rule: rotate_Inr)
  case (denied t s o')
  then show ?thesis using deny_refresh_step [OF denied(4)] assms(2) by blast
next
  case (rotated t s o' q)
  then show ?thesis
    using rotate_tokens_step [OF rotated(6)] refresh_rows_one [OF rotated(1)] assms(2) by blast
qed (use assms(2) in simp)

lemma exec_tx_step:
  assumes "exec_tx db c = Inr db'" "auth_inv db"
  shows "auth_inv db' \<and> auth_extends db db'"
  using assms
  by (cases c)
    (auto simp: tables_Inr dest: create_owner_session_step create_native_oauth_flow_step
      consume_native_oauth_flow_step create_native_exchange_step consume_native_exchange_step
      rotate_step repo_revoke_native_session_step revoke_session_step)

interpretation auth_repo: growing_system exec_tx auth_inv auth_extends
proof unfold_locales
qed (auto dest: exec_tx_step elim: auth_extends_trans)

section \<open>A request is a sequence of transactions\<close>

text \<open>
  The service only ever names the configured owner to the tables, and the code it hands out is one
  it has just drawn.
\<close>

fun request_tx :: "auth_config \<Rightarrow> auth_env \<Rightarrow> auth_tx \<Rightarrow> bool" where
  "request_tx cf ev (Tx_session now g l h c ttl) \<longleftrightarrow> g = ac_owner_github_id cf"
| "request_tx cf ev (Tx_new_exchange now g l h c ttl) \<longleftrightarrow>
     g = ac_owner_github_id cf \<and> hash_secret (ev_sha ev) (ev_secret ev 0) = Inr h"
| "request_tx cf ev _ \<longleftrightarrow> True"

definition db_runs :: "(auth_tx \<Rightarrow> bool) \<Rightarrow> auth_db \<Rightarrow> auth_db \<Rightarrow> bool" where
  "db_runs P db db' \<longleftrightarrow> (\<exists>txs. db' = run_commands exec_tx db txs \<and> list_all P txs)"

lemma db_runs_refl [simp]: "db_runs P db db"
  unfolding db_runs_def by (intro exI [of _ "[]"]) simp

lemma db_runs_trans: "db_runs P a b \<Longrightarrow> db_runs P b c \<Longrightarrow> db_runs P a c"
  unfolding db_runs_def by (metis run_commands_append list_all_append)

lemma db_runs_mono: "db_runs P a b \<Longrightarrow> (\<And>t. P t \<Longrightarrow> Q t) \<Longrightarrow> db_runs Q a b"
  unfolding db_runs_def by (auto simp: list_all_iff)

lemma db_runs_transact:
  assumes "tables r = exec_tx (aw_db w) c" "P c"
  shows "db_runs P (aw_db w) (aw_db (fst (transact w r)))"
  unfolding db_runs_def
  by (intro exI [of _ "[c]"])
    (use assms in \<open>auto simp: transact_def tables_def split: sum.splits simp flip: assms(1)\<close>)

lemma db_runs_and_then:
  assumes "db_runs P db (aw_db (fst x))"
    "\<And>w a. x = (w, Inr a) \<Longrightarrow> db_runs P (aw_db w) (aw_db (fst (f w a)))"
  shows "db_runs P db (aw_db (fst (and_then x f)))"
proof (cases x)
  case (Pair w r)
  with assms show ?thesis by (cases r) (auto simp: and_then_def intro: db_runs_trans)
qed

lemmas transacts =
  exec_tx.simps [symmetric, THEN db_runs_transact]

lemma fetch_owner_Inr: "fetch_owner cf ev code uri = Inr i \<Longrightarrow> gi_id i = ac_owner_github_id cf"
  by (auto simp: fetch_owner_def result_simps split: if_splits)

lemma issue_session_runs:
  "db_runs (request_tx cf ev) (aw_db w) (aw_db (fst (issue_session cf ev i w)))"
  unfolding issue_session_def
  by (auto intro!: db_runs_and_then transacts split: prod.splits)

lemma start_native_login_runs:
  "db_runs (request_tx cf ev) (aw_db w) (aw_db (fst (start_native_login cf ev c uri w)))"
  unfolding start_native_login_def by (auto intro!: db_runs_and_then transacts)

lemma complete_login_runs:
  "db_runs (request_tx cf ev) (aw_db w) (aw_db (fst (complete_login cf ev code st ck uri w)))"
  unfolding complete_login_def
  by (auto intro!: db_runs_and_then issue_session_runs split: prod.splits)

lemma complete_native_login_runs:
  "db_runs (request_tx cf ev) (aw_db w) (aw_db (fst (complete_native_login cf ev code st uri w)))"
  unfolding complete_native_login_def
  by (auto intro!: db_runs_and_then transacts simp: fetch_owner_Inr split: option.splits)

lemma exchange_native_code_runs:
  "db_runs (request_tx cf ev) (aw_db w) (aw_db (fst (exchange_native_code cf ev code v w)))"
  unfolding exchange_native_code_def by (auto intro!: db_runs_and_then transacts split: option.splits)

lemma refresh_native_session_runs:
  "db_runs (request_tx cf ev) (aw_db w) (aw_db (fst (refresh_native_session cf ev r w)))"
  unfolding refresh_native_session_def by (auto intro!: db_runs_and_then transacts split: option.splits)

lemma logout_runs:
  "db_runs (request_tx cf ev) (aw_db w) (aw_db (fst (logout ev tok csrf w)))"
  unfolding logout_def by (auto intro!: db_runs_and_then transacts split: option.splits)

lemma revoke_native_session_runs:
  "db_runs (request_tx cf ev) (aw_db w) (aw_db (fst (revoke_native_session cf ev r w)))"
  unfolding revoke_native_session_def by (auto intro!: db_runs_and_then transacts)

lemma exec_auth_runs: "db_runs (request_tx cf (fst c)) (aw_db w) (aw_db (exec_auth cf w c))"
  by (cases "(cf, w, c)" rule: exec_auth.cases)
    (auto simp: start_login_def intro: complete_login_runs complete_native_login_runs
      start_native_login_runs exchange_native_code_runs refresh_native_session_runs
      logout_runs revoke_native_session_runs)

definition run_auth :: "auth_config \<Rightarrow> auth_world \<Rightarrow> (auth_env \<times> auth_command) list \<Rightarrow> auth_world" where
  "run_auth cf w cs = fold (\<lambda>c w. exec_auth cf w c) cs w"

lemma run_auth_runs:
  "db_runs (\<lambda>t. \<exists>c \<in> set cs. request_tx cf (fst c) t) (aw_db w) (aw_db (run_auth cf w cs))"
proof (induction cs arbitrary: w)
  case (Cons c cs)
  let ?P = "\<lambda>t. \<exists>c \<in> set (c # cs). request_tx cf (fst c) t"
  have "db_runs ?P (aw_db w) (aw_db (exec_auth cf w c))"
    by (rule db_runs_mono [OF exec_auth_runs]) auto
  moreover have "db_runs ?P (aw_db (exec_auth cf w c)) (aw_db (run_auth cf (exec_auth cf w c) cs))"
    by (rule db_runs_mono [OF Cons.IH]) auto
  ultimately show ?case unfolding run_auth_def by (auto intro: db_runs_trans)
qed (simp add: run_auth_def)

end
