(* ===== verification/Auth_Properties.thy ===== *)
theory Auth_Properties
  imports Auth_Safety
begin

text \<open>
  What the authentication requests guarantee, whatever requests come between: the tables start
  empty and only requests of the service change them.
\<close>

definition empty_auth_db :: auth_db where
  "empty_auth_db = \<lparr>adb_owners = [], adb_sessions = [], adb_flows = [], adb_exchanges = [],
     adb_native = [], adb_refresh = [], adb_audit = [], adb_next_id = 1\<rparr>"

section \<open>Requests keep the invariant and the history\<close>

lemma db_runs_step:
  assumes "db_runs g db db'" "auth_inv db"
  shows "auth_inv db'" "auth_extends db db'"
  using assms auth_repo.run_inv auth_repo.run_extends by (auto simp: db_runs_def)

lemma db_runs_keeps:
  assumes "db_runs P db db'" "\<And>d d' t. exec_tx d t = Inr d' \<Longrightarrow> P t \<Longrightarrow> I d \<Longrightarrow> I d'" "I db"
  shows "I db'"
proof -
  obtain txs where "db' = run_commands exec_tx db txs" "list_all P txs"
    using assms(1) by (auto simp: db_runs_def)
  then show ?thesis
    using assms(3) by (induction txs arbitrary: db) (auto intro: assms(2) split: sum.splits)
qed

lemma run_auth_step:
  assumes "auth_inv (aw_db w)"
  shows "auth_inv (aw_db (run_auth cf w cs))" "auth_extends (aw_db w) (aw_db (run_auth cf w cs))"
  using db_runs_step [OF run_auth_runs assms] by auto

lemma empty_auth_inv: "auth_inv empty_auth_db"
  by (simp add: auth_inv_def owners_ok_def keys_ok_def native_ok_def empty_auth_db_def)

lemma extends_native:
  assumes "auth_extends db db'" "s \<in> set (adb_native db)"
  shows "\<exists>s' \<in> set (adb_native db'). ns_id s' = ns_id s \<and> (ns_revoked_at s \<noteq> None \<longrightarrow> ns_revoked_at s' \<noteq> None)"
  using assms rows_growD [of native_grows "adb_native db" "adb_native db'" s]
  by (fastforce simp: auth_extends_def native_grows_def frozen_def)

lemma extends_refresh:
  assumes "auth_extends db db'" "t \<in> set (adb_refresh db)"
  shows "\<exists>t' \<in> set (adb_refresh db'). rt_session_id t' = rt_session_id t \<and> rt_token_hash t' = rt_token_hash t
    \<and> (rt_consumed_at t \<noteq> None \<longrightarrow> rt_consumed_at t' \<noteq> None)"
  using assms rows_growD [of refresh_grows "adb_refresh db" "adb_refresh db'" t]
  by (fastforce simp: auth_extends_def refresh_grows_def frozen_def)

section \<open>A replayed refresh token ends its session\<close>

definition ended :: "int \<Rightarrow> auth_db \<Rightarrow> bool" where
  "ended i db \<longleftrightarrow> (\<exists>s \<in> set (adb_native db). ns_id s = i \<and> ns_revoked_at s \<noteq> None)"

definition spent :: "string \<Rightarrow> int \<Rightarrow> auth_db \<Rightarrow> bool" where
  "spent h i db \<longleftrightarrow> (\<exists>t \<in> set (adb_refresh db). rt_token_hash t = h \<and> rt_session_id t = i \<and> rt_consumed_at t \<noteq> None)"

lemma ended_extends: "ended i db \<Longrightarrow> auth_extends db db' \<Longrightarrow> ended i db'"
  unfolding ended_def using extends_native by metis

lemma spent_extends: "spent h i db \<Longrightarrow> auth_extends db db' \<Longrightarrow> spent h i db'"
  unfolding spent_def using extends_refresh by metis

text \<open>Joining on a key finds the one row that has it, and nothing else.\<close>

lemma join_key:
  "distinct (map k xs) \<Longrightarrow> x \<in> set xs \<Longrightarrow> k x = v \<Longrightarrow>
     concat (map (\<lambda>y. if k y = v then f y else []) xs) = f x"
proof (induction xs)
  case (Cons y ys)
  have "concat (map (\<lambda>y. if k y = v then f y else []) ys) = []" if "k y = v"
    using Cons.prems(1) that by (auto simp: image_iff)
  with Cons show ?case by auto
qed simp

lemma join_none: "\<forall>x \<in> set xs. k x \<noteq> v \<Longrightarrow> concat (map (\<lambda>y. if k y = v then f y else []) xs) = []"
  by simp

lemma owner_of:
  assumes "auth_inv db"
  shows "s \<in> set (adb_native db) \<Longrightarrow> \<exists>o' \<in> set (adb_owners db). ow_id o' = ns_owner_id s"
    "b \<in> set (adb_sessions db) \<Longrightarrow> \<exists>o' \<in> set (adb_owners db). ow_id o' = as_owner_id b"
  using auth_invD(1) [OF assms] by (force simp: owners_ok_def)+

lemma session_of:
  assumes "auth_inv db" "t \<in> set (adb_refresh db)"
  shows "\<exists>s \<in> set (adb_native db). ns_id s = rt_session_id t"
  using native_okD(7) [OF auth_invD(3) [OF assms(1)] assms(2)] by force

lemma owner_ids: "auth_inv db \<Longrightarrow> distinct (map ow_id (adb_owners db))"
  by (simp add: auth_inv_def owners_ok_def)

lemma refresh_rows_found:
  assumes inv: "auth_inv db" and t: "t \<in> set (adb_refresh db)" "rt_token_hash t = h"
  obtains s o' where "refresh_rows h db = [(t, s, o')]"
proof -
  obtain s where s: "s \<in> set (adb_native db)" "ns_id s = rt_session_id t" using session_of [OF inv t(1)] by blast
  obtain o' where o: "o' \<in> set (adb_owners db)" "ow_id o' = ns_owner_id s" using owner_of(1) [OF inv s(1)] by blast
  note D = native_okD [OF auth_invD(3) [OF inv]]
  have "refresh_rows h db = [(t, s, o')]"
    unfolding refresh_rows_def join_key [of rt_token_hash, OF D(4) t]
      join_key [of ns_id, OF D(1) s] join_key [of ow_id, OF owner_ids [OF inv] o] by (rule refl)
  then show thesis by (rule that)
qed

text \<open>A session that was revoked is never found again.\<close>

lemma bearer_session:
  assumes "authenticate_bearer cf ev tok w = Inr au"
  shows "\<exists>s o'. s \<in> set (adb_native (aw_db w)) \<and> ns_id s = au_session_id au \<and> ns_revoked_at s = None
    \<and> o' \<in> set (adb_owners (aw_db w)) \<and> ow_github_user_id o' = au_github_user_id au
    \<and> native_secret_hash (ev_sha ev) False tok = Inr (ns_access_token_hash s)"
proof -
  obtain h p where h: "native_secret_hash (ev_sha ev) False tok = Inr h"
    and p: "find_active_native_session (ev_now ev 0) h (aw_db w) = Inr (Some p)"
    and au: "au_session_id au = pn_session_id p" "au_github_user_id au = pn_github_user_id p"
    using assms by (auto simp: authenticate_bearer_def result_simps split: option.splits)
  have "p \<in> set [\<lparr>pn_session_id = ns_id s, pn_owner_id = ns_owner_id s,
         pn_github_user_id = ow_github_user_id o', pn_github_login = ow_github_login o',
         pn_access_token_hash = ns_access_token_hash s,
         pn_access_expires_at = ns_access_expires_at s, pn_refresh_token_hash = rt_token_hash t,
         pn_refresh_expires_at = rt_expires_at t, pn_revoked_at = ns_revoked_at s\<rparr>.
        (s, t) \<leftarrow> live_rows (ev_now ev 0) (\<lambda>s. ns_access_token_hash s = h) (aw_db w),
        o' \<leftarrow> adb_owners (aw_db w), ow_id o' = ns_owner_id s]"
    using p unfolding find_active_native_session_def unavailable_Inr at_most_one_Inr by simp
  then show ?thesis using h au by (auto simp: live_rows_def split: if_splits) blast
qed

lemma ended_not_bearer:
  assumes "ended i (aw_db w)" "auth_inv (aw_db w)" "authenticate_bearer cf ev tok w = Inr au"
  shows "au_session_id au \<noteq> i"
proof
  assume i: "au_session_id au = i"
  obtain s where "s \<in> set (adb_native (aw_db w))" "ns_id s = i" "ns_revoked_at s = None"
    using bearer_session [OF assms(3)] i by blast
  moreover obtain s' where "s' \<in> set (adb_native (aw_db w))" "ns_id s' = i" "ns_revoked_at s' \<noteq> None"
    using assms(1) by (auto simp: ended_def)
  ultimately show False
    using inj_key [OF native_okD(1) [OF auth_invD(3) [OF assms(2)]], of s s'] by simp
qed

text \<open>Refreshing with a spent token fails and, if refused, ends the session.\<close>

lemma spent_refused:
  assumes inv: "auth_inv db" and sp: "spent h i db"
    and rot: "rotate_native_refresh_token now h a r at rt db = Inr (db', p)"
  shows "p = None \<and> ended i db'"
proof -
  obtain t where t: "t \<in> set (adb_refresh db)" "rt_token_hash t = h" "rt_session_id t = i" "rt_consumed_at t \<noteq> None"
    using sp by (auto simp: spent_def)
  obtain s o' where rows: "refresh_rows h db = [(t, s, o')]" by (rule refresh_rows_found [OF inv t(1,2)])
  note s = refresh_rows_one [OF rows]
  have den: "p = None" "deny_refresh now t s db = Inr db'"
    using rot t(4) rows by (cases rule: rotate_Inr; simp add: unspent_def)+
  obtain db1 where r: "if ns_revoked_at s = None then revoke_native_rows now i db = Inr db1 else db1 = db"
    and e: "\<exists>oc re au rp. record_event (ns_owner_id s) (rt_token_hash t) ''auth.native_refresh.denied''
       (rt_session_id t) oc re au rp db1 = Inr db'"
    using den(2) t(3,4) unfolding deny_refresh_def by (fastforce simp: result_simps split: if_splits)
  have "ended i db1"
  proof (cases "ns_revoked_at s = None")
    case True
    then have "db1 = db\<lparr>adb_native := map (revoke_session_row now i) (adb_native db),
        adb_refresh := map (revoke_token_row now i) (adb_refresh db)\<rparr>"
      using r revoke_native_rows_Inr by simp
    then have "revoke_session_row now i s \<in> set (adb_native db1)" using s by simp
    moreover have "ns_revoked_at (revoke_session_row now i s) \<noteq> None"
      using s t(3) True by (simp add: revoke_session_row_def)
    ultimately show ?thesis unfolding ended_def using s t(3) by (metis revoked_fields(1))
  next
    case False
    then show ?thesis using r s t(3) by (auto simp: ended_def)
  qed
  moreover have "adb_native db' = adb_native db1" using e record_event_same(5) by blast
  ultimately show ?thesis using den(1) by (simp add: ended_def)
qed

lemma rotated_spent:
  assumes "auth_inv db" "rotate_native_refresh_token now h a r at rt db = Inr (db', Some p)"
  shows "spent h (pn_session_id p) db'
    \<and> (\<exists>s \<in> set (adb_native db'). ns_id s = pn_session_id p \<and> ns_access_token_hash s = a)"
  using assms(2)
proof (cases rule: rotate_Inr)
  case (rotated t s o' q)
  note row = refresh_rows_one [OF rotated(1)]
  obtain new db1 where db1: "db1 = db\<lparr>adb_native := map (new_access_row a (now + at) (rt_session_id t)) (adb_native db),
       adb_refresh := map (consume_token_row now (rt_id t) (rt_id new)) (adb_refresh db @ [new]),
       adb_next_id := adb_next_id db + 1\<rparr>"
    and ev: "record_event (ns_owner_id s) (rt_token_hash t) ''auth.native_refresh.succeeded''
            (rt_session_id t) Outcome_succeeded Reason_none True False db1 = Inr db'"
    and p: "pn_session_id q = rt_session_id t"
    by (rule rotate_tokens_Inr [OF rotated(6)])
  have "consume_token_row now (rt_id t) (rt_id new) t \<in> set (adb_refresh db1)"
    using row by (auto simp: db1)
  then have "spent h (pn_session_id p) db'"
    unfolding spent_def record_event_same(6) [OF ev]
    by (rule bexI [rotated]) (use row rotated(2) p in \<open>simp add: consume_token_row_def\<close>)
  moreover have "new_access_row a (now + at) (rt_session_id t) s \<in> set (adb_native db')"
    using row by (auto simp: db1 record_event_same(5) [OF ev])
  then have "\<exists>s \<in> set (adb_native db'). ns_id s = pn_session_id p \<and> ns_access_token_hash s = a"
    by (rule bexI [rotated]) (use row rotated(2) p in \<open>simp add: new_access_row_def\<close>)
  ultimately show ?thesis by blast
qed simp_all

text \<open>A refusal is a decision of the service, never an error of the tables or of the audit trail.\<close>

definition unauthenticated :: "(auth_error, 'a) result \<Rightarrow> bool" where
  "unauthenticated r \<longleftrightarrow> (\<exists>m. r = Inl (Unauthenticated m))"

lemma if_Inl:
  assumes "(if b then Inl e0 else r) = Inl e"
  obtains "e = e0" | "r = Inl e"
  using assms by (metis sum.inject(1))

lemma unauthenticated_Inl [simp]: "unauthenticated (Inl e) \<longleftrightarrow> (\<exists>m. e = Unauthenticated m)"
  by (simp add: unauthenticated_def)

lemma unauthenticated_simps [simp]:
  "\<not> unauthenticated (Inr x)"
  "unauthenticated (bind_result r f) \<longleftrightarrow> unauthenticated r \<or> (\<exists>a. r = Inr a \<and> unauthenticated (f a))"
  "\<not> unauthenticated (insert_row ch k x xs)" "\<not> unauthenticated (update_rows ch k sel g xs)"
  "\<not> unauthenticated (exactly_one xs)"
  by (cases r; simp add: unauthenticated_def insert_row_def update_rows_def storage_error_def
      exactly_one_def Let_def split: list.splits)+

lemma unauthenticated_unavailable [simp]: "unauthenticated (unavailable r) = unauthenticated r"
  by (cases r rule: unavailable.cases) simp_all

lemma at_most_one_not_refused [simp]: "\<not> unauthenticated (at_most_one xs)"
  by (cases xs rule: at_most_one.cases) simp_all

lemma validate_metadata_error: "validate_audit_metadata v = Inl e \<Longrightarrow> e = metadata_error"
  unfolding validate_audit_metadata_def Let_def
  by (elim if_Inl; simp split: prod.splits option.splits json.splits if_splits)

lemma validate_metadata_not_refused [simp]: "\<not> unauthenticated (validate_audit_metadata v)"
  using validate_metadata_error [of v] by (auto simp: unauthenticated_def metadata_error_def)

lemma validate_event_not_refused [simp]:
  "\<not> unauthenticated (validate_audit_hash h n)" "\<not> unauthenticated (validate_audit_machine_value v k)"
  "\<not> unauthenticated (to_payload m)"
  by (simp_all add: validate_audit_hash_def validate_audit_machine_value_def event_error_def Let_def
      to_payload_def split: option.splits)

lemma record_event_not_refused [simp]: "\<not> unauthenticated (record_event ow h a i oc re au rp db)"
  unfolding record_event_def native_audit_event_def add_audit_event_def validate_audit_event_insert_def
  by simp

lemma rotate_not_refused [simp]:
  "\<not> unauthenticated (rotate_native_refresh_token now h a r at rt db)"
  by (auto simp: rotate_native_refresh_token_def deny_refresh_def revoke_native_rows_def
      rotate_tokens_def Let_def split: option.splits prod.splits)

lemma new_token_hashes_not_refused [simp]: "\<not> unauthenticated (new_token_hashes ev)"
  by (simp add: new_token_hashes_def hash_secret_def)

lemma refresh_outcome:
  assumes "refresh_native_session cf ev tok w = (w', res)" "native_secret_hash (ev_sha ev) False tok = Inr h"
  shows "(w' = w \<and> (\<exists>e. res = Inl e) \<and> \<not> unauthenticated res) \<or>
    (\<exists>a r p. rotate_native_refresh_token (ev_now ev 0) h a r (ac_native_access_ttl cf)
        (ac_native_refresh_ttl cf) (aw_db w) = Inr (aw_db w', p)
      \<and> hash_secret (ev_sha ev) (ev_secret ev 0) = Inr a
      \<and> res = (case p of None \<Rightarrow> Inl (Unauthenticated ''native authentication failed'')
               | Some q \<Rightarrow> Inr (credentials cf ev q)))"
proof (cases "native_repository cf")
  case (Inl e)
  then show ?thesis using assms(1)
    by (auto simp: refresh_native_session_def and_then_def native_repository_def ensure_def split: if_splits)
next
  case (Inr u)
  show ?thesis
  proof (cases "new_token_hashes ev")
    case (Inl e)
    then show ?thesis
      using assms Inr new_token_hashes_not_refused [of ev]
      by (auto simp: refresh_native_session_def and_then_def)
  next
    case hashes: (Inr ar)
    obtain a r where ar: "ar = (a, r)" by (cases ar)
    have a: "hash_secret (ev_sha ev) (ev_secret ev 0) = Inr a"
      using hashes ar by (auto simp: new_token_hashes_def result_simps)
    let ?rot = "rotate_native_refresh_token (ev_now ev 0) h a r (ac_native_access_ttl cf)
        (ac_native_refresh_ttl cf) (aw_db w)"
    show ?thesis
    proof (cases ?rot)
      case (Inl e)
      then have "w' = w \<and> res = Inl e"
        using assms \<open>native_repository cf = Inr u\<close> hashes ar
        by (simp add: refresh_native_session_def and_then_def transact_def)
      moreover have "\<nexists>m. e = Unauthenticated m"
        using rotate_not_refused [of "ev_now ev 0" h a r "ac_native_access_ttl cf"
          "ac_native_refresh_ttl cf" "aw_db w"] Inl by simp
      ultimately show ?thesis by simp
    next
      case (Inr x)
      then have "?rot = Inr (aw_db w', snd x) \<and> res =
          (case snd x of None \<Rightarrow> Inl (Unauthenticated ''native authentication failed'')
           | Some q \<Rightarrow> Inr (credentials cf ev q))"
        using assms \<open>native_repository cf = Inr u\<close> hashes ar
        by (cases x) (auto simp: refresh_native_session_def and_then_def transact_def split: option.splits)
      with a show ?thesis by blast
    qed
  qed
qed

text \<open>The access token of a session authenticates as that session.\<close>

lemma bearer_of_access:
  assumes "auth_inv (aw_db w)"
    and "\<exists>s \<in> set (adb_native (aw_db w)). ns_id s = i \<and> ns_access_token_hash s = a"
    and "ev_sha ev = sha \<and> hash_secret sha tok = Inr a"
    and "authenticate_bearer cf ev (Some tok) w = Inr au"
  shows "au_session_id au = i"
proof -
  obtain s where s: "s \<in> set (adb_native (aw_db w))" "ns_id s = au_session_id au"
    "native_secret_hash (ev_sha ev) False (Some tok) = Inr (ns_access_token_hash s)"
    using bearer_session [OF assms(4)] by blast
  then have "ns_access_token_hash s = a"
    using assms(3) by (auto simp: native_secret_hash_def split: if_splits)
  moreover obtain s' where "s' \<in> set (adb_native (aw_db w))" "ns_id s' = i"
    "ns_access_token_hash s' = a" using assms(2) by blast
  ultimately show ?thesis
    using inj_key [OF native_okD(2) [OF auth_invD(3) [OF assms(1)]], of s s'] s by simp
qed

text \<open>
  C16. A refresh token works once. Once it has been exchanged for new credentials, presenting it
  again fails whatever happened in between, and a refusal ends the session the credentials belong
  to: no access token authenticates as that session from then on, not even the newest one.
\<close>

theorem replayed_refresh_ends_session:
  assumes inv: "auth_inv (aw_db w)"
    and first: "refresh_native_session cf ev (Some r) w = (w1, Inr c)"
    and whose: "ev_sha ev1 = ev_sha ev" "authenticate_bearer cf ev1 (Some (nc_access_token c)) w1 = Inr au"
    and again: "ev_sha ev2 = ev_sha ev"
      "refresh_native_session cf ev2 (Some r) (run_auth cf w1 between) = (w2, res)"
  shows "\<exists>e. res = Inl e \<and> (e = Unauthenticated m \<longrightarrow>
    (\<forall>later ev3 tok au'. authenticate_bearer cf ev3 tok (run_auth cf w2 later) = Inr au' \<longrightarrow>
       au_session_id au' \<noteq> au_session_id au))"
proof -
  obtain h where h: "native_secret_hash (ev_sha ev) False (Some r) = Inr h"
    using first by (auto simp: refresh_native_session_def and_then_def split: prod.splits sum.splits)
  obtain a r' p where rot: "rotate_native_refresh_token (ev_now ev 0) h a r' (ac_native_access_ttl cf)
        (ac_native_refresh_ttl cf) (aw_db w) = Inr (aw_db w1, Some p)"
    and a: "hash_secret (ev_sha ev) (ev_secret ev 0) = Inr a" and c: "c = credentials cf ev p"
    using refresh_outcome [OF first h] by (auto split: option.splits)
  have inv1: "auth_inv (aw_db w1)" using rotate_step [OF rot inv] by blast
  have sid: "au_session_id au = pn_session_id p"
    using bearer_of_access [OF inv1 _ _ whose(2), of "pn_session_id p" a "ev_sha ev"] rotated_spent [OF inv rot] whose(1) a
    by (auto simp: c credentials_def)
  let ?db = "aw_db (run_auth cf w1 between)"
  have inv2: "auth_inv ?db" and sp: "spent h (pn_session_id p) ?db"
    using run_auth_step [OF inv1] spent_extends rotated_spent [OF inv rot] by blast+
  from refresh_outcome [OF again(2)] h again(1)
  consider e where "res = Inl e" "\<not> unauthenticated res"
    | a' r'' q where "rotate_native_refresh_token (ev_now ev2 0) h a' r'' (ac_native_access_ttl cf)
        (ac_native_refresh_ttl cf) ?db = Inr (aw_db w2, q)"
       "res = (case q of None \<Rightarrow> Inl (Unauthenticated ''native authentication failed'')
               | Some q \<Rightarrow> Inr (credentials cf ev2 q))"
    by auto
  then show ?thesis
  proof cases
    case 1
    then show ?thesis by auto
  next
    case 2
    have e: "q = None" "ended (pn_session_id p) (aw_db w2)" using spent_refused [OF inv2 sp 2(1)] by auto
    have inv3: "auth_inv (aw_db w2)" using rotate_step [OF 2(1) inv2] by blast
    have "au_session_id au' \<noteq> au_session_id au"
      if "authenticate_bearer cf ev3 tok (run_auth cf w2 later) = Inr au'" for ev3 tok later au'
      using ended_not_bearer [OF ended_extends [OF e(2) run_auth_step(2) [OF inv3]] run_auth_step(1) [OF inv3] that]
      by (simp add: sid)
    then show ?thesis using 2(2) e(1) by simp
  qed
qed

section \<open>Only the owner signs in\<close>

definition owned_by :: "int \<Rightarrow> auth_db \<Rightarrow> bool" where
  "owned_by g db \<longleftrightarrow> (\<forall>o' \<in> set (adb_owners db). ow_github_user_id o' = g)"

lemma upsert_owner_owned: "upsert_owner g l db = Inr (db1, o') \<Longrightarrow> owned_by g db \<Longrightarrow> owned_by g db1"
  by (erule upsert_owner_Inr) (auto simp: owned_by_def)

lemma same_owners_owned: "adb_owners db' = adb_owners db \<Longrightarrow> owned_by g db' = owned_by g db"
  by (simp add: owned_by_def)

lemma deny_exchange_same:
  "deny_exchange now h db = Inr db' \<Longrightarrow> adb_owners db' = adb_owners db \<and> adb_exchanges db' = adb_exchanges db"
  by (auto simp: deny_exchange_def result_simps dest: record_event_same(1,4) split: option.splits)

lemma exchange_Inr:
  assumes "consume_native_exchange now h c a r at rt db = Inr (db', p)"
  shows "adb_owners db' = adb_owners db"
    and "adb_exchanges db' = (if p = None then adb_exchanges db else
       map (\<lambda>x. if xc_code_hash x = h \<and> xc_pkce_challenge x = c \<and> xc_consumed_at x = None \<and> now < xc_expires_at x
          then x\<lparr>xc_consumed_at := Some now\<rparr> else x) (adb_exchanges db))"
    and "p \<noteq> None \<longleftrightarrow> (\<exists>x \<in> set (adb_exchanges db). xc_code_hash x = h \<and> xc_pkce_challenge x = c
       \<and> xc_consumed_at x = None \<and> now < xc_expires_at x)"
proof -
  let ?live = "\<lambda>x. xc_code_hash x = h \<and> xc_pkce_challenge x = c \<and> xc_consumed_at x = None \<and> now < xc_expires_at x"
  obtain rows found where rows: "update_rows exchange_checks xc_code_hash ?live
      (\<lambda>x. x\<lparr>xc_consumed_at := Some now\<rparr>) (adb_exchanges db) = Inr rows"
    and found: "at_most_one (filter ?live (adb_exchanges db)) = Inr found"
    and rest: "case found of None \<Rightarrow> p = None \<and> deny_exchange now h db = Inr db'
      | Some x \<Rightarrow> \<exists>q. p = Some q \<and> open_native_session now x h a r at rt (db\<lparr>adb_exchanges := rows\<rparr>) = Inr (db', q)"
    using assms unfolding consume_native_exchange_def unavailable_Inr Let_def
    by (auto simp: result_simps split: option.splits)
  have "adb_owners db' = adb_owners db \<and> adb_exchanges db' = (if p = None then adb_exchanges db else rows)"
  proof (cases found)
    case None
    then show ?thesis using rest deny_exchange_same [of now h db db'] by simp
  next
    case (Some x)
    then show ?thesis
      using rest unfolding open_native_session_def
      by (auto simp: Let_def result_simps dest!: record_event_Inr)
  qed
  then show "adb_owners db' = adb_owners db"
    "adb_exchanges db' = (if p = None then adb_exchanges db else
       map (\<lambda>x. if ?live x then x\<lparr>xc_consumed_at := Some now\<rparr> else x) (adb_exchanges db))"
    using rows by (simp_all add: update_rows_Inr)
  show "p \<noteq> None \<longleftrightarrow> (\<exists>x \<in> set (adb_exchanges db). ?live x)"
    using rest found by (auto simp: at_most_one_Inr filter_empty_conv dest!: filter_one split: option.splits)
qed

lemma revoke_rows_same:
  "revoke_native_rows now i db = Inr db' \<Longrightarrow> adb_owners db' = adb_owners db \<and> adb_exchanges db' = adb_exchanges db"
  by (drule revoke_native_rows_Inr) simp

lemma rotate_same:
  assumes "rotate_native_refresh_token now h a r at rt db = Inr (db', p)"
  shows "adb_owners db' = adb_owners db \<and> adb_exchanges db' = adb_exchanges db"
  using assms
proof (cases rule: rotate_Inr)
  case (denied t s o')
  then obtain db1 where "db1 = db \<or> revoke_native_rows now (rt_session_id t) db = Inr db1"
    and "\<exists>oc re au rp. record_event (ns_owner_id s) (rt_token_hash t) ''auth.native_refresh.denied''
       (rt_session_id t) oc re au rp db1 = Inr db'"
    unfolding deny_refresh_def by (fastforce simp: result_simps split: if_splits)
  then show ?thesis using record_event_same(1,4) revoke_rows_same by metis
next
  case (rotated t s o' q)
  from rotated(6) show ?thesis by (rule rotate_tokens_Inr) (auto dest: record_event_same(1,4))
qed simp

lemma revoke_same:
  assumes "repo_revoke_native_session now h db = Inr (db', q)"
  shows "adb_owners db' = adb_owners db \<and> adb_exchanges db' = adb_exchanges db"
proof -
  have "db' = db \<or> (\<exists>db1 i ow ag oc re au. revoke_native_rows now i db = Inr db1
      \<and> record_event ow h ''auth.native_revoke.succeeded'' ag oc re au False db1 = Inr db')"
    using assms unfolding repo_revoke_native_session_def unavailable_Inr
    by (auto simp: result_simps auth_simps split: option.splits prod.splits) blast
  then show ?thesis using record_event_same(1,4) revoke_rows_same by metis
qed

lemma exec_tx_owned:
  assumes "exec_tx db c = Inr db'" "owned_by (ac_owner_github_id cf) db" "request_tx cf ev c"
  shows "owned_by (ac_owner_github_id cf) db'"
proof (cases c)
  case (Tx_session now g' l h cs ttl)
  then obtain db1 o' where up: "upsert_owner (ac_owner_github_id cf) l db = Inr (db1, o')" and "adb_owners db' = adb_owners db1"
    using assms by (auto simp: create_owner_session_def Let_def result_simps auth_simps)
  then show ?thesis using upsert_owner_owned [OF up assms(2)] by (simp add: owned_by_def)
next
  case (Tx_new_exchange now g' l h cs ttl)
  then obtain db1 o' where up: "upsert_owner (ac_owner_github_id cf) l db = Inr (db1, o')" and "adb_owners db' = adb_owners db1"
    using assms by (auto simp: create_native_exchange_def Let_def result_simps auth_simps)
  then show ?thesis using upsert_owner_owned [OF up assms(2)] by (simp add: owned_by_def)
next
  case (Tx_flow now h cs ttl)
  then have "adb_owners db' = adb_owners db"
    using assms(1) create_native_oauth_flow_Inr [of now h cs ttl db db'] by (auto simp: tables_Inr)
  then show ?thesis using assms(2) by (simp add: owned_by_def)
next
  case (Tx_exchange now h cs a r at rt)
  then show ?thesis using assms(1,2) exchange_Inr(1) by (auto simp: tables_Inr owned_by_def)
qed (use assms in \<open>auto simp: tables_Inr owned_by_def dest!: rotate_same revoke_same\<close>,
  auto simp: revoke_session_def consume_native_oauth_flow_def Let_def result_simps auth_simps)

lemma run_auth_owned:
  assumes "owned_by (ac_owner_github_id cf) (aw_db w)"
  shows "owned_by (ac_owner_github_id cf) (aw_db (run_auth cf w cs))"
  by (rule db_runs_keeps [OF run_auth_runs, where I = "owned_by (ac_owner_github_id cf)"])
    (use assms in \<open>auto dest: exec_tx_owned\<close>)

lemma cookie_session:
  assumes "authenticate ev tok w = Inr au"
  shows "\<exists>s o'. s \<in> set (adb_sessions (aw_db w)) \<and> as_revoked_at s = None \<and> ev_now ev 0 < as_expires_at s
    \<and> browser_secret_hash (ev_sha ev) False tok = Inr (as_token_hash s)
    \<and> o' \<in> set (adb_owners (aw_db w)) \<and> ow_github_user_id o' = au_github_user_id au"
proof -
  obtain h p where h: "browser_secret_hash (ev_sha ev) False tok = Inr h"
    and p: "find_active_session (ev_now ev 0) h (aw_db w) = Inr (Some p)" and au: "au = owner_of_session p"
    using assms by (auto simp: authenticate_def result_simps split: option.splits)
  have "p \<in> set (session_projection (aw_db w) (\<lambda>s. as_token_hash s = h \<and> as_revoked_at s = None \<and> ev_now ev 0 < as_expires_at s))"
    using p unfolding find_active_session_def unavailable_Inr at_most_one_Inr by simp
  then show ?thesis
    using h au by (auto simp: session_projection_def to_persisted_def owner_of_session_def split: if_splits) blast
qed

text \<open>
  C17. Whatever requests the service has served since its tables were empty, and whatever identities
  the provider vouched for, whoever authenticates by cookie or by bearer token is the configured
  owner.
\<close>

theorem only_the_owner_signs_in:
  assumes "aw_db w = empty_auth_db"
    and "authenticate ev tok (run_auth cf w cs) = Inr au
       \<or> authenticate_bearer cf ev tok (run_auth cf w cs) = Inr au"
  shows "au_github_user_id au = ac_owner_github_id cf"
proof -
  have "owned_by (ac_owner_github_id cf) (aw_db (run_auth cf w cs))"
    using assms(1) by (intro run_auth_owned) (simp add: owned_by_def empty_auth_db_def)
  then show ?thesis
    using assms(2) cookie_session bearer_session unfolding owned_by_def by metis
qed

section \<open>An exchange code works once\<close>

definition code_spent :: "string \<Rightarrow> auth_db \<Rightarrow> bool" where
  "code_spent h db \<longleftrightarrow> (\<forall>x \<in> set (adb_exchanges db). xc_code_hash x = h \<longrightarrow> xc_consumed_at x \<noteq> None)"

lemma exec_tx_code_spent:
  assumes "exec_tx db c = Inr db'" "request_tx cf ev c" "code_spent h db"
    "hash_secret (ev_sha ev) (ev_secret ev 0) \<noteq> Inr h"
  shows "code_spent h db'"
proof (cases c)
  case (Tx_session now g' l k cs ttl)
  then obtain db1 o' g' l where up: "upsert_owner g' l db = Inr (db1, o')" and d: "adb_exchanges db' = adb_exchanges db1"
    using assms by (auto simp: create_owner_session_def Let_def result_simps auth_simps)
  from up have "adb_exchanges db1 = adb_exchanges db" by (rule upsert_owner_Inr) simp
  then show ?thesis using assms(3) d by (simp add: code_spent_def)
next
  case (Tx_new_exchange now g' l k cs ttl)
  then obtain db1 o' g' l x where up: "upsert_owner g' l db = Inr (db1, o')"
    and d: "adb_exchanges db' = adb_exchanges db1 @ [x]" "xc_code_hash x = k"
    using assms by (auto simp: create_native_exchange_def Let_def result_simps auth_simps)
  from up have "adb_exchanges db1 = adb_exchanges db" by (rule upsert_owner_Inr) simp
  then show ?thesis using assms(2-4) d Tx_new_exchange by (auto simp: code_spent_def)
next
  case (Tx_flow now k cs ttl)
  then show ?thesis
    using assms(1,3) create_native_oauth_flow_Inr [of now k cs ttl db db']
    by (auto simp: tables_Inr code_spent_def)
next
  case (Tx_exchange now k cs a r at rt)
  then show ?thesis using assms(1,3) exchange_Inr(2) by (auto simp: tables_Inr code_spent_def split: if_splits)
qed (use assms in \<open>auto simp: tables_Inr code_spent_def dest!: rotate_same revoke_same\<close>,
  auto simp: revoke_session_def consume_native_oauth_flow_def Let_def result_simps auth_simps)

lemma exchanged_code_spent:
  assumes inv: "auth_inv db" and ex: "consume_native_exchange now h ch a r at rt db = Inr (db', Some p)"
  shows "code_spent h db'"
  unfolding code_spent_def
proof (intro ballI impI)
  fix y assume y: "y \<in> set (adb_exchanges db')" "xc_code_hash y = h"
  let ?live = "\<lambda>x. xc_code_hash x = h \<and> xc_pkce_challenge x = ch \<and> xc_consumed_at x = None \<and> now < xc_expires_at x"
  obtain x where x: "x \<in> set (adb_exchanges db)" "?live x" using exchange_Inr(3) [OF ex] by blast
  obtain z where z: "z \<in> set (adb_exchanges db)" "y = (if ?live z then z\<lparr>xc_consumed_at := Some now\<rparr> else z)"
    using y(1) unfolding exchange_Inr(2) [OF ex] by auto
  then have "xc_code_hash z = h" using y(2) by (simp split: if_splits)
  moreover have "distinct (map xc_code_hash (adb_exchanges db))"
    using auth_invD(2) [OF inv] by (simp add: keys_ok_def)
  ultimately have "z = x" using inj_key z(1) x by metis
  then show "xc_consumed_at y \<noteq> None" using z(2) x(2) by simp
qed

lemma exchange_outcome:
  assumes "exchange_native_code cf ev code v w = (w', Inr c)"
  obtains h ch a r p where "native_secret_hash (ev_sha ev) False code = Inr h" "pkce_challenge (ev_sha ev) v = Inr ch"
    "consume_native_exchange (ev_now ev 0) h ch a r (ac_native_access_ttl cf) (ac_native_refresh_ttl cf) (aw_db w)
      = Inr (aw_db w', Some p)"
  using assms
  by (auto simp: exchange_native_code_def and_then_def transact_def split: prod.splits sum.splits option.splits)

text \<open>
  C18. A native exchange code is good for one session. It is accepted only unexpired, unused and with
  the verifier whose challenge it was issued for; and once accepted it is refused for every
  verifier, provided that no request in between happens to draw a secret with the same digest.
\<close>

theorem exchange_code_works_once:
  assumes inv: "auth_inv (aw_db w)"
    and first: "exchange_native_code cf ev (Some code) verifier w = (w1, Inr c)"
    and fresh: "\<forall>q \<in> set between. hash_secret (ev_sha (fst q)) (ev_secret (fst q) 0) \<noteq> Inr (ev_sha ev code)"
    and sha: "ev_sha ev2 = ev_sha ev"
  shows "(\<exists>x \<in> set (adb_exchanges (aw_db w)). xc_code_hash x = ev_sha ev code
       \<and> pkce_challenge (ev_sha ev) verifier = Inr (xc_pkce_challenge x)
       \<and> xc_consumed_at x = None \<and> ev_now ev 0 < xc_expires_at x)
    \<and> \<not> is_ok (snd (exchange_native_code cf ev2 (Some code) verifier2 (run_auth cf w1 between)))"
proof -
  obtain h ch a r p where h: "native_secret_hash (ev_sha ev) False (Some code) = Inr h"
    and ch: "pkce_challenge (ev_sha ev) verifier = Inr ch"
    and ex: "consume_native_exchange (ev_now ev 0) h ch a r (ac_native_access_ttl cf) (ac_native_refresh_ttl cf) (aw_db w)
      = Inr (aw_db w1, Some p)"
    by (rule exchange_outcome [OF first])
  have hc: "h = ev_sha ev code" using h by (auto simp: native_secret_hash_def hash_secret_def split: if_splits)
  obtain x where x: "x \<in> set (adb_exchanges (aw_db w))" "xc_code_hash x = h" "xc_pkce_challenge x = ch"
    "xc_consumed_at x = None" "ev_now ev 0 < xc_expires_at x" using exchange_Inr(3) [OF ex] by blast
  have "code_spent h (aw_db w1)" by (rule exchanged_code_spent [OF inv ex])
  then have sp: "code_spent h (aw_db (run_auth cf w1 between))"
    by (intro db_runs_keeps [OF run_auth_runs, where I = "code_spent h"])
      (use fresh hc in \<open>auto dest: exec_tx_code_spent\<close>)
  have "\<not> is_ok (snd (exchange_native_code cf ev2 (Some code) verifier2 (run_auth cf w1 between)))"
  proof
    assume "is_ok (snd (exchange_native_code cf ev2 (Some code) verifier2 (run_auth cf w1 between)))"
    then obtain w2 c2 where "exchange_native_code cf ev2 (Some code) verifier2 (run_auth cf w1 between) = (w2, Inr c2)"
      by (metis is_ok.simps(1) prod.collapse sum.exhaust)
    then obtain h2 ch2 a2 r2 p2 where "native_secret_hash (ev_sha ev2) False (Some code) = Inr h2"
      and ex2: "consume_native_exchange (ev_now ev2 0) h2 ch2 a2 r2 (ac_native_access_ttl cf)
        (ac_native_refresh_ttl cf) (aw_db (run_auth cf w1 between)) = Inr (aw_db w2, Some p2)"
      by (rule exchange_outcome)
    then have "h2 = h" using h sha by simp
    then show False using exchange_Inr(3) [OF ex2] sp by (auto simp: code_spent_def)
  qed
  then show ?thesis using x ch hc by auto
qed

section \<open>Signing out\<close>

lemma logout_revokes:
  assumes "logout ev tok csrf w = (w', Inr ())"
  shows "\<exists>h. browser_secret_hash (ev_sha ev) False tok = Inr h
    \<and> (\<exists>s \<in> set (adb_sessions (aw_db w')). as_token_hash s = h \<and> as_revoked_at s \<noteq> None)"
proof -
  obtain h p where h: "browser_secret_hash (ev_sha ev) False tok = Inr h"
    and p: "find_session_for_logout h (aw_db w) = Inr (Some p)"
    and rev: "transact w (revoke_session (ev_now ev 0) h (aw_db w)) = (w', Inr ())"
    using assms by (auto simp: logout_def and_then_def split: prod.splits sum.splits option.splits)
  have "p \<in> set (session_projection (aw_db w) (\<lambda>s. as_token_hash s = h))"
    using p unfolding find_session_for_logout_def unavailable_Inr at_most_one_Inr by simp
  then obtain s where s: "s \<in> set (adb_sessions (aw_db w))" "as_token_hash s = h"
    by (auto simp: session_projection_def split: if_splits)
  let ?s = "if as_revoked_at s = None then s\<lparr>as_revoked_at := Some (ev_now ev 0)\<rparr> else s"
  have "?s \<in> set (adb_sessions (aw_db w'))" "as_token_hash ?s = h" "as_revoked_at ?s \<noteq> None"
    using rev s by (auto simp: transact_def revoke_session_def result_simps auth_simps split: sum.splits)
  then show ?thesis using h by blast
qed

text \<open>
  C19. A session that was signed out stays signed out: its token never authenticates again, whatever
  requests follow.
\<close>

theorem signed_out_stays_out:
  assumes "auth_inv (aw_db w)" "logout ev tok csrf w = (w', Inr ())" "ev_sha ev' = ev_sha ev"
  shows "\<nexists>au. authenticate ev' tok (run_auth cf w' cs) = Inr au"
proof
  let ?db = "aw_db (run_auth cf w' cs)"
  assume "\<exists>au. authenticate ev' tok (run_auth cf w' cs) = Inr au"
  then obtain s where s: "s \<in> set (adb_sessions ?db)" "as_revoked_at s = None"
    "browser_secret_hash (ev_sha ev) False tok = Inr (as_token_hash s)"
    using cookie_session assms(3) by metis
  obtain r where r: "r \<in> set (adb_sessions (aw_db w'))" "as_token_hash r = as_token_hash s" "as_revoked_at r \<noteq> None"
    using logout_revokes [OF assms(2)] s(3) by auto
  have inv: "auth_inv (aw_db w')"
    using db_runs_step(1) [OF logout_runs assms(1), of ev tok csrf] assms(2) by simp
  then have "auth_extends (aw_db w') ?db" "auth_inv ?db" by (rule run_auth_step)+
  then obtain r' where "r' \<in> set (adb_sessions ?db)" "session_grows r r'"
    using rows_growD r(1) unfolding auth_extends_def by meson
  then show False
    using inj_key [of as_token_hash "adb_sessions ?db" s r'] s(1,2) r(2,3) auth_invD(2) [OF \<open>auth_inv ?db\<close>]
    by (auto simp: session_grows_def keys_ok_def frozen_def)
qed

section \<open>Looking a session up\<close>

lemma at_most_one_ok: "length xs \<le> 1 \<Longrightarrow> \<exists>y. at_most_one xs = Inr y"
  by (cases xs rule: at_most_one.cases) auto

lemma concat_le_one:
  assumes "distinct xs" "\<And>x y. x \<in> set xs \<Longrightarrow> y \<in> set xs \<Longrightarrow> f x \<noteq> [] \<Longrightarrow> f y \<noteq> [] \<Longrightarrow> x = y"
    and "\<And>x. x \<in> set xs \<Longrightarrow> length (f x) \<le> 1"
  shows "length (concat (map f xs)) \<le> 1"
  using assms
proof (induction xs)
  case (Cons x xs)
  show ?case
  proof (cases "f x = []")
    case True
    then show ?thesis using Cons by simp
  next
    case False
    then have "\<forall>y \<in> set xs. f y = []" using Cons.prems(1,2) by (metis distinct.simps(2) list.set_intros)
    then have "concat (map f xs) = []" by simp
    then show ?thesis using Cons.prems(3) [of x] by (simp del: concat_eq_Nil_conv)
  qed
qed simp

lemma filter_as_concat: "filter P xs = concat (map (\<lambda>x. if P x then [x] else []) xs)"
  by (induction xs) simp_all

lemma live_rows_le_one:
  assumes inv: "auth_inv db" and sel: "\<And>s s'. s \<in> set (adb_native db) \<Longrightarrow> s' \<in> set (adb_native db) \<Longrightarrow>
      sel s \<Longrightarrow> sel s' \<Longrightarrow> s = s'"
  shows "length (live_rows now sel db) \<le> 1"
proof -
  note D = native_okD [OF auth_invD(3) [OF inv]]
  have dist: "distinct (adb_native db)" "distinct (adb_refresh db)" using D(1,3) by (auto simp: distinct_map)
  have "length (concat (map (\<lambda>t. if rt_session_id t = ns_id s then if ns_revoked_at s = None then
      if now < ns_access_expires_at s then if rt_consumed_at t = None then if rt_revoked_at t = None then
      if now < rt_expires_at t then [(s, t)] else [] else [] else [] else [] else [] else [])
      (adb_refresh db))) \<le> 1" for s
    by (rule concat_le_one [OF dist(2)]) (use D(8) in \<open>auto simp: unspent_def split: if_splits\<close>)
  then show ?thesis
    unfolding live_rows_def by (intro concat_le_one [OF dist(1)]) (use sel in \<open>auto split: if_splits\<close>)
qed

lemma owner_join_le_one:
  assumes "auth_inv db"
  shows "length (concat (map (\<lambda>o'. if ow_id o' = i then [f o'] else []) (adb_owners db))) \<le> 1"
  using owner_ids [OF assms]
  by (intro concat_le_one) (auto simp: distinct_map inj_on_def split: if_splits)

lemma find_active_answers: "auth_inv db \<Longrightarrow> \<exists>y. find_active_session now h db = Inr y"
proof -
  assume inv: "auth_inv db"
  note K = auth_invD(2) [OF inv, unfolded keys_ok_def]
  have "length (session_projection db (\<lambda>s. as_token_hash s = h \<and> as_revoked_at s = None \<and> now < as_expires_at s)) \<le> 1"
    unfolding session_projection_def
    by (intro concat_le_one)
      (use K owner_join_le_one [OF inv] in \<open>auto simp: distinct_map inj_on_def split: if_splits\<close>)
  then show ?thesis using at_most_one_ok by (fastforce simp: find_active_session_def)
qed

lemma session_active_answers: "auth_inv db \<Longrightarrow> \<exists>b. repo_session_active now i db = Inr b"
proof -
  assume "auth_inv db"
  then have "distinct (map as_id (adb_sessions db))" by (simp add: auth_inv_def keys_ok_def)
  then have "length (filter (\<lambda>s. as_id s = i \<and> as_revoked_at s = None \<and> now < as_expires_at s) (adb_sessions db)) \<le> 1"
    unfolding filter_as_concat
    by (intro concat_le_one) (auto simp: distinct_map inj_on_def split: if_splits)
  then show ?thesis using at_most_one_ok by (fastforce simp: repo_session_active_def)
qed

lemma native_active_answers: "auth_inv db \<Longrightarrow> \<exists>b. repo_native_session_active now i db = Inr b"
proof -
  assume inv: "auth_inv db"
  have "length (live_rows now (\<lambda>s. ns_id s = i) db) \<le> 1"
    by (rule live_rows_le_one [OF inv]) (use inj_key [OF native_okD(1) [OF auth_invD(3) [OF inv]]] in simp)
  then show ?thesis using at_most_one_ok by (fastforce simp: repo_native_session_active_def)
qed

lemma find_native_answers: "auth_inv db \<Longrightarrow> \<exists>y. find_active_native_session now h db = Inr y"
proof -
  assume inv: "auth_inv db"
  let ?live = "live_rows now (\<lambda>s. ns_access_token_hash s = h) db"
  have "length ?live \<le> 1"
    by (rule live_rows_le_one [OF inv]) (use inj_key [OF native_okD(2) [OF auth_invD(3) [OF inv]]] in simp)
  then consider "?live = []" | s t where "?live = [(s, t)]"
    by (cases ?live rule: at_most_one.cases) auto
  then show ?thesis
  proof cases
    case 1
    then show ?thesis by (simp add: find_active_native_session_def)
  next
    case (2 s t)
    have "\<exists>y. at_most_one (concat (map (\<lambda>o'. if ow_id o' = ns_owner_id s then [\<lparr>pn_session_id = ns_id s,
         pn_owner_id = ns_owner_id s, pn_github_user_id = ow_github_user_id o',
         pn_github_login = ow_github_login o', pn_access_token_hash = ns_access_token_hash s,
         pn_access_expires_at = ns_access_expires_at s, pn_refresh_token_hash = rt_token_hash t,
         pn_refresh_expires_at = rt_expires_at t, pn_revoked_at = ns_revoked_at s\<rparr>] else [])
        (adb_owners db))) = Inr y"
      by (rule at_most_one_ok [OF owner_join_le_one [OF inv]])
    then show ?thesis by (auto simp: find_active_native_session_def 2)
  qed
qed

text \<open>
  C20. A lookup always gets an answer: the tables the service built never hold two rows where a query
  allows one, so neither a cookie, nor a bearer token, nor the check that a stream's session is still
  open can end in ``storage unavailable'' for any reason but the database itself.
\<close>

theorem lookups_always_answer:
  assumes "aw_db w0 = empty_auth_db" "w = run_auth cf w0 cs"
  shows "authenticate ev tok w \<noteq> Inl (AuthStorageUnavailable m)
    \<and> authenticate_bearer cf ev tok w \<noteq> Inl (AuthStorageUnavailable m)
    \<and> is_session_active cf ev au w \<noteq> Inl (AuthStorageUnavailable m)"
proof -
  have "auth_inv (aw_db w)" using run_auth_step(1) [of w0] assms empty_auth_inv by simp
  note A = this [THEN find_active_answers] this [THEN find_native_answers]
    this [THEN session_active_answers] this [THEN native_active_answers]
  have found: "find_active_session (ev_now ev 0) h (aw_db w) \<noteq> Inl e"
    "find_active_native_session (ev_now ev 0) h (aw_db w) \<noteq> Inl e" for h e
    using A(1,2) [of "ev_now ev 0" h] by auto
  have "authenticate ev tok w \<noteq> Inl (AuthStorageUnavailable m)"
    by (auto simp: authenticate_def browser_secret_hash_def hash_secret_def result_simps found
        split: option.splits if_splits)
  moreover have "authenticate_bearer cf ev tok w \<noteq> Inl (AuthStorageUnavailable m)"
    by (auto simp: authenticate_bearer_def native_repository_def native_secret_hash_def hash_secret_def
        ensure_def result_simps found split: option.splits if_splits)
  moreover have "is_session_active cf ev au w \<noteq> Inl (AuthStorageUnavailable m)"
    using A(3,4) [of "ev_now ev 0" "au_session_id au"]
    by (auto simp: is_session_active_def native_repository_def ensure_def)
  ultimately show ?thesis by blast
qed

section \<open>The properties at work\<close>

definition demo_env :: "char \<Rightarrow> char \<Rightarrow> instant \<Rightarrow> auth_env" where
  "demo_env a b now =
     \<lparr>ev_sha = (\<lambda>s. take 32 (s @ replicate 32 CHR ''0'')), ev_hmac = demo_hmac,
      ev_secret = (\<lambda>n. replicate 43 (if n = 0 then a else b)), ev_now = (\<lambda>_. now),
      ev_clock = (\<lambda>_. Aware now 0), ev_identity = (\<lambda>_ _. Inr \<lparr>gi_id = 7, gi_login = ''owner''\<rparr>),
      ev_authorization_url = (\<lambda>s u. u @ s)\<rparr>"

definition demo_config :: auth_config where
  "demo_config =
     \<lparr>ac_owner_github_id = 7, ac_session_ttl = td_minutes 30, ac_native = True,
      ac_native_access_ttl = td_minutes 10, ac_native_refresh_ttl = td_days 1,
      ac_native_exchange_ttl = td_minutes 2, ac_native_flow_ttl = td_minutes 5\<rparr>"

text \<open>The owner with one native session, one browser session and one open exchange code.\<close>

definition demo_auth_db :: auth_db where
  "demo_auth_db = empty_auth_db\<lparr>
     adb_owners := [\<lparr>ow_id = 1, ow_github_user_id = 7, ow_github_login = ''owner''\<rparr>],
     adb_sessions := [\<lparr>as_id = 2, as_owner_id = 1, as_token_hash = replicate 32 CHR ''s'',
       as_csrf_hash = replicate 32 CHR ''t'', as_expires_at = 1000, as_revoked_at = None,
       as_last_seen_at = None, as_created_at = 0\<rparr>],
     adb_exchanges := [\<lparr>xc_id = 3, xc_owner_id = 1, xc_code_hash = replicate 32 CHR ''x'',
       xc_pkce_challenge = ''dnZ2dnZ2dnZ2dnZ2dnZ2dnZ2dnZ2dnZ2dnZ2dnZ2dnY'', xc_expires_at = 1000,
       xc_consumed_at = None, xc_created_at = 0\<rparr>],
     adb_native := [\<lparr>ns_id = 4, ns_owner_id = 1, ns_access_token_hash = replicate 32 CHR ''c'',
       ns_access_expires_at = 1000, ns_revoked_at = None, ns_created_at = 0\<rparr>],
     adb_refresh := [\<lparr>rt_id = 5, rt_session_id = 4, rt_token_hash = replicate 32 CHR ''d'',
       rt_expires_at = 1000, rt_consumed_at = None, rt_replaced_by_id = None,
       rt_revoked_at = None, rt_created_at = 0\<rparr>],
     adb_next_id := 6\<rparr>"

definition demo_world :: auth_world where
  "demo_world = \<lparr>aw_manager = demo_manager, aw_db = demo_auth_db\<rparr>"

lemma demo_auth_inv: "auth_inv (aw_db demo_world)"
  by (simp add: auth_inv_def owners_ok_def keys_ok_def native_ok_def demo_world_def demo_auth_db_def
      empty_auth_db_def NATIVE_OAUTH_FLOW_CAPACITY_def)

definition demo_refresh :: "char \<Rightarrow> char \<Rightarrow> instant \<Rightarrow> auth_world \<Rightarrow> issued_native_credentials outcome" where
  "demo_refresh a b now w =
     refresh_native_session demo_config (demo_env a b now) (Some (replicate 43 CHR ''d'')) w"

lemma demo_refreshed:
  "(let (w1, r1) = demo_refresh CHR ''e'' CHR ''f'' 40 demo_world;
      (w2, r2) = demo_refresh CHR ''g'' CHR ''h'' 50 w1
    in (r1, r2, case authenticate_bearer demo_config (demo_env CHR ''0'' CHR ''1'' 45)
                   (Some (replicate 43 CHR ''e'')) w1 of Inr au \<Rightarrow> au_session_id au | Inl e \<Rightarrow> 0))
    = (Inr \<lparr>nc_access_token = replicate 43 CHR ''e'', nc_refresh_token = replicate 43 CHR ''f'',
            nc_access_expires_in = 600, nc_github_login = ''owner''\<rparr>,
       Inl (Unauthenticated ''native authentication failed''), 4)"
  by code_simp


theorem replayed_refresh_ends_session_witness:
  "\<nexists>later ev3 tok au'. authenticate_bearer demo_config ev3 tok (run_auth demo_config
       (fst (demo_refresh CHR ''g'' CHR ''h'' 50 (fst (demo_refresh CHR ''e'' CHR ''f'' 40 demo_world)))) later)
     = Inr au' \<and> au_session_id au' = 4"
proof -
  define w1 where "w1 = fst (demo_refresh CHR ''e'' CHR ''f'' 40 demo_world)"
  define w2 where "w2 = fst (demo_refresh CHR ''g'' CHR ''h'' 50 w1)"
  let ?c = "\<lparr>nc_access_token = replicate 43 CHR ''e'', nc_refresh_token = replicate 43 CHR ''f'',
            nc_access_expires_in = 600, nc_github_login = ''owner''\<rparr>"
  note D = demo_refreshed [unfolded Let_def split_beta, folded w1_def]
  have first: "refresh_native_session demo_config (demo_env CHR ''e'' CHR ''f'' 40)
      (Some (replicate 43 CHR ''d'')) demo_world = (w1, Inr ?c)"
    using D by (simp add: w1_def demo_refresh_def prod_eq_iff)
  have again: "refresh_native_session demo_config (demo_env CHR ''g'' CHR ''h'' 50)
      (Some (replicate 43 CHR ''d'')) (run_auth demo_config w1 [])
      = (w2, Inl (Unauthenticated ''native authentication failed''))"
    using D by (simp add: w2_def demo_refresh_def run_auth_def prod_eq_iff)
  obtain au where au: "authenticate_bearer demo_config (demo_env CHR ''0'' CHR ''1'' 45)
      (Some (nc_access_token ?c)) w1 = Inr au" "au_session_id au = 4"
    using D by (auto split: sum.splits)
  show ?thesis
    using replayed_refresh_ends_session [OF demo_auth_inv first _ au(1) _ again] au(2)
    unfolding w1_def [symmetric] w2_def [symmetric] by (auto simp: demo_env_def)
qed

lemma demo_logged_out:
  "snd (logout (demo_env CHR ''0'' CHR ''1'' 40) (Some (replicate 43 CHR ''s'')) (Some (replicate 43 CHR ''t''))
     demo_world) = Inr ()"
  by code_simp

theorem signed_out_stays_out_witness:
  "\<nexists>cs au. authenticate (demo_env CHR ''0'' CHR ''1'' 50) (Some (replicate 43 CHR ''s''))
     (run_auth demo_config (fst (logout (demo_env CHR ''0'' CHR ''1'' 40) (Some (replicate 43 CHR ''s''))
        (Some (replicate 43 CHR ''t'')) demo_world)) cs) = Inr au"
  using signed_out_stays_out [OF demo_auth_inv, of "demo_env CHR ''0'' CHR ''1'' 40" "Some (replicate 43 CHR ''s'')"
      "Some (replicate 43 CHR ''t'')" _ "demo_env CHR ''0'' CHR ''1'' 50" demo_config] demo_logged_out
  by (auto simp: prod_eq_iff demo_env_def)

definition demo_login :: "(auth_env \<times> auth_command) list" where
  "demo_login = [(demo_env CHR ''a'' CHR ''b'' 9000000,
     Callback (Some ''gh'') (Some demo_state) (Some demo_state) ''app'')]"

definition demo_start :: auth_world where
  "demo_start = \<lparr>aw_manager = demo_manager, aw_db = empty_auth_db\<rparr>"

lemma demo_logged_in:
  "is_ok (authenticate (demo_env CHR ''0'' CHR ''1'' 9000001) (Some (replicate 43 CHR ''a''))
     (run_auth demo_config demo_start demo_login))"
  by code_simp

theorem only_the_owner_signs_in_witness:
  "\<exists>au. authenticate (demo_env CHR ''0'' CHR ''1'' 9000001) (Some (replicate 43 CHR ''a''))
       (run_auth demo_config demo_start demo_login) = Inr au \<and> au_github_user_id au = 7"
proof -
  obtain au where au: "authenticate (demo_env CHR ''0'' CHR ''1'' 9000001) (Some (replicate 43 CHR ''a''))
       (run_auth demo_config demo_start demo_login) = Inr au"
    using demo_logged_in by (metis is_ok.simps(1) sum.exhaust)
  then show ?thesis
    using only_the_owner_signs_in [OF _ disjI1 [OF au]] by (simp add: demo_start_def demo_config_def)
qed

theorem lookups_always_answer_witness:
  "authenticate (demo_env CHR ''0'' CHR ''1'' 9000001) (Some (replicate 43 CHR ''a''))
     (run_auth demo_config demo_start demo_login) \<noteq> Inl (AuthStorageUnavailable ''authentication storage is unavailable'')"
  using lookups_always_answer [of demo_start _ demo_config demo_login] by (simp add: demo_start_def)

lemma demo_exchanged:
  "is_ok (snd (exchange_native_code demo_config (demo_env CHR ''e'' CHR ''f'' 40)
     (Some (replicate 43 CHR ''x'')) (Some (replicate 43 CHR ''v'')) demo_world))"
  by code_simp

theorem exchange_code_works_once_witness:
  "\<not> is_ok (snd (exchange_native_code demo_config (demo_env CHR ''g'' CHR ''h'' 50)
     (Some (replicate 43 CHR ''x'')) (Some (replicate 43 CHR ''v''))
     (run_auth demo_config (fst (exchange_native_code demo_config (demo_env CHR ''e'' CHR ''f'' 40)
        (Some (replicate 43 CHR ''x'')) (Some (replicate 43 CHR ''v'')) demo_world)) [])))"
proof -
  obtain w1 c where first: "exchange_native_code demo_config (demo_env CHR ''e'' CHR ''f'' 40)
     (Some (replicate 43 CHR ''x'')) (Some (replicate 43 CHR ''v'')) demo_world = (w1, Inr c)"
    using demo_exchanged by (metis is_ok.simps(1) prod.collapse sum.exhaust)
  show ?thesis
    using exchange_code_works_once [OF demo_auth_inv first, of "[]" "demo_env CHR ''g'' CHR ''h'' 50"
      "Some (replicate 43 CHR ''v'')"]
    by (simp add: first) (simp add: demo_env_def)
qed

end
