(* ===== verification/Recording_Contract.thy ===== *)
theory Recording_Contract
  imports Json Object_Store "HOL-Library.Product_Lexorder"
begin

text \<open>
  The commands and manifests of recording ingest (\<^verbatim>\<open>recordings/schemas.py\<close>) and the bytes they
  are hashed as (\<^verbatim>\<open>recordings/contracts.py\<close>). A recording has two tracks; a track is a timeline
  of samples cut into uploaded parts and declared gaps, and every uploaded sample carries its
  source lineage. Pydantic's field constraints and validators are one function per model, in the
  order they run. Models with a literal schema version 1 leave it out of the record.
\<close>

section \<open>Vocabulary\<close>

datatype recording_error =
    RecordingInvalidRequest string
  | RecordingNotFound string
  | RecordingConflict string
  | RecordingUnavailable string
  | Recording_value_error string
  | Recording_type_error string
  | Recording_key_error string
  | Recording_sql_error string
  | Recording_store_error object_error

type_synonym uuid = string

definition SAMPLE_RATE_HZ :: int where "SAMPLE_RATE_HZ = 48000"
definition MAX_RECORDING_SECONDS :: int where "MAX_RECORDING_SECONDS = 120 * 60"
definition MAX_TRACK_SAMPLES :: int where "MAX_TRACK_SAMPLES = SAMPLE_RATE_HZ * MAX_RECORDING_SECONDS"
definition MAX_PART_SECONDS :: int where "MAX_PART_SECONDS = 60"
definition MAX_PART_SAMPLES :: int where "MAX_PART_SAMPLES = SAMPLE_RATE_HZ * MAX_PART_SECONDS"
definition MAX_PARTS :: int where "MAX_PARTS = MAX_RECORDING_SECONDS"
definition PCM_BYTES_PER_SAMPLE :: int where "PCM_BYTES_PER_SAMPLE = 2"
definition AES_GCM_TAG_BYTES :: int where "AES_GCM_TAG_BYTES = 16"
definition MAX_SOURCE_SAMPLE_RATE_HZ :: int where "MAX_SOURCE_SAMPLE_RATE_HZ = 384000"
definition MAX_SOURCE_CHANNEL_COUNT :: int where "MAX_SOURCE_CHANNEL_COUNT = 32"
definition MAX_PRESENTATION_TIME_VALUE :: int where "MAX_PRESENTATION_TIME_VALUE = 9223372036854775807"
definition MAX_PRESENTATION_TIME_TIMESCALE :: int where "MAX_PRESENTATION_TIME_TIMESCALE = 1000000000"

lemmas recording_limits = SAMPLE_RATE_HZ_def MAX_RECORDING_SECONDS_def MAX_TRACK_SAMPLES_def
  MAX_PART_SECONDS_def MAX_PART_SAMPLES_def MAX_PARTS_def PCM_BYTES_PER_SAMPLE_def AES_GCM_TAG_BYTES_def

datatype track_kind = Microphone | System_audio

fun kind_value :: "track_kind \<Rightarrow> string" where
  "kind_value Microphone = ''microphone''"
| "kind_value System_audio = ''system_audio''"

datatype coverage_status = Complete | Stored_with_gaps

fun coverage_value :: "coverage_status \<Rightarrow> string" where
  "coverage_value Complete = ''complete''"
| "coverage_value Stored_with_gaps = ''stored_with_gaps''"

datatype gap_reason =
    Callback_overflow | Format_change | Route_change | Source_discontinuity | Missing_audio
  | Corrupt_spool_record

fun reason_text :: "gap_reason \<Rightarrow> string" where
  "reason_text Callback_overflow = ''callback_overflow''"
| "reason_text Format_change = ''format_change''"
| "reason_text Route_change = ''route_change''"
| "reason_text Source_discontinuity = ''source_discontinuity''"
| "reason_text Missing_audio = ''missing_audio''"
| "reason_text Corrupt_spool_record = ''corrupt_spool_record''"

text \<open>\<^verbatim>\<open>^[A-Za-z0-9_-]{n}$\<close>, \<^verbatim>\<open>ConversionVersion\<close> and \<^verbatim>\<open>IdempotencyKey\<close>.\<close>

definition base64url_shape :: "nat \<Rightarrow> string \<Rightarrow> bool" where
  "base64url_shape n s \<longleftrightarrow> length s = n \<and> list_all (\<lambda>c. is_alnum c \<or> c \<in> {CHR ''_'', CHR ''-''}) s"

definition conversion_version_shape :: "string \<Rightarrow> bool" where
  "conversion_version_shape s \<longleftrightarrow> segment_shape 63 s"

fun idempotency_key_shape :: "string \<Rightarrow> bool" where
  "idempotency_key_shape [] = False"
| "idempotency_key_shape (c # cs) \<longleftrightarrow>
     is_alnum c \<and> length cs \<le> 127 \<and> list_all (\<lambda>c. is_alnum c \<or> c \<in> set ''._:-'') cs"

definition invalid :: "string \<Rightarrow> (recording_error, 'a) result" where
  "invalid m = Inl (Recording_value_error m)"

definition between :: "int \<Rightarrow> int \<Rightarrow> int \<Rightarrow> bool" where
  "between a b x \<longleftrightarrow> a \<le> x \<and> x \<le> b"

section \<open>Formats and declarations\<close>

record pcm_format =
  pf_sample_encoding :: string
  pf_sample_rate_hz :: int
  pf_channel_count :: int
  pf_interleaved :: bool

definition format_ok :: "pcm_format \<Rightarrow> bool" where
  "format_ok f \<longleftrightarrow>
     pf_sample_encoding f = ''pcm_s16le'' \<and> pf_sample_rate_hz f = SAMPLE_RATE_HZ
     \<and> pf_channel_count f \<in> {1, 2} \<and> pf_interleaved f"

definition expected_channels :: "track_kind \<Rightarrow> int" where
  "expected_channels k = (if k = Microphone then 1 else 2)"

definition validate_track_format :: "track_kind \<Rightarrow> pcm_format \<Rightarrow> (recording_error, unit) result" where
  "validate_track_format kind f =
     (if pf_channel_count f \<noteq> expected_channels kind
      then invalid ''track must use its canonical channel count'' else Inr ())"

record track_declaration =
  dl_track_id :: uuid
  dl_kind :: track_kind
  dl_format :: pcm_format
  dl_conversion_version :: string

definition validate_declaration :: "track_declaration \<Rightarrow> (recording_error, unit) result" where
  "validate_declaration d =
     (if \<not> format_ok (dl_format d) \<or> \<not> conversion_version_shape (dl_conversion_version d)
      then invalid ''field constraint'' else validate_track_format (dl_kind d) (dl_format d))"

text \<open>\<^verbatim>\<open>_validate_track_pair\<close>, over the kinds and ids of two models.\<close>

definition validate_track_pair :: "(track_kind \<times> uuid) list \<Rightarrow> (recording_error, unit) result" where
  "validate_track_pair tracks =
     (if length tracks \<noteq> 2 then invalid ''recording requires exactly two tracks''
      else if map fst tracks \<noteq> [Microphone, System_audio]
      then invalid ''tracks must be ordered microphone then system_audio''
      else if card (set (map snd tracks)) \<noteq> 2 then invalid ''track IDs must be unique''
      else Inr ())"

definition require_utc :: "datetime \<Rightarrow> (recording_error, unit) result" where
  "require_utc t =
     (case t of Naive _ \<Rightarrow> invalid ''must be UTC''
      | Aware _ off \<Rightarrow> if off \<noteq> 0 then invalid ''must be UTC'' else Inr ())"

fun positive_or_none :: "int option \<Rightarrow> bool" where
  "positive_or_none None = True"
| "positive_or_none (Some i) \<longleftrightarrow> 0 < i"

record create_command =
  cc_recording_id :: uuid
  cc_started_at :: datetime
  cc_tracks :: "track_declaration list"
  cc_activity_id :: "int option"
  cc_interview_id :: "int option"
  cc_english_class_id :: "int option"

definition validate_create :: "create_command \<Rightarrow> (recording_error, create_command) result" where
  "validate_create c =
     bind_result (map_result validate_declaration (cc_tracks c)) (\<lambda>_.
     if length (cc_tracks c) \<noteq> 2 \<or> \<not> positive_or_none (cc_activity_id c)
        \<or> \<not> positive_or_none (cc_interview_id c) \<or> \<not> positive_or_none (cc_english_class_id c)
     then invalid ''field constraint''
     else
       bind_result (validate_track_pair (map (\<lambda>d. (dl_kind d, dl_track_id d)) (cc_tracks c))) (\<lambda>_.
       bind_result (require_utc (cc_started_at c)) (\<lambda>_. Inr c)))"

section \<open>Parts, gaps and source lineage\<close>

record part_descriptor =
  pd_sequence :: int
  pd_sample_start :: int
  pd_sample_count :: int
  pd_byte_length :: int
  pd_plaintext_sha256 :: string

definition part_fields_ok :: "int \<Rightarrow> int \<Rightarrow> int \<Rightarrow> int \<Rightarrow> string \<Rightarrow> bool" where
  "part_fields_ok sequence start count bytes digest \<longleftrightarrow>
     between 0 (MAX_PARTS - 1) sequence \<and> between 0 (MAX_TRACK_SAMPLES - 1) start
     \<and> between 1 MAX_PART_SAMPLES count \<and> between 1 (MAX_PART_SAMPLES * 2 * PCM_BYTES_PER_SAMPLE) bytes
     \<and> sha256_shape digest"

definition validate_part_descriptor :: "part_descriptor \<Rightarrow> (recording_error, unit) result" where
  "validate_part_descriptor p =
     (if \<not> part_fields_ok (pd_sequence p) (pd_sample_start p) (pd_sample_count p) (pd_byte_length p)
           (pd_plaintext_sha256 p) then invalid ''field constraint''
      else if MAX_TRACK_SAMPLES < pd_sample_start p + pd_sample_count p
      then invalid ''part range exceeds the recording limit'' else Inr ())"

record recording_gap =
  gp_sample_start :: int
  gp_sample_count :: int
  gp_reason :: gap_reason

definition validate_gap :: "recording_gap \<Rightarrow> (recording_error, unit) result" where
  "validate_gap g =
     (if \<not> between 0 (MAX_TRACK_SAMPLES - 1) (gp_sample_start g)
         \<or> \<not> between 1 MAX_TRACK_SAMPLES (gp_sample_count g) then invalid ''field constraint''
      else if MAX_TRACK_SAMPLES < gp_sample_start g + gp_sample_count g
      then invalid ''gap range exceeds the recording limit'' else Inr ())"

record lineage_segment =
  ls_sample_start :: int
  ls_sample_count :: int
  ls_source_sample_rate_hz :: int
  ls_source_channel_count :: int
  ls_device_id :: string
  ls_route :: string
  ls_presentation_time_start :: int
  ls_presentation_time_end :: int
  ls_presentation_time_timescale :: int
  ls_conversion_version :: string

definition text_between :: "nat \<Rightarrow> nat \<Rightarrow> string \<Rightarrow> bool" where
  "text_between a b s \<longleftrightarrow> a \<le> length s \<and> length s \<le> b"

definition validate_segment :: "lineage_segment \<Rightarrow> (recording_error, unit) result" where
  "validate_segment s =
     (if \<not> between 0 (MAX_TRACK_SAMPLES - 1) (ls_sample_start s)
         \<or> \<not> between 1 MAX_TRACK_SAMPLES (ls_sample_count s)
         \<or> \<not> between 1 MAX_SOURCE_SAMPLE_RATE_HZ (ls_source_sample_rate_hz s)
         \<or> \<not> between 1 MAX_SOURCE_CHANNEL_COUNT (ls_source_channel_count s)
         \<or> \<not> text_between 1 256 (ls_device_id s) \<or> \<not> text_between 1 256 (ls_route s)
         \<or> \<not> between 0 MAX_PRESENTATION_TIME_VALUE (ls_presentation_time_start s)
         \<or> \<not> between 0 MAX_PRESENTATION_TIME_VALUE (ls_presentation_time_end s)
         \<or> \<not> between 1 MAX_PRESENTATION_TIME_TIMESCALE (ls_presentation_time_timescale s)
         \<or> \<not> conversion_version_shape (ls_conversion_version s) then invalid ''field constraint''
      else if MAX_TRACK_SAMPLES < ls_sample_start s + ls_sample_count s
      then invalid ''source lineage range exceeds the recording limit''
      else if ls_presentation_time_end s \<le> ls_presentation_time_start s
      then invalid ''source lineage presentation time must advance''
      else if ls_presentation_time_timescale s <
           \<bar>(ls_presentation_time_end s - ls_presentation_time_start s) * SAMPLE_RATE_HZ
             - ls_sample_count s * ls_presentation_time_timescale s\<bar>
      then invalid ''source lineage presentation duration must match canonical sample count''
      else Inr ())"

section \<open>Covering the timeline\<close>

type_synonym range = "int \<times> int"

definition part_range :: "part_descriptor \<Rightarrow> range" where
  "part_range p = (pd_sample_start p, pd_sample_start p + pd_sample_count p)"

definition gap_range :: "recording_gap \<Rightarrow> range" where
  "gap_range g = (gp_sample_start g, gp_sample_start g + gp_sample_count g)"

definition segment_range :: "lineage_segment \<Rightarrow> range" where
  "segment_range s = (ls_sample_start s, ls_sample_start s + ls_sample_count s)"

text \<open>The cursor after ranges that follow each other without a hole, if they do.\<close>

fun tile :: "int \<Rightarrow> range list \<Rightarrow> int option" where
  "tile cursor [] = Some cursor"
| "tile cursor ((start, end') # rest) = (if start \<noteq> cursor then None else tile end' rest)"

fun coalesce_ranges :: "range list \<Rightarrow> range list" where
  "coalesce_ranges [] = []"
| "coalesce_ranges [r] = [r]"
| "coalesce_ranges ((s1, e1) # (s2, e2) # rest) =
     (if s2 = e1 then coalesce_ranges ((s1, e2) # rest)
      else (s1, e1) # coalesce_ranges ((s2, e2) # rest))"

text \<open>The ranges still to be covered, the cursor within the first of them, the segments left.\<close>

fun cover_ranges :: "range list \<Rightarrow> int \<Rightarrow> range list \<Rightarrow> (recording_error, range list) result" where
  "cover_ranges ranges cursor [] = Inr ranges"
| "cover_ranges [] cursor ((start, end') # rest) =
     invalid ''source lineage exceeds uploaded audio coverage''"
| "cover_ranges ((s, e) # ranges) cursor ((start, end') # rest) =
     (if start \<noteq> cursor
      then invalid ''source lineage must be ordered and cover uploaded audio exactly once''
      else if e < end' then invalid ''source lineage cannot overlap declared gaps or audio ranges''
      else if end' = e
      then cover_ranges ranges (case ranges of [] \<Rightarrow> end' | (s', _) # _ \<Rightarrow> s') rest
      else cover_ranges ((s, e) # ranges) end' rest)"

definition validate_lineage_coverage :: "range list \<Rightarrow> range list \<Rightarrow> (recording_error, unit) result" where
  "validate_lineage_coverage parts lineage =
     (case coalesce_ranges (sort parts) of
        [] \<Rightarrow> if lineage \<noteq> [] then invalid ''source lineage cannot claim a track without uploaded audio''
              else Inr ()
      | (s, e) # ranges \<Rightarrow>
          if lineage = [] then invalid ''source lineage must cover every uploaded audio range''
          else bind_result (cover_ranges ((s, e) # ranges) s lineage) (\<lambda>left.
               if left \<noteq> [] then invalid ''source lineage must cover every uploaded audio range''
               else Inr ()))"

record track_manifest =
  tm_track_id :: uuid
  tm_kind :: track_kind
  tm_format :: pcm_format
  tm_total_sample_count :: int
  tm_parts :: "part_descriptor list"
  tm_gaps :: "recording_gap list"
  tm_source_lineage :: "lineage_segment list"
  tm_pcm_sha256 :: string
  tm_timeline_sha256 :: string
  tm_conversion_version :: string

fun chronological :: "part_descriptor list \<Rightarrow> bool" where
  "chronological (p # q # ps) \<longleftrightarrow>
     pd_sample_start p + pd_sample_count p \<le> pd_sample_start q \<and> chronological (q # ps)"
| "chronological _ = True"

definition manifest_fields_ok :: "track_manifest \<Rightarrow> bool" where
  "manifest_fields_ok m \<longleftrightarrow>
     format_ok (tm_format m) \<and> between 1 MAX_TRACK_SAMPLES (tm_total_sample_count m)
     \<and> int (length (tm_parts m)) \<le> MAX_PARTS \<and> int (length (tm_gaps m)) \<le> MAX_PARTS
     \<and> int (length (tm_source_lineage m)) \<le> MAX_PARTS \<and> sha256_shape (tm_pcm_sha256 m)
     \<and> sha256_shape (tm_timeline_sha256 m) \<and> conversion_version_shape (tm_conversion_version m)"

definition validate_track :: "track_manifest \<Rightarrow> (recording_error, unit) result" where
  "validate_track m =
     bind_result (validate_track_format (tm_kind m) (tm_format m)) (\<lambda>_.
     if map pd_sequence (tm_parts m) \<noteq> map int [0..<length (tm_parts m)]
     then invalid ''part sequences must be contiguous and ordered from zero''
     else if \<not> chronological (tm_parts m)
     then invalid ''part ranges must be chronological in sequence order''
     else if \<not> list_all (\<lambda>p. pd_byte_length p =
          pd_sample_count p * pf_channel_count (tm_format m) * PCM_BYTES_PER_SAMPLE) (tm_parts m)
     then invalid ''part byte length does not match canonical PCM range''
     else
       case tile 0 (sort (map part_range (tm_parts m) @ map gap_range (tm_gaps m))) of
         None \<Rightarrow> invalid ''parts and explicit gaps must cover the timeline exactly once''
       | Some cursor \<Rightarrow>
           if cursor \<noteq> tm_total_sample_count m
           then invalid ''parts and explicit gaps must cover the complete track''
           else
             bind_result (validate_lineage_coverage (map part_range (tm_parts m))
                (map segment_range (tm_source_lineage m))) (\<lambda>_.
             if list_ex (\<lambda>s. ls_conversion_version s \<noteq> tm_conversion_version m) (tm_source_lineage m)
             then invalid ''source lineage conversion version must match the track conversion version''
             else Inr ()))"

definition validate_manifest :: "track_manifest \<Rightarrow> (recording_error, unit) result" where
  "validate_manifest m =
     bind_result (map_result validate_part_descriptor (tm_parts m)) (\<lambda>_.
     bind_result (map_result validate_gap (tm_gaps m)) (\<lambda>_.
     bind_result (map_result validate_segment (tm_source_lineage m)) (\<lambda>_.
     if \<not> manifest_fields_ok m then invalid ''field constraint'' else validate_track m)))"

record seal_command =
  sc_recording_id :: uuid
  sc_started_at :: datetime
  sc_ended_at :: datetime
  sc_coverage_status :: coverage_status
  sc_tracks :: "track_manifest list"

definition validate_seal :: "seal_command \<Rightarrow> (recording_error, seal_command) result" where
  "validate_seal c =
     bind_result (map_result validate_manifest (sc_tracks c)) (\<lambda>_.
     if length (sc_tracks c) \<noteq> 2 then invalid ''field constraint''
     else
     bind_result (validate_track_pair (map (\<lambda>m. (tm_kind m, tm_track_id m)) (sc_tracks c))) (\<lambda>_.
     bind_result (require_utc (sc_started_at c)) (\<lambda>_.
     bind_result (require_utc (sc_ended_at c)) (\<lambda>_.
     if instant_of (sc_ended_at c) < instant_of (sc_started_at c)
     then invalid ''ended_at cannot precede started_at''
     else if td_seconds MAX_RECORDING_SECONDS < instant_of (sc_ended_at c) - instant_of (sc_started_at c)
     then invalid ''recording elapsed time exceeds the recording limit''
     else if sc_coverage_status c \<noteq>
          (if list_ex (\<lambda>m. tm_gaps m \<noteq> []) (sc_tracks c) then Stored_with_gaps else Complete)
     then invalid ''coverage status must disclose explicit gaps''
     else Inr c))))"

record part_upload =
  pu_recording_id :: uuid
  pu_track_id :: uuid
  pu_track_kind :: track_kind
  pu_format :: pcm_format
  pu_sequence :: int
  pu_sample_start :: int
  pu_sample_count :: int
  pu_byte_length :: int
  pu_ciphertext_byte_length :: int
  pu_plaintext_sha256 :: string
  pu_ciphertext_sha256 :: string
  pu_nonce_base64url :: string
  pu_encryption_version :: string

definition ENCRYPTION_VERSION :: string where
  "ENCRYPTION_VERSION = ''aes-256-gcm-hkdf-sha256-v1''"

definition validate_upload :: "part_upload \<Rightarrow> (recording_error, part_upload) result" where
  "validate_upload u =
     (if \<not> format_ok (pu_format u)
         \<or> \<not> part_fields_ok (pu_sequence u) (pu_sample_start u) (pu_sample_count u) (pu_byte_length u)
              (pu_plaintext_sha256 u)
         \<or> \<not> between (AES_GCM_TAG_BYTES + 1)
              (MAX_PART_SAMPLES * 2 * PCM_BYTES_PER_SAMPLE + AES_GCM_TAG_BYTES) (pu_ciphertext_byte_length u)
         \<or> \<not> sha256_shape (pu_ciphertext_sha256 u) \<or> \<not> base64url_shape 16 (pu_nonce_base64url u)
         \<or> pu_encryption_version u \<noteq> ENCRYPTION_VERSION
      then invalid ''field constraint''
      else
      bind_result (validate_track_format (pu_track_kind u) (pu_format u)) (\<lambda>_.
      if MAX_TRACK_SAMPLES < pu_sample_start u + pu_sample_count u
      then invalid ''part range exceeds the recording limit''
      else if pu_byte_length u \<noteq> pu_sample_count u * pf_channel_count (pu_format u) * PCM_BYTES_PER_SAMPLE
      then invalid ''part byte length does not match canonical PCM range''
      else if pu_ciphertext_byte_length u \<noteq> pu_byte_length u + AES_GCM_TAG_BYTES
      then invalid ''ciphertext must contain canonical PCM plus one GCM tag''
      else Inr u))"

text \<open>\<^verbatim>\<open>^[A-Za-z0-9_-]{42}[AEIMQUYcgkosw048]$\<close>: 32 bytes without padding bits.\<close>

definition part_key_shape :: "string \<Rightarrow> bool" where
  "part_key_shape s \<longleftrightarrow> base64url_shape 43 s \<and> last s \<in> set ''AEIMQUYcgkosw048''"

section \<open>Responses\<close>

datatype recording_state =
    State_reserved | State_uploading | State_sealing | State_stored | State_stored_with_gaps
  | State_needs_attention

record create_response =
  cr_recording_id :: uuid
  cr_state :: recording_state
  cr_replayed :: bool

record part_receipt =
  rp_recording_id :: uuid
  rp_track_id :: uuid
  rp_sequence :: int
  rp_sample_start :: int
  rp_sample_count :: int
  rp_plaintext_sha256 :: string
  rp_high_water_sample :: int
  rp_replayed :: bool

definition validate_receipt :: "part_receipt \<Rightarrow> (recording_error, part_receipt) result" where
  "validate_receipt r =
     (if between 0 (MAX_PARTS - 1) (rp_sequence r) \<and> between 0 (MAX_TRACK_SAMPLES - 1) (rp_sample_start r)
         \<and> between 1 MAX_PART_SAMPLES (rp_sample_count r) \<and> sha256_shape (rp_plaintext_sha256 r)
         \<and> between 0 MAX_TRACK_SAMPLES (rp_high_water_sample r)
      then Inr r else invalid ''field constraint'')"

record track_status =
  ts_track_id :: uuid
  ts_kind :: track_kind
  ts_high_water_sample :: int
  ts_stored_part_count :: int
  ts_gap_count :: int
  ts_manifest_sha256 :: "string option"

definition track_status_ok :: "track_status \<Rightarrow> bool" where
  "track_status_ok t \<longleftrightarrow>
     between 0 MAX_TRACK_SAMPLES (ts_high_water_sample t) \<and> between 0 MAX_PARTS (ts_stored_part_count t)
     \<and> between 0 MAX_PARTS (ts_gap_count t) \<and> null_or sha256_shape (ts_manifest_sha256 t)"

record status_response =
  sr_recording_id :: uuid
  sr_state :: recording_state
  sr_coverage_status :: "coverage_status option"
  sr_tracks :: "track_status list"
  sr_audio_created_on_server :: bool
  sr_transcript_lineage_accepted :: bool
  sr_activity_id :: "int option"
  sr_interview_id :: "int option"
  sr_english_class_id :: "int option"
  sr_started_at :: instant

definition expected_coverage :: "recording_state \<Rightarrow> coverage_status" where
  "expected_coverage st = (if st = State_stored then Complete else Stored_with_gaps)"

definition validate_status :: "status_response \<Rightarrow> (recording_error, status_response) result" where
  "validate_status r =
     (if \<not> list_all track_status_ok (sr_tracks r) \<or> length (sr_tracks r) \<noteq> 2
         \<or> \<not> positive_or_none (sr_activity_id r) \<or> \<not> positive_or_none (sr_interview_id r)
         \<or> \<not> positive_or_none (sr_english_class_id r) then invalid ''field constraint''
      else
      bind_result (validate_track_pair (map (\<lambda>t. (ts_kind t, ts_track_id t)) (sr_tracks r))) (\<lambda>_.
      if sr_transcript_lineage_accepted r \<and> \<not> sr_audio_created_on_server r
      then invalid ''transcript lineage cannot precede durable server audio''
      else if sr_state r \<in> {State_reserved, State_uploading, State_sealing, State_needs_attention}
      then
        (if sr_coverage_status r \<noteq> None \<or> sr_audio_created_on_server r
            \<or> sr_transcript_lineage_accepted r
         then invalid ''nonterminal recording status cannot claim durable audio coverage''
         else Inr r)
      else if sr_coverage_status r \<noteq> Some (expected_coverage (sr_state r))
              \<or> \<not> sr_audio_created_on_server r
      then invalid ''stored recording status must agree with durable audio coverage''
      else Inr r))"

record seal_response =
  se_recording_id :: uuid
  se_state :: recording_state
  se_coverage_status :: coverage_status
  se_track_manifest_sha256 :: "string \<times> string"
  se_audio_created_on_server :: bool
  se_transcript_lineage_accepted :: bool
  se_replayed :: bool

definition validate_seal_response :: "seal_response \<Rightarrow> (recording_error, seal_response) result" where
  "validate_seal_response r =
     (if se_state r \<notin> {State_stored, State_stored_with_gaps}
         \<or> \<not> sha256_shape (fst (se_track_manifest_sha256 r))
         \<or> \<not> sha256_shape (snd (se_track_manifest_sha256 r))
         \<or> \<not> se_audio_created_on_server r \<or> se_transcript_lineage_accepted r
      then invalid ''field constraint''
      else if se_coverage_status r \<noteq> expected_coverage (se_state r)
      then invalid ''seal response state must agree with coverage status''
      else Inr r)"

section \<open>Canonical bytes\<close>

definition MANIFEST_DOMAIN :: string where
  "MANIFEST_DOMAIN = ''tamforge.recording.manifest.v1'' @ [CHR 0x00]"
definition PART_AAD_DOMAIN :: string where
  "PART_AAD_DOMAIN = ''tamforge.recording.part-aad.v1'' @ [CHR 0x00]"
definition TIMELINE_DOMAIN :: string where
  "TIMELINE_DOMAIN = ''tamforge.recording.timeline.v1'' @ [CHR 0x00]"

text \<open>\<^verbatim>\<open>_canonical_value\<close>: JSON without floating-point numbers.\<close>

fun canonical_value :: "json \<Rightarrow> (recording_error, json) result"
and canonical_elems :: "json list \<Rightarrow> (recording_error, json list) result"
and canonical_members :: "(string \<times> json) list \<Rightarrow> (recording_error, (string \<times> json) list) result" where
  "canonical_value (JFloat s) =
     Inl (Recording_type_error ''canonical recording JSON forbids floating-point values'')"
| "canonical_value (JArr js) = bind_result (canonical_elems js) (\<lambda>js'. Inr (JArr js'))"
| "canonical_value (JObj kjs) = bind_result (canonical_members kjs) (\<lambda>kjs'. Inr (JObj kjs'))"
| "canonical_value j = Inr j"
| "canonical_elems [] = Inr []"
| "canonical_elems (j # js) =
     bind_result (canonical_value j) (\<lambda>j'. bind_result (canonical_elems js) (\<lambda>js'. Inr (j' # js')))"
| "canonical_members [] = Inr []"
| "canonical_members ((k, j) # kjs) =
     bind_result (canonical_value j) (\<lambda>j'.
     bind_result (canonical_members kjs) (\<lambda>kjs'. Inr ((k, j') # kjs')))"

definition canonical_json_bytes :: "json \<Rightarrow> (recording_error, string) result" where
  "canonical_json_bytes j = bind_result (canonical_value j) (\<lambda>j'. Inr (dumps True j'))"

text \<open>The models as JSON; how pydantic writes a datetime (\<open>iso_text\<close>) is an argument.\<close>

definition format_json :: "pcm_format \<Rightarrow> json" where
  "format_json f = JObj
     [(''sample_encoding'', JStr (pf_sample_encoding f)), (''sample_rate_hz'', JInt (pf_sample_rate_hz f)),
      (''channel_count'', JInt (pf_channel_count f)), (''interleaved'', JBool (pf_interleaved f))]"

definition part_json :: "part_descriptor \<Rightarrow> json" where
  "part_json p = JObj
     [(''sequence'', JInt (pd_sequence p)), (''sample_start'', JInt (pd_sample_start p)),
      (''sample_count'', JInt (pd_sample_count p)), (''byte_length'', JInt (pd_byte_length p)),
      (''plaintext_sha256'', JStr (pd_plaintext_sha256 p))]"

definition gap_json :: "recording_gap \<Rightarrow> json" where
  "gap_json g = JObj
     [(''sample_start'', JInt (gp_sample_start g)), (''sample_count'', JInt (gp_sample_count g)),
      (''reason'', JStr (reason_text (gp_reason g)))]"

definition segment_json :: "lineage_segment \<Rightarrow> json" where
  "segment_json s = JObj
     [(''sample_start'', JInt (ls_sample_start s)), (''sample_count'', JInt (ls_sample_count s)),
      (''source_sample_rate_hz'', JInt (ls_source_sample_rate_hz s)),
      (''source_channel_count'', JInt (ls_source_channel_count s)),
      (''device_id'', JStr (ls_device_id s)), (''route'', JStr (ls_route s)),
      (''presentation_time_start'', JInt (ls_presentation_time_start s)),
      (''presentation_time_end'', JInt (ls_presentation_time_end s)),
      (''presentation_time_timescale'', JInt (ls_presentation_time_timescale s)),
      (''conversion_version'', JStr (ls_conversion_version s))]"

definition timeline_members :: "track_manifest \<Rightarrow> (string \<times> json) list" where
  "timeline_members m =
     [(''track_id'', JStr (tm_track_id m)), (''kind'', JStr (kind_value (tm_kind m))),
      (''format'', format_json (tm_format m)), (''total_sample_count'', JInt (tm_total_sample_count m)),
      (''parts'', JArr (map part_json (tm_parts m))), (''gaps'', JArr (map gap_json (tm_gaps m))),
      (''source_lineage'', JArr (map segment_json (tm_source_lineage m))),
      (''conversion_version'', JStr (tm_conversion_version m))]"

definition manifest_json :: "track_manifest \<Rightarrow> json" where
  "manifest_json m = JObj (timeline_members m @
     [(''pcm_sha256'', JStr (tm_pcm_sha256 m)), (''timeline_sha256'', JStr (tm_timeline_sha256 m))])"

definition seal_json :: "(datetime \<Rightarrow> string) \<Rightarrow> seal_command \<Rightarrow> json" where
  "seal_json iso_text c = JObj
     [(''schema_version'', JInt 1), (''recording_id'', JStr (sc_recording_id c)),
      (''started_at'', JStr (iso_text (sc_started_at c))), (''ended_at'', JStr (iso_text (sc_ended_at c))),
      (''coverage_status'', JStr (coverage_value (sc_coverage_status c))),
      (''tracks'', JArr (map manifest_json (sc_tracks c)))]"

definition opt_int :: "int option \<Rightarrow> json" where
  "opt_int v = (case v of None \<Rightarrow> JNull | Some i \<Rightarrow> JInt i)"

definition create_json :: "(datetime \<Rightarrow> string) \<Rightarrow> create_command \<Rightarrow> json" where
  "create_json iso_text c = JObj
     [(''schema_version'', JInt 1), (''recording_id'', JStr (cc_recording_id c)),
      (''started_at'', JStr (iso_text (cc_started_at c))),
      (''tracks'', JArr (map (\<lambda>d. JObj [(''track_id'', JStr (dl_track_id d)),
         (''kind'', JStr (kind_value (dl_kind d))), (''format'', format_json (dl_format d)),
         (''conversion_version'', JStr (dl_conversion_version d))]) (cc_tracks c))),
      (''activity_id'', opt_int (cc_activity_id c)), (''interview_id'', opt_int (cc_interview_id c)),
      (''english_class_id'', opt_int (cc_english_class_id c))]"

definition aad_members :: "part_upload \<Rightarrow> (string \<times> json) list" where
  "aad_members u =
     [(''schema_version'', JInt 1), (''recording_id'', JStr (pu_recording_id u)),
      (''track_id'', JStr (pu_track_id u)), (''track_kind'', JStr (kind_value (pu_track_kind u))),
      (''format'', format_json (pu_format u)), (''sequence'', JInt (pu_sequence u)),
      (''sample_start'', JInt (pu_sample_start u)), (''sample_count'', JInt (pu_sample_count u)),
      (''byte_length'', JInt (pu_byte_length u)),
      (''ciphertext_byte_length'', JInt (pu_ciphertext_byte_length u)),
      (''plaintext_sha256'', JStr (pu_plaintext_sha256 u)),
      (''nonce_base64url'', JStr (pu_nonce_base64url u)),
      (''encryption_version'', JStr (pu_encryption_version u))]"

definition upload_json :: "part_upload \<Rightarrow> json" where
  "upload_json u = JObj (aad_members u @ [(''ciphertext_sha256'', JStr (pu_ciphertext_sha256 u))])"

definition recording_manifest_hash_input ::
    "(datetime \<Rightarrow> string) \<Rightarrow> seal_command \<Rightarrow> (recording_error, string) result" where
  "recording_manifest_hash_input iso_text c =
     bind_result (canonical_json_bytes (seal_json iso_text c)) (\<lambda>b. Inr (MANIFEST_DOMAIN @ b))"

definition recording_manifest_sha256 ::
    "(string \<Rightarrow> string) \<Rightarrow> (datetime \<Rightarrow> string) \<Rightarrow> seal_command \<Rightarrow> (recording_error, string) result" where
  "recording_manifest_sha256 sha iso_text c =
     bind_result (recording_manifest_hash_input iso_text c) (\<lambda>b. Inr (sha b))"

definition part_aad_bytes :: "part_upload \<Rightarrow> (recording_error, string) result" where
  "part_aad_bytes u =
     bind_result (canonical_json_bytes (JObj (aad_members u))) (\<lambda>b. Inr (PART_AAD_DOMAIN @ b))"

definition timeline_hash_input :: "track_manifest \<Rightarrow> (recording_error, string) result" where
  "timeline_hash_input m =
     bind_result (canonical_json_bytes (JObj (timeline_members m))) (\<lambda>b. Inr (TIMELINE_DOMAIN @ b))"

definition timeline_sha256 ::
    "(string \<Rightarrow> string) \<Rightarrow> track_manifest \<Rightarrow> (recording_error, string) result" where
  "timeline_sha256 sha m = bind_result (timeline_hash_input m) (\<lambda>b. Inr (sha b))"

section \<open>The contracts have canonical JSON\<close>

lemma canonical_elems_map:
  "(\<And>x. x \<in> set xs \<Longrightarrow> canonical_value (f x) = Inr (f x)) \<Longrightarrow> canonical_elems (map f xs) = Inr (map f xs)"
  by (induction xs) simp_all

lemma canonical_models [simp]:
  "canonical_value (format_json f) = Inr (format_json f)"
  "canonical_value (part_json p) = Inr (part_json p)"
  "canonical_value (gap_json g) = Inr (gap_json g)"
  "canonical_value (segment_json x) = Inr (segment_json x)"
  "canonical_members (timeline_members m) = Inr (timeline_members m)"
  "canonical_value (manifest_json m) = Inr (manifest_json m)"
  by (simp_all add: format_json_def part_json_def gap_json_def segment_json_def timeline_members_def
      manifest_json_def canonical_elems_map)

lemma canonical_manifest: "canonical_json_bytes (manifest_json m) = Inr (dumps True (manifest_json m))"
  by (simp add: canonical_json_bytes_def)

lemma timeline_sha256_ok:
  "timeline_sha256 sha m = Inr (sha (TIMELINE_DOMAIN @ dumps True (JObj (timeline_members m))))"
  by (simp add: timeline_sha256_def timeline_hash_input_def canonical_json_bytes_def)

section \<open>An accepted manifest covers its timeline\<close>

text \<open>How many of some ranges contain a sample.\<close>

definition hits :: "int \<Rightarrow> range list \<Rightarrow> nat" where
  "hits i rs = length (filter (\<lambda>(s, e). s \<le> i \<and> i < e) rs)"

lemma hits_simps [simp]:
  "hits i [] = 0" "hits i ((s, e) # rs) = (if s \<le> i \<and> i < e then 1 else 0) + hits i rs"
  "hits i (xs @ ys) = hits i xs + hits i ys"
  by (simp_all add: hits_def)

lemma hits_sort [simp]: "hits i (sort rs) = hits i rs"
  unfolding hits_def filter_sort by simp

definition proper :: "range \<Rightarrow> bool" where
  "proper r \<longleftrightarrow> fst r < snd r"

lemma tile_hits:
  "tile c rs = Some d \<Longrightarrow> list_all proper rs \<Longrightarrow>
     c \<le> d \<and> (\<forall>i. hits i rs = (if c \<le> i \<and> i < d then 1 else 0))"
proof (induction c rs rule: tile.induct)
  case (2 c s e rest)
  then have "e \<le> d" "\<forall>i. hits i rest = (if e \<le> i \<and> i < d then 1 else 0)" "s = c" "c < e"
    by (auto simp: proper_def split: if_splits)
  then show ?case by auto
qed simp

lemma hits_coalesce: "list_all proper rs \<Longrightarrow> hits i (coalesce_ranges rs) = hits i rs"
proof (induction rs rule: coalesce_ranges.induct)
  case (3 s1 e1 s2 e2 rest)
  show ?case
  proof (cases "s2 = e1")
    case True
    then have "hits i (coalesce_ranges ((s1, e2) # rest)) = hits i ((s1, e2) # rest)"
      using 3 by (auto simp: proper_def)
    with True 3(3) show ?thesis by (auto simp: proper_def)
  next
    case False
    with 3 show ?thesis by simp
  qed
qed simp_all

lemma proper_coalesce: "list_all proper rs \<Longrightarrow> list_all proper (coalesce_ranges rs)"
  by (induction rs rule: coalesce_ranges.induct) (auto simp: proper_def)

text \<open>What is left of the first range, when a cursor has moved into it.\<close>

fun rest_of :: "int \<Rightarrow> range list \<Rightarrow> range list" where
  "rest_of cursor [] = []"
| "rest_of cursor ((s, e) # rs) = (cursor, e) # rs"

lemma cover_hits:
  assumes "cover_ranges rs c segs = Inr left" "list_all proper segs" "list_all proper (rest_of c rs)"
    "left = []" "rs = [] \<longrightarrow> segs = []"
  shows "hits i segs = hits i (rest_of c rs)"
  using assms
proof (induction rs c segs rule: cover_ranges.induct)
  case (1 ranges cursor)
  then show ?case by simp
next
  case (2 cursor start end' rest)
  then show ?case by (simp add: invalid_def)
next
  case (3 s e ranges c start end' rest)
  from 3(3) have c: "start = c" "end' \<le> e"
    by (auto simp: invalid_def split: if_splits)
  show ?case
  proof (cases "end' = e")
    case True
    let ?n = "case ranges of [] \<Rightarrow> end' | (s', _) # _ \<Rightarrow> s'"
    have next_range: "rest_of ?n ranges = ranges" by (cases ranges) auto
    have "cover_ranges ranges ?n rest = Inr left"
      using 3(3) c by (simp add: True [symmetric])
    moreover have "ranges = [] \<longrightarrow> rest = []"
      using calculation by (cases rest) (auto simp: invalid_def)
    ultimately have "hits i rest = hits i (rest_of ?n ranges)"
      using 3(1) [OF _ _ True] 3(4-6) c next_range by simp
    then show ?thesis using True c next_range by simp
  next
    case False
    have "cover_ranges ((s, e) # ranges) end' rest = Inr left" using 3(3) c False by simp
    then have "hits i rest = hits i (rest_of end' ((s, e) # ranges))"
      using 3(2) [OF _ _ False] 3(4-6) c False by (simp add: proper_def)
    then show ?thesis using c False 3(4) by (auto simp: proper_def)
  qed
qed

lemma lineage_hits:
  assumes "validate_lineage_coverage parts lineage = Inr ()"
    "list_all proper parts" "list_all proper lineage"
  shows "hits i lineage = hits i parts"
proof -
  have p: "list_all proper (coalesce_ranges (sort parts))"
    using assms(2) by (intro proper_coalesce) (simp add: list_all_iff)
  have h: "hits i (coalesce_ranges (sort parts)) = hits i parts"
    using assms(2) by (subst hits_coalesce) (simp_all add: list_all_iff)
  show ?thesis
  proof (cases "coalesce_ranges (sort parts)")
    case Nil
    then show ?thesis using assms(1) h by (auto simp: validate_lineage_coverage_def invalid_def split: if_splits)
  next
    case (Cons r ranges)
    obtain s e where r: "r = (s, e)" by (cases r)
    have "cover_ranges ((s, e) # ranges) s lineage = Inr []"
      using assms(1) Cons r
      by (auto simp: validate_lineage_coverage_def invalid_def result_simps split: if_splits)
    from cover_hits [OF this assms(3)] p Cons r h show ?thesis by simp
  qed
qed

lemma map_result_ok: "map_result f xs = Inr ys \<Longrightarrow> x \<in> set xs \<Longrightarrow> is_ok (f x)"
  by (auto simp: map_result_Inr is_ok_iff list_all2_conv_all_nth in_set_conv_nth)

lemma part_proper: "is_ok (validate_part_descriptor p) \<Longrightarrow> proper (part_range p)"
  by (auto simp: validate_part_descriptor_def part_fields_ok_def between_def part_range_def proper_def
      invalid_def split: if_splits)

lemma gap_proper: "is_ok (validate_gap g) \<Longrightarrow> proper (gap_range g)"
  by (auto simp: validate_gap_def between_def gap_range_def proper_def invalid_def split: if_splits)

lemma segment_proper: "is_ok (validate_segment s) \<Longrightarrow> proper (segment_range s)"
  by (auto simp: validate_segment_def between_def segment_range_def proper_def invalid_def
      split: if_splits)

lemma validate_track_Inr:
  assumes "validate_track m = Inr ()"
  shows "tile 0 (sort (map part_range (tm_parts m) @ map gap_range (tm_gaps m)))
        = Some (tm_total_sample_count m)"
    and "validate_lineage_coverage (map part_range (tm_parts m))
        (map segment_range (tm_source_lineage m)) = Inr ()"
  using assms
  by (auto simp: validate_track_def invalid_def result_simps split: if_splits option.splits)

lemma manifest_covers:
  assumes "validate_manifest m = Inr ()"
  shows "hits i (map part_range (tm_parts m)) + hits i (map gap_range (tm_gaps m))
      = (if 0 \<le> i \<and> i < tm_total_sample_count m then 1 else 0)
    \<and> hits i (map segment_range (tm_source_lineage m)) = hits i (map part_range (tm_parts m))"
proof -
  let ?parts = "map part_range (tm_parts m)" and ?gaps = "map gap_range (tm_gaps m)"
  from assms have v: "validate_track m = Inr ()"
    and p: "list_all proper ?parts" and g: "list_all proper ?gaps"
    and s: "list_all proper (map segment_range (tm_source_lineage m))"
    by (auto simp: validate_manifest_def result_simps invalid_def list_all_iff
        dest: map_result_ok part_proper gap_proper segment_proper split: if_splits)
  have "list_all proper (sort (?parts @ ?gaps))" using p g by (auto simp: list_all_iff)
  from tile_hits [OF validate_track_Inr(1) [OF v] this]
  have "hits i ?parts + hits i ?gaps = (if 0 \<le> i \<and> i < tm_total_sample_count m then 1 else 0)"
    by (metis hits_sort hits_simps(3))
  with lineage_hits [OF validate_track_Inr(2) [OF v] p s] show ?thesis by simp
qed

text \<open>
  C27. An accepted track manifest accounts for every sample of its timeline exactly once: a sample
  between zero and the declared total lies in exactly one uploaded part or declared gap, no other
  sample lies in any, and a sample has a source lineage segment, exactly one, if and only if it
  lies in an uploaded part.
\<close>

theorem manifest_covers_every_sample_once:
  assumes "validate_manifest m = Inr ()"
  shows "hits i (map part_range (tm_parts m)) + hits i (map gap_range (tm_gaps m))
      = (if 0 \<le> i \<and> i < tm_total_sample_count m then 1 else 0)
    \<and> hits i (map segment_range (tm_source_lineage m)) = hits i (map part_range (tm_parts m))"
  by (rule manifest_covers [OF assms])

definition demo_digest :: string where "demo_digest = replicate 64 (CHR ''a'')"

definition demo_track :: "track_kind \<Rightarrow> uuid \<Rightarrow> track_manifest" where
  "demo_track k i =
     \<lparr>tm_track_id = i, tm_kind = k,
      tm_format = \<lparr>pf_sample_encoding = ''pcm_s16le'', pf_sample_rate_hz = 48000,
        pf_channel_count = expected_channels k, pf_interleaved = True\<rparr>,
      tm_total_sample_count = 5,
      tm_parts = [\<lparr>pd_sequence = 0, pd_sample_start = 1, pd_sample_count = 2,
        pd_byte_length = 4 * expected_channels k, pd_plaintext_sha256 = demo_digest\<rparr>],
      tm_gaps = [\<lparr>gp_sample_start = 0, gp_sample_count = 1, gp_reason = Route_change\<rparr>,
        \<lparr>gp_sample_start = 3, gp_sample_count = 2, gp_reason = Missing_audio\<rparr>],
      tm_source_lineage = [\<lparr>ls_sample_start = 1, ls_sample_count = 2,
        ls_source_sample_rate_hz = 44100, ls_source_channel_count = 1, ls_device_id = ''mic'',
        ls_route = ''usb'', ls_presentation_time_start = 10, ls_presentation_time_end = 12,
        ls_presentation_time_timescale = 48000, ls_conversion_version = ''v1''\<rparr>],
      tm_pcm_sha256 = demo_digest, tm_timeline_sha256 = demo_digest, tm_conversion_version = ''v1''\<rparr>"

lemma demo_track_valid: "validate_manifest (demo_track Microphone ''m'') = Inr ()"
  by code_simp

theorem manifest_covers_every_sample_once_witness:
  "validate_manifest (demo_track Microphone ''m'') = Inr ()
   \<and> hits 4 (map part_range (tm_parts (demo_track Microphone ''m'')))
     + hits 4 (map gap_range (tm_gaps (demo_track Microphone ''m''))) = 1
   \<and> hits 2 (map segment_range (tm_source_lineage (demo_track Microphone ''m''))) = 1"
  using manifest_covers_every_sample_once [OF demo_track_valid, of 4]
    manifest_covers_every_sample_once [OF demo_track_valid, of 2] demo_track_valid
  by (simp add: demo_track_def part_range_def gap_range_def)

end
