(* ===== verification/Recording_Rows.thy ===== *)
theory Recording_Rows
  imports Recording_Contract
begin

text \<open>
  The tables of recording ingest (\<^verbatim>\<open>recordings/models.py\<close>) and the repository that writes them
  (\<^verbatim>\<open>recordings/repository.py\<close>). A transaction takes the tables and returns the tables it
  commits, or the exception that rolls it back. The check, unique and foreign key constraints are
  enforced where the code flushes; checking every row there is checking the new and changed ones,
  because the others passed before. A digest column holds 32 bytes in the program and their
  hexadecimal text here. Left out: \<^verbatim>\<open>updated_at\<close>, the literal schema version, the size limits on
  the JSON of a stored response (which is kept as the response itself), and indexes. The surrogate
  keys of all tables come from one counter. The tables of other components are only read.
\<close>

section \<open>Tables\<close>

record recording_row =
  rc_id :: int
  rc_owner_id :: int
  rc_client_recording_id :: uuid
  rc_state :: recording_state
  rc_started_at :: instant
  rc_ended_at :: "instant option"
  rc_coverage_status :: "coverage_status option"
  rc_create_idempotency_key :: string
  rc_create_request_hash :: string
  rc_create_result :: create_response
  rc_seal_idempotency_key :: "string option"
  rc_seal_request_hash :: "string option"
  rc_seal_result :: "seal_response option"
  rc_audio_created_on_server :: bool
  rc_activity_instance_id :: "int option"
  rc_interview_id :: "int option"
  rc_english_class_id :: "int option"
  rc_transcript_lineage_accepted :: bool
  rc_created_at :: instant
  rc_sealed_at :: "instant option"

record track_row =
  tr_id :: int
  tr_owner_id :: int
  tr_recording_id :: int
  tr_client_track_id :: uuid
  tr_kind :: track_kind
  tr_format :: pcm_format
  tr_conversion_version :: string
  tr_state :: recording_state
  tr_high_water_sample :: int
  tr_stored_part_count :: int
  tr_stored_byte_length :: int
  tr_total_sample_count :: "int option"
  tr_pcm_sha256 :: "string option"
  tr_timeline_sha256 :: "string option"
  tr_manifest_object_key :: "string option"
  tr_manifest_sha256 :: "string option"
  tr_manifest_byte_length :: "int option"
  tr_created_at :: instant
  tr_sealed_at :: "instant option"

record part_row =
  pt_id :: int
  pt_owner_id :: int
  pt_recording_id :: int
  pt_track_id :: int
  pt_sequence :: int
  pt_sample_start :: int
  pt_sample_count :: int
  pt_byte_length :: int
  pt_ciphertext_byte_length :: int
  pt_plaintext_sha256 :: string
  pt_ciphertext_sha256 :: string
  pt_encryption_version :: string
  pt_idempotency_key :: string
  pt_request_hash :: string
  pt_object_key :: string
  pt_stored :: bool
  pt_result :: "part_receipt option"
  pt_created_at :: instant
  pt_stored_at :: "instant option"

record gap_row =
  ga_id :: int
  ga_owner_id :: int
  ga_recording_id :: int
  ga_track_id :: int
  ga_sample_start :: int
  ga_sample_count :: int
  ga_reason :: gap_reason
  ga_created_at :: instant

record recording_db =
  rdb_owners :: "int list"
  rdb_activities :: "(int \<times> int) list"
  rdb_interviews :: "(int \<times> int) list"
  rdb_classes :: "(int \<times> int) list"
  rdb_recordings :: "recording_row list"
  rdb_tracks :: "track_row list"
  rdb_parts :: "part_row list"
  rdb_gaps :: "gap_row list"
  rdb_next_id :: int

definition MAX_PART_BYTES :: int where "MAX_PART_BYTES = MAX_PART_SAMPLES * 2 * 2"
definition MAX_TRACK_BYTES :: int where "MAX_TRACK_BYTES = MAX_TRACK_SAMPLES * 2 * 2"
definition MAX_MANIFEST_BYTES :: int where "MAX_MANIFEST_BYTES = 1048576"

definition is_stored :: "recording_state \<Rightarrow> bool" where
  "is_stored st \<longleftrightarrow> st \<in> {State_stored, State_stored_with_gaps}"

definition object_key_safe :: "string \<Rightarrow> bool" where
  "object_key_safe k \<longleftrightarrow>
     between 1 1024 (int (utf8_size k)) \<and> hd k \<noteq> CHR ''/'' \<and> ''..'' \<notin> set (split_slash k)"

section \<open>Constraints\<close>

text \<open>
  A check constraint fails only when it is false: one that compares a null column is unknown and
  passes, so a stored recording without coverage status would be accepted.
\<close>

definition recording_checks :: "recording_row \<Rightarrow> bool" where
  "recording_checks r \<longleftrightarrow>
     (case rc_coverage_status r of
        None \<Rightarrow> True
      | Some c \<Rightarrow> is_stored (rc_state r) \<and> c = expected_coverage (rc_state r))
     \<and> rc_audio_created_on_server r = is_stored (rc_state r)
     \<and> (rc_transcript_lineage_accepted r \<longrightarrow> rc_audio_created_on_server r)
     \<and> sha256_shape (rc_create_request_hash r) \<and> idempotency_key_shape (rc_create_idempotency_key r)
     \<and> (if rc_seal_idempotency_key r = None
        then rc_seal_request_hash r = None \<and> rc_seal_result r = None
        else rc_seal_request_hash r \<noteq> None)
     \<and> null_or idempotency_key_shape (rc_seal_idempotency_key r)
     \<and> null_or sha256_shape (rc_seal_request_hash r)
     \<and> (is_stored (rc_state r) \<longleftrightarrow> rc_seal_result r \<noteq> None)
     \<and> null_or (\<lambda>t. rc_started_at r \<le> t) (rc_ended_at r)
     \<and> null_or (\<lambda>t. rc_created_at r \<le> t) (rc_sealed_at r)"

definition track_checks :: "track_row \<Rightarrow> bool" where
  "track_checks t \<longleftrightarrow>
     pf_sample_encoding (tr_format t) = ''pcm_s16le'' \<and> pf_sample_rate_hz (tr_format t) = 48000
     \<and> pf_interleaved (tr_format t) \<and> pf_channel_count (tr_format t) = expected_channels (tr_kind t)
     \<and> conversion_version_shape (tr_conversion_version t)
     \<and> between 0 MAX_TRACK_SAMPLES (tr_high_water_sample t)
     \<and> between 0 MAX_PARTS (tr_stored_part_count t)
     \<and> between 0 MAX_TRACK_BYTES (tr_stored_byte_length t)
     \<and> null_or (between (tr_high_water_sample t) MAX_TRACK_SAMPLES) (tr_total_sample_count t)
     \<and> (if is_stored (tr_state t)
        then tr_total_sample_count t \<noteq> None \<and> tr_pcm_sha256 t \<noteq> None \<and> tr_timeline_sha256 t \<noteq> None
          \<and> tr_manifest_object_key t \<noteq> None \<and> tr_manifest_sha256 t \<noteq> None
          \<and> tr_manifest_byte_length t \<noteq> None \<and> tr_sealed_at t \<noteq> None
        else tr_total_sample_count t = None \<and> tr_pcm_sha256 t = None \<and> tr_timeline_sha256 t = None
          \<and> tr_manifest_object_key t = None \<and> tr_manifest_sha256 t = None
          \<and> tr_manifest_byte_length t = None \<and> tr_sealed_at t = None)
     \<and> null_or sha256_shape (tr_pcm_sha256 t) \<and> null_or sha256_shape (tr_timeline_sha256 t)
     \<and> null_or sha256_shape (tr_manifest_sha256 t)
     \<and> null_or (between 1 MAX_MANIFEST_BYTES) (tr_manifest_byte_length t)
     \<and> null_or object_key_safe (tr_manifest_object_key t)
     \<and> null_or (\<lambda>s. tr_created_at t \<le> s) (tr_sealed_at t)"

definition part_checks :: "part_row \<Rightarrow> bool" where
  "part_checks p \<longleftrightarrow>
     between 0 (MAX_PARTS - 1) (pt_sequence p) \<and> between 0 (MAX_TRACK_SAMPLES - 1) (pt_sample_start p)
     \<and> between 1 MAX_PART_SAMPLES (pt_sample_count p)
     \<and> pt_sample_start p + pt_sample_count p \<le> MAX_TRACK_SAMPLES
     \<and> between 1 MAX_PART_BYTES (pt_byte_length p)
     \<and> pt_ciphertext_byte_length p = pt_byte_length p + 16
     \<and> sha256_shape (pt_plaintext_sha256 p) \<and> sha256_shape (pt_ciphertext_sha256 p)
     \<and> sha256_shape (pt_request_hash p) \<and> idempotency_key_shape (pt_idempotency_key p)
     \<and> pt_encryption_version p = ENCRYPTION_VERSION \<and> object_key_safe (pt_object_key p)
     \<and> (pt_stored p \<longleftrightarrow> pt_stored_at p \<noteq> None) \<and> (pt_stored p \<longleftrightarrow> pt_result p \<noteq> None)
     \<and> null_or (\<lambda>t. pt_created_at p \<le> t) (pt_stored_at p)"

definition gap_checks :: "gap_row \<Rightarrow> bool" where
  "gap_checks g \<longleftrightarrow>
     between 0 (MAX_TRACK_SAMPLES - 1) (ga_sample_start g)
     \<and> between 1 MAX_TRACK_SAMPLES (ga_sample_count g)
     \<and> ga_sample_start g + ga_sample_count g \<le> MAX_TRACK_SAMPLES"

definition recording_keys_ok :: "recording_db \<Rightarrow> bool" where
  "recording_keys_ok db \<longleftrightarrow>
     distinct (map (\<lambda>r. (rc_owner_id r, rc_client_recording_id r)) (rdb_recordings db))
     \<and> distinct (map (\<lambda>r. (rc_owner_id r, rc_create_idempotency_key r)) (rdb_recordings db))
     \<and> list_all (\<lambda>r. rc_owner_id r \<in> set (rdb_owners db)) (rdb_recordings db)"

definition track_keys_ok :: "recording_db \<Rightarrow> bool" where
  "track_keys_ok db \<longleftrightarrow>
     distinct (map (\<lambda>t. (tr_owner_id t, tr_recording_id t, tr_client_track_id t)) (rdb_tracks db))
     \<and> distinct (map (\<lambda>t. (tr_owner_id t, tr_recording_id t, tr_kind t)) (rdb_tracks db))
     \<and> list_all (\<lambda>t. (tr_owner_id t, tr_recording_id t)
          \<in> set (map (\<lambda>r. (rc_owner_id r, rc_id r)) (rdb_recordings db))) (rdb_tracks db)"

definition part_track :: "part_row \<Rightarrow> int \<times> int \<times> int" where
  "part_track p = (pt_owner_id p, pt_recording_id p, pt_track_id p)"

definition gap_track :: "gap_row \<Rightarrow> int \<times> int \<times> int" where
  "gap_track g = (ga_owner_id g, ga_recording_id g, ga_track_id g)"

definition track_ref :: "track_row \<Rightarrow> int \<times> int \<times> int" where
  "track_ref t = (tr_owner_id t, tr_recording_id t, tr_id t)"

definition part_keys_ok :: "recording_db \<Rightarrow> bool" where
  "part_keys_ok db \<longleftrightarrow>
     distinct (map (\<lambda>p. (part_track p, pt_idempotency_key p)) (rdb_parts db))
     \<and> distinct (map (\<lambda>p. (part_track p, pt_sequence p)) (rdb_parts db))
     \<and> distinct (map (\<lambda>p. (part_track p, pt_sample_start p)) (rdb_parts db))
     \<and> list_all (\<lambda>p. part_track p \<in> set (map track_ref (rdb_tracks db))) (rdb_parts db)"

definition gap_keys_ok :: "recording_db \<Rightarrow> bool" where
  "gap_keys_ok db \<longleftrightarrow>
     distinct (map (\<lambda>g. (gap_track g, ga_sample_start g)) (rdb_gaps db))
     \<and> list_all (\<lambda>g. gap_track g \<in> set (map track_ref (rdb_tracks db))) (rdb_gaps db)"

definition constraints_ok :: "recording_db \<Rightarrow> bool" where
  "constraints_ok db \<longleftrightarrow>
     list_all recording_checks (rdb_recordings db) \<and> list_all track_checks (rdb_tracks db)
     \<and> list_all part_checks (rdb_parts db) \<and> list_all gap_checks (rdb_gaps db)
     \<and> recording_keys_ok db \<and> track_keys_ok db \<and> part_keys_ok db \<and> gap_keys_ok db"

definition flush :: "recording_db \<Rightarrow> (recording_error, recording_db) result" where
  "flush db = (if constraints_ok db then Inr db else Inl (Recording_sql_error ''constraint violated''))"

text \<open>\<^verbatim>\<open>_unavailable_on_database_error\<close>\<close>

fun unavailable_on_database_error :: "(recording_error, 'a) result \<Rightarrow> (recording_error, 'a) result" where
  "unavailable_on_database_error (Inl (Recording_sql_error m)) =
     Inl (RecordingUnavailable ''recording storage is unavailable'')"
| "unavailable_on_database_error r = r"

text \<open>A changed row takes the place of the one with its id.\<close>

definition replace_row :: "('r \<Rightarrow> int) \<Rightarrow> 'r \<Rightarrow> 'r list \<Rightarrow> 'r list" where
  "replace_row key r rows = map (\<lambda>x. if key x = key r then r else x) rows"

definition set_recording :: "recording_row \<Rightarrow> recording_db \<Rightarrow> recording_db" where
  "set_recording r db = db\<lparr>rdb_recordings := replace_row rc_id r (rdb_recordings db)\<rparr>"

definition set_track :: "track_row \<Rightarrow> recording_db \<Rightarrow> recording_db" where
  "set_track t db = db\<lparr>rdb_tracks := replace_row tr_id t (rdb_tracks db)\<rparr>"

definition set_part :: "part_row \<Rightarrow> recording_db \<Rightarrow> recording_db" where
  "set_part p db = db\<lparr>rdb_parts := replace_row pt_id p (rdb_parts db)\<rparr>"

lemma set_row_simps [simp]:
  "rdb_recordings (set_recording r db) = replace_row rc_id r (rdb_recordings db)"
  "rdb_tracks (set_recording r db) = rdb_tracks db" "rdb_parts (set_recording r db) = rdb_parts db"
  "rdb_gaps (set_recording r db) = rdb_gaps db" "rdb_next_id (set_recording r db) = rdb_next_id db"
  "rdb_recordings (set_track t db) = rdb_recordings db"
  "rdb_tracks (set_track t db) = replace_row tr_id t (rdb_tracks db)"
  "rdb_parts (set_track t db) = rdb_parts db" "rdb_gaps (set_track t db) = rdb_gaps db"
  "rdb_next_id (set_track t db) = rdb_next_id db"
  "rdb_recordings (set_part p db) = rdb_recordings db" "rdb_tracks (set_part p db) = rdb_tracks db"
  "rdb_parts (set_part p db) = replace_row pt_id p (rdb_parts db)"
  "rdb_gaps (set_part p db) = rdb_gaps db" "rdb_next_id (set_part p db) = rdb_next_id db"
  by (simp_all add: set_recording_def set_track_def set_part_def)

lemma map_replace_row:
  "(\<And>x. x \<in> set rows \<Longrightarrow> key x = key r \<Longrightarrow> f x = f r) \<Longrightarrow> map f (replace_row key r rows) = map f rows"
  by (auto simp: replace_row_def)

lemma mem_replace_row:
  "set (replace_row key r rows) =
     {x \<in> set rows. key x \<noteq> key r} \<union> (if key r \<in> key ` set rows then {r} else {})"
  by (auto simp: replace_row_def image_iff)

lemma length_replace_row [simp]: "length (replace_row key r rows) = length rows"
  by (simp add: replace_row_def)

lemma filter_replace_row:
  assumes "\<And>x. x \<in> set rows \<Longrightarrow> key x = key r \<Longrightarrow> \<not> P x" "\<not> P r"
  shows "filter P (replace_row key r rows) = filter P rows"
  using assms by (induction rows) (auto simp: replace_row_def)

section \<open>Locks and lookups\<close>

definition lock_recording_owner :: "recording_db \<Rightarrow> int \<Rightarrow> (recording_error, unit) result" where
  "lock_recording_owner db owner_id =
     ensure (owner_id \<in> set (rdb_owners db)) (RecordingNotFound ''recording owner was not found'')"

definition locked_recording ::
    "recording_db \<Rightarrow> int \<Rightarrow> uuid \<Rightarrow> (recording_error, recording_row) result" where
  "locked_recording db owner_id recording_id =
     (case find (\<lambda>r. rc_owner_id r = owner_id \<and> rc_client_recording_id r = recording_id)
        (rdb_recordings db) of
        None \<Rightarrow> Inl (RecordingNotFound ''recording was not found'')
      | Some r \<Rightarrow> Inr r)"

definition locked_track ::
    "recording_db \<Rightarrow> int \<Rightarrow> uuid \<Rightarrow> uuid \<Rightarrow> (recording_error, recording_row \<times> track_row) result" where
  "locked_track db owner_id recording_id track_id =
     bind_result (locked_recording db owner_id recording_id) (\<lambda>r.
     case find (\<lambda>t. tr_owner_id t = owner_id \<and> tr_recording_id t = rc_id r
         \<and> tr_client_track_id t = track_id) (rdb_tracks db) of
       None \<Rightarrow> Inl (RecordingNotFound ''recording track was not found'')
     | Some t \<Rightarrow> Inr (r, t))"

definition tracks_of :: "recording_db \<Rightarrow> int \<Rightarrow> int \<Rightarrow> track_row list" where
  "tracks_of db owner_id rid =
     sort_key (\<lambda>t. (kind_value (tr_kind t), tr_id t))
       (filter (\<lambda>t. tr_owner_id t = owner_id \<and> tr_recording_id t = rid) (rdb_tracks db))"

definition parts_of_track :: "recording_db \<Rightarrow> int \<times> int \<times> int \<Rightarrow> part_row list" where
  "parts_of_track db ref = filter (\<lambda>p. part_track p = ref) (rdb_parts db)"

end
