(* ===== verification/Recording_Repository.thy ===== *)
theory Recording_Repository
  imports Recording_Rows
begin

text \<open>
  The transactions of \<^verbatim>\<open>recordings/repository.py\<close>. The clock readings of one transaction are
  \<open>clock 0\<close>, \<open>clock 1\<close> and so on, in the order the code takes them.
\<close>

section \<open>Creating a recording\<close>

definition existing_recording ::
    "recording_db \<Rightarrow> int \<Rightarrow> uuid \<Rightarrow> string \<Rightarrow> recording_row option" where
  "existing_recording db owner_id recording_id key =
     find (\<lambda>r. rc_owner_id r = owner_id
         \<and> (rc_client_recording_id r = recording_id \<or> rc_create_idempotency_key r = key))
       (rdb_recordings db)"

definition link_exists ::
    "(int \<times> int) list \<Rightarrow> int \<Rightarrow> int option \<Rightarrow> string \<Rightarrow> (recording_error, unit) result" where
  "link_exists rows owner_id link message =
     (case link of
        None \<Rightarrow> Inr ()
      | Some i \<Rightarrow> ensure ((owner_id, i) \<in> set rows) (RecordingInvalidRequest message))"

definition new_recording ::
    "instant \<Rightarrow> int \<Rightarrow> int \<Rightarrow> create_command \<Rightarrow> string \<Rightarrow> string \<Rightarrow> recording_row" where
  "new_recording now i owner_id c key hash =
     \<lparr>rc_id = i, rc_owner_id = owner_id, rc_client_recording_id = cc_recording_id c,
      rc_state = State_reserved, rc_started_at = instant_of (cc_started_at c), rc_ended_at = None,
      rc_coverage_status = None, rc_create_idempotency_key = key, rc_create_request_hash = hash,
      rc_create_result = \<lparr>cr_recording_id = cc_recording_id c, cr_state = State_reserved,
        cr_replayed = False\<rparr>,
      rc_seal_idempotency_key = None, rc_seal_request_hash = None, rc_seal_result = None,
      rc_audio_created_on_server = False, rc_activity_instance_id = cc_activity_id c,
      rc_interview_id = cc_interview_id c, rc_english_class_id = cc_english_class_id c,
      rc_transcript_lineage_accepted = False, rc_created_at = now, rc_sealed_at = None\<rparr>"

definition new_track :: "instant \<Rightarrow> int \<Rightarrow> int \<Rightarrow> int \<Rightarrow> track_declaration \<Rightarrow> track_row" where
  "new_track now i owner_id rid d =
     \<lparr>tr_id = i, tr_owner_id = owner_id, tr_recording_id = rid, tr_client_track_id = dl_track_id d,
      tr_kind = dl_kind d, tr_format = dl_format d, tr_conversion_version = dl_conversion_version d,
      tr_state = State_reserved, tr_high_water_sample = 0, tr_stored_part_count = 0,
      tr_stored_byte_length = 0, tr_total_sample_count = None, tr_pcm_sha256 = None,
      tr_timeline_sha256 = None, tr_manifest_object_key = None, tr_manifest_sha256 = None,
      tr_manifest_byte_length = None, tr_created_at = now, tr_sealed_at = None\<rparr>"

definition add_tracks ::
    "(nat \<Rightarrow> instant) \<Rightarrow> int \<Rightarrow> int \<Rightarrow> track_declaration list \<Rightarrow> recording_db \<Rightarrow> recording_db" where
  "add_tracks clock owner_id rid ds db =
     db\<lparr>rdb_tracks := rdb_tracks db @
          map (\<lambda>(k, d). new_track (clock (Suc k)) (rdb_next_id db + int k) owner_id rid d)
            (enumerate 0 ds),
        rdb_next_id := rdb_next_id db + int (length ds)\<rparr>"

definition repo_create ::
    "(nat \<Rightarrow> instant) \<Rightarrow> int \<Rightarrow> create_command \<Rightarrow> string \<Rightarrow> string \<Rightarrow> recording_db
      \<Rightarrow> (recording_error, recording_db \<times> create_response) result" where
  "repo_create clock owner_id c key hash db =
     unavailable_on_database_error (
     bind_result (lock_recording_owner db owner_id) (\<lambda>_.
     case existing_recording db owner_id (cc_recording_id c) key of
       Some r \<Rightarrow>
         if rc_client_recording_id r \<noteq> cc_recording_id c \<or> rc_create_idempotency_key r \<noteq> key
            \<or> rc_create_request_hash r \<noteq> hash
         then Inl (RecordingConflict ''recording create identity was reused'')
         else Inr (db, (rc_create_result r)\<lparr>cr_replayed := True\<rparr>)
     | None \<Rightarrow>
         bind_result (link_exists (rdb_activities db) owner_id (cc_activity_id c)
            ''recording activity was not found'') (\<lambda>_.
         bind_result (link_exists (rdb_interviews db) owner_id (cc_interview_id c)
            ''recording interview was not found'') (\<lambda>_.
         bind_result (link_exists (rdb_classes db) owner_id (cc_english_class_id c)
            ''recording class was not found'') (\<lambda>_.
         let r = new_recording (clock 0) (rdb_next_id db) owner_id c key hash in
         bind_result (flush (db\<lparr>rdb_recordings := rdb_recordings db @ [r],
            rdb_next_id := rdb_next_id db + 1\<rparr>)) (\<lambda>db1.
         bind_result (flush (add_tracks clock owner_id (rc_id r) (cc_tracks c) db1)) (\<lambda>db2.
         Inr (db2, rc_create_result r))))))))"

section \<open>Parts\<close>

definition same_format :: "track_row \<Rightarrow> part_upload \<Rightarrow> bool" where
  "same_format t m \<longleftrightarrow> tr_kind t = pu_track_kind m \<and> tr_format t = pu_format m"

definition same_part :: "part_row \<Rightarrow> part_upload \<Rightarrow> string \<Rightarrow> string \<Rightarrow> string \<Rightarrow> bool" where
  "same_part p m object_key key hash \<longleftrightarrow>
     pt_sequence p = pu_sequence m \<and> pt_sample_start p = pu_sample_start m
     \<and> pt_sample_count p = pu_sample_count m \<and> pt_byte_length p = pu_byte_length m
     \<and> pt_ciphertext_byte_length p = pu_ciphertext_byte_length m
     \<and> pt_plaintext_sha256 p = pu_plaintext_sha256 m
     \<and> pt_ciphertext_sha256 p = pu_ciphertext_sha256 m
     \<and> pt_object_key p = object_key \<and> pt_idempotency_key p = key \<and> pt_request_hash p = hash"

record part_reservation =
  rs_recording_id :: uuid
  rs_track_id :: uuid
  rs_sequence :: int
  rs_sample_start :: int
  rs_sample_count :: int
  rs_byte_length :: int
  rs_plaintext_sha256 :: string
  rs_object_key :: string
  rs_stored :: bool
  rs_high_water_sample :: int
  rs_stored_receipt :: "part_receipt option"

definition reservation :: "recording_row \<Rightarrow> track_row \<Rightarrow> part_row \<Rightarrow> part_reservation" where
  "reservation r t p =
     \<lparr>rs_recording_id = rc_client_recording_id r, rs_track_id = tr_client_track_id t,
      rs_sequence = pt_sequence p, rs_sample_start = pt_sample_start p,
      rs_sample_count = pt_sample_count p, rs_byte_length = pt_byte_length p,
      rs_plaintext_sha256 = pt_plaintext_sha256 p, rs_object_key = pt_object_key p,
      rs_stored = pt_stored p, rs_high_water_sample = tr_high_water_sample t,
      rs_stored_receipt = pt_result p\<rparr>"

definition receipt :: "part_reservation \<Rightarrow> bool \<Rightarrow> (recording_error, part_receipt) result" where
  "receipt v replayed =
     (case rs_stored_receipt v of
        Some r \<Rightarrow> Inr (r\<lparr>rp_replayed := replayed\<rparr>)
      | None \<Rightarrow> validate_receipt
          \<lparr>rp_recording_id = rs_recording_id v, rp_track_id = rs_track_id v,
           rp_sequence = rs_sequence v, rp_sample_start = rs_sample_start v,
           rp_sample_count = rs_sample_count v, rp_plaintext_sha256 = rs_plaintext_sha256 v,
           rp_high_water_sample = rs_high_water_sample v, rp_replayed = replayed\<rparr>)"

definition overlaps :: "part_upload \<Rightarrow> part_row \<Rightarrow> bool" where
  "overlaps m p \<longleftrightarrow>
     pt_sample_start p < pu_sample_start m + pu_sample_count m
     \<and> pu_sample_start m < pt_sample_start p + pt_sample_count p"

definition new_part ::
    "instant \<Rightarrow> int \<Rightarrow> int \<times> int \<times> int \<Rightarrow> part_upload \<Rightarrow> string \<Rightarrow> string \<Rightarrow> string \<Rightarrow> part_row" where
  "new_part now i ref m object_key key hash =
     \<lparr>pt_id = i, pt_owner_id = fst ref, pt_recording_id = fst (snd ref),
      pt_track_id = snd (snd ref), pt_sequence = pu_sequence m,
      pt_sample_start = pu_sample_start m, pt_sample_count = pu_sample_count m,
      pt_byte_length = pu_byte_length m, pt_ciphertext_byte_length = pu_ciphertext_byte_length m,
      pt_plaintext_sha256 = pu_plaintext_sha256 m, pt_ciphertext_sha256 = pu_ciphertext_sha256 m,
      pt_encryption_version = pu_encryption_version m, pt_idempotency_key = key,
      pt_request_hash = hash, pt_object_key = object_key, pt_stored = False, pt_result = None,
      pt_created_at = now, pt_stored_at = None\<rparr>"

definition reserve_part ::
    "(nat \<Rightarrow> instant) \<Rightarrow> int \<Rightarrow> part_upload \<Rightarrow> string \<Rightarrow> string \<Rightarrow> string \<Rightarrow> recording_db
      \<Rightarrow> (recording_error, recording_db \<times> part_reservation) result" where
  "reserve_part clock owner_id m object_key key hash db =
     unavailable_on_database_error (
     bind_result (locked_track db owner_id (pu_recording_id m) (pu_track_id m)) (\<lambda>(r, t).
     if rc_state r \<in> {State_sealing, State_stored, State_stored_with_gaps}
     then Inl (RecordingConflict ''recording no longer accepts parts'')
     else if \<not> same_format t m
     then Inl (RecordingConflict ''recording part format does not match its track'')
     else
       let parts = parts_of_track db (owner_id, rc_id r, tr_id t) in
       case find (\<lambda>p. pt_sequence p = pu_sequence m \<or> pt_idempotency_key p = key) parts of
         Some p \<Rightarrow>
           if \<not> same_part p m object_key key hash
           then Inl (RecordingConflict ''recording part identity was reused'')
           else Inr (db, reservation r t p)
       | None \<Rightarrow>
           if list_ex (overlaps m) parts
           then Inl (RecordingConflict ''recording part range overlaps existing audio'')
           else
             let p = new_part (clock 0) (rdb_next_id db) (owner_id, rc_id r, tr_id t) m object_key key hash;
                 r' = r\<lparr>rc_state := State_uploading\<rparr>; t' = t\<lparr>tr_state := State_uploading\<rparr> in
             bind_result (flush (set_recording r' (set_track t' (db\<lparr>rdb_parts := rdb_parts db @ [p],
                rdb_next_id := rdb_next_id db + 1\<rparr>)))) (\<lambda>db'.
             Inr (db', reservation r' t' p))))"

text \<open>The end of the audio that is stored without a hole from the start of the track.\<close>

fun high_water :: "int \<Rightarrow> part_row list \<Rightarrow> int" where
  "high_water cursor [] = cursor"
| "high_water cursor (p # ps) =
     (if pt_sample_start p \<noteq> cursor then cursor else high_water (cursor + pt_sample_count p) ps)"

definition stored_parts :: "recording_db \<Rightarrow> int \<times> int \<times> int \<Rightarrow> part_row list" where
  "stored_parts db ref =
     sort_key (\<lambda>p. (pt_sample_start p, pt_sequence p)) (filter pt_stored (parts_of_track db ref))"

definition finalize_part ::
    "instant \<Rightarrow> int \<Rightarrow> part_upload \<Rightarrow> string \<Rightarrow> string \<Rightarrow> recording_db
      \<Rightarrow> (recording_error, recording_db \<times> part_receipt) result" where
  "finalize_part now owner_id m object_key key db =
     unavailable_on_database_error (
     bind_result (locked_track db owner_id (pu_recording_id m) (pu_track_id m)) (\<lambda>(r, t).
     let ref = (owner_id, rc_id r, tr_id t) in
     case find (\<lambda>p. pt_sequence p = pu_sequence m) (parts_of_track db ref) of
       None \<Rightarrow> Inl (RecordingNotFound ''recording part reservation was not found'')
     | Some p \<Rightarrow>
         if pt_idempotency_key p \<noteq> key \<or> pt_object_key p \<noteq> object_key
            \<or> pt_plaintext_sha256 p \<noteq> pu_plaintext_sha256 m
         then Inl (RecordingConflict ''recording part reservation conflicts'')
         else
           case (pt_stored p, pt_result p) of
             (True, Some s) \<Rightarrow> Inr (db, s\<lparr>rp_replayed := True\<rparr>)
           | (True, None) \<Rightarrow> invalid ''RecordingPartReceipt''
           | (False, _) \<Rightarrow>
               let p1 = p\<lparr>pt_stored := True, pt_stored_at := Some now\<rparr>;
                   stored = stored_parts (set_part p1 db) ref;
                   cursor = high_water 0 stored in
               bind_result (validate_receipt
                 \<lparr>rp_recording_id = pu_recording_id m, rp_track_id = pu_track_id m,
                  rp_sequence = pu_sequence m, rp_sample_start = pu_sample_start m,
                  rp_sample_count = pu_sample_count m, rp_plaintext_sha256 = pu_plaintext_sha256 m,
                  rp_high_water_sample = cursor, rp_replayed = False\<rparr>) (\<lambda>s.
               let p2 = p1\<lparr>pt_result := Some s\<rparr>;
                   t' = t\<lparr>tr_state := State_uploading, tr_high_water_sample := cursor,
                     tr_stored_part_count := int (length stored),
                     tr_stored_byte_length := sum_list (map pt_byte_length stored)\<rparr> in
               bind_result (flush (set_recording (r\<lparr>rc_state := State_uploading\<rparr>)
                  (set_track t' (set_part p2 db)))) (\<lambda>db'.
               Inr (db', s)))))"

section \<open>Sealing\<close>

text \<open>
  A dictionary built from pairs, where a later pair with the same key wins, and equality of two
  dictionaries.
\<close>

definition dict_get :: "('k \<times> 'v) list \<Rightarrow> 'k \<Rightarrow> (recording_error, 'v) result" where
  "dict_get kvs k =
     (case map_of (rev kvs) k of None \<Rightarrow> Inl (Recording_key_error ''missing key'') | Some v \<Rightarrow> Inr v)"

definition dict_eq :: "('k \<times> 'v) list \<Rightarrow> ('k \<times> 'v) list \<Rightarrow> bool" where
  "dict_eq xs ys \<longleftrightarrow>
     set (map fst xs) = set (map fst ys)
     \<and> list_all (\<lambda>k. map_of (rev xs) k = map_of (rev ys) k) (map fst xs)"

record part_snapshot =
  sp_track_id :: uuid
  sp_sequence :: int
  sp_byte_length :: int
  sp_object_key :: string

record seal_snapshot =
  sn_stored_part_hashes :: "((uuid \<times> int) \<times> string) list"
  sn_parts :: "part_snapshot list"
  sn_response :: "seal_response option"

type_synonym part_identity = "uuid \<times> int"
type_synonym part_facts = "int \<times> int \<times> int \<times> string"

definition parts_of_recording :: "recording_db \<Rightarrow> int \<Rightarrow> int \<Rightarrow> part_row list" where
  "parts_of_recording db owner_id rid =
     sort_key (\<lambda>p. (pt_track_id p, pt_sequence p))
       (filter (\<lambda>p. pt_owner_id p = owner_id \<and> pt_recording_id p = rid) (rdb_parts db))"

definition gaps_of_recording :: "recording_db \<Rightarrow> int \<Rightarrow> int \<Rightarrow> gap_row list" where
  "gaps_of_recording db owner_id rid =
     filter (\<lambda>g. ga_owner_id g = owner_id \<and> ga_recording_id g = rid) (rdb_gaps db)"

text \<open>Each stored part with the client's id of its track.\<close>

definition with_track_ids ::
    "track_row list \<Rightarrow> part_row list \<Rightarrow> (recording_error, (uuid \<times> part_row) list) result" where
  "with_track_ids tracks parts =
     map_result (\<lambda>p. bind_result
        (dict_get (map (\<lambda>t. (tr_id t, tr_client_track_id t)) tracks) (pt_track_id p))
        (\<lambda>u. Inr (u, p))) parts"

fun stored_descriptor :: "uuid \<times> part_row \<Rightarrow> part_identity \<times> part_facts" where
  "stored_descriptor (u, p) =
     ((u, pt_sequence p), pt_sample_start p, pt_sample_count p, pt_byte_length p, pt_plaintext_sha256 p)"

definition declared_descriptors :: "seal_command \<Rightarrow> (part_identity \<times> part_facts) list" where
  "declared_descriptors c =
     concat (map (\<lambda>m. map (\<lambda>d. ((tm_track_id m, pd_sequence d),
        pd_sample_start d, pd_sample_count d, pd_byte_length d, pd_plaintext_sha256 d)) (tm_parts m))
       (sc_tracks c))"

definition declared_tracks :: "seal_command \<Rightarrow> (uuid \<times> track_manifest) list" where
  "declared_tracks c = map (\<lambda>m. (tm_track_id m, m)) (sc_tracks c)"

text \<open>The gaps a seal declares, per track row.\<close>

definition expected_gaps ::
    "track_row list \<Rightarrow> seal_command \<Rightarrow> (recording_error, (track_row \<times> recording_gap) list) result" where
  "expected_gaps tracks c =
     bind_result (map_result (\<lambda>t. bind_result (dict_get (declared_tracks c) (tr_client_track_id t))
        (\<lambda>m. Inr (map (\<lambda>g. (t, g)) (tm_gaps m)))) tracks) (\<lambda>gs. Inr (concat gs))"

definition new_gap :: "instant \<Rightarrow> int \<Rightarrow> int \<Rightarrow> int \<Rightarrow> track_row \<times> recording_gap \<Rightarrow> gap_row" where
  "new_gap now i owner_id rid tg =
     \<lparr>ga_id = i, ga_owner_id = owner_id, ga_recording_id = rid, ga_track_id = tr_id (fst tg),
      ga_sample_start = gp_sample_start (snd tg), ga_sample_count = gp_sample_count (snd tg),
      ga_reason = gp_reason (snd tg), ga_created_at = now\<rparr>"

definition add_gaps ::
    "(nat \<Rightarrow> instant) \<Rightarrow> int \<Rightarrow> int \<Rightarrow> (track_row \<times> recording_gap) list \<Rightarrow> recording_db \<Rightarrow> recording_db" where
  "add_gaps clock owner_id rid gs db =
     db\<lparr>rdb_gaps := rdb_gaps db @
          map (\<lambda>(k, g). new_gap (clock k) (rdb_next_id db + int k) owner_id rid g) (enumerate 0 gs),
        rdb_next_id := rdb_next_id db + int (length gs)\<rparr>"

definition lineage_matches :: "track_row \<Rightarrow> track_manifest \<Rightarrow> bool" where
  "lineage_matches t m \<longleftrightarrow>
     tr_kind t = tm_kind m \<and> tr_conversion_version t = tm_conversion_version m
     \<and> pf_channel_count (tr_format t) = pf_channel_count (tm_format m)"

definition seal_tracks :: "track_row list \<Rightarrow> seal_command \<Rightarrow> (recording_error, track_row list) result" where
  "seal_tracks tracks c =
     map_result (\<lambda>t. bind_result (dict_get (declared_tracks c) (tr_client_track_id t)) (\<lambda>m.
        if \<not> lineage_matches t m
        then Inl (RecordingConflict ''recording seal track lineage does not match'')
        else Inr (t\<lparr>tr_state := State_sealing\<rparr>))) tracks"

definition same_seal :: "recording_row \<Rightarrow> string \<Rightarrow> string \<Rightarrow> bool" where
  "same_seal r key hash \<longleftrightarrow> rc_seal_idempotency_key r = Some key \<and> rc_seal_request_hash r = Some hash"

definition timelines_match ::
    "(string \<Rightarrow> string) \<Rightarrow> seal_command \<Rightarrow> (recording_error, bool) result" where
  "timelines_match sha c =
     bind_result (map_result (\<lambda>m. bind_result (timeline_sha256 sha m)
        (\<lambda>d. Inr (d = tm_timeline_sha256 m))) (sc_tracks c)) (\<lambda>bs. Inr (list_all id bs))"

definition reserve_gaps ::
    "(nat \<Rightarrow> instant) \<Rightarrow> int \<Rightarrow> int \<Rightarrow> (track_row \<times> recording_gap) list \<Rightarrow> recording_db
      \<Rightarrow> (recording_error, recording_db) result" where
  "reserve_gaps clock owner_id rid gs db =
     (let persisted = map (\<lambda>g. ((ga_track_id g, ga_sample_start g), (ga_sample_count g, ga_reason g)))
            (gaps_of_recording db owner_id rid);
          expected = map (\<lambda>(t, g). ((tr_id t, gp_sample_start g), (gp_sample_count g, gp_reason g))) gs
      in if persisted \<noteq> [] \<and> \<not> dict_eq persisted expected
         then Inl (RecordingConflict ''recording gaps conflict with prior seal attempt'')
         else Inr (if persisted = [] then add_gaps clock owner_id rid gs db else db))"

definition prepare_seal ::
    "(string \<Rightarrow> string) \<Rightarrow> (nat \<Rightarrow> instant) \<Rightarrow> int \<Rightarrow> seal_command \<Rightarrow> string \<Rightarrow> string \<Rightarrow> recording_db
      \<Rightarrow> (recording_error, recording_db \<times> seal_snapshot) result" where
  "prepare_seal sha clock owner_id c key hash db =
     unavailable_on_database_error (
     bind_result (locked_recording db owner_id (sc_recording_id c)) (\<lambda>r.
     if is_stored (rc_state r)
     then
       (if \<not> same_seal r key hash \<or> rc_seal_result r = None
        then Inl (RecordingConflict ''recording seal identity was reused'')
        else Inr (db, \<lparr>sn_stored_part_hashes = [], sn_parts = [], sn_response = rc_seal_result r\<rparr>))
     else if rc_started_at r \<noteq> instant_of (sc_started_at c)
     then Inl (RecordingConflict ''recording start time does not match'')
     else if rc_seal_idempotency_key r \<noteq> None \<and> \<not> same_seal r key hash
     then Inl (RecordingConflict ''recording seal identity was reused'')
     else
       let tracks = tracks_of db owner_id (rc_id r);
           parts = parts_of_recording db owner_id (rc_id r) in
       if length tracks \<noteq> 2 \<or> set (map tr_client_track_id tracks) \<noteq> set (map fst (declared_tracks c))
       then Inl (RecordingConflict ''recording seal tracks do not match'')
       else if \<not> list_all pt_stored parts
       then Inl (RecordingConflict ''recording still has unpersisted parts'')
       else
         bind_result (with_track_ids tracks parts) (\<lambda>ups.
         if \<not> dict_eq (map stored_descriptor ups) (declared_descriptors c)
         then Inl (RecordingConflict ''recording seal parts do not match stored ranges'')
         else
           bind_result (timelines_match sha c) (\<lambda>ok.
           if \<not> ok then Inl (RecordingConflict ''recording seal timeline hash does not match'')
           else
             bind_result (expected_gaps tracks c) (\<lambda>gs.
             bind_result (reserve_gaps clock owner_id (rc_id r) gs db) (\<lambda>db1.
             bind_result (seal_tracks tracks c) (\<lambda>sealing.
             let r' = r\<lparr>rc_state := State_sealing, rc_seal_idempotency_key := Some key,
                    rc_seal_request_hash := Some hash, rc_ended_at := Some (instant_of (sc_ended_at c))\<rparr> in
             bind_result (flush (set_recording r' (fold set_track sealing db1))) (\<lambda>db2.
             Inr (db2, \<lparr>sn_stored_part_hashes =
                 map (\<lambda>(u, p). ((u, pt_sequence p), pt_plaintext_sha256 p)) ups,
               sn_parts = map (\<lambda>(u, p). \<lparr>sp_track_id = u, sp_sequence = pt_sequence p,
                 sp_byte_length = pt_byte_length p, sp_object_key = pt_object_key p\<rparr>) ups,
               sn_response = None\<rparr>)))))))))"

type_synonym stored_manifest = "uuid \<times> string \<times> string \<times> int"

definition store_track ::
    "instant \<Rightarrow> seal_command \<Rightarrow> stored_manifest list \<Rightarrow> track_row \<Rightarrow> (recording_error, track_row) result" where
  "store_track now c manifests t =
     bind_result (dict_get (declared_tracks c) (tr_client_track_id t)) (\<lambda>m.
     bind_result (dict_get manifests (tr_client_track_id t)) (\<lambda>(key, digest, size).
     Inr (t\<lparr>tr_state := (if tm_gaps m \<noteq> [] then State_stored_with_gaps else State_stored),
            tr_high_water_sample := tm_total_sample_count m,
            tr_total_sample_count := Some (tm_total_sample_count m),
            tr_pcm_sha256 := Some (tm_pcm_sha256 m), tr_timeline_sha256 := Some (tm_timeline_sha256 m),
            tr_manifest_object_key := Some key, tr_manifest_sha256 := Some digest,
            tr_manifest_byte_length := Some size, tr_sealed_at := Some now\<rparr>)))"

definition finalize_seal ::
    "instant \<Rightarrow> int \<Rightarrow> seal_command \<Rightarrow> string \<Rightarrow> string \<Rightarrow> stored_manifest list \<Rightarrow> recording_db
      \<Rightarrow> (recording_error, recording_db \<times> seal_response) result" where
  "finalize_seal now owner_id c key hash manifests db =
     unavailable_on_database_error (
     bind_result (locked_recording db owner_id (sc_recording_id c)) (\<lambda>r.
     if is_stored (rc_state r)
     then
       (case rc_seal_result r of
          Some s \<Rightarrow>
            if same_seal r key hash then Inr (db, s\<lparr>se_replayed := True\<rparr>)
            else Inl (RecordingConflict ''recording seal identity was reused'')
        | None \<Rightarrow> Inl (RecordingConflict ''recording seal identity was reused''))
     else if rc_state r \<noteq> State_sealing \<or> \<not> same_seal r key hash
     then Inl (RecordingConflict ''recording seal was not reserved'')
     else
       let tracks = tracks_of db owner_id (rc_id r) in
       if set (map tr_client_track_id tracks) \<noteq> set (map fst manifests)
       then Inl (RecordingConflict ''recording track manifests are incomplete'')
       else
         let final_state = (if sc_coverage_status c = Stored_with_gaps then State_stored_with_gaps
               else State_stored) in
         bind_result (map_result (store_track now c manifests) tracks) (\<lambda>stored.
         bind_result (map_result (\<lambda>m. bind_result (dict_get manifests (tm_track_id m))
            (\<lambda>(_, digest, _). Inr digest)) (sc_tracks c)) (\<lambda>digests.
         bind_result
           (case digests of
              [first_digest, second_digest] \<Rightarrow> validate_seal_response
                \<lparr>se_recording_id = sc_recording_id c, se_state = final_state,
                 se_coverage_status = sc_coverage_status c,
                 se_track_manifest_sha256 = (first_digest, second_digest),
                 se_audio_created_on_server = True, se_transcript_lineage_accepted = False,
                 se_replayed = False\<rparr>
            | _ \<Rightarrow> invalid ''not enough values to unpack'') (\<lambda>s.
         let r' = r\<lparr>rc_state := final_state, rc_coverage_status := Some (sc_coverage_status c),
               rc_seal_result := Some s, rc_audio_created_on_server := True,
               rc_sealed_at := Some now\<rparr> in
         bind_result (flush (set_recording r' (fold set_track stored db))) (\<lambda>db'.
         Inr (db', s)))))))"

section \<open>Reading\<close>

definition status_of ::
    "recording_db \<Rightarrow> recording_row \<Rightarrow> track_row list \<Rightarrow> (recording_error, status_response) result" where
  "status_of db r tracks =
     (if length tracks \<noteq> 2 then Inl (RecordingConflict ''recording track aggregate is incomplete'')
      else validate_status
        \<lparr>sr_recording_id = rc_client_recording_id r, sr_state = rc_state r,
         sr_coverage_status = rc_coverage_status r,
         sr_tracks = map (\<lambda>t. \<lparr>ts_track_id = tr_client_track_id t, ts_kind = tr_kind t,
             ts_high_water_sample = tr_high_water_sample t,
             ts_stored_part_count = tr_stored_part_count t,
             ts_gap_count = int (length (filter (\<lambda>g. ga_track_id g = tr_id t)
               (gaps_of_recording db (rc_owner_id r) (rc_id r)))),
             ts_manifest_sha256 = tr_manifest_sha256 t\<rparr>) tracks,
         sr_audio_created_on_server = rc_audio_created_on_server r,
         sr_transcript_lineage_accepted = rc_transcript_lineage_accepted r,
         sr_activity_id = rc_activity_instance_id r, sr_interview_id = rc_interview_id r,
         sr_english_class_id = rc_english_class_id r, sr_started_at = rc_started_at r\<rparr>)"

definition recording_status ::
    "int \<Rightarrow> uuid \<Rightarrow> recording_db \<Rightarrow> (recording_error, status_response) result" where
  "recording_status owner_id recording_id db =
     bind_result (locked_recording db owner_id recording_id) (\<lambda>r.
     status_of db r (tracks_of db owner_id (rc_id r)))"

definition statuses ::
    "int \<Rightarrow> recording_row list \<Rightarrow> recording_db \<Rightarrow> (recording_error, status_response list) result" where
  "statuses owner_id rows db =
     map_result (\<lambda>r. recording_status owner_id (rc_client_recording_id r) db) rows"

definition pending :: "int \<Rightarrow> recording_db \<Rightarrow> (recording_error, status_response list) result" where
  "pending owner_id db =
     statuses owner_id (take 100 (sort_key (\<lambda>r. (rc_created_at r, rc_id r))
       (filter (\<lambda>r. rc_owner_id r = owner_id \<and> rc_state r \<in> {State_reserved, State_uploading,
          State_sealing, State_needs_attention}) (rdb_recordings db)))) db"

text \<open>\<^verbatim>\<open>for_activity\<close>, \<^verbatim>\<open>for_interview\<close> and \<^verbatim>\<open>for_class\<close> differ in the column they select by.\<close>

definition linked_recordings ::
    "(recording_row \<Rightarrow> int option) \<Rightarrow> int \<Rightarrow> int \<Rightarrow> recording_db \<Rightarrow> (recording_error, status_response list) result" where
  "linked_recordings link owner_id i db =
     statuses owner_id (sort_key (\<lambda>r. (rc_started_at r, rc_id r))
       (filter (\<lambda>r. rc_owner_id r = owner_id \<and> link r = Some i) (rdb_recordings db))) db"

definition for_activity :: "int \<Rightarrow> int \<Rightarrow> recording_db \<Rightarrow> (recording_error, status_response list) result" where
  "for_activity = linked_recordings rc_activity_instance_id"

definition for_interview :: "int \<Rightarrow> int \<Rightarrow> recording_db \<Rightarrow> (recording_error, status_response list) result" where
  "for_interview = linked_recordings rc_interview_id"

definition for_class :: "int \<Rightarrow> int \<Rightarrow> recording_db \<Rightarrow> (recording_error, status_response list) result" where
  "for_class = linked_recordings rc_english_class_id"

definition attach_interview ::
    "int \<Rightarrow> int \<Rightarrow> uuid \<Rightarrow> recording_db \<Rightarrow> (recording_error, recording_db) result" where
  "attach_interview owner_id interview_id recording_id db =
     unavailable_on_database_error (
     if (owner_id, interview_id) \<notin> set (rdb_interviews db)
     then Inl (RecordingNotFound ''interview was not found'')
     else
       bind_result (locked_recording db owner_id recording_id) (\<lambda>r.
       if rc_interview_id r \<notin> {None, Some interview_id}
       then Inl (RecordingConflict ''recording belongs to another interview'')
       else flush (set_recording (r\<lparr>rc_interview_id := Some interview_id\<rparr>) db)))"

end
