(* ===== verification/Recording_Service.thy ===== *)
theory Recording_Service
  imports Recording_Repository
begin

text \<open>
  \<^verbatim>\<open>recordings/service.py\<close>: decrypting a part, writing immutable objects between explicit
  transactions, and sealing. The world is the tables and the object store; a transaction or an
  upload that has happened stays, also when a later step raises. SHA-256 (\<open>sha\<close>, as its
  hexadecimal digest), AES-GCM decryption and the JSON text of a datetime are arguments.
\<close>

section \<open>World\<close>

record recording_world =
  rw_db :: recording_db
  rw_objects :: object_store

record crypto =
  cx_sha :: "string \<Rightarrow> string"
  cx_decrypt :: "string \<Rightarrow> string \<Rightarrow> string \<Rightarrow> string \<Rightarrow> string option"
  cx_iso :: "datetime \<Rightarrow> string"

text \<open>A step of a request: a new world, and the value or the exception.\<close>

type_synonym 'a step = "recording_world \<times> (recording_error, 'a) result"

definition then_do :: "'a step \<Rightarrow> (recording_world \<Rightarrow> 'a \<Rightarrow> 'b step) \<Rightarrow> 'b step" where
  "then_do s f = (case snd s of Inl e \<Rightarrow> (fst s, Inl e) | Inr a \<Rightarrow> f (fst s) a)"

definition pure_step :: "recording_world \<Rightarrow> (recording_error, 'a) result \<Rightarrow> 'a step" where
  "pure_step w r = (w, r)"

definition transaction ::
    "recording_world \<Rightarrow> (recording_db \<Rightarrow> (recording_error, recording_db \<times> 'a) result) \<Rightarrow> 'a step" where
  "transaction w f =
     (case f (rw_db w) of Inl e \<Rightarrow> (w, Inl e) | Inr (db, a) \<Rightarrow> (w\<lparr>rw_db := db\<rparr>, Inr a))"

text \<open>\<^verbatim>\<open>except ObjectStoreError\<close>\<close>

definition storage_guard :: "string \<Rightarrow> (object_error, 'a) result \<Rightarrow> (recording_error, 'a) result" where
  "storage_guard message r = (case r of Inl e \<Rightarrow> Inl (RecordingUnavailable message) | Inr a \<Rightarrow> Inr a)"

definition upload_object ::
    "crypto \<Rightarrow> string \<Rightarrow> recording_world \<Rightarrow> string \<Rightarrow> string \<Rightarrow> string \<Rightarrow> string \<Rightarrow> metadata \<Rightarrow> unit step" where
  "upload_object cx message w key body digest content_type m =
     (case put_immutable (cx_sha cx) (rw_objects w) key [Bytes body] digest content_type m of
        Inl e \<Rightarrow> (w, Inl (RecordingUnavailable message))
      | Inr (st, _) \<Rightarrow> (w\<lparr>rw_objects := st\<rparr>, Inr ()))"

section \<open>Decrypting a part\<close>

text \<open>
  \<^verbatim>\<open>_b64url_decode\<close> on text without padding of its own, which is what the pattern of the nonce
  allows: the code pads it, maps \<^verbatim>\<open>-_\<close> to \<^verbatim>\<open>+/\<close> and decodes strictly.
\<close>

definition b64_val :: "char \<Rightarrow> nat option" where
  "b64_val c =
     (let n = of_char c :: nat in
      if 65 \<le> n \<and> n \<le> 90 then Some (n - 65)
      else if 97 \<le> n \<and> n \<le> 122 then Some (n - 71)
      else if 48 \<le> n \<and> n \<le> 57 then Some (n + 4)
      else if c \<in> {CHR ''-'', CHR ''+''} then Some 62
      else if c \<in> {CHR ''_'', CHR ''/''} then Some 63
      else None)"

fun b64_values :: "string \<Rightarrow> nat list option" where
  "b64_values [] = Some []"
| "b64_values (c # cs) =
     (case (b64_val c, b64_values cs) of (Some v, Some vs) \<Rightarrow> Some (v # vs) | _ \<Rightarrow> None)"

fun b64_bytes :: "nat list \<Rightarrow> string option" where
  "b64_bytes [] = Some []"
| "b64_bytes [a] = None"
| "b64_bytes [a, b] = Some [char_of (a * 4 + b div 16)]"
| "b64_bytes [a, b, c] = Some [char_of (a * 4 + b div 16), char_of (b mod 16 * 16 + c div 4)]"
| "b64_bytes (a # b # c # d # vs) =
     map_option (\<lambda>bs. char_of (a * 4 + b div 16) # char_of (b mod 16 * 16 + c div 4)
        # char_of (c mod 4 * 64 + d) # bs) (b64_bytes vs)"

definition b64url_decode :: "string \<Rightarrow> nat \<Rightarrow> (recording_error, string) result" where
  "b64url_decode s expected_bytes =
     (case Option.bind (b64_values s) b64_bytes of
        None \<Rightarrow> Inl (RecordingInvalidRequest ''recording encryption material is invalid'')
      | Some decoded \<Rightarrow>
          if length decoded \<noteq> expected_bytes
          then Inl (RecordingInvalidRequest ''recording encryption material is invalid'')
          else Inr decoded)"

definition decrypt_recording_part ::
    "crypto \<Rightarrow> part_upload \<Rightarrow> string \<Rightarrow> string \<Rightarrow> (recording_error, string) result" where
  "decrypt_recording_part cx m part_key ciphertext =
     (if length part_key \<noteq> 32
      then Inl (RecordingInvalidRequest ''recording encryption material is invalid'')
      else if int (length ciphertext) \<noteq> pu_ciphertext_byte_length m
      then Inl (RecordingConflict ''recording part ciphertext length does not match'')
      else if cx_sha cx ciphertext \<noteq> pu_ciphertext_sha256 m
      then Inl (RecordingConflict ''recording part ciphertext hash does not match'')
      else
        bind_result (b64url_decode (pu_nonce_base64url m) 12) (\<lambda>nonce.
        bind_result (part_aad_bytes m) (\<lambda>aad.
        case cx_decrypt cx part_key nonce ciphertext aad of
          None \<Rightarrow> Inl (RecordingConflict ''recording part authentication failed'')
        | Some plaintext \<Rightarrow>
            if int (length plaintext) \<noteq> pu_byte_length m
            then Inl (RecordingConflict ''recording part plaintext length does not match'')
            else if cx_sha cx plaintext \<noteq> pu_plaintext_sha256 m
            then Inl (RecordingConflict ''recording part plaintext hash does not match'')
            else Inr plaintext)))"

definition recording_part_object_key :: "int \<Rightarrow> part_upload \<Rightarrow> (recording_error, string) result" where
  "recording_part_object_key owner_id m =
     (case build_object_key ''recording-part'' (int_str owner_id)
         (pu_recording_id m @ ''-'' @ pu_track_id m @ ''-'' @ int_str (pu_sequence m))
         (pu_plaintext_sha256 m) of
        Inl e \<Rightarrow> Inl (Recording_store_error e) | Inr k \<Rightarrow> Inr k)"

definition recording_manifest_object_key ::
    "int \<Rightarrow> uuid \<Rightarrow> uuid \<Rightarrow> string \<Rightarrow> (object_error, string) result" where
  "recording_manifest_object_key owner_id recording_id track_id digest =
     build_object_key ''recording-manifest'' (int_str owner_id)
       (recording_id @ ''-'' @ track_id) digest"

definition validate_seal_manifest ::
    "crypto \<Rightarrow> seal_command \<Rightarrow> ((uuid \<times> int) \<times> string) list \<Rightarrow> (recording_error, unit) result" where
  "validate_seal_manifest cx c stored_part_hashes =
     (let declared = concat (map (\<lambda>m. map (\<lambda>d. ((tm_track_id m, pd_sequence d), pd_plaintext_sha256 d))
            (tm_parts m)) (sc_tracks c)) in
      if \<not> dict_eq declared stored_part_hashes
      then Inl (RecordingConflict ''seal manifest does not match stored recording parts'')
      else
        bind_result (timelines_match (cx_sha cx) c) (\<lambda>ok.
        if ok then Inr () else Inl (RecordingConflict ''seal timeline hash does not match'')))"

section \<open>Requests\<close>

definition request_digest :: "crypto \<Rightarrow> json \<Rightarrow> (recording_error, string) result" where
  "request_digest cx j = bind_result (canonical_json_bytes j) (\<lambda>b. Inr (cx_sha cx b))"

definition create ::
    "crypto \<Rightarrow> (nat \<Rightarrow> instant) \<Rightarrow> int \<Rightarrow> create_command \<Rightarrow> string \<Rightarrow> recording_world \<Rightarrow> create_response step" where
  "create cx clock owner_id c key w =
     then_do (pure_step w (request_digest cx (create_json (cx_iso cx) c))) (\<lambda>w hash.
     transaction w (repo_create clock owner_id c key hash))"

definition ensure_part_object ::
    "crypto \<Rightarrow> int \<Rightarrow> part_reservation \<Rightarrow> string \<Rightarrow> recording_world \<Rightarrow> unit step" where
  "ensure_part_object cx owner_id v plaintext w =
     (case stat (rw_objects w) (rs_object_key v) of
        Inl e \<Rightarrow> (w, Inl (RecordingUnavailable ''recording part storage is unavailable''))
      | Inr (Some x) \<Rightarrow>
          if so_sha256 x \<noteq> rs_plaintext_sha256 v \<or> so_byte_length x \<noteq> rs_byte_length v
          then (w, Inl (RecordingConflict ''immutable recording part object conflicts''))
          else (w, Inr ())
      | Inr None \<Rightarrow>
          upload_object cx ''recording part storage is unavailable'' w (rs_object_key v) plaintext
            (rs_plaintext_sha256 v) ''application/vnd.tamforge.pcm-s16le''
            [(''owner-id'', int_str owner_id), (''recording-id'', rs_recording_id v),
             (''track-id'', rs_track_id v), (''sequence'', int_str (rs_sequence v))])"

definition upload_part ::
    "crypto \<Rightarrow> (nat \<Rightarrow> instant) \<Rightarrow> int \<Rightarrow> part_upload \<Rightarrow> string \<Rightarrow> string \<Rightarrow> string \<Rightarrow> recording_world
      \<Rightarrow> part_receipt step" where
  "upload_part cx clock owner_id m part_key ciphertext key w =
     then_do (pure_step w (decrypt_recording_part cx m part_key ciphertext)) (\<lambda>w plaintext.
     then_do (pure_step w (recording_part_object_key owner_id m)) (\<lambda>w object_key.
     then_do (pure_step w (request_digest cx (upload_json m))) (\<lambda>w hash.
     then_do (transaction w (reserve_part clock owner_id m object_key key hash)) (\<lambda>w v.
     if rs_stored v then pure_step w (receipt v True)
     else
       then_do (ensure_part_object cx owner_id v plaintext w) (\<lambda>w _.
       transaction w (finalize_part (clock 1) owner_id m object_key key))))))"

text \<open>The bytes of the stored parts of one track, in the order they are hashed.\<close>

fun read_parts ::
    "object_store \<Rightarrow> uuid list \<Rightarrow> part_snapshot list \<Rightarrow> (recording_error, (uuid \<times> string) list) result" where
  "read_parts st declared [] = Inr []"
| "read_parts st declared (p # ps) =
     (if sp_track_id p \<notin> set declared
      then Inl (RecordingConflict ''stored recording track is not declared'')
      else
        bind_result (storage_guard ''recording verification storage is unavailable''
           (open_object st (sp_object_key p))) (\<lambda>chunks.
        if int (length (concat chunks)) \<noteq> sp_byte_length p
        then Inl (RecordingConflict ''stored recording part length does not match'')
        else bind_result (read_parts st declared ps) (\<lambda>rest. Inr ((sp_track_id p, concat chunks) # rest))))"

definition verify_pcm_hashes ::
    "crypto \<Rightarrow> object_store \<Rightarrow> seal_command \<Rightarrow> seal_snapshot \<Rightarrow> (recording_error, unit) result" where
  "verify_pcm_hashes cx st c snapshot =
     bind_result (read_parts st (map fst (declared_tracks c)) (sn_parts snapshot)) (\<lambda>bytes.
     if list_all (\<lambda>m. cx_sha cx (concat (map snd (filter (\<lambda>b. fst b = tm_track_id m) bytes)))
          = tm_pcm_sha256 m) (sc_tracks c)
     then Inr () else Inl (RecordingConflict ''recording PCM hash does not match stored parts''))"

definition store_manifest ::
    "crypto \<Rightarrow> int \<Rightarrow> uuid \<Rightarrow> track_manifest \<Rightarrow> recording_world \<Rightarrow> stored_manifest step" where
  "store_manifest cx owner_id recording_id m w =
     then_do (pure_step w (canonical_json_bytes (manifest_json m))) (\<lambda>w body.
     let digest = cx_sha cx body in
     then_do (pure_step w (storage_guard ''recording manifest storage is unavailable''
        (recording_manifest_object_key owner_id recording_id (tm_track_id m) digest))) (\<lambda>w k.
     then_do (upload_object cx ''recording manifest storage is unavailable'' w k body digest
        ''application/vnd.tamforge.recording-track-manifest+json''
        [(''owner-id'', int_str owner_id), (''recording-id'', recording_id),
         (''track-id'', tm_track_id m)]) (\<lambda>w _.
     (w, Inr (tm_track_id m, k, digest, int (length body))))))"

fun store_manifests ::
    "crypto \<Rightarrow> int \<Rightarrow> uuid \<Rightarrow> track_manifest list \<Rightarrow> recording_world \<Rightarrow> stored_manifest list step" where
  "store_manifests cx owner_id recording_id [] w = (w, Inr [])"
| "store_manifests cx owner_id recording_id (m # ms) w =
     then_do (store_manifest cx owner_id recording_id m w) (\<lambda>w x.
     then_do (store_manifests cx owner_id recording_id ms w) (\<lambda>w rest. (w, Inr (x # rest))))"

definition seal ::
    "crypto \<Rightarrow> (nat \<Rightarrow> instant) \<Rightarrow> instant \<Rightarrow> int \<Rightarrow> seal_command \<Rightarrow> string \<Rightarrow> recording_world
      \<Rightarrow> seal_response step" where
  "seal cx clock now owner_id c key w =
     then_do (pure_step w (recording_manifest_sha256 (cx_sha cx) (cx_iso cx) c)) (\<lambda>w hash.
     then_do (transaction w (prepare_seal (cx_sha cx) clock owner_id c key hash)) (\<lambda>w snapshot.
     case sn_response snapshot of
       Some s \<Rightarrow> (w, Inr (s\<lparr>se_replayed := True\<rparr>))
     | None \<Rightarrow>
         then_do (pure_step w (validate_seal_manifest cx c (sn_stored_part_hashes snapshot))) (\<lambda>w _.
         then_do (pure_step w (verify_pcm_hashes cx (rw_objects w) c snapshot)) (\<lambda>w _.
         then_do (store_manifests cx owner_id (sc_recording_id c) (sc_tracks c) w) (\<lambda>w manifests.
         transaction w (finalize_seal now owner_id c key hash manifests))))))"

end
