(* ===== verification/Recording_Safety.thy ===== *)
theory Recording_Safety
  imports Recording_Service
begin

text \<open>
  The requests of recording ingest as a step relation, so that the transactions of concurrent
  requests may interleave, with the invariant every step keeps and what no step changes of a
  sealed recording.
\<close>

section \<open>What a transaction does\<close>

named_theorems recording_simps \<open>when a transaction succeeds\<close>

lemma unavailable_on_database_error_Inr [recording_simps]:
  "unavailable_on_database_error r = Inr x \<longleftrightarrow> r = Inr x"
  by (cases r rule: unavailable_on_database_error.cases) auto

lemma flush_Inr [recording_simps]: "flush db = Inr db' \<longleftrightarrow> constraints_ok db \<and> db' = db"
  by (auto simp: flush_def)

lemma invalid_Inr [recording_simps]: "invalid m = Inr x \<longleftrightarrow> False"
  by (simp add: invalid_def)

lemma locked_recording_Inr:
  "locked_recording db owner_id i = Inr r \<Longrightarrow>
     r \<in> set (rdb_recordings db) \<and> rc_owner_id r = owner_id \<and> rc_client_recording_id r = i"
  by (auto simp: locked_recording_def dest: find_in_set split: option.splits)

lemma locked_track_Inr:
  "locked_track db owner_id i k = Inr (r, t) \<Longrightarrow>
     locked_recording db owner_id i = Inr r \<and> t \<in> set (rdb_tracks db)
     \<and> tr_owner_id t = owner_id \<and> tr_recording_id t = rc_id r \<and> tr_client_track_id t = k"
  by (auto simp: locked_track_def result_simps split: option.splits) (blast dest: find_in_set)+

lemma repo_create_cases:
  assumes "repo_create clock owner_id c key hash db = Inr (db', x)"
  obtains (replayed) "db' = db"
  | (fresh) "owner_id \<in> set (rdb_owners db)"
      "existing_recording db owner_id (cc_recording_id c) key = None"
      "db' = add_tracks clock owner_id (rdb_next_id db) (cc_tracks c)
         (db\<lparr>rdb_recordings := rdb_recordings db
            @ [new_recording (clock 0) (rdb_next_id db) owner_id c key hash],
            rdb_next_id := rdb_next_id db + 1\<rparr>)"
      "constraints_ok db'"
  using assms
  by (auto simp: repo_create_def recording_simps result_simps lock_recording_owner_def Let_def new_recording_def
      split: option.splits if_splits)

lemma reserve_part_cases:
  assumes "reserve_part clock owner_id m object_key key hash db = Inr (db', v)"
  obtains (replayed) r t p where "db' = db" "locked_track db owner_id (pu_recording_id m) (pu_track_id m) = Inr (r, t)"
      "p \<in> set (rdb_parts db)" "same_part p m object_key key hash"
      "part_track p = (owner_id, rc_id r, tr_id t)" "v = reservation r t p"
  | (fresh) r t p where "locked_track db owner_id (pu_recording_id m) (pu_track_id m) = Inr (r, t)"
      "rc_state r \<notin> {State_sealing, State_stored, State_stored_with_gaps}"
      "\<And>q. q \<in> set (rdb_parts db) \<Longrightarrow> part_track q = (owner_id, rc_id r, tr_id t) \<Longrightarrow> \<not> overlaps m q"
      "p = new_part (clock 0) (rdb_next_id db) (owner_id, rc_id r, tr_id t) m object_key key hash"
      "db' = set_recording (r\<lparr>rc_state := State_uploading\<rparr>) (set_track (t\<lparr>tr_state := State_uploading\<rparr>)
         (db\<lparr>rdb_parts := rdb_parts db @ [p], rdb_next_id := rdb_next_id db + 1\<rparr>))"
      "constraints_ok db'"
      "v = reservation (r\<lparr>rc_state := State_uploading\<rparr>) (t\<lparr>tr_state := State_uploading\<rparr>) p"
proof -
  from assms obtain r t where rt: "locked_track db owner_id (pu_recording_id m) (pu_track_id m) = Inr (r, t)"
    by (auto simp: reserve_part_def recording_simps result_simps)
  note A = assms [unfolded reserve_part_def recording_simps rt bind_result.simps prod.case Let_def]
  have st: "rc_state r \<notin> {State_sealing, State_stored, State_stored_with_gaps}" "same_format t m"
    using A by (auto split: if_splits)
  show ?thesis
  proof (cases "find (\<lambda>p. pt_sequence p = pu_sequence m \<or> pt_idempotency_key p = key)
      (parts_of_track db (owner_id, rc_id r, tr_id t))")
    case None
    with A st rt show ?thesis
      by (intro fresh [OF rt st(1)])
        (auto simp: recording_simps result_simps list_ex_iff parts_of_track_def split: if_splits)
  next
    case (Some p)
    then have "p \<in> set (rdb_parts db)" "part_track p = (owner_id, rc_id r, tr_id t)"
      using find_in_set [OF Some] by (auto simp: parts_of_track_def)
    with A st rt Some show ?thesis
      by (intro replayed [OF _ rt]) (auto split: if_splits)
  qed
qed

definition counted :: "int \<Rightarrow> int \<Rightarrow> int \<Rightarrow> track_row \<Rightarrow> track_row" where
  "counted water parts bytes t =
     t\<lparr>tr_state := State_uploading, tr_high_water_sample := water, tr_stored_part_count := parts,
       tr_stored_byte_length := bytes\<rparr>"

lemma finalize_part_cases:
  assumes "finalize_part now owner_id m object_key key db = Inr (db', s)"
  obtains (replayed) r t p where "db' = db"
      "locked_track db owner_id (pu_recording_id m) (pu_track_id m) = Inr (r, t)"
      "p \<in> set (rdb_parts db)" "part_track p = (owner_id, rc_id r, tr_id t)"
      "pt_sequence p = pu_sequence m" "pt_object_key p = object_key" "pt_stored p"
  | (fresh) r t p stored where
      "locked_track db owner_id (pu_recording_id m) (pu_track_id m) = Inr (r, t)"
      "p \<in> set (rdb_parts db)" "part_track p = (owner_id, rc_id r, tr_id t)"
      "pt_sequence p = pu_sequence m" "pt_object_key p = object_key"
      "pt_plaintext_sha256 p = pu_plaintext_sha256 m" "\<not> pt_stored p"
      "stored = stored_parts (set_part (p\<lparr>pt_stored := True, pt_stored_at := Some now\<rparr>) db)
         (owner_id, rc_id r, tr_id t)"
      "db' = set_recording (r\<lparr>rc_state := State_uploading\<rparr>)
         (set_track (counted (high_water 0 stored) (int (length stored))
            (sum_list (map pt_byte_length stored)) t)
         (set_part (p\<lparr>pt_stored := True, pt_stored_at := Some now, pt_result := Some s\<rparr>) db))"
      "constraints_ok db'"
proof -
  from assms obtain r t where rt: "locked_track db owner_id (pu_recording_id m) (pu_track_id m) = Inr (r, t)"
    by (auto simp: finalize_part_def recording_simps result_simps)
  let ?ref = "(owner_id, rc_id r, tr_id t)"
  note A = assms [unfolded finalize_part_def recording_simps rt bind_result.simps prod.case Let_def]
  from A obtain p where p: "find (\<lambda>p. pt_sequence p = pu_sequence m) (parts_of_track db ?ref) = Some p"
    by (auto split: option.splits)
  have row: "p \<in> set (rdb_parts db)" "part_track p = ?ref" "pt_sequence p = pu_sequence m"
    using find_in_set [OF p] by (auto simp: parts_of_track_def)
  have same: "pt_object_key p = object_key" "pt_plaintext_sha256 p = pu_plaintext_sha256 m"
    using A p by (auto split: if_splits)
  show ?thesis
  proof (cases "pt_stored p")
    case True
    then have "db' = db" using A p by (auto simp: recording_simps split: if_splits option.splits)
    then show ?thesis using rt row same(1) True by (rule replayed)
  next
    case False
    let ?stored = "stored_parts (set_part (p\<lparr>pt_stored := True, pt_stored_at := Some now\<rparr>) db) ?ref"
    have "db' = set_recording (r\<lparr>rc_state := State_uploading\<rparr>)
         (set_track (counted (high_water 0 ?stored) (int (length ?stored))
            (sum_list (map pt_byte_length ?stored)) t)
         (set_part (p\<lparr>pt_stored := True, pt_stored_at := Some now, pt_result := Some s\<rparr>) db))
        \<and> constraints_ok db'"
      using A p False
      by (auto simp: recording_simps result_simps counted_def validate_receipt_def split: if_splits)
    then show ?thesis by (intro fresh [OF rt row same False refl]) auto
  qed
qed

lemma prepare_seal_cases:
  assumes "prepare_seal sha clock owner_id c key hash db = Inr (db', sn)"
  obtains (replayed) "db' = db" "sn_response sn \<noteq> None"
  | (fresh) r tracks ups gs db1 sealing where
      "sn_response sn = None" "locked_recording db owner_id (sc_recording_id c) = Inr r"
      "\<not> is_stored (rc_state r)" "rc_seal_idempotency_key r = None \<or> same_seal r key hash"
      "tracks = tracks_of db owner_id (rc_id r)" "length tracks = 2"
      "set (map tr_client_track_id tracks) = set (map fst (declared_tracks c))"
      "\<And>p. p \<in> set (parts_of_recording db owner_id (rc_id r)) \<Longrightarrow> pt_stored p"
      "with_track_ids tracks (parts_of_recording db owner_id (rc_id r)) = Inr ups"
      "dict_eq (map stored_descriptor ups) (declared_descriptors c)"
      "expected_gaps tracks c = Inr gs" "reserve_gaps clock owner_id (rc_id r) gs db = Inr db1"
      "seal_tracks tracks c = Inr sealing"
      "db' = set_recording (r\<lparr>rc_state := State_sealing, rc_seal_idempotency_key := Some key,
         rc_seal_request_hash := Some hash, rc_ended_at := Some (instant_of (sc_ended_at c))\<rparr>)
         (fold set_track sealing db1)" "constraints_ok db'"
      "sn_parts sn = map (\<lambda>(u, p). \<lparr>sp_track_id = u, sp_sequence = pt_sequence p,
         sp_byte_length = pt_byte_length p, sp_object_key = pt_object_key p\<rparr>) ups"
proof -
  from assms obtain r where r: "locked_recording db owner_id (sc_recording_id c) = Inr r"
    by (auto simp: prepare_seal_def recording_simps result_simps)
  note A = assms [unfolded prepare_seal_def recording_simps r bind_result.simps Let_def]
  show ?thesis
  proof (cases "is_stored (rc_state r)")
    case True
    then show ?thesis using A by (intro replayed) (auto split: if_splits)
  next
    case False
    let ?tracks = "tracks_of db owner_id (rc_id r)" and ?parts = "parts_of_recording db owner_id (rc_id r)"
    from A False obtain ups gs db1 sealing where
      "\<not> (rc_seal_idempotency_key r \<noteq> None \<and> \<not> same_seal r key hash)"
      "\<not> (length ?tracks \<noteq> 2 \<or> set (map tr_client_track_id ?tracks) \<noteq> set (map fst (declared_tracks c)))"
      "list_all pt_stored ?parts" "with_track_ids ?tracks ?parts = Inr ups"
      "dict_eq (map stored_descriptor ups) (declared_descriptors c)"
      "expected_gaps ?tracks c = Inr gs" "reserve_gaps clock owner_id (rc_id r) gs db = Inr db1"
      "seal_tracks ?tracks c = Inr sealing"
      "db' = set_recording (r\<lparr>rc_state := State_sealing, rc_seal_idempotency_key := Some key,
         rc_seal_request_hash := Some hash, rc_ended_at := Some (instant_of (sc_ended_at c))\<rparr>)
         (fold set_track sealing db1)" "constraints_ok db'"
      "sn = \<lparr>sn_stored_part_hashes = map (\<lambda>(u, p). ((u, pt_sequence p), pt_plaintext_sha256 p)) ups,
         sn_parts = map (\<lambda>(u, p). \<lparr>sp_track_id = u, sp_sequence = pt_sequence p,
           sp_byte_length = pt_byte_length p, sp_object_key = pt_object_key p\<rparr>) ups,
         sn_response = None\<rparr>"
      by (simp only: if_False simp_thms result_simps recording_simps prod.inject sum.inject
          guard_Inr_iff) blast
    then show ?thesis
      by (intro fresh [OF _ r False _ refl, of ups gs db1 sealing]) (auto simp: list_all_iff)
  qed
qed

lemma finalize_seal_cases:
  assumes "finalize_seal now owner_id c key hash manifests db = Inr (db', s)"
  obtains (replayed) r where "db' = db" "locked_recording db owner_id (sc_recording_id c) = Inr r"
      "is_stored (rc_state r)"
  | (fresh) r stored st where
      "locked_recording db owner_id (sc_recording_id c) = Inr r"
      "rc_state r = State_sealing" "same_seal r key hash"
      "map_result (store_track now c manifests) (tracks_of db owner_id (rc_id r)) = Inr stored"
      "is_stored st"
      "db' = set_recording (r\<lparr>rc_state := st, rc_coverage_status := Some (sc_coverage_status c),
         rc_seal_result := Some s, rc_audio_created_on_server := True, rc_sealed_at := Some now\<rparr>)
         (fold set_track stored db)" "constraints_ok db'"
proof -
  from assms obtain r where r: "locked_recording db owner_id (sc_recording_id c) = Inr r"
    by (auto simp: finalize_seal_def recording_simps result_simps)
  note A = assms [unfolded finalize_seal_def recording_simps r bind_result.simps Let_def]
  show ?thesis
  proof (cases "is_stored (rc_state r)")
    case True
    then show ?thesis using A r by (intro replayed) (auto split: if_splits option.splits)
  next
    case False
    define st where
      "st = (if sc_coverage_status c = Stored_with_gaps then State_stored_with_gaps else State_stored)"
    have "is_stored st" by (simp add: is_stored_def st_def)
    moreover from A False obtain stored where
      "rc_state r = State_sealing" "same_seal r key hash"
      "map_result (store_track now c manifests) (tracks_of db owner_id (rc_id r)) = Inr stored"
      "db' = set_recording (r\<lparr>rc_state := st, rc_coverage_status := Some (sc_coverage_status c),
         rc_seal_result := Some s, rc_audio_created_on_server := True, rc_sealed_at := Some now\<rparr>)
         (fold set_track stored db)" "constraints_ok db'"
      by (simp only: if_False simp_thms result_simps recording_simps st_def [symmetric] prod.inject
          sum.inject guard_Inr_iff) blast
    ultimately show ?thesis using r by (intro fresh) auto
  qed
qed

lemma attach_interview_cases:
  assumes "attach_interview owner_id i recording_id db = Inr db'"
  obtains r where "locked_recording db owner_id recording_id = Inr r"
      "db' = set_recording (r\<lparr>rc_interview_id := Some i\<rparr>) db" "constraints_ok db'"
  using assms
  by (auto simp: attach_interview_def recording_simps result_simps split: if_splits)

section \<open>The invariant of the tables\<close>

definition closed_state :: "recording_state \<Rightarrow> bool" where
  "closed_state st \<longleftrightarrow> st \<in> {State_sealing, State_stored, State_stored_with_gaps}"

definition ids_ok :: "recording_db \<Rightarrow> bool" where
  "ids_ok db \<longleftrightarrow>
     distinct (map rc_id (rdb_recordings db)) \<and> distinct (map tr_id (rdb_tracks db))
     \<and> distinct (map pt_id (rdb_parts db))
     \<and> (\<forall>i \<in> set (map rc_id (rdb_recordings db)) \<union> set (map tr_id (rdb_tracks db))
          \<union> set (map pt_id (rdb_parts db)). i < rdb_next_id db)"

definition part_end :: "part_row \<Rightarrow> int" where
  "part_end p = pt_sample_start p + pt_sample_count p"

definition parts_disjoint :: "part_row list \<Rightarrow> bool" where
  "parts_disjoint ps \<longleftrightarrow>
     (\<forall>p \<in> set ps. \<forall>q \<in> set ps. part_track p = part_track q \<and> pt_id p \<noteq> pt_id q \<longrightarrow>
        part_end p \<le> pt_sample_start q \<or> part_end q \<le> pt_sample_start p)"

definition closed_means_stored :: "recording_db \<Rightarrow> bool" where
  "closed_means_stored db \<longleftrightarrow>
     (\<forall>r \<in> set (rdb_recordings db). \<forall>p \<in> set (rdb_parts db).
        closed_state (rc_state r) \<and> pt_recording_id p = rc_id r \<longrightarrow> pt_stored p)"

definition part_key_ok :: "part_row \<Rightarrow> bool" where
  "part_key_ok p \<longleftrightarrow>
     validate_key_sha256 (pt_object_key p) (pt_plaintext_sha256 p)
       = Inr (pt_object_key p, pt_plaintext_sha256 p)"

definition track_counts :: "recording_db \<Rightarrow> track_row \<Rightarrow> bool" where
  "track_counts db t \<longleftrightarrow>
     tr_stored_part_count t = int (length (stored_parts db (track_ref t)))
     \<and> tr_stored_byte_length t = sum_list (map pt_byte_length (stored_parts db (track_ref t)))
     \<and> (is_stored (tr_state t) \<or> tr_high_water_sample t = high_water 0 (stored_parts db (track_ref t)))"

definition tracks_follow :: "recording_db \<Rightarrow> bool" where
  "tracks_follow db \<longleftrightarrow>
     (\<forall>r \<in> set (rdb_recordings db). \<forall>t \<in> set (rdb_tracks db).
        tr_recording_id t = rc_id r \<and> \<not> is_stored (rc_state r) \<longrightarrow> \<not> is_stored (tr_state t))"

definition recording_inv :: "recording_db \<Rightarrow> bool" where
  "recording_inv db \<longleftrightarrow>
     constraints_ok db \<and> ids_ok db \<and> parts_disjoint (rdb_parts db) \<and> closed_means_stored db
     \<and> list_all part_key_ok (rdb_parts db) \<and> list_all (track_counts db) (rdb_tracks db)
     \<and> tracks_follow db"

lemma recording_invD:
  assumes "recording_inv db"
  shows "constraints_ok db" "ids_ok db" "parts_disjoint (rdb_parts db)" "closed_means_stored db"
    "list_all part_key_ok (rdb_parts db)" "list_all (track_counts db) (rdb_tracks db)"
    "tracks_follow db"
  using assms by (simp_all add: recording_inv_def)

lemma same_id:
  assumes "ids_ok db"
  shows "r \<in> set (rdb_recordings db) \<Longrightarrow> r' \<in> set (rdb_recordings db) \<Longrightarrow> rc_id r = rc_id r' \<Longrightarrow> r = r'"
    "t \<in> set (rdb_tracks db) \<Longrightarrow> t' \<in> set (rdb_tracks db) \<Longrightarrow> tr_id t = tr_id t' \<Longrightarrow> t = t'"
    "p \<in> set (rdb_parts db) \<Longrightarrow> p' \<in> set (rdb_parts db) \<Longrightarrow> pt_id p = pt_id p' \<Longrightarrow> p = p'"
  using assms by (auto simp: ids_ok_def distinct_map dest: inj_onD)

lemma below_next_id:
  assumes "ids_ok db"
  shows "r \<in> set (rdb_recordings db) \<Longrightarrow> rc_id r < rdb_next_id db"
    "t \<in> set (rdb_tracks db) \<Longrightarrow> tr_id t < rdb_next_id db"
    "p \<in> set (rdb_parts db) \<Longrightarrow> pt_id p < rdb_next_id db"
  using assms by (auto simp: ids_ok_def)

lemma map_id_replace_row [simp]: "map key (replace_row key r rows) = map key rows"
  by (rule map_replace_row) simp

lemma replace_row_part:
  assumes "ids_ok db" "p \<in> set (rdb_parts db)" "pt_id p' = pt_id p"
  shows "set (rdb_parts (set_part p' db)) = insert p' {q \<in> set (rdb_parts db). pt_id q \<noteq> pt_id p}"
  using assms by (auto simp: mem_replace_row)

lemma stored_parts_other:
  assumes "rdb_parts db' = replace_row pt_id p' (rdb_parts db)"
    "\<And>q. q \<in> set (rdb_parts db) \<Longrightarrow> pt_id q = pt_id p' \<Longrightarrow> part_track q \<noteq> ref" "part_track p' \<noteq> ref"
  shows "stored_parts db' ref = stored_parts db ref"
  using filter_replace_row [of "rdb_parts db" pt_id p' "\<lambda>q. part_track q = ref"] assms
  by (simp add: stored_parts_def parts_of_track_def)

definition part_facts_of :: "part_row \<Rightarrow> int \<times> int \<times> int \<times> int" where
  "part_facts_of p = (pt_sample_start p, pt_sequence p, pt_sample_count p, pt_byte_length p)"

lemma facts_stored_parts:
  "map part_facts_of (stored_parts db ref) =
     sort_key (\<lambda>f. (fst f, fst (snd f)))
       (map part_facts_of (filter (\<lambda>p. pt_stored p \<and> part_track p = ref) (rdb_parts db)))"
  by (simp add: stored_parts_def parts_of_track_def sort_key_map part_facts_of_def conj_commute)

lemma high_water_facts: "map part_facts_of ps = map part_facts_of qs \<Longrightarrow> high_water c ps = high_water c qs"
proof (induction ps arbitrary: c qs)
  case (Cons p ps)
  then show ?case by (cases qs) (auto simp: part_facts_of_def)
qed simp

lemma counts_by_facts:
  assumes "map part_facts_of ps = map part_facts_of qs"
  shows "length ps = length qs" "sum_list (map pt_byte_length ps) = sum_list (map pt_byte_length qs)"
    "high_water 0 ps = high_water 0 qs"
proof -
  show "length ps = length qs" using assms by (metis length_map)
  have "map pt_byte_length xs = map (\<lambda>f. snd (snd (snd f))) (map part_facts_of xs)" for xs
    by (simp add: part_facts_of_def)
  then show "sum_list (map pt_byte_length ps) = sum_list (map pt_byte_length qs)" using assms by metis
  show "high_water 0 ps = high_water 0 qs" by (rule high_water_facts [OF assms])
qed

lemma stored_parts_same_facts:
  assumes "list_all2 (\<lambda>p q. pt_stored p = pt_stored q \<and> part_track p = part_track q
      \<and> part_facts_of p = part_facts_of q) (rdb_parts db) (rdb_parts db')"
  shows "map part_facts_of (stored_parts db ref) = map part_facts_of (stored_parts db' ref)"
proof -
  have "map part_facts_of (filter (\<lambda>p. pt_stored p \<and> part_track p = ref) ps)
      = map part_facts_of (filter (\<lambda>p. pt_stored p \<and> part_track p = ref) qs)"
    if "list_all2 (\<lambda>p q. pt_stored p = pt_stored q \<and> part_track p = part_track q
      \<and> part_facts_of p = part_facts_of q) ps qs" for ps qs
    using that by (induction) auto
  then show ?thesis using assms by (simp add: facts_stored_parts)
qed

subsection \<open>Creating\<close>

lemma part_track_exists:
  assumes "constraints_ok db" "p \<in> set (rdb_parts db)"
  obtains t where "t \<in> set (rdb_tracks db)" "part_track p = track_ref t"
proof -
  have "part_track p \<in> track_ref ` set (rdb_tracks db)"
    using assms by (simp add: constraints_ok_def part_keys_ok_def list_all_iff)
  then show ?thesis using that by blast
qed

lemma track_recording_exists:
  assumes "constraints_ok db" "t \<in> set (rdb_tracks db)"
  obtains r where "r \<in> set (rdb_recordings db)" "rc_id r = tr_recording_id t" "rc_owner_id r = tr_owner_id t"
proof -
  have "(tr_owner_id t, tr_recording_id t) \<in> (\<lambda>r. (rc_owner_id r, rc_id r)) ` set (rdb_recordings db)"
    using assms by (simp add: constraints_ok_def track_keys_ok_def list_all_iff)
  then show ?thesis using that by auto
qed

lemma no_parts_yet:
  assumes "recording_inv db" "rdb_next_id db \<le> snd (snd ref)"
  shows "stored_parts db ref = []"
proof -
  have "part_track p \<noteq> ref" if p: "p \<in> set (rdb_parts db)" for p
  proof -
    obtain t where "t \<in> set (rdb_tracks db)" "part_track p = track_ref t"
      by (rule part_track_exists [OF recording_invD(1) [OF assms(1)] p])
    with below_next_id(2) [OF recording_invD(2) [OF assms(1)], of t] assms(2) show ?thesis
      by (auto simp: track_ref_def)
  qed
  then show ?thesis by (simp add: stored_parts_def parts_of_track_def filter_False)
qed

lemma stored_parts_cong: "rdb_parts db' = rdb_parts db \<Longrightarrow> stored_parts db' = stored_parts db"
  by (simp add: stored_parts_def parts_of_track_def fun_eq_iff)

lemma track_counts_cong:
  assumes "rdb_parts db' = rdb_parts db"
  shows "track_counts db' = track_counts db"
  unfolding fun_eq_iff track_counts_def stored_parts_cong [OF assms] by simp

lemma repo_create_inv:
  assumes inv: "recording_inv db" and c: "repo_create clock owner_id c key hash db = Inr (db', x)"
  shows "recording_inv db'"
  using c
proof (cases rule: repo_create_cases)
  case fresh
  let ?n = "rdb_next_id db"
  let ?new = "map (\<lambda>(k, d). new_track (clock (Suc k)) (?n + 1 + int k) owner_id ?n d) (enumerate 0 (cc_tracks c))"
  let ?r = "new_recording (clock 0) ?n owner_id c key hash"
  note D = recording_invD [OF inv] and B = below_next_id [OF recording_invD(2) [OF inv]]
  have rows: "rdb_recordings db' = rdb_recordings db @ [?r]" "rdb_tracks db' = rdb_tracks db @ ?new"
    "rdb_parts db' = rdb_parts db" "rdb_next_id db' = ?n + 1 + int (length (cc_tracks c))"
    unfolding fresh(3) by (simp_all add: add_tracks_def)
  have ids: "map tr_id ?new = map (\<lambda>k. ?n + 1 + int k) [0..<length (cc_tracks c)]"
    by (rule nth_equalityI) (simp_all add: nth_enumerate_eq new_track_def)
  have new: "?n < tr_id t \<and> tr_stored_part_count t = 0 \<and> tr_stored_byte_length t = 0
      \<and> tr_high_water_sample t = 0" if "t \<in> set ?new" for t
    using that by (auto simp: new_track_def in_set_enumerate_eq)
  have "ids_ok db'"
  proof -
    have "distinct (map rc_id (rdb_recordings db @ [?r]))"
      using D(2) B(1) by (auto simp: ids_ok_def new_recording_def)
    moreover have "distinct (map tr_id (rdb_tracks db) @ map tr_id ?new)"
    proof -
      have "distinct (map tr_id ?new)" unfolding ids by (simp add: distinct_map inj_on_def)
      moreover have "set (map tr_id (rdb_tracks db)) \<inter> set (map tr_id ?new) = {}"
        unfolding ids using B(2) by fastforce
      ultimately show ?thesis using D(2) unfolding ids_ok_def distinct_append by blast
    qed
    moreover have "i < rdb_next_id db'" if "i \<in> set (map tr_id ?new)" for i
      using that unfolding ids rows(4) by auto
    ultimately show ?thesis
      using D(2) unfolding ids_ok_def rows map_append set_append ball_Un
      by (auto simp: new_recording_def)
  qed
  moreover have "closed_means_stored db'"
    using D(4) by (auto simp: closed_means_stored_def rows new_recording_def closed_state_def)
  moreover have "list_all (track_counts db') (rdb_tracks db')"
  proof -
    have "track_counts db t" if "t \<in> set ?new" for t
      using new [OF that] no_parts_yet [OF inv, of "track_ref t"]
      by (simp add: track_counts_def track_ref_def)
    then show ?thesis
      using D(6) unfolding rows(2) track_counts_cong [OF rows(3)] list_all_iff set_append by blast
  qed
  moreover have "tracks_follow db'"
  proof -
    have "tr_recording_id t \<noteq> ?n" if "t \<in> set (rdb_tracks db)" for t
      using track_recording_exists [OF D(1) that] B(1) by (metis less_irrefl)
    moreover have "\<not> is_stored (tr_state t)" if "t \<in> set ?new" for t
      using that by (auto simp: new_track_def is_stored_def)
    ultimately show ?thesis
      using D(7) unfolding tracks_follow_def rows(1,2) set_append ball_Un
      by (auto simp: new_recording_def)
  qed
  ultimately show ?thesis
    using D(3,5) fresh(4) by (simp add: recording_inv_def rows)
qed (use inv in simp)

subsection \<open>Reserving and storing a part\<close>

lemma in_set_recording:
  "x \<in> set (rdb_recordings (set_recording r db)) \<Longrightarrow>
     x = r \<or> x \<in> set (rdb_recordings db) \<and> rc_id x \<noteq> rc_id r"
  by (auto simp: mem_replace_row split: if_splits)

lemma in_set_track:
  "x \<in> set (rdb_tracks (set_track t db)) \<Longrightarrow>
     x = t \<or> x \<in> set (rdb_tracks db) \<and> tr_id x \<noteq> tr_id t"
  by (auto simp: mem_replace_row split: if_splits)

lemma in_set_part:
  "x \<in> set (rdb_parts (set_part p db)) \<Longrightarrow>
     x = p \<or> x \<in> set (rdb_parts db) \<and> pt_id x \<noteq> pt_id p"
  by (auto simp: mem_replace_row split: if_splits)

lemma tracks_follow_edit:
  assumes "tracks_follow db" "r \<in> set (rdb_recordings db)" "t \<in> set (rdb_tracks db)"
    "tr_recording_id t = rc_id r" "rc_id r' = rc_id r" "tr_id t' = tr_id t"
    "tr_recording_id t' = rc_id r" "\<not> is_stored (rc_state r)" "\<not> is_stored (tr_state t')"
    "rdb_recordings db' = replace_row rc_id r' (rdb_recordings db)"
    "rdb_tracks db' = replace_row tr_id t' (rdb_tracks db)"
  shows "tracks_follow db'"
  unfolding tracks_follow_def
proof (intro ballI impI)
  fix x u
  assume x: "x \<in> set (rdb_recordings db')" and u: "u \<in> set (rdb_tracks db')"
    and s: "tr_recording_id u = rc_id x \<and> \<not> is_stored (rc_state x)"
  show "\<not> is_stored (tr_state u)"
  proof (cases "u = t'")
    case False
    with u assms(11) have u0: "u \<in> set (rdb_tracks db)" by (auto simp: mem_replace_row split: if_splits)
    show ?thesis
    proof (cases "x = r'")
      case True
      with s u0 assms show ?thesis by (auto simp: tracks_follow_def)
    next
      case False
      with x assms(10) have "x \<in> set (rdb_recordings db)" by (auto simp: mem_replace_row split: if_splits)
      with s u0 assms(1) show ?thesis by (auto simp: tracks_follow_def)
    qed
  qed (use assms in simp)
qed

lemma reserve_part_inv:
  assumes inv: "recording_inv db"
    and res: "reserve_part clock owner_id m object_key key hash db = Inr (db', v)"
    and k: "validate_key_sha256 object_key (pu_plaintext_sha256 m) = Inr (object_key, pu_plaintext_sha256 m)"
  shows "recording_inv db'"
  using res
proof (cases rule: reserve_part_cases)
  case (fresh r t p)
  note D = recording_invD [OF inv] and B = below_next_id [OF recording_invD(2) [OF inv]]
  have rt: "r \<in> set (rdb_recordings db)" "t \<in> set (rdb_tracks db)" "tr_recording_id t = rc_id r"
    using locked_track_Inr [OF fresh(1)] locked_recording_Inr by blast+
  have rows: "rdb_recordings db' = replace_row rc_id (r\<lparr>rc_state := State_uploading\<rparr>) (rdb_recordings db)"
    "rdb_tracks db' = replace_row tr_id (t\<lparr>tr_state := State_uploading\<rparr>) (rdb_tracks db)"
    "rdb_parts db' = rdb_parts db @ [p]" "rdb_next_id db' = rdb_next_id db + 1"
    unfolding fresh(5) by simp_all
  have p: "pt_id p = rdb_next_id db" "part_track p = (owner_id, rc_id r, tr_id t)" "\<not> pt_stored p"
    "pt_sample_start p = pu_sample_start m" "pt_sample_count p = pu_sample_count m"
    "pt_recording_id p = rc_id r"
    unfolding fresh(4) by (simp_all add: new_part_def part_track_def)
  have "ids_ok db'"
    using D(2) unfolding ids_ok_def rows map_append map_id_replace_row set_append ball_Un
    by (auto simp: p)
  moreover have "parts_disjoint (rdb_parts db')"
  proof -
    have "part_end q \<le> pt_sample_start p \<or> part_end p \<le> pt_sample_start q"
      if "q \<in> set (rdb_parts db)" "part_track q = part_track p" for q
      using fresh(3) [OF that(1)] that(2) p by (auto simp: overlaps_def part_end_def)
    then show ?thesis
      using D(3) unfolding parts_disjoint_def rows set_append ball_Un by simp metis
  qed
  moreover have "closed_means_stored db'"
    using D(4) unfolding closed_means_stored_def rows set_append ball_Un
    by (auto simp: mem_replace_row p closed_state_def split: if_splits)
  moreover have "list_all part_key_ok (rdb_parts db')"
    using D(5) k unfolding rows fresh(4) by (simp add: part_key_ok_def new_part_def)
  moreover have "list_all (track_counts db') (rdb_tracks db')"
  proof -
    have same: "stored_parts db' = stored_parts db"
      using p(3) by (simp add: stored_parts_def parts_of_track_def fun_eq_iff rows)
    have "track_counts db' u" if "track_counts db u" for u
      using that by (simp add: track_counts_def same)
    moreover have "track_counts db (t\<lparr>tr_state := State_uploading\<rparr>)"
      using D(6,7) rt fresh(2)
      by (auto simp: list_all_iff track_counts_def track_ref_def tracks_follow_def is_stored_def)
    ultimately show ?thesis
      using D(6) rt(2) unfolding rows(2) list_all_iff mem_replace_row by auto
  qed
  moreover have "tracks_follow db'"
    by (rule tracks_follow_edit [OF D(7) rt(1,2,3) _ _ _ _ _ rows(1,2)])
      (use fresh(2) rt in \<open>auto simp: is_stored_def\<close>)
  ultimately show ?thesis using fresh(6) by (simp add: recording_inv_def)
qed (use inv in simp)

lemma open_of_unstored_part:
  assumes "recording_inv db" "p \<in> set (rdb_parts db)" "\<not> pt_stored p" "r \<in> set (rdb_recordings db)"
    "pt_recording_id p = rc_id r"
  shows "\<not> closed_state (rc_state r)"
  using recording_invD(4) [OF assms(1)] assms(2-5) by (auto simp: closed_means_stored_def)

lemma parts_disjoint_replace:
  assumes "parts_disjoint ps" "p \<in> set ps" "pt_id p' = pt_id p" "part_track p' = part_track p"
    "pt_sample_start p' = pt_sample_start p" "part_end p' = part_end p"
  shows "parts_disjoint (replace_row pt_id p' ps)"
proof -
  have "\<exists>y \<in> set ps. pt_id x = pt_id y \<and> part_track x = part_track y
      \<and> pt_sample_start x = pt_sample_start y \<and> part_end x = part_end y"
    if "x \<in> set (replace_row pt_id p' ps)" for x
    using that assms(2-6) by (auto simp: mem_replace_row split: if_splits)
  then show ?thesis using assms(1) unfolding parts_disjoint_def by metis
qed

lemma finalize_part_inv:
  assumes inv: "recording_inv db" and fin: "finalize_part now owner_id m object_key key db = Inr (db', s)"
  shows "recording_inv db'"
  using fin
proof (cases rule: finalize_part_cases)
  case (fresh r t p stored)
  note D = recording_invD [OF inv]
  let ?ref = "(owner_id, rc_id r, tr_id t)"
  let ?p = "p\<lparr>pt_stored := True, pt_stored_at := Some now, pt_result := Some s\<rparr>"
  let ?p1 = "p\<lparr>pt_stored := True, pt_stored_at := Some now\<rparr>"
  let ?t = "counted (high_water 0 stored) (int (length stored)) (sum_list (map pt_byte_length stored)) t"
  have rt: "r \<in> set (rdb_recordings db)" "t \<in> set (rdb_tracks db)" "tr_recording_id t = rc_id r"
    "tr_owner_id t = owner_id"
    using locked_track_Inr [OF fresh(1)] locked_recording_Inr by blast+
  have rows: "rdb_recordings db' = replace_row rc_id (r\<lparr>rc_state := State_uploading\<rparr>) (rdb_recordings db)"
    "rdb_tracks db' = replace_row tr_id ?t (rdb_tracks db)"
    "rdb_parts db' = replace_row pt_id ?p (rdb_parts db)" "rdb_next_id db' = rdb_next_id db"
    unfolding fresh(9) by simp_all
  have pr: "pt_recording_id p = rc_id r" using fresh(3) by (simp add: part_track_def)
  have ropen: "\<not> closed_state (rc_state r)" by (rule open_of_unstored_part [OF inv fresh(2,7) rt(1) pr])
  have "ids_ok db'" using D(2) unfolding ids_ok_def rows map_id_replace_row by simp
  moreover have "parts_disjoint (rdb_parts db')"
    unfolding rows by (rule parts_disjoint_replace [OF D(3) fresh(2)]) (simp_all add: part_track_def part_end_def)
  moreover have "closed_means_stored db'"
    using D(4) pr unfolding closed_means_stored_def rows
    by (auto simp: mem_replace_row closed_state_def split: if_splits)
  moreover have "list_all part_key_ok (rdb_parts db')"
    using D(5) fresh(2) unfolding rows by (auto simp: part_key_ok_def list_all_iff mem_replace_row split: if_splits)
  moreover have "list_all (track_counts db') (rdb_tracks db')"
  proof -
    have facts: "map part_facts_of stored = map part_facts_of (stored_parts db' ?ref)"
      unfolding fresh(8)
      by (rule stored_parts_same_facts)
        (simp add: rows replace_row_def list_all2_conv_all_nth part_facts_of_def part_track_def)
    have "track_counts db' ?t"
      using counts_by_facts [OF facts] rt by (simp add: track_counts_def counted_def track_ref_def)
    moreover have "track_counts db' u" if "u \<in> set (rdb_tracks db)" "tr_id u \<noteq> tr_id t" for u
    proof -
      have "stored_parts db' (track_ref u) = stored_parts db (track_ref u)"
      proof (rule stored_parts_other [OF rows(3)])
        fix q assume "q \<in> set (rdb_parts db)" "pt_id q = pt_id ?p"
        then have "q = p" using same_id(3) [OF D(2), of q p] fresh(2) by simp
        then show "part_track q \<noteq> track_ref u" using fresh(3) that(2) by (simp add: track_ref_def)
      qed (use fresh(3) that(2) in \<open>simp add: track_ref_def part_track_def\<close>)
      then show ?thesis using D(6) that(1) by (auto simp: track_counts_def list_all_iff)
    qed
    ultimately show ?thesis
      unfolding rows(2) list_all_iff mem_replace_row by (auto simp: counted_def)
  qed
  moreover have "tracks_follow db'"
    by (rule tracks_follow_edit [OF D(7) rt(1,2,3) _ _ _ _ _ rows(1,2)])
      (use ropen rt in \<open>auto simp: is_stored_def closed_state_def counted_def\<close>)
  ultimately show ?thesis using fresh(10) by (simp add: recording_inv_def)
qed (use inv in simp)

subsection \<open>Sealing\<close>

lemma fold_set_track_rows [simp]:
  "rdb_recordings (fold set_track ts db) = rdb_recordings db"
  "rdb_parts (fold set_track ts db) = rdb_parts db" "rdb_gaps (fold set_track ts db) = rdb_gaps db"
  "rdb_next_id (fold set_track ts db) = rdb_next_id db"
  "map tr_id (rdb_tracks (fold set_track ts db)) = map tr_id (rdb_tracks db)"
  by (induction ts arbitrary: db) (simp_all add: set_track_def)

lemma in_fold_set_track:
  "x \<in> set (rdb_tracks (fold set_track ts db)) \<Longrightarrow>
     x \<in> set ts \<or> x \<in> set (rdb_tracks db) \<and> tr_id x \<notin> tr_id ` set ts"
proof (induction ts arbitrary: db)
  case (Cons t ts)
  then have "x \<in> set (rdb_tracks (fold set_track ts (set_track t db)))" by simp
  from Cons.IH [OF this] in_set_track [of x t db] show ?case by auto
qed simp

lemma part_owner:
  assumes "recording_inv db" "p \<in> set (rdb_parts db)" "r \<in> set (rdb_recordings db)"
    "pt_recording_id p = rc_id r"
  shows "pt_owner_id p = rc_owner_id r"
proof -
  note D = recording_invD [OF assms(1)]
  obtain t where t: "t \<in> set (rdb_tracks db)" "part_track p = track_ref t"
    by (rule part_track_exists [OF D(1) assms(2)])
  obtain r' where "r' \<in> set (rdb_recordings db)" "rc_id r' = tr_recording_id t" "rc_owner_id r' = tr_owner_id t"
    by (rule track_recording_exists [OF D(1) t(1)])
  with t assms(4) same_id(1) [OF D(2) assms(3), of r'] show ?thesis
    by (simp add: part_track_def track_ref_def)
qed

lemma edit_tracks_inv:
  assumes inv: "recording_inv db" and r: "r \<in> set (rdb_recordings db)" and id: "rc_id r' = rc_id r"
    and rows: "rdb_recordings db' = replace_row rc_id r' (rdb_recordings db)"
      "rdb_tracks db' = rdb_tracks (fold set_track ts db)" "rdb_parts db' = rdb_parts db"
      "rdb_next_id db \<le> rdb_next_id db'"
    and ok: "constraints_ok db'"
    and closed: "closed_state (rc_state r') \<Longrightarrow> closed_state (rc_state r) \<or>
        (\<forall>p \<in> set (rdb_parts db). pt_recording_id p = rc_id r \<longrightarrow> pt_stored p)"
    and ts: "\<And>u. u \<in> set ts \<Longrightarrow> track_counts db u \<and> tr_recording_id u = rc_id r
        \<and> (is_stored (rc_state r') \<or> \<not> is_stored (tr_state u))"
    and up: "is_stored (rc_state r) \<Longrightarrow> is_stored (rc_state r')"
  shows "recording_inv db'"
proof -
  note D = recording_invD [OF inv]
  have "ids_ok db'"
    using D(2) rows(4) unfolding ids_ok_def rows(1-3) map_id_replace_row fold_set_track_rows
    by (meson order_less_le_trans)
  moreover have "closed_means_stored db'"
    using D(4) closed id r unfolding closed_means_stored_def rows
    by (auto simp: mem_replace_row split: if_splits)
  moreover have "list_all (track_counts db') (rdb_tracks db')"
    using D(6) ts in_fold_set_track unfolding track_counts_cong [OF rows(3)] list_all_iff rows(2) by blast
  moreover have "tracks_follow db'"
    unfolding tracks_follow_def
  proof (intro ballI impI)
    fix x u
    assume x: "x \<in> set (rdb_recordings db')" and u: "u \<in> set (rdb_tracks db')"
      and s: "tr_recording_id u = rc_id x \<and> \<not> is_stored (rc_state x)"
    from x consider "x = r'" | "x \<in> set (rdb_recordings db)" "rc_id x \<noteq> rc_id r"
      unfolding rows(1) by (auto simp: mem_replace_row id split: if_splits)
    then show "\<not> is_stored (tr_state u)"
      using in_fold_set_track [OF u [unfolded rows(2)]] ts s up D(7) r id
      by cases (auto simp: tracks_follow_def)
  qed
  ultimately show ?thesis using D ok by (simp add: recording_inv_def rows)
qed

lemma seal_tracks_Inr:
  "seal_tracks tracks c = Inr sealing \<Longrightarrow> sealing = map (\<lambda>t. t\<lparr>tr_state := State_sealing\<rparr>) tracks"
  unfolding seal_tracks_def
  by (induction tracks arbitrary: sealing) (auto simp: result_simps split: if_splits)

lemma reserve_gaps_rows:
  "reserve_gaps clock owner_id rid gs db = Inr db1 \<Longrightarrow>
     rdb_recordings db1 = rdb_recordings db \<and> rdb_tracks db1 = rdb_tracks db
     \<and> rdb_parts db1 = rdb_parts db \<and> rdb_next_id db \<le> rdb_next_id db1"
  by (auto simp: reserve_gaps_def Let_def add_gaps_def split: if_splits)

lemma fold_set_track_cong:
  "rdb_tracks db = rdb_tracks db' \<Longrightarrow> rdb_tracks (fold set_track ts db) = rdb_tracks (fold set_track ts db')"
proof (induction ts arbitrary: db db')
  case (Cons t ts)
  then show ?case using Cons.IH [of "set_track t db" "set_track t db'"] by simp
qed simp

lemma in_tracks_of:
  "t \<in> set (tracks_of db owner_id rid) \<longleftrightarrow>
     t \<in> set (rdb_tracks db) \<and> tr_owner_id t = owner_id \<and> tr_recording_id t = rid"
  by (auto simp: tracks_of_def)

lemma prepare_seal_inv:
  assumes inv: "recording_inv db"
    and prep: "prepare_seal sha clock owner_id c key hash db = Inr (db', sn)"
  shows "recording_inv db'"
  using prep
proof (cases rule: prepare_seal_cases)
  case (fresh r tracks ups gs db1 sealing)
  note D = recording_invD [OF inv] and g = reserve_gaps_rows [OF fresh(12)]
  have r: "r \<in> set (rdb_recordings db)" "rc_owner_id r = owner_id" using locked_recording_Inr [OF fresh(2)] by auto
  have stored: "pt_stored p" if "p \<in> set (rdb_parts db)" "pt_recording_id p = rc_id r" for p
    using fresh(8) [of p] that part_owner [OF inv that(1) r(1) that(2)] r(2)
    by (simp add: parts_of_recording_def)
  have ts: "track_counts db u \<and> tr_recording_id u = rc_id r \<and> \<not> is_stored (tr_state u)"
    if "u \<in> set sealing" for u
  proof -
    from that obtain t where t: "u = t\<lparr>tr_state := State_sealing\<rparr>" "t \<in> set (rdb_tracks db)"
      "tr_recording_id t = rc_id r"
      unfolding seal_tracks_Inr [OF fresh(13)] fresh(5) by (auto simp: in_tracks_of)
    have "track_counts db t" "\<not> is_stored (tr_state t)"
      using D(6,7) t r(1) fresh(3) by (auto simp: list_all_iff tracks_follow_def)
    then show ?thesis using t by (simp add: track_counts_def track_ref_def is_stored_def)
  qed
  show ?thesis
    by (rule edit_tracks_inv [OF inv r(1) _ _ _ _ _ fresh(15), of _ sealing])
      (use fresh(3) g stored ts fold_set_track_cong [of db1 db] in \<open>simp_all add: fresh(14)\<close>)
qed (use inv in simp)

lemma store_track_Inr:
  assumes "store_track now c manifests t = Inr u"
  obtains m key digest size where "dict_get (declared_tracks c) (tr_client_track_id t) = Inr m"
    "u = t\<lparr>tr_state := (if tm_gaps m \<noteq> [] then State_stored_with_gaps else State_stored),
       tr_high_water_sample := tm_total_sample_count m,
       tr_total_sample_count := Some (tm_total_sample_count m),
       tr_pcm_sha256 := Some (tm_pcm_sha256 m), tr_timeline_sha256 := Some (tm_timeline_sha256 m),
       tr_manifest_object_key := Some key, tr_manifest_sha256 := Some digest,
       tr_manifest_byte_length := Some size, tr_sealed_at := Some now\<rparr>"
  using assms unfolding store_track_def by (auto simp: result_simps split: prod.splits)

lemma store_tracks_Inr:
  assumes "map_result (store_track now c manifests) tracks = Inr stored" "u \<in> set stored"
  obtains t where "t \<in> set tracks" "store_track now c manifests t = Inr u"
proof -
  from assms obtain k where "k < length stored" "u = stored ! k" by (auto simp: in_set_conv_nth)
  with assms(1) show ?thesis
    by (intro that [of "tracks ! k"]) (auto simp: map_result_Inr list_all2_conv_all_nth)
qed

lemma finalize_seal_inv:
  assumes inv: "recording_inv db"
    and fin: "finalize_seal now owner_id c key hash manifests db = Inr (db', s)"
  shows "recording_inv db'"
  using fin
proof (cases rule: finalize_seal_cases)
  case (fresh r stored st)
  note D = recording_invD [OF inv]
  have r: "r \<in> set (rdb_recordings db)" using locked_recording_Inr [OF fresh(1)] by blast
  have ts: "track_counts db u \<and> tr_recording_id u = rc_id r" if u: "u \<in> set stored" for u
  proof -
    obtain t where t: "t \<in> set (tracks_of db owner_id (rc_id r))" "store_track now c manifests t = Inr u"
      by (rule store_tracks_Inr [OF fresh(4) u])
    then have "track_counts db t" using D(6) by (simp add: in_tracks_of list_all_iff)
    then show ?thesis
      using t(1) by (cases rule: store_track_Inr [OF t(2)])
        (simp add: in_tracks_of track_counts_def track_ref_def is_stored_def)
  qed
  show ?thesis
    by (rule edit_tracks_inv [OF inv r _ _ _ _ _ fresh(7), of "r\<lparr>rc_state := st,
          rc_coverage_status := Some (sc_coverage_status c), rc_seal_result := Some s,
          rc_audio_created_on_server := True, rc_sealed_at := Some now\<rparr>" stored])
      (use fresh(2,5) ts in \<open>simp_all add: fresh(6) closed_state_def\<close>)
qed (use inv in simp)

lemma attach_interview_inv:
  assumes inv: "recording_inv db" and att: "attach_interview owner_id i recording_id db = Inr db'"
  shows "recording_inv db'"
  using att
proof (cases rule: attach_interview_cases)
  case (1 r)
  then have "r \<in> set (rdb_recordings db)" using locked_recording_Inr by blast
  then show ?thesis
    by (rule edit_tracks_inv [OF inv _ _ _ _ _ _ 1(3), of r "r\<lparr>rc_interview_id := Some i\<rparr>" "[]"]) (simp_all add: 1(2))
qed

end
