(* ===== verification/Recording_Steps.thy ===== *)
theory Recording_Steps
  imports Recording_Safety
begin

text \<open>
  The requests of recording ingest as steps that may interleave, and the invariant of every world
  they can lead to: what was sealed is what was uploaded, verified and declared, and stays so.
\<close>

section \<open>Frames\<close>

text \<open>A transaction writes rows of one recording.\<close>

definition others_same :: "int \<Rightarrow> recording_db \<Rightarrow> recording_db \<Rightarrow> bool" where
  "others_same rid db db' \<longleftrightarrow>
     filter (\<lambda>r. rc_id r \<noteq> rid) (rdb_recordings db') = filter (\<lambda>r. rc_id r \<noteq> rid) (rdb_recordings db)
     \<and> filter (\<lambda>t. tr_recording_id t \<noteq> rid) (rdb_tracks db') = filter (\<lambda>t. tr_recording_id t \<noteq> rid) (rdb_tracks db)
     \<and> filter (\<lambda>p. pt_recording_id p \<noteq> rid) (rdb_parts db') = filter (\<lambda>p. pt_recording_id p \<noteq> rid) (rdb_parts db)
     \<and> filter (\<lambda>g. ga_recording_id g \<noteq> rid) (rdb_gaps db') = filter (\<lambda>g. ga_recording_id g \<noteq> rid) (rdb_gaps db)"

definition rows_of ::
    "recording_db \<Rightarrow> int \<Rightarrow> recording_row list \<times> track_row list \<times> part_row list \<times> gap_row list" where
  "rows_of db rid =
     (filter (\<lambda>r. rc_id r = rid) (rdb_recordings db), filter (\<lambda>t. tr_recording_id t = rid) (rdb_tracks db),
      filter (\<lambda>p. pt_recording_id p = rid) (rdb_parts db), filter (\<lambda>g. ga_recording_id g = rid) (rdb_gaps db))"

lemma filter_eq_of_ne:
  assumes "filter (\<lambda>x. f x \<noteq> a) xs = filter (\<lambda>x. f x \<noteq> a) ys" "b \<noteq> a"
  shows "filter (\<lambda>x. f x = b) xs = filter (\<lambda>x. f x = b) ys"
proof -
  have "filter (\<lambda>x. f x = b) zs = filter (\<lambda>x. f x = b) (filter (\<lambda>x. f x \<noteq> a) zs)" for zs
    using assms(2) by (induction zs) auto
  then show ?thesis using assms(1) by metis
qed

lemma others_same_rows: "others_same rid db db' \<Longrightarrow> i \<noteq> rid \<Longrightarrow> rows_of db' i = rows_of db i"
  unfolding others_same_def rows_of_def by (auto intro: filter_eq_of_ne)

lemma others_same_refl: "others_same rid db db"
  by (simp add: others_same_def)

lemma recordings_replace:
  "filter (\<lambda>x. rc_id x \<noteq> rc_id r) (replace_row rc_id r rows) = filter (\<lambda>x. rc_id x \<noteq> rc_id r) rows"
  by (rule filter_replace_row) auto

lemma tracks_replace:
  assumes "ids_ok db" "t \<in> set (rdb_tracks db)" "tr_id t' = tr_id t" "tr_recording_id t' = tr_recording_id t"
  shows "filter (\<lambda>x. tr_recording_id x \<noteq> tr_recording_id t) (replace_row tr_id t' (rdb_tracks db))
    = filter (\<lambda>x. tr_recording_id x \<noteq> tr_recording_id t) (rdb_tracks db)"
proof (rule filter_replace_row)
  fix x assume "x \<in> set (rdb_tracks db)" "tr_id x = tr_id t'"
  then have "x = t" using same_id(2) [OF assms(1) _ assms(2), of x] assms(3) by simp
  then show "\<not> tr_recording_id x \<noteq> tr_recording_id t" by simp
qed (use assms in simp)

lemma tracks_fold:
  assumes "ids_ok db" "\<And>u. u \<in> set ts \<Longrightarrow> tr_recording_id u = rid
      \<and> (\<exists>t \<in> set (rdb_tracks db). tr_id t = tr_id u \<and> tr_recording_id t = rid)"
  shows "filter (\<lambda>x. tr_recording_id x \<noteq> rid) (rdb_tracks (fold set_track ts db))
    = filter (\<lambda>x. tr_recording_id x \<noteq> rid) (rdb_tracks db)"
  using assms
proof (induction ts arbitrary: db)
  case (Cons u ts)
  obtain t where t: "t \<in> set (rdb_tracks db)" "tr_id t = tr_id u" "tr_recording_id t = rid"
    and u: "tr_recording_id u = rid" using Cons.prems(2) [of u] by auto
  have ids: "ids_ok (set_track u db)" using Cons.prems(1) by (simp add: ids_ok_def)
  have "\<exists>t' \<in> set (rdb_tracks (set_track u db)). tr_id t' = tr_id v \<and> tr_recording_id t' = rid"
    if v: "v \<in> set ts" for v
  proof -
    obtain w where w: "w \<in> set (rdb_tracks db)" "tr_id w = tr_id v" "tr_recording_id w = rid"
      using Cons.prems(2) [of v] v by auto
    have "tr_id u \<in> tr_id ` set (rdb_tracks db)" using t by (metis imageI)
    then show ?thesis using w t u by (cases "tr_id w = tr_id u") (auto simp: mem_replace_row)
  qed
  then have "filter (\<lambda>x. tr_recording_id x \<noteq> rid) (rdb_tracks (fold set_track ts (set_track u db)))
      = filter (\<lambda>x. tr_recording_id x \<noteq> rid) (rdb_tracks (set_track u db))"
    using Cons.IH [OF ids] Cons.prems(2) by auto
  then show ?case using tracks_replace [OF Cons.prems(1) t(1), of u] t u by simp
qed simp

text \<open>
  The frame of each transaction: it leaves the tables alone, or it writes rows of a recording in a
  state that still allows it.
\<close>

lemma repo_create_frame:
  assumes "recording_inv db" "repo_create clock owner_id c key hash db = Inr (db', x)"
  shows "db' = db \<or> others_same (rdb_next_id db) db db'"
  using assms(2)
proof (cases rule: repo_create_cases)
  case fresh
  have "filter (\<lambda>t. tr_recording_id t \<noteq> rdb_next_id db) (map (\<lambda>(k, d).
      new_track (clock (Suc k)) (n + int k) owner_id (rdb_next_id db) d) xs) = []" for n xs
    by (auto simp: filter_empty_conv new_track_def)
  then show ?thesis unfolding fresh(3) by (simp add: others_same_def add_tracks_def new_recording_def)
qed simp

lemma reserve_part_frame:
  assumes "recording_inv db" "reserve_part clock owner_id m object_key key hash db = Inr (db', v)"
  obtains "db' = db"
  | r where "r \<in> set (rdb_recordings db)" "\<not> closed_state (rc_state r)" "others_same (rc_id r) db db'"
  using assms(2)
proof (cases rule: reserve_part_cases)
  case (fresh r t p)
  have rt: "r \<in> set (rdb_recordings db)" "t \<in> set (rdb_tracks db)" "tr_recording_id t = rc_id r"
    using locked_track_Inr [OF fresh(1)] locked_recording_Inr by blast+
  have "others_same (rc_id r) db db'"
    using tracks_replace [OF recording_invD(2) [OF assms(1)] rt(2), of "t\<lparr>tr_state := State_uploading\<rparr>"]
      recordings_replace [of "r\<lparr>rc_state := State_uploading\<rparr>" "rdb_recordings db"] rt(3)
    unfolding fresh(5) fresh(4) by (simp add: others_same_def new_part_def)
  with rt fresh(2) show ?thesis by (intro that(2)) (auto simp: closed_state_def)
qed (use that in blast)

lemma finalize_part_frame:
  assumes "recording_inv db" "finalize_part now owner_id m object_key key db = Inr (db', s)"
  obtains "db' = db"
  | r where "r \<in> set (rdb_recordings db)" "\<not> closed_state (rc_state r)" "others_same (rc_id r) db db'"
  using assms(2)
proof (cases rule: finalize_part_cases)
  case (fresh r t p stored)
  note D = recording_invD [OF assms(1)]
  have rt: "r \<in> set (rdb_recordings db)" "t \<in> set (rdb_tracks db)" "tr_recording_id t = rc_id r"
    using locked_track_Inr [OF fresh(1)] locked_recording_Inr by blast+
  have pr: "pt_recording_id p = rc_id r" using fresh(3) by (simp add: part_track_def)
  have parts: "filter (\<lambda>x. pt_recording_id x \<noteq> rc_id r) (replace_row pt_id
      (p\<lparr>pt_stored := True, pt_stored_at := Some now, pt_result := Some s\<rparr>) (rdb_parts db))
    = filter (\<lambda>x. pt_recording_id x \<noteq> rc_id r) (rdb_parts db)"
  proof (rule filter_replace_row)
    fix x
    assume "x \<in> set (rdb_parts db)"
      "pt_id x = pt_id (p\<lparr>pt_stored := True, pt_stored_at := Some now, pt_result := Some s\<rparr>)"
    then have "x = p" using same_id(3) [OF D(2) _ fresh(2), of x] by simp
    then show "\<not> pt_recording_id x \<noteq> rc_id r" using pr by simp
  qed (use pr in simp)
  have "others_same (rc_id r) db db'"
    using tracks_replace [OF D(2) rt(2), of "counted (high_water 0 stored) (int (length stored))
        (sum_list (map pt_byte_length stored)) t"]
      recordings_replace [of "r\<lparr>rc_state := State_uploading\<rparr>" "rdb_recordings db"] rt(3) parts
    unfolding fresh(9) by (simp add: others_same_def counted_def)
  with rt open_of_unstored_part [OF assms(1) fresh(2,7) rt(1) pr] show ?thesis by (intro that(2))
qed (use that in blast)

lemma prepare_seal_frame:
  assumes "recording_inv db" "prepare_seal sha clock owner_id c key hash db = Inr (db', sn)"
    "sn_response sn = None"
  obtains r where "locked_recording db owner_id (sc_recording_id c) = Inr r" "\<not> is_stored (rc_state r)"
    "rc_seal_idempotency_key r = None \<or> same_seal r key hash" "others_same (rc_id r) db db'"
  using assms(2)
proof (cases rule: prepare_seal_cases)
  case (fresh r tracks ups gs db1 sealing)
  note D = recording_invD [OF assms(1)] and g = reserve_gaps_rows [OF fresh(12)]
  have gaps: "filter (\<lambda>x. ga_recording_id x \<noteq> rc_id r) (rdb_gaps db1)
      = filter (\<lambda>x. ga_recording_id x \<noteq> rc_id r) (rdb_gaps db)"
    using fresh(12) by (auto simp: reserve_gaps_def Let_def add_gaps_def new_gap_def filter_empty_conv
        split: if_splits)
  have "tr_recording_id u = rc_id r \<and> (\<exists>t \<in> set (rdb_tracks db). tr_id t = tr_id u \<and> tr_recording_id t = rc_id r)"
    if "u \<in> set sealing" for u
    using that unfolding seal_tracks_Inr [OF fresh(13)] fresh(5) by (auto simp: in_tracks_of)
  then have "filter (\<lambda>x. tr_recording_id x \<noteq> rc_id r) (rdb_tracks (fold set_track sealing db1))
      = filter (\<lambda>x. tr_recording_id x \<noteq> rc_id r) (rdb_tracks db)"
    using tracks_fold [OF D(2), of sealing "rc_id r"] fold_set_track_cong [of db1 db] g by simp
  moreover have "filter (\<lambda>x. rc_id x \<noteq> rc_id r) (replace_row rc_id (r\<lparr>rc_state := State_sealing,
        rc_seal_idempotency_key := Some key, rc_seal_request_hash := Some hash,
        rc_ended_at := Some (instant_of (sc_ended_at c))\<rparr>) (rdb_recordings db))
      = filter (\<lambda>x. rc_id x \<noteq> rc_id r) (rdb_recordings db)"
    by (rule filter_replace_row) auto
  ultimately have "others_same (rc_id r) db db'"
    using g gaps unfolding fresh(14) by (simp add: others_same_def)
  with fresh(2,3,4) show ?thesis by (intro that)
qed (use assms(3) in simp)

lemma finalize_seal_frame:
  assumes "recording_inv db" "finalize_seal now owner_id c key hash manifests db = Inr (db', s)"
  obtains "db' = db"
  | r where "r \<in> set (rdb_recordings db)" "\<not> is_stored (rc_state r)" "others_same (rc_id r) db db'"
  using assms(2)
proof (cases rule: finalize_seal_cases)
  case (fresh r stored st)
  have r: "r \<in> set (rdb_recordings db)" using locked_recording_Inr [OF fresh(1)] by blast
  have "tr_recording_id u = rc_id r \<and> (\<exists>t \<in> set (rdb_tracks db). tr_id t = tr_id u \<and> tr_recording_id t = rc_id r)"
    if u: "u \<in> set stored" for u
  proof -
    obtain t where t: "t \<in> set (tracks_of db owner_id (rc_id r))" "store_track now c manifests t = Inr u"
      by (rule store_tracks_Inr [OF fresh(4) u])
    show ?thesis using t(1) by (cases rule: store_track_Inr [OF t(2)]) (auto simp: in_tracks_of)
  qed
  then have "filter (\<lambda>x. tr_recording_id x \<noteq> rc_id r) (rdb_tracks (fold set_track stored db))
      = filter (\<lambda>x. tr_recording_id x \<noteq> rc_id r) (rdb_tracks db)"
    by (rule tracks_fold [OF recording_invD(2) [OF assms(1)]])
  moreover have "filter (\<lambda>x. rc_id x \<noteq> rc_id r) (replace_row rc_id (r\<lparr>rc_state := st,
        rc_coverage_status := Some (sc_coverage_status c), rc_seal_result := Some s,
        rc_audio_created_on_server := True, rc_sealed_at := Some now\<rparr>) (rdb_recordings db))
      = filter (\<lambda>x. rc_id x \<noteq> rc_id r) (rdb_recordings db)"
    by (rule filter_replace_row) auto
  ultimately have "others_same (rc_id r) db db'"
    unfolding fresh(6) by (simp add: others_same_def)
  with r fresh(2) show ?thesis by (intro that(2)) (auto simp: is_stored_def)
qed (use that in blast)

section \<open>Steps\<close>

text \<open>
  A seal request in flight: its command and what the first transaction returned. \<open>sy_accepted\<close>
  holds the requests whose first transaction committed, \<open>sy_verified\<close> those that also found the
  declared hashes in the stored bytes.
\<close>

record sealing =
  sl_owner_id :: int
  sl_command :: seal_command
  sl_key :: string
  sl_hash :: string
  sl_snapshot :: seal_snapshot

record recording_system =
  sy_world :: recording_world
  sy_accepted :: "sealing set"
  sy_verified :: "sealing set"

abbreviation sy_db :: "recording_system \<Rightarrow> recording_db" where
  "sy_db s \<equiv> rw_db (sy_world s)"

abbreviation sy_store :: "recording_system \<Rightarrow> object_store" where
  "sy_store s \<equiv> rw_objects (sy_world s)"

definition with_db :: "recording_db \<Rightarrow> recording_system \<Rightarrow> recording_system" where
  "with_db db s = s\<lparr>sy_world := (sy_world s)\<lparr>rw_db := db\<rparr>\<rparr>"

definition with_store :: "object_store \<Rightarrow> recording_system \<Rightarrow> recording_system" where
  "with_store st s = s\<lparr>sy_world := (sy_world s)\<lparr>rw_objects := st\<rparr>\<rparr>"

definition accept :: "sealing \<Rightarrow> recording_system \<Rightarrow> recording_system" where
  "accept q s = s\<lparr>sy_accepted := insert q (sy_accepted s)\<rparr>"

definition verified :: "sealing \<Rightarrow> recording_system \<Rightarrow> recording_system" where
  "verified q s = s\<lparr>sy_verified := insert q (sy_verified s)\<rparr>"

lemma system_simps [simp]:
  "sy_db (with_db db s) = db" "sy_store (with_db db s) = sy_store s"
  "sy_accepted (with_db db s) = sy_accepted s" "sy_verified (with_db db s) = sy_verified s"
  "sy_db (with_store st s) = sy_db s" "sy_store (with_store st s) = st"
  "sy_accepted (with_store st s) = sy_accepted s" "sy_verified (with_store st s) = sy_verified s"
  "sy_world (accept q s) = sy_world s" "sy_accepted (accept q s) = insert q (sy_accepted s)"
  "sy_verified (accept q s) = sy_verified s"
  "sy_world (verified q s) = sy_world s" "sy_verified (verified q s) = insert q (sy_verified s)"
  "sy_accepted (verified q s) = sy_accepted s"
  by (simp_all add: with_db_def with_store_def accept_def verified_def)

inductive recording_step :: "crypto \<Rightarrow> recording_system \<Rightarrow> recording_system \<Rightarrow> bool" for cx where
  step_create:
    "repo_create clock owner_id c key hash (sy_db s) = Inr (db', x) \<Longrightarrow>
     recording_step cx s (with_db db' s)"
| step_reserve:
    "recording_part_object_key owner_id m = Inr k \<Longrightarrow>
     reserve_part clock owner_id m k key hash (sy_db s) = Inr (db', v) \<Longrightarrow>
     recording_step cx s (with_db db' s)"
| step_upload:
    "put_immutable (cx_sha cx) (sy_store s) k body digest content_type md = Inr (st', y) \<Longrightarrow>
     recording_step cx s (with_store st' s)"
| step_store:
    "stat (sy_store s) k = Inr (Some y) \<Longrightarrow>
     finalize_part now owner_id m k key (sy_db s) = Inr (db', x) \<Longrightarrow>
     recording_step cx s (with_db db' s)"
| step_accept:
    "validate_seal c = Inr c \<Longrightarrow>
     prepare_seal (cx_sha cx) clock owner_id c key hash (sy_db s) = Inr (db', sn) \<Longrightarrow>
     sn_response sn = None \<Longrightarrow>
     recording_step cx s (accept \<lparr>sl_owner_id = owner_id, sl_command = c, sl_key = key,
       sl_hash = hash, sl_snapshot = sn\<rparr> (with_db db' s))"
| step_verify:
    "q \<in> sy_accepted s \<Longrightarrow>
     verify_pcm_hashes cx (sy_store s) (sl_command q) (sl_snapshot q) = Inr () \<Longrightarrow>
     recording_step cx s (verified q s)"
| step_finish:
    "q \<in> sy_verified s \<Longrightarrow>
     finalize_seal now (sl_owner_id q) (sl_command q) (sl_key q) (sl_hash q) manifests (sy_db s)
       = Inr (db', x) \<Longrightarrow>
     recording_step cx s (with_db db' s)"
| step_attach:
    "attach_interview owner_id i recording_id (sy_db s) = Inr db' \<Longrightarrow>
     recording_step cx s (with_db db' s)"

definition initial_system :: "crypto \<Rightarrow> recording_system \<Rightarrow> bool" where
  "initial_system cx s \<longleftrightarrow>
     rdb_recordings (sy_db s) = [] \<and> rdb_tracks (sy_db s) = [] \<and> rdb_parts (sy_db s) = []
     \<and> rdb_gaps (sy_db s) = [] \<and> store_ok (cx_sha cx) (sy_store s)
     \<and> sy_accepted s = {} \<and> sy_verified s = {}"

definition recording_reachable :: "crypto \<Rightarrow> recording_system \<Rightarrow> bool" where
  "recording_reachable cx s \<longleftrightarrow> (\<exists>s0. initial_system cx s0 \<and> (recording_step cx)\<^sup>*\<^sup>* s0 s)"

text \<open>Two accepted commands with the same hash are the same command.\<close>

definition no_collision :: "recording_system \<Rightarrow> bool" where
  "no_collision s \<longleftrightarrow>
     (\<forall>q \<in> sy_accepted s. \<forall>q' \<in> sy_accepted s. sl_hash q = sl_hash q' \<longrightarrow> sl_command q = sl_command q')"

section \<open>The tables and the store\<close>

lemma initial_recording_inv: "initial_system cx s \<Longrightarrow> recording_inv (sy_db s)"
  by (simp add: initial_system_def recording_inv_def constraints_ok_def recording_keys_ok_def
      track_keys_ok_def part_keys_ok_def gap_keys_ok_def ids_ok_def parts_disjoint_def
      closed_means_stored_def tracks_follow_def)

lemma part_object_key_ok:
  "recording_part_object_key owner_id m = Inr k \<Longrightarrow>
     validate_key_sha256 k (pu_plaintext_sha256 m) = Inr (k, pu_plaintext_sha256 m)"
  by (auto simp: recording_part_object_key_def split: sum.splits dest: object_key_roundtrip)

lemma recording_step_inv:
  "recording_step cx s s' \<Longrightarrow> recording_inv (sy_db s) \<Longrightarrow> recording_inv (sy_db s')"
proof (induction rule: recording_step.induct)
  case (step_reserve owner_id m k clock key hash s db' v)
  then show ?case using reserve_part_inv [OF _ step_reserve(2) part_object_key_ok] by simp
qed (auto intro: repo_create_inv finalize_part_inv prepare_seal_inv finalize_seal_inv attach_interview_inv)

lemma put_keeps_objects:
  assumes "put_immutable sha st key body h t m = Inr (st', x)" "objects st k = Some z"
  shows "objects st' k = Some z"
  using assms(1)
proof (cases rule: put_immutable_cases)
  case (fresh data)
  with assms(2) show ?thesis by auto
qed (use assms(2) in simp)

definition durable :: "recording_system \<Rightarrow> bool" where
  "durable s \<longleftrightarrow>
     (\<forall>p \<in> set (rdb_parts (sy_db s)). pt_stored p \<longrightarrow> objects (sy_store s) (pt_object_key p) \<noteq> None)"

lemma durable_same_parts:
  "durable s \<Longrightarrow> rdb_parts db' = rdb_parts (sy_db s) \<Longrightarrow> durable (with_db db' s)"
  by (simp add: durable_def)

lemma prepare_seal_parts:
  "prepare_seal sha clock owner_id c key hash db = Inr (db', sn) \<Longrightarrow> rdb_parts db' = rdb_parts db"
  by (erule prepare_seal_cases) (simp_all add: reserve_gaps_rows)

lemma finalize_seal_parts:
  "finalize_seal now owner_id c key hash manifests db = Inr (db', x) \<Longrightarrow>
     rdb_parts db' = rdb_parts db \<and> rdb_gaps db' = rdb_gaps db"
  by (erule finalize_seal_cases) simp_all

lemma attach_interview_parts:
  "attach_interview owner_id i recording_id db = Inr db' \<Longrightarrow>
     rdb_parts db' = rdb_parts db \<and> rdb_gaps db' = rdb_gaps db \<and> rdb_tracks db' = rdb_tracks db"
  by (erule attach_interview_cases) simp_all

lemma recording_step_durable:
  "recording_step cx s s' \<Longrightarrow> durable s \<Longrightarrow> durable s'"
proof (induction rule: recording_step.induct)
  case (step_create clock owner_id c key hash s db' x)
  from step_create(1) have "rdb_parts db' = rdb_parts (sy_db s)"
    by (cases rule: repo_create_cases) (simp_all add: add_tracks_def)
  with step_create(2) show ?case by (rule durable_same_parts)
next
  case (step_reserve owner_id m k clock key hash s db' v)
  from step_reserve(2) have "\<exists>p. rdb_parts db' = rdb_parts (sy_db s) \<or>
      rdb_parts db' = rdb_parts (sy_db s) @ [p] \<and> \<not> pt_stored p"
  proof (cases rule: reserve_part_cases)
    case (fresh r t p)
    then show ?thesis by (auto simp: new_part_def)
  qed simp
  with step_reserve(3) show ?case by (auto simp: durable_def)
next
  case (step_upload s k body digest content_type md st' y)
  then show ?case using put_keeps_objects [OF step_upload(1)] by (fastforce simp: durable_def)
next
  case (step_store s k y now owner_id m key db' x)
  have obj: "objects (sy_store s) k \<noteq> None" using step_store(1) by (auto simp: stat_Inr_Some)
  from step_store(2) show ?case
  proof (cases rule: finalize_part_cases)
    case (fresh r t p stored)
    show ?thesis
      unfolding durable_def
    proof (intro ballI impI)
      fix q assume q: "q \<in> set (rdb_parts (sy_db (with_db db' s)))" "pt_stored q"
      from q(1) consider "pt_object_key q = k" | "q \<in> set (rdb_parts (sy_db s))"
        unfolding fresh(9) using fresh(5) by (auto simp: mem_replace_row split: if_splits)
      then show "objects (sy_store (with_db db' s)) (pt_object_key q) \<noteq> None"
        using obj q(2) step_store(3) by cases (auto simp: durable_def)
    qed
  qed (use step_store(3) in \<open>simp add: durable_def\<close>)
next
  case (step_accept c clock owner_id key hash s db' sn)
  then show ?case using prepare_seal_parts [OF step_accept(2)] by (simp add: durable_def)
next
  case (step_finish q s now manifests db' x)
  then show ?case using finalize_seal_parts [OF step_finish(2)] by (simp add: durable_def)
next
  case (step_attach owner_id i recording_id s db')
  then show ?case using attach_interview_parts [OF step_attach(1)] by (simp add: durable_def)
qed (simp add: durable_def)

lemma recording_step_store:
  assumes "recording_step cx s s'" "store_ok (cx_sha cx) (sy_store s)"
  shows "store_ok (cx_sha cx) (sy_store s')"
    and "objects (sy_store s) k = Some z \<Longrightarrow> objects (sy_store s') k = Some z"
  using assms
  by (induction rule: recording_step.induct) (auto dest: put_immutable_ok put_keeps_objects)

end
