(* ===== verification/Recording_Sealing.thy ===== *)
theory Recording_Sealing
  imports Recording_Steps
begin

text \<open>
  What the first transaction of a seal establishes between the tables and the command, that no
  later step undoes it, and what the last transaction makes of it: a stored recording.
\<close>

section \<open>Lists and dictionaries\<close>

lemma sort_key_agree:
  assumes "\<And>x y. x \<in> set xs \<Longrightarrow> y \<in> set xs \<Longrightarrow> f x \<le> f y \<longleftrightarrow> g x \<le> g y"
  shows "sort_key f xs = sort_key g xs"
proof -
  have ins: "insort_key f x ys = insort_key g x ys"
    if "\<And>y. y \<in> set ys \<Longrightarrow> f x \<le> f y \<longleftrightarrow> g x \<le> g y" for x ys
    using that by (induction ys) auto
  show ?thesis using assms
  proof (induction xs)
    case (Cons x xs)
    then have "sort_key f xs = sort_key g xs" by simp
    moreover have "insort_key f x (sort_key g xs) = insort_key g x (sort_key g xs)"
      using Cons.prems by (intro ins) simp
    ultimately show ?case by (simp add: sort_key_def)
  qed simp
qed

lemma dict_eq_set:
  assumes "dict_eq xs ys" "distinct (map fst xs)" "distinct (map fst ys)"
  shows "set xs = set ys"
proof -
  have m: "map_of (rev zs) k = Some v \<longleftrightarrow> (k, v) \<in> set zs" if "distinct (map fst zs)" for zs k v
  proof -
    have "distinct (map fst (rev zs))" using that by (simp flip: rev_map)
    from map_of_eq_Some_iff [OF this, of k v] show ?thesis by simp
  qed
  have e: "map_of (rev xs) k = map_of (rev ys) k" if "k \<in> fst ` set xs" for k
    using assms(1) that unfolding dict_eq_def list_all_iff set_map by blast
  have d: "fst ` set xs = fst ` set ys" using assms(1) by (simp add: dict_eq_def)
  have "(k, v) \<in> set xs \<longleftrightarrow> (k, v) \<in> set ys" for k v
  proof
    assume "(k, v) \<in> set xs"
    then show "(k, v) \<in> set ys" using e [of k] m [OF assms(2)] m [OF assms(3)] by force
  next
    assume "(k, v) \<in> set ys"
    then show "(k, v) \<in> set xs" using e [of k] d m [OF assms(2)] m [OF assms(3)]
      by (metis fst_conv image_eqI)
  qed
  then show ?thesis by auto
qed

lemma dict_get_Inr: "dict_get kvs k = Inr v \<Longrightarrow> (k, v) \<in> set kvs"
  by (auto simp: dict_get_def split: option.splits dest: map_of_SomeD)

text \<open>Ranges that cover no sample twice have different starts.\<close>

lemma hits_pos: "(s, e) \<in> set rs \<Longrightarrow> s \<le> i \<Longrightarrow> i < e \<Longrightarrow> 1 \<le> hits i rs"
  by (induction rs) auto

lemma hits_distinct:
  assumes "\<And>i. hits i rs \<le> 1" "list_all proper rs"
  shows "distinct (map fst rs)"
  using assms
proof (induction rs)
  case (Cons r rs)
  obtain s e where r: "r = (s, e)" by (cases r)
  have se: "s < e" using Cons.prems(2) r by (simp add: proper_def)
  have "s \<notin> fst ` set rs"
  proof
    assume "s \<in> fst ` set rs"
    then obtain e' where e': "(s, e') \<in> set rs" by auto
    then have "s < e'" using Cons.prems(2) by (auto simp: proper_def list_all_iff)
    then have "1 \<le> hits s rs" using hits_pos [OF e', of s] by simp
    then show False using Cons.prems(1) [of s] r se by simp
  qed
  moreover have "hits i rs \<le> 1" for i using Cons.prems(1) [of i] r by simp
  ultimately show ?case using Cons r by auto
qed simp

lemma hits_by_set:
  assumes "set xs = set ys" "distinct xs" "distinct ys"
  shows "hits i xs = hits i ys"
proof -
  have "distinct (filter P xs)" "distinct (filter P ys)" "set (filter P xs) = set (filter P ys)" for P
    using assms by auto
  then show ?thesis unfolding hits_def by (metis distinct_card)
qed

section \<open>What an accepted seal says of the tables\<close>

definition track_parts :: "recording_db \<Rightarrow> int \<times> int \<times> int \<Rightarrow> part_row list" where
  "track_parts db ref = sort_key pt_sequence (parts_of_track db ref)"

definition track_gaps :: "recording_db \<Rightarrow> int \<times> int \<times> int \<Rightarrow> gap_row list" where
  "track_gaps db ref = filter (\<lambda>g. gap_track g = ref) (rdb_gaps db)"

definition descriptor :: "part_row \<Rightarrow> part_descriptor" where
  "descriptor p = \<lparr>pd_sequence = pt_sequence p, pd_sample_start = pt_sample_start p,
     pd_sample_count = pt_sample_count p, pd_byte_length = pt_byte_length p,
     pd_plaintext_sha256 = pt_plaintext_sha256 p\<rparr>"

definition gap_of :: "gap_row \<Rightarrow> recording_gap" where
  "gap_of g = \<lparr>gp_sample_start = ga_sample_start g, gp_sample_count = ga_sample_count g,
     gp_reason = ga_reason g\<rparr>"

definition declared_as :: "recording_db \<Rightarrow> track_row \<Rightarrow> track_manifest \<Rightarrow> seal_snapshot \<Rightarrow> bool" where
  "declared_as db t m sn \<longleftrightarrow>
     tm_track_id m = tr_client_track_id t
     \<and> map descriptor (track_parts db (track_ref t)) = tm_parts m
     \<and> gap_of ` set (track_gaps db (track_ref t)) = set (tm_gaps m)
     \<and> map (\<lambda>p. (sp_byte_length p, sp_object_key p))
          (filter (\<lambda>p. sp_track_id p = tr_client_track_id t) (sn_parts sn))
        = map (\<lambda>p. (pt_byte_length p, pt_object_key p)) (track_parts db (track_ref t))"

definition seal_of :: "recording_row \<Rightarrow> sealing \<Rightarrow> bool" where
  "seal_of r q \<longleftrightarrow>
     rc_owner_id r = sl_owner_id q \<and> rc_client_recording_id r = sc_recording_id (sl_command q)
     \<and> same_seal r (sl_key q) (sl_hash q)"

definition declares :: "recording_db \<Rightarrow> int \<Rightarrow> sealing \<Rightarrow> bool" where
  "declares db rid q \<longleftrightarrow>
     (\<forall>t \<in> set (rdb_tracks db). tr_recording_id t = rid \<longrightarrow>
        (\<exists>m \<in> set (sc_tracks (sl_command q)). declared_as db t m (sl_snapshot q)))"

definition accepted_ok :: "recording_db \<Rightarrow> sealing \<Rightarrow> bool" where
  "accepted_ok db q \<longleftrightarrow>
     validate_seal (sl_command q) = Inr (sl_command q)
     \<and> (\<exists>r \<in> set (rdb_recordings db). seal_of r q \<and> closed_state (rc_state r) \<and> declares db (rc_id r) q)"

lemma validate_seal_Inr:
  assumes "validate_seal c = Inr c"
  shows "\<And>m. m \<in> set (sc_tracks c) \<Longrightarrow> validate_manifest m = Inr ()"
    and "distinct (map tm_track_id (sc_tracks c))" and "length (sc_tracks c) = 2"
proof -
  from assms obtain us where us: "map_result validate_manifest (sc_tracks c) = Inr us"
    and two: "length (sc_tracks c) = 2"
    and pair: "validate_track_pair (map (\<lambda>m. (tm_kind m, tm_track_id m)) (sc_tracks c)) = Inr ()"
    by (auto simp: validate_seal_def result_simps invalid_def split: if_splits)
  show "validate_manifest m = Inr ()" if "m \<in> set (sc_tracks c)" for m
    using map_result_ok [OF us that] by (auto simp: is_ok_iff)
  show "distinct (map tm_track_id (sc_tracks c))" "length (sc_tracks c) = 2"
    using pair two by (auto simp: validate_track_pair_def invalid_def comp_def card_distinct split: if_splits)
qed

lemma manifest_parts:
  assumes "validate_manifest m = Inr ()"
  shows "map pd_sequence (tm_parts m) = map int [0..<length (tm_parts m)]"
    and "list_all proper (map part_range (tm_parts m))" "list_all proper (map gap_range (tm_gaps m))"
proof -
  have v: "validate_track m = Inr ()"
    and p: "\<exists>u. map_result validate_part_descriptor (tm_parts m) = Inr u"
    and g: "\<exists>u. map_result validate_gap (tm_gaps m) = Inr u"
    using assms by (auto simp: validate_manifest_def result_simps invalid_def split: if_splits)
  show "map pd_sequence (tm_parts m) = map int [0..<length (tm_parts m)]"
    using v by (auto simp: validate_track_def result_simps invalid_def split: if_splits)
  show "list_all proper (map part_range (tm_parts m))" "list_all proper (map gap_range (tm_gaps m))"
    using p g map_result_ok part_proper gap_proper by (fastforce simp: list_all_iff)+
qed

lemma manifest_distinct:
  assumes "validate_manifest m = Inr ()"
  shows "distinct (map pd_sequence (tm_parts m))" "sorted (map pd_sequence (tm_parts m))"
    "distinct (map gp_sample_start (tm_gaps m))"
proof -
  show "distinct (map pd_sequence (tm_parts m))" "sorted (map pd_sequence (tm_parts m))"
    unfolding manifest_parts(1) [OF assms] by (auto simp: distinct_map inj_on_def sorted_map)
  have "hits i (map part_range (tm_parts m)) + hits i (map gap_range (tm_gaps m)) \<le> 1" for i
    using manifest_covers [OF assms, of i] by simp
  then have "hits i (map gap_range (tm_gaps m)) \<le> 1" for i by (meson add_leD2)
  from hits_distinct [OF this manifest_parts(3) [OF assms]]
  show "distinct (map gp_sample_start (tm_gaps m))" by (simp add: gap_range_def comp_def)
qed

lemma declared_distinct:
  assumes "validate_seal c = Inr c"
  shows "distinct (map fst (declared_descriptors c))"
proof -
  obtain m1 m2 where c: "sc_tracks c = [m1, m2]"
    using validate_seal_Inr(3) [OF assms] by (auto simp: length_Suc_conv numeral_2_eq_2)
  have "tm_track_id m1 \<noteq> tm_track_id m2" using validate_seal_Inr(2) [OF assms] c by simp
  moreover have "distinct (map pd_sequence (tm_parts m1))" "distinct (map pd_sequence (tm_parts m2))"
    using validate_seal_Inr(1) [OF assms] manifest_distinct(1) c by auto
  ultimately show ?thesis
    by (auto simp: declared_descriptors_def c comp_def distinct_map inj_on_def)
qed

lemma with_track_ids_Inr:
  assumes "with_track_ids tracks parts = Inr ups"
  shows "map snd ups = parts"
    and "\<And>u p. (u, p) \<in> set ups \<Longrightarrow> \<exists>t \<in> set tracks. tr_id t = pt_track_id p \<and> tr_client_track_id t = u"
proof -
  have l: "list_all2 (\<lambda>p (u, q). q = p \<and> (\<exists>t \<in> set tracks. tr_id t = pt_track_id p \<and> tr_client_track_id t = u))
      parts ups"
    using assms unfolding with_track_ids_def map_result_Inr
    by (rule list_all2_mono) (fastforce simp: result_simps dest: dict_get_Inr)
  then show "map snd ups = parts"
    by (intro nth_equalityI) (auto simp: list_all2_conv_all_nth split_beta)
  show "\<And>u p. (u, p) \<in> set ups \<Longrightarrow> \<exists>t \<in> set tracks. tr_id t = pt_track_id p \<and> tr_client_track_id t = u"
    using l by (fastforce simp: list_all2_conv_all_nth in_set_conv_nth)
qed

text \<open>The stored parts of one track, among those of its recording.\<close>

lemma client_track_unique:
  assumes "constraints_ok db" "t \<in> set (rdb_tracks db)" "t' \<in> set (rdb_tracks db)"
    "tr_owner_id t = tr_owner_id t'" "tr_recording_id t = tr_recording_id t'"
    "tr_client_track_id t = tr_client_track_id t'"
  shows "t = t'"
proof -
  have "inj_on (\<lambda>t. (tr_owner_id t, tr_recording_id t, tr_client_track_id t)) (set (rdb_tracks db))"
    using assms(1) by (simp add: constraints_ok_def track_keys_ok_def distinct_map)
  then show ?thesis using assms(2-6) by (auto dest: inj_onD)
qed

lemma ups_track:
  assumes inv: "recording_inv db" and t: "t \<in> set (tracks_of db owner_id rid)"
    and ups: "with_track_ids (tracks_of db owner_id rid) (parts_of_recording db owner_id rid) = Inr ups"
    and up: "(u, p) \<in> set ups"
  shows "u = tr_client_track_id t \<longleftrightarrow> part_track p = track_ref t"
proof -
  note D = recording_invD [OF inv]
  obtain t' where t': "t' \<in> set (tracks_of db owner_id rid)" "tr_id t' = pt_track_id p" "tr_client_track_id t' = u"
    using with_track_ids_Inr(2) [OF ups up] by blast
  have "p \<in> set (parts_of_recording db owner_id rid)"
    using up by (metis with_track_ids_Inr(1) [OF ups] image_eqI set_map snd_conv)
  then have p: "pt_owner_id p = owner_id" "pt_recording_id p = rid" by (auto simp: parts_of_recording_def)
  show ?thesis
  proof
    assume "u = tr_client_track_id t"
    then have "t' = t" using client_track_unique [OF D(1), of t' t] t t' by (simp add: in_tracks_of)
    then show "part_track p = track_ref t" using p t t' by (simp add: part_track_def track_ref_def in_tracks_of)
  next
    assume "part_track p = track_ref t"
    then have "tr_id t' = tr_id t" using t' by (simp add: part_track_def track_ref_def)
    then have "t' = t" using same_id(2) [OF D(2), of t' t] t t' by (simp add: in_tracks_of)
    then show "u = tr_client_track_id t" using t' by simp
  qed
qed

lemma ups_of_track:
  assumes inv: "recording_inv db" and t: "t \<in> set (tracks_of db owner_id rid)"
    and ups: "with_track_ids (tracks_of db owner_id rid) (parts_of_recording db owner_id rid) = Inr ups"
  shows "map snd (filter (\<lambda>x. fst x = tr_client_track_id t) ups) = track_parts db (track_ref t)"
proof -
  have "filter (\<lambda>x. fst x = tr_client_track_id t) ups = filter (\<lambda>x. part_track (snd x) = track_ref t) ups"
    by (rule filter_cong) (use ups_track [OF inv t ups] in auto)
  then have "map snd (filter (\<lambda>x. fst x = tr_client_track_id t) ups)
      = filter (\<lambda>p. part_track p = track_ref t) (map snd ups)"
    by (simp add: filter_map comp_def)
  also have "\<dots> = sort_key (\<lambda>p. (pt_track_id p, pt_sequence p)) (parts_of_track db (track_ref t))"
  proof -
    have e: "filter (\<lambda>p. part_track p = track_ref t)
          (filter (\<lambda>p. pt_owner_id p = owner_id \<and> pt_recording_id p = rid) ps)
        = filter (\<lambda>p. part_track p = track_ref t) ps" for ps
      using t by (induction ps) (auto simp: part_track_def track_ref_def in_tracks_of)
    show ?thesis
      unfolding with_track_ids_Inr(1) [OF ups] parts_of_recording_def filter_sort e parts_of_track_def ..
  qed
  also have "\<dots> = track_parts db (track_ref t)"
    unfolding track_parts_def
    by (rule sort_key_agree) (auto simp: parts_of_track_def part_track_def track_ref_def)
  finally show ?thesis .
qed

lemma part_sequence_unique:
  assumes "constraints_ok db" "p \<in> set (rdb_parts db)" "q \<in> set (rdb_parts db)"
    "part_track p = part_track q" "pt_sequence p = pt_sequence q"
  shows "p = q"
proof -
  have "inj_on (\<lambda>p. (part_track p, pt_sequence p)) (set (rdb_parts db))"
    using assms(1) by (simp add: constraints_ok_def part_keys_ok_def distinct_map)
  then show ?thesis using assms(2-5) by (auto dest: inj_onD)
qed

lemma track_parts_sorted:
  assumes "recording_inv db"
  shows "sorted (map pt_sequence (track_parts db ref))" "distinct (map pt_sequence (track_parts db ref))"
proof -
  note D = recording_invD [OF assms]
  have "distinct (rdb_parts db)" using D(2) by (simp add: ids_ok_def distinct_map)
  moreover have "inj_on pt_sequence {p \<in> set (rdb_parts db). part_track p = ref}"
    using part_sequence_unique [OF D(1)] by (auto intro!: inj_onI)
  ultimately show "distinct (map pt_sequence (track_parts db ref))"
    by (simp add: track_parts_def parts_of_track_def distinct_map)
qed (simp add: track_parts_def)

lemma stored_distinct:
  assumes inv: "recording_inv db"
    and ups: "with_track_ids (tracks_of db owner_id rid) (parts_of_recording db owner_id rid) = Inr ups"
  shows "distinct (map fst (map stored_descriptor ups))"
proof -
  note D = recording_invD [OF inv]
  have "distinct (rdb_parts db)" using D(2) by (simp add: ids_ok_def distinct_map)
  then have "distinct (map snd ups)"
    unfolding with_track_ids_Inr(1) [OF ups] by (simp add: parts_of_recording_def)
  then have d: "distinct ups" by (simp add: distinct_map)
  have "x = y" if x: "x \<in> set ups" and y: "y \<in> set ups"
    and xy: "fst (stored_descriptor x) = fst (stored_descriptor y)" for x y
  proof -
    obtain u p where x': "x = (u, p)" by (cases x)
    obtain v q where y': "y = (v, q)" by (cases y)
    obtain t where t: "t \<in> set (tracks_of db owner_id rid)" "tr_client_track_id t = u"
      using with_track_ids_Inr(2) [OF ups, of u p] x x' by blast
    have "u = v" "pt_sequence p = pt_sequence q" using xy x' y' by simp_all
    moreover have "part_track p = track_ref t" "part_track q = track_ref t"
      using ups_track [OF inv t(1) ups, of u p] ups_track [OF inv t(1) ups, of v q] t(2) x y x' y' \<open>u = v\<close>
      by auto
    moreover have "snd x \<in> set (map snd ups)" "snd y \<in> set (map snd ups)" using x y by auto
    then have "p \<in> set (rdb_parts db)" "q \<in> set (rdb_parts db)"
      unfolding with_track_ids_Inr(1) [OF ups] x' y' by (auto simp: parts_of_recording_def)
    ultimately show ?thesis using part_sequence_unique [OF D(1)] x' y' by simp
  qed
  then show ?thesis using d by (simp add: distinct_map comp_def inj_on_def)
qed

lemma accepted_parts:
  assumes inv: "recording_inv db" and t: "t \<in> set (tracks_of db owner_id rid)"
    and ups: "with_track_ids (tracks_of db owner_id rid) (parts_of_recording db owner_id rid) = Inr ups"
    and eq: "dict_eq (map stored_descriptor ups) (declared_descriptors c)"
    and c: "validate_seal c = Inr c" and m: "m \<in> set (sc_tracks c)" "tm_track_id m = tr_client_track_id t"
  shows "map descriptor (track_parts db (track_ref t)) = tm_parts m"
proof -
  let ?u = "tr_client_track_id t"
  have sets: "set (map stored_descriptor ups) = set (declared_descriptors c)"
    by (rule dict_eq_set [OF eq stored_distinct [OF inv ups] declared_distinct [OF c]])
  have one: "m' = m" if "m' \<in> set (sc_tracks c)" "tm_track_id m' = ?u" for m'
    using validate_seal_Inr(2) [OF c] that m by (simp add: distinct_map inj_on_def)
  have "set (map descriptor (track_parts db (track_ref t))) = set (tm_parts m)"
  proof (intro set_eqI iffI)
    fix d assume "d \<in> set (map descriptor (track_parts db (track_ref t)))"
    then obtain p where p: "(?u, p) \<in> set ups" "d = descriptor p"
      unfolding ups_of_track [OF inv t ups, symmetric] by auto
    then have "stored_descriptor (?u, p) \<in> set (declared_descriptors c)" unfolding sets [symmetric] by force
    then obtain m' d' where d': "m' \<in> set (sc_tracks c)" "d' \<in> set (tm_parts m')" "tm_track_id m' = ?u"
      "descriptor p = d'"
      by (auto simp: declared_descriptors_def descriptor_def)
    then show "d \<in> set (tm_parts m)" using one [of m'] p(2) by simp
  next
    fix d assume "d \<in> set (tm_parts m)"
    then have "((?u, pd_sequence d), pd_sample_start d, pd_sample_count d, pd_byte_length d,
        pd_plaintext_sha256 d) \<in> set (declared_descriptors c)"
      using m by (force simp: declared_descriptors_def)
    then obtain p where "(?u, p) \<in> set ups" "d = descriptor p"
      unfolding sets [symmetric] by (auto simp: descriptor_def)
    then show "d \<in> set (map descriptor (track_parts db (track_ref t)))"
      unfolding ups_of_track [OF inv t ups, symmetric] by force
  qed
  moreover have "pd_sequence \<circ> descriptor = pt_sequence" by (simp add: fun_eq_iff descriptor_def)
  ultimately show ?thesis
    using track_parts_sorted [OF inv, of "track_ref t"]
      manifest_distinct(1,2) [OF validate_seal_Inr(1) [OF c m(1)]]
    by (intro map_sorted_distinct_set_unique [where f = pd_sequence]) (auto simp: distinct_map)
qed

lemma accepted_snapshot:
  assumes inv: "recording_inv db" and t: "t \<in> set (tracks_of db owner_id rid)"
    and ups: "with_track_ids (tracks_of db owner_id rid) (parts_of_recording db owner_id rid) = Inr ups"
    and sn: "sn_parts sn = map (\<lambda>(u, p). \<lparr>sp_track_id = u, sp_sequence = pt_sequence p,
         sp_byte_length = pt_byte_length p, sp_object_key = pt_object_key p\<rparr>) ups"
  shows "map (\<lambda>p. (sp_byte_length p, sp_object_key p))
      (filter (\<lambda>p. sp_track_id p = tr_client_track_id t) (sn_parts sn))
    = map (\<lambda>p. (pt_byte_length p, pt_object_key p)) (track_parts db (track_ref t))"
  unfolding sn ups_of_track [OF inv t ups, symmetric]
  by (simp add: filter_map comp_def split_beta)

lemma declared_one:
  assumes "validate_seal c = Inr c"
  shows "dict_get (declared_tracks c) u = Inr m \<longleftrightarrow> m \<in> set (sc_tracks c) \<and> tm_track_id m = u"
proof
  assume "dict_get (declared_tracks c) u = Inr m"
  from dict_get_Inr [OF this] show "m \<in> set (sc_tracks c) \<and> tm_track_id m = u"
    by (auto simp: declared_tracks_def)
next
  assume m: "m \<in> set (sc_tracks c) \<and> tm_track_id m = u"
  have "distinct (map fst (rev (declared_tracks c)))"
    using validate_seal_Inr(2) [OF assms] by (simp add: declared_tracks_def comp_def flip: rev_map)
  moreover have "(u, m) \<in> set (rev (declared_tracks c))" using m by (auto simp: declared_tracks_def)
  ultimately have "map_of (rev (declared_tracks c)) u = Some m" by (rule map_of_is_SomeI)
  then show "dict_get (declared_tracks c) u = Inr m" by (simp add: dict_get_def)
qed

lemma expected_gaps_Inr:
  assumes "expected_gaps tracks c = Inr gs"
  shows "\<exists>f. (\<forall>t \<in> set tracks. dict_get (declared_tracks c) (tr_client_track_id t) = Inr (f t))
    \<and> gs = concat (map (\<lambda>t. map (\<lambda>g. (t, g)) (tm_gaps (f t))) tracks)"
proof -
  let ?get = "\<lambda>t. dict_get (declared_tracks c) (tr_client_track_id t)"
  have "\<exists>f. (\<forall>t \<in> set ts. ?get t = Inr (f t)) \<and> gss = map (\<lambda>t. map (\<lambda>g. (t, g)) (tm_gaps (f t))) ts"
    if "map_result (\<lambda>t. bind_result (?get t) (\<lambda>m. Inr (map (\<lambda>g. (t, g)) (tm_gaps m)))) ts = Inr gss" for ts gss
  proof -
    have "?get t = Inr (projr (?get t))" if t: "t \<in> set ts" for t
      using map_result_ok [OF \<open>map_result _ ts = Inr gss\<close> t] by (cases "?get t") auto
    moreover have "gss = map (\<lambda>t. map (\<lambda>g. (t, g)) (tm_gaps (projr (?get t)))) ts"
      using that by (induction ts arbitrary: gss) (auto simp: result_simps)
    ultimately show ?thesis by (intro exI [of _ "\<lambda>t. projr (?get t)"]) blast
  qed
  then show ?thesis using assms unfolding expected_gaps_def by (fastforce simp: result_simps)
qed

lemma gap_in_recording:
  "t \<in> set (tracks_of db owner_id rid) \<Longrightarrow> gap_track g = track_ref t \<Longrightarrow> g \<in> set (rdb_gaps db) \<Longrightarrow>
     g \<in> set (gaps_of_recording db owner_id rid)"
  by (auto simp: gaps_of_recording_def gap_track_def track_ref_def in_tracks_of)

definition gap_entry :: "gap_row \<Rightarrow> (int \<times> int) \<times> int \<times> gap_reason" where
  "gap_entry g = ((ga_track_id g, ga_sample_start g), (ga_sample_count g, ga_reason g))"

definition expected_entry :: "track_row \<times> recording_gap \<Rightarrow> (int \<times> int) \<times> int \<times> gap_reason" where
  "expected_entry x = (case x of (t, g) \<Rightarrow>
     ((tr_id t, gp_sample_start g), (gp_sample_count g, gp_reason g)))"

lemma reserve_gaps_Inr:
  assumes "reserve_gaps clock owner_id rid gs db = Inr db1"
  obtains (first) "gaps_of_recording db owner_id rid = []"
      "rdb_gaps db1 = rdb_gaps db @ map (\<lambda>(k, g). new_gap (clock k) (rdb_next_id db + int k) owner_id rid g)
         (enumerate 0 gs)"
  | (again) "gaps_of_recording db owner_id rid \<noteq> []" "rdb_gaps db1 = rdb_gaps db"
      "dict_eq (map gap_entry (gaps_of_recording db owner_id rid)) (map expected_entry gs)"
  using assms
  by (auto simp: reserve_gaps_def Let_def add_gaps_def gap_entry_def [abs_def] expected_entry_def [abs_def]
      split: if_splits)

lemma expected_entries_distinct:
  assumes "distinct (map tr_id tracks)"
    and "\<And>t. t \<in> set tracks \<Longrightarrow> distinct (map gp_sample_start (tm_gaps (f t)))"
  shows "distinct (map fst (map expected_entry (concat (map (\<lambda>t. map (\<lambda>g. (t, g)) (tm_gaps (f t))) tracks))))"
  using assms
proof (induction tracks)
  case (Cons t ts)
  have "fst (expected_entry (t, g)) = (tr_id t, gp_sample_start g)" for t g by (simp add: expected_entry_def)
  moreover have "distinct (map (\<lambda>g. (tr_id t, gp_sample_start g)) (tm_gaps (f t)))"
    using Cons.prems(2) [of t] by (simp add: distinct_map inj_on_def)
  moreover have "tr_id t \<notin> tr_id ` set ts" using Cons.prems(1) by simp
  ultimately show ?case using Cons by (auto simp: comp_def)
qed simp

lemma tracks_of_ids: "recording_inv db \<Longrightarrow> distinct (map tr_id (tracks_of db owner_id rid))"
  using recording_invD(2) by (fastforce simp: tracks_of_def ids_ok_def distinct_map intro: inj_on_subset)

lemma gap_entries_distinct:
  assumes "recording_inv db"
  shows "distinct (map fst (map gap_entry (gaps_of_recording db owner_id rid)))"
proof -
  have d: "distinct (map (\<lambda>g. (gap_track g, ga_sample_start g)) (rdb_gaps db))"
    using recording_invD(1) [OF assms] by (simp add: constraints_ok_def gap_keys_ok_def)
  then have "distinct (rdb_gaps db)" by (simp add: distinct_map)
  moreover have "inj_on (fst \<circ> gap_entry) (set (gaps_of_recording db owner_id rid))"
    using d by (auto simp: distinct_map inj_on_def gap_entry_def gaps_of_recording_def gap_track_def)
  ultimately show ?thesis by (simp add: distinct_map gaps_of_recording_def comp_def)
qed

lemma new_gaps_set:
  "(\<lambda>g. (gap_track g, gap_of g)) ` set (map (\<lambda>(k, g). new_gap (clock k) (n + int k) owner_id rid g)
      (enumerate i gs))
   = (\<lambda>x. ((owner_id, rid, tr_id (fst x)), snd x)) ` set gs"
proof -
  have "gap_track (new_gap now j owner_id rid x) = (owner_id, rid, tr_id (fst x))"
    "gap_of (new_gap now j owner_id rid x) = snd x" for now j x
    by (cases "snd x", simp add: gap_track_def gap_of_def new_gap_def)+
  then show ?thesis by (induction gs arbitrary: i) simp_all
qed

lemma image_select: "x \<in> g ` {y \<in> N. h y = r} \<longleftrightarrow> (r, x) \<in> (\<lambda>y. (h y, g y)) ` N"
  by auto

lemma accepted_gaps:
  assumes inv: "recording_inv db" and t: "t \<in> set (tracks_of db owner_id rid)"
    and gs: "expected_gaps (tracks_of db owner_id rid) c = Inr gs"
    and db1: "reserve_gaps clock owner_id rid gs db = Inr db1"
    and c: "validate_seal c = Inr c" and m: "m \<in> set (sc_tracks c)" "tm_track_id m = tr_client_track_id t"
  shows "gap_of ` set (track_gaps db1 (track_ref t)) = set (tm_gaps m)"
proof -
  obtain f where f: "\<And>u. u \<in> set (tracks_of db owner_id rid) \<Longrightarrow>
      dict_get (declared_tracks c) (tr_client_track_id u) = Inr (f u)"
    and gs': "gs = concat (map (\<lambda>t. map (\<lambda>g. (t, g)) (tm_gaps (f t))) (tracks_of db owner_id rid))"
    using expected_gaps_Inr [OF gs] by blast
  have ft: "f t = m"
    using f [OF t] m declared_one [OF c, of "tr_client_track_id t" m] by simp
  have in_gs: "(u, g) \<in> set gs \<Longrightarrow> tr_id u = tr_id t \<Longrightarrow> g \<in> set (tm_gaps m)" for u g
  proof -
    assume u: "(u, g) \<in> set gs" "tr_id u = tr_id t"
    then have "u \<in> set (tracks_of db owner_id rid)" "g \<in> set (tm_gaps (f u))" unfolding gs' by auto
    moreover have "u = t"
      using same_id(2) [OF recording_invD(2) [OF inv], of u t] t u(2) calculation(1) by (simp add: in_tracks_of)
    ultimately show "g \<in> set (tm_gaps m)" using ft by simp
  qed
  have gs_in: "g \<in> set (tm_gaps m) \<Longrightarrow> (t, g) \<in> set gs" for g using t ft unfolding gs' by auto
  have ref: "track_ref t = (owner_id, rid, tr_id t)" using t by (simp add: track_ref_def in_tracks_of)
  from db1 show ?thesis
  proof (cases rule: reserve_gaps_Inr)
    case first
    have "filter (\<lambda>g. gap_track g = track_ref t) (rdb_gaps db) = []"
      using gap_in_recording [OF t] first(1) by (auto simp: filter_empty_conv)
    then have "x \<in> gap_of ` set (track_gaps db1 (track_ref t)) \<longleftrightarrow>
        (track_ref t, x) \<in> (\<lambda>x. ((owner_id, rid, tr_id (fst x)), snd x)) ` set gs" for x
      unfolding track_gaps_def first(2) filter_append
      by (simp only: append.simps set_filter image_select new_gaps_set)
    then have "gap_of ` set (track_gaps db1 (track_ref t)) = {g. \<exists>u. (u, g) \<in> set gs \<and> tr_id u = tr_id t}"
      unfolding ref by force
    then show ?thesis using in_gs gs_in by blast
  next
    case again
    have e: "distinct (map fst (map expected_entry gs))"
      unfolding gs' by (rule expected_entries_distinct [OF tracks_of_ids [OF inv]])
        (metis f declared_one [OF c] manifest_distinct(3) validate_seal_Inr(1) [OF c])
    have sets: "set (map gap_entry (gaps_of_recording db owner_id rid)) = set (map expected_entry gs)"
      by (rule dict_eq_set [OF again(3) gap_entries_distinct [OF inv] e])
    have tg: "set (track_gaps db1 (track_ref t)) = {g \<in> set (gaps_of_recording db owner_id rid). ga_track_id g = tr_id t}"
      unfolding ref track_gaps_def again(2) by (auto simp: gaps_of_recording_def gap_track_def)
    show ?thesis
    proof (intro set_eqI iffI)
      fix x assume "x \<in> gap_of ` set (track_gaps db1 (track_ref t))"
      then obtain g where g: "g \<in> set (gaps_of_recording db owner_id rid)" "ga_track_id g = tr_id t" "x = gap_of g"
        unfolding tg by blast
      then have "gap_entry g \<in> set (map expected_entry gs)" unfolding sets [symmetric] by simp
      then obtain u y where "(u, y) \<in> set gs" "gap_entry g = expected_entry (u, y)" by auto
      then show "x \<in> set (tm_gaps m)"
        using in_gs [of u y] g by (cases y) (auto simp: gap_entry_def expected_entry_def gap_of_def)
    next
      fix x assume "x \<in> set (tm_gaps m)"
      then have "expected_entry (t, x) \<in> set (map gap_entry (gaps_of_recording db owner_id rid))"
        unfolding sets using gs_in by force
      then obtain g where g: "g \<in> set (gaps_of_recording db owner_id rid)" "gap_entry g = expected_entry (t, x)"
        by auto
      then have "x = gap_of g" "ga_track_id g = tr_id t"
        by (auto simp: gap_entry_def expected_entry_def gap_of_def)
      then show "x \<in> gap_of ` set (track_gaps db1 (track_ref t))" unfolding tg using g by blast
    qed
  qed
qed

section \<open>Accepted seals stay accepted\<close>

lemma filter_by_part:
  assumes "filter (\<lambda>x. f x = a) xs = filter (\<lambda>x. f x = a) ys" "\<And>x. P x \<Longrightarrow> f x = a"
  shows "filter P xs = filter P ys"
proof -
  have "filter P zs = filter P (filter (\<lambda>x. f x = a) zs)" for zs
    using assms(2) by (induction zs) auto
  then show ?thesis using assms(1) by metis
qed

lemma declares_keep:
  assumes "declares db rid q"
    and tracks: "\<And>t'. t' \<in> set (rdb_tracks db') \<Longrightarrow> tr_recording_id t' = rid \<Longrightarrow>
      \<exists>t \<in> set (rdb_tracks db). track_ref t = track_ref t' \<and> tr_client_track_id t = tr_client_track_id t'"
    and parts: "filter (\<lambda>p. pt_recording_id p = rid) (rdb_parts db') = filter (\<lambda>p. pt_recording_id p = rid) (rdb_parts db)"
    and gaps: "filter (\<lambda>g. ga_recording_id g = rid) (rdb_gaps db') = filter (\<lambda>g. ga_recording_id g = rid) (rdb_gaps db)"
  shows "declares db' rid q"
  unfolding declares_def
proof (intro ballI impI)
  fix t' assume t': "t' \<in> set (rdb_tracks db')" "tr_recording_id t' = rid"
  obtain t where t: "t \<in> set (rdb_tracks db)" "track_ref t = track_ref t'" "tr_client_track_id t = tr_client_track_id t'"
    using tracks [OF t'] by blast
  have rid: "tr_recording_id t = rid" using t(2) t'(2) by (simp add: track_ref_def)
  then obtain m where m: "m \<in> set (sc_tracks (sl_command q))" "declared_as db t m (sl_snapshot q)"
    using assms(1) t(1) by (auto simp: declares_def)
  have "track_parts db' (track_ref t) = track_parts db (track_ref t)"
    unfolding track_parts_def parts_of_track_def
    by (rule arg_cong, rule filter_by_part [OF parts]) (use rid in \<open>auto simp: part_track_def track_ref_def\<close>)
  moreover have "track_gaps db' (track_ref t) = track_gaps db (track_ref t)"
    unfolding track_gaps_def
    by (rule filter_by_part [OF gaps]) (use rid in \<open>auto simp: gap_track_def track_ref_def\<close>)
  ultimately have "declared_as db' t' m (sl_snapshot q)" using m(2) t by (simp add: declared_as_def)
  with m(1) show "\<exists>m \<in> set (sc_tracks (sl_command q)). declared_as db' t' m (sl_snapshot q)" by blast
qed

lemma mem_by_filter: "filter P xs = filter P ys \<Longrightarrow> x \<in> set xs \<Longrightarrow> P x \<Longrightarrow> x \<in> set ys"
  by (metis (mono_tags, lifting) filter_set mem_Collect_eq set_filter)

lemma rows_of_mem:
  assumes "rows_of db' i = rows_of db i"
  shows "r \<in> set (rdb_recordings db) \<Longrightarrow> rc_id r = i \<Longrightarrow> r \<in> set (rdb_recordings db')"
    and "t \<in> set (rdb_tracks db') \<Longrightarrow> tr_recording_id t = i \<Longrightarrow> t \<in> set (rdb_tracks db)"
proof -
  have e: "filter (\<lambda>r. rc_id r = i) (rdb_recordings db) = filter (\<lambda>r. rc_id r = i) (rdb_recordings db')"
    "filter (\<lambda>t. tr_recording_id t = i) (rdb_tracks db') = filter (\<lambda>t. tr_recording_id t = i) (rdb_tracks db)"
    using assms by (auto simp: rows_of_def)
  show "r \<in> set (rdb_recordings db) \<Longrightarrow> rc_id r = i \<Longrightarrow> r \<in> set (rdb_recordings db')"
    by (rule mem_by_filter [OF e(1)])
  show "t \<in> set (rdb_tracks db') \<Longrightarrow> tr_recording_id t = i \<Longrightarrow> t \<in> set (rdb_tracks db)"
    by (rule mem_by_filter [OF e(2)])
qed

lemma declares_rows:
  assumes "declares db rid q" "rows_of db' rid = rows_of db rid"
  shows "declares db' rid q"
proof (rule declares_keep [OF assms(1)])
  fix t' assume "t' \<in> set (rdb_tracks db')" "tr_recording_id t' = rid"
  then show "\<exists>t \<in> set (rdb_tracks db). track_ref t = track_ref t' \<and> tr_client_track_id t = tr_client_track_id t'"
    using rows_of_mem(2) [OF assms(2)] by blast
qed (use assms(2) in \<open>simp_all add: rows_of_def\<close>)

lemma accepted_frame:
  assumes "accepted_ok db q" "\<And>r. r \<in> set (rdb_recordings db) \<Longrightarrow> closed_state (rc_state r) \<Longrightarrow> seal_of r q \<Longrightarrow>
      rows_of db' (rc_id r) = rows_of db (rc_id r)"
  shows "accepted_ok db' q"
  using assms rows_of_mem(1) declares_rows unfolding accepted_ok_def by metis

lemma open_frame:
  assumes "recording_inv db" "r \<in> set (rdb_recordings db)" "\<not> closed_state (rc_state r)"
    "others_same (rc_id r) db db'" "accepted_ok db q"
  shows "accepted_ok db' q"
proof (rule accepted_frame [OF assms(5)])
  fix r' assume "r' \<in> set (rdb_recordings db)" "closed_state (rc_state r')"
  then have "rc_id r' \<noteq> rc_id r" using same_id(1) [OF recording_invD(2) [OF assms(1)], of r' r] assms(2,3) by auto
  then show "rows_of db' (rc_id r') = rows_of db (rc_id r')" by (rule others_same_rows [OF assms(4)])
qed

lemma track_owner:
  assumes "recording_inv db" "t \<in> set (rdb_tracks db)" "r \<in> set (rdb_recordings db)"
    "tr_recording_id t = rc_id r"
  shows "t \<in> set (tracks_of db (rc_owner_id r) (rc_id r))"
proof -
  note D = recording_invD [OF assms(1)]
  obtain r' where "r' \<in> set (rdb_recordings db)" "rc_id r' = tr_recording_id t" "rc_owner_id r' = tr_owner_id t"
    by (rule track_recording_exists [OF D(1) assms(2)])
  with assms same_id(1) [OF D(2), of r' r] show ?thesis by (auto simp: in_tracks_of)
qed

lemma kept_track:
  assumes "t' \<in> set (rdb_tracks (fold set_track ts db))"
    "\<And>u. u \<in> set ts \<Longrightarrow> \<exists>t \<in> set (rdb_tracks db). track_ref t = track_ref u \<and> tr_client_track_id t = tr_client_track_id u"
  shows "\<exists>t \<in> set (rdb_tracks db). track_ref t = track_ref t' \<and> tr_client_track_id t = tr_client_track_id t'"
  using in_fold_set_track [OF assms(1)] assms(2) by blast

lemma locked_recording_unique:
  assumes "recording_inv db" "locked_recording db owner_id i = Inr r" "r' \<in> set (rdb_recordings db)"
    "rc_owner_id r' = owner_id" "rc_client_recording_id r' = i"
  shows "r' = r"
proof -
  have "inj_on (\<lambda>r. (rc_owner_id r, rc_client_recording_id r)) (set (rdb_recordings db))"
    using recording_invD(1) [OF assms(1)] by (simp add: constraints_ok_def recording_keys_ok_def distinct_map)
  then show ?thesis using locked_recording_Inr [OF assms(2)] assms(3-5) by (auto dest: inj_onD)
qed

lemma prepared_tracks:
  assumes "seal_tracks (tracks_of db owner_id rid) c = Inr sealing" "rdb_tracks db1 = rdb_tracks db"
    "t' \<in> set (rdb_tracks (fold set_track sealing db1))"
  shows "\<exists>t \<in> set (rdb_tracks db). track_ref t = track_ref t' \<and> tr_client_track_id t = tr_client_track_id t'"
proof (rule kept_track)
  show "t' \<in> set (rdb_tracks (fold set_track sealing db))"
    using assms(3) fold_set_track_cong [OF assms(2)] by simp
  fix u assume "u \<in> set sealing"
  then show "\<exists>t \<in> set (rdb_tracks db). track_ref t = track_ref u \<and> tr_client_track_id t = tr_client_track_id u"
    unfolding seal_tracks_Inr [OF assms(1)] by (auto simp: in_tracks_of track_ref_def)
qed

lemma prepare_accepted:
  assumes inv: "recording_inv db" and c: "validate_seal c = Inr c"
    and prep: "prepare_seal sha clock owner_id c key hash db = Inr (db', sn)" "sn_response sn = None"
  shows "accepted_ok db' \<lparr>sl_owner_id = owner_id, sl_command = c, sl_key = key, sl_hash = hash, sl_snapshot = sn\<rparr>"
  using prep(1)
proof (cases rule: prepare_seal_cases)
  case (fresh r tracks ups gs db1 sealing)
  let ?q = "\<lparr>sl_owner_id = owner_id, sl_command = c, sl_key = key, sl_hash = hash, sl_snapshot = sn\<rparr>"
  let ?r = "r\<lparr>rc_state := State_sealing, rc_seal_idempotency_key := Some key,
         rc_seal_request_hash := Some hash, rc_ended_at := Some (instant_of (sc_ended_at c))\<rparr>"
  have r: "r \<in> set (rdb_recordings db)" "rc_owner_id r = owner_id" "rc_client_recording_id r = sc_recording_id c"
    using locked_recording_Inr [OF fresh(2)] by auto
  have g: "rdb_tracks db1 = rdb_tracks db" "rdb_parts db1 = rdb_parts db" "rdb_recordings db1 = rdb_recordings db"
    using reserve_gaps_rows [OF fresh(12)] by auto
  have "?r \<in> set (rdb_recordings db')" using r(1) g by (auto simp: fresh(14) mem_replace_row)
  moreover have "seal_of ?r ?q" "closed_state (rc_state ?r)"
    using r by (simp_all add: seal_of_def same_seal_def closed_state_def)
  moreover have "declares db' (rc_id ?r) ?q"
    unfolding declares_def
  proof (intro ballI impI)
    fix t' assume t': "t' \<in> set (rdb_tracks db')" "tr_recording_id t' = rc_id ?r"
    obtain t where t: "t \<in> set (rdb_tracks db)" "track_ref t = track_ref t'" "tr_client_track_id t = tr_client_track_id t'"
      using prepared_tracks [OF fresh(13) [unfolded fresh(5)] g(1)] t'(1) by (auto simp: fresh(14))
    have tin: "t \<in> set (tracks_of db owner_id (rc_id r))"
      using track_owner [OF inv t(1) r(1)] t(2) t'(2) r(2) by (simp add: track_ref_def)
    then have "tr_client_track_id t \<in> set (map fst (declared_tracks c))" using fresh(5,7) by auto
    then obtain m where m: "m \<in> set (sc_tracks c)" "tm_track_id m = tr_client_track_id t"
      by (auto simp: declared_tracks_def)
    have "track_parts db' = track_parts db" "track_gaps db' = track_gaps db1"
      using g(2) by (auto simp: fun_eq_iff track_parts_def parts_of_track_def track_gaps_def fresh(14))
    then have "declared_as db' t' m sn"
      using accepted_parts [OF inv tin fresh(9) [unfolded fresh(5)] fresh(10) c m]
        accepted_gaps [OF inv tin fresh(11) [unfolded fresh(5)] fresh(12) c m]
        accepted_snapshot [OF inv tin fresh(9) [unfolded fresh(5)] fresh(16)] m(2) t(2,3)
      by (simp add: declared_as_def)
    with m(1) show "\<exists>m \<in> set (sc_tracks (sl_command ?q)). declared_as db' t' m (sl_snapshot ?q)" by auto
  qed
  ultimately show ?thesis unfolding accepted_ok_def using c by (intro conjI bexI [of _ ?r]) simp_all
qed (use prep(2) in simp)

lemma reserve_again:
  assumes inv: "recording_inv db" and r: "r \<in> set (rdb_recordings db)"
    and gs: "expected_gaps (tracks_of db (rc_owner_id r) (rc_id r)) c = Inr gs"
    and db1: "reserve_gaps clock (rc_owner_id r) (rc_id r) gs db = Inr db1"
    and c: "validate_seal c = Inr c" and q: "declares db (rc_id r) q" "sl_command q = c"
  shows "rdb_gaps db1 = rdb_gaps db"
  using db1
proof (cases rule: reserve_gaps_Inr)
  case first
  obtain f where f: "\<And>u. u \<in> set (tracks_of db (rc_owner_id r) (rc_id r)) \<Longrightarrow>
      dict_get (declared_tracks c) (tr_client_track_id u) = Inr (f u)"
    and gs': "gs = concat (map (\<lambda>t. map (\<lambda>g. (t, g)) (tm_gaps (f t))) (tracks_of db (rc_owner_id r) (rc_id r)))"
    using expected_gaps_Inr [OF gs] by blast
  have "tm_gaps (f t) = []" if t: "t \<in> set (tracks_of db (rc_owner_id r) (rc_id r))" for t
  proof -
    obtain m where m: "m \<in> set (sc_tracks c)" "declared_as db t m (sl_snapshot q)"
      using q t by (auto simp: declares_def in_tracks_of)
    have "f t = m"
      using f [OF t] m declared_one [OF c, of "tr_client_track_id t" m] by (simp add: declared_as_def)
    moreover have "track_gaps db (track_ref t) = []"
      using gap_in_recording [OF t] first(1) by (auto simp: track_gaps_def filter_empty_conv)
    ultimately show ?thesis using m(2) by (simp add: declared_as_def)
  qed
  then have "gs = []" unfolding gs' by auto
  then show ?thesis using first(2) by simp
qed simp

lemma prepare_keeps_accepted:
  assumes inv: "recording_inv db" and c: "validate_seal c = Inr c"
    and prep: "prepare_seal sha clock owner_id c key hash db = Inr (db', sn)" "sn_response sn = None"
    and q: "accepted_ok db q" and nc: "sl_hash q = hash \<Longrightarrow> sl_command q = c"
  shows "accepted_ok db' q"
  using prep(1)
proof (cases rule: prepare_seal_cases)
  case (fresh r tracks ups gs db1 sealing)
  let ?r = "r\<lparr>rc_state := State_sealing, rc_seal_idempotency_key := Some key,
         rc_seal_request_hash := Some hash, rc_ended_at := Some (instant_of (sc_ended_at c))\<rparr>"
  have r: "r \<in> set (rdb_recordings db)" "rc_owner_id r = owner_id"
    using locked_recording_Inr [OF fresh(2)] by auto
  have g: "rdb_tracks db1 = rdb_tracks db" "rdb_parts db1 = rdb_parts db" "rdb_recordings db1 = rdb_recordings db"
    using reserve_gaps_rows [OF fresh(12)] by auto
  from q obtain r0 where r0: "r0 \<in> set (rdb_recordings db)" "seal_of r0 q" "closed_state (rc_state r0)"
    "declares db (rc_id r0) q" and v: "validate_seal (sl_command q) = Inr (sl_command q)"
    by (auto simp: accepted_ok_def)
  show ?thesis
  proof (cases "r0 = r")
    case True
    have same: "sl_key q = key" "sl_hash q = hash"
      using r0(2) True fresh(4) by (auto simp: seal_of_def same_seal_def)
    have gaps: "rdb_gaps db1 = rdb_gaps db"
      by (rule reserve_again [OF inv r(1) _ _ c, of gs clock db1 q])
        (use fresh(5,11,12) r(2) r0(4) True nc same in auto)
    have "declares db' (rc_id r) q"
    proof (rule declares_keep)
      show "declares db (rc_id r) q" using r0(4) True by simp
      fix t' assume "t' \<in> set (rdb_tracks db')"
      then show "\<exists>t \<in> set (rdb_tracks db). track_ref t = track_ref t' \<and> tr_client_track_id t = tr_client_track_id t'"
        using prepared_tracks [OF fresh(13) [unfolded fresh(5)] g(1)] by (simp add: fresh(14))
    qed (simp_all add: fresh(14) g gaps)
    moreover have "?r \<in> set (rdb_recordings db')" using r(1) g by (auto simp: fresh(14) mem_replace_row)
    moreover have "seal_of ?r q" "closed_state (rc_state ?r)"
      using r0(2) True same by (simp_all add: seal_of_def same_seal_def closed_state_def)
    ultimately show ?thesis using v unfolding accepted_ok_def by (intro conjI bexI [of _ ?r]) simp_all
  next
    case False
    then have "rc_id r0 \<noteq> rc_id r" using same_id(1) [OF recording_invD(2) [OF inv] r0(1) r(1)] by blast
    moreover obtain r1 where "locked_recording db owner_id (sc_recording_id c) = Inr r1" "others_same (rc_id r1) db db'"
      by (rule prepare_seal_frame [OF inv prep])
    ultimately have "rows_of db' (rc_id r0) = rows_of db (rc_id r0)"
      using fresh(2) others_same_rows by fastforce
    then show ?thesis
      using r0 v rows_of_mem(1) declares_rows unfolding accepted_ok_def by blast
  qed
qed (use prep(2) in simp)

lemma stored_tracks_kept:
  assumes "map_result (store_track now c manifests) (tracks_of db owner_id rid) = Inr stored"
    "t' \<in> set (rdb_tracks (fold set_track stored db))"
  shows "\<exists>t \<in> set (rdb_tracks db). track_ref t = track_ref t' \<and> tr_client_track_id t = tr_client_track_id t'"
proof (rule kept_track [OF assms(2)])
  fix u assume u: "u \<in> set stored"
  obtain t where t: "t \<in> set (tracks_of db owner_id rid)" "store_track now c manifests t = Inr u"
    by (rule store_tracks_Inr [OF assms(1) u])
  have "track_ref t = track_ref u \<and> tr_client_track_id t = tr_client_track_id u"
    by (cases rule: store_track_Inr [OF t(2)]) (simp add: track_ref_def)
  then show "\<exists>t \<in> set (rdb_tracks db). track_ref t = track_ref u \<and> tr_client_track_id t = tr_client_track_id u"
    using t(1) by (auto simp: in_tracks_of)
qed

lemma finalize_seal_declares:
  assumes "finalize_seal now owner_id c key hash manifests db = Inr (db', x)" "declares db rid q"
  shows "declares db' rid q"
  using assms(1)
proof (cases rule: finalize_seal_cases)
  case (fresh r stored st)
  show ?thesis
    by (rule declares_keep [OF assms(2)]) (use stored_tracks_kept [OF fresh(4)] in \<open>simp_all add: fresh(6)\<close>)
qed (use assms(2) in simp)

lemma finalize_keeps_accepted:
  assumes inv: "recording_inv db"
    and fin: "finalize_seal now owner_id c key hash manifests db = Inr (db', x)" and q: "accepted_ok db q"
  shows "accepted_ok db' q"
proof -
  from q obtain r0 where r0: "r0 \<in> set (rdb_recordings db)" "seal_of r0 q" "closed_state (rc_state r0)"
    "declares db (rc_id r0) q" and v: "validate_seal (sl_command q) = Inr (sl_command q)"
    by (auto simp: accepted_ok_def)
  have d: "declares db' (rc_id r0) q" by (rule finalize_seal_declares [OF fin r0(4)])
  have "\<exists>r' \<in> set (rdb_recordings db'). rc_id r' = rc_id r0 \<and> seal_of r' q \<and> closed_state (rc_state r')"
    using fin
  proof (cases rule: finalize_seal_cases)
    case (fresh r stored st)
    let ?r = "r\<lparr>rc_state := st, rc_coverage_status := Some (sc_coverage_status c), rc_seal_result := Some x,
       rc_audio_created_on_server := True, rc_sealed_at := Some now\<rparr>"
    have r: "r \<in> set (rdb_recordings db)" using locked_recording_Inr [OF fresh(1)] by blast
    show ?thesis
    proof (cases "rc_id r0 = rc_id r")
      case True
      then have "r0 = r" using same_id(1) [OF recording_invD(2) [OF inv] r0(1) r] by blast
      moreover have "?r \<in> set (rdb_recordings db')" using r by (auto simp: fresh(6) mem_replace_row)
      ultimately show ?thesis
        using r0(2) fresh(5) by (intro bexI [of _ ?r]) (auto simp: seal_of_def same_seal_def closed_state_def is_stored_def)
    next
      case False
      then show ?thesis using r0(1-3) by (intro bexI [of _ r0]) (auto simp: fresh(6) mem_replace_row)
    qed
  qed (use r0 in blast)
  with d v show ?thesis unfolding accepted_ok_def by metis
qed

lemma attach_keeps_accepted:
  assumes inv: "recording_inv db" and att: "attach_interview owner_id i recording_id db = Inr db'"
    and q: "accepted_ok db q"
  shows "accepted_ok db' q"
proof -
  from q obtain r0 where r0: "r0 \<in> set (rdb_recordings db)" "seal_of r0 q" "closed_state (rc_state r0)"
    "declares db (rc_id r0) q" and v: "validate_seal (sl_command q) = Inr (sl_command q)"
    by (auto simp: accepted_ok_def)
  have d: "declares db' (rc_id r0) q"
    by (rule declares_keep [OF r0(4)]) (use attach_interview_parts [OF att] in auto)
  from att obtain r where r: "r \<in> set (rdb_recordings db)" "db' = set_recording (r\<lparr>rc_interview_id := Some i\<rparr>) db"
    by (cases rule: attach_interview_cases) (use locked_recording_Inr in blast)
  have "\<exists>r' \<in> set (rdb_recordings db'). rc_id r' = rc_id r0 \<and> seal_of r' q \<and> closed_state (rc_state r')"
  proof (cases "rc_id r0 = rc_id r")
    case True
    then have "r0 = r" using same_id(1) [OF recording_invD(2) [OF inv] r0(1) r(1)] by blast
    then show ?thesis using r0(2,3) r(1)
      by (intro bexI [of _ "r\<lparr>rc_interview_id := Some i\<rparr>"])
        (auto simp: r(2) mem_replace_row seal_of_def same_seal_def)
  next
    case False
    then show ?thesis using r0(1-3) by (intro bexI [of _ r0]) (auto simp: r(2) mem_replace_row)
  qed
  with d v show ?thesis unfolding accepted_ok_def by metis
qed

lemma no_collisionD:
  "no_collision s \<Longrightarrow> q \<in> sy_accepted s \<Longrightarrow> q' \<in> sy_accepted s \<Longrightarrow> sl_hash q = sl_hash q' \<Longrightarrow>
     sl_command q = sl_command q'"
  unfolding no_collision_def by blast

lemma recording_step_accepted:
  assumes "recording_step cx s s'" "recording_inv (sy_db s)" "no_collision s'"
    "\<forall>q \<in> sy_accepted s. accepted_ok (sy_db s) q"
  shows "\<forall>q \<in> sy_accepted s'. accepted_ok (sy_db s') q"
  using assms
proof (induction rule: recording_step.induct)
  case (step_create clock owner_id c key hash s db' x)
  from repo_create_frame [OF step_create(2,1)] show ?case
  proof
    assume o: "others_same (rdb_next_id (sy_db s)) (sy_db s) db'"
    have "accepted_ok db' q" if "q \<in> sy_accepted s" for q
    proof (rule accepted_frame [of "sy_db s"])
      fix r assume "r \<in> set (rdb_recordings (sy_db s))"
      then have "rc_id r \<noteq> rdb_next_id (sy_db s)"
        using below_next_id(1) [OF recording_invD(2) [OF step_create(2)]] by fastforce
      then show "rows_of db' (rc_id r) = rows_of (sy_db s) (rc_id r)" by (rule others_same_rows [OF o])
    qed (use step_create(4) that in blast)
    then show ?thesis by simp
  qed (use step_create(4) in simp)
next
  case (step_reserve owner_id m k clock key hash s db' v)
  from step_reserve(3,2) show ?case
  proof (cases rule: reserve_part_frame)
    case (2 r)
    then show ?thesis using open_frame [OF step_reserve(3) 2] step_reserve(5) by simp
  qed (use step_reserve(5) in simp)
next
  case (step_store s k y now owner_id m key db' x)
  from step_store(3,2) show ?case
  proof (cases rule: finalize_part_frame)
    case (2 r)
    then show ?thesis using open_frame [OF step_store(3) 2] step_store(5) by simp
  qed (use step_store(5) in simp)
next
  case (step_accept c clock owner_id key hash s db' sn)
  have "accepted_ok db' q" if "q \<in> sy_accepted s" for q
  proof (rule prepare_keeps_accepted [OF step_accept(4,1,2,3)])
    show "accepted_ok (sy_db s) q" using step_accept(6) that by blast
    show "sl_hash q = hash \<Longrightarrow> sl_command q = c"
      using no_collisionD [OF step_accept(5), of q "\<lparr>sl_owner_id = owner_id, sl_command = c,
          sl_key = key, sl_hash = hash, sl_snapshot = sn\<rparr>"] that by simp
  qed
  then show ?case using prepare_accepted [OF step_accept(4,1,2,3)] by simp
next
  case (step_finish q s now manifests db' x)
  then show ?case using finalize_keeps_accepted [OF step_finish(3,2)] by simp
next
  case (step_attach owner_id i recording_id s db')
  then show ?case using attach_keeps_accepted [OF step_attach(2,1)] by simp
qed simp_all

end
