(* ===== verification/Recording_Properties.thy ===== *)
theory Recording_Properties
  imports Recording_Sealing
begin

text \<open>
  What recording ingest guarantees: parts of a track never overlap and its counters are exact, an
  acknowledged part is durable, a stored recording is intact and never changes, and requests can
  be repeated.
\<close>

section \<open>Stored recordings do not change\<close>

text \<open>All rows of a recording, without its link to an interview.\<close>

definition sealed_rows ::
    "recording_db \<Rightarrow> int \<Rightarrow> recording_row list \<times> track_row list \<times> part_row list \<times> gap_row list" where
  "sealed_rows db rid = apfst (map (\<lambda>r. r\<lparr>rc_interview_id := None\<rparr>)) (rows_of db rid)"

lemma sealed_rows_frame:
  assumes "recording_inv db" "r \<in> set (rdb_recordings db)" "is_stored (rc_state r)"
    "r' \<in> set (rdb_recordings db)" "\<not> is_stored (rc_state r')" "others_same (rc_id r') db db'"
  shows "sealed_rows db' (rc_id r) = sealed_rows db (rc_id r)"
proof -
  have "rc_id r \<noteq> rc_id r'" using same_id(1) [OF recording_invD(2) [OF assms(1)] assms(2,4)] assms(3,5) by auto
  then show ?thesis using others_same_rows [OF assms(6)] by (simp add: sealed_rows_def)
qed

lemma stored_is_closed: "is_stored st \<Longrightarrow> closed_state st"
  by (auto simp: is_stored_def closed_state_def)

lemma recording_step_sealed_rows:
  assumes "recording_step cx s s'" "recording_inv (sy_db s)" "r \<in> set (rdb_recordings (sy_db s))"
    "is_stored (rc_state r)"
  shows "sealed_rows (sy_db s') (rc_id r) = sealed_rows (sy_db s) (rc_id r)"
  using assms
proof (induction rule: recording_step.induct)
  case (step_create clock owner_id c key hash s db' x)
  have "rc_id r \<noteq> rdb_next_id (sy_db s)"
    using below_next_id(1) [OF recording_invD(2) [OF step_create(2)] step_create(3)] by simp
  with repo_create_frame [OF step_create(2,1)] others_same_rows show ?case
    by (auto simp: sealed_rows_def)
next
  case (step_reserve owner_id m k clock key hash s db' v)
  from step_reserve(3,2) show ?case
  proof (cases rule: reserve_part_frame)
    case (2 r')
    then show ?thesis
      using sealed_rows_frame [OF step_reserve(3,4,5) 2(1) _ 2(3)] stored_is_closed by auto
  qed simp
next
  case (step_store s k y now owner_id m key db' x)
  from step_store(3,2) show ?case
  proof (cases rule: finalize_part_frame)
    case (2 r')
    then show ?thesis
      using sealed_rows_frame [OF step_store(3,4,5) 2(1) _ 2(3)] stored_is_closed by auto
  qed simp
next
  case (step_accept c clock owner_id key hash s db' sn)
  from step_accept(4,2,3) show ?case
  proof (cases rule: prepare_seal_frame)
    case (1 r')
    then have "r' \<in> set (rdb_recordings (sy_db s))" using locked_recording_Inr by blast
    from sealed_rows_frame [OF step_accept(4,5,6) this 1(2,4)] show ?thesis by simp
  qed
next
  case (step_finish q s now manifests db' x)
  from step_finish(3,2) show ?case
  proof (cases rule: finalize_seal_frame)
    case (2 r')
    from sealed_rows_frame [OF step_finish(3,4,5) 2] show ?thesis by simp
  qed simp
next
  case (step_attach owner_id i recording_id s db')
  from step_attach(1) obtain r' where r': "db' = set_recording (r'\<lparr>rc_interview_id := Some i\<rparr>) (sy_db s)"
    "r' \<in> set (rdb_recordings (sy_db s))"
    by (cases rule: attach_interview_cases) (use locked_recording_Inr in blast)
  have "x = r'" if "x \<in> set (rdb_recordings (sy_db s))" "rc_id x = rc_id r'" for x
    using same_id(1) [OF recording_invD(2) [OF step_attach(2)] that(1) r'(2) that(2)] .
  then have "map (\<lambda>r. r\<lparr>rc_interview_id := None\<rparr>) (filter (\<lambda>x. rc_id x = j)
        (replace_row rc_id (r'\<lparr>rc_interview_id := Some i\<rparr>) rows))
      = map (\<lambda>r. r\<lparr>rc_interview_id := None\<rparr>) (filter (\<lambda>x. rc_id x = j) rows)"
    if "set rows \<subseteq> set (rdb_recordings (sy_db s))" for rows j
    using that
  proof (induction rows)
    case (Cons x rows)
    then have "rc_id x = rc_id r' \<Longrightarrow> x = r'" by simp
    with Cons show ?case by (auto simp: replace_row_def)
  qed (simp add: replace_row_def)
  then show ?case by (simp add: r'(1) sealed_rows_def rows_of_def)
qed simp_all

section \<open>What a stored recording was made from\<close>

definition sealed_by :: "recording_db \<Rightarrow> recording_row \<Rightarrow> sealing \<Rightarrow> bool" where
  "sealed_by db r q \<longleftrightarrow>
     seal_of r q
     \<and> (\<forall>t \<in> set (rdb_tracks db). tr_recording_id t = rc_id r \<longrightarrow>
          (\<exists>m \<in> set (sc_tracks (sl_command q)). declared_as db t m (sl_snapshot q)
             \<and> tr_total_sample_count t = Some (tm_total_sample_count m)
             \<and> tr_pcm_sha256 t = Some (tm_pcm_sha256 m)))"

lemma store_tracks_ids:
  "map_result (store_track now c manifests) tracks = Inr stored \<Longrightarrow> map tr_id stored = map tr_id tracks"
proof (induction tracks arbitrary: stored)
  case (Cons t ts)
  then obtain u us where u: "store_track now c manifests t = Inr u"
    "map_result (store_track now c manifests) ts = Inr us" "stored = u # us"
    by (auto simp: result_simps)
  moreover have "tr_id u = tr_id t" by (cases rule: store_track_Inr [OF u(1)]) simp
  ultimately show ?case using Cons.IH by simp
qed simp

lemma finalize_seals:
  assumes inv: "recording_inv db" and q: "accepted_ok db q"
    and fin: "finalize_seal now (sl_owner_id q) (sl_command q) (sl_key q) (sl_hash q) manifests db = Inr (db', x)"
    and r': "r' \<in> set (rdb_recordings db')" "is_stored (rc_state r')"
  shows "(\<exists>r \<in> set (rdb_recordings db). is_stored (rc_state r) \<and> rc_id r = rc_id r') \<or> sealed_by db' r' q"
  using fin
proof (cases rule: finalize_seal_cases)
  case (fresh r stored st)
  let ?c = "sl_command q"
  let ?r = "r\<lparr>rc_state := st, rc_coverage_status := Some (sc_coverage_status ?c), rc_seal_result := Some x,
       rc_audio_created_on_server := True, rc_sealed_at := Some now\<rparr>"
  note D = recording_invD [OF inv]
  from q obtain r0 where r0: "r0 \<in> set (rdb_recordings db)" "seal_of r0 q" "declares db (rc_id r0) q"
    and v: "validate_seal ?c = Inr ?c" by (auto simp: accepted_ok_def)
  have "r0 = r" by (rule locked_recording_unique [OF inv fresh(1) r0(1)]) (use r0(2) in \<open>simp_all add: seal_of_def\<close>)
  then have r: "r \<in> set (rdb_recordings db)" "seal_of r q" "declares db' (rc_id r) q" "rc_owner_id r = sl_owner_id q"
    using r0 finalize_seal_declares [OF fin] by (auto simp: seal_of_def)
  show ?thesis
  proof (cases "r' = ?r")
    case False
    then have "r' \<in> set (rdb_recordings db)" using r'(1) by (auto simp: fresh(6) mem_replace_row split: if_splits)
    then show ?thesis using r'(2) by blast
  next
    case True
    have "\<exists>m \<in> set (sc_tracks ?c). declared_as db' t m (sl_snapshot q)
        \<and> tr_total_sample_count t = Some (tm_total_sample_count m) \<and> tr_pcm_sha256 t = Some (tm_pcm_sha256 m)"
      if t: "t \<in> set (rdb_tracks db')" "tr_recording_id t = rc_id r" for t
    proof -
      obtain m where m: "m \<in> set (sc_tracks ?c)" "declared_as db' t m (sl_snapshot q)"
        using r(3) t by (auto simp: declares_def)
      from t(1) in_fold_set_track [of t stored db]
      consider "t \<in> set stored" | "t \<in> set (rdb_tracks db)" "tr_id t \<notin> set (map tr_id stored)"
        by (auto simp: fresh(6))
      then show ?thesis
      proof cases
        case 1
        obtain t0 where t0: "store_track now ?c manifests t0 = Inr t" by (rule store_tracks_Inr [OF fresh(4) 1])
        then show ?thesis
        proof (cases rule: store_track_Inr)
          case (1 m' k digest size)
          then have "m' = m"
            using declared_one [OF v, of "tr_client_track_id t0" m] m by (simp add: declared_as_def)
          then show ?thesis using 1(2) m by auto
        qed
      next
        case 2
        then show ?thesis
          using track_owner [OF inv 2(1) r(1) t(2)] r(4) store_tracks_ids [OF fresh(4)] by auto
      qed
    qed
    then show ?thesis using r(2) True by (simp add: sealed_by_def seal_of_def same_seal_def)
  qed
qed (use r' in blast)

lemma set_recording_stored:
  "r' \<in> set (replace_row rc_id r rows) \<Longrightarrow> is_stored (rc_state r') \<Longrightarrow> \<not> is_stored (rc_state r) \<Longrightarrow>
     r' \<in> set rows"
  by (auto simp: mem_replace_row split: if_splits)

lemma recording_step_stored:
  assumes "recording_step cx s s'" "recording_inv (sy_db s)" "\<forall>q \<in> sy_verified s. accepted_ok (sy_db s) q"
    "r' \<in> set (rdb_recordings (sy_db s'))" "is_stored (rc_state r')"
  shows "(\<exists>r \<in> set (rdb_recordings (sy_db s)). is_stored (rc_state r) \<and> rc_id r = rc_id r')
    \<or> (\<exists>q \<in> sy_verified s. sealed_by (sy_db s') r' q)"
  using assms
proof (induction rule: recording_step.induct)
  case (step_create clock owner_id c key hash s db' x)
  from step_create(1) show ?case
  proof (cases rule: repo_create_cases)
    case fresh
    then have "r' \<in> set (rdb_recordings (sy_db s))"
      using step_create(4,5) by (auto simp: add_tracks_def new_recording_def is_stored_def)
    then show ?thesis using step_create(5) by blast
  qed (use step_create in auto)
next
  case (step_reserve owner_id m k clock key hash s db' v)
  from step_reserve(2) show ?case
  proof (cases rule: reserve_part_cases)
    case (fresh r t p)
    then have "r' \<in> set (rdb_recordings (sy_db s))"
      using step_reserve(5,6) set_recording_stored [of r' "r\<lparr>rc_state := State_uploading\<rparr>"]
      by (simp add: is_stored_def)
    then show ?thesis using step_reserve(6) by blast
  qed (use step_reserve in auto)
next
  case (step_store s k y now owner_id m key db' x)
  from step_store(2) show ?case
  proof (cases rule: finalize_part_cases)
    case (fresh r t p stored)
    then have "r' \<in> set (rdb_recordings (sy_db s))"
      using step_store(5,6) set_recording_stored [of r' "r\<lparr>rc_state := State_uploading\<rparr>"]
      by (simp add: is_stored_def)
    then show ?thesis using step_store(6) by blast
  qed (use step_store in auto)
next
  case (step_accept c clock owner_id key hash s db' sn)
  from step_accept(2) show ?case
  proof (cases rule: prepare_seal_cases)
    case (fresh r tracks ups gs db1 sealing)
    then have "r' \<in> set (rdb_recordings (sy_db s))"
      using step_accept(6,7) reserve_gaps_rows [OF fresh(12)]
        set_recording_stored [of r' "r\<lparr>rc_state := State_sealing, rc_seal_idempotency_key := Some key,
         rc_seal_request_hash := Some hash, rc_ended_at := Some (instant_of (sc_ended_at c))\<rparr>"]
      by (simp add: is_stored_def)
    then show ?thesis using step_accept(7) by blast
  qed (use step_accept in auto)
next
  case (step_finish q s now manifests db' x)
  then show ?case using finalize_seals [OF step_finish(3) _ step_finish(2)] by auto
next
  case (step_attach owner_id i recording_id s db')
  from step_attach(1) obtain r where r: "r \<in> set (rdb_recordings (sy_db s))"
    "db' = set_recording (r\<lparr>rc_interview_id := Some i\<rparr>) (sy_db s)"
    by (cases rule: attach_interview_cases) (use locked_recording_Inr in blast)
  then show ?case using step_attach(4,5) by (auto simp: mem_replace_row split: if_splits)
qed auto

section \<open>The invariant of every reachable system\<close>

lemma open_object_Inr:
  assumes "open_object st k = Inr chunks"
  obtains y data where "objects st k = Some (y, data)" "validate_object_key k = Inr k" "concat chunks = data"
  using assms
  by (auto simp: open_object_def result_simps concat_chunks READ_CHUNK_BYTES_def
      validate_object_key_def Let_def split: option.splits if_splits sum.splits)

lemma read_parts_Inr:
  "read_parts st ids ps = Inr bytes \<Longrightarrow>
     list_all2 (\<lambda>p b. fst b = sp_track_id p \<and> int (length (snd b)) = sp_byte_length p
        \<and> (\<exists>y. objects st (sp_object_key p) = Some (y, snd b)
             \<and> validate_object_key (sp_object_key p) = Inr (sp_object_key p))) ps bytes"
proof (induction ps arbitrary: bytes)
  case (Cons p ps)
  from Cons.prems obtain chunks rest where c: "open_object st (sp_object_key p) = Inr chunks"
    "int (length (concat chunks)) = sp_byte_length p" "read_parts st ids ps = Inr rest"
    "bytes = (sp_track_id p, concat chunks) # rest"
    by (auto simp: result_simps storage_guard_def split: if_splits sum.splits)
  show ?case using c(2-4) Cons.IH [OF c(3)] by (cases rule: open_object_Inr [OF c(1)]) auto
qed simp

lemma read_parts_keep:
  assumes "read_parts st ids ps = Inr bytes" "\<And>k z. objects st k = Some z \<Longrightarrow> objects st' k = Some z"
  shows "read_parts st' ids ps = Inr bytes"
  using assms(1)
proof (induction ps arbitrary: bytes)
  case (Cons p ps)
  from Cons.prems obtain chunks rest where c: "open_object st (sp_object_key p) = Inr chunks"
    "int (length (concat chunks)) = sp_byte_length p" "read_parts st ids ps = Inr rest"
    "bytes = (sp_track_id p, concat chunks) # rest" "sp_track_id p \<in> set ids"
    by (auto simp: result_simps storage_guard_def split: if_splits sum.splits)
  obtain y data where o: "objects st (sp_object_key p) = Some (y, data)"
    "validate_object_key (sp_object_key p) = Inr (sp_object_key p)"
    by (cases rule: open_object_Inr [OF c(1)])
  then have "open_object st' (sp_object_key p) = open_object st (sp_object_key p)"
    using assms(2) [OF o(1)] by (simp add: open_object_def)
  then show ?case using c Cons.IH [OF c(3)] by (simp add: storage_guard_def)
qed simp

lemma verify_keep:
  assumes "verify_pcm_hashes cx st c sn = Inr ()" "\<And>k z. objects st k = Some z \<Longrightarrow> objects st' k = Some z"
  shows "verify_pcm_hashes cx st' c sn = Inr ()"
proof -
  obtain bytes where b: "read_parts st (map fst (declared_tracks c)) (sn_parts sn) = Inr bytes"
    using assms(1) by (auto simp: verify_pcm_hashes_def result_simps)
  with assms(1) read_parts_keep [OF b assms(2)] show ?thesis by (simp add: verify_pcm_hashes_def)
qed

definition system_inv :: "crypto \<Rightarrow> recording_system \<Rightarrow> bool" where
  "system_inv cx s \<longleftrightarrow>
     recording_inv (sy_db s) \<and> store_ok (cx_sha cx) (sy_store s) \<and> durable s
     \<and> sy_verified s \<subseteq> sy_accepted s
     \<and> (\<forall>q \<in> sy_verified s. verify_pcm_hashes cx (sy_store s) (sl_command q) (sl_snapshot q) = Inr ())
     \<and> (no_collision s \<longrightarrow>
          (\<forall>q \<in> sy_accepted s. accepted_ok (sy_db s) q)
          \<and> (\<forall>r \<in> set (rdb_recordings (sy_db s)). is_stored (rc_state r) \<longrightarrow>
               (\<exists>q \<in> sy_verified s. sealed_by (sy_db s) r q)))"

lemma recording_step_requests:
  assumes "recording_step cx s s'"
  shows "sy_accepted s \<subseteq> sy_accepted s'" "sy_verified s \<subseteq> sy_verified s'"
    "sy_verified s \<subseteq> sy_accepted s \<Longrightarrow> sy_verified s' \<subseteq> sy_accepted s'"
  using assms by (induction rule: recording_step.induct) auto

lemma no_collision_before: "recording_step cx s s' \<Longrightarrow> no_collision s' \<Longrightarrow> no_collision s"
  using recording_step_requests(1) unfolding no_collision_def by blast

lemma recording_step_verified:
  assumes "recording_step cx s s'" "store_ok (cx_sha cx) (sy_store s)"
    "\<forall>q \<in> sy_verified s. verify_pcm_hashes cx (sy_store s) (sl_command q) (sl_snapshot q) = Inr ()"
  shows "\<forall>q \<in> sy_verified s'. verify_pcm_hashes cx (sy_store s') (sl_command q) (sl_snapshot q) = Inr ()"
proof
  fix q assume q: "q \<in> sy_verified s'"
  from assms(1) have "verify_pcm_hashes cx (sy_store s) (sl_command q) (sl_snapshot q) = Inr ()"
    by cases (use q assms(3) in auto)
  then show "verify_pcm_hashes cx (sy_store s') (sl_command q) (sl_snapshot q) = Inr ()"
    by (rule verify_keep) (rule recording_step_store(2) [OF assms(1,2)])
qed

lemma filter_one_key:
  "distinct (map f xs) \<Longrightarrow> x \<in> set xs \<Longrightarrow> filter (\<lambda>y. f y = f x) xs = [x]"
proof (induction xs)
  case (Cons y ys)
  have "filter (\<lambda>y. f y = f x) ys = []" if "y = x"
    using Cons.prems(1) that by (simp add: filter_empty_conv) (metis imageI)
  then show ?case using Cons by (cases "y = x") auto
qed simp

lemma one_recording:
  "ids_ok db \<Longrightarrow> r \<in> set (rdb_recordings db) \<Longrightarrow>
     filter (\<lambda>x. rc_id x = rc_id r) (rdb_recordings db) = [r]"
  by (simp add: ids_ok_def filter_one_key)

lemma sealed_by_rows:
  assumes "ids_ok db" "ids_ok db'" "sealed_rows db' (rc_id r) = sealed_rows db (rc_id r)"
    "r \<in> set (rdb_recordings db)" "r' \<in> set (rdb_recordings db')" "rc_id r' = rc_id r" "sealed_by db r q"
  shows "sealed_by db' r' q"
proof -
  have "map (\<lambda>r. r\<lparr>rc_interview_id := None\<rparr>) [r'] = map (\<lambda>r. r\<lparr>rc_interview_id := None\<rparr>) [r]"
    and tracks: "filter (\<lambda>t. tr_recording_id t = rc_id r) (rdb_tracks db')
      = filter (\<lambda>t. tr_recording_id t = rc_id r) (rdb_tracks db)"
    and parts: "filter (\<lambda>p. pt_recording_id p = rc_id r) (rdb_parts db')
      = filter (\<lambda>p. pt_recording_id p = rc_id r) (rdb_parts db)"
    and gaps: "filter (\<lambda>g. ga_recording_id g = rc_id r) (rdb_gaps db')
      = filter (\<lambda>g. ga_recording_id g = rc_id r) (rdb_gaps db)"
    using assms(3) one_recording [OF assms(1,4)] one_recording [OF assms(2,5)] assms(6)
    by (simp_all add: sealed_rows_def rows_of_def)
  then have e: "r'\<lparr>rc_interview_id := None\<rparr> = r\<lparr>rc_interview_id := None\<rparr>" by simp
  have fields: "rc_owner_id x = rc_owner_id (x\<lparr>rc_interview_id := None\<rparr>)"
    "rc_client_recording_id x = rc_client_recording_id (x\<lparr>rc_interview_id := None\<rparr>)"
    "rc_seal_idempotency_key x = rc_seal_idempotency_key (x\<lparr>rc_interview_id := None\<rparr>)"
    "rc_seal_request_hash x = rc_seal_request_hash (x\<lparr>rc_interview_id := None\<rparr>)" for x
    by simp_all
  have "seal_of r' q" using assms(7) e unfolding sealed_by_def seal_of_def same_seal_def by (metis fields)
  moreover have "\<exists>m \<in> set (sc_tracks (sl_command q)). declared_as db' t m (sl_snapshot q)
      \<and> tr_total_sample_count t = Some (tm_total_sample_count m) \<and> tr_pcm_sha256 t = Some (tm_pcm_sha256 m)"
    if t: "t \<in> set (rdb_tracks db')" "tr_recording_id t = rc_id r" for t
  proof -
    have "t \<in> set (rdb_tracks db)" by (rule mem_by_filter [OF tracks t])
    then obtain m where m: "m \<in> set (sc_tracks (sl_command q))" "declared_as db t m (sl_snapshot q)"
      "tr_total_sample_count t = Some (tm_total_sample_count m)" "tr_pcm_sha256 t = Some (tm_pcm_sha256 m)"
      using assms(7) t(2) by (auto simp: sealed_by_def)
    have "track_parts db' (track_ref t) = track_parts db (track_ref t)"
      unfolding track_parts_def parts_of_track_def
      by (rule arg_cong, rule filter_by_part [OF parts]) (use t(2) in \<open>auto simp: part_track_def track_ref_def\<close>)
    moreover have "track_gaps db' (track_ref t) = track_gaps db (track_ref t)"
      unfolding track_gaps_def
      by (rule filter_by_part [OF gaps]) (use t(2) in \<open>auto simp: gap_track_def track_ref_def\<close>)
    ultimately show ?thesis using m by (auto simp: declared_as_def)
  qed
  ultimately show ?thesis using assms(6) by (simp add: sealed_by_def)
qed

lemma system_inv_step:
  assumes step: "recording_step cx s s'" and inv: "system_inv cx s"
  shows "system_inv cx s'"
proof -
  have I: "recording_inv (sy_db s)" "store_ok (cx_sha cx) (sy_store s)" "durable s"
    "sy_verified s \<subseteq> sy_accepted s"
    "\<forall>q \<in> sy_verified s. verify_pcm_hashes cx (sy_store s) (sl_command q) (sl_snapshot q) = Inr ()"
    using inv by (auto simp: system_inv_def)
  have inv': "recording_inv (sy_db s')" by (rule recording_step_inv [OF step I(1)])
  have "(\<forall>q \<in> sy_accepted s'. accepted_ok (sy_db s') q)
      \<and> (\<forall>r \<in> set (rdb_recordings (sy_db s')). is_stored (rc_state r) \<longrightarrow>
           (\<exists>q \<in> sy_verified s'. sealed_by (sy_db s') r q))" if nc: "no_collision s'"
  proof
    have acc: "\<forall>q \<in> sy_accepted s. accepted_ok (sy_db s) q"
      and sealed: "\<And>r. r \<in> set (rdb_recordings (sy_db s)) \<Longrightarrow> is_stored (rc_state r) \<Longrightarrow>
        \<exists>q \<in> sy_verified s. sealed_by (sy_db s) r q"
      using inv no_collision_before [OF step nc] by (auto simp: system_inv_def)
    show "\<forall>q \<in> sy_accepted s'. accepted_ok (sy_db s') q"
      by (rule recording_step_accepted [OF step I(1) nc acc])
    show "\<forall>r \<in> set (rdb_recordings (sy_db s')). is_stored (rc_state r) \<longrightarrow>
        (\<exists>q \<in> sy_verified s'. sealed_by (sy_db s') r q)"
    proof (intro ballI impI)
      fix r' assume r': "r' \<in> set (rdb_recordings (sy_db s'))" "is_stored (rc_state r')"
      have "\<forall>q \<in> sy_verified s. accepted_ok (sy_db s) q" using acc I(4) by blast
      from recording_step_stored [OF step I(1) this r']
      show "\<exists>q \<in> sy_verified s'. sealed_by (sy_db s') r' q"
      proof
        assume "\<exists>r \<in> set (rdb_recordings (sy_db s)). is_stored (rc_state r) \<and> rc_id r = rc_id r'"
        then obtain r where r: "r \<in> set (rdb_recordings (sy_db s))" "is_stored (rc_state r)" "rc_id r' = rc_id r"
          by auto
        from sealed [OF r(1,2)] obtain q where q: "q \<in> sy_verified s" "sealed_by (sy_db s) r q" by blast
        have "sealed_by (sy_db s') r' q"
          by (rule sealed_by_rows [OF recording_invD(2) [OF I(1)] recording_invD(2) [OF inv']
                recording_step_sealed_rows [OF step I(1) r(1,2)] r(1) r'(1) r(3) q(2)])
        then show ?thesis using q(1) recording_step_requests(2) [OF step] by blast
      qed (use recording_step_requests(2) [OF step] in blast)
    qed
  qed
  then show ?thesis
    unfolding system_inv_def
    using inv' recording_step_store(1) [OF step I(2)] recording_step_durable [OF step I(3)]
      recording_step_requests(3) [OF step I(4)] recording_step_verified [OF step I(2,5)]
    by blast
qed

lemma system_inv_reachable: "recording_reachable cx s \<Longrightarrow> system_inv cx s"
proof -
  assume "recording_reachable cx s"
  then obtain s0 where s0: "initial_system cx s0" and steps: "(recording_step cx)\<^sup>*\<^sup>* s0 s"
    by (auto simp: recording_reachable_def)
  have i: "system_inv cx s0"
    using s0 initial_recording_inv [OF s0] by (auto simp: initial_system_def system_inv_def durable_def)
  from steps i show ?thesis by (induction rule: rtranclp_induct) (auto intro: system_inv_step)
qed

section \<open>Accounting and durability\<close>

definition row_range :: "part_row \<Rightarrow> range" where
  "row_range p = (pt_sample_start p, part_end p)"

definition gap_row_range :: "gap_row \<Rightarrow> range" where
  "gap_row_range g = (ga_sample_start g, ga_sample_start g + ga_sample_count g)"

lemma disjoint_hits:
  assumes "distinct (map pt_id ps)" "parts_disjoint ps" "\<forall>p \<in> set ps. part_track p = ref"
  shows "hits i (map row_range ps) \<le> 1"
  using assms
proof (induction ps)
  case (Cons p ps)
  have ih: "hits i (map row_range ps) \<le> 1" using Cons by (simp add: parts_disjoint_def)
  have "hits i (map row_range ps) = 0" if i: "pt_sample_start p \<le> i" "i < part_end p"
  proof -
    have "\<not> (pt_sample_start q \<le> i \<and> i < part_end q)" if q: "q \<in> set ps" for q
    proof -
      have "pt_id p \<noteq> pt_id q" using Cons.prems(1) q by auto
      moreover have "part_track p = part_track q" using Cons.prems(3) q by simp
      ultimately have "part_end p \<le> pt_sample_start q \<or> part_end q \<le> pt_sample_start p"
        using Cons.prems(2) q by (auto simp: parts_disjoint_def)
      then show ?thesis using i by linarith
    qed
    then show ?thesis by (auto simp: hits_def row_range_def filter_empty_conv)
  qed
  with ih show ?case
    by (cases "pt_sample_start p \<le> i \<and> i < part_end p") (auto simp: row_range_def [of p])
qed simp

text \<open>
  C10. The accounting of a track is exact. However requests interleave, no sample of a track lies in
  two of its parts, the number and the bytes of its stored parts are those of the stored part rows,
  and while the track is not sealed its high-water mark is the end of the audio stored without a
  hole from the start.
\<close>

theorem track_accounting_is_exact:
  assumes "recording_reachable cx s" "t \<in> set (rdb_tracks (sy_db s))"
  shows "hits i (map row_range (parts_of_track (sy_db s) (track_ref t))) \<le> 1
    \<and> tr_stored_part_count t = int (length (stored_parts (sy_db s) (track_ref t)))
    \<and> tr_stored_byte_length t = sum_list (map pt_byte_length (stored_parts (sy_db s) (track_ref t)))
    \<and> (is_stored (tr_state t) \<or>
       tr_high_water_sample t = high_water 0 (stored_parts (sy_db s) (track_ref t)))"
proof -
  have inv: "recording_inv (sy_db s)" using system_inv_reachable [OF assms(1)] by (simp add: system_inv_def)
  note D = recording_invD [OF inv]
  have "hits i (map row_range (parts_of_track (sy_db s) (track_ref t))) \<le> 1"
  proof (rule disjoint_hits [where ref = "track_ref t"])
    show "distinct (map pt_id (parts_of_track (sy_db s) (track_ref t)))"
      using D(2) by (simp add: parts_of_track_def ids_ok_def distinct_map_filter)
    show "parts_disjoint (parts_of_track (sy_db s) (track_ref t))"
      using D(3) by (auto simp: parts_of_track_def parts_disjoint_def)
  qed (simp add: parts_of_track_def)
  moreover have "track_counts (sy_db s) t" using D(6) assms(2) by (simp add: list_all_iff)
  ultimately show ?thesis by (simp add: track_counts_def)
qed

lemma part_bytes:
  assumes "system_inv cx s" "p \<in> set (rdb_parts (sy_db s))" "objects (sy_store s) (pt_object_key p) = Some (y, data)"
  shows "cx_sha cx data = pt_plaintext_sha256 p"
proof -
  have "validate_key_sha256 (pt_object_key p) (so_sha256 y) = Inr (pt_object_key p, so_sha256 y)"
    "cx_sha cx data = so_sha256 y"
    using assms(1,3) by (auto simp: system_inv_def store_ok_def)
  moreover have "part_key_ok p"
    using assms(1,2) by (auto simp: system_inv_def recording_inv_def list_all_iff)
  ultimately show ?thesis
    by (auto simp: part_key_ok_def validate_key_sha256_def result_simps split: if_splits)
qed

text \<open>
  C11. An acknowledged part is durable. Whenever a part row says stored, which is what a receipt
  reports, the object store holds an object under the part's key, and the bytes of the object have
  the part's plaintext hash.
\<close>

theorem acknowledged_part_is_durable:
  assumes "recording_reachable cx s" "p \<in> set (rdb_parts (sy_db s))" "pt_stored p"
  shows "\<exists>y data. objects (sy_store s) (pt_object_key p) = Some (y, data)
    \<and> cx_sha cx data = pt_plaintext_sha256 p"
proof -
  have inv: "system_inv cx s" by (rule system_inv_reachable [OF assms(1)])
  then obtain z where z: "objects (sy_store s) (pt_object_key p) = Some z"
    using assms(2,3) by (auto simp: system_inv_def durable_def)
  obtain y data where "z = (y, data)" by (cases z)
  with part_bytes [OF inv assms(2)] z show ?thesis by blast
qed

section \<open>Stored recordings are intact\<close>

definition stored_bytes :: "crypto \<Rightarrow> object_store \<Rightarrow> part_row \<Rightarrow> string \<Rightarrow> bool" where
  "stored_bytes cx st p b \<longleftrightarrow>
     (\<exists>y. objects st (pt_object_key p) = Some (y, b))
     \<and> cx_sha cx b = pt_plaintext_sha256 p \<and> int (length b) = pt_byte_length p"

lemma verified_bytes:
  assumes inv: "system_inv cx s" and q: "q \<in> sy_verified s"
    and m: "m \<in> set (sc_tracks (sl_command q))" "declared_as (sy_db s) t m (sl_snapshot q)"
  shows "\<exists>bs. list_all2 (stored_bytes cx (sy_store s)) (track_parts (sy_db s) (track_ref t)) bs
    \<and> cx_sha cx (concat bs) = tm_pcm_sha256 m"
proof -
  let ?u = "tr_client_track_id t" and ?ps = "sn_parts (sl_snapshot q)" and ?st = "sy_store s"
  have id: "tm_track_id m = ?u" using m(2) by (simp add: declared_as_def)
  have "verify_pcm_hashes cx ?st (sl_command q) (sl_snapshot q) = Inr ()"
    using inv q by (simp add: system_inv_def)
  then obtain bytes where b: "read_parts ?st (map fst (declared_tracks (sl_command q))) ?ps = Inr bytes"
    "cx_sha cx (concat (map snd (filter (\<lambda>b. fst b = ?u) bytes))) = tm_pcm_sha256 m"
    using m(1) id by (auto simp: verify_pcm_hashes_def result_simps list_all_iff split: if_splits)
  have f: "list_all2 (\<lambda>p b. int (length b) = sp_byte_length p \<and> (\<exists>y. objects ?st (sp_object_key p) = Some (y, b)))
      (filter (\<lambda>p. sp_track_id p = ?u) ps) (map snd (filter (\<lambda>b. fst b = ?u) bs))"
    if "list_all2 (\<lambda>p b. fst b = sp_track_id p \<and> int (length (snd b)) = sp_byte_length p
        \<and> (\<exists>y. objects ?st (sp_object_key p) = Some (y, snd b)
             \<and> validate_object_key (sp_object_key p) = Inr (sp_object_key p))) ps bs" for ps bs
    using that by (induction rule: list_all2_induct) auto
  have g: "list_all2 (\<lambda>p b. int (length b) = pt_byte_length p \<and> (\<exists>y. objects ?st (pt_object_key p) = Some (y, b))) xs bs"
    if "list_all2 (\<lambda>p b. int (length b) = sp_byte_length p \<and> (\<exists>y. objects ?st (sp_object_key p) = Some (y, b))) ps bs"
      "map (\<lambda>p. (sp_byte_length p, sp_object_key p)) ps = map (\<lambda>p. (pt_byte_length p, pt_object_key p)) xs" for ps bs xs
    using that by (induction arbitrary: xs rule: list_all2_induct) auto
  have "list_all2 (\<lambda>p b. int (length b) = pt_byte_length p \<and> (\<exists>y. objects ?st (pt_object_key p) = Some (y, b)))
      (track_parts (sy_db s) (track_ref t)) (map snd (filter (\<lambda>b. fst b = ?u) bytes))"
    using m(2) by (intro g [OF f [OF read_parts_Inr [OF b(1)]]]) (simp add: declared_as_def)
  then have "list_all2 (stored_bytes cx ?st) (track_parts (sy_db s) (track_ref t))
      (map snd (filter (\<lambda>b. fst b = ?u) bytes))"
    by (rule list.rel_mono_strong)
      (auto simp: stored_bytes_def track_parts_def parts_of_track_def dest: part_bytes [OF inv])
  then show ?thesis using b(2) by blast
qed

lemma declared_coverage:
  assumes inv: "recording_inv db" and m: "validate_manifest m = Inr ()" "declared_as db t m sn"
  shows "hits i (map row_range (track_parts db (track_ref t)))
      + hits i (map gap_row_range (track_gaps db (track_ref t)))
    = (if 0 \<le> i \<and> i < tm_total_sample_count m then 1 else 0)"
proof -
  let ?ps = "track_parts db (track_ref t)" and ?gs = "track_gaps db (track_ref t)"
  have "tm_parts m = map descriptor ?ps" using m(2) by (simp add: declared_as_def)
  then have "map row_range ?ps = map part_range (tm_parts m)"
    by (simp add: row_range_def part_range_def descriptor_def part_end_def)
  moreover have "hits i (map gap_row_range ?gs) = hits i (map gap_range (tm_gaps m))"
  proof (rule hits_by_set)
    have "gap_range (gap_of g) = gap_row_range g" for g
      by (simp add: gap_range_def gap_of_def gap_row_range_def)
    then have "gap_row_range ` set ?gs = gap_range ` (gap_of ` set ?gs)" by (simp add: image_image)
    then show "set (map gap_row_range ?gs) = set (map gap_range (tm_gaps m))"
      using m(2) by (simp add: declared_as_def)
    have "distinct (map gp_sample_start (tm_gaps m))" by (rule manifest_distinct(3) [OF m(1)])
    then have "distinct (map fst (map gap_range (tm_gaps m)))" by (simp add: gap_range_def comp_def)
    then show "distinct (map gap_range (tm_gaps m))" by (simp only: distinct_map)
    have "distinct (map (\<lambda>g. (gap_track g, ga_sample_start g)) (rdb_gaps db))"
      using recording_invD(1) [OF inv] by (simp add: constraints_ok_def gap_keys_ok_def)
    then have "inj_on ga_sample_start (set ?gs)" "distinct ?gs"
      by (auto simp: distinct_map inj_on_def track_gaps_def)
    then show "distinct (map gap_row_range ?gs)" by (simp add: distinct_map inj_on_def gap_row_range_def)
  qed
  ultimately show ?thesis using manifest_covers [OF m(1), of i] by simp
qed

text \<open>
  C7. A stored recording is intact. However requests interleave, provided that no two accepted seal
  commands have the same hash: for every track of a stored recording, every sample from zero to
  the sealed total lies in exactly one stored part or one recorded gap and no other sample lies in
  any, the object of every part holds bytes with the recorded hash and length, and the bytes of
  the parts in sequence order hash to the sealed PCM hash.
\<close>

theorem stored_recording_is_intact:
  assumes "recording_reachable cx s" "no_collision s"
    "r \<in> set (rdb_recordings (sy_db s))" "is_stored (rc_state r)"
    "t \<in> set (rdb_tracks (sy_db s))" "tr_recording_id t = rc_id r"
  shows "\<exists>n h bs. tr_total_sample_count t = Some n \<and> tr_pcm_sha256 t = Some h
    \<and> (\<forall>i. hits i (map row_range (track_parts (sy_db s) (track_ref t)))
          + hits i (map gap_row_range (track_gaps (sy_db s) (track_ref t)))
        = (if 0 \<le> i \<and> i < n then 1 else 0))
    \<and> list_all2 (stored_bytes cx (sy_store s)) (track_parts (sy_db s) (track_ref t)) bs
    \<and> cx_sha cx (concat bs) = h"
proof -
  have inv: "system_inv cx s" by (rule system_inv_reachable [OF assms(1)])
  then obtain q where q: "q \<in> sy_verified s" "sealed_by (sy_db s) r q"
    using assms(2-4) by (auto simp: system_inv_def)
  then obtain m where m: "m \<in> set (sc_tracks (sl_command q))" "declared_as (sy_db s) t m (sl_snapshot q)"
    "tr_total_sample_count t = Some (tm_total_sample_count m)" "tr_pcm_sha256 t = Some (tm_pcm_sha256 m)"
    using assms(5,6) by (auto simp: sealed_by_def)
  have "accepted_ok (sy_db s) q" using inv q(1) assms(2) by (auto simp: system_inv_def)
  then have "validate_manifest m = Inr ()" using m(1) validate_seal_Inr(1) by (auto simp: accepted_ok_def)
  then show ?thesis
    using m declared_coverage [OF _ _ m(2)] verified_bytes [OF inv q(1) m(1,2)] inv
    by (auto simp: system_inv_def)
qed


section \<open>Requests are steps\<close>

datatype recording_request =
    Create_request "nat \<Rightarrow> instant" int create_command string
  | Upload_request "nat \<Rightarrow> instant" int part_upload string string string
  | Seal_request "nat \<Rightarrow> instant" instant int seal_command string
  | Attach_request int int uuid

text \<open>
  The world a request leaves, whether it answers or raises; a seal command that pydantic refuses
  does not reach the service.
\<close>

fun serve :: "crypto \<Rightarrow> recording_request \<Rightarrow> recording_world \<Rightarrow> recording_world" where
  "serve cx (Create_request clock owner_id c key) w = fst (create cx clock owner_id c key w)"
| "serve cx (Upload_request clock owner_id m part_key ciphertext key) w =
     fst (upload_part cx clock owner_id m part_key ciphertext key w)"
| "serve cx (Seal_request clock now owner_id c key) w =
     (if validate_seal c = Inr c then fst (seal cx clock now owner_id c key w) else w)"
| "serve cx (Attach_request owner_id i recording_id) w =
     (case attach_interview owner_id i recording_id (rw_db w) of
        Inl e \<Rightarrow> w | Inr db \<Rightarrow> w\<lparr>rw_db := db\<rparr>)"

definition leads_to :: "crypto \<Rightarrow> recording_system \<Rightarrow> recording_world \<Rightarrow> bool" where
  "leads_to cx s w \<longleftrightarrow> (\<exists>s'. (recording_step cx)\<^sup>*\<^sup>* s s' \<and> sy_world s' = w)"

lemma leads_to_refl [simp]: "leads_to cx s (sy_world s)"
  unfolding leads_to_def by blast

lemma leads_to_step: "recording_step cx s s' \<Longrightarrow> leads_to cx s' w \<Longrightarrow> leads_to cx s w"
  unfolding leads_to_def by (blast intro: converse_rtranclp_into_rtranclp)

lemma then_do_cases:
  "(\<And>e. snd x = Inl e \<Longrightarrow> P (fst x)) \<Longrightarrow> (\<And>a. snd x = Inr a \<Longrightarrow> P (fst (f (fst x) a))) \<Longrightarrow> P (fst (then_do x f))"
  by (auto simp: then_do_def split: sum.splits)

lemma step_simps [simp]:
  "fst (pure_step w r) = w" "snd (pure_step w r) = r"
  by (simp_all add: pure_step_def)

lemma transaction_Inr:
  "snd (transaction w f) = Inr a \<Longrightarrow> \<exists>db. f (rw_db w) = Inr (db, a) \<and> fst (transaction w f) = w\<lparr>rw_db := db\<rparr>"
  by (auto simp: transaction_def split: sum.splits)

lemma transaction_Inl: "snd (transaction w f) = Inl e \<Longrightarrow> fst (transaction w f) = w"
  by (auto simp: transaction_def split: sum.splits)

lemma transaction_cases:
  assumes "P w" "\<And>db a. f (rw_db w) = Inr (db, a) \<Longrightarrow> P (w\<lparr>rw_db := db\<rparr>)"
  shows "P (fst (transaction w f))"
  using assms by (auto simp: transaction_def split: sum.splits)

lemma with_db_world: "sy_world (with_db db s) = (sy_world s)\<lparr>rw_db := db\<rparr>"
  "sy_world (with_store st s) = (sy_world s)\<lparr>rw_objects := st\<rparr>"
  by (simp_all add: with_db_def with_store_def)

lemma create_leads: "leads_to cx s (fst (create cx clock owner_id c key (sy_world s)))"
  unfolding create_def
proof (rule then_do_cases)
  fix hash assume "snd (pure_step (sy_world s) (request_digest cx (create_json (cx_iso cx) c))) = Inr hash"
  show "leads_to cx s (fst (transaction (fst (pure_step (sy_world s)
      (request_digest cx (create_json (cx_iso cx) c)))) (repo_create clock owner_id c key hash)))"
  proof (simp, rule transaction_cases)
    fix db a assume "repo_create clock owner_id c key hash (sy_db s) = Inr (db, a)"
    from step_create [OF this] show "leads_to cx s ((sy_world s)\<lparr>rw_db := db\<rparr>)"
      by (rule leads_to_step) (metis leads_to_refl with_db_world(1))
  qed simp
qed simp

lemma upload_Inr:
  assumes "snd (upload_object cx msg (sy_world s) k body digest ct md) = Inr u"
  obtains st y where "put_immutable (cx_sha cx) (sy_store s) k [Bytes body] digest ct md = Inr (st, y)"
    "fst (upload_object cx msg (sy_world s) k body digest ct md) = sy_world (with_store st s)"
  using assms by (auto simp: upload_object_def with_db_world split: sum.splits)

lemma upload_Inl: "snd (upload_object cx msg w k body digest ct md) = Inl e \<Longrightarrow> fst (upload_object cx msg w k body digest ct md) = w"
  by (auto simp: upload_object_def split: sum.splits)

lemma ensure_part_object_leads:
  assumes ok: "store_ok (cx_sha cx) (sy_store s)"
    and r: "snd (ensure_part_object cx owner_id v plaintext (sy_world s)) = Inr u"
  obtains s' y where "s' = s \<or> recording_step cx s s'" "stat (sy_store s') (rs_object_key v) = Inr (Some y)"
    "fst (ensure_part_object cx owner_id v plaintext (sy_world s)) = sy_world s'"
proof (cases "stat (sy_store s) (rs_object_key v)")
  case (Inl e)
  then show ?thesis using r by (simp add: ensure_part_object_def)
next
  case (Inr found)
  show ?thesis
  proof (cases found)
    case (Some y)
    then show ?thesis using that [of s y] r Inr by (auto simp: ensure_part_object_def split: if_splits)
  next
    case None
    let ?md = "[(''owner-id'', int_str owner_id), (''recording-id'', rs_recording_id v),
             (''track-id'', rs_track_id v), (''sequence'', int_str (rs_sequence v))]"
    let ?up = "upload_object cx ''recording part storage is unavailable'' (sy_world s) (rs_object_key v) plaintext
            (rs_plaintext_sha256 v) ''application/vnd.tamforge.pcm-s16le'' ?md"
    have e: "ensure_part_object cx owner_id v plaintext (sy_world s) = ?up"
      using Inr None by (simp add: ensure_part_object_def)
    from r [unfolded e] obtain st y where p: "put_immutable (cx_sha cx) (sy_store s) (rs_object_key v)
        [Bytes plaintext] (rs_plaintext_sha256 v) ''application/vnd.tamforge.pcm-s16le'' ?md = Inr (st, y)"
      "fst ?up = sy_world (with_store st s)"
      by (rule upload_Inr)
    have "stat st (rs_object_key v) = Inr (Some y)" using put_immutable_ok [OF ok p(1)] by blast
    then show ?thesis using that [of "with_store st s" y] step_upload [OF p(1)] p(2) e by simp
  qed
qed

lemma ensure_part_object_Inl:
  "snd (ensure_part_object cx owner_id v plaintext w) = Inl e \<Longrightarrow>
     fst (ensure_part_object cx owner_id v plaintext w) = w"
  by (auto simp: ensure_part_object_def dest: upload_Inl split: sum.splits option.splits if_splits)

lemma upload_part_leads:
  assumes ok: "store_ok (cx_sha cx) (sy_store s)"
  shows "leads_to cx s (fst (upload_part cx clock owner_id m part_key ciphertext key (sy_world s)))"
  unfolding upload_part_def
proof (rule then_do_cases, simp_all, rule then_do_cases, simp_all, rule then_do_cases, simp_all, rule then_do_cases)
  fix plaintext k hash
  let ?tx = "transaction (sy_world s) (reserve_part clock owner_id m k key hash)"
  show "leads_to cx s (fst ?tx)" if "snd ?tx = Inl e" for e using transaction_Inl [OF that] by simp
  assume k: "recording_part_object_key owner_id m = Inr k"
  fix v assume v: "snd ?tx = Inr v"
  obtain db where db: "reserve_part clock owner_id m k key hash (sy_db s) = Inr (db, v)"
    "fst ?tx = sy_world (with_db db s)"
    using transaction_Inr [OF v] by (auto simp: with_db_world)
  note step = step_reserve [OF k db(1), of cx]
  let ?s = "with_db db s"
  have key: "rs_object_key v = k"
    using db(1) by (cases rule: reserve_part_cases) (auto simp: reservation_def same_part_def new_part_def)
  let ?en = "ensure_part_object cx owner_id v plaintext (sy_world ?s)"
  have "leads_to cx ?s (fst (then_do ?en (\<lambda>w _. transaction w (finalize_part (clock 1) owner_id m k key))))"
  proof (rule then_do_cases)
    show "leads_to cx ?s (fst ?en)" if "snd ?en = Inl e" for e
      using ensure_part_object_Inl [OF that] by simp
    fix u assume u: "snd ?en = Inr u"
    obtain s' y where s': "s' = ?s \<or> recording_step cx ?s s'" "stat (sy_store s') (rs_object_key v) = Inr (Some y)"
      "fst ?en = sy_world s'"
      by (rule ensure_part_object_leads [OF _ u]) (use ok in simp)
    have "leads_to cx s' (fst (transaction (sy_world s') (finalize_part (clock 1) owner_id m k key)))"
    proof (rule transaction_cases)
      fix db' a assume "finalize_part (clock 1) owner_id m k key (sy_db s') = Inr (db', a)"
      from step_store [OF s'(2) [unfolded key] this] show "leads_to cx s' ((sy_world s')\<lparr>rw_db := db'\<rparr>)"
        by (rule leads_to_step) (metis leads_to_refl with_db_world(1))
    qed simp
    then show "leads_to cx ?s (fst (transaction (fst ?en) (finalize_part (clock 1) owner_id m k key)))"
      using s'(1,3) leads_to_step by auto
  qed
  then show "leads_to cx s (fst (if rs_stored v then pure_step (fst ?tx) (receipt v True)
      else then_do (ensure_part_object cx owner_id v plaintext (fst ?tx))
        (\<lambda>w _. transaction w (finalize_part (clock 1) owner_id m k key))))"
    using leads_to_step [OF step] db(2) by simp
qed

lemma then_do_pure [simp]:
  "then_do (pure_step w r) f = (case r of Inl e \<Rightarrow> (w, Inl e) | Inr a \<Rightarrow> f w a)"
  by (cases r) (simp_all add: then_do_def)

lemma store_manifest_leads:
  assumes "store_manifest cx owner_id rid m (sy_world s) = (w, r)"
  shows "\<exists>s'. (s' = s \<or> recording_step cx s s') \<and> sy_world s' = w \<and> sy_verified s' = sy_verified s"
proof (cases "canonical_json_bytes (manifest_json m)")
  case (Inr body)
  show ?thesis
  proof (cases "storage_guard ''recording manifest storage is unavailable''
        (recording_manifest_object_key owner_id rid (tm_track_id m) (cx_sha cx body))")
    case k: (Inr k)
    let ?up = "upload_object cx ''recording manifest storage is unavailable'' (sy_world s) k body (cx_sha cx body)
        ''application/vnd.tamforge.recording-track-manifest+json'' [(''owner-id'', int_str owner_id),
         (''recording-id'', rid), (''track-id'', tm_track_id m)]"
    have w: "w = fst ?up"
      using assms Inr k by (simp add: store_manifest_def Let_def) (auto simp: then_do_def split: sum.splits)
    show ?thesis
    proof (cases "snd ?up")
      case (Inl e)
      then show ?thesis using upload_Inl [OF Inl] w by auto
    next
      case (Inr u)
      then show ?thesis using w by (elim upload_Inr) (use step_upload in fastforce)
    qed
  qed (use assms Inr in \<open>auto simp: store_manifest_def Let_def\<close>)
qed (use assms in \<open>auto simp: store_manifest_def\<close>)

lemma store_manifests_leads:
  assumes "store_manifests cx owner_id rid ms (sy_world s) = (w, r)"
  shows "\<exists>s'. (recording_step cx)\<^sup>*\<^sup>* s s' \<and> sy_world s' = w \<and> sy_verified s' = sy_verified s"
  using assms
proof (induction ms arbitrary: s r)
  case (Cons m ms)
  obtain w1 r1 where one: "store_manifest cx owner_id rid m (sy_world s) = (w1, r1)" by (cases "store_manifest cx owner_id rid m (sy_world s)")
  obtain s1 where s1: "s1 = s \<or> recording_step cx s s1" "sy_world s1 = w1" "sy_verified s1 = sy_verified s"
    using store_manifest_leads [OF one] by blast
  have first: "(recording_step cx)\<^sup>*\<^sup>* s s1" using s1(1) by auto
  show ?case
  proof (cases r1)
    case (Inl e)
    then show ?thesis using Cons.prems one s1 first by (auto simp: then_do_def)
  next
    case (Inr x)
    then have "fst (store_manifests cx owner_id rid ms (sy_world s1)) = w"
      using Cons.prems one s1(2) by (auto simp: then_do_def split: sum.splits)
    then obtain r2 where "store_manifests cx owner_id rid ms (sy_world s1) = (w, r2)" by (metis prod.collapse)
    from Cons.IH [OF this] show ?thesis using first s1(3) by (metis rtranclp_trans)
  qed
qed auto

lemma seal_leads:
  assumes c: "validate_seal c = Inr c"
  shows "leads_to cx s (fst (seal cx clock now owner_id c key (sy_world s)))"
proof (cases "recording_manifest_sha256 (cx_sha cx) (cx_iso cx) c")
  case (Inr hash)
  let ?tx = "transaction (sy_world s) (prepare_seal (cx_sha cx) clock owner_id c key hash)"
  have e: "seal cx clock now owner_id c key (sy_world s) = then_do ?tx (\<lambda>w snapshot.
     case sn_response snapshot of
       Some s \<Rightarrow> (w, Inr (s\<lparr>se_replayed := True\<rparr>))
     | None \<Rightarrow>
         then_do (pure_step w (validate_seal_manifest cx c (sn_stored_part_hashes snapshot))) (\<lambda>w _.
         then_do (pure_step w (verify_pcm_hashes cx (rw_objects w) c snapshot)) (\<lambda>w _.
         then_do (store_manifests cx owner_id (sc_recording_id c) (sc_tracks c) w) (\<lambda>w manifests.
         transaction w (finalize_seal now owner_id c key hash manifests)))))"
    by (simp add: seal_def Inr)
  show ?thesis
    unfolding e
  proof (rule then_do_cases)
    show "leads_to cx s (fst ?tx)" if "snd ?tx = Inl e" for e using transaction_Inl [OF that] by simp
    fix sn assume sn: "snd ?tx = Inr sn"
    obtain db where db: "prepare_seal (cx_sha cx) clock owner_id c key hash (sy_db s) = Inr (db, sn)"
      "fst ?tx = sy_world (with_db db s)"
      using transaction_Inr [OF sn] by (auto simp: with_db_world)
    let ?w = "sy_world (with_db db s)"
    let ?q = "\<lparr>sl_owner_id = owner_id, sl_command = c, sl_key = key, sl_hash = hash, sl_snapshot = sn\<rparr>"
    let ?sm = "store_manifests cx owner_id (sc_recording_id c) (sc_tracks c) ?w"
    show "leads_to cx s (fst (case sn_response sn of
       Some s \<Rightarrow> (fst ?tx, Inr (s\<lparr>se_replayed := True\<rparr>))
     | None \<Rightarrow>
         then_do (pure_step (fst ?tx) (validate_seal_manifest cx c (sn_stored_part_hashes sn))) (\<lambda>w _.
         then_do (pure_step w (verify_pcm_hashes cx (rw_objects w) c sn)) (\<lambda>w _.
         then_do (store_manifests cx owner_id (sc_recording_id c) (sc_tracks c) w) (\<lambda>w manifests.
         transaction w (finalize_seal now owner_id c key hash manifests))))))"
    proof (cases "sn_response sn")
      case (Some resp)
      have "db = sy_db s" using db(1) Some by (cases rule: prepare_seal_cases) auto
      then show ?thesis using Some db(2) by (simp add: with_db_world)
    next
      case None
      let ?s1 = "accept ?q (with_db db s)"
      note step1 = step_accept [OF c db(1) None]
      have done1: "leads_to cx s ?w" by (rule leads_to_step [OF step1]) (metis leads_to_refl system_simps(9))
      show ?thesis
      proof (cases "validate_seal_manifest cx c (sn_stored_part_hashes sn) = Inr ()
          \<and> verify_pcm_hashes cx (sy_store s) c sn = Inr ()")
        case False
        then show ?thesis using None done1 db(2) by (auto split: sum.splits)
      next
        case True
        have step2: "recording_step cx ?s1 (verified ?q ?s1)" by (rule step_verify) (use True in simp_all)
        have w: "sy_world (verified ?q ?s1) = ?w" by simp
        obtain r where r: "?sm = (fst ?sm, r)" by (metis prod.collapse)
        obtain s3 where s3': "(recording_step cx)\<^sup>*\<^sup>* (verified ?q ?s1) s3" "sy_world s3 = fst ?sm"
          "sy_verified s3 = sy_verified (verified ?q ?s1)"
          using store_manifests_leads [of cx owner_id "sc_recording_id c" "sc_tracks c" "verified ?q ?s1", unfolded w, OF r]
          by blast
        have "(recording_step cx)\<^sup>*\<^sup>* s s3"
          by (rule converse_rtranclp_into_rtranclp [OF step1 converse_rtranclp_into_rtranclp [OF step2 s3'(1)]])
        then have s3: "(recording_step cx)\<^sup>*\<^sup>* s s3" "sy_world s3 = fst ?sm" "?q \<in> sy_verified s3"
          using s3'(2,3) by simp_all
        have "leads_to cx s (fst (then_do ?sm (\<lambda>w manifests. transaction w (finalize_seal now owner_id c key hash manifests))))"
        proof (rule then_do_cases)
          show "leads_to cx s (fst ?sm)" using s3(1,2) unfolding leads_to_def by blast
          fix ms
          have "leads_to cx s3 (fst (transaction (sy_world s3) (finalize_seal now owner_id c key hash ms)))"
          proof (rule transaction_cases)
            fix db' a assume "finalize_seal now owner_id c key hash ms (sy_db s3) = Inr (db', a)"
            then have "recording_step cx s3 (with_db db' s3)" by (intro step_finish [OF s3(3)]) simp
            then show "leads_to cx s3 ((sy_world s3)\<lparr>rw_db := db'\<rparr>)"
              by (rule leads_to_step) (metis leads_to_refl with_db_world(1))
          qed simp
          then show "leads_to cx s (fst (transaction (fst ?sm) (finalize_seal now owner_id c key hash ms)))"
            using s3(1,2) unfolding leads_to_def by (metis rtranclp_trans)
        qed
        then show ?thesis using True None db(2) by simp
      qed
    qed
  qed
qed (simp add: seal_def)

lemma serve_leads:
  assumes "recording_reachable cx s"
  shows "leads_to cx s (serve cx req (sy_world s))"
proof -
  have ok: "store_ok (cx_sha cx) (sy_store s)"
    using system_inv_reachable [OF assms] by (simp add: system_inv_def)
  show ?thesis
  proof (cases req)
    case (Create_request clock owner_id c key)
    then show ?thesis using create_leads by simp
  next
    case (Upload_request clock owner_id m part_key ciphertext key)
    then show ?thesis using upload_part_leads [OF ok] by simp
  next
    case (Seal_request clock now owner_id c key)
    then show ?thesis using seal_leads by simp
  next
    case (Attach_request owner_id i recording_id)
    show ?thesis
    proof (cases "attach_interview owner_id i recording_id (sy_db s)")
      case (Inr db)
      have "leads_to cx s (sy_world (with_db db s))" by (rule leads_to_step [OF step_attach [OF Inr]]) simp
      then show ?thesis using Attach_request Inr by (simp add: with_db_world)
    qed (simp add: Attach_request)
  qed
qed

text \<open>The worlds of reachable systems are closed under requests.\<close>

definition reachable_world :: "crypto \<Rightarrow> recording_world \<Rightarrow> bool" where
  "reachable_world cx w \<longleftrightarrow> (\<exists>s. recording_reachable cx s \<and> sy_world s = w)"

definition serve_step :: "crypto \<Rightarrow> recording_world \<Rightarrow> recording_request \<Rightarrow> (recording_error, recording_world) result" where
  "serve_step cx w req = Inr (serve cx req w)"

interpretation recordings: guarded_system "serve_step cx" "reachable_world cx" for cx
proof
  fix w req w' assume "reachable_world cx w" "serve_step cx w req = Inr w'"
  then obtain s where s: "recording_reachable cx s" "w' = serve cx req (sy_world s)"
    by (auto simp: reachable_world_def serve_step_def)
  then obtain s' where "(recording_step cx)\<^sup>*\<^sup>* s s'" "sy_world s' = w'"
    using serve_leads [OF s(1), of req] by (auto simp: leads_to_def)
  moreover from this(1) s(1) have "recording_reachable cx s'"
    unfolding recording_reachable_def by (meson rtranclp_trans)
  ultimately show "reachable_world cx w'" unfolding reachable_world_def by blast
qed

text \<open>
  C13. Requests are sequences of steps. Whatever a create, upload, seal or attach request does,
  whether it answers or raises half-way, the world it leaves is one that steps of the interleaving
  relation lead to; so everything shown of reachable systems holds after any requests, and also
  between the transactions of one.
\<close>

theorem requests_are_steps:
  assumes "recording_reachable cx s"
  shows "(\<exists>s'. (recording_step cx)\<^sup>*\<^sup>* s s' \<and> sy_world s' = serve cx req (sy_world s))
    \<and> reachable_world cx (run_commands (serve_step cx) (sy_world s) reqs)"
proof
  show "\<exists>s'. (recording_step cx)\<^sup>*\<^sup>* s s' \<and> sy_world s' = serve cx req (sy_world s)"
    using serve_leads [OF assms] by (simp add: leads_to_def)
  have "reachable_world cx (sy_world s)" using assms unfolding reachable_world_def by blast
  then show "reachable_world cx (run_commands (serve_step cx) (sy_world s) reqs)" by (rule recordings.run_inv)
qed

end
