(* ===== verification/Recording_Limits.thy ===== *)
theory Recording_Limits
  imports Recording_Properties
begin

text \<open>
  Two limits of recording ingest: a seal refused after it was accepted leaves a recording that no
  corrected seal can close, and the largest manifest the contract allows does not fit its column.
\<close>

section \<open>A refused seal\<close>

lemma locked_recording_found:
  assumes "recording_inv db" "r \<in> set (rdb_recordings db)"
  shows "locked_recording db (rc_owner_id r) (rc_client_recording_id r) = Inr r"
proof (cases "locked_recording db (rc_owner_id r) (rc_client_recording_id r)")
  case (Inl e)
  with assms(2) show ?thesis by (auto simp: locked_recording_def find_None_iff split: option.splits)
next
  case (Inr r')
  from locked_recording_unique [OF assms(1) Inr assms(2)] Inr show ?thesis by simp
qed

lemma prepared_recording:
  assumes inv: "recording_inv db" and prep: "prepare_seal sha clock owner_id c key hash db = Inr (db', sn)"
    and fresh: "sn_response sn = None"
  obtains r where "locked_recording db' owner_id (sc_recording_id c) = Inr r" "rc_state r = State_sealing"
    "rc_seal_idempotency_key r = Some key" "rc_seal_request_hash r = Some hash"
  using prep
proof (cases rule: prepare_seal_cases)
  case (fresh r tracks ups gs db1 sealing)
  let ?r = "r\<lparr>rc_state := State_sealing, rc_seal_idempotency_key := Some key,
         rc_seal_request_hash := Some hash, rc_ended_at := Some (instant_of (sc_ended_at c))\<rparr>"
  have r: "r \<in> set (rdb_recordings db)" "rc_owner_id r = owner_id" "rc_client_recording_id r = sc_recording_id c"
    using locked_recording_Inr [OF fresh(2)] by auto
  then have "?r \<in> set (rdb_recordings db')"
    using reserve_gaps_rows [OF fresh(12)] by (auto simp: fresh(14) replace_row_def image_iff)
  from locked_recording_found [OF prepare_seal_inv [OF inv prep] this] r that [of ?r] show ?thesis by simp
qed (use fresh in simp)

text \<open>
  The repository commits the state \<open>sealing\<close> with the command's key and hash before the service
  compares the PCM hashes. When that comparison fails the request raises, the recording stays
  \<open>sealing\<close>, and every seal command with another hash, so every corrected one, is refused.
\<close>

theorem rejected_seal_locks_recording:
  assumes inv: "recording_inv (rw_db w)"
    and hash: "recording_manifest_sha256 (cx_sha cx) (cx_iso cx) c = Inr hash"
    and prep: "prepare_seal (cx_sha cx) clock owner_id c key hash (rw_db w) = Inr (db', sn)" "sn_response sn = None"
    and refused: "validate_seal_manifest cx c (sn_stored_part_hashes sn) = Inr ()"
      "verify_pcm_hashes cx (rw_objects w) c sn = Inl e"
    and other: "sc_recording_id c' = sc_recording_id c" "hash' \<noteq> hash"
  shows "seal cx clock now owner_id c key w = (w\<lparr>rw_db := db'\<rparr>, Inl e)
    \<and> (\<exists>m. prepare_seal (cx_sha cx) clock' owner_id c' key' hash' db' = Inl (RecordingConflict m))"
proof
  obtain r where r: "locked_recording db' owner_id (sc_recording_id c) = Inr r" "rc_state r = State_sealing"
    "rc_seal_idempotency_key r = Some key" "rc_seal_request_hash r = Some hash"
    by (rule prepared_recording [OF inv prep])
  then show "\<exists>m. prepare_seal (cx_sha cx) clock' owner_id c' key' hash' db' = Inl (RecordingConflict m)"
    using other by (simp add: prepare_seal_def is_stored_def same_seal_def)
  have "transaction w (prepare_seal (cx_sha cx) clock owner_id c key hash) = (w\<lparr>rw_db := db'\<rparr>, Inr sn)"
    using prep(1) by (simp add: transaction_def)
  then show "seal cx clock now owner_id c key w = (w\<lparr>rw_db := db'\<rparr>, Inl e)"
    using hash prep(2) refused by (simp add: seal_def then_do_def)
qed

section \<open>The largest manifest\<close>

text \<open>A lower bound for the length of the text of a JSON value.\<close>

fun least_length :: "json \<Rightarrow> nat" where
  "least_length (JInt i) = 1"
| "least_length (JStr s) = length s + 2"
| "least_length (JArr js) = Suc (sum_list (map (\<lambda>j. Suc (least_length j)) js))"
| "least_length (JObj kjs) = Suc (sum_list (map (\<lambda>(k, j). length k + 4 + least_length j) kjs))"
| "least_length j = 0"

lemma dump_char_length: "1 \<le> length (dump_char a c)"
  by (simp add: dump_char_def u_escape_def Let_def)

lemma dump_string_length: "length s + 2 \<le> length (dump_string a s)"
proof -
  have "length s \<le> length (concat (map (dump_char a) s))"
  proof (induction s)
    case (Cons c s)
    then show ?case using dump_char_length [of a c] by simp
  qed simp
  then show ?thesis by (simp add: dump_string_def)
qed

lemma least_length_dump:
  "least_length j \<le> length (dump_json a j)"
  "Suc (sum_list (map (\<lambda>j. Suc (least_length j)) js)) \<le> length (dump_elems a js)"
  "Suc (sum_list (map (\<lambda>(k, j). length k + 4 + least_length j) kjs)) \<le> length (dump_members a kjs)"
proof (induction a j and a js and a kjs rule: dump_json_dump_elems_dump_members.induct)
  case (3 a i)
  have "int_str i \<noteq> []" by (simp add: int_str_def)
  then show ?case by (cases "int_str i") simp_all
next
  case (9 a k j kjs)
  then show ?case using dump_string_length [of k a] by simp
next
  case (13 a k j kjs)
  then show ?case using dump_string_length [of k a] by simp
next
  case (5 a s)
  then show ?case using dump_string_length [of s a] by simp
qed simp_all

lemma sum_list_sort_key: "sum_list (map f (sort_key k xs)) = sum_list (map f xs)"
  for f :: "'a \<Rightarrow> nat"
proof -
  have "sum_list (map f (insort_key k x ys)) = f x + sum_list (map f ys)" for x ys
    by (induction ys) simp_all
  then show ?thesis by (induction xs) simp_all
qed

lemma least_length_sort: "least_length (sort_json j) = least_length j"
proof (induction j rule: sort_json.induct)
  case (1 js)
  then have "map (\<lambda>j. Suc (least_length (sort_json j))) js = map (\<lambda>j. Suc (least_length j)) js" by simp
  then show ?case by (simp add: comp_def del: map_eq_conv)
next
  case (2 kjs)
  then have "map (\<lambda>(k, j). length k + 4 + least_length (sort_json j)) kjs
      = map (\<lambda>(k, j). length k + 4 + least_length j) kjs" by auto
  then show ?case by (simp add: sum_list_sort_key comp_def case_prod_beta' del: map_eq_conv)
qed simp_all

lemma least_length_part:
  "sha256_shape (pd_plaintext_sha256 p) \<Longrightarrow> least_length (part_json p) = 150"
  by (simp add: part_json_def sha256_shape_def)

lemma least_length_manifest:
  assumes "list_all (\<lambda>p. sha256_shape (pd_plaintext_sha256 p)) (tm_parts m)"
  shows "151 * length (tm_parts m) \<le> length (dumps True (manifest_json m))"
proof -
  have "sum_list (map (\<lambda>j. Suc (least_length j)) (map part_json ps)) = 151 * length ps"
    if "list_all (\<lambda>p. sha256_shape (pd_plaintext_sha256 p)) ps" for ps
    using that by (induction ps) (simp_all add: least_length_part)
  from this [OF assms] have "151 * length (tm_parts m) \<le> least_length (manifest_json m)"
    by (simp add: manifest_json_def timeline_members_def)
  also have "\<dots> \<le> length (dumps True (manifest_json m))"
    unfolding dumps_def by (subst least_length_sort [symmetric]) (rule least_length_dump)
  finally show ?thesis .
qed

text \<open>
  A manifest with the number of parts the contract allows is always longer than its column's
  check allows, so its recording cannot be sealed.
\<close>

theorem full_manifest_exceeds_column:
  assumes "list_all (\<lambda>p. sha256_shape (pd_plaintext_sha256 p)) (tm_parts m)"
    "int (length (tm_parts m)) = MAX_PARTS"
  shows "\<exists>b. canonical_json_bytes (manifest_json m) = Inr b \<and> MAX_MANIFEST_BYTES < int (length b)"
  using least_length_manifest [OF assms(1)] assms(2) canonical_manifest [of m]
  by (simp add: MAX_MANIFEST_BYTES_def MAX_PARTS_def MAX_RECORDING_SECONDS_def)

end
