(* ===== verification/Recording_Examples.thy ===== *)
theory Recording_Examples
  imports Recording_Limits
begin

text \<open>
  One recording from creation to seal, evaluated: the concrete inputs at which the theorems on
  recordings are applied.
\<close>

section \<open>A recording\<close>

definition demo_crypto :: crypto where
  "demo_crypto = \<lparr>cx_sha = toy_hash, cx_decrypt = (\<lambda>k n c a. Some (take (length c - 16) c)),
     cx_iso = (\<lambda>t. ''2026-09-01T10:00:00Z'')\<rparr>"

definition demo_db :: recording_db where
  "demo_db = \<lparr>rdb_owners = [7], rdb_activities = [], rdb_interviews = [(7, 3)], rdb_classes = [],
     rdb_recordings = [], rdb_tracks = [], rdb_parts = [], rdb_gaps = [], rdb_next_id = 1\<rparr>"

definition demo_system :: recording_system where
  "demo_system = \<lparr>sy_world = \<lparr>rw_db = demo_db, rw_objects = empty_store 1000\<rparr>,
     sy_accepted = {}, sy_verified = {}\<rparr>"

definition demo_format :: "track_kind \<Rightarrow> pcm_format" where
  "demo_format k = \<lparr>pf_sample_encoding = ''pcm_s16le'', pf_sample_rate_hz = 48000,
     pf_channel_count = expected_channels k, pf_interleaved = True\<rparr>"

definition demo_create :: create_command where
  "demo_create = \<lparr>cc_recording_id = ''r'', cc_started_at = Aware 0 0,
     cc_tracks = [\<lparr>dl_track_id = ''m'', dl_kind = Microphone, dl_format = demo_format Microphone,
         dl_conversion_version = ''v1''\<rparr>,
       \<lparr>dl_track_id = ''s'', dl_kind = System_audio, dl_format = demo_format System_audio,
         dl_conversion_version = ''v1''\<rparr>],
     cc_activity_id = None, cc_interview_id = None, cc_english_class_id = None\<rparr>"

definition demo_upload :: part_upload where
  "demo_upload = \<lparr>pu_recording_id = ''r'', pu_track_id = ''m'', pu_track_kind = Microphone,
     pu_format = demo_format Microphone, pu_sequence = 0, pu_sample_start = 1, pu_sample_count = 2,
     pu_byte_length = 4, pu_ciphertext_byte_length = 20, pu_plaintext_sha256 = demo_digest,
     pu_ciphertext_sha256 = demo_digest, pu_nonce_base64url = ''AAAAAAAAAAAAAAAA'',
     pu_encryption_version = ENCRYPTION_VERSION\<rparr>"

definition demo_key :: string where
  "demo_key = ''recording-part/7/r-m-0/'' @ demo_digest"

definition demo_seal :: seal_command where
  "demo_seal = \<lparr>sc_recording_id = ''r'', sc_started_at = Aware 0 0, sc_ended_at = Aware 1000000 0,
     sc_coverage_status = Stored_with_gaps,
     sc_tracks = [demo_track Microphone ''m'',
       (demo_track System_audio ''s'')\<lparr>tm_parts := [], tm_source_lineage := [],
         tm_gaps := [\<lparr>gp_sample_start = 0, gp_sample_count = 5, gp_reason = Missing_audio\<rparr>]\<rparr>]\<rparr>"

section \<open>The run\<close>

fun left_by :: "'s \<Rightarrow> ('e, 's \<times> 'a) result \<Rightarrow> 's" where
  "left_by s (Inl e) = s"
| "left_by s (Inr (s', x)) = s'"

lemma left_by_ok:
  assumes "is_ok r" obtains x where "r = Inr (left_by s r, x)"
  using assms by (cases "(s, r)" rule: left_by.cases) auto

definition demo_created :: recording_db where
  "demo_created = left_by demo_db (repo_create (\<lambda>k. 10) 7 demo_create ''c1'' demo_digest demo_db)"

definition demo_reserved :: recording_db where
  "demo_reserved = left_by demo_created (reserve_part (\<lambda>k. 20) 7 demo_upload demo_key ''u1'' demo_digest demo_created)"

definition demo_store :: object_store where
  "demo_store = left_by (empty_store 1000) (put_immutable toy_hash (empty_store 1000) demo_key [Bytes ''abcd'']
     demo_digest ''application/vnd.tamforge.pcm-s16le'' [])"

definition demo_row :: recording_row where
  "demo_row = \<lparr>rc_id = 1, rc_owner_id = 7, rc_client_recording_id = ''r'', rc_state = State_uploading,
     rc_started_at = 0, rc_ended_at = None, rc_coverage_status = None, rc_create_idempotency_key = ''c1'',
     rc_create_request_hash = demo_digest,
     rc_create_result = \<lparr>cr_recording_id = ''r'', cr_state = State_reserved, cr_replayed = False\<rparr>,
     rc_seal_idempotency_key = None, rc_seal_request_hash = None, rc_seal_result = None,
     rc_audio_created_on_server = False, rc_activity_instance_id = None, rc_interview_id = None,
     rc_english_class_id = None, rc_transcript_lineage_accepted = False, rc_created_at = 10,
     rc_sealed_at = None\<rparr>"

definition demo_track_row :: "int \<Rightarrow> uuid \<Rightarrow> track_kind \<Rightarrow> recording_state \<Rightarrow> int \<Rightarrow> int \<Rightarrow> track_row" where
  "demo_track_row i u k st n b = \<lparr>tr_id = i, tr_owner_id = 7, tr_recording_id = 1, tr_client_track_id = u,
     tr_kind = k, tr_format = demo_format k, tr_conversion_version = ''v1'', tr_state = st,
     tr_high_water_sample = 0, tr_stored_part_count = n, tr_stored_byte_length = b,
     tr_total_sample_count = None, tr_pcm_sha256 = None, tr_timeline_sha256 = None,
     tr_manifest_object_key = None, tr_manifest_sha256 = None, tr_manifest_byte_length = None,
     tr_created_at = 10, tr_sealed_at = None\<rparr>"

definition demo_receipt :: part_receipt where
  "demo_receipt = \<lparr>rp_recording_id = ''r'', rp_track_id = ''m'', rp_sequence = 0, rp_sample_start = 1,
     rp_sample_count = 2, rp_plaintext_sha256 = demo_digest, rp_high_water_sample = 0,
     rp_replayed = False\<rparr>"

definition demo_part :: part_row where
  "demo_part = \<lparr>pt_id = 4, pt_owner_id = 7, pt_recording_id = 1, pt_track_id = 2, pt_sequence = 0,
     pt_sample_start = 1, pt_sample_count = 2, pt_byte_length = 4, pt_ciphertext_byte_length = 20,
     pt_plaintext_sha256 = demo_digest, pt_ciphertext_sha256 = demo_digest,
     pt_encryption_version = ENCRYPTION_VERSION, pt_idempotency_key = ''u1'',
     pt_request_hash = demo_digest, pt_object_key = demo_key, pt_stored = True,
     pt_result = Some demo_receipt, pt_created_at = 20, pt_stored_at = Some 30\<rparr>"

definition demo_uploaded :: recording_db where
  "demo_uploaded = demo_db\<lparr>rdb_recordings := [demo_row],
     rdb_tracks := [demo_track_row 2 ''m'' Microphone State_uploading 1 4,
       demo_track_row 3 ''s'' System_audio State_reserved 0 0],
     rdb_parts := [demo_part], rdb_next_id := 5\<rparr>"

definition demo_gap :: "int \<Rightarrow> int \<Rightarrow> int \<Rightarrow> int \<Rightarrow> gap_reason \<Rightarrow> gap_row" where
  "demo_gap i t start n reason = \<lparr>ga_id = i, ga_owner_id = 7, ga_recording_id = 1, ga_track_id = t,
     ga_sample_start = start, ga_sample_count = n, ga_reason = reason, ga_created_at = 40\<rparr>"

definition demo_sealing :: recording_db where
  "demo_sealing = demo_uploaded\<lparr>
     rdb_recordings := [demo_row\<lparr>rc_state := State_sealing, rc_ended_at := Some 1000000,
       rc_seal_idempotency_key := Some ''s1'', rc_seal_request_hash := Some demo_digest\<rparr>],
     rdb_tracks := [demo_track_row 2 ''m'' Microphone State_sealing 1 4,
       demo_track_row 3 ''s'' System_audio State_sealing 0 0],
     rdb_gaps := [demo_gap 5 2 0 1 Route_change, demo_gap 6 2 3 2 Missing_audio,
       demo_gap 7 3 0 5 Missing_audio], rdb_next_id := 8\<rparr>"

definition demo_snapshot :: seal_snapshot where
  "demo_snapshot = \<lparr>sn_stored_part_hashes = [((''m'', 0), demo_digest)],
     sn_parts = [\<lparr>sp_track_id = ''m'', sp_sequence = 0, sp_byte_length = 4, sp_object_key = demo_key\<rparr>],
     sn_response = None\<rparr>"

definition demo_manifests :: "stored_manifest list" where
  "demo_manifests = [(''m'', ''recording-manifest/7/r-m/'' @ demo_digest, demo_digest, 900),
     (''s'', ''recording-manifest/7/r-s/'' @ demo_digest, demo_digest, 900)]"

definition demo_response :: seal_response where
  "demo_response = \<lparr>se_recording_id = ''r'', se_state = State_stored_with_gaps,
     se_coverage_status = Stored_with_gaps, se_track_manifest_sha256 = (demo_digest, demo_digest),
     se_audio_created_on_server = True, se_transcript_lineage_accepted = False, se_replayed = False\<rparr>"

definition demo_stored_row :: recording_row where
  "demo_stored_row = demo_row\<lparr>rc_state := State_stored_with_gaps, rc_ended_at := Some 1000000,
     rc_coverage_status := Some Stored_with_gaps, rc_seal_idempotency_key := Some ''s1'',
     rc_seal_request_hash := Some demo_digest, rc_seal_result := Some demo_response,
     rc_audio_created_on_server := True, rc_sealed_at := Some 50\<rparr>"

definition demo_stored_track :: "int \<Rightarrow> uuid \<Rightarrow> track_kind \<Rightarrow> int \<Rightarrow> int \<Rightarrow> track_row" where
  "demo_stored_track i u k n b = (demo_track_row i u k State_stored_with_gaps n b)\<lparr>
     tr_high_water_sample := 5, tr_total_sample_count := Some 5, tr_pcm_sha256 := Some demo_digest,
     tr_timeline_sha256 := Some demo_digest,
     tr_manifest_object_key := Some (''recording-manifest/7/r-'' @ u @ ''/'' @ demo_digest),
     tr_manifest_sha256 := Some demo_digest, tr_manifest_byte_length := Some 900,
     tr_sealed_at := Some 50\<rparr>"

definition demo_sealed :: recording_db where
  "demo_sealed = demo_sealing\<lparr>rdb_recordings := [demo_stored_row],
     rdb_tracks := [demo_stored_track 2 ''m'' Microphone 1 4, demo_stored_track 3 ''s'' System_audio 0 0]\<rparr>"

lemma demo_created_ok:
  "is_ok (repo_create (\<lambda>k. 10) 7 demo_create ''c1'' demo_digest demo_db)"
  by code_simp

lemma demo_key_ok: "recording_part_object_key 7 demo_upload = Inr demo_key"
  by code_simp

lemma demo_reserved_ok:
  "is_ok (reserve_part (\<lambda>k. 20) 7 demo_upload demo_key ''u1'' demo_digest demo_created)"
  by code_simp

lemma demo_store_ok:
  "is_ok (put_immutable toy_hash (empty_store 1000) demo_key [Bytes ''abcd'']
     demo_digest ''application/vnd.tamforge.pcm-s16le'' [])"
  by code_simp

lemma demo_stat_ok: "case stat demo_store demo_key of Inr (Some y) \<Rightarrow> True | _ \<Rightarrow> False"
  by code_simp

lemma demo_uploaded_ok:
  "finalize_part 30 7 demo_upload demo_key ''u1'' demo_reserved = Inr (demo_uploaded, demo_receipt)"
  by code_simp

lemma demo_seal_valid: "validate_seal demo_seal = Inr demo_seal"
  by code_simp

lemma demo_timelines: "timelines_match toy_hash demo_seal = Inr True"
  by (simp add: timelines_match_def demo_seal_def timeline_sha256_ok toy_hash_def demo_track_def
      demo_digest_def)

definition demo_tracks :: "track_row list" where
  "demo_tracks = rdb_tracks demo_uploaded"

definition demo_gaps :: "(track_row \<times> recording_gap) list" where
  "demo_gaps = (case expected_gaps demo_tracks demo_seal of Inr gs \<Rightarrow> gs | Inl e \<Rightarrow> [])"

lemma demo_found:
  "locked_recording demo_uploaded 7 ''r'' = Inr demo_row"
  "tracks_of demo_uploaded 7 1 = demo_tracks"
  "parts_of_recording demo_uploaded 7 1 = [demo_part]"
  "with_track_ids demo_tracks [demo_part] = Inr [(''m'', demo_part)]"
  "expected_gaps demo_tracks demo_seal = Inr demo_gaps"
  by code_simp+

lemma demo_matches:
  "length demo_tracks = 2"
  "set (map tr_client_track_id demo_tracks) = set (map fst (declared_tracks demo_seal))"
  "dict_eq [stored_descriptor (''m'', demo_part)] (declared_descriptors demo_seal)"
  "is_ok (seal_tracks demo_tracks demo_seal)"
  by code_simp+

lemma demo_gaps_reserved:
  "reserve_gaps (\<lambda>k. 40) 7 1 demo_gaps demo_uploaded
     = Inr (demo_uploaded\<lparr>rdb_gaps := rdb_gaps demo_sealing, rdb_next_id := 8\<rparr>)"
  by code_simp

lemma demo_seal_tracks: "seal_tracks demo_tracks demo_seal = Inr (rdb_tracks demo_sealing)"
  by code_simp

lemma demo_sealing_flush: "flush demo_sealing = Inr demo_sealing"
  by code_simp

lemma demo_fields:
  "sc_recording_id demo_seal = ''r''" "rc_state demo_row = State_uploading" "rc_id demo_row = 1"
  "rc_started_at demo_row = instant_of (sc_started_at demo_seal)" "rc_seal_idempotency_key demo_row = None"
  "pt_stored demo_part"
  by code_simp+

lemma demo_updates:
  "set_recording (demo_row\<lparr>rc_state := State_sealing, rc_seal_idempotency_key := Some ''s1'',
       rc_seal_request_hash := Some demo_digest, rc_ended_at := Some (instant_of (sc_ended_at demo_seal))\<rparr>)
     (fold set_track (rdb_tracks demo_sealing)
       (demo_uploaded\<lparr>rdb_gaps := rdb_gaps demo_sealing, rdb_next_id := 8\<rparr>)) = demo_sealing"
  by code_simp

lemma demo_sealing_ok:
  "prepare_seal toy_hash (\<lambda>k. 40) 7 demo_seal ''s1'' demo_digest demo_uploaded
     = Inr (demo_sealing, demo_snapshot)"
  by (simp add: prepare_seal_def is_stored_def Let_def demo_found demo_matches demo_gaps_reserved demo_seal_tracks
      demo_sealing_flush demo_fields demo_updates demo_timelines del: set_map stored_descriptor.simps)
    (simp add: demo_snapshot_def demo_part_def)

lemma demo_object:
  "map_option snd (objects demo_store demo_key) = Some ''abcd''" "validate_object_key demo_key = Inr demo_key"
  by code_simp+

lemma demo_verify_ok: "verify_pcm_hashes demo_crypto demo_store demo_seal demo_snapshot = Inr ()"
proof -
  obtain y where y: "objects demo_store demo_key = Some (y, ''abcd'')" using demo_object(1) by auto
  then obtain chunks where c: "open_object demo_store demo_key = Inr chunks" "concat chunks = ''abcd''"
    using concat_chunks [of READ_CHUNK_BYTES "''abcd''"] demo_object(2)
    by (simp add: open_object_def READ_CHUNK_BYTES_def)
  then have "read_parts demo_store (map fst (declared_tracks demo_seal)) (sn_parts demo_snapshot)
      = Inr [(''m'', ''abcd'')]"
    by (simp add: demo_snapshot_def storage_guard_def declared_tracks_def demo_seal_def demo_track_def)
  then show ?thesis
    by (simp add: verify_pcm_hashes_def demo_crypto_def demo_seal_def demo_track_def toy_hash_def demo_digest_def)
qed

lemma demo_sealed_ok:
  "finalize_seal 50 7 demo_seal ''s1'' demo_digest demo_manifests demo_sealing
     = Inr (demo_sealed, demo_response)"
  by code_simp

section \<open>The states of the run\<close>

definition demo_uploaded_system :: recording_system where
  "demo_uploaded_system = with_db demo_uploaded (with_store demo_store (with_db demo_reserved
     (with_db demo_created demo_system)))"

definition demo_request :: sealing where
  "demo_request = \<lparr>sl_owner_id = 7, sl_command = demo_seal, sl_key = ''s1'', sl_hash = demo_digest,
     sl_snapshot = demo_snapshot\<rparr>"

definition demo_sealed_system :: recording_system where
  "demo_sealed_system = with_db demo_sealed (verified demo_request (accept demo_request
     (with_db demo_sealing demo_uploaded_system)))"

definition demo_attached :: recording_db where
  "demo_attached = (case attach_interview 7 3 ''r'' demo_sealed of Inr db \<Rightarrow> db | Inl e \<Rightarrow> demo_sealed)"

lemma demo_systems [simp]:
  "sy_db demo_system = demo_db" "sy_store demo_system = empty_store 1000"
  "sy_db demo_uploaded_system = demo_uploaded" "sy_store demo_uploaded_system = demo_store"
  "sy_db demo_sealed_system = demo_sealed" "sy_accepted demo_sealed_system = {demo_request}"
  by (simp_all add: demo_system_def demo_uploaded_system_def demo_sealed_system_def)

lemma demo_initial: "recording_reachable demo_crypto demo_system"
proof -
  have "initial_system demo_crypto demo_system"
    by (simp add: initial_system_def demo_db_def empty_store_ok) (simp add: demo_system_def)
  then show ?thesis unfolding recording_reachable_def by blast
qed

lemma demo_upload_steps: "(recording_step demo_crypto)\<^sup>*\<^sup>* demo_system demo_uploaded_system"
proof -
  let ?s1 = "with_db demo_created demo_system" and ?st = "recording_step demo_crypto"
  let ?s3 = "with_store demo_store (with_db demo_reserved ?s1)"
  obtain x where "repo_create (\<lambda>k. 10) 7 demo_create ''c1'' demo_digest (sy_db demo_system) = Inr (demo_created, x)"
    using left_by_ok [OF demo_created_ok, of demo_db] unfolding demo_created_def demo_systems by blast
  then have 1: "?st demo_system ?s1" by (rule step_create)
  obtain v where "reserve_part (\<lambda>k. 20) 7 demo_upload demo_key ''u1'' demo_digest (sy_db ?s1) = Inr (demo_reserved, v)"
    using left_by_ok [OF demo_reserved_ok, of demo_created] unfolding demo_reserved_def system_simps by blast
  from step_reserve [OF demo_key_ok this] have 2: "?st ?s1 (with_db demo_reserved ?s1)" .
  obtain y where "put_immutable (cx_sha demo_crypto) (sy_store (with_db demo_reserved ?s1)) demo_key [Bytes ''abcd'']
      demo_digest ''application/vnd.tamforge.pcm-s16le'' [] = Inr (demo_store, y)"
    using left_by_ok [OF demo_store_ok, of "empty_store 1000"]
    unfolding demo_store_def system_simps demo_systems demo_crypto_def crypto.simps by blast
  then have 3: "?st (with_db demo_reserved ?s1) ?s3" by (rule step_upload)
  obtain z where "stat (sy_store ?s3) demo_key = Inr (Some z)"
    using demo_stat_ok by (auto split: sum.splits option.splits)
  then have "?st ?s3 (with_db demo_uploaded ?s3)" by (rule step_store) (use demo_uploaded_ok in simp)
  then have 4: "?st ?s3 demo_uploaded_system" by (simp only: demo_uploaded_system_def)
  from converse_rtranclp_into_rtranclp [OF 1 converse_rtranclp_into_rtranclp [OF 2
      converse_rtranclp_into_rtranclp [OF 3 r_into_rtranclp [of ?st, OF 4]]]] show ?thesis .
qed

lemma demo_seal_steps: "(recording_step demo_crypto)\<^sup>*\<^sup>* demo_uploaded_system demo_sealed_system"
proof -
  let ?st = "recording_step demo_crypto" and ?s = "accept demo_request (with_db demo_sealing demo_uploaded_system)"
  from step_accept [OF demo_seal_valid _, of demo_crypto "\<lambda>k. 40" 7 "''s1''" demo_digest demo_uploaded_system demo_sealing demo_snapshot]
  have 1: "?st demo_uploaded_system ?s"
    using demo_sealing_ok by (simp add: demo_request_def demo_crypto_def demo_snapshot_def)
  have 2: "?st ?s (verified demo_request ?s)"
    by (rule step_verify) (use demo_verify_ok in \<open>simp_all add: demo_request_def\<close>)
  have "?st (verified demo_request ?s) (with_db demo_sealed (verified demo_request ?s))"
    by (intro step_finish [where q = demo_request and now = 50 and manifests = demo_manifests])
      (use demo_sealed_ok in \<open>simp_all add: demo_request_def\<close>)
  then have 3: "?st (verified demo_request ?s) demo_sealed_system" by (simp only: demo_sealed_system_def)
  from converse_rtranclp_into_rtranclp [OF 1 converse_rtranclp_into_rtranclp [OF 2
      r_into_rtranclp [of ?st, OF 3]]] show ?thesis .
qed

lemma demo_reachable:
  "recording_reachable demo_crypto demo_uploaded_system" "recording_reachable demo_crypto demo_sealed_system"
  using demo_initial demo_upload_steps demo_seal_steps unfolding recording_reachable_def
  by (meson rtranclp_trans)+

section \<open>The theorems on the run\<close>

lemma demo_rows:
  "demo_track_row 2 ''m'' Microphone State_uploading 1 4 \<in> set (rdb_tracks demo_uploaded)"
  "demo_part \<in> set (rdb_parts demo_uploaded)" "pt_stored demo_part"
  "track_ref (demo_track_row 2 ''m'' Microphone State_uploading 1 4) = (7, 1, 2)"
  by (simp_all add: demo_uploaded_def demo_part_def demo_track_row_def track_ref_def)

abbreviation demo_stored_mic :: track_row where
  "demo_stored_mic \<equiv> demo_stored_track 2 ''m'' Microphone 1 4"

lemma demo_sealed_rows:
  "demo_stored_row \<in> set (rdb_recordings demo_sealed)" "is_stored (rc_state demo_stored_row)"
  "demo_stored_mic \<in> set (rdb_tracks demo_sealed)" "tr_recording_id demo_stored_mic = rc_id demo_stored_row"
  "tr_total_sample_count demo_stored_mic = Some 5" "rc_id demo_stored_row = 1"
  by (simp_all add: demo_sealed_def demo_stored_row_def demo_stored_track_def demo_row_def demo_track_row_def
      is_stored_def)

theorem track_accounting_is_exact_witness:
  "recording_reachable demo_crypto demo_uploaded_system
   \<and> hits 1 (map row_range (parts_of_track demo_uploaded (7, 1, 2))) \<le> 1
   \<and> int (length (stored_parts demo_uploaded (7, 1, 2))) = 1
   \<and> sum_list (map pt_byte_length (stored_parts demo_uploaded (7, 1, 2))) = 4
   \<and> high_water 0 (stored_parts demo_uploaded (7, 1, 2)) = 0"
  using track_accounting_is_exact [OF demo_reachable(1), of
      "demo_track_row 2 ''m'' Microphone State_uploading 1 4" 1] demo_rows(1,4) demo_reachable(1)
  by (auto simp: demo_track_row_def is_stored_def)

theorem acknowledged_part_is_durable_witness:
  "recording_reachable demo_crypto demo_uploaded_system \<and> demo_part \<in> set (rdb_parts demo_uploaded)
   \<and> pt_stored demo_part
   \<and> (\<exists>y data. objects demo_store demo_key = Some (y, data) \<and> cx_sha demo_crypto data = demo_digest)"
  using acknowledged_part_is_durable [OF demo_reachable(1), of demo_part] demo_rows(2,3) demo_reachable(1)
  by (simp add: demo_part_def)

lemma demo_no_collision: "no_collision demo_sealed_system"
  by (simp add: no_collision_def)

theorem stored_recording_is_intact_witness:
  "recording_reachable demo_crypto demo_sealed_system \<and> no_collision demo_sealed_system
   \<and> is_stored (rc_state demo_stored_row)
   \<and> (\<exists>bs. list_all2 (stored_bytes demo_crypto (sy_store demo_sealed_system))
          (track_parts demo_sealed (track_ref demo_stored_mic)) bs)
   \<and> hits 4 (map row_range (track_parts demo_sealed (track_ref demo_stored_mic)))
     + hits 4 (map gap_row_range (track_gaps demo_sealed (track_ref demo_stored_mic))) = 1"
  using stored_recording_is_intact [OF demo_reachable(2) demo_no_collision, of demo_stored_row demo_stored_mic]
    demo_sealed_rows demo_reachable(2) demo_no_collision
  by auto

lemma demo_attached_ok: "attach_interview 7 3 ''r'' demo_sealed = Inr demo_attached"
proof -
  have "is_ok (attach_interview 7 3 ''r'' demo_sealed)" by code_simp
  then show ?thesis by (auto simp: demo_attached_def is_ok_iff)
qed


theorem requests_are_steps_witness:
  "recording_reachable demo_crypto demo_sealed_system
   \<and> (\<exists>s'. (recording_step demo_crypto)\<^sup>*\<^sup>* demo_sealed_system s'
        \<and> sy_world s' = serve demo_crypto (Attach_request 7 3 ''r'') (sy_world demo_sealed_system))
   \<and> reachable_world demo_crypto (run_commands (serve_step demo_crypto) (sy_world demo_sealed_system)
        [Attach_request 7 3 ''r'', Create_request (\<lambda>k. 60) 7 demo_create ''c2''])"
  using requests_are_steps [OF demo_reachable(2), of "Attach_request 7 3 ''r''"] demo_reachable(2) by blast

end
