(* ===== verification/Spec2Isabelle.thy ===== *)
theory Spec2Isabelle
  imports Schedule Cards Job_Liveness Memory_Context Evidence_Estimate Study_Properties
    Auth_Properties Recording_Examples
begin

text \<open>
  \<^bold>\<open>TAM Forge backend: a model of its core and the theorems that make it correct.\<close>

  TAM Forge is a study coach: a roadmap is planned into study days, each day holds timed
  activities, the learner commits an output and reviews it, background jobs have it analysed,
  the analysis becomes evidence that moves skill estimates, and agents read a bounded memory.
  The modelled code is the Python under \<^verbatim>\<open>src/apps/backend/src/tamforge_backend\<close> and
  \<^verbatim>\<open>src/packages/protocol/src/tamforge_protocol\<close>, with the database triggers of
  \<^verbatim>\<open>src/apps/backend/alembic/versions\<close>; file names below are relative to the first.

  \<^bold>\<open>Theories and sources.\<close>

  \<^item> \<open>Prelude\<close>, \<open>Strings\<close>, \<open>Decimal\<close>, \<open>Weighted_Mean\<close>, \<open>Json\<close>: what the components share. Results
    with errors as values, instants and dates, Python's slices, sorting, string, decimal and JSON
    semantics, and two interfaces as locales: \<open>guarded_system\<close> (operations that keep an
    invariant) and \<open>growing_system\<close> (operations that only extend what is recorded). Each stateful
    component interprets them on its own operations, and its properties over sequences of
    commands come from there.
  \<^item> \<open>Activity\<close>: \<^verbatim>\<open>learning/state_machine.py\<close>, \<^verbatim>\<open>learning/timers.py\<close>, \<^verbatim>\<open>learning/time_policy.py\<close>.
    \<open>Schedule\<close>: \<^verbatim>\<open>learning/scheduling.py\<close>. \<open>Cards\<close>: \<^verbatim>\<open>cards/scheduling.py\<close>.
  \<^item> \<open>Job_Rows\<close>, \<open>Jobs\<close>: the durable queue of \<^verbatim>\<open>jobs/\<close> and \<^verbatim>\<open>notifications/models.py\<close> with the
    trigger of \<^verbatim>\<open>20260828_0011\<close>; \<open>Job_Safety\<close>, \<open>Job_Properties\<close>, \<open>Job_Liveness\<close>: its theorems.
  \<^item> \<open>Ledger\<close>, \<open>Memory_Review\<close>, \<open>Memory_Safety\<close>, \<open>Memory_Context\<close>: \<^verbatim>\<open>tamforge_protocol/memory.py\<close>,
    \<^verbatim>\<open>memory/policy.py\<close>, \<^verbatim>\<open>memory/service.py\<close>, \<^verbatim>\<open>memory/context.py\<close>.
  \<^item> \<open>Evidence_Config\<close>, \<open>Evidence_Scoring\<close>, \<open>Evidence_Estimate\<close>: \<^verbatim>\<open>evidence/config_models.py\<close>,
    \<^verbatim>\<open>scoring.py\<close>, \<^verbatim>\<open>qualification.py\<close>, \<^verbatim>\<open>trend.py\<close>, \<^verbatim>\<open>confidence.py\<close>, \<^verbatim>\<open>portfolio.py\<close>.
  \<^item> \<open>Object_Store\<close>: \<^verbatim>\<open>storage/models.py\<close> and \<^verbatim>\<open>storage/fake.py\<close>. \<open>Output_Contract\<close>:
    \<^verbatim>\<open>learning/contracts.py\<close> and \<^verbatim>\<open>learning/artifacts.py\<close>.
  \<^item> \<open>Study_Rows\<close>: the tables, listeners, constraints and triggers of \<^verbatim>\<open>learning/models.py\<close>;
    \<open>Study_Service\<close> and \<open>Study_Outputs\<close>: every command of \<^verbatim>\<open>learning/service.py\<close>; \<open>Study_Step\<close>: the
    commands as a step relation; \<open>Study_Safety\<close>, \<open>Study_Properties\<close>: its invariant and theorems.

  \<^item> \<open>Oauth_State\<close>: \<^verbatim>\<open>auth/crypto.py\<close>. \<open>Audit_Contract\<close>: \<^verbatim>\<open>auth/audit.py\<close> and the database's own test of
    \<^verbatim>\<open>20260825_0001\<close>. \<open>Auth_Repository\<close>: the tables of \<^verbatim>\<open>auth/models.py\<close> and the transactions of
    \<^verbatim>\<open>auth/repository.py\<close>. \<open>Auth_Service\<close>: \<^verbatim>\<open>auth/service.py\<close>, where a request is several
    transactions that commit one by one. \<open>Auth_Safety\<close>, \<open>Auth_Properties\<close>: their invariant, the
    history they keep, and what sequences of requests guarantee.
  \<^item> \<open>Recording_Contract\<close>: \<^verbatim>\<open>recordings/schemas.py\<close> and \<^verbatim>\<open>contracts.py\<close>. \<open>Recording_Rows\<close>: the tables
    of \<^verbatim>\<open>recordings/models.py\<close>. \<open>Recording_Repository\<close>: the transactions of \<^verbatim>\<open>repository.py\<close>.
    \<open>Recording_Service\<close>: creation, upload and seal of \<^verbatim>\<open>service.py\<close> over the tables and the object
    store. \<open>Recording_Safety\<close>: the invariant of the tables; \<open>Recording_Steps\<close>: every transaction and
    every upload as one step of a relation in which requests interleave; \<open>Recording_Sealing\<close>: what
    an accepted seal says of the rows; \<open>Recording_Properties\<close>, \<open>Recording_Limits\<close>: the theorems;
    \<open>Recording_Examples\<close>: a recording from creation to seal, evaluated.

  \<^bold>\<open>How state and effects are modelled.\<close> A row is a record, a table a list of rows, a transaction a
  function from the database to an error or to the new database with the response; a raise leaves
  the database as it was. Every exception of the source is a constructor of the component's error
  type, so that an error the program does not handle is visible as such. ORM listeners, check
  constraints, unique indexes and triggers are separate definitions that a flush runs in order.
  What is not code of the repository is an argument: the hash, pydantic's reading of raw payloads,
  the object store, the clock and the random choices.

  \<^bold>\<open>What the lemmas show.\<close>

  \<^item> Study: an abstract step relation with one rule per effect is implemented by the commands; its
    invariant ties timers to active work, attempts to committed work and a day's minutes to its
    timers; evidence is append-only; a repeated request gets its first answer; the database
    triggers and the listeners agree.
  \<^item> Queue: rows stay valid, leases are exclusive, history is kept, claims follow the published
    order, starts are bounded, expired leases are recovered, storage never refuses a write.
  \<^item> Planning: budgets, required work, day numbering. Cards: the SM-2 bounds.
  \<^item> Memory: an append-only ledger, what each role may see, what an agent can and cannot cause.
  \<^item> Evidence: scores and estimates stay in the hull of what was observed in spite of rounding,
    weights are capped, the competency ladder follows qualifying evidence.
  \<^item> Storage and outputs: uploads and committed snapshots can be read back, and a commitment
    determines the evidence it was made for.

  \<^item> Authentication: only the configured owner signs in, an exchange code and an OAuth state work
    once, a replayed refresh token ends its session, a signed-out session stays out, lookups always
    answer, no secret reaches the audit trail.
  \<^item> Recordings: however requests interleave, parts never overlap and the counters are exact, an
    acknowledged part is in the object store, a stored recording covers every sample by a part or
    a gap, its bytes have the sealed hashes and its rows never change; requests refine the step
    relation. Two limits are proved as well: a refused seal leaves the recording locked, and the
    largest manifest the contract allows exceeds its column.

  \<^bold>\<open>Bounds and fuel.\<close> The JSON reader recurses on fuel; twice the length of the text plus two is
  enough for every text \<open>dumps\<close> writes, which its round trip proves. All other recursion is
  structural or has a termination proof. Columns declared as 32-bit integers carry that bound.

  \<^bold>\<open>Idealisations.\<close> A character is one of the first 256 code points. Datetimes do not overflow and
  two datetimes are compared as instants. Decimals never reach the limits of the exponent. In one
  flush the rows are written in a fixed order, which can change at most which of several errors
  is reported. Row locks make the transactions of one owner sequential; concurrency is the order
  of the transactions.

  \<^bold>\<open>Not modelled.\<close> HTTP routes, dependency wiring, configuration and the command line; the text
  of the migrations other than the triggers named above; the S3 adapter, the language model
  runtime, speech processing and embeddings, which are clients of services outside the
  repository; the macOS application, scripts and infrastructure, which are not Python services.
  Still open in the plan: creating and closing study days, the evidence repository,
  reviews, reports, roadmap import and the agents' role contracts.
\<close>

end
